(* ===== verification/Prelude.thy ===== *)
theory Prelude
  imports Main
begin

text \<open>
  Shared vocabulary of the development: the transaction monad in which every database command
  of \<^verbatim>\<open>packages/incident\<close> is written, its proof rules, and tables of rows addressed by a key.

  A transaction takes the database and either raises an error or returns a value and the new
  database. Raising inside \<^verbatim>\<open>with session_factory() as session\<close> closes the session without a
  commit, so an error carries no database: that is the roll-back.
\<close>

named_theorems tx_defs \<open>definitions of the transaction primitives\<close>
named_theorems keeps_rules \<open>which part of the database a transaction leaves alone\<close>
named_theorems post_rules \<open>what holds after a transaction\<close>
named_theorems inv_rules \<open>which invariants a transaction preserves\<close>

type_synonym ('s, 'e, 'a) tx = "'s \<Rightarrow> 'e + ('a \<times> 's)"

definition returnT :: "'a \<Rightarrow> ('s, 'e, 'a) tx" where
  [tx_defs]: "returnT x = (\<lambda>s. Inr (x, s))"

definition raiseT :: "'e \<Rightarrow> ('s, 'e, 'a) tx" where
  [tx_defs]: "raiseT e = (\<lambda>s. Inl e)"

definition bindT :: "('s, 'e, 'a) tx \<Rightarrow> ('a \<Rightarrow> ('s, 'e, 'b) tx) \<Rightarrow> ('s, 'e, 'b) tx" where
  [tx_defs]: "bindT m f = (\<lambda>s. case m s of Inl e \<Rightarrow> Inl e | Inr (x, s') \<Rightarrow> f x s')"

definition thenT :: "('s, 'e, 'a) tx \<Rightarrow> ('s, 'e, 'b) tx \<Rightarrow> ('s, 'e, 'b) tx" where
  [tx_defs]: "thenT m n = bindT m (\<lambda>_. n)"

definition getsT :: "('s \<Rightarrow> 'a) \<Rightarrow> ('s, 'e, 'a) tx" where
  [tx_defs]: "getsT f = (\<lambda>s. Inr (f s, s))"

definition modifyT :: "('s \<Rightarrow> 's) \<Rightarrow> ('s, 'e, unit) tx" where
  [tx_defs]: "modifyT f = (\<lambda>s. Inr ((), f s))"

definition guardT :: "bool \<Rightarrow> 'e \<Rightarrow> ('s, 'e, unit) tx" where
  [tx_defs]: "guardT b e = (if b then returnT () else raiseT e)"

text \<open>A Python \<^verbatim>\<open>for\<close> loop whose body is a transaction.\<close>

fun forT :: "'a list \<Rightarrow> ('a \<Rightarrow> ('s, 'e, unit) tx) \<Rightarrow> ('s, 'e, unit) tx" where
  "forT [] f = returnT ()"
| "forT (x # xs) f = thenT (f x) (forT xs f)"

text \<open>Statements executed one after the other for their effect.\<close>

fun seqT :: "('s, 'e, unit) tx list \<Rightarrow> ('s, 'e, unit) tx" where
  "seqT [] = returnT ()"
| "seqT (m # ms) = thenT m (seqT ms)"

text \<open>
  A command that runs one transaction and commits it: an error leaves the database as it was.
  Commands made of several transactions (\<^verbatim>\<open>revise\<close>, \<^verbatim>\<open>expire_approvals\<close>) are sequences of these.
\<close>

definition run_tx :: "('s, 'e, 'a) tx \<Rightarrow> 's \<Rightarrow> ('e + 'a) \<times> 's" where
  "run_tx m s = (case m s of Inl e \<Rightarrow> (Inl e, s) | Inr (x, s') \<Rightarrow> (Inr x, s'))"

lemma returnT_Inr [simp]: "returnT x s = Inr (y, s') \<longleftrightarrow> y = x \<and> s' = s"
  by (auto simp: returnT_def)

lemma raiseT_Inr [simp]: "raiseT e s \<noteq> Inr r"
  by (simp add: raiseT_def)

lemma raiseT_Inl [simp]: "raiseT e s = Inl e' \<longleftrightarrow> e' = e"
  by (auto simp: raiseT_def)

lemma bindT_Inr [simp]:
  "bindT m f s = Inr r \<longleftrightarrow> (\<exists>x s'. m s = Inr (x, s') \<and> f x s' = Inr r)"
  by (auto simp: bindT_def split: sum.splits)

lemma thenT_Inr [simp]:
  "thenT m n s = Inr r \<longleftrightarrow> (\<exists>x s'. m s = Inr (x, s') \<and> n s' = Inr r)"
  by (simp add: thenT_def)

lemma getsT_Inr [simp]: "getsT f s = Inr (x, s') \<longleftrightarrow> x = f s \<and> s' = s"
  by (auto simp: getsT_def)

lemma modifyT_Inr [simp]: "modifyT f s = Inr (x, s') \<longleftrightarrow> s' = f s"
  by (auto simp: modifyT_def)

lemma guardT_Inr [simp]: "guardT b e s = Inr (x, s') \<longleftrightarrow> b \<and> s' = s"
  by (auto simp: guardT_def)

lemma returnT_app: "returnT x s = Inr (x, s)" by (simp add: returnT_def)
lemma getsT_app: "getsT f s = Inr (f s, s)" by (simp add: getsT_def)
lemma modifyT_app: "modifyT f s = Inr ((), f s)" by (simp add: modifyT_def)
lemma raiseT_app: "raiseT e s = Inl e" by (simp add: raiseT_def)

lemma bindT_app:
  "bindT m f s = (case m s of Inl e \<Rightarrow> Inl e | Inr (x, s') \<Rightarrow> f x s')"
  by (simp add: bindT_def)

lemma thenT_app:
  "thenT m n s = (case m s of Inl e \<Rightarrow> Inl e | Inr (x, s') \<Rightarrow> n s')"
  by (simp add: thenT_def bindT_def)

lemma guardT_app: "guardT b e s = (if b then Inr ((), s) else Inl e)"
  by (simp add: guardT_def returnT_def raiseT_def)

lemmas tx_run = returnT_app getsT_app modifyT_app raiseT_app bindT_app thenT_app guardT_app

lemma run_tx_ok [simp]: "fst (run_tx m s) = Inr x \<longleftrightarrow> (\<exists>s'. m s = Inr (x, s'))"
  by (auto simp: run_tx_def split: sum.splits)

lemma run_tx_error_rolls_back: "m s = Inl e \<Longrightarrow> run_tx m s = (Inl e, s)"
  by (simp add: run_tx_def)

lemma run_tx_snd:
  "snd (run_tx m s) = (case m s of Inl e \<Rightarrow> s | Inr (x, s') \<Rightarrow> s')"
  by (auto simp: run_tx_def split: sum.splits)

subsection \<open>Relations between the database before and after\<close>

text \<open>
  \<open>relT R m\<close>: whenever \<open>m\<close> succeeds, the database before and the one after are related by \<open>R\<close>.
  For a reflexive and transitive \<open>R\<close> this is compositional; the locale proves the rules once, for
  frames (\<open>keepsT\<close>), invariants (\<open>invT\<close>) and the step relations of the components.
\<close>

definition relT :: "('s \<Rightarrow> 's \<Rightarrow> bool) \<Rightarrow> ('s, 'e, 'a) tx \<Rightarrow> bool" where
  "relT R m \<longleftrightarrow> (\<forall>s x s'. m s = Inr (x, s') \<longrightarrow> R s s')"

lemma relTD: "relT R m \<Longrightarrow> m s = Inr (x, s') \<Longrightarrow> R s s'"
  by (auto simp: relT_def)

lemma relTI: "(\<And>s x s'. m s = Inr (x, s') \<Longrightarrow> R s s') \<Longrightarrow> relT R m"
  by (auto simp: relT_def)

locale tx_relation =
  fixes R :: "'s \<Rightarrow> 's \<Rightarrow> bool"
  assumes rel_refl: "R s s"
    and rel_trans: "R s t \<Longrightarrow> R t u \<Longrightarrow> R s u"
begin

lemma rel_return: "relT R (returnT x)"
  by (simp add: relT_def rel_refl)

lemma rel_raise: "relT R (raiseT e)"
  by (simp add: relT_def)

lemma rel_gets: "relT R (getsT g)"
  by (simp add: relT_def rel_refl)

lemma rel_guard: "relT R (guardT b e)"
  by (simp add: relT_def rel_refl)

lemma rel_modify: "(\<And>s. R s (g s)) \<Longrightarrow> relT R (modifyT g)"
  by (simp add: relT_def)

lemma rel_bind:
  assumes "relT R m" and "\<And>x. relT R (n x)"
  shows "relT R (bindT m n)"
proof (rule relTI)
  fix s y s''
  assume "bindT m n s = Inr (y, s'')"
  then obtain x s' where "m s = Inr (x, s')" "n x s' = Inr (y, s'')" by auto
  then show "R s s''" using assms by (blast dest: relTD intro: rel_trans)
qed

lemma rel_bind_gets: "(\<And>s. relT R (n (g s))) \<Longrightarrow> relT R (bindT (getsT g) n)"
  by (auto simp: relT_def)

lemma rel_then: "relT R m \<Longrightarrow> relT R n \<Longrightarrow> relT R (thenT m n)"
  unfolding thenT_def by (rule rel_bind)

lemma rel_if: "(b \<Longrightarrow> relT R m) \<Longrightarrow> (\<not> b \<Longrightarrow> relT R n) \<Longrightarrow> relT R (if b then m else n)"
  by simp

lemma rel_let: "(\<And>x. x = v \<Longrightarrow> relT R (m x)) \<Longrightarrow> relT R (let x = v in m x)"
  by (simp add: Let_def)

lemma rel_option:
  "(v = None \<Longrightarrow> relT R m) \<Longrightarrow> (\<And>x. v = Some x \<Longrightarrow> relT R (n x)) \<Longrightarrow>
   relT R (case v of None \<Rightarrow> m | Some x \<Rightarrow> n x)"
  by (cases v) simp_all

lemma rel_prod: "(\<And>x y. v = (x, y) \<Longrightarrow> relT R (m x y)) \<Longrightarrow> relT R (case v of (x, y) \<Rightarrow> m x y)"
  by (cases v) simp

lemma rel_sum:
  "(\<And>x. v = Inl x \<Longrightarrow> relT R (m x)) \<Longrightarrow> (\<And>y. v = Inr y \<Longrightarrow> relT R (n y)) \<Longrightarrow>
   relT R (case v of Inl x \<Rightarrow> m x | Inr y \<Rightarrow> n y)"
  by (cases v) simp_all

lemma rel_for: "(\<And>x. relT R (m x)) \<Longrightarrow> relT R (forT xs m)"
  by (induction xs) (simp_all add: rel_return rel_then)

lemma rel_seq_Nil: "relT R (seqT [])"
  by (simp add: rel_return)

lemma rel_seq_Cons: "relT R m \<Longrightarrow> relT R (seqT ms) \<Longrightarrow> relT R (seqT (m # ms))"
  by (simp add: rel_then)

lemmas rules = rel_return rel_raise rel_gets rel_guard rel_bind rel_then rel_if rel_let
  rel_option rel_prod rel_sum rel_for rel_seq_Nil rel_seq_Cons

lemma rel_run_tx: "relT R m \<Longrightarrow> R s (snd (run_tx m s))"
  by (auto simp: run_tx_def rel_refl dest: relTD split: sum.splits)

end

text \<open>\<open>keepsT f m\<close>: a successful \<open>m\<close> leaves the part \<open>f\<close> of the database as it was.\<close>

definition keepsT :: "('s \<Rightarrow> 'b) \<Rightarrow> ('s, 'e, 'a) tx \<Rightarrow> bool" where
  "keepsT f m \<longleftrightarrow> relT (\<lambda>s s'. f s' = f s) m"

interpretation keeps: tx_relation "\<lambda>s s'. f s' = f s" for f
  by unfold_locales simp_all

lemmas keepsT_rules [keeps_rules] = keeps.rules [folded keepsT_def]

lemma keepsT_modify: "(\<And>s. f (g s) = f s) \<Longrightarrow> keepsT f (modifyT g)"
  unfolding keepsT_def by (rule keeps.rel_modify)

lemma keepsTD: "keepsT f m \<Longrightarrow> m s = Inr (x, s') \<Longrightarrow> f s' = f s"
  unfolding keepsT_def by (rule relTD)

text \<open>\<open>invT I m\<close>: a successful \<open>m\<close> takes databases satisfying \<open>I\<close> to databases satisfying \<open>I\<close>.\<close>

definition invT :: "('s \<Rightarrow> bool) \<Rightarrow> ('s, 'e, 'a) tx \<Rightarrow> bool" where
  "invT I m \<longleftrightarrow> relT (\<lambda>s s'. I s \<longrightarrow> I s') m"

interpretation inv: tx_relation "\<lambda>s s'. I s \<longrightarrow> I s'" for I
  by unfold_locales simp_all

lemmas invT_rules [inv_rules] = inv.rules [folded invT_def]

lemma invT_modify: "(\<And>s. I s \<Longrightarrow> I (g s)) \<Longrightarrow> invT I (modifyT g)"
  unfolding invT_def by (rule inv.rel_modify) simp

lemma invTD: "invT I m \<Longrightarrow> I s \<Longrightarrow> m s = Inr (x, s') \<Longrightarrow> I s'"
  unfolding invT_def using relTD [of "\<lambda>s s'. I s \<longrightarrow> I s'" m s x s'] by simp

lemma invT_run_tx: "invT I m \<Longrightarrow> I s \<Longrightarrow> I (snd (run_tx m s))"
  unfolding invT_def using inv.rel_run_tx [of I m s] by simp

text \<open>An invariant that reads only a part of the database is preserved by whatever keeps that part.\<close>

lemma invT_keeps: "keepsT f m \<Longrightarrow> invT (\<lambda>s. P (f s)) m"
  by (auto simp: invT_def keepsT_def relT_def)

text \<open>\<open>postT Q m\<close>: whenever \<open>m\<close> succeeds, its result and the new database satisfy \<open>Q\<close>.\<close>

definition postT :: "('a \<Rightarrow> 's \<Rightarrow> bool) \<Rightarrow> ('s, 'e, 'a) tx \<Rightarrow> bool" where
  "postT Q m \<longleftrightarrow> (\<forall>s x s'. m s = Inr (x, s') \<longrightarrow> Q x s')"

lemma postTD: "postT Q m \<Longrightarrow> m s = Inr (x, s') \<Longrightarrow> Q x s'"
  by (auto simp: postT_def)

lemma postT_bind [post_rules]: "(\<And>x. postT Q (n x)) \<Longrightarrow> postT Q (bindT m n)"
  by (auto simp: postT_def)

lemma postT_then [post_rules]: "postT Q n \<Longrightarrow> postT Q (thenT m n)"
  by (auto simp: postT_def)

lemma postT_if [post_rules]:
  "(b \<Longrightarrow> postT Q m) \<Longrightarrow> (\<not> b \<Longrightarrow> postT Q n) \<Longrightarrow> postT Q (if b then m else n)"
  by simp

lemma postT_let [post_rules]: "(\<And>x. postT Q (m x)) \<Longrightarrow> postT Q (let x = v in m x)"
  by (simp add: Let_def)

lemma postT_option [post_rules]:
  "(v = None \<Longrightarrow> postT Q m) \<Longrightarrow> (\<And>x. v = Some x \<Longrightarrow> postT Q (n x)) \<Longrightarrow>
   postT Q (case v of None \<Rightarrow> m | Some x \<Rightarrow> n x)"
  by (cases v) simp_all

lemma postT_prod [post_rules]: "(\<And>x y. postT Q (m x y)) \<Longrightarrow> postT Q (case v of (x, y) \<Rightarrow> m x y)"
  by (cases v) simp

lemma postT_raise [post_rules]: "postT Q (raiseT e)"
  by (simp add: postT_def)

subsection \<open>Tables of rows\<close>

text \<open>
  A table is the list of its rows in insertion order. \<^verbatim>\<open>session.get(Row, key)\<close> is
  \<open>lookup_row\<close>; assigning attributes of a loaded row is \<open>update_rows\<close>.
\<close>

definition lookup_row :: "('r \<Rightarrow> 'k) \<Rightarrow> 'k \<Rightarrow> 'r list \<Rightarrow> 'r option" where
  "lookup_row key k rs = find (\<lambda>r. key r = k) rs"

definition update_rows :: "('r \<Rightarrow> 'k) \<Rightarrow> 'k \<Rightarrow> ('r \<Rightarrow> 'r) \<Rightarrow> 'r list \<Rightarrow> 'r list" where
  "update_rows key k f rs = map (\<lambda>r. if key r = k then f r else r) rs"

lemma lookup_row_Nil [simp]: "lookup_row key k [] = None"
  by (simp add: lookup_row_def)

lemma lookup_row_Cons [simp]:
  "lookup_row key k (r # rs) = (if key r = k then Some r else lookup_row key k rs)"
  by (simp add: lookup_row_def)

lemma lookup_row_SomeD: "lookup_row key k rs = Some r \<Longrightarrow> r \<in> set rs \<and> key r = k"
  by (induction rs) (auto split: if_splits)

lemma lookup_row_None: "lookup_row key k rs = None \<longleftrightarrow> k \<notin> key ` set rs"
  by (induction rs) auto

lemma lookup_row_append:
  "lookup_row key k (rs @ qs) =
     (case lookup_row key k rs of None \<Rightarrow> lookup_row key k qs | Some r \<Rightarrow> Some r)"
  by (induction rs) auto

lemma lookup_row_distinct:
  "distinct (map key rs) \<Longrightarrow> r \<in> set rs \<Longrightarrow> lookup_row key (key r) rs = Some r"
  by (induction rs) (auto simp: image_iff)

lemma update_rows_simps [simp]:
  "update_rows key k f [] = []"
  "update_rows key k f (r # rs) = (if key r = k then f r else r) # update_rows key k f rs"
  by (simp_all add: update_rows_def)

lemma length_update_rows [simp]: "length (update_rows key k f rs) = length rs"
  by (simp add: update_rows_def)

lemma set_update_rows:
  "set (update_rows key k f rs) = (\<lambda>r. if key r = k then f r else r) ` set rs"
  by (simp add: update_rows_def)

lemma map_key_update_rows:
  "(\<And>r. key (f r) = key r) \<Longrightarrow> map key (update_rows key k f rs) = map key rs"
  by (simp add: update_rows_def comp_def)

lemma map_proj_update_rows:
  "(\<And>r. g (f r) = g r) \<Longrightarrow> map g (update_rows key k f rs) = map g rs"
  by (induction rs) simp_all

lemma lookup_update_rows:
  "(\<And>r. key (f r) = key r) \<Longrightarrow>
   lookup_row key k' (update_rows key k f rs) =
     (if k' = k then map_option f (lookup_row key k rs) else lookup_row key k' rs)"
  by (induction rs) auto

lemma update_rows_absent: "lookup_row key k rs = None \<Longrightarrow> update_rows key k f rs = rs"
  by (induction rs) (auto split: if_splits)

text \<open>
  The interface a database table gives its clients: read by key, insert a row, update the row of
  a key. The laws are what the handlers rely on; every table of the model is an interpretation.
\<close>

locale keyed_table =
  fixes rows :: "'s \<Rightarrow> 'r list"
    and key :: "'r \<Rightarrow> 'k"
    and get :: "'k \<Rightarrow> 's \<Rightarrow> 'r option"
    and insert_row :: "'r \<Rightarrow> 's \<Rightarrow> 's"
    and update :: "'k \<Rightarrow> ('r \<Rightarrow> 'r) \<Rightarrow> 's \<Rightarrow> 's"
  assumes get_rows: "get k s = lookup_row key k (rows s)"
    and rows_insert: "rows (insert_row r s) = rows s @ [r]"
    and rows_update: "rows (update k f s) = update_rows key k f (rows s)"
begin

lemma get_insert_other: "key r \<noteq> k \<Longrightarrow> get k (insert_row r s) = get k s"
  by (simp add: get_rows rows_insert lookup_row_append split: option.splits)

lemma get_insert_new: "get (key r) s = None \<Longrightarrow> get (key r) (insert_row r s) = Some r"
  by (simp add: get_rows rows_insert lookup_row_append)

lemma get_insert_old: "get k s = Some r \<Longrightarrow> get k (insert_row r' s) = Some r"
  by (simp add: get_rows rows_insert lookup_row_append)

lemma get_update_same:
  "(\<And>r. key (f r) = key r) \<Longrightarrow> get k (update k f s) = map_option f (get k s)"
  by (simp add: get_rows rows_update lookup_update_rows)

lemma get_update_other:
  "(\<And>r. key (f r) = key r) \<Longrightarrow> k' \<noteq> k \<Longrightarrow> get k' (update k f s) = get k' s"
  by (simp add: get_rows rows_update lookup_update_rows)

lemma getD: "get k s = Some r \<Longrightarrow> r \<in> set (rows s) \<and> key r = k"
  using lookup_row_SomeD [of key k "rows s" r] by (simp add: get_rows)

lemma get_None: "get k s = None \<longleftrightarrow> k \<notin> key ` set (rows s)"
  by (simp add: get_rows lookup_row_None)

lemma distinct_insert:
  "distinct (map key (rows s)) \<Longrightarrow> get (key r) s = None \<Longrightarrow>
   distinct (map key (rows (insert_row r s)))"
  by (simp add: rows_insert get_None)

lemma distinct_update:
  "(\<And>r. key (f r) = key r) \<Longrightarrow> distinct (map key (rows s)) \<Longrightarrow>
   distinct (map key (rows (update k f s)))"
  by (simp add: rows_update map_key_update_rows)

lemma get_of_row: "distinct (map key (rows s)) \<Longrightarrow> r \<in> set (rows s) \<Longrightarrow> get (key r) s = Some r"
  by (simp add: get_rows lookup_row_distinct)

end

end
