(* ===== verification/Py_Float.thy ===== *)
theory Py_Float
  imports Complex_Main
begin

text \<open>
  The Python numbers the program computes with. A \<^verbatim>\<open>float\<close> is the rational number it denotes;
  every arithmetic operation rounds its exact result to the nearest binary64 value, ties to even
  (\<open>rnd\<close>). The exponent range is not bounded: no value of the program comes near overflow or the
  subnormals. A \<^verbatim>\<open>datetime\<close> is its number of microseconds since the epoch and a \<^verbatim>\<open>timedelta\<close> its
  number of microseconds, which is Python's own resolution.
\<close>

type_synonym float64 = rat
type_synonym datetime = int
type_synonym timedelta = int

definition round_half_even :: "rat \<Rightarrow> int" where
  "round_half_even q =
     (let f = \<lfloor>q\<rfloor>; r = q - of_int f
      in if r < 1 / 2 then f else if r > 1 / 2 then f + 1 else if even f then f else f + 1)"

text \<open>\<open>bexp q\<close> is the binary exponent of a positive rational: \<open>2 ^ bexp q \<le> q < 2 ^ (bexp q + 1)\<close>.\<close>

function bexp :: "rat \<Rightarrow> int" where
  "bexp q = (if q \<le> 0 then 0 else if 2 \<le> q then bexp (q / 2) + 1
             else if q < 1 then bexp (q * 2) - 1 else 0)"
  by pat_completeness auto
termination
proof (relation "measure (\<lambda>q. if 2 \<le> q then nat \<lfloor>q\<rfloor> + 1 else if 0 < q \<and> q < 1 then nat \<lfloor>1 / q\<rfloor> else 0)",
    simp, goal_cases)
  case (1 q)
  then have "2 \<le> q" by simp
  then have "\<lfloor>q / 2\<rfloor> < \<lfloor>q\<rfloor>" by linarith
  with \<open>2 \<le> q\<close> show ?case by (auto simp: nat_less_eq_zless)
next
  case (2 q)
  then have q: "0 < q" "q < 1" by simp_all
  then have r: "1 / (q * 2) = (1 / q) / 2" "1 < 1 / q" by (simp_all add: field_simps)
  have half: "\<lfloor>t / 2\<rfloor> < \<lfloor>t\<rfloor>" if "1 < t" for t :: rat
  proof (cases "2 \<le> t")
    case True
    then show ?thesis by linarith
  next
    case False
    with that have "\<lfloor>t / 2\<rfloor> = 0" "\<lfloor>t\<rfloor> = 1" by (simp_all add: floor_eq_iff)
    then show ?thesis by simp
  qed
  have "\<lfloor>1 / (q * 2)\<rfloor> < \<lfloor>1 / q\<rfloor>" unfolding r(1) by (rule half) (rule r(2))
  moreover have "1 \<le> \<lfloor>1 / q\<rfloor>" using r(2) by (simp add: le_floor_iff)
  ultimately show ?case using q by (auto simp: nat_less_eq_zless)
qed

declare bexp.simps [simp del]

definition rnd :: "rat \<Rightarrow> float64" where
  "rnd q = (if q = 0 then 0
            else let u = 2 powi (bexp \<bar>q\<bar> - 52) in of_int (round_half_even (q / u)) * u)"

definition fadd :: "float64 \<Rightarrow> float64 \<Rightarrow> float64" where
  "fadd a b = rnd (a + b)"

definition fmul :: "float64 \<Rightarrow> float64 \<Rightarrow> float64" where
  "fmul a b = rnd (a * b)"

text \<open>\<^verbatim>\<open>timedelta(seconds=x)\<close> for an \<^verbatim>\<open>int\<close> and for a \<^verbatim>\<open>float\<close>; \<^verbatim>\<open>total_seconds()\<close>; \<^verbatim>\<open>timestamp()\<close>.\<close>

definition seconds :: "int \<Rightarrow> timedelta" where
  "seconds n = n * 1000000"

definition trunc :: "rat \<Rightarrow> int" where
  "trunc q = (if q < 0 then \<lceil>q\<rceil> else \<lfloor>q\<rfloor>)"

definition fseconds :: "float64 \<Rightarrow> timedelta" where
  "fseconds x =
     round_half_even (of_int (trunc x * 1000000) + rnd ((x - of_int (trunc x)) * 1000000))"

definition total_seconds :: "timedelta \<Rightarrow> float64" where
  "total_seconds d = rnd (of_int d / 1000000)"

definition timestamp :: "datetime \<Rightarrow> float64" where
  "timestamp t = total_seconds t"

subsection \<open>Rounding to an integer\<close>

lemma round_half_even_of_int [simp]: "round_half_even (of_int n) = n"
  by (simp add: round_half_even_def)

lemma round_half_even_floor: "\<lfloor>q\<rfloor> \<le> round_half_even q" "round_half_even q \<le> \<lfloor>q\<rfloor> + 1"
  by (auto simp: round_half_even_def Let_def)

lemma round_half_even_mono: "p \<le> q \<Longrightarrow> round_half_even p \<le> round_half_even q"
proof -
  assume pq: "p \<le> q"
  then have fl: "\<lfloor>p\<rfloor> \<le> \<lfloor>q\<rfloor>" by (rule floor_mono)
  show ?thesis
  proof (cases "\<lfloor>p\<rfloor> = \<lfloor>q\<rfloor>")
    case True
    with pq show ?thesis by (auto simp: round_half_even_def Let_def)
  next
    case False
    with fl have "\<lfloor>p\<rfloor> + 1 \<le> \<lfloor>q\<rfloor>" by simp
    with round_half_even_floor [of p] round_half_even_floor [of q] show ?thesis by linarith
  qed
qed

lemma round_half_even_ge: "of_int n \<le> q \<Longrightarrow> n \<le> round_half_even q"
  using round_half_even_mono [of "of_int n" q] by simp

lemma round_half_even_le: "q \<le> of_int n \<Longrightarrow> round_half_even q \<le> n"
  using round_half_even_mono [of q "of_int n"] by simp

subsection \<open>The binary exponent\<close>

lemma bexp_bounds:
  assumes "0 < q"
  shows "2 powi bexp q \<le> q" "q < 2 powi (bexp q + 1)"
proof -
  have "0 < q \<longrightarrow> 2 powi bexp q \<le> q \<and> q < 2 powi (bexp q + 1)"
  proof (induction q rule: bexp.induct)
    case (1 q)
    consider "q \<le> 0" | "2 \<le> q" | "0 < q" "q < 1" | "1 \<le> q" "q < 2" by linarith
    then show ?case
    proof cases
      case 2
      with "1.IH"(1) have "2 powi bexp (q / 2) \<le> q / 2 \<and> q / 2 < 2 powi (bexp (q / 2) + 1)" by simp
      with 2 show ?thesis by (simp add: bexp.simps [of q] power_int_add)
    next
      case 3
      with "1.IH"(2) have "2 powi bexp (q * 2) \<le> q * 2 \<and> q * 2 < 2 powi (bexp (q * 2) + 1)" by simp
      with 3 show ?thesis by (simp add: bexp.simps [of q] power_int_add power_int_diff)
    qed (simp_all add: bexp.simps [of q])
  qed
  with assms show "2 powi bexp q \<le> q" "q < 2 powi (bexp q + 1)" by simp_all
qed

lemma bexp_mono:
  assumes "0 < p" "p \<le> q"
  shows "bexp p \<le> bexp q"
proof (rule ccontr)
  assume "\<not> bexp p \<le> bexp q"
  then have "(2 :: rat) powi (bexp q + 1) \<le> 2 powi bexp p" by (intro power_int_increasing) auto
  with bexp_bounds [of p] bexp_bounds [of q] assms show False by linarith
qed

subsection \<open>Rounding to a float\<close>

lemma rnd_0 [simp]: "rnd 0 = 0"
  by (simp add: rnd_def)

lemma rnd_between:
  assumes "0 < q"
  shows "2 powi bexp q \<le> rnd q" "rnd q \<le> 2 powi (bexp q + 1)"
proof -
  let ?u = "(2 :: rat) powi (bexp q - 52)"
  have u: "0 < ?u" by simp
  have e1: "2 powi bexp q = (of_int (2 ^ 52) :: rat) * ?u"
    using power_int_add [of "2::rat" 52 "bexp q - 52"] by simp
  have e2: "2 powi (bexp q + 1) = (of_int (2 ^ 53) :: rat) * ?u"
    using power_int_add [of "2::rat" 53 "bexp q - 52"] by (simp add: add.commute)
  have r: "rnd q = of_int (round_half_even (q / ?u)) * ?u"
    using assms by (simp add: rnd_def Let_def)
  have "of_int (2 ^ 52) \<le> q / ?u" using bexp_bounds(1) [OF assms] u unfolding e1
    by (simp add: pos_le_divide_eq)
  then have "2 ^ 52 \<le> round_half_even (q / ?u)" by (rule round_half_even_ge)
  then have "(of_int (2 ^ 52) :: rat) \<le> of_int (round_half_even (q / ?u))"
    by (simp only: of_int_le_iff)
  then show "2 powi bexp q \<le> rnd q" unfolding e1 r by (intro mult_right_mono) (use u in auto)
  have "q / ?u \<le> of_int (2 ^ 53)" using bexp_bounds(2) [OF assms] u unfolding e2
    by (simp add: pos_divide_le_eq)
  then have "round_half_even (q / ?u) \<le> 2 ^ 53" by (rule round_half_even_le)
  then have "of_int (round_half_even (q / ?u)) \<le> (of_int (2 ^ 53) :: rat)"
    by (simp only: of_int_le_iff)
  then show "rnd q \<le> 2 powi (bexp q + 1)" unfolding e2 r by (intro mult_right_mono) (use u in auto)
qed

lemma rnd_nonneg: "0 \<le> q \<Longrightarrow> 0 \<le> rnd q"
proof (cases "q = 0")
  case False
  assume "0 \<le> q"
  with False have "2 powi bexp q \<le> rnd q" by (intro rnd_between) simp
  moreover have "(0 :: rat) \<le> 2 powi bexp q" by simp
  ultimately show ?thesis by linarith
qed simp

lemma rnd_mono_pos:
  assumes "0 < p" "p \<le> q"
  shows "rnd p \<le> rnd q"
proof (cases "bexp p = bexp q")
  case True
  let ?u = "(2 :: rat) powi (bexp q - 52)"
  have "p / ?u \<le> q / ?u" using assms by (simp add: divide_right_mono)
  then have "(of_int (round_half_even (p / ?u)) :: rat) \<le> of_int (round_half_even (q / ?u))"
    by (simp add: round_half_even_mono)
  then show ?thesis using assms True by (simp add: rnd_def Let_def mult_right_mono)
next
  case False
  with bexp_mono [OF assms] have "(2 :: rat) powi (bexp p + 1) \<le> 2 powi bexp q"
    by (intro power_int_increasing) auto
  with rnd_between(2) [of p] rnd_between(1) [of q] assms show ?thesis by linarith
qed

text \<open>Rounding is monotone, so comparing timestamps of instants never reverses their order.\<close>

lemma rnd_mono: "0 \<le> p \<Longrightarrow> p \<le> q \<Longrightarrow> rnd p \<le> rnd q"
  by (cases "p = 0") (auto simp: rnd_mono_pos rnd_nonneg)

lemma timestamp_mono: "0 \<le> s \<Longrightarrow> s \<le> t \<Longrightarrow> timestamp s \<le> timestamp t"
  by (simp add: timestamp_def total_seconds_def rnd_mono divide_right_mono)

lemma fadd_nonneg: "0 \<le> a \<Longrightarrow> 0 \<le> b \<Longrightarrow> 0 \<le> fadd a b"
  by (simp add: fadd_def rnd_nonneg)

lemma fmul_nonneg: "0 \<le> a \<Longrightarrow> 0 \<le> b \<Longrightarrow> 0 \<le> fmul a b"
  by (simp add: fmul_def rnd_nonneg)

subsection \<open>Evaluating \<open>rnd\<close> on numerals\<close>

lemma bexp_eqI:
  assumes "2 powi e \<le> q" "q < 2 powi (e + 1)"
  shows "bexp q = e"
proof -
  have q: "0 < q" using assms(1) by (meson less_le_trans zero_less_power_int zero_less_numeral)
  have "2 powi e < (2::rat) powi (bexp q + 1)" "(2::rat) powi bexp q < 2 powi (e + 1)"
    using assms bexp_bounds [OF q] by linarith+
  then have "e < bexp q + 1" "bexp q < e + 1"
    by (meson not_le power_int_increasing one_le_numeral)+
  then show ?thesis by simp
qed

lemma rnd_at:
  assumes "1 \<le> q * 2 ^ k" "q * 2 ^ k < 2"
  shows "rnd q = of_int (round_half_even (q * 2 ^ (52 + k))) / 2 ^ (52 + k)"
proof -
  have p: "(2::rat) powi (- int k) = 1 / 2 ^ k" "(2::rat) powi (- int k + 1) = 2 / 2 ^ k"
    "(2::rat) powi (- int k - 52) = 1 / 2 ^ (52 + k)"
    by (simp_all add: power_int_minus power_int_add power_int_diff power_add field_simps)
  have "bexp q = - int k"
    using assms by (intro bexp_eqI) (simp_all only: p, simp_all add: field_simps)
  moreover have "0 < q" using assms(1) by (metis less_le_trans zero_less_one zero_less_mult_pos2 zero_less_power zero_less_numeral)
  ultimately show ?thesis by (simp add: rnd_def p)
qed

lemma round_half_even_of_int_div:
  assumes "0 < b"
  shows "round_half_even (of_int a / of_int b) =
     (let f = a div b; r = a mod b in
        if 2 * r < b then f else if b < 2 * r then f + 1 else if even f then f else f + 1)"
proof -
  have fl: "\<lfloor>rat_of_int a / rat_of_int b\<rfloor> = a div b" by (simp add: floor_divide_of_int_eq)
  have "rat_of_int a / of_int b - of_int (a div b) = of_int (a mod b) / of_int b"
    using assms by (simp add: field_simps flip: of_int_mult of_int_add of_int_diff)
  moreover have "rat_of_int (a mod b) / of_int b < 1 / 2 \<longleftrightarrow> 2 * (a mod b) < b"
    "1 / 2 < rat_of_int (a mod b) / of_int b \<longleftrightarrow> b < 2 * (a mod b)"
    using assms of_int_less_iff [of "2 * (a mod b)" b, where 'a = rat]
      of_int_less_iff [of b "2 * (a mod b)", where 'a = rat]
    by (simp_all add: divide_less_eq less_divide_eq mult.commute)
  ultimately show ?thesis unfolding round_half_even_def Let_def fl by simp
qed

lemma round_half_even_numeral:
  "round_half_even (numeral a / numeral b) =
     (let f = numeral a div numeral b; r = numeral a mod (numeral b :: int) in
        if 2 * r < numeral b then f else if numeral b < 2 * r then f + 1
        else if even f then f else f + 1)"
  "round_half_even (numeral a) = numeral a"
  using round_half_even_of_int_div [of "numeral b" "numeral a"] round_half_even_of_int [of "numeral a"]
  by simp_all

lemmas rnd_numeral = rnd_at [of _ 0] rnd_at [of _ 1] rnd_at [of _ 2] rnd_at [of _ 3] rnd_at [of _ 4]
  round_half_even_numeral

end
