(* ===== verification/Py_Base.thy ===== *)
theory Py_Base
  imports Prelude Py_Float "HOL-Library.Char_ord" "HOL-Library.List_Lexorder"
begin

text \<open>
  Python values and the standard-library functions the sources call on them: \<^verbatim>\<open>str\<close>, \<^verbatim>\<open>repr\<close>,
  f-strings, \<^verbatim>\<open>str.join\<close>, dictionaries, and \<^verbatim>\<open>json.dumps(..., sort_keys=True,
  separators=(",", ":"))\<close>. A string is a list of code points below 256; a dictionary is the
  association list of its items in insertion order.
\<close>

type_synonym 'v dict = "(string \<times> 'v) list"

definition digit_char :: "nat \<Rightarrow> char" where
  "digit_char n = char_of (if n < 10 then 48 + n else 87 + n)"

function str_int :: "int \<Rightarrow> string" where
  "str_int i =
     (if i < 0 then ''-'' @ str_int (- i)
      else if i < 10 then [digit_char (nat i)]
      else str_int (i div 10) @ [digit_char (nat (i mod 10))])"
  by pat_completeness auto
termination
  by (relation "measure (\<lambda>i. nat \<bar>i\<bar> + (if i < 0 then 1 else 0))") auto

declare str_int.simps [simp del]

abbreviation str_nat :: "nat \<Rightarrow> string" where
  "str_nat n \<equiv> str_int (int n)"

fun join :: "string \<Rightarrow> string list \<Rightarrow> string" where
  "join sep [] = []"
| "join sep [x] = x"
| "join sep (x # y # ys) = x @ sep @ join sep (y # ys)"

definition startswith :: "string \<Rightarrow> string \<Rightarrow> bool" where
  "startswith s p \<longleftrightarrow> take (length p) s = p"

definition lower_char :: "char \<Rightarrow> char" where
  "lower_char c = (let n = (of_char c :: nat) in if 65 \<le> n \<and> n \<le> 90 then char_of (n + 32) else c)"

definition lower :: "string \<Rightarrow> string" where
  "lower s = map lower_char s"

definition hex2 :: "nat \<Rightarrow> string" where
  "hex2 n = [digit_char (n div 16), digit_char (n mod 16)]"

text \<open>\<^verbatim>\<open>repr\<close> of a string: single quotes unless it holds one and no double quote.\<close>

definition repr_char :: "char \<Rightarrow> char \<Rightarrow> string" where
  "repr_char q c =
     (let n = (of_char c :: nat)
      in if c = q \<or> n = 92 then [char_of (92 :: nat), c]
         else if n = 10 then [char_of (92 :: nat), CHR ''n'']
         else if n = 13 then [char_of (92 :: nat), CHR ''r'']
         else if n = 9 then [char_of (92 :: nat), CHR ''t'']
         else if n < 32 \<or> 127 \<le> n \<and> n \<le> 160 \<or> n = 173
           then [char_of (92 :: nat), CHR ''x''] @ hex2 n
         else [c])"

definition repr_str :: "string \<Rightarrow> string" where
  "repr_str s =
     (let q = (if CHR 0x27 \<in> set s \<and> CHR 0x22 \<notin> set s then CHR 0x22 else CHR 0x27)
      in [q] @ concat (map (repr_char q) s) @ [q])"

subsection \<open>Floats as text\<close>

text \<open>
  \<^verbatim>\<open>repr(float)\<close> is the shortest decimal that rounds back to the float. \<open>dec_exp\<close> is the decimal
  exponent; its fuel of 400 covers every binary64 value (exponents between -324 and 308).
\<close>

fun dec_exp :: "nat \<Rightarrow> rat \<Rightarrow> int" where
  "dec_exp 0 a = 0"
| "dec_exp (Suc k) a =
     (if 10 \<le> a then dec_exp k (a / 10) + 1 else if a < 1 then dec_exp k (a * 10) - 1 else 0)"

definition float_digits :: "rat \<Rightarrow> int \<Rightarrow> nat \<Rightarrow> int option" where
  "float_digits a e n =
     (let p = int n - 1 - e; x = a * 10 powi p
      in find (\<lambda>d. rnd (of_int d / 10 powi p) = a) [round_half_even x, \<lfloor>x\<rfloor>, \<lceil>x\<rceil>])"

fun shortest_digits :: "rat \<Rightarrow> int \<Rightarrow> nat list \<Rightarrow> int" where
  "shortest_digits a e [] = 0"
| "shortest_digits a e (n # ns) =
     (case float_digits a e n of Some d \<Rightarrow> d | None \<Rightarrow> shortest_digits a e ns)"

definition float_repr :: "float64 \<Rightarrow> string" where
  "float_repr x =
     (if x = 0 then ''0.0''
      else let a = \<bar>x\<bar>; e0 = dec_exp 400 a; d = shortest_digits a e0 [1..<18];
             e = (if of_int d / 10 powi (int (length (str_int d)) - 1) * 10 powi e0 < a / 2
                  then e0 + 1 else e0);
             ds = rev (dropWhile (\<lambda>c. c = CHR ''0'') (rev (str_int d)));
             body =
               (if -4 \<le> e \<and> e < 16 then
                  (if e < 0 then ''0.'' @ replicate (nat (- e - 1)) (CHR ''0'') @ ds
                   else if int (length ds) \<le> e + 1
                     then ds @ replicate (nat (e + 1) - length ds) (CHR ''0'') @ ''.0''
                   else take (nat (e + 1)) ds @ ''.'' @ drop (nat (e + 1)) ds)
                else take 1 ds @ (if length ds > 1 then ''.'' @ drop 1 ds else [])
                  @ ''e'' @ (if e < 0 then ''-'' else ''+'')
                  @ (let t = str_int \<bar>e\<bar> in if length t < 2 then CHR ''0'' # t else t))
           in (if x < 0 then ''-'' else []) @ body)"

subsection \<open>JSON documents\<close>

datatype json =
    JNull
  | JBool bool
  | JInt int
  | JFloat float64
  | JStr string
  | JList "json list"
  | JObj "(string \<times> json) list"

abbreviation jopt :: "('a \<Rightarrow> json) \<Rightarrow> 'a option \<Rightarrow> json" where
  "jopt f v \<equiv> (case v of None \<Rightarrow> JNull | Some x \<Rightarrow> f x)"

text \<open>\<^verbatim>\<open>d.get(k)\<close> on a value known to be a dictionary (\<^verbatim>\<open>None\<close> where it is not).\<close>

definition dget :: "'v dict \<Rightarrow> string \<Rightarrow> 'v option" where
  "dget d k = map_of d k"

definition jget :: "json dict \<Rightarrow> string \<Rightarrow> json" where
  "jget d k = (case map_of d k of None \<Rightarrow> JNull | Some v \<Rightarrow> v)"

text \<open>\<^verbatim>\<open>x or {}\<close> for a value that is a dictionary or \<^verbatim>\<open>None\<close>.\<close>

definition jdict :: "json \<Rightarrow> json dict" where
  "jdict j = (case j of JObj d \<Rightarrow> d | _ \<Rightarrow> [])"

text \<open>\<^verbatim>\<open>d[k] = v\<close> and \<open>{**d, ...}\<close>.\<close>

fun dset :: "'v dict \<Rightarrow> string \<Rightarrow> 'v \<Rightarrow> 'v dict" where
  "dset [] k v = [(k, v)]"
| "dset ((k', v') # d) k v = (if k' = k then (k, v) # d else (k', v') # dset d k v)"

definition dmerge :: "'v dict \<Rightarrow> 'v dict \<Rightarrow> 'v dict" where
  "dmerge d d' = fold (\<lambda>(k, v) acc. dset acc k v) d' d"

lemma map_of_dset [simp]: "map_of (dset d k v) = (map_of d)(k \<mapsto> v)"
  by (induction d k v rule: dset.induct) (auto simp: fun_eq_iff)

text \<open>Truthiness, \<^verbatim>\<open>==\<close> and \<^verbatim>\<open>str\<close>. Booleans and numbers compare by value, as in Python.\<close>

fun truthy :: "json \<Rightarrow> bool" where
  "truthy JNull = False"
| "truthy (JBool b) = b"
| "truthy (JInt i) = (i \<noteq> 0)"
| "truthy (JFloat q) = (q \<noteq> 0)"
| "truthy (JStr s) = (s \<noteq> [])"
| "truthy (JList xs) = (xs \<noteq> [])"
| "truthy (JObj d) = (d \<noteq> [])"

fun jnum :: "json \<Rightarrow> rat option" where
  "jnum (JBool b) = Some (if b then 1 else 0)"
| "jnum (JInt i) = Some (of_int i)"
| "jnum (JFloat q) = Some q"
| "jnum _ = None"

lemma size_zip_json: "((x :: json), y) \<in> set (zip xs ys) \<Longrightarrow> size x < Suc (size_list size xs)"
  by (drule set_zip_leftD) (simp add: size_list_estimation' less_Suc_eq_le)

lemma size_item_json: "(k, (v :: json)) \<in> set d \<Longrightarrow>
  size v < Suc (size_list (size_prod (\<lambda>_. 0) size) d)"
  by (induction d) auto

function (sequential) py_eq :: "json \<Rightarrow> json \<Rightarrow> bool" where
  "py_eq JNull JNull = True"
| "py_eq (JStr s) (JStr t) = (s = t)"
| "py_eq (JList xs) (JList ys) =
     (length xs = length ys \<and> list_all (\<lambda>(x, y). py_eq x y) (zip xs ys))"
| "py_eq (JObj d) (JObj d') =
     (length d = length d' \<and>
      list_all (\<lambda>(k, v). case map_of d' k of None \<Rightarrow> False | Some w \<Rightarrow> py_eq v w) d)"
| "py_eq a b = (case (jnum a, jnum b) of (Some x, Some y) \<Rightarrow> x = y | _ \<Rightarrow> False)"
  by pat_completeness auto

termination
  by (relation "measure (\<lambda>(a, b). size a)") (auto simp: size_zip_json size_item_json)

fun str_json :: "json \<Rightarrow> string" and repr_json :: "json \<Rightarrow> string" where
  "str_json (JStr s) = s"
| "str_json j = repr_json j"
| "repr_json JNull = ''None''"
| "repr_json (JBool b) = (if b then ''True'' else ''False'')"
| "repr_json (JInt i) = str_int i"
| "repr_json (JFloat q) = float_repr q"
| "repr_json (JStr s) = repr_str s"
| "repr_json (JList xs) = ''['' @ join '', '' (map repr_json xs) @ '']''"
| "repr_json (JObj d) =
     ''{'' @ join '', '' (map (\<lambda>(k, v). repr_str k @ '': '' @ repr_json v) d) @ ''}''"

text \<open>\<^verbatim>\<open>json.dumps\<close> with sorted keys and no blanks (non-ASCII characters are escaped).\<close>

definition dumps_char :: "char \<Rightarrow> string" where
  "dumps_char c =
     (let n = (of_char c :: nat); b = char_of (92 :: nat)
      in if n = 34 \<or> n = 92 then [b, c]
         else if n = 10 then [b, CHR ''n''] else if n = 13 then [b, CHR ''r'']
         else if n = 9 then [b, CHR ''t''] else if n = 8 then [b, CHR ''b'']
         else if n = 12 then [b, CHR ''f'']
         else if n < 32 \<or> 126 < n then [b] @ ''u00'' @ hex2 n
         else [c])"

definition dumps_str :: "string \<Rightarrow> string" where
  "dumps_str s = [CHR 0x22] @ concat (map dumps_char s) @ [CHR 0x22]"

fun dumps :: "json \<Rightarrow> string" where
  "dumps JNull = ''null''"
| "dumps (JBool b) = (if b then ''true'' else ''false'')"
| "dumps (JInt i) = str_int i"
| "dumps (JFloat q) = float_repr q"
| "dumps (JStr s) = dumps_str s"
| "dumps (JList xs) = ''['' @ join '','' (map dumps xs) @ '']''"
| "dumps (JObj d) =
     ''{'' @ join '','' (map (\<lambda>(k, t). dumps_str k @ '':'' @ t)
                             (sort_key fst (map (\<lambda>(k, v). (k, dumps v)) d))) @ ''}''"

text \<open>Sorting the keys makes the text independent of the order of the items.\<close>

lemma sort_key_fst_unique:
  assumes "set xs = set ys" and "distinct (map fst xs)" and "distinct (map fst ys)"
  shows "sort_key fst xs = sort_key fst ys"
proof (rule map_sorted_distinct_set_unique)
  have d: "distinct (map fst (sort_key fst zs)) = distinct (map fst zs)" for zs :: "('a \<times> 'b) list"
    by (metis distinct_map set_sort distinct_sort)
  show "inj_on fst (set (sort_key fst xs) \<union> set (sort_key fst ys))"
    using assms by (simp add: distinct_map)
  show "distinct (map fst (sort_key fst xs))" "distinct (map fst (sort_key fst ys))"
    using assms(2,3) by (simp_all add: d)
qed (use assms(1) in simp_all)

lemma dumps_JObj_order:
  assumes "set d = set d'" and "distinct (map fst d)" and "distinct (map fst d')"
  shows "dumps (JObj d) = dumps (JObj d')"
proof -
  let ?f = "\<lambda>(k, v). (k, dumps v)"
  have "sort_key fst (map ?f d) = sort_key fst (map ?f d')"
    by (rule sort_key_fst_unique) (use assms in \<open>auto simp: comp_def case_prod_beta\<close>)
  then show ?thesis by simp
qed

end
