(* ===== verification/Py_Hash.thy ===== *)
theory Py_Hash
  imports Py_Base "HOL-Library.Word"
begin

text \<open>
  \<^verbatim>\<open>hashlib.sha256\<close> (FIPS 180-4) on byte strings, and the two ways the sources read a digest: the
  64 hexadecimal digits of \<^verbatim>\<open>hexdigest()\<close>, and \<^verbatim>\<open>int.from_bytes(digest[:8], "big")\<close>.
  Nothing is assumed of the hash function but what the definition gives.
\<close>

unbundle bit_operations_syntax

type_synonym u8 = "8 word"
type_synonym u32 = "32 word"

text \<open>
  The constants of the standard: the first 32 bits of the fractional parts of the cube roots of the first
  64 primes, and of the square roots of the first eight. \<open>root_floor n x\<close> is the integer part of the
  \<open>n\<close>-th root of \<open>x\<close>, found bit by bit.
\<close>

definition root_floor :: "nat \<Rightarrow> int \<Rightarrow> int" where
  "root_floor n x = foldl (\<lambda>r i. if (r + 2 ^ i) ^ n \<le> x then r + 2 ^ i else r) 0 (rev [0..<40])"

definition small_primes :: "int list" where
  "small_primes = filter (\<lambda>p. list_all (\<lambda>d. p mod d \<noteq> 0) [2..p - 1]) [2..311]"

definition sha_k :: "u32 list" where
  "sha_k = map (\<lambda>p. word_of_int (root_floor 3 (p * 2 ^ 96))) small_primes"

definition sha_h0 :: "u32 list" where
  "sha_h0 = map (\<lambda>p. word_of_int (root_floor 2 (p * 2 ^ 64))) [2, 3, 5, 7, 11, 13, 17, 19]"

definition bytes_of_string :: "string \<Rightarrow> u8 list" where
  "bytes_of_string s = map (\<lambda>c. of_char c) s"

definition bytes64 :: "nat \<Rightarrow> u8 list" where
  "bytes64 n = map (\<lambda>i. word_of_int (int n div 256 ^ i)) (rev [0..<8])"

definition sha_pad :: "u8 list \<Rightarrow> u8 list" where
  "sha_pad m = m @ [0x80] @ replicate ((119 - length m mod 64) mod 64) 0 @ bytes64 (8 * length m)"

definition word_of_bytes :: "u8 list \<Rightarrow> u32" where
  "word_of_bytes bs = foldl (\<lambda>acc b. acc * 256 + ucast b) 0 bs"

fun chunks :: "nat \<Rightarrow> 'a list \<Rightarrow> 'a list list" where
  "chunks n xs = (if n = 0 \<or> xs = [] then [] else take n xs # chunks n (drop n xs))"

declare chunks.simps [simp del]

definition sha_schedule :: "u32 list \<Rightarrow> u32 list" where
  "sha_schedule w0 =
     foldl (\<lambda>w i.
       let x = w ! (i - 15); y = w ! (i - 2);
           s0 = word_rotr 7 x XOR word_rotr 18 x XOR drop_bit 3 x;
           s1 = word_rotr 17 y XOR word_rotr 19 y XOR drop_bit 10 y
       in w @ [w ! (i - 16) + s0 + w ! (i - 7) + s1]) w0 [16..<64]"

fun sha_round :: "u32 list \<Rightarrow> u32 \<times> u32 \<Rightarrow> u32 list" where
  "sha_round [a, b, c, d, e, f, g, h] (k, w) =
     (let s1 = word_rotr 6 e XOR word_rotr 11 e XOR word_rotr 25 e;
          ch = (e AND f) XOR (NOT e AND g);
          t1 = h + s1 + ch + k + w;
          s0 = word_rotr 2 a XOR word_rotr 13 a XOR word_rotr 22 a;
          maj = (a AND b) XOR (a AND c) XOR (b AND c);
          t2 = s0 + maj
      in [t1 + t2, a, b, c, d + t1, e, f, g])"
| "sha_round st kw = st"

definition sha_block :: "u32 list \<Rightarrow> u8 list \<Rightarrow> u32 list" where
  "sha_block st block =
     map (\<lambda>(x, y). x + y)
       (zip st (foldl sha_round st (zip sha_k (sha_schedule (map word_of_bytes (chunks 4 block))))))"

definition bytes_of_word :: "u32 \<Rightarrow> u8 list" where
  "bytes_of_word w = [ucast (drop_bit 24 w), ucast (drop_bit 16 w), ucast (drop_bit 8 w), ucast w]"

definition sha256 :: "u8 list \<Rightarrow> u8 list" where
  "sha256 m = concat (map bytes_of_word (foldl sha_block sha_h0 (chunks 64 (sha_pad m))))"

definition hexdigest :: "u8 list \<Rightarrow> string" where
  "hexdigest bs = concat (map (\<lambda>b. hex2 (unat b)) bs)"

text \<open>\<^verbatim>\<open>hashlib.sha256(s.encode()).hexdigest()\<close> and \<^verbatim>\<open>int.from_bytes(bs, "big")\<close>.\<close>

definition sha256_hex :: "string \<Rightarrow> string" where
  "sha256_hex s = hexdigest (sha256 (bytes_of_string s))"

definition int_from_bytes :: "u8 list \<Rightarrow> int" where
  "int_from_bytes bs = foldl (\<lambda>acc b. acc * 256 + uint b) 0 bs"

subsection \<open>Lengths and ranges\<close>

lemma length_sha_round: "length st = 8 \<Longrightarrow> length (sha_round st kw) = 8"
  by (induction st kw rule: sha_round.induct) (simp_all add: Let_def)

lemma length_sha_rounds: "length st = 8 \<Longrightarrow> length (foldl sha_round st kws) = 8"
  by (induction kws arbitrary: st) (simp_all add: length_sha_round)

lemma length_sha_block: "length st = 8 \<Longrightarrow> length (sha_block st b) = 8"
  by (simp add: sha_block_def length_sha_rounds)

lemma length_sha_blocks: "length st = 8 \<Longrightarrow> length (foldl sha_block st bs) = 8"
  by (induction bs arbitrary: st) (simp_all add: length_sha_block)

lemma length_concat_const: "(\<And>x. x \<in> set xs \<Longrightarrow> length (f x) = n) \<Longrightarrow> length (concat (map f xs)) = n * length xs"
  by (induction xs) simp_all

lemma length_sha256: "length (sha256 m) = 32"
proof -
  have "length (foldl sha_block sha_h0 (chunks 64 (sha_pad m))) = 8"
    by (rule length_sha_blocks) (simp add: sha_h0_def)
  then show ?thesis
    by (simp add: sha256_def length_concat_const [where n = 4] bytes_of_word_def)
qed

definition is_hex_char :: "char \<Rightarrow> bool" where
  "is_hex_char c \<longleftrightarrow> c \<in> set ''0123456789abcdef''"

lemma digit_char_hex: "n < 16 \<Longrightarrow> is_hex_char (digit_char n)"
proof -
  assume "n < 16"
  then have "n \<in> set [0..<16]" by simp
  moreover have "\<forall>n \<in> set [0..<16]. is_hex_char (digit_char n)"
    by code_simp
  ultimately show ?thesis by blast
qed

lemma sha256_hex_form: "length (sha256_hex s) = 64" "list_all is_hex_char (sha256_hex s)"
proof -
  show "length (sha256_hex s) = 64"
    by (simp add: sha256_hex_def hexdigest_def length_concat_const [where n = 2] hex2_def length_sha256)
  have "is_hex_char (digit_char (unat b div 16)) \<and> is_hex_char (digit_char (unat b mod 16))" for b :: u8
  proof -
    have "unat b < 256" using unsigned_less [of b, where ?'a = nat] by simp
    then show ?thesis by (auto intro: digit_char_hex)
  qed
  then show "list_all is_hex_char (sha256_hex s)"
    by (auto simp: sha256_hex_def hexdigest_def hex2_def list_all_iff)
qed

lemma int_from_bytes_range:
  "0 \<le> int_from_bytes bs" "int_from_bytes bs < 256 ^ length bs"
proof (induction bs rule: rev_induct)
  case (snoc b bs)
  {
    case 1
    with snoc show ?case by (simp add: int_from_bytes_def)
  next
    case 2
    have "uint b < 256" using uint_lt2p [of b] by simp
    with snoc show ?case by (simp add: int_from_bytes_def)
  }
qed (simp_all add: int_from_bytes_def)

end
