(* ===== verification/Domain.thy ===== *)
theory Domain
  imports Py_Hash
begin

text \<open>
  \<^verbatim>\<open>packages/domain\<close>: the enums, the errors, the inbound alert command, the alert fingerprint and
  the idempotency keys. Columns that hold an enum's \<^verbatim>\<open>.value\<close> are modelled by the enum itself; the
  \<open>_value\<close> functions give the text where the code formats it. Identifiers made by \<^verbatim>\<open>uuid.uuid4()\<close>
  are numbers from an inexhaustible supply, printed by \<open>uuid_str\<close>.
\<close>

type_synonym uuid = nat

definition uuid_str :: "uuid \<Rightarrow> string" where
  "uuid_str u = str_int (int u)"

datatype alert_source = PROMETHEUS | PAGERDUTY | GENERIC

fun source_value :: "alert_source \<Rightarrow> string" where
  "source_value PROMETHEUS = ''prometheus''"
| "source_value PAGERDUTY = ''pagerduty''"
| "source_value GENERIC = ''generic''"

datatype alert_severity = CRITICAL | WARNING | INFO

fun severity_value :: "alert_severity \<Rightarrow> string" where
  "severity_value CRITICAL = ''critical''"
| "severity_value WARNING = ''warning''"
| "severity_value INFO = ''info''"

datatype alert_status = Alert_FIRING | Alert_RESOLVED

fun alert_status_value :: "alert_status \<Rightarrow> string" where
  "alert_status_value Alert_FIRING = ''firing''"
| "alert_status_value Alert_RESOLVED = ''resolved''"

datatype incident_status =
    TRIAGING | INVESTIGATING | RCA_READY | AWAITING_APPROVAL | REMEDIATION_IN_PROGRESS
  | VERIFYING | VERIFICATION_FAILED | RESOLVED | ESCALATED | SUPPRESSED | CANCELLED | CLOSED

fun incident_status_value :: "incident_status \<Rightarrow> string" where
  "incident_status_value TRIAGING = ''TRIAGING''"
| "incident_status_value INVESTIGATING = ''INVESTIGATING''"
| "incident_status_value RCA_READY = ''RCA_READY''"
| "incident_status_value AWAITING_APPROVAL = ''AWAITING_APPROVAL''"
| "incident_status_value REMEDIATION_IN_PROGRESS = ''REMEDIATION_IN_PROGRESS''"
| "incident_status_value VERIFYING = ''VERIFYING''"
| "incident_status_value VERIFICATION_FAILED = ''VERIFICATION_FAILED''"
| "incident_status_value RESOLVED = ''RESOLVED''"
| "incident_status_value ESCALATED = ''ESCALATED''"
| "incident_status_value SUPPRESSED = ''SUPPRESSED''"
| "incident_status_value CANCELLED = ''CANCELLED''"
| "incident_status_value CLOSED = ''CLOSED''"

definition CLOSED_INCIDENT_STATUSES :: "incident_status list" where
  "CLOSED_INCIDENT_STATUSES = [CLOSED, CANCELLED, SUPPRESSED, RESOLVED]"

abbreviation closed_status :: "incident_status \<Rightarrow> bool" where
  "closed_status s \<equiv> s \<in> set CLOSED_INCIDENT_STATUSES"

text \<open>
  \<^verbatim>\<open>packages/domain/errors.py\<close>, with the message each is raised with; \<open>AssertionFailed\<close> is a Python
  \<^verbatim>\<open>assert\<close> that does not hold, \<open>ValueError\<close>, \<open>TypeError\<close> and \<open>RuntimeError\<close> are built-in exceptions, \<open>IntegrityError\<close> is a violated
  database constraint and \<open>MultipleResultsFound\<close> is \<^verbatim>\<open>scalar_one_or_none()\<close> on several rows,
  \<open>NoResultFound\<close> is \<^verbatim>\<open>scalar_one()\<close> on none.
\<close>

datatype error =
    InvalidAlertError string
  | IncidentNotFoundError string
  | EvidenceRefConflictError string
  | ConcurrentModificationError string
  | InvalidIncidentTransitionError string
  | InvestigationNotFoundError string
  | LeaseLostError string
  | RemediationNotFoundError string
  | RemediationStateError string
  | ApprovalMismatchError string
  | ApproverNotAuthorizedError string
  | InvalidProposalError string
  | LostIdempotencyRace
  | ValueError string
  | TypeError string
  | AttributeError string
  | IntegrityError string
  | MultipleResultsFound
  | NoResultFound
  | ZeroDivisionError
  | RuntimeError string
  | AssertionFailed string

subsection \<open>The inbound command\<close>

definition REQUIRED_LABELS :: "string list" where
  "REQUIRED_LABELS = [''service'', ''environment'']"

record alert_received_command =
  c_idempotency_key :: string
  c_source :: alert_source
  c_external_id :: "string option"
  c_labels :: "string dict"
  c_annotations :: "string dict"
  c_severity :: alert_severity
  c_status :: alert_status
  c_raw_payload :: "json dict"

text \<open>\<^verbatim>\<open>value.get(key)\<close> is falsy: the key is missing or its value is the empty string.\<close>

definition label_missing :: "string dict \<Rightarrow> string \<Rightarrow> bool" where
  "label_missing d k = (case dget d k of None \<Rightarrow> True | Some v \<Rightarrow> v = [])"

definition require_service_and_environment :: "string dict \<Rightarrow> string + string dict" where
  "require_service_and_environment value =
     (let missing = filter (label_missing value) REQUIRED_LABELS
      in if missing \<noteq> [] then Inl (''labels missing required keys: '' @ join '', '' missing)
         else Inr value)"

definition cmd_service :: "alert_received_command \<Rightarrow> string" where
  "cmd_service c = (case dget (c_labels c) ''service'' of Some v \<Rightarrow> v | None \<Rightarrow> [])"

definition cmd_environment :: "alert_received_command \<Rightarrow> string" where
  "cmd_environment c = (case dget (c_labels c) ''environment'' of Some v \<Rightarrow> v | None \<Rightarrow> [])"

lemma require_service_and_environment_ok:
  "require_service_and_environment d = Inr d' \<Longrightarrow>
   d' = d \<and> (\<exists>s e. dget d ''service'' = Some s \<and> s \<noteq> [] \<and> dget d ''environment'' = Some e \<and> e \<noteq> [])"
  by (auto simp: require_service_and_environment_def REQUIRED_LABELS_def label_missing_def Let_def
      split: option.splits if_splits)

record register_evidence_ref_command =
  e_evidence_id :: uuid
  e_incident_id :: uuid
  e_investigation_id :: "uuid option"
  e_evidence_type :: string
  e_content_hash :: string
  e_source_system :: string
  e_collected_at :: datetime

subsection \<open>Fingerprint and idempotency key\<close>

definition compute_fingerprint :: "alert_source \<Rightarrow> string dict \<Rightarrow> string" where
  "compute_fingerprint source labels =
     sha256_hex (dumps (JObj [(''source'', JStr (source_value source)),
                              (''labels'', JObj (map (\<lambda>(k, v). (k, JStr v)) labels))]))"

definition compute_correlation_key :: "string \<Rightarrow> string" where
  "compute_correlation_key fingerprint = fingerprint"

definition DEFAULT_DEBOUNCE_SECONDS :: int where
  "DEFAULT_DEBOUNCE_SECONDS = 60"

text \<open>\<open>now\<close> is the \<^verbatim>\<open>float\<close> of \<^verbatim>\<open>time.time()\<close>; Python's \<^verbatim>\<open>//\<close> on it is the floor of the quotient.\<close>

definition derive_alert_idempotency_key ::
  "alert_source \<Rightarrow> string option \<Rightarrow> json dict \<Rightarrow> alert_status \<Rightarrow> int \<Rightarrow> float64 \<Rightarrow> string" where
  "derive_alert_idempotency_key source external_id normalized_payload status debounce_seconds now =
     (if external_id \<noteq> None \<and> external_id \<noteq> Some [] then
        (let key = source_value source @ '':external:'' @ the external_id
         in if status = Alert_RESOLVED then key @ '':resolved'' else key)
      else
        (let bucket = \<lfloor>now / of_int debounce_seconds\<rfloor>;
             digest = sha256_hex (dumps (JObj normalized_payload))
         in source_value source @ '':content:'' @ digest @ '':'' @ str_int bucket))"

text \<open>
  The fingerprint of an alert does not depend on the order of its labels: two label
  dictionaries with the same items have the same fingerprint.
\<close>

theorem compute_fingerprint_order_independent:
  assumes "set labels = set labels'" and "distinct (map fst labels)" and "distinct (map fst labels')"
  shows "compute_fingerprint source labels = compute_fingerprint source labels'"
proof -
  let ?f = "\<lambda>(k, v). (k, JStr v)"
  have "dumps (JObj (map ?f labels)) = dumps (JObj (map ?f labels'))"
    by (rule dumps_JObj_order) (use assms in \<open>auto simp: comp_def case_prod_beta\<close>)
  then show ?thesis by (simp add: compute_fingerprint_def)
qed

theorem compute_fingerprint_order_independent_witness:
  "compute_fingerprint GENERIC [(''service'', ''pay''), (''environment'', ''prod'')]
   = compute_fingerprint GENERIC [(''environment'', ''prod''), (''service'', ''pay'')]"
  by (rule compute_fingerprint_order_independent) auto

text \<open>
  When two external notifications share an idempotency key: exactly when they come from the same
  source and either name the same alert with the same kind of status, or one of them is the resolution of
  an alert and the other the firing of an alert whose name is the first one's followed by
  \<open>:resolved\<close>. In particular the firing and the resolution of one alert never share a key.
\<close>

theorem external_keys_equal_iff:
  assumes "x \<noteq> []" and "y \<noteq> []"
  shows "derive_alert_idempotency_key src (Some x) p st n t = derive_alert_idempotency_key src' (Some y) p' st' n' t' \<longleftrightarrow>
    src = src' \<and>
    (x = y \<and> (st = Alert_RESOLVED \<longleftrightarrow> st' = Alert_RESOLVED) \<or>
     y = x @ '':resolved'' \<and> st = Alert_RESOLVED \<and> st' \<noteq> Alert_RESOLVED \<or>
     x = y @ '':resolved'' \<and> st \<noteq> Alert_RESOLVED \<and> st' = Alert_RESOLVED)"
proof -
  have "source_value src @ '':external:'' @ u = source_value src' @ '':external:'' @ w \<longleftrightarrow> src = src' \<and> u = w" for u w
    by (cases src; cases src') auto
  from this [of "x @ (if st = Alert_RESOLVED then '':resolved'' else [])"
      "y @ (if st' = Alert_RESOLVED then '':resolved'' else [])"]
  show ?thesis using assms by (auto simp: derive_alert_idempotency_key_def Let_def)
qed

theorem external_keys_equal_iff_witness:
  "derive_alert_idempotency_key GENERIC (Some ''x'') [] Alert_RESOLVED 60 0 =
   derive_alert_idempotency_key GENERIC (Some ''x:resolved'') [] Alert_FIRING 60 0"
  using external_keys_equal_iff [of "''x''" "''x:resolved''" GENERIC "[]" Alert_RESOLVED 60 0 GENERIC "[]" Alert_FIRING 60 0]
  by simp

end
