(* ===== verification/Verification_Domain.thy ===== *)
theory Verification_Domain
  imports Domain
begin

text \<open>
  \<^verbatim>\<open>packages/domain/verification.py\<close>: the verification policy an action declares, the specification
  \<open>build_spec\<close> resolves from it, the evaluation of one observed sample and the verdict after a poll.

  A field of type \<^verbatim>\<open>Any\<close> is a \<open>json\<close> value with \<open>JNull\<close> for \<^verbatim>\<open>None\<close>. The nested dictionaries of a
  sample have the shape its comments document; where such a value is not a dictionary the model reads
  an empty one (\<open>jdict\<close>).
\<close>

definition VERIFICATION_POLICY_VERSION :: string where
  "VERIFICATION_POLICY_VERSION = ''verification-2026.09-1''"

datatype check_kind =
    State_deployment_version
  | State_config_value
  | State_flag
  | State_replicas
  | Health_status
  | Metric_max
  | Alerts_no_new_firing

fun check_kind_value :: "check_kind \<Rightarrow> string" where
  "check_kind_value State_deployment_version = ''state.deployment_version''"
| "check_kind_value State_config_value = ''state.config_value''"
| "check_kind_value State_flag = ''state.flag''"
| "check_kind_value State_replicas = ''state.replicas''"
| "check_kind_value Health_status = ''health.status''"
| "check_kind_value Metric_max = ''metric.max''"
| "check_kind_value Alerts_no_new_firing = ''alerts.no_new_firing''"

definition STATE_CHECKS :: "check_kind list" where
  "STATE_CHECKS = [State_deployment_version, State_config_value, State_flag, State_replicas]"

datatype verification_status = V_PENDING | V_RUNNING | V_PASSED | V_FAILED | V_TIMED_OUT

fun verification_status_value :: "verification_status \<Rightarrow> string" where
  "verification_status_value V_PENDING = ''PENDING''"
| "verification_status_value V_RUNNING = ''RUNNING''"
| "verification_status_value V_PASSED = ''PASSED''"
| "verification_status_value V_FAILED = ''FAILED''"
| "verification_status_value V_TIMED_OUT = ''TIMED_OUT''"

definition TERMINAL_VERIFICATION_STATUSES :: "verification_status list" where
  "TERMINAL_VERIFICATION_STATUSES = [V_PASSED, V_FAILED, V_TIMED_OUT]"

record check_template =
  ct_kind :: check_kind
  ct_metric :: "string option"
  ct_max_value :: "float64 option"

record verification_policy =
  vp_grace_seconds :: int
  vp_window_seconds :: int
  vp_poll_interval_seconds :: int
  vp_required_consecutive :: int
  vp_baseline_required :: bool
  vp_checks :: "check_template list"

definition vp_timeout_seconds :: "verification_policy \<Rightarrow> int" where
  "vp_timeout_seconds p =
     vp_grace_seconds p + vp_window_seconds p + 2 * vp_poll_interval_seconds p"

definition vp_describe :: "verification_policy \<Rightarrow> json" where
  "vp_describe p = JObj
     [(''grace_seconds'', JInt (vp_grace_seconds p)),
      (''window_seconds'', JInt (vp_window_seconds p)),
      (''poll_interval_seconds'', JInt (vp_poll_interval_seconds p)),
      (''required_consecutive'', JInt (vp_required_consecutive p)),
      (''timeout_seconds'', JInt (vp_timeout_seconds p)),
      (''baseline_required'', JBool (vp_baseline_required p)),
      (''checks'', JList (map (\<lambda>c. JObj
         [(''kind'', JStr (check_kind_value (ct_kind c))),
          (''metric'', jopt JStr (ct_metric c)),
          (''max_value'', jopt JFloat (ct_max_value c))]) (vp_checks p)))]"

record check_spec =
  cs_kind :: check_kind
  cs_metric :: "string option"
  cs_max_value :: "float64 option"
  cs_key :: "string option"
  cs_expected :: json
  cs_definitive :: bool

record verification_spec =
  vs_policy_version :: string
  vs_action_id :: string
  vs_target_service :: string
  vs_grace_seconds :: float64
  vs_window_seconds :: float64
  vs_poll_interval_seconds :: float64
  vs_timeout_seconds :: float64
  vs_required_consecutive :: int
  vs_checks :: "check_spec list"

datatype evidence_need = Need_health | Need_deployment | Need_config | Need_runtime

definition needs :: "verification_spec \<Rightarrow> evidence_need set" where
  "needs spec = insert Need_health (set (concat (map (\<lambda>c.
     case cs_kind c of
       State_deployment_version \<Rightarrow> [Need_deployment]
     | State_config_value \<Rightarrow> [Need_config]
     | State_flag \<Rightarrow> [Need_runtime]
     | State_replicas \<Rightarrow> [Need_runtime]
     | _ \<Rightarrow> []) (vs_checks spec))))"

subsection \<open>Building the specification\<close>

text \<open>
  \<^verbatim>\<open>int(x)\<close> for a JSON value: numbers are truncated towards zero, a string must be an optionally
  signed run of digits (blanks around it are dropped, single underscores may separate digits),
  anything else raises.
\<close>

definition is_blank :: "char \<Rightarrow> bool" where
  "is_blank c = (c \<in> {CHR '' '', CHR 0x09, CHR 0x0A, CHR 0x0B, CHR 0x0C, CHR 0x0D})"

definition strip :: "string \<Rightarrow> string" where
  "strip s = rev (dropWhile is_blank (rev (dropWhile is_blank s)))"

definition digit_of :: "char \<Rightarrow> int option" where
  "digit_of c = (let n = (of_char c :: nat) in if 48 \<le> n \<and> n \<le> 57 then Some (int n - 48) else None)"

fun digits_of :: "int \<Rightarrow> string \<Rightarrow> int option" where
  "digits_of acc [] = Some acc"
| "digits_of acc (c # cs) =
     (case digit_of c of
        Some d \<Rightarrow> digits_of (10 * acc + d) cs
      | None \<Rightarrow>
          (if c = CHR ''_'' then
             (case cs of
                c' # cs' \<Rightarrow> (case digit_of c' of Some d \<Rightarrow> digits_of (10 * acc + d) cs' | None \<Rightarrow> None)
              | [] \<Rightarrow> None)
           else None))"

definition unsigned_of :: "string \<Rightarrow> int option" where
  "unsigned_of s =
     (case s of [] \<Rightarrow> None | c # cs \<Rightarrow> (case digit_of c of Some d \<Rightarrow> digits_of d cs | None \<Rightarrow> None))"

definition int_of_str :: "string \<Rightarrow> int option" where
  "int_of_str s =
     (case strip s of
        [] \<Rightarrow> None
      | c # cs \<Rightarrow> if c = CHR ''-'' then map_option uminus (unsigned_of cs)
                  else if c = CHR ''+'' then unsigned_of cs else unsigned_of (c # cs))"

fun int_json :: "json \<Rightarrow> error + int" where
  "int_json (JInt i) = Inr i"
| "int_json (JBool b) = Inr (if b then 1 else 0)"
| "int_json (JFloat q) = Inr (trunc q)"
| "int_json (JStr s) =
     (case int_of_str s of
        Some i \<Rightarrow> Inr i
      | None \<Rightarrow> Inl (ValueError (''invalid literal for int() with base 10: '' @ repr_str s)))"
| "int_json j = Inl (TypeError ''int() argument must be a string or a number'')"

text \<open>The field \<^verbatim>\<open>key: str | None\<close> of \<^verbatim>\<open>CheckSpec\<close> accepts a string or \<^verbatim>\<open>None\<close>; else pydantic raises.\<close>

fun str_field :: "json \<Rightarrow> error + string option" where
  "str_field JNull = Inr None"
| "str_field (JStr s) = Inr (Some s)"
| "str_field _ = Inl (ValueError ''Input should be a valid string'')"

abbreviation base_check :: "check_kind \<Rightarrow> check_spec" where
  "base_check k \<equiv> \<lparr>cs_kind = k, cs_metric = None, cs_max_value = None, cs_key = None,
                   cs_expected = JNull, cs_definitive = False\<rparr>"

definition build_check ::
  "check_template \<Rightarrow> json dict \<Rightarrow> json dict option \<Rightarrow> error + check_spec" where
  "build_check t parameters baseline =
     (case ct_kind t of
        State_deployment_version \<Rightarrow>
          Inr ((base_check State_deployment_version)
            \<lparr>cs_expected := jget parameters ''to_version'', cs_definitive := True\<rparr>)
      | State_config_value \<Rightarrow>
          (case str_field (jget parameters ''key'') of
             Inl e \<Rightarrow> Inl e
           | Inr key \<Rightarrow> Inr ((base_check State_config_value)
               \<lparr>cs_key := key, cs_expected := jget parameters ''to_value'', cs_definitive := True\<rparr>))
      | State_flag \<Rightarrow>
          (case str_field (jget parameters ''flag'') of
             Inl e \<Rightarrow> Inl e
           | Inr key \<Rightarrow> Inr ((base_check State_flag)
               \<lparr>cs_key := key, cs_expected := JStr ''false'', cs_definitive := True\<rparr>))
      | State_replicas \<Rightarrow>
          (let before = jget (jdict (jget (case baseline of Some b \<Rightarrow> b | None \<Rightarrow> []) ''runtime''))
                          ''replicas''
           in if before = JNull
              then Inr ((base_check State_replicas)\<lparr>cs_expected := JNull, cs_definitive := True\<rparr>)
              else
                (case int_json before of
                   Inl e \<Rightarrow> Inl e
                 | Inr n \<Rightarrow>
                     (case int_json (case dget parameters ''increase_by'' of
                                       Some v \<Rightarrow> v | None \<Rightarrow> JInt 0) of
                        Inl e \<Rightarrow> Inl e
                      | Inr m \<Rightarrow> Inr ((base_check State_replicas)
                          \<lparr>cs_expected := JInt (n + m), cs_definitive := True\<rparr>))))
      | Health_status \<Rightarrow> Inr ((base_check Health_status)\<lparr>cs_expected := JStr ''healthy''\<rparr>)
      | Metric_max \<Rightarrow>
          Inr ((base_check Metric_max)\<lparr>cs_metric := ct_metric t, cs_max_value := ct_max_value t\<rparr>)
      | Alerts_no_new_firing \<Rightarrow> Inr ((base_check Alerts_no_new_firing)\<lparr>cs_expected := JInt 0\<rparr>))"

fun build_checks ::
  "check_template list \<Rightarrow> json dict \<Rightarrow> json dict option \<Rightarrow> error + check_spec list" where
  "build_checks [] parameters baseline = Inr []"
| "build_checks (t # ts) parameters baseline =
     (case build_check t parameters baseline of
        Inl e \<Rightarrow> Inl e
      | Inr c \<Rightarrow> (case build_checks ts parameters baseline of Inl e \<Rightarrow> Inl e | Inr cs \<Rightarrow> Inr (c # cs)))"

definition build_spec ::
  "verification_policy \<Rightarrow> string \<Rightarrow> json dict \<Rightarrow> json dict option \<Rightarrow> float64 \<Rightarrow>
   error + verification_spec" where
  "build_spec policy action_id parameters baseline time_scale =
     (case build_checks (vp_checks policy) parameters baseline of
        Inl e \<Rightarrow> Inl e
      | Inr checks \<Rightarrow>
          (let scale = max time_scale 0
           in Inr \<lparr>vs_policy_version = VERIFICATION_POLICY_VERSION,
                   vs_action_id = action_id,
                   vs_target_service =
                     (case dget parameters ''service'' of Some v \<Rightarrow> str_json v | None \<Rightarrow> []),
                   vs_grace_seconds = fmul (rnd (of_int (vp_grace_seconds policy))) scale,
                   vs_window_seconds = fmul (rnd (of_int (vp_window_seconds policy))) scale,
                   vs_poll_interval_seconds =
                     fmul (rnd (of_int (vp_poll_interval_seconds policy))) scale,
                   vs_timeout_seconds = fmul (rnd (of_int (vp_timeout_seconds policy))) scale,
                   vs_required_consecutive = vp_required_consecutive policy,
                   vs_checks = checks\<rparr>))"

subsection \<open>Evaluating one observation\<close>

record sample =
  s_health :: "json dict option"
  s_deployment :: "json dict option"
  s_config :: "json dict option"
  s_runtime :: "json dict option"
  s_new_firing_alerts :: "int option"
  s_errors :: "string list"

record check_result =
  cr_kind :: check_kind
  cr_ok :: "bool option"
  cr_observed :: json
  cr_expected :: json
  cr_detail :: string

record observation_result =
  passed :: bool
  conclusive :: bool
  definitive_failure :: "string option"
  or_checks :: "check_result list"

abbreviation or_empty :: "json dict option \<Rightarrow> json dict" where
  "or_empty d \<equiv> (case d of Some x \<Rightarrow> x | None \<Rightarrow> [])"

definition metric_of :: "sample \<Rightarrow> string option \<Rightarrow> float64 option" where
  "metric_of sample name =
     (let signals = jdict (jget (or_empty (s_health sample)) ''signals'');
          value = (case name of Some n \<Rightarrow> if n = [] then JNull else jget signals n | None \<Rightarrow> JNull);
          value = (case value of JObj d \<Rightarrow> jget d ''value'' | v \<Rightarrow> v)
      in map_option rnd (jnum value))"

abbreviation opt_str :: "string option \<Rightarrow> string" where
  "opt_str s \<equiv> (case s of Some x \<Rightarrow> x | None \<Rightarrow> ''None'')"

abbreviation opt_float_str :: "float64 option \<Rightarrow> string" where
  "opt_float_str x \<equiv> (case x of Some q \<Rightarrow> float_repr q | None \<Rightarrow> ''None'')"

definition evaluate_check :: "check_spec \<Rightarrow> sample \<Rightarrow> check_result" where
  "evaluate_check c sample =
     (let key = (case cs_key c of Some k \<Rightarrow> k | None \<Rightarrow> []);
          result = (\<lambda>ok observed detail.
            \<lparr>cr_kind = cs_kind c, cr_ok = ok, cr_observed = observed,
             cr_expected = (if cs_kind c \<noteq> Metric_max then cs_expected c
                            else jopt JFloat (cs_max_value c)),
             cr_detail = detail\<rparr>)
      in case cs_kind c of
        State_deployment_version \<Rightarrow>
          (let observed = jget (or_empty (s_deployment sample)) ''version''
           in result (if s_deployment sample = None then None else Some (py_eq observed (cs_expected c)))
                observed
                (''running '' @ repr_json observed @ '', expected '' @ repr_json (cs_expected c)))
      | State_config_value \<Rightarrow>
          (let effective = jdict (jget (or_empty (s_config sample)) ''effective'');
               observed = jget effective key
           in result (if s_config sample = None then None
                      else Some (str_json observed = str_json (cs_expected c)))
                observed
                (opt_str (cs_key c) @ '' is '' @ repr_json observed @ '', expected ''
                 @ repr_json (cs_expected c)))
      | State_flag \<Rightarrow>
          (let observed = jget (jdict (jget (or_empty (s_runtime sample)) ''flags'')) key
           in result (if s_runtime sample = None then None
                      else Some (lower (str_json observed) = ''false''))
                observed
                (''flag '' @ opt_str (cs_key c) @ '' is '' @ repr_json observed @ '', expected off''))
      | State_replicas \<Rightarrow>
          (let observed = jget (or_empty (s_runtime sample)) ''replicas''
           in result (if s_runtime sample = None \<or> cs_expected c = JNull then None
                      else Some (py_eq observed (cs_expected c)))
                observed
                (str_json observed @ '' replicas, expected '' @ str_json (cs_expected c)))
      | Health_status \<Rightarrow>
          (let observed = jget (or_empty (s_health sample)) ''status''
           in result (if s_health sample = None then None
                      else Some (py_eq observed (JStr ''healthy'')))
                observed (''service is '' @ str_json observed))
      | Metric_max \<Rightarrow>
          (let observed = metric_of sample (cs_metric c)
           in result (map_option (\<lambda>v. v \<le> (case cs_max_value c of Some m \<Rightarrow> m | None \<Rightarrow> 0)) observed)
                (jopt JFloat observed)
                (opt_str (cs_metric c) @ '' '' @ opt_float_str observed @ '' vs max ''
                 @ opt_float_str (cs_max_value c)))
      | Alerts_no_new_firing \<Rightarrow>
          (let observed = s_new_firing_alerts sample
           in result (map_option (\<lambda>n. n = 0) observed) (jopt JInt observed)
                ((case observed of Some n \<Rightarrow> str_int n | None \<Rightarrow> ''None'')
                 @ '' alert(s) fired since verification started'')))"

definition evaluate_sample :: "verification_spec \<Rightarrow> sample \<Rightarrow> observation_result" where
  "evaluate_sample spec sample =
     (let results = map (\<lambda>c. evaluate_check c sample) (vs_checks spec);
          is_conclusive = (s_errors sample = [] \<and> list_all (\<lambda>r. cr_ok r \<noteq> None) results);
          definitive = map_option (\<lambda>(c, r). cr_detail r)
            (find (\<lambda>(c, r). cs_definitive c \<and> cr_ok r = Some False) (zip (vs_checks spec) results))
      in \<lparr>passed = (is_conclusive \<and> list_all (\<lambda>r. cr_ok r = Some True) results),
          conclusive = is_conclusive,
          definitive_failure = definitive,
          or_checks = results\<rparr>)"

subsection \<open>The verdict after a poll\<close>

record verification_decision =
  vd_status :: verification_status
  vd_reason :: "string option"

definition decide_verification ::
  "verification_spec \<Rightarrow> observation_result option \<Rightarrow> int \<Rightarrow> int \<Rightarrow> float64 \<Rightarrow> float64 \<Rightarrow>
   verification_decision" where
  "decide_verification spec latest consecutive_successes conclusive_observations
     now_seconds deadline_seconds =
     (case Option.bind latest definitive_failure of
        Some (c # cs) \<Rightarrow> \<lparr>vd_status = V_FAILED, vd_reason = Some (c # cs)\<rparr>
      | _ \<Rightarrow>
        if consecutive_successes \<ge> vs_required_consecutive spec
        then \<lparr>vd_status = V_PASSED, vd_reason = None\<rparr>
        else if now_seconds \<ge> deadline_seconds then
          (if conclusive_observations = 0
           then \<lparr>vd_status = V_TIMED_OUT, vd_reason =
                  Some ''no conclusive observation before the deadline (evidence unavailable)''\<rparr>
           else
             (let failing = (case latest of
                    Some l \<Rightarrow> join ''; '' (map cr_detail (filter (\<lambda>r. cr_ok r = Some False) (or_checks l)))
                  | None \<Rightarrow> [])
              in \<lparr>vd_status = V_FAILED, vd_reason = Some
                   (str_int consecutive_successes @ ''/'' @ str_int (vs_required_consecutive spec)
                    @ '' consecutive successful observations when the window closed''
                    @ (if failing = [] then [] else '' ('' @ failing @ '')''))\<rparr>))
        else \<lparr>vd_status = V_RUNNING, vd_reason = None\<rparr>)"

subsection \<open>Which checks are definitive\<close>

lemma build_check_kind:
  "build_check t parameters baseline = Inr c \<Longrightarrow>
   cs_kind c = ct_kind t \<and> (cs_definitive c \<longleftrightarrow> cs_kind c \<in> set STATE_CHECKS)"
  by (auto simp: build_check_def STATE_CHECKS_def Let_def split: check_kind.splits sum.splits if_splits)

lemma build_checks_kinds:
  "build_checks ts parameters baseline = Inr cs \<Longrightarrow>
   map cs_kind cs = map ct_kind ts \<and>
   (\<forall>c \<in> set cs. cs_definitive c \<longleftrightarrow> cs_kind c \<in> set STATE_CHECKS)"
  by (induction ts arbitrary: cs) (auto split: sum.splits dest: build_check_kind)

lemma build_spec_checks:
  "build_spec policy a parameters baseline scale = Inr spec \<Longrightarrow>
   build_checks (vp_checks policy) parameters baseline = Inr (vs_checks spec) \<and>
   vs_required_consecutive spec = vp_required_consecutive policy"
  by (auto simp: build_spec_def Let_def split: sum.splits)

lemma build_spec_definitive:
  "build_spec policy a parameters baseline scale = Inr spec \<Longrightarrow> c \<in> set (vs_checks spec) \<Longrightarrow>
   cs_definitive c \<longleftrightarrow> cs_kind c \<in> set STATE_CHECKS"
  using build_spec_checks build_checks_kinds by blast

lemma state_check_detail_nonempty:
  "cs_kind c \<in> set STATE_CHECKS \<Longrightarrow> cr_detail (evaluate_check c s) \<noteq> []"
  by (auto simp: STATE_CHECKS_def evaluate_check_def Let_def)

lemma find_zip_map:
  "find (\<lambda>(c, r). P c r) (zip cs (map f cs)) = map_option (\<lambda>c. (c, f c)) (find (\<lambda>c. P c (f c)) cs)"
  by (induction cs) auto

lemma definitive_failure_find:
  "definitive_failure (evaluate_sample spec s) =
     map_option (\<lambda>c. cr_detail (evaluate_check c s))
       (find (\<lambda>c. cs_definitive c \<and> cr_ok (evaluate_check c s) = Some False) (vs_checks spec))"
  by (simp add: evaluate_sample_def Let_def find_zip_map option.map_comp comp_def)

lemma passed_iff:
  "passed (evaluate_sample spec s) \<longleftrightarrow>
     s_errors s = [] \<and> (\<forall>c \<in> set (vs_checks spec). cr_ok (evaluate_check c s) = Some True)"
  by (auto simp: evaluate_sample_def Let_def list_all_iff)

lemma passed_conclusive: "passed (evaluate_sample spec s) \<Longrightarrow> conclusive (evaluate_sample spec s)"
  by (simp add: evaluate_sample_def Let_def)

lemma passed_no_definitive_failure:
  "passed (evaluate_sample spec s) \<Longrightarrow> definitive_failure (evaluate_sample spec s) = None"
  by (auto simp: passed_iff definitive_failure_find find_None_iff)

definition hard_failure :: "observation_result option \<Rightarrow> bool" where
  "hard_failure latest \<longleftrightarrow> Option.bind latest definitive_failure \<notin> {None, Some []}"

lemma decide_verification_status:
  "vd_status (decide_verification spec latest n m t d) =
     (if hard_failure latest then V_FAILED else if n \<ge> vs_required_consecutive spec then V_PASSED
      else if t \<ge> d then (if m = 0 then V_TIMED_OUT else V_FAILED) else V_RUNNING)"
proof -
  consider c cs where "Option.bind latest definitive_failure = Some (c # cs)"
    | "Option.bind latest definitive_failure = None" | "Option.bind latest definitive_failure = Some []"
    by (cases "Option.bind latest definitive_failure"; cases "the (Option.bind latest definitive_failure)") auto
  then show ?thesis
    by cases (simp_all add: hard_failure_def decide_verification_def Let_def)
qed

subsection \<open>Properties\<close>

text \<open>
  The verdict after a poll: it passes exactly when the streak is long enough and no state
  check has failed; it times out only when no observation was conclusive; once the deadline is
  reached it is never left running; and it is never put back to pending.
\<close>

theorem decide_verification_correct:
  "let v = vd_status (decide_verification spec latest n m t d);
       hard = (Option.bind latest definitive_failure \<notin> {None, Some []})
   in (v = V_PASSED \<longleftrightarrow> \<not> hard \<and> vs_required_consecutive spec \<le> n) \<and>
    (v = V_TIMED_OUT \<longleftrightarrow> \<not> hard \<and> n < vs_required_consecutive spec \<and> d \<le> t \<and> m = 0) \<and>
    (v = V_RUNNING \<longleftrightarrow> \<not> hard \<and> n < vs_required_consecutive spec \<and> t < d) \<and>
    (v = V_FAILED \<longleftrightarrow> hard \<or> n < vs_required_consecutive spec \<and> d \<le> t \<and> m \<noteq> 0) \<and> v \<noteq> V_PENDING"
  using decide_verification_status [of spec latest n m t d]
  by (simp add: Let_def hard_failure_def)

text \<open>
  A failed state check (deployed version, configuration value, flag, replica count)
  decides the verification at once: whatever the streak and the time left, the verdict is FAILED.
\<close>

theorem failed_state_check_fails_at_once:
  assumes "build_spec policy a parameters baseline scale = Inr spec"
    and "c \<in> set (vs_checks spec)" and "cs_kind c \<in> set STATE_CHECKS"
    and "cr_ok (evaluate_check c s) = Some False"
  shows "vd_status (decide_verification spec (Some (evaluate_sample spec s)) n m t d) = V_FAILED"
proof -
  have "cs_definitive c" using assms build_spec_definitive by blast
  with assms(2,4) have "find (\<lambda>c. cs_definitive c \<and> cr_ok (evaluate_check c s) = Some False)
      (vs_checks spec) \<noteq> None"
    by (auto simp: find_None_iff)
  then obtain c' where c': "find (\<lambda>c. cs_definitive c \<and> cr_ok (evaluate_check c s) = Some False)
      (vs_checks spec) = Some c'"
    by auto
  then have "c' \<in> set (vs_checks spec)" "cs_definitive c'"
    by (auto simp: find_Some_iff)
  then have "cr_detail (evaluate_check c' s) \<noteq> []"
    using build_spec_definitive [OF assms(1)] state_check_detail_nonempty by blast
  then show ?thesis
    by (simp add: decide_verification_def definitive_failure_find c' split: list.splits)
qed

theorem failed_state_check_fails_at_once_witness:
  "vd_status (decide_verification
     \<lparr>vs_policy_version = VERIFICATION_POLICY_VERSION, vs_action_id = ''rollback_deployment'',
      vs_target_service = ''api'', vs_grace_seconds = fmul (rnd 60) 1,
      vs_window_seconds = fmul (rnd 300) 1, vs_poll_interval_seconds = fmul (rnd 15) 1,
      vs_timeout_seconds = fmul (rnd 390) 1, vs_required_consecutive = 3,
      vs_checks = [(base_check State_deployment_version)\<lparr>cs_expected := JStr ''v1'', cs_definitive := True\<rparr>]\<rparr>
     (Some (evaluate_sample
     \<lparr>vs_policy_version = VERIFICATION_POLICY_VERSION, vs_action_id = ''rollback_deployment'',
      vs_target_service = ''api'', vs_grace_seconds = fmul (rnd 60) 1,
      vs_window_seconds = fmul (rnd 300) 1, vs_poll_interval_seconds = fmul (rnd 15) 1,
      vs_timeout_seconds = fmul (rnd 390) 1, vs_required_consecutive = 3,
      vs_checks = [(base_check State_deployment_version)\<lparr>cs_expected := JStr ''v1'', cs_definitive := True\<rparr>]\<rparr>
     \<lparr>s_health = None, s_deployment = Some [(''version'', JStr ''v2'')], s_config = None,
      s_runtime = None, s_new_firing_alerts = Some 0, s_errors = []\<rparr>)) 7 7 0 100) = V_FAILED"
  by (rule failed_state_check_fails_at_once [where a = "''rollback_deployment''" and scale = 1
        and baseline = None and parameters = "[(''service'', JStr ''api''), (''to_version'', JStr ''v1'')]"
        and policy = "\<lparr>vp_grace_seconds = 60, vp_window_seconds = 300, vp_poll_interval_seconds = 15,
          vp_required_consecutive = 3, vp_baseline_required = True,
          vp_checks = [\<lparr>ct_kind = State_deployment_version, ct_metric = None, ct_max_value = None\<rparr>]\<rparr>"
        and c = "(base_check State_deployment_version)\<lparr>cs_expected := JStr ''v1'', cs_definitive := True\<rparr>"])
    (simp_all add: build_spec_def build_check_def vp_timeout_seconds_def jget_def dget_def
      STATE_CHECKS_def evaluate_check_def Let_def)

end
