(* ===== verification/Catalog.thy ===== *)
theory Catalog
  imports Verification_Domain
begin

text \<open>
  \<^verbatim>\<open>packages/remediation/catalog.py\<close> and the pure part of \<^verbatim>\<open>packages/domain/remediation.py\<close>: the
  action catalog, the remediation state machine and the proposal hash an approval binds to.

  The parameter models of the catalog are pydantic classes. What pydantic does with them,
  \<^verbatim>\<open>model_validate\<close> and \<^verbatim>\<open>model_json_schema\<close>, is a parameter of the model: \<open>model_validate\<close> takes the
  class and the dictionary and gives the messages of the validation error or the validated object.
  \<open>validates\<close> states what the catalog's own field declarations ask of it.
\<close>

definition CATALOG_VERSION :: string where
  "CATALOG_VERSION = ''catalog-2026.09-1''"

datatype params_class =
    RestartService | ScaleService | RollbackDeployment | DisableFeatureFlag | RevertConfiguration

datatype params =
    RestartServiceParams (p_service: string)
  | ScaleServiceParams (p_service: string) (increase_by: int)
  | RollbackDeploymentParams (p_service: string) (from_version: string) (to_version: string)
  | DisableFeatureFlagParams (p_service: string) (flag: string)
  | RevertConfigurationParams (p_service: string) (p_key: string) (from_value: json) (to_value: json)

fun params_class_of :: "params \<Rightarrow> params_class" where
  "params_class_of (RestartServiceParams _) = RestartService"
| "params_class_of (ScaleServiceParams _ _) = ScaleService"
| "params_class_of (RollbackDeploymentParams _ _ _) = RollbackDeployment"
| "params_class_of (DisableFeatureFlagParams _ _) = DisableFeatureFlag"
| "params_class_of (RevertConfigurationParams _ _ _ _) = RevertConfiguration"

type_synonym validator = "params_class \<Rightarrow> json dict \<Rightarrow> (string list) + params"

text \<open>The declared bounds: the class, \<^verbatim>\<open>ge=1, le=5\<close>, and the field validator of \<^verbatim>\<open>to_value\<close>.\<close>

fun params_bounds :: "params \<Rightarrow> bool" where
  "params_bounds (ScaleServiceParams _ n) \<longleftrightarrow> 1 \<le> n \<and> n \<le> 5"
| "params_bounds (RevertConfigurationParams _ _ _ v) \<longleftrightarrow> v \<noteq> JNull"
| "params_bounds _ \<longleftrightarrow> True"

definition validates :: "validator \<Rightarrow> bool" where
  "validates model_validate \<longleftrightarrow>
     (\<forall>cls d p. model_validate cls d = Inr p \<longrightarrow>
        params_class_of p = cls \<and> params_bounds p \<and> jget d ''service'' = JStr (p_service p))"

record action_catalog_entry =
  ac_action_id :: string
  ac_version :: string
  ac_description :: string
  ac_parameters :: params_class
  ac_allowed_environments :: "string list"
  ac_base_blast_radius :: int
  ac_max_blast_radius :: int
  ac_approval_mandatory :: bool
  ac_auto_execution_allowed :: bool
  ac_timeout_seconds :: int
  ac_max_attempts :: int
  ac_retry_safe :: bool
  ac_requires_rca :: bool
  ac_target_must_match_root_cause :: bool
  ac_verification :: verification_policy

definition validate :: "validator \<Rightarrow> action_catalog_entry \<Rightarrow> json dict \<Rightarrow> params option \<times> string list" where
  "validate model_validate entry parameters =
     (case model_validate (ac_parameters entry) parameters of
        Inr p \<Rightarrow> (Some p, [])
      | Inl problems \<Rightarrow> (None, problems))"

definition blast_radius :: "action_catalog_entry \<Rightarrow> params \<Rightarrow> int" where
  "blast_radius entry parameters =
     (case parameters of
        ScaleServiceParams _ n \<Rightarrow> if n > 2 then ac_base_blast_radius entry + 1 else ac_base_blast_radius entry
      | _ \<Rightarrow> ac_base_blast_radius entry)"

definition ac_describe :: "(params_class \<Rightarrow> json) \<Rightarrow> action_catalog_entry \<Rightarrow> json" where
  "ac_describe model_json_schema e = JObj
     [(''action_id'', JStr (ac_action_id e)),
      (''version'', JStr (ac_version e)),
      (''description'', JStr (ac_description e)),
      (''parameters_schema'', model_json_schema (ac_parameters e)),
      (''allowed_environments'', JList (map JStr (sort (ac_allowed_environments e)))),
      (''base_blast_radius'', JInt (ac_base_blast_radius e)),
      (''max_blast_radius'', JInt (ac_max_blast_radius e)),
      (''approval_mandatory'', JBool (ac_approval_mandatory e)),
      (''auto_execution_allowed'', JBool (ac_auto_execution_allowed e)),
      (''timeout_seconds'', JInt (ac_timeout_seconds e)),
      (''max_attempts'', JInt (ac_max_attempts e)),
      (''retry_safe'', JBool (ac_retry_safe e)),
      (''requires_rca'', JBool (ac_requires_rca e)),
      (''target_must_match_root_cause'', JBool (ac_target_must_match_root_cause e)),
      (''verification'', vp_describe (ac_verification e))]"

subsection \<open>The catalog\<close>

definition ENVS :: "string list" where
  "ENVS = [''production'', ''staging'']"

abbreviation check :: "check_kind \<Rightarrow> check_template" where
  "check k \<equiv> \<lparr>ct_kind = k, ct_metric = None, ct_max_value = None\<rparr>"

definition HEALTHY :: check_template where
  "HEALTHY = check Health_status"

definition NO_NEW_ALERTS :: check_template where
  "NO_NEW_ALERTS = check Alerts_no_new_firing"

definition ERRORS_OK :: check_template where
  "ERRORS_OK = \<lparr>ct_kind = Metric_max, ct_metric = Some ''error_rate'', ct_max_value = Some (rnd (5 / 100))\<rparr>"

definition LATENCY_OK :: check_template where
  "LATENCY_OK = \<lparr>ct_kind = Metric_max, ct_metric = Some ''latency_p95'', ct_max_value = Some 1\<rparr>"

definition VerificationPolicy ::
  "int \<Rightarrow> int \<Rightarrow> int \<Rightarrow> int \<Rightarrow> bool \<Rightarrow> check_template list \<Rightarrow> verification_policy" where
  "VerificationPolicy grace window poll required baseline checks =
     \<lparr>vp_grace_seconds = grace, vp_window_seconds = window, vp_poll_interval_seconds = poll,
      vp_required_consecutive = required, vp_baseline_required = baseline, vp_checks = checks\<rparr>"

definition entry_restart_service :: action_catalog_entry where
  "entry_restart_service =
     \<lparr>ac_action_id = ''restart_service'', ac_version = ''1'',
      ac_description = ''Rolling restart of every instance of one service.'',
      ac_parameters = RestartService, ac_allowed_environments = ENVS,
      ac_base_blast_radius = 1, ac_max_blast_radius = 1, ac_approval_mandatory = True,
      ac_auto_execution_allowed = False, ac_timeout_seconds = 120, ac_max_attempts = 2,
      ac_retry_safe = True, ac_requires_rca = True, ac_target_must_match_root_cause = True,
      ac_verification = VerificationPolicy 45 240 15 3 True [HEALTHY, ERRORS_OK, NO_NEW_ALERTS]\<rparr>"

definition entry_scale_service :: action_catalog_entry where
  "entry_scale_service =
     \<lparr>ac_action_id = ''scale_service'', ac_version = ''1'',
      ac_description = ''Add a bounded number of instances to one service.'',
      ac_parameters = ScaleService, ac_allowed_environments = ENVS,
      ac_base_blast_radius = 1, ac_max_blast_radius = 2, ac_approval_mandatory = True,
      ac_auto_execution_allowed = False, ac_timeout_seconds = 180, ac_max_attempts = 1,
      ac_retry_safe = False, ac_requires_rca = True, ac_target_must_match_root_cause = True,
      ac_verification = VerificationPolicy 30 240 15 3 True
        [check State_replicas, HEALTHY, LATENCY_OK, NO_NEW_ALERTS]\<rparr>"

definition entry_rollback_deployment :: action_catalog_entry where
  "entry_rollback_deployment =
     \<lparr>ac_action_id = ''rollback_deployment'', ac_version = ''1'',
      ac_description = ''Redeploy the previously deployed version of one service.'',
      ac_parameters = RollbackDeployment, ac_allowed_environments = ENVS,
      ac_base_blast_radius = 2, ac_max_blast_radius = 2, ac_approval_mandatory = True,
      ac_auto_execution_allowed = False, ac_timeout_seconds = 300, ac_max_attempts = 2,
      ac_retry_safe = True, ac_requires_rca = True, ac_target_must_match_root_cause = True,
      ac_verification = VerificationPolicy 60 300 15 3 True
        [check State_deployment_version, HEALTHY, ERRORS_OK, LATENCY_OK, NO_NEW_ALERTS]\<rparr>"

definition entry_disable_feature_flag :: action_catalog_entry where
  "entry_disable_feature_flag =
     \<lparr>ac_action_id = ''disable_feature_flag'', ac_version = ''1'',
      ac_description = ''Turn one feature flag off for one service.'',
      ac_parameters = DisableFeatureFlag, ac_allowed_environments = ENVS,
      ac_base_blast_radius = 1, ac_max_blast_radius = 1, ac_approval_mandatory = True,
      ac_auto_execution_allowed = False, ac_timeout_seconds = 60, ac_max_attempts = 2,
      ac_retry_safe = True, ac_requires_rca = True, ac_target_must_match_root_cause = True,
      ac_verification = VerificationPolicy 30 180 15 2 False
        [check State_flag, HEALTHY, NO_NEW_ALERTS]\<rparr>"

definition entry_revert_configuration :: action_catalog_entry where
  "entry_revert_configuration =
     \<lparr>ac_action_id = ''revert_configuration'', ac_version = ''1'',
      ac_description = ''Set one configuration key of one service back to its previous value.'',
      ac_parameters = RevertConfiguration, ac_allowed_environments = ENVS,
      ac_base_blast_radius = 2, ac_max_blast_radius = 2, ac_approval_mandatory = True,
      ac_auto_execution_allowed = False, ac_timeout_seconds = 120, ac_max_attempts = 2,
      ac_retry_safe = True, ac_requires_rca = True, ac_target_must_match_root_cause = True,
      ac_verification = VerificationPolicy 45 240 15 3 True
        [check State_config_value, HEALTHY, ERRORS_OK, NO_NEW_ALERTS]\<rparr>"

definition CATALOG :: "action_catalog_entry dict" where
  "CATALOG = map (\<lambda>e. (ac_action_id e, e))
     [entry_restart_service, entry_scale_service, entry_rollback_deployment,
      entry_disable_feature_flag, entry_revert_configuration]"

definition get_entry :: "string \<Rightarrow> action_catalog_entry option" where
  "get_entry action_id = dget CATALOG action_id"

text \<open>\<^verbatim>\<open>json.dumps(..., sort_keys=True)\<close> with the default separators, a blank after each.\<close>

fun dumps_blank :: "json \<Rightarrow> string" where
  "dumps_blank (JList xs) = ''['' @ join '', '' (map dumps_blank xs) @ '']''"
| "dumps_blank (JObj d) =
     ''{'' @ join '', '' (map (\<lambda>(k, t). dumps_str k @ '': '' @ t)
                              (sort_key fst (map (\<lambda>(k, v). (k, dumps_blank v)) d))) @ ''}''"
| "dumps_blank j = dumps j"

definition catalog_digest :: "(params_class \<Rightarrow> json) \<Rightarrow> string" where
  "catalog_digest model_json_schema =
     ''sha256:'' @ sha256_hex (dumps_blank (JList (map (\<lambda>k. ac_describe model_json_schema (the (dget CATALOG k)))
                                  (sort (map fst CATALOG)))))"

subsection \<open>The remediation state machine\<close>

datatype remediation_status =
    R_PROPOSED | R_POLICY_REJECTED | R_AWAITING_APPROVAL | R_APPROVED | R_EXECUTING
  | R_EXECUTED | R_FAILED | R_CANCELLED

fun remediation_status_value :: "remediation_status \<Rightarrow> string" where
  "remediation_status_value R_PROPOSED = ''PROPOSED''"
| "remediation_status_value R_POLICY_REJECTED = ''POLICY_REJECTED''"
| "remediation_status_value R_AWAITING_APPROVAL = ''AWAITING_APPROVAL''"
| "remediation_status_value R_APPROVED = ''APPROVED''"
| "remediation_status_value R_EXECUTING = ''EXECUTING''"
| "remediation_status_value R_EXECUTED = ''EXECUTED''"
| "remediation_status_value R_FAILED = ''FAILED''"
| "remediation_status_value R_CANCELLED = ''CANCELLED''"

definition TERMINAL_REMEDIATION_STATUSES :: "remediation_status list" where
  "TERMINAL_REMEDIATION_STATUSES = [R_POLICY_REJECTED, R_EXECUTED, R_FAILED, R_CANCELLED]"

definition ATTEMPTED_REMEDIATION_STATUSES :: "remediation_status list" where
  "ATTEMPTED_REMEDIATION_STATUSES = [R_EXECUTING, R_EXECUTED, R_FAILED]"

fun ALLOWED_TRANSITIONS :: "remediation_status \<Rightarrow> remediation_status list" where
  "ALLOWED_TRANSITIONS R_PROPOSED = [R_POLICY_REJECTED, R_AWAITING_APPROVAL]"
| "ALLOWED_TRANSITIONS R_AWAITING_APPROVAL = [R_APPROVED, R_CANCELLED]"
| "ALLOWED_TRANSITIONS R_APPROVED = [R_EXECUTING, R_CANCELLED, R_FAILED]"
| "ALLOWED_TRANSITIONS R_EXECUTING = [R_EXECUTED, R_FAILED, R_EXECUTING, R_CANCELLED]"
| "ALLOWED_TRANSITIONS _ = []"

definition can_transition :: "remediation_status \<Rightarrow> remediation_status \<Rightarrow> bool" where
  "can_transition from_status to_status \<longleftrightarrow> to_status \<in> set (ALLOWED_TRANSITIONS from_status)"

datatype execution_status = X_RUNNING | X_SUCCEEDED | X_FAILED | X_TIMED_OUT | X_UNKNOWN

fun execution_status_value :: "execution_status \<Rightarrow> string" where
  "execution_status_value X_RUNNING = ''RUNNING''"
| "execution_status_value X_SUCCEEDED = ''SUCCEEDED''"
| "execution_status_value X_FAILED = ''FAILED''"
| "execution_status_value X_TIMED_OUT = ''TIMED_OUT''"
| "execution_status_value X_UNKNOWN = ''UNKNOWN''"

record remediation_proposal =
  rp_incident_id :: uuid
  rp_investigation_id :: "uuid option"
  rp_action_id :: string
  rp_parameters :: "json dict"
  rp_reason :: string
  rp_expected_effect :: string
  rp_source :: string
  rp_proposed_by :: string

definition rp_target_service :: "remediation_proposal \<Rightarrow> string option" where
  "rp_target_service p = (case jget (rp_parameters p) ''service'' of JStr s \<Rightarrow> Some s | _ \<Rightarrow> None)"

definition proposal_hash ::
  "uuid \<Rightarrow> uuid option \<Rightarrow> string \<Rightarrow> string \<Rightarrow> json dict \<Rightarrow> string \<Rightarrow> string" where
  "proposal_hash incident_id investigation_id action_id catalog_version parameters environment =
     ''sha256:'' @ sha256_hex (dumps (JObj
       [(''incident_id'', JStr (uuid_str incident_id)),
        (''investigation_id'', jopt (\<lambda>u. JStr (uuid_str u)) investigation_id),
        (''action_id'', JStr action_id),
        (''catalog_version'', JStr catalog_version),
        (''parameters'', JObj parameters),
        (''environment'', JStr environment)]))"

subsection \<open>A concrete validator\<close>

text \<open>
  One function with the declared behaviour, so that \<open>validates\<close> is not vacuous: it checks the types
  and the bounds, not the patterns of the string fields.
\<close>

definition sample_validate :: validator where
  "sample_validate cls d =
     (case jget d ''service'' of
        JStr s \<Rightarrow>
          (case cls of
             RestartService \<Rightarrow> Inr (RestartServiceParams s)
           | ScaleService \<Rightarrow>
               (case jget d ''increase_by'' of
                  JInt n \<Rightarrow> if 1 \<le> n \<and> n \<le> 5 then Inr (ScaleServiceParams s n)
                             else Inl [''increase_by: out of range'']
                | _ \<Rightarrow> Inl [''increase_by: Input should be a valid integer''])
           | RollbackDeployment \<Rightarrow>
               (case (jget d ''from_version'', jget d ''to_version'') of
                  (JStr a, JStr b) \<Rightarrow> Inr (RollbackDeploymentParams s a b)
                | _ \<Rightarrow> Inl [''from_version: Input should be a valid string''])
           | DisableFeatureFlag \<Rightarrow>
               (case jget d ''flag'' of
                  JStr f \<Rightarrow> Inr (DisableFeatureFlagParams s f)
                | _ \<Rightarrow> Inl [''flag: Input should be a valid string''])
           | RevertConfiguration \<Rightarrow>
               (case jget d ''key'' of
                  JStr k \<Rightarrow>
                    (if jget d ''to_value'' = JNull then Inl [''to_value: no previous value to revert to'']
                     else Inr (RevertConfigurationParams s k (jget d ''from_value'') (jget d ''to_value'')))
                | _ \<Rightarrow> Inl [''key: Input should be a valid string'']))
      | _ \<Rightarrow> Inl [''service: Input should be a valid string''])"

lemma sample_validate_validates: "validates sample_validate"
  unfolding validates_def
proof (intro allI impI)
  fix cls d p
  assume "sample_validate cls d = Inr p"
  then show "params_class_of p = cls \<and> params_bounds p \<and> jget d ''service'' = JStr (p_service p)"
    by (cases cls) (auto simp: sample_validate_def split: json.split_asm if_split_asm)
qed

subsection \<open>The catalog's entries\<close>

lemmas catalog_entries = entry_restart_service_def entry_scale_service_def
  entry_rollback_deployment_def entry_disable_feature_flag_def entry_revert_configuration_def

lemma get_entry_cases:
  assumes "get_entry a = Some e"
  obtains "e = entry_restart_service" | "e = entry_scale_service" | "e = entry_rollback_deployment"
    | "e = entry_disable_feature_flag" | "e = entry_revert_configuration"
  using assms by (auto simp: get_entry_def dget_def CATALOG_def split: if_splits)

lemma get_entry_action_id: "get_entry a = Some e \<Longrightarrow> ac_action_id e = a"
  by (auto simp: get_entry_def dget_def CATALOG_def split: if_splits)

lemma get_entry_approval:
  "get_entry a = Some e \<Longrightarrow> ac_approval_mandatory e \<and> \<not> ac_auto_execution_allowed e"
  by (erule get_entry_cases) (simp_all add: catalog_entries)

lemma get_entry_attempts:
  "get_entry a = Some e \<Longrightarrow>
   1 \<le> ac_max_attempts e \<and> ac_max_attempts e \<le> 2 \<and> (\<not> ac_retry_safe e \<longrightarrow> ac_max_attempts e = 1)"
  by (erule get_entry_cases) (simp_all add: catalog_entries)

lemma get_entry_required_consecutive:
  "get_entry a = Some e \<Longrightarrow> 2 \<le> vp_required_consecutive (ac_verification e)"
  by (erule get_entry_cases) (simp_all add: catalog_entries VerificationPolicy_def)

lemma get_entry_rca:
  "get_entry a = Some e \<Longrightarrow> ac_requires_rca e \<and> ac_target_must_match_root_cause e"
  by (erule get_entry_cases) (simp_all add: catalog_entries)

text \<open>
  The tier of a validated invocation never exceeds the maximum its catalog entry declares,
  and it is 1 or 2: no parameters can push a catalogued action into a tier no policy allows.
\<close>

theorem blast_radius_bounded:
  assumes "get_entry a = Some e" and "validates v" and "v (ac_parameters e) d = Inr p"
  shows "1 \<le> blast_radius e p \<and> blast_radius e p \<le> ac_max_blast_radius e \<and> ac_max_blast_radius e \<le> 2"
proof -
  have "params_class_of p = ac_parameters e" using assms(2,3) by (auto simp: validates_def)
  with assms(1) show ?thesis
    by (elim get_entry_cases) (auto simp: catalog_entries blast_radius_def split: params.splits)
qed

theorem blast_radius_bounded_witness:
  "blast_radius entry_scale_service (ScaleServiceParams ''api'' 5) \<le> 2"
  using blast_radius_bounded [of "''scale_service''" entry_scale_service sample_validate
      "[(''service'', JStr ''api''), (''increase_by'', JInt 5)]" "ScaleServiceParams ''api'' 5"]
  by (simp add: sample_validate_validates sample_validate_def jget_def get_entry_def dget_def
      CATALOG_def catalog_entries)

subsection \<open>Histories of a remediation\<close>

text \<open>The statuses a remediation has been through, the latest first.\<close>

inductive status_history :: "remediation_status list \<Rightarrow> bool" where
  proposed: "status_history [R_PROPOSED]"
| moved: "status_history (s # ss) \<Longrightarrow> can_transition s t \<Longrightarrow> status_history (t # s # ss)"

inductive_cases status_history_Cons: "status_history (t # ss)"

lemma can_transition_into:
  "can_transition s R_EXECUTED \<Longrightarrow> s = R_EXECUTING"
  "can_transition s R_EXECUTING \<Longrightarrow> s = R_APPROVED \<or> s = R_EXECUTING"
  "can_transition s R_APPROVED \<Longrightarrow> s = R_AWAITING_APPROVAL"
  "can_transition s R_AWAITING_APPROVAL \<Longrightarrow> s = R_PROPOSED"
  "\<not> can_transition s R_PROPOSED"
  by (cases s; simp add: can_transition_def)+

lemma terminal_no_transition:
  "s \<in> set TERMINAL_REMEDIATION_STATUSES \<Longrightarrow> \<not> can_transition s t"
  by (auto simp: TERMINAL_REMEDIATION_STATUSES_def can_transition_def)

lemma history_prefixes:
  "status_history ss \<Longrightarrow>
   (R_APPROVED \<in> set ss \<longrightarrow> R_AWAITING_APPROVAL \<in> set ss) \<and>
   (R_EXECUTING \<in> set ss \<longrightarrow> R_APPROVED \<in> set ss) \<and> (R_EXECUTED \<in> set ss \<longrightarrow> R_EXECUTING \<in> set ss)"
proof (induction rule: status_history.induct)
  case (moved s ss t)
  have "t = R_APPROVED \<Longrightarrow> s = R_AWAITING_APPROVAL" "t = R_EXECUTING \<Longrightarrow> s = R_APPROVED \<or> s = R_EXECUTING"
    "t = R_EXECUTED \<Longrightarrow> s = R_EXECUTING"
    using moved.hyps can_transition_into by blast+
  with moved.IH show ?case by auto
qed simp

lemma history_terminal_last:
  "status_history (s # ss) \<Longrightarrow> set ss \<inter> set TERMINAL_REMEDIATION_STATUSES = {}"
proof (induction "s # ss" arbitrary: s ss rule: status_history.induct)
  case (moved s ss t)
  then show ?case using terminal_no_transition by auto
qed simp

text \<open>
  In every history the state machine allows, an executed remediation was executing,
  approved and awaiting approval before, and a terminal status is never left.
\<close>

theorem executed_only_after_approval:
  assumes "status_history (s # ss)"
  shows "(if R_EXECUTED \<in> set (s # ss) \<or> R_EXECUTING \<in> set (s # ss)
          then {R_APPROVED, R_AWAITING_APPROVAL} \<subseteq> set (s # ss) else True) \<and>
    set ss \<inter> set TERMINAL_REMEDIATION_STATUSES = {}"
  using history_prefixes [OF assms] history_terminal_last [OF assms] by auto

theorem executed_only_after_approval_witness:
  "{R_APPROVED, R_AWAITING_APPROVAL} \<subseteq>
     set [R_EXECUTED, R_EXECUTING, R_APPROVED, R_AWAITING_APPROVAL, R_PROPOSED]"
proof -
  have "status_history [R_EXECUTED, R_EXECUTING, R_APPROVED, R_AWAITING_APPROVAL, R_PROPOSED]"
    by (intro status_history.intros) (simp_all add: can_transition_def)
  from executed_only_after_approval [OF this] show ?thesis by simp
qed

subsection \<open>The proposal hash\<close>

lemma dumps_JObj_cong:
  "map fst d = map fst d' \<Longrightarrow> map (dumps \<circ> snd) d = map (dumps \<circ> snd) d' \<Longrightarrow>
   dumps (JObj d) = dumps (JObj d')"
proof -
  assume "map fst d = map fst d'" "map (dumps \<circ> snd) d = map (dumps \<circ> snd) d'"
  then have "map (\<lambda>(k, v). (k, dumps v)) d = map (\<lambda>(k, v). (k, dumps v)) d'"
    by (induction d d' rule: list_induct2') auto
  then show ?thesis by simp
qed

text \<open>
  The hash an approval binds to does not depend on the order in which the parameters are
  listed.
\<close>

theorem proposal_hash_order_independent:
  assumes "set ps = set ps'" and "distinct (map fst ps)" and "distinct (map fst ps')"
  shows "proposal_hash i iv a v ps env = proposal_hash i iv a v ps' env"
proof -
  have "dumps (JObj ps) = dumps (JObj ps')" using assms by (rule dumps_JObj_order)
  then show ?thesis
    unfolding proposal_hash_def by (subst dumps_JObj_cong) (simp_all del: dumps.simps)
qed

theorem proposal_hash_order_independent_witness:
  "proposal_hash 1 None ''scale_service'' CATALOG_VERSION
     [(''service'', JStr ''api''), (''increase_by'', JInt 2)] ''production'' =
   proposal_hash 1 None ''scale_service'' CATALOG_VERSION
     [(''increase_by'', JInt 2), (''service'', JStr ''api'')] ''production''"
  by (rule proposal_hash_order_independent) auto

end
