(* ===== verification/Policy.thy ===== *)
theory Policy
  imports Catalog
begin

text \<open>
  \<^verbatim>\<open>packages/policy/engine.py\<close>: the pure policy evaluation and, from \<^verbatim>\<open>packages/domain/remediation.py\<close>,
  the context it reads and the decision it returns. Every rule is reported, in the order of the code;
  \<open>evaluate\<close> builds that list and derives the decision from it.
\<close>

record policy_evaluation_context =
  pc_context_id :: uuid
  pc_captured_at :: datetime
  pc_incident_id :: uuid
  pc_incident_environment :: string
  pc_incident_severity :: string
  pc_incident_service :: string
  pc_incident_status :: string
  pc_investigation_status :: "string option"
  pc_rca_available :: bool
  pc_rca_cause_category :: json
  pc_rca_component :: json
  pc_target_service :: "string option"
  pc_target_known :: bool
  pc_target_in_incident_scope :: bool
  pc_action_blast_radius_tier :: "int option"
  pc_attempted_remediations_this_incident :: int
  pc_remediation_executions_last_hour_for_target :: int
  pc_global_kill_switch_engaged :: bool
  pc_service_kill_switch_engaged :: bool
  pc_proposal_source :: string

datatype outcome = Pass | Deny | Require_approval

record policy_rule_result =
  rr_rule_id :: string
  rr_outcome :: outcome
  rr_detail :: string

datatype policy_verdict = ALLOW | DENY | REQUIRE_APPROVAL

fun policy_verdict_value :: "policy_verdict \<Rightarrow> string" where
  "policy_verdict_value ALLOW = ''ALLOW''"
| "policy_verdict_value DENY = ''DENY''"
| "policy_verdict_value REQUIRE_APPROVAL = ''REQUIRE_APPROVAL''"

record policy_decision =
  pd_decision :: policy_verdict
  pd_policy_version :: string
  pd_catalog_version :: "string option"
  pd_blast_radius_tier :: "int option"
  pd_required_approver_roles :: "string list"
  pd_rules :: "policy_rule_result list"

definition reasons :: "policy_decision \<Rightarrow> string list" where
  "reasons d = map rr_detail (filter (\<lambda>r. rr_outcome r \<noteq> Pass) (pd_rules d))"

definition denying_rules :: "policy_decision \<Rightarrow> string list" where
  "denying_rules d = map rr_rule_id (filter (\<lambda>r. rr_outcome r = Deny) (pd_rules d))"

record policy =
  po_version :: string
  po_prohibited_environments :: "string list"
  po_max_blast_radius_by_environment :: "int dict"
  po_max_attempted_remediations_per_incident :: int
  po_max_executions_per_service_per_hour :: int
  po_approver_roles_by_tier :: "(int \<times> string list) list"
  po_auto_execution_environments :: "string list"
  po_remediable_incident_statuses :: "string list"

definition DEFAULT_POLICY :: policy where
  "DEFAULT_POLICY =
     \<lparr>po_version = ''policy-2026.09-1'',
      po_prohibited_environments = [],
      po_max_blast_radius_by_environment = [(''production'', 2), (''staging'', 2)],
      po_max_attempted_remediations_per_incident = 2,
      po_max_executions_per_service_per_hour = 3,
      po_approver_roles_by_tier = [(1, [''on_call_engineer'', ''service_owner'']), (2, [''service_owner''])],
      po_auto_execution_environments = [],
      po_remediable_incident_statuses = [''RCA_READY'']\<rparr>"

definition rule :: "string \<Rightarrow> bool \<Rightarrow> string \<Rightarrow> policy_rule_result" where
  "rule rule_id ok detail =
     \<lparr>rr_rule_id = rule_id, rr_outcome = (if ok then Pass else Deny), rr_detail = detail\<rparr>"

definition rule_on_fail :: "string \<Rightarrow> bool \<Rightarrow> string \<Rightarrow> outcome \<Rightarrow> policy_rule_result" where
  "rule_on_fail rule_id ok detail on_fail =
     \<lparr>rr_rule_id = rule_id, rr_outcome = (if ok then Pass else on_fail), rr_detail = detail\<rparr>"

abbreviation repr_opt :: "string option \<Rightarrow> string" where
  "repr_opt s \<equiv> (case s of Some x \<Rightarrow> repr_str x | None \<Rightarrow> ''None'')"

abbreviation str_bool :: "bool \<Rightarrow> string" where
  "str_bool b \<equiv> (if b then ''True'' else ''False'')"

abbreviation tier_str :: "int option \<Rightarrow> string" where
  "tier_str t \<equiv> (case t of Some n \<Rightarrow> str_int n | None \<Rightarrow> ''None'')"

text \<open>\<^verbatim>\<open>policy.approver_roles_by_tier.get(tier or 0, ())\<close>\<close>

definition roles_for :: "policy \<Rightarrow> int option \<Rightarrow> string list" where
  "roles_for policy tier =
     (case map_of (po_approver_roles_by_tier policy) (case tier of Some t \<Rightarrow> t | None \<Rightarrow> 0) of
        Some rs \<Rightarrow> rs | None \<Rightarrow> [])"

definition env_max :: "policy \<Rightarrow> string \<Rightarrow> int" where
  "env_max policy env = (case dget (po_max_blast_radius_by_environment policy) env of Some m \<Rightarrow> m | None \<Rightarrow> 0)"

definition entry_tier :: "validator \<Rightarrow> action_catalog_entry option \<Rightarrow> json dict \<Rightarrow> int option" where
  "entry_tier model_validate entry parameters =
     (case entry of
        None \<Rightarrow> None
      | Some e \<Rightarrow> map_option (blast_radius e) (fst (validate model_validate e parameters)))"

definition automatic :: "action_catalog_entry option \<Rightarrow> policy \<Rightarrow> string \<Rightarrow> bool" where
  "automatic entry policy env \<longleftrightarrow>
     env \<in> set (po_auto_execution_environments policy) \<and>
     (case entry of None \<Rightarrow> False | Some e \<Rightarrow> ac_auto_execution_allowed e \<and> \<not> ac_approval_mandatory e)"

definition policy_rules ::
  "validator \<Rightarrow> remediation_proposal \<Rightarrow> action_catalog_entry option \<Rightarrow> policy \<Rightarrow>
   policy_evaluation_context \<Rightarrow> policy_rule_result list" where
  "policy_rules model_validate proposal entry policy context =
     (let tier = entry_tier model_validate entry (rp_parameters proposal);
          env = pc_incident_environment context;
          target = pc_target_service context;
          roles = roles_for policy tier;
          auto = automatic entry policy env
      in
      [rule ''kill_switch.global'' (\<not> pc_global_kill_switch_engaged context)
         (if pc_global_kill_switch_engaged context then ''global remediation kill switch is engaged''
          else ''global kill switch released''),
       rule ''kill_switch.service'' (\<not> pc_service_kill_switch_engaged context)
         (if pc_service_kill_switch_engaged context then ''kill switch engaged for '' @ opt_str target
          else ''service kill switch released''),
       rule ''action.known'' (entry \<noteq> None)
         (if entry \<noteq> None
          then ''action '' @ repr_str (rp_action_id proposal) @ '' is in catalog '' @ CATALOG_VERSION
          else ''unknown action '' @ repr_str (rp_action_id proposal) @ '': not in catalog ''
               @ CATALOG_VERSION)]
      @ (case entry of
           None \<Rightarrow> []
         | Some e \<Rightarrow>
             (case validate model_validate e (rp_parameters proposal) of (params, problems) \<Rightarrow>
               [rule ''action.parameters'' (params \<noteq> None)
                  (if params \<noteq> None then ''parameters valid''
                   else ''invalid parameters: '' @ join ''; '' problems)])
             @ [rule ''action.auto_execution_not_requested'' True
                  (''catalog entry permits automatic execution: ''
                   @ str_bool (ac_auto_execution_allowed e) @ '' (not used by this policy)'')])
      @ [rule ''target.known'' (pc_target_known context)
           (''target '' @ repr_opt target @ '' is ''
            @ (if pc_target_known context then ''a catalogued service'' else ''not a known service'')),
         rule ''target.in_incident_scope'' (pc_target_in_incident_scope context)
           (''target '' @ repr_opt target @ '' is ''
            @ (if pc_target_in_incident_scope context then ''within the incident's service scope''
               else ''outside the scope of the incident on '' @ pc_incident_service context)),
         rule ''environment.not_prohibited'' (env \<notin> set (po_prohibited_environments policy))
           (''environment '' @ repr_str env @ '' ''
            @ (if env \<in> set (po_prohibited_environments policy) then ''is prohibited''
               else ''permitted by policy''))]
      @ (case entry of
           None \<Rightarrow> []
         | Some e \<Rightarrow>
             [rule ''environment.allowed_for_action'' (env \<in> set (ac_allowed_environments e))
                (ac_action_id e @ '' ''
                 @ (if env \<in> set (ac_allowed_environments e) then ''allowed'' else ''not allowed'')
                 @ '' in '' @ repr_str env)])
      @ (case (tier, entry) of
           (Some t, Some e) \<Rightarrow>
             [rule ''blast_radius.action_max'' (t \<le> ac_max_blast_radius e)
                (''blast radius '' @ str_int t @ '' vs '' @ ac_action_id e @ '' maximum ''
                 @ str_int (ac_max_blast_radius e)),
              rule ''blast_radius.environment_max'' (t \<le> env_max policy env)
                (''blast radius '' @ str_int t @ '' vs '' @ repr_str env @ '' maximum ''
                 @ str_int (env_max policy env))]
         | _ \<Rightarrow> [])
      @ [rule ''incident.remediable_status''
           (pc_incident_status context \<in> set (po_remediable_incident_statuses policy))
           (''incident is '' @ pc_incident_status context)]
      @ (case entry of
           None \<Rightarrow> []
         | Some e \<Rightarrow>
             (if ac_requires_rca e then
                [rule ''rca.required'' (pc_rca_available context)
                   (if pc_rca_available context
                    then ''a completed investigation with an accepted RCA exists''
                    else ac_action_id e @ '' requires an accepted RCA; none exists'')]
                @ (if ac_target_must_match_root_cause e \<and> pc_rca_available context then
                     [rule ''rca.target_matches_root_cause''
                        (py_eq (jopt JStr target) (pc_rca_component context))
                        (''target '' @ repr_opt target @ '' vs root-cause component ''
                         @ repr_json (pc_rca_component context))]
                   else [])
              else []))
      @ [rule ''attempts.per_incident''
           (pc_attempted_remediations_this_incident context
            < po_max_attempted_remediations_per_incident policy)
           (str_int (pc_attempted_remediations_this_incident context)
            @ '' remediation(s) already attempted for this incident (limit ''
            @ str_int (po_max_attempted_remediations_per_incident policy) @ '')''),
         rule ''attempts.per_service_per_hour''
           (pc_remediation_executions_last_hour_for_target context
            < po_max_executions_per_service_per_hour policy)
           (str_int (pc_remediation_executions_last_hour_for_target context) @ '' execution(s) on ''
            @ opt_str target @ '' in the last hour (limit ''
            @ str_int (po_max_executions_per_service_per_hour policy) @ '')''),
         rule_on_fail ''approval.required'' auto
           (if auto then ''automatic execution permitted''
            else ''human approval required (''
                 @ (let r = join '' or '' roles in if r = [] then ''no eligible role'' else r) @ '')'')
           Require_approval]
      @ (if roles = []
         then [rule ''approval.eligible_role_exists'' False
                 (''no approver role is defined for tier '' @ tier_str tier)]
         else []))"

definition evaluate ::
  "validator \<Rightarrow> remediation_proposal \<Rightarrow> action_catalog_entry option \<Rightarrow> policy \<Rightarrow>
   policy_evaluation_context \<Rightarrow> policy_decision" where
  "evaluate model_validate proposal entry policy context =
     (let rules = policy_rules model_validate proposal entry policy context;
          tier = entry_tier model_validate entry (rp_parameters proposal);
          decision = (if list_ex (\<lambda>r. rr_outcome r = Deny) rules then DENY
                      else if list_ex (\<lambda>r. rr_outcome r = Require_approval) rules
                        then REQUIRE_APPROVAL
                      else ALLOW)
      in \<lparr>pd_decision = decision,
          pd_policy_version = po_version policy,
          pd_catalog_version = (if entry \<noteq> None then Some CATALOG_VERSION else None),
          pd_blast_radius_tier = tier,
          pd_required_approver_roles =
            (if decision = REQUIRE_APPROVAL then roles_for policy tier else []),
          pd_rules = rules\<rparr>)"

subsection \<open>What the rules ask for\<close>

lemma rule_outcome [simp]:
  "rr_outcome (rule i ok d) = Deny \<longleftrightarrow> \<not> ok" "rr_outcome (rule i ok d) \<noteq> Require_approval"
  "rr_outcome (rule_on_fail i ok d Require_approval) \<noteq> Deny"
  "rr_outcome (rule_on_fail i ok d Require_approval) = Require_approval \<longleftrightarrow> \<not> ok"
  by (simp_all add: rule_def rule_on_fail_def)

text \<open>Everything that has to hold before a human is even asked.\<close>

definition permitted ::
  "validator \<Rightarrow> remediation_proposal \<Rightarrow> action_catalog_entry \<Rightarrow> policy \<Rightarrow>
   policy_evaluation_context \<Rightarrow> params \<Rightarrow> bool" where
  "permitted model_validate proposal e policy ctx p \<longleftrightarrow>
     model_validate (ac_parameters e) (rp_parameters proposal) = Inr p \<and>
     \<not> pc_global_kill_switch_engaged ctx \<and> \<not> pc_service_kill_switch_engaged ctx \<and>
     pc_target_known ctx \<and> pc_target_in_incident_scope ctx \<and>
     pc_incident_environment ctx \<notin> set (po_prohibited_environments policy) \<and>
     pc_incident_environment ctx \<in> set (ac_allowed_environments e) \<and>
     blast_radius e p \<le> ac_max_blast_radius e \<and>
     blast_radius e p \<le> env_max policy (pc_incident_environment ctx) \<and>
     pc_incident_status ctx \<in> set (po_remediable_incident_statuses policy) \<and>
     (if ac_requires_rca e
      then pc_rca_available ctx \<and>
           (if ac_target_must_match_root_cause e
            then py_eq (jopt JStr (pc_target_service ctx)) (pc_rca_component ctx) else True)
      else True) \<and>
     pc_attempted_remediations_this_incident ctx < po_max_attempted_remediations_per_incident policy \<and>
     pc_remediation_executions_last_hour_for_target ctx < po_max_executions_per_service_per_hour policy \<and>
     roles_for policy (Some (blast_radius e p)) \<noteq> []"

lemma no_deny_unknown:
  "\<not> list_all (\<lambda>r. rr_outcome r \<noteq> Deny) (policy_rules v proposal None policy ctx)"
  by (simp add: policy_rules_def Let_def)

lemma no_deny_invalid:
  "v (ac_parameters e) (rp_parameters proposal) = Inl problems \<Longrightarrow>
   \<not> list_all (\<lambda>r. rr_outcome r \<noteq> Deny) (policy_rules v proposal (Some e) policy ctx)"
  by (simp add: policy_rules_def Let_def validate_def)

lemma no_deny_valid:
  "v (ac_parameters e) (rp_parameters proposal) = Inr p \<Longrightarrow>
   list_all (\<lambda>r. rr_outcome r \<noteq> Deny) (policy_rules v proposal (Some e) policy ctx) \<longleftrightarrow>
   permitted v proposal e policy ctx p"
  by (simp add: policy_rules_def Let_def validate_def permitted_def entry_tier_def)

lemma evaluate_decision:
  "pd_decision (evaluate v proposal entry policy ctx) =
     (if \<not> list_all (\<lambda>r. rr_outcome r \<noteq> Deny) (policy_rules v proposal entry policy ctx) then DENY
      else if automatic entry policy (pc_incident_environment ctx) then ALLOW else REQUIRE_APPROVAL)"
proof -
  have "list_ex (\<lambda>r. rr_outcome r = Require_approval) (policy_rules v proposal entry policy ctx) \<longleftrightarrow>
      \<not> automatic entry policy (pc_incident_environment ctx)"
    by (simp add: policy_rules_def Let_def split: option.splits prod.splits)
  then show ?thesis by (simp add: evaluate_def Let_def list_all_iff list_ex_iff)
qed

lemma evaluate_deny_iff:
  "pd_decision (evaluate v proposal entry policy ctx) = DENY \<longleftrightarrow>
   denying_rules (evaluate v proposal entry policy ctx) \<noteq> []"
  by (auto simp: evaluate_def Let_def denying_rules_def filter_empty_conv list_ex_iff)

lemma evaluate_permitted:
  "pd_decision (evaluate v proposal entry policy ctx) \<noteq> DENY \<longleftrightarrow>
     (\<exists>e p. entry = Some e \<and> permitted v proposal e policy ctx p)"
proof (cases entry)
  case None
  then show ?thesis using no_deny_unknown by (auto simp: evaluate_decision)
next
  case (Some e)
  show ?thesis
  proof (cases "v (ac_parameters e) (rp_parameters proposal)")
    case (Inl problems)
    then show ?thesis using no_deny_invalid [of v e proposal problems policy ctx]
      by (auto simp: evaluate_decision Some permitted_def)
  next
    case (Inr p)
    then show ?thesis using no_deny_valid [of v e proposal p policy ctx]
      by (auto simp: evaluate_decision Some permitted_def)
  qed
qed

lemma evaluate_roles:
  "pd_decision (evaluate v proposal entry policy ctx) = REQUIRE_APPROVAL \<Longrightarrow>
   pd_required_approver_roles (evaluate v proposal entry policy ctx) \<noteq> []"
proof -
  assume r: "pd_decision (evaluate v proposal entry policy ctx) = REQUIRE_APPROVAL"
  then obtain e p where e: "entry = Some e" and p: "permitted v proposal e policy ctx p"
    using evaluate_permitted [of v proposal entry policy ctx] by auto
  then have "entry_tier v entry (rp_parameters proposal) = Some (blast_radius e p)"
    by (simp add: entry_tier_def validate_def permitted_def)
  with p r show ?thesis by (auto simp: evaluate_def Let_def permitted_def split: if_splits)
qed

subsection \<open>Properties\<close>

text \<open>
  Policy lets a proposal through exactly when every safety condition holds: the action is
  catalogued and its parameters validate, no kill switch is engaged, the target is a known service in
  the incident's scope, the environment is allowed, the blast radius is within both limits, the
  incident is remediable, an accepted RCA names the target, both attempt budgets have room and
  somebody may approve it.
\<close>

theorem policy_permits_iff:
  "pd_decision (evaluate v proposal entry policy ctx) \<noteq> DENY \<longleftrightarrow>
     (\<exists>e p. entry = Some e \<and> permitted v proposal e policy ctx p)"
  by (rule evaluate_permitted)

text \<open>
  There is no automatic execution: the default policy allows nothing without a human,
  and no policy at all allows a catalogued action without one.
\<close>

theorem never_automatic:
  "pd_decision (evaluate v proposal entry DEFAULT_POLICY ctx) \<noteq> ALLOW \<and>
   pd_decision (evaluate v proposal (get_entry a) policy ctx) \<noteq> ALLOW"
  using get_entry_approval [of a]
  by (auto simp: evaluate_decision automatic_def DEFAULT_POLICY_def split: option.splits)

text \<open>
  While the global switch, or the switch of the target service, is engaged, every proposal is
  denied, and the denial names a rule.
\<close>

theorem kill_switch_denies:
  assumes "pc_global_kill_switch_engaged ctx \<or> pc_service_kill_switch_engaged ctx"
  shows "pd_decision (evaluate v proposal entry policy ctx) = DENY \<and>
    denying_rules (evaluate v proposal entry policy ctx) \<noteq> []"
  using assms evaluate_permitted [of v proposal entry policy ctx] evaluate_deny_iff [of v proposal entry policy ctx]
  by (auto simp: permitted_def)

theorem kill_switch_denies_witness:
  "pd_decision (evaluate sample_validate
     \<lparr>rp_incident_id = 1, rp_investigation_id = None, rp_action_id = ''restart_service'',
      rp_parameters = [(''service'', JStr ''api'')], rp_reason = ''r'', rp_expected_effect = ''e'',
      rp_source = ''operator'', rp_proposed_by = ''ann''\<rparr>
     (get_entry ''restart_service'') DEFAULT_POLICY
     \<lparr>pc_context_id = 2, pc_captured_at = 0, pc_incident_id = 1,
      pc_incident_environment = ''production'', pc_incident_severity = ''critical'',
      pc_incident_service = ''api'', pc_incident_status = ''RCA_READY'',
      pc_investigation_status = Some ''COMPLETED'', pc_rca_available = True,
      pc_rca_cause_category = JNull, pc_rca_component = JStr ''api'',
      pc_target_service = Some ''api'', pc_target_known = True, pc_target_in_incident_scope = True,
      pc_action_blast_radius_tier = Some 1, pc_attempted_remediations_this_incident = 0,
      pc_remediation_executions_last_hour_for_target = 0, pc_global_kill_switch_engaged = True,
      pc_service_kill_switch_engaged = False, pc_proposal_source = ''operator''\<rparr>) = DENY"
  by (rule kill_switch_denies [THEN conjunct1]) simp

end
