(* ===== verification/Correlation_Engine.thy ===== *)
theory Correlation_Engine
  imports Domain
begin

text \<open>
  \<^verbatim>\<open>packages/domain/correlation_engine.py\<close>: the scoring rules, the decision loop over candidate
  incidents, and the default rule set. Scores are binary64 floats, added in the order of the rule
  list with the rounding of \<open>fadd\<close>; a literal such as \<^verbatim>\<open>0.3\<close> is \<open>rnd (3 / 10)\<close>.

  The locale \<open>scoring\<close> is the contract of a rule list (the \<^verbatim>\<open>CorrelationRule\<close> protocol): a rule never
  contributes a negative amount, and contributes nothing unless it names its signal. What the
  engine guarantees for every such list is proved there once and used for the default rules.
\<close>

definition DEFAULT_THRESHOLD :: float64 where
  "DEFAULT_THRESHOLD = rnd (6 / 10)"

definition DEFAULT_TEMPORAL_WINDOW_SECONDS :: int where
  "DEFAULT_TEMPORAL_WINDOW_SECONDS = 90"

definition DEFAULT_CANDIDATE_LOOKBACK_SECONDS :: int where
  "DEFAULT_CANDIDATE_LOOKBACK_SECONDS = 15 * 60"

record new_alert_context =
  na_source :: string
  na_fingerprint :: string
  na_labels :: "string dict"
  na_service :: string
  na_environment :: string
  na_received_at :: datetime

record correlation_candidate =
  cc_incident_id :: uuid
  cc_correlation_key :: string
  cc_status :: incident_status
  cc_service :: string
  cc_environment :: string
  cc_received_at :: datetime
  cc_labels :: "string dict"
  cc_fingerprint :: string

record rule_result =
  contribution :: float64
  signal :: "string option"

datatype correlation_rule =
    SameServiceRule float64
  | SameEnvironmentRule float64
  | SameLabelValueRule string float64 string
  | TemporalProximityRule float64 int
  | RelatedAlertTypeRule float64 float64 "string list dict"
  | DeploymentProximityRule float64

abbreviation no_signal :: rule_result where
  "no_signal \<equiv> \<lparr>contribution = 0, signal = None\<rparr>"

text \<open>\<^verbatim>\<open>labels.get(k)\<close> as a truthy value: \<open>None\<close> for a missing or empty label.\<close>

definition label :: "string dict \<Rightarrow> string \<Rightarrow> string option" where
  "label d k = (case dget d k of Some v \<Rightarrow> if v = [] then None else Some v | None \<Rightarrow> None)"

fun evaluate_rule ::
  "correlation_rule \<Rightarrow> new_alert_context \<Rightarrow> correlation_candidate \<Rightarrow> rule_result" where
  "evaluate_rule (SameServiceRule weight) alert candidate =
     (if na_service alert = cc_service candidate
      then \<lparr>contribution = weight, signal = Some ''same service''\<rparr> else no_signal)"
| "evaluate_rule (SameEnvironmentRule weight) alert candidate =
     (if na_environment alert = cc_environment candidate
      then \<lparr>contribution = weight, signal = Some ''same environment''\<rparr> else no_signal)"
| "evaluate_rule (SameLabelValueRule label_key weight name) alert candidate =
     (let new_value = label (na_labels alert) label_key;
          candidate_value = label (cc_labels candidate) label_key
      in if new_value \<noteq> None \<and> candidate_value \<noteq> None \<and> new_value = candidate_value
         then \<lparr>contribution = weight, signal = Some (''same '' @ label_key)\<rparr> else no_signal)"
| "evaluate_rule (TemporalProximityRule weight window_seconds) alert candidate =
     (let delta = \<bar>total_seconds (na_received_at alert - cc_received_at candidate)\<bar>
      in if delta \<le> of_int window_seconds
         then \<lparr>contribution = weight,
               signal = Some (''within '' @ str_int window_seconds @ '' seconds'')\<rparr>
         else no_signal)"
| "evaluate_rule (RelatedAlertTypeRule weight related_weight_fraction related_alert_types)
     alert candidate =
     (case (label (na_labels alert) ''alertname'', label (cc_labels candidate) ''alertname'') of
        (Some new_type, Some candidate_type) \<Rightarrow>
          (if new_type = candidate_type
           then \<lparr>contribution = weight, signal = Some ''same alert type''\<rparr>
           else
             (let related = (case dget related_alert_types new_type of Some r \<Rightarrow> r | None \<Rightarrow> [])
              in if candidate_type \<in> set related
                 then \<lparr>contribution = fmul weight related_weight_fraction,
                       signal = Some ''related alert types''\<rparr>
                 else no_signal))
      | _ \<Rightarrow> no_signal)"
| "evaluate_rule (DeploymentProximityRule weight) alert candidate = no_signal"

datatype decision = CORRELATE | NEW_INCIDENT

record correlation_decision =
  cd_decision :: decision
  cd_score :: float64
  cd_matched_signals :: "string list"
  cd_matched_incident_id :: "uuid option"
  cd_correlation_key :: string

record correlation_engine =
  ce_rules :: "correlation_rule list"
  ce_threshold :: float64
  ce_new_incident_correlation_key :: "string option"

text \<open>The inner loop: the score and the signals of one candidate.\<close>

definition score_candidate ::
  "correlation_rule list \<Rightarrow> new_alert_context \<Rightarrow> correlation_candidate \<Rightarrow> float64 \<times> string list" where
  "score_candidate rules alert candidate =
     (let results = map (\<lambda>rule. evaluate_rule rule alert candidate) rules;
          score = foldl (\<lambda>score result. fadd score (contribution result)) 0 results;
          signals = concat (map (\<lambda>result.
            case signal result of Some s \<Rightarrow> if s = [] then [] else [s] | None \<Rightarrow> []) results)
      in (min score 1, signals))"

text \<open>The outer loop, with \<open>(best_candidate, best_score, best_signals)\<close> as its state.\<close>

type_synonym best_state = "correlation_candidate option \<times> float64 \<times> string list"

definition best_step ::
  "correlation_rule list \<Rightarrow> new_alert_context \<Rightarrow> best_state \<Rightarrow> correlation_candidate \<Rightarrow> best_state" where
  "best_step rules alert best candidate =
     (case best of (best_candidate, best_score, best_signals) \<Rightarrow>
       (case score_candidate rules alert candidate of (score, signals) \<Rightarrow>
         if best_candidate = None \<or> score > best_score then (Some candidate, score, signals)
         else best))"

definition decide ::
  "correlation_engine \<Rightarrow> new_alert_context \<Rightarrow> correlation_candidate list \<Rightarrow> correlation_decision" where
  "decide engine alert candidates =
     (case foldl (best_step (ce_rules engine) alert) (None, 0, []) candidates of
        (best_candidate, best_score, best_signals) \<Rightarrow>
          if best_candidate \<noteq> None \<and> best_score \<ge> ce_threshold engine
          then \<lparr>cd_decision = CORRELATE, cd_score = best_score, cd_matched_signals = best_signals,
                cd_matched_incident_id = map_option cc_incident_id best_candidate,
                cd_correlation_key = cc_correlation_key (the best_candidate)\<rparr>
          else \<lparr>cd_decision = NEW_INCIDENT, cd_score = best_score,
                cd_matched_signals = best_signals, cd_matched_incident_id = None,
                cd_correlation_key =
                  (case ce_new_incident_correlation_key engine of
                     Some k \<Rightarrow> if k = [] then na_fingerprint alert else k
                   | None \<Rightarrow> na_fingerprint alert)\<rparr>)"

definition same_region_rule :: "float64 \<Rightarrow> correlation_rule" where
  "same_region_rule weight = SameLabelValueRule ''region'' weight ''same_region''"

definition same_dependency_rule :: "float64 \<Rightarrow> correlation_rule" where
  "same_dependency_rule weight = SameLabelValueRule ''dependency'' weight ''same_dependency''"

definition default_rules :: "int \<Rightarrow> string list dict \<Rightarrow> correlation_rule list" where
  "default_rules temporal_window_seconds related_alert_types =
     [SameServiceRule (rnd (3 / 10)),
      SameEnvironmentRule (rnd (2 / 10)),
      same_region_rule (rnd (1 / 10)),
      same_dependency_rule (rnd (1 / 10)),
      TemporalProximityRule (rnd (2 / 10)) temporal_window_seconds,
      RelatedAlertTypeRule (rnd (2 / 10)) (rnd (85 / 100)) related_alert_types,
      DeploymentProximityRule 0]"

definition default_correlation_engine ::
  "float64 \<Rightarrow> int \<Rightarrow> string option \<Rightarrow> string list dict \<Rightarrow> correlation_engine" where
  "default_correlation_engine threshold temporal_window_seconds new_key related_alert_types =
     \<lparr>ce_rules = default_rules temporal_window_seconds related_alert_types,
      ce_threshold = threshold, ce_new_incident_correlation_key = new_key\<rparr>"

definition candidate_lookback_cutoff :: "datetime \<Rightarrow> int \<Rightarrow> datetime" where
  "candidate_lookback_cutoff now lookback_seconds = now - seconds lookback_seconds"

subsection \<open>The loop finds the first candidate of the highest score\<close>

definition candidate_score ::
  "correlation_rule list \<Rightarrow> new_alert_context \<Rightarrow> correlation_candidate \<Rightarrow> float64" where
  "candidate_score rules alert c = fst (score_candidate rules alert c)"

lemma best_step_simp:
  "best_step rules alert (b, s, sig) c =
     (if b = None \<or> candidate_score rules alert c > s
      then (Some c, candidate_score rules alert c, snd (score_candidate rules alert c))
      else (b, s, sig))"
  by (simp add: best_step_def candidate_score_def split: prod.splits)

definition best_ok ::
  "correlation_rule list \<Rightarrow> new_alert_context \<Rightarrow> correlation_candidate list \<Rightarrow> best_state \<Rightarrow> bool" where
  "best_ok rules alert cs st = (case st of (b, s, sig) \<Rightarrow>
     (case b of
        None \<Rightarrow> cs = [] \<and> s = 0 \<and> sig = []
      | Some c \<Rightarrow> s = candidate_score rules alert c \<and> sig = snd (score_candidate rules alert c) \<and>
          (\<exists>xs ys. cs = xs @ c # ys \<and> (\<forall>x \<in> set xs. candidate_score rules alert x < s) \<and>
                   (\<forall>y \<in> set ys. candidate_score rules alert y \<le> s))))"

lemma best_ok_step:
  assumes "best_ok rules alert cs (b, s, sig)"
  shows "best_ok rules alert (cs @ [c]) (best_step rules alert (b, s, sig) c)"
proof (cases b)
  case None
  with assms have "cs @ [c] = [] @ c # []" by (simp add: best_ok_def)
  with None show ?thesis
    by (simp add: best_ok_def best_step_simp) (metis empty_iff list.set(1) append_Nil)
next
  case (Some b')
  with assms obtain xs ys where split: "cs = xs @ b' # ys" "s = candidate_score rules alert b'"
      "sig = snd (score_candidate rules alert b')"
      "\<forall>x \<in> set xs. candidate_score rules alert x < s" "\<forall>y \<in> set ys. candidate_score rules alert y \<le> s"
    by (auto simp: best_ok_def)
  show ?thesis
  proof (cases "candidate_score rules alert c > s")
    case True
    have "\<forall>x \<in> set cs. candidate_score rules alert x < candidate_score rules alert c"
      using split True by auto
    then have "\<exists>xs' ys'. cs @ [c] = xs' @ c # ys' \<and>
        (\<forall>x \<in> set xs'. candidate_score rules alert x < candidate_score rules alert c) \<and>
        (\<forall>y \<in> set ys'. candidate_score rules alert y \<le> candidate_score rules alert c)"
      by (intro exI [of _ cs] exI [of _ "[]"]) simp
    with Some True show ?thesis by (simp add: best_ok_def best_step_simp)
  next
    case False
    then have "\<exists>xs' ys'. cs @ [c] = xs' @ b' # ys' \<and> (\<forall>x \<in> set xs'. candidate_score rules alert x < s) \<and>
        (\<forall>y \<in> set ys'. candidate_score rules alert y \<le> s)"
      using split by (intro exI [of _ xs] exI [of _ "ys @ [c]"]) auto
    with Some False split show ?thesis by (simp add: best_ok_def best_step_simp)
  qed
qed

lemma best_ok_foldl: "best_ok rules alert cs (foldl (best_step rules alert) (None, 0, []) cs)"
proof (induction cs rule: rev_induct)
  case Nil
  then show ?case by (simp add: best_ok_def)
next
  case (snoc c cs)
  then show ?case
    by (cases "foldl (best_step rules alert) (None, 0, []) cs") (simp add: best_ok_step)
qed

lemma decide_cases:
  obtains (new_empty) "candidates = []" "cd_decision (decide engine alert candidates) = NEW_INCIDENT"
      "cd_score (decide engine alert candidates) = 0"
      "cd_matched_incident_id (decide engine alert candidates) = None"
  | (best) c xs ys where "candidates = xs @ c # ys"
      "cd_score (decide engine alert candidates) = candidate_score (ce_rules engine) alert c"
      "cd_matched_signals (decide engine alert candidates) =
         snd (score_candidate (ce_rules engine) alert c)"
      "\<forall>x \<in> set xs. candidate_score (ce_rules engine) alert x <
                  candidate_score (ce_rules engine) alert c"
      "\<forall>y \<in> set ys. candidate_score (ce_rules engine) alert y \<le>
                  candidate_score (ce_rules engine) alert c"
      "cd_decision (decide engine alert candidates) =
         (if candidate_score (ce_rules engine) alert c \<ge> ce_threshold engine
          then CORRELATE else NEW_INCIDENT)"
      "cd_matched_incident_id (decide engine alert candidates) =
         (if candidate_score (ce_rules engine) alert c \<ge> ce_threshold engine
          then Some (cc_incident_id c) else None)"
proof -
  obtain b s sig where f:
    "foldl (best_step (ce_rules engine) alert) (None, 0, []) candidates = (b, s, sig)"
    by (metis prod_cases3)
  have ok: "best_ok (ce_rules engine) alert candidates (b, s, sig)"
    using best_ok_foldl [of "ce_rules engine" alert candidates] by (simp add: f)
  show thesis
  proof (cases b)
    case None
    with ok show thesis by (intro new_empty) (simp_all add: best_ok_def decide_def f)
  next
    case (Some c)
    with ok obtain xs ys where split: "candidates = xs @ c # ys"
      and sc: "s = candidate_score (ce_rules engine) alert c"
      and sg: "sig = snd (score_candidate (ce_rules engine) alert c)"
      and lt: "\<forall>x \<in> set xs. candidate_score (ce_rules engine) alert x < s"
      and le: "\<forall>y \<in> set ys. candidate_score (ce_rules engine) alert y \<le> s"
      by (auto simp: best_ok_def)
    have "cd_score (decide engine alert candidates) = s"
      "cd_matched_signals (decide engine alert candidates) = sig"
      "cd_decision (decide engine alert candidates) =
         (if s \<ge> ce_threshold engine then CORRELATE else NEW_INCIDENT)"
      "cd_matched_incident_id (decide engine alert candidates) =
         (if s \<ge> ce_threshold engine then Some (cc_incident_id c) else None)"
      by (simp_all add: decide_def f Some)
    then show thesis using best [OF split] lt le sc sg by simp
  qed
qed

subsection \<open>The contract of a rule list\<close>

locale scoring =
  fixes rules :: "correlation_rule list"
  assumes rule_nonneg: "rule \<in> set rules \<Longrightarrow> 0 \<le> contribution (evaluate_rule rule alert c)"
    and rule_silent: "rule \<in> set rules \<Longrightarrow> signal (evaluate_rule rule alert c) = None \<Longrightarrow>
      contribution (evaluate_rule rule alert c) = 0"
    and rule_named: "rule \<in> set rules \<Longrightarrow> signal (evaluate_rule rule alert c) \<noteq> Some []"
begin

lemma foldl_score_nonneg:
  "set rs \<subseteq> set rules \<Longrightarrow> 0 \<le> a \<Longrightarrow>
   0 \<le> foldl (\<lambda>score result. fadd score (contribution result)) a
        (map (\<lambda>rule. evaluate_rule rule alert c) rs)"
  by (induction rs arbitrary: a) (auto simp: rule_nonneg fadd_nonneg)

lemma candidate_score_range: "0 \<le> candidate_score rules alert c" "candidate_score rules alert c \<le> 1"
  using foldl_score_nonneg [of rules 0 alert c]
  by (simp_all add: candidate_score_def score_candidate_def Let_def)

text \<open>A candidate with no matched signal scores zero: every score is explained by its signals.\<close>

lemma foldl_score_silent:
  "set rs \<subseteq> set rules \<Longrightarrow> (\<forall>rule \<in> set rs. signal (evaluate_rule rule alert c) = None) \<Longrightarrow>
   foldl (\<lambda>score result. fadd score (contribution result)) 0
        (map (\<lambda>rule. evaluate_rule rule alert c) rs) = 0"
  by (induction rs) (auto simp: rule_silent fadd_def)

lemma unexplained_score_zero:
  assumes "snd (score_candidate rules alert c) = []"
  shows "candidate_score rules alert c = 0"
proof -
  have "\<forall>rule \<in> set rules. signal (evaluate_rule rule alert c) = None"
    using assms rule_named [of _ alert c]
    by (auto simp: score_candidate_def Let_def split: option.splits if_splits)
      (metis option.exhaust)
  then show ?thesis
    by (simp add: candidate_score_def score_candidate_def Let_def foldl_score_silent)
qed

lemma decide_score_range:
  assumes "ce_rules engine = rules"
  shows "0 \<le> cd_score (decide engine alert cs)" "cd_score (decide engine alert cs) \<le> 1"
proof -
  have "0 \<le> cd_score (decide engine alert cs) \<and> cd_score (decide engine alert cs) \<le> 1"
    using candidate_score_range assms
    by (cases rule: decide_cases [where engine = engine and alert = alert and candidates = cs])
      simp_all
  then show "0 \<le> cd_score (decide engine alert cs)" "cd_score (decide engine alert cs) \<le> 1"
    by simp_all
qed

lemma correlate_is_explained:
  assumes "ce_rules engine = rules" and "0 < ce_threshold engine"
    and "cd_decision (decide engine alert cs) = CORRELATE"
  shows "cd_matched_signals (decide engine alert cs) \<noteq> []"
proof (cases rule: decide_cases [where engine = engine and alert = alert and candidates = cs])
  case new_empty
  with assms show ?thesis by simp
next
  case (best c xs ys)
  with assms have "0 < candidate_score rules alert c" by (simp split: if_splits)
  then show ?thesis using unexplained_score_zero [of alert c] best(3) assms(1) by auto
qed

end

lemma default_rules_nonneg:
  "rule \<in> set (default_rules w rel) \<Longrightarrow> 0 \<le> contribution (evaluate_rule rule alert c)"
  by (auto simp: default_rules_def same_region_rule_def same_dependency_rule_def Let_def
      rnd_nonneg fmul_nonneg split: option.splits)

interpretation dr: scoring "default_rules w rel"
proof unfold_locales
  fix rule alert c
  assume r: "rule \<in> set (default_rules w rel)"
  then show "0 \<le> contribution (evaluate_rule rule alert c)" by (rule default_rules_nonneg)
  from r show "signal (evaluate_rule rule alert c) \<noteq> Some []"
    by (auto simp: default_rules_def same_region_rule_def same_dependency_rule_def Let_def
        split: option.splits if_splits)
  assume "signal (evaluate_rule rule alert c) = None"
  with r show "contribution (evaluate_rule rule alert c) = 0"
    by (auto simp: default_rules_def same_region_rule_def same_dependency_rule_def Let_def
        split: option.splits if_splits)
qed

subsection \<open>Floating-point scoring agrees with the documented weights\<close>

text \<open>
  Which of the six default signals a candidate shares with the alert, and the documented weights
  in hundredths. The engine adds binary64 approximations of them.
\<close>

definition same_label :: "string \<Rightarrow> new_alert_context \<Rightarrow> correlation_candidate \<Rightarrow> bool" where
  "same_label k alert c \<longleftrightarrow>
     label (na_labels alert) k \<noteq> None \<and> label (na_labels alert) k = label (cc_labels c) k"

definition related_types ::
  "string list dict \<Rightarrow> new_alert_context \<Rightarrow> correlation_candidate \<Rightarrow> bool" where
  "related_types rel alert c \<longleftrightarrow>
     (case (label (na_labels alert) ''alertname'', label (cc_labels c) ''alertname'') of
        (Some m, Some n) \<Rightarrow> (case dget rel m of Some ns \<Rightarrow> n \<in> set ns | None \<Rightarrow> False)
      | _ \<Rightarrow> False)"

definition within_window :: "int \<Rightarrow> new_alert_context \<Rightarrow> correlation_candidate \<Rightarrow> bool" where
  "within_window w alert c \<longleftrightarrow> \<bar>total_seconds (na_received_at alert - cc_received_at c)\<bar> \<le> of_int w"

definition points :: "bool \<Rightarrow> bool \<Rightarrow> bool \<Rightarrow> bool \<Rightarrow> bool \<Rightarrow> bool \<Rightarrow> bool \<Rightarrow> int" where
  "points service environment region dependency window same_type related =
     (if service then 30 else 0) + (if environment then 20 else 0) + (if region then 10 else 0) +
     (if dependency then 10 else 0) + (if window then 20 else 0) +
     (if same_type then 20 else if related then 17 else 0)"

definition float_points :: "bool \<Rightarrow> bool \<Rightarrow> bool \<Rightarrow> bool \<Rightarrow> bool \<Rightarrow> bool \<Rightarrow> bool \<Rightarrow> float64" where
  "float_points service environment region dependency window same_type related =
     foldl fadd 0
       [if service then rnd (3 / 10) else 0, if environment then rnd (2 / 10) else 0,
        if region then rnd (1 / 10) else 0, if dependency then rnd (1 / 10) else 0,
        if window then rnd (2 / 10) else 0,
        if same_type then rnd (2 / 10)
        else if related then fmul (rnd (2 / 10)) (rnd (85 / 100)) else 0, 0]"

lemma rule_contributions:
  "contribution (evaluate_rule (SameServiceRule w) alert c) =
     (if na_service alert = cc_service c then w else 0)"
  "contribution (evaluate_rule (SameEnvironmentRule w) alert c) =
     (if na_environment alert = cc_environment c then w else 0)"
  "contribution (evaluate_rule (SameLabelValueRule k w nm) alert c) =
     (if same_label k alert c then w else 0)"
  "contribution (evaluate_rule (TemporalProximityRule w win) alert c) =
     (if within_window win alert c then w else 0)"
  "contribution (evaluate_rule (RelatedAlertTypeRule w f rel) alert c) =
     (if same_label ''alertname'' alert c then w
      else if related_types rel alert c then fmul w f else 0)"
  "contribution (evaluate_rule (DeploymentProximityRule w) alert c) = 0"
  by (auto simp: same_label_def within_window_def related_types_def Let_def split: option.splits)

lemma candidate_score_default:
  "candidate_score (default_rules w rel) alert c =
     min (float_points (na_service alert = cc_service c) (na_environment alert = cc_environment c)
            (same_label ''region'' alert c) (same_label ''dependency'' alert c)
            (within_window w alert c) (same_label ''alertname'' alert c) (related_types rel alert c)) 1"
  by (simp only: candidate_score_def score_candidate_def Let_def default_rules_def fst_conv
      same_region_rule_def same_dependency_rule_def float_points_def list.map foldl_Cons foldl_Nil
      rule_contributions)

lemma default_weights:
  "rnd (3 / 10) = 5404319552844595 / 18014398509481984"
  "rnd (2 / 10) = 3602879701896397 / 18014398509481984"
  "rnd (1 / 10) = 3602879701896397 / 36028797018963968"
  "fmul (3602879701896397 / 18014398509481984) (rnd (85 / 100)) = 6124895493223875 / 36028797018963968"
  "rnd (6 / 10) = 5404319552844595 / 9007199254740992"
  by (simp_all add: rnd_numeral Let_def fmul_def)

lemma float_points_table:
  "DEFAULT_THRESHOLD \<le> min (float_points s e r d t a b) 1 \<longleftrightarrow> 60 \<le> points s e r d t a b"
  unfolding DEFAULT_THRESHOLD_def float_points_def points_def default_weights
  by (cases s; cases e; cases r; cases d; cases t; cases a; cases b;
      simp add: fadd_def rnd_numeral Let_def)
lemma default_score_exact:
  "DEFAULT_THRESHOLD \<le> candidate_score (default_rules w rel) alert c \<longleftrightarrow>
     60 \<le> points (na_service alert = cc_service c) (na_environment alert = cc_environment c)
            (same_label ''region'' alert c) (same_label ''dependency'' alert c)
            (within_window w alert c) (same_label ''alertname'' alert c) (related_types rel alert c)"
  unfolding candidate_score_default using float_points_table by blast

subsection \<open>Properties of the engine\<close>

text \<open>
  For all 96 combinations of signals the rounding of the binary64 sums never changes a decision: the engine correlates
  exactly when some candidate has 60 points.
\<close>

lemma default_engine_points:
  "cd_decision (decide (default_correlation_engine DEFAULT_THRESHOLD w k rel) alert cs) = CORRELATE \<longleftrightarrow>
     (\<exists>c \<in> set cs. 60 \<le> points (na_service alert = cc_service c) (na_environment alert = cc_environment c)
            (same_label ''region'' alert c) (same_label ''dependency'' alert c)
            (within_window w alert c) (same_label ''alertname'' alert c) (related_types rel alert c))"
  (is "?correlates \<longleftrightarrow> (\<exists>c \<in> set cs. 60 \<le> ?points c)")
proof (cases rule: decide_cases [where candidates = cs and alert = alert
      and engine = "default_correlation_engine DEFAULT_THRESHOLD w k rel"])
  case new_empty
  then show ?thesis by simp
next
  case (best c xs ys)
  note score = default_score_exact [of w rel alert]
  have "\<forall>x \<in> set cs. 60 \<le> ?points x \<longrightarrow> 60 \<le> ?points c"
    using best(1,4,5) score by (auto simp: default_correlation_engine_def)
      (meson less_imp_le order_trans)+
  then show ?thesis using best(1,6) score [of c] by (auto simp: default_correlation_engine_def)
qed

text \<open>
  The points as the rules document them. The temporal rule is documented with a linear decay between the window and
  twice the window, which its code does not have; \<open>in_grace_band\<close> marks the candidates this concerns.
\<close>

definition time_apart :: "new_alert_context \<Rightarrow> correlation_candidate \<Rightarrow> rat" where
  "time_apart alert c = \<bar>total_seconds (na_received_at alert - cc_received_at c)\<bar>"

definition in_grace_band :: "int \<Rightarrow> new_alert_context \<Rightarrow> correlation_candidate \<Rightarrow> bool" where
  "in_grace_band w alert c \<longleftrightarrow> of_int w < time_apart alert c \<and> time_apart alert c < 2 * of_int w"

definition documented_time_points :: "int \<Rightarrow> new_alert_context \<Rightarrow> correlation_candidate \<Rightarrow> rat" where
  "documented_time_points w alert c =
     (if time_apart alert c \<le> of_int w then 20
      else if time_apart alert c \<le> 2 * of_int w then 20 * (2 * of_int w - time_apart alert c) / of_int w
      else 0)"

definition documented_points ::
  "int \<Rightarrow> string list dict \<Rightarrow> new_alert_context \<Rightarrow> correlation_candidate \<Rightarrow> rat" where
  "documented_points w rel alert c =
     of_int (points (na_service alert = cc_service c) (na_environment alert = cc_environment c)
       (same_label ''region'' alert c) (same_label ''dependency'' alert c) False
       (same_label ''alertname'' alert c) (related_types rel alert c)) + documented_time_points w alert c"

lemma documented_points_exact:
  assumes "\<not> in_grace_band w alert c"
  shows "documented_points w rel alert c =
     of_int (points (na_service alert = cc_service c) (na_environment alert = cc_environment c)
       (same_label ''region'' alert c) (same_label ''dependency'' alert c) (within_window w alert c)
       (same_label ''alertname'' alert c) (related_types rel alert c))"
  using assms
  by (auto simp: documented_points_def documented_time_points_def in_grace_band_def within_window_def points_def
      time_apart_def)

text \<open>
  C29. With the default rules and threshold the engine correlates an alert exactly when some candidate reaches 60 of
  the documented points (service 30, environment 20, region 10, dependency 10, time 20 within the window and 0 beyond
  twice the window, alert type 20 or 17 when only related), provided no candidate lies between the window and twice
  the window: the rounding of the binary64 sums never changes a decision.
\<close>

theorem default_engine_exact:
  assumes "\<And>c. c \<in> set cs \<Longrightarrow> \<not> in_grace_band w alert c"
  shows "cd_decision (decide (default_correlation_engine DEFAULT_THRESHOLD w k rel) alert cs) = CORRELATE \<longleftrightarrow>
     (\<exists>c \<in> set cs. 60 \<le> documented_points w rel alert c)"
  unfolding default_engine_points using assms by (auto simp: documented_points_exact)

text \<open>An alert and a candidate of the same service and environment, a number of microseconds apart.\<close>

definition sample_new_alert :: "int \<Rightarrow> new_alert_context" where
  "sample_new_alert n = \<lparr>na_source = ''ALERTMANAGER'', na_fingerprint = ''g'', na_labels = [], na_service = ''api'',
     na_environment = ''prod'', na_received_at = n\<rparr>"

definition sample_candidate :: correlation_candidate where
  "sample_candidate = \<lparr>cc_incident_id = 4, cc_correlation_key = ''k'', cc_status = TRIAGING, cc_service = ''api'',
     cc_environment = ''prod'', cc_received_at = 0, cc_labels = [], cc_fingerprint = ''f''\<rparr>"

lemma sample_apart:
  "time_apart (sample_new_alert 1000000) sample_candidate = 1" "time_apart (sample_new_alert 1250000) sample_candidate = 5 / 4"
  by (simp_all add: time_apart_def sample_new_alert_def sample_candidate_def total_seconds_def rnd_numeral
      Let_def)

lemma sample_labels:
  "\<not> same_label l (sample_new_alert n) sample_candidate" "\<not> related_types rel (sample_new_alert n) sample_candidate"
  by (simp_all add: same_label_def related_types_def label_def dget_def sample_new_alert_def sample_candidate_def)

theorem default_engine_exact_witness:
  "cd_decision (decide (default_correlation_engine DEFAULT_THRESHOLD 90 None []) (sample_new_alert 1000000) [sample_candidate]) =
     CORRELATE \<and> 60 \<le> documented_points 90 [] (sample_new_alert 1000000) sample_candidate"
proof -
  have pts: "60 \<le> documented_points 90 [] (sample_new_alert 1000000) sample_candidate"
    by (simp add: documented_points_def documented_time_points_def sample_apart sample_labels points_def)
      (simp add: sample_new_alert_def sample_candidate_def)
  have "\<not> in_grace_band 90 (sample_new_alert 1000000) c" if "c \<in> set [sample_candidate]" for c
    using that by (simp add: in_grace_band_def sample_apart)
  from default_engine_exact [OF this, of "[sample_candidate]" None "[]"] pts show ?thesis by simp
qed

text \<open>Within the band the code and its documentation part: 65 documented points, and yet a new incident.\<close>

lemma grace_band_not_implemented:
  "60 \<le> documented_points 1 [] (sample_new_alert 1250000) sample_candidate \<and>
   cd_decision (decide (default_correlation_engine DEFAULT_THRESHOLD 1 None []) (sample_new_alert 1250000) [sample_candidate]) =
     NEW_INCIDENT"
proof -
  have "\<not> within_window 1 (sample_new_alert 1250000) sample_candidate"
    using sample_apart(2) by (simp add: within_window_def time_apart_def)
  then have "cd_decision (decide (default_correlation_engine DEFAULT_THRESHOLD 1 None []) (sample_new_alert 1250000)
      [sample_candidate]) \<noteq> CORRELATE"
    unfolding default_engine_points by (simp add: sample_labels points_def)
  moreover have "60 \<le> documented_points 1 [] (sample_new_alert 1250000) sample_candidate"
    by (simp add: documented_points_def documented_time_points_def sample_apart sample_labels points_def)
      (simp add: sample_new_alert_def sample_candidate_def)
  ultimately show ?thesis using decision.exhaust by blast
qed

text \<open>
  A match is always the first candidate with the highest score, that score reaches the
  threshold, and the decision carries that candidate's correlation key and signals.
\<close>

theorem decide_first_best:
  assumes "cd_matched_incident_id (decide engine alert cs) = Some i"
  shows "\<exists>xs c ys. cs = xs @ c # ys \<and> cc_incident_id c = i \<and>
    cd_decision (decide engine alert cs) = CORRELATE \<and>
    cd_score (decide engine alert cs) = candidate_score (ce_rules engine) alert c \<and>
    cd_matched_signals (decide engine alert cs) = snd (score_candidate (ce_rules engine) alert c) \<and>
    ce_threshold engine \<le> candidate_score (ce_rules engine) alert c \<and>
    (\<forall>x \<in> set xs. candidate_score (ce_rules engine) alert x < candidate_score (ce_rules engine) alert c) \<and>
    (\<forall>y \<in> set ys. candidate_score (ce_rules engine) alert y \<le> candidate_score (ce_rules engine) alert c)"
proof (cases rule: decide_cases [where candidates = cs and alert = alert and engine = engine])
  case new_empty
  with assms show ?thesis by simp
next
  case (best c xs ys)
  with assms show ?thesis
    by (intro exI [of _ xs] exI [of _ c] exI [of _ ys]) (simp split: if_splits)
qed

theorem decide_first_best_witness:
  "\<exists>xs c ys. [\<lparr>cc_incident_id = 4, cc_correlation_key = ''k'', cc_status = TRIAGING,
       cc_service = ''api'', cc_environment = ''prod'', cc_received_at = 0, cc_labels = [],
       cc_fingerprint = ''f''\<rparr>] = xs @ c # ys \<and> cc_incident_id c = 4"
  using decide_first_best [of
      "\<lparr>ce_rules = [SameServiceRule 1], ce_threshold = 1 / 2, ce_new_incident_correlation_key = None\<rparr>"
      "\<lparr>na_source = ''ALERTMANAGER'', na_fingerprint = ''g'', na_labels = [], na_service = ''api'',
        na_environment = ''prod'', na_received_at = 5\<rparr>"
      "[\<lparr>cc_incident_id = 4, cc_correlation_key = ''k'', cc_status = TRIAGING,
         cc_service = ''api'', cc_environment = ''prod'', cc_received_at = 0, cc_labels = [],
         cc_fingerprint = ''f''\<rparr>]" 4]
  by (auto simp: decide_def best_step_def score_candidate_def fadd_def rnd_numeral)

text \<open>
  Every correlation by the default rules is explained: with a positive threshold the
  decision lists at least one matched signal, and its score lies between 0 and 1.
\<close>

theorem correlation_explained:
  assumes "0 < t" and "cd_decision (decide (default_correlation_engine t w k rel) alert cs) = CORRELATE"
  shows "cd_matched_signals (decide (default_correlation_engine t w k rel) alert cs) \<noteq> [] \<and>
    0 \<le> cd_score (decide (default_correlation_engine t w k rel) alert cs) \<and>
    cd_score (decide (default_correlation_engine t w k rel) alert cs) \<le> 1"
  using assms dr.correlate_is_explained [of "default_correlation_engine t w k rel" w rel alert cs]
    dr.decide_score_range [of "default_correlation_engine t w k rel" w rel alert cs]
  by (simp add: default_correlation_engine_def)

theorem correlation_explained_witness:
  "cd_matched_signals (decide (default_correlation_engine (1 / 2) 1 None [])
     \<lparr>na_source = ''ALERTMANAGER'', na_fingerprint = ''g'', na_labels = [], na_service = ''api'',
      na_environment = ''prod'', na_received_at = 0\<rparr>
     [\<lparr>cc_incident_id = 4, cc_correlation_key = ''k'', cc_status = TRIAGING,
       cc_service = ''api'', cc_environment = ''prod'', cc_received_at = 0, cc_labels = [],
       cc_fingerprint = ''f''\<rparr>]) \<noteq> []"
  (is "cd_matched_signals (decide ?engine ?alert [?c]) \<noteq> []")
proof -
  have "float_points True True False False True False False = 6305039478318694 / 9007199254740992"
    unfolding float_points_def default_weights by (simp add: fadd_def rnd_numeral Let_def)
  then have "candidate_score (default_rules 1 []) ?alert ?c = 6305039478318694 / 9007199254740992"
    by (simp add: candidate_score_default same_label_def within_window_def related_types_def label_def
        dget_def total_seconds_def)
  then have "cd_decision (decide ?engine ?alert [?c]) = CORRELATE"
    by (simp add: decide_def best_step_simp default_correlation_engine_def)
  then show ?thesis using correlation_explained [of "1 / 2" 1 None "[]" ?alert "[?c]"] by simp
qed

end
