(* ===== verification/Py_Time.thy ===== *)
theory Py_Time
  imports Py_Base
begin

text \<open>
  The text forms of dates and durations the sources produce: \<^verbatim>\<open>datetime.isoformat()\<close> of an aware UTC
  datetime and \<^verbatim>\<open>str(timedelta)\<close>. A date is computed from the number of days since 1970-01-01 in the
  proleptic Gregorian calendar, counting eras of 400 years from 1 March of year 0.
\<close>

definition civil_from_days :: "int \<Rightarrow> int \<times> int \<times> int" where
  "civil_from_days z0 =
     (let z = z0 + 719468;
          era = z div 146097;
          doe = z - era * 146097;
          yoe = (doe - doe div 1460 + doe div 36524 - doe div 146096) div 365;
          doy = doe - (365 * yoe + yoe div 4 - yoe div 100);
          mp = (5 * doy + 2) div 153;
          d = doy - (153 * mp + 2) div 5 + 1;
          m = (if mp < 10 then mp + 3 else mp - 9);
          y = yoe + era * 400 + (if m \<le> 2 then 1 else 0)
      in (y, m, d))"

definition pad :: "nat \<Rightarrow> int \<Rightarrow> string" where
  "pad n i = (let t = str_int i in replicate (n - length t) (CHR ''0'') @ t)"

definition isoformat :: "datetime \<Rightarrow> string" where
  "isoformat t =
     (let days = t div 86400000000; us = t mod 86400000000;
          secs = us div 1000000; frac = us mod 1000000
      in case civil_from_days days of (y, m, d) \<Rightarrow>
           pad 4 y @ ''-'' @ pad 2 m @ ''-'' @ pad 2 d @ ''T''
           @ pad 2 (secs div 3600) @ '':'' @ pad 2 (secs div 60 mod 60) @ '':'' @ pad 2 (secs mod 60)
           @ (if frac = 0 then [] else ''.'' @ pad 6 frac) @ ''+00:00'')"

definition str_timedelta :: "timedelta \<Rightarrow> string" where
  "str_timedelta t =
     (let days = t div 86400000000; us = t mod 86400000000;
          secs = us div 1000000; frac = us mod 1000000
      in (if days = 0 then []
          else str_int days @ (if \<bar>days\<bar> = 1 then '' day, '' else '' days, ''))
         @ str_int (secs div 3600) @ '':'' @ pad 2 (secs div 60 mod 60) @ '':'' @ pad 2 (secs mod 60)
         @ (if frac = 0 then [] else ''.'' @ pad 6 frac))"

text \<open>The calendar agrees with known dates, leap days included.\<close>

lemma civil_from_days_known:
  "civil_from_days 0 = (1970, 1, 1)" "civil_from_days 11016 = (2000, 2, 29)"
  "civil_from_days 19782 = (2024, 2, 29)" "civil_from_days (-1) = (1969, 12, 31)"
  "civil_from_days 47540 = (2100, 2, 28)" "civil_from_days 47541 = (2100, 3, 1)"
  by code_simp+

end
