(* ===== verification/Investigation_Domain.thy ===== *)
theory Investigation_Domain
  imports Domain Py_Time "HOL-Library.Multiset"
begin

text \<open>
  \<^verbatim>\<open>packages/domain/investigation.py\<close>: the life cycle of investigations and hypotheses, what the model may
  submit, how one model turn is read, and the deterministic rules that decide which hypothesis updates and
  which conclusions are accepted.

  Pydantic's \<^verbatim>\<open>model_validate\<close> on the three argument schemas is a parameter (\<open>turn_validators\<close>). The field
  constraints of the schemas are not repeated here: a value of one of the records below is one that was
  validated. A Python set of identifiers is a list, compared by membership; its size is that of the list
  without duplicates.
\<close>

subsection \<open>Life cycle\<close>

datatype investigation_status =
    Inv_CREATED | Inv_INVESTIGATING | Inv_COMPLETED | Inv_FAILED | Inv_ESCALATED

fun investigation_status_value :: "investigation_status \<Rightarrow> string" where
  "investigation_status_value Inv_CREATED = ''CREATED''"
| "investigation_status_value Inv_INVESTIGATING = ''INVESTIGATING''"
| "investigation_status_value Inv_COMPLETED = ''COMPLETED''"
| "investigation_status_value Inv_FAILED = ''FAILED''"
| "investigation_status_value Inv_ESCALATED = ''ESCALATED''"

definition TERMINAL_INVESTIGATION_STATUSES :: "investigation_status list" where
  "TERMINAL_INVESTIGATION_STATUSES = [Inv_COMPLETED, Inv_FAILED, Inv_ESCALATED]"

datatype hypothesis_status = H_ACTIVE | H_SUPPORTED | H_WEAKENED | H_REJECTED | H_SELECTED

fun hypothesis_status_value :: "hypothesis_status \<Rightarrow> string" where
  "hypothesis_status_value H_ACTIVE = ''ACTIVE''"
| "hypothesis_status_value H_SUPPORTED = ''SUPPORTED''"
| "hypothesis_status_value H_WEAKENED = ''WEAKENED''"
| "hypothesis_status_value H_REJECTED = ''REJECTED''"
| "hypothesis_status_value H_SELECTED = ''SELECTED''"

text \<open>The statuses a model may set, \<^verbatim>\<open>Literal["ACTIVE", "SUPPORTED", "WEAKENED", "REJECTED"]\<close>.\<close>

datatype settable_status = Set_ACTIVE | Set_SUPPORTED | Set_WEAKENED | Set_REJECTED

fun settable :: "settable_status \<Rightarrow> hypothesis_status" where
  "settable Set_ACTIVE = H_ACTIVE"
| "settable Set_SUPPORTED = H_SUPPORTED"
| "settable Set_WEAKENED = H_WEAKENED"
| "settable Set_REJECTED = H_REJECTED"

datatype step_kind =
    CONTEXT | MODEL_TURN | TOOL_CALL | HYPOTHESIS_UPDATE | CONCLUSION_REJECTED | INVALID_CALL
  | FEEDBACK | MODEL_ERROR | OUTCOME

fun step_kind_value :: "step_kind \<Rightarrow> string" where
  "step_kind_value CONTEXT = ''context''"
| "step_kind_value MODEL_TURN = ''model_turn''"
| "step_kind_value TOOL_CALL = ''tool_call''"
| "step_kind_value HYPOTHESIS_UPDATE = ''hypothesis_update''"
| "step_kind_value CONCLUSION_REJECTED = ''conclusion_rejected''"
| "step_kind_value INVALID_CALL = ''invalid_call''"
| "step_kind_value FEEDBACK = ''feedback''"
| "step_kind_value MODEL_ERROR = ''model_error''"
| "step_kind_value OUTCOME = ''outcome''"

definition ACTION_STEP_KINDS :: "step_kind list" where
  "ACTION_STEP_KINDS = [TOOL_CALL, HYPOTHESIS_UPDATE, CONCLUSION_REJECTED, INVALID_CALL]"

subsection \<open>Budgets and stopping criteria\<close>

record investigation_budget =
  bg_max_iterations :: int
  bg_max_tool_calls :: int
  bg_max_identical_tool_calls :: int
  bg_max_evidence_items :: int
  bg_max_wall_clock_seconds :: int
  bg_max_total_tokens :: "int option"
  bg_max_consecutive_invalid_turns :: int
  bg_max_consecutive_tool_failures :: int

definition default_budget :: investigation_budget where
  "default_budget =
     \<lparr>bg_max_iterations = 15, bg_max_tool_calls = 25, bg_max_identical_tool_calls = 2,
      bg_max_evidence_items = 40, bg_max_wall_clock_seconds = 900, bg_max_total_tokens = Some 600000,
      bg_max_consecutive_invalid_turns = 3, bg_max_consecutive_tool_failures = 5\<rparr>"

record stopping_criteria =
  sc_min_hypotheses_considered :: int
  sc_min_supporting_evidence :: int
  sc_min_supporting_evidence_types :: int
  sc_min_confidence :: float64

definition default_criteria :: stopping_criteria where
  "default_criteria =
     \<lparr>sc_min_hypotheses_considered = 2, sc_min_supporting_evidence = 2,
      sc_min_supporting_evidence_types = 2, sc_min_confidence = rnd (6 / 10)\<rparr>"

subsection \<open>What the model submits\<close>

record hypothesis_update =
  hu_key :: string
  hu_description :: "string option"
  hu_cause_category :: "string option"
  hu_component :: "string option"
  hu_status :: "settable_status option"
  hu_confidence :: "float64 option"
  hu_supporting_evidence_ids :: "uuid list"
  hu_contradicting_evidence_ids :: "uuid list"
  hu_missing_evidence :: "string list option"
  hu_rationale :: string

type_synonym hypothesis_update_batch = "hypothesis_update list"

record grounded_statement =
  gs_text :: string
  gs_evidence_ids :: "uuid list"

record affected_service =
  as_service :: string
  as_evidence_ids :: "uuid list"

record timeline_entry =
  te_at :: datetime
  te_event :: string
  te_evidence_ids :: "uuid list"

record contradiction_note =
  cn_evidence_id :: uuid
  cn_explanation :: string

record rca_draft =
  rd_incident_summary :: grounded_statement
  rd_impact :: grounded_statement
  rd_affected_services :: "affected_service list"
  rd_timeline :: "timeline_entry list"
  rd_root_cause :: grounded_statement
  rd_contributing_factors :: "grounded_statement list"
  rd_contradicting_evidence :: "contradiction_note list"
  rd_unresolved_questions :: "string list"
  rd_recommended_next_diagnostic_action :: "string option"

definition rca_evidence_ids :: "rca_draft \<Rightarrow> uuid list" where
  "rca_evidence_ids rca =
     concat (map gs_evidence_ids [rd_incident_summary rca, rd_impact rca, rd_root_cause rca])
     @ concat (map as_evidence_ids (rd_affected_services rca))
     @ concat (map te_evidence_ids (rd_timeline rca))
     @ concat (map gs_evidence_ids (rd_contributing_factors rca))
     @ map cn_evidence_id (rd_contradicting_evidence rca)"

record final_investigation_result =
  fr_selected_hypothesis_key :: string
  fr_confidence :: float64
  fr_rca :: rca_draft

record inconclusive_declaration =
  id_reason :: string
  id_evidence_gaps :: "string list"
  id_leading_hypothesis_key :: "string option"

subsection \<open>Reading a model turn\<close>

definition UPDATE_HYPOTHESES :: string where "UPDATE_HYPOTHESES = ''update_hypotheses''"
definition CONCLUDE :: string where "CONCLUDE = ''conclude_investigation''"
definition DECLARE_INCONCLUSIVE :: string where "DECLARE_INCONCLUSIVE = ''declare_inconclusive''"

record model_action =
  ma_call_id :: string
  ma_name :: string
  ma_arguments :: "json dict"

record investigation_decision =
  de_rationale :: string
  de_hypothesis_updates :: "(string \<times> hypothesis_update_batch) list"
  de_tool_requests :: "(string \<times> string \<times> json dict) list"
  de_conclusion :: "(string \<times> final_investigation_result) option"
  de_inconclusive :: "(string \<times> inconclusive_declaration) option"
  de_invalid_calls :: "(string \<times> string \<times> string) list"

definition has_actions :: "investigation_decision \<Rightarrow> bool" where
  "has_actions d \<longleftrightarrow> de_hypothesis_updates d \<noteq> [] \<or> de_tool_requests d \<noteq> [] \<or> de_conclusion d \<noteq> None \<or>
     de_inconclusive d \<noteq> None \<or> de_invalid_calls d \<noteq> []"

text \<open>One entry of \<^verbatim>\<open>ValidationError.errors()\<close>: the location, as text, and the message.\<close>

type_synonym validation_errors = "(string list \<times> string) list"

record turn_validators =
  tv_batch :: "json dict \<Rightarrow> validation_errors + hypothesis_update_batch"
  tv_result :: "json dict \<Rightarrow> validation_errors + final_investigation_result"
  tv_declaration :: "json dict \<Rightarrow> validation_errors + inconclusive_declaration"

definition error_text :: "validation_errors \<Rightarrow> string" where
  "error_text errs = take 1500 (join ''; '' (map (\<lambda>(loc, msg).
     (let l = join ''.'' loc in if l = [] then ''(root)'' else l) @ '': '' @ msg) errs))"

definition empty_decision :: investigation_decision where
  "empty_decision = \<lparr>de_rationale = [], de_hypothesis_updates = [], de_tool_requests = [],
     de_conclusion = None, de_inconclusive = None, de_invalid_calls = []\<rparr>"

text \<open>The body of the loop: one action either extends the decision or becomes an invalid call.\<close>

definition invalid_call :: "model_action \<Rightarrow> string \<Rightarrow> investigation_decision \<Rightarrow> investigation_decision" where
  "invalid_call a msg d =
     d\<lparr>de_invalid_calls := de_invalid_calls d @ [(ma_call_id a, ma_name a, msg)]\<rparr>"

definition has_terminal :: "investigation_decision \<Rightarrow> bool" where
  "has_terminal d \<longleftrightarrow> de_conclusion d \<noteq> None \<or> de_inconclusive d \<noteq> None"

definition interpret_action ::
  "turn_validators \<Rightarrow> string list \<Rightarrow> model_action \<Rightarrow> investigation_decision \<Rightarrow> investigation_decision" where
  "interpret_action tv evidence_tool_names a d =
     (if ma_name a = UPDATE_HYPOTHESES then
        (case tv_batch tv (ma_arguments a) of
           Inl errs \<Rightarrow> invalid_call a (error_text errs) d
         | Inr batch \<Rightarrow> d\<lparr>de_hypothesis_updates := de_hypothesis_updates d @ [(ma_call_id a, batch)]\<rparr>)
      else if ma_name a = CONCLUDE then
        (case tv_result tv (ma_arguments a) of
           Inl errs \<Rightarrow> invalid_call a (error_text errs) d
         | Inr result \<Rightarrow>
             if has_terminal d then invalid_call a ''only one terminal call per turn'' d
             else d\<lparr>de_conclusion := Some (ma_call_id a, result)\<rparr>)
      else if ma_name a = DECLARE_INCONCLUSIVE then
        (case tv_declaration tv (ma_arguments a) of
           Inl errs \<Rightarrow> invalid_call a (error_text errs) d
         | Inr declaration \<Rightarrow>
             if has_terminal d then invalid_call a ''only one terminal call per turn'' d
             else d\<lparr>de_inconclusive := Some (ma_call_id a, declaration)\<rparr>)
      else if ma_name a \<in> set evidence_tool_names then
        d\<lparr>de_tool_requests := de_tool_requests d @ [(ma_call_id a, ma_name a, ma_arguments a)]\<rparr>
      else invalid_call a (''unknown tool '' @ repr_str (ma_name a)) d)"

definition interpret_turn ::
  "turn_validators \<Rightarrow> string \<Rightarrow> model_action list \<Rightarrow> string list \<Rightarrow> investigation_decision" where
  "interpret_turn tv txt actions evidence_tool_names =
     (fold (interpret_action tv evidence_tool_names) actions empty_decision)\<lparr>de_rationale := take 4000 txt\<rparr>"

subsection \<open>Hypothesis rules\<close>

record hypothesis_snapshot =
  hs_key :: string
  hs_description :: string
  hs_status :: hypothesis_status
  hs_confidence :: "float64 option"
  hs_supporting :: "uuid list"
  hs_contradicting :: "uuid list"
  hs_missing_evidence :: "string list"
  hs_cause_category :: "string option"
  hs_component :: "string option"

definition snapshot_json :: "hypothesis_snapshot \<Rightarrow> json" where
  "snapshot_json h = JObj
     [(''key'', JStr (hs_key h)), (''description'', JStr (hs_description h)),
      (''cause_category'', jopt JStr (hs_cause_category h)), (''component'', jopt JStr (hs_component h)),
      (''status'', JStr (hypothesis_status_value (hs_status h))),
      (''confidence'', jopt JFloat (hs_confidence h)),
      (''supporting_evidence_ids'', JList (map (\<lambda>e. JStr (uuid_str e)) (hs_supporting h))),
      (''contradicting_evidence_ids'', JList (map (\<lambda>e. JStr (uuid_str e)) (hs_contradicting h))),
      (''missing_evidence'', JList (map JStr (hs_missing_evidence h)))]"

text \<open>\<^verbatim>\<open>sorted(str(e) for e in cited - accessible)\<close>.\<close>

definition ungrounded_ids :: "uuid list \<Rightarrow> uuid list \<Rightarrow> string list" where
  "ungrounded_ids cited accessible =
     sort (map uuid_str (filter (\<lambda>e. e \<notin> set accessible) (remdups cited)))"

definition fixed_field :: "string \<Rightarrow> string option \<Rightarrow> string option \<Rightarrow> string list" where
  "fixed_field name given fixed =
     (if given \<noteq> None \<and> fixed \<noteq> None \<and> given \<noteq> fixed
      then [name @ '' is fixed once set (it is '' @ repr_str (the fixed) @ '')''] else [])"

definition check_hypothesis_update ::
  "hypothesis_update \<Rightarrow> hypothesis_snapshot option \<Rightarrow> uuid list \<Rightarrow> string list" where
  "check_hypothesis_update u existing accessible =
     (let sup = hu_supporting_evidence_ids u; con = hu_contradicting_evidence_ids u;
          unknown = ungrounded_ids (sup @ con) accessible
      in (if unknown \<noteq> []
          then [''evidence ids not returned to this investigation by any tool: '' @ join '', '' unknown]
          else [])
       @ (if set sup \<inter> set con \<noteq> {}
          then [''the same evidence cannot both support and contradict a hypothesis''] else [])
       @ (case existing of
            None \<Rightarrow>
              (if hu_description u = None \<or> hu_description u = Some []
               then [''description is required when creating a hypothesis''] else [])
              @ (if hu_cause_category u = None \<or> hu_component u = None
                 then [''cause_category and component are required when creating a hypothesis''] else [])
          | Some h \<Rightarrow>
              fixed_field ''cause_category'' (hu_cause_category u) (hs_cause_category h)
              @ fixed_field ''component'' (hu_component u) (hs_component h)
              @ (if hs_status h \<in> {H_REJECTED, H_SELECTED}
                 then [''hypothesis '' @ hu_key u @ '' is '' @ hypothesis_status_value (hs_status h)
                       @ '' and cannot change''] else []))
       @ (if hu_status u = Some Set_REJECTED \<and>
             con @ (case existing of Some h \<Rightarrow> hs_contradicting h | None \<Rightarrow> []) = []
          then [''rejecting a hypothesis requires contradicting evidence''] else [])
       @ (if hu_status u = Some Set_SUPPORTED \<and>
             sup @ (case existing of Some h \<Rightarrow> hs_supporting h | None \<Rightarrow> []) = []
          then [''marking a hypothesis SUPPORTED requires supporting evidence''] else []))"

definition card_ids :: "'a list \<Rightarrow> int" where
  "card_ids xs = int (length (remdups xs))"

definition evaluate_conclusion ::
  "final_investigation_result \<Rightarrow> hypothesis_snapshot dict \<Rightarrow> (uuid \<times> string) list \<Rightarrow> stopping_criteria \<Rightarrow>
   string list" where
  "evaluate_conclusion result hypotheses evidence_types criteria =
     (case dget hypotheses (fr_selected_hypothesis_key result) of
        None \<Rightarrow> [''hypothesis '' @ repr_str (fr_selected_hypothesis_key result) @ '' does not exist'']
      | Some selected \<Rightarrow>
          (let supporting = hs_supporting selected; contradicting = hs_contradicting selected;
               types = remdups (List.map_filter (map_of evidence_types) supporting);
               acknowledged = map cn_evidence_id (rd_contradicting_evidence (fr_rca result));
               unaddressed = ungrounded_ids contradicting acknowledged;
               still_open = sort (map hs_key (filter (\<lambda>h. hs_key h \<noteq> hs_key selected \<and>
                 hs_status h \<in> {H_ACTIVE, H_SUPPORTED}) (map snd hypotheses)))
           in (if hs_status selected \<noteq> H_SUPPORTED
               then [''selected hypothesis must be SUPPORTED (it is ''
                     @ hypothesis_status_value (hs_status selected)
                     @ ''); update it with supporting evidence first''] else [])
            @ (if card_ids supporting < sc_min_supporting_evidence criteria
               then [''selected hypothesis needs >= '' @ str_int (sc_min_supporting_evidence criteria)
                     @ '' supporting evidence items (has '' @ str_int (card_ids supporting) @ '')''] else [])
            @ (if int (length types) < sc_min_supporting_evidence_types criteria
               then [''supporting evidence must span >= ''
                     @ str_int (sc_min_supporting_evidence_types criteria)
                     @ '' evidence types (has '' @ repr_json (JList (map JStr (sort types))) @ '')''] else [])
            @ (if contradicting \<noteq> [] \<and> card_ids supporting \<le> card_ids contradicting
               then [''selected hypothesis has at least as much contradicting as supporting evidence'']
               else [])
            @ (if unaddressed \<noteq> []
               then [''contradicting evidence on the selected hypothesis must be explained in ''
                     @ ''rca.contradicting_evidence: '' @ join '', '' unaddressed] else [])
            @ (if set (gs_evidence_ids (rd_root_cause (fr_rca result))) \<inter> set supporting = {}
               then [''rca.root_cause must cite the selected hypothesis'' @ [CHR 0x27]
                     @ ''s supporting evidence''] else [])
            @ (if int (length hypotheses) < sc_min_hypotheses_considered criteria
               then [''consider >= '' @ str_int (sc_min_hypotheses_considered criteria)
                     @ '' competing hypotheses (considered '' @ str_nat (length hypotheses) @ '')''] else [])
            @ (if still_open \<noteq> []
               then [''competing hypotheses must be WEAKENED or REJECTED with evidence first: ''
                     @ join '', '' still_open] else [])
            @ (if fr_confidence result < sc_min_confidence criteria
               then [''confidence '' @ float_repr (fr_confidence result) @ '' is below ''
                     @ float_repr (sc_min_confidence criteria)] else [])))"

subsection \<open>Properties\<close>

lemma ungrounded_ids_Nil [simp]: "ungrounded_ids cited accessible = [] \<longleftrightarrow> set cited \<subseteq> set accessible"
  unfolding ungrounded_ids_def by (metis (no_types, lifting) filter_empty_conv length_0_conv length_sort map_is_Nil_conv
      set_remdups subset_code(1))

lemma card_ids_card: "card_ids xs = int (card (set xs))"
  by (simp add: card_ids_def length_remdups_card_conv)

lemma map_filter_remdups: "int (length (remdups (List.map_filter f xs))) = int (card {t. \<exists>e \<in> set xs. f e = Some t})"
proof -
  have "set (List.map_filter f xs) = {t. \<exists>e \<in> set xs. f e = Some t}"
    by (induction xs) (auto simp: List.map_filter_def split: option.splits)
  then show ?thesis by (simp add: length_remdups_card_conv)
qed

lemma if_single_Nil: "(if P then [x] else []) = [] \<longleftrightarrow> \<not> P"
  by simp

lemma fixed_field_Nil: "fixed_field name given fixed = [] \<longleftrightarrow> given = None \<or> fixed = None \<or> given = fixed"
  by (auto simp: fixed_field_def)

lemma settled_iff: "st \<in> {H_ACTIVE, H_SUPPORTED} \<longleftrightarrow> st \<notin> {H_WEAKENED, H_REJECTED, H_SELECTED}"
  by (cases st) simp_all

lemma sort_Nil_iff: "sort xs = [] \<longleftrightarrow> xs = []"
  by (metis length_0_conv length_sort)

definition sample_snapshot :: hypothesis_snapshot where
  "sample_snapshot = \<lparr>hs_key = ''H1'', hs_description = ''d'', hs_status = H_SUPPORTED, hs_confidence = None,
     hs_supporting = [30, 31], hs_contradicting = [], hs_missing_evidence = [], hs_cause_category = Some ''database'',
     hs_component = Some ''db''\<rparr>"

definition sample_result :: final_investigation_result where
  "sample_result =
     (let g = \<lparr>gs_text = ''t'', gs_evidence_ids = [30]\<rparr>
      in \<lparr>fr_selected_hypothesis_key = ''H1'', fr_confidence = 1,
          fr_rca = \<lparr>rd_incident_summary = g, rd_impact = g, rd_affected_services = [], rd_timeline = [],
            rd_root_cause = g, rd_contributing_factors = [], rd_contradicting_evidence = [],
            rd_unresolved_questions = [], rd_recommended_next_diagnostic_action = None\<rparr>\<rparr>)"

text \<open>
  The stopping criteria in one formula: a conclusion has no unmet criterion exactly when the selected
  hypothesis exists and is SUPPORTED, has enough supporting evidence of enough types, more supporting than
  contradicting evidence, every contradiction explained in the report, a root cause that cites its support,
  enough hypotheses considered, every competing one weakened or rejected, and enough confidence.
\<close>

theorem evaluate_conclusion_accepts_iff:
  "evaluate_conclusion result hypotheses types criteria = [] \<longleftrightarrow>
   (\<exists>sel. dget hypotheses (fr_selected_hypothesis_key result) = Some sel \<and> hs_status sel = H_SUPPORTED \<and>
      sc_min_supporting_evidence criteria \<le> int (card (set (hs_supporting sel))) \<and>
      sc_min_supporting_evidence_types criteria \<le>
        int (card {t. \<exists>e \<in> set (hs_supporting sel). map_of types e = Some t}) \<and>
      (hs_contradicting sel = [] \<or> card (set (hs_contradicting sel)) < card (set (hs_supporting sel))) \<and>
      set (hs_contradicting sel) \<subseteq> cn_evidence_id ` set (rd_contradicting_evidence (fr_rca result)) \<and>
      set (gs_evidence_ids (rd_root_cause (fr_rca result))) \<inter> set (hs_supporting sel) \<noteq> {} \<and>
      sc_min_hypotheses_considered criteria \<le> int (length hypotheses) \<and>
      (\<forall>h \<in> snd ` set hypotheses. hs_key h = hs_key sel \<or> hs_status h \<in> {H_WEAKENED, H_REJECTED, H_SELECTED}) \<and>
      sc_min_confidence criteria \<le> fr_confidence result)"
proof (cases "dget hypotheses (fr_selected_hypothesis_key result)")
  case (Some sel)
  have open': "filter (\<lambda>h. hs_key h \<noteq> hs_key sel \<and> hs_status h \<in> {H_ACTIVE, H_SUPPORTED}) (map snd hypotheses) = [] \<longleftrightarrow>
      (\<forall>h \<in> snd ` set hypotheses. hs_key h = hs_key sel \<or> hs_status h \<in> {H_WEAKENED, H_REJECTED, H_SELECTED})"
    unfolding filter_empty_conv set_map by (rule ball_cong [OF refl]) (simp only: settled_iff de_Morgan_conj not_not)
  show ?thesis
    using Some unfolding evaluate_conclusion_def Let_def
    by (simp only: option.case append_is_Nil_conv if_single_Nil sort_Nil_iff map_is_Nil_conv open' ungrounded_ids_Nil
        card_ids_card map_filter_remdups not_less not_le set_map)
      (simp add: conj_commute not_le disj_imp)
qed (simp add: evaluate_conclusion_def)

text \<open>
  Which hypothesis updates are accepted: exactly those that cite only evidence the investigation was
  shown, never the same evidence on both sides, with description, category and component when they create
  the hypothesis, and otherwise without changing a category or component that is set and only while the
  hypothesis is neither rejected nor selected; a rejection needs contradicting evidence and the status
  SUPPORTED supporting evidence, new or already linked.
\<close>

theorem check_hypothesis_update_accepts_iff:
  "check_hypothesis_update u existing accessible = [] \<longleftrightarrow>
   set (hu_supporting_evidence_ids u) \<union> set (hu_contradicting_evidence_ids u) \<subseteq> set accessible \<and>
   set (hu_supporting_evidence_ids u) \<inter> set (hu_contradicting_evidence_ids u) = {} \<and>
   (case existing of
      None \<Rightarrow> hu_description u \<notin> {None, Some []} \<and> hu_cause_category u \<noteq> None \<and> hu_component u \<noteq> None \<and>
        (hu_status u = Some Set_REJECTED \<longrightarrow> hu_contradicting_evidence_ids u \<noteq> []) \<and>
        (hu_status u = Some Set_SUPPORTED \<longrightarrow> hu_supporting_evidence_ids u \<noteq> [])
    | Some h \<Rightarrow> hu_cause_category u \<in> {None, hs_cause_category h} \<union> (if hs_cause_category h = None then UNIV else {}) \<and>
        hu_component u \<in> {None, hs_component h} \<union> (if hs_component h = None then UNIV else {}) \<and>
        hs_status h \<notin> {H_REJECTED, H_SELECTED} \<and>
        (hu_status u = Some Set_REJECTED \<longrightarrow> hu_contradicting_evidence_ids u \<noteq> [] \<or> hs_contradicting h \<noteq> []) \<and>
        (hu_status u = Some Set_SUPPORTED \<longrightarrow> hu_supporting_evidence_ids u \<noteq> [] \<or> hs_supporting h \<noteq> []))"
proof (cases existing)
  case None
  show ?thesis
    unfolding None check_hypothesis_update_def Let_def option.case append_is_Nil_conv if_single_Nil ungrounded_ids_Nil
    by auto
next
  case (Some h)
  show ?thesis
    unfolding Some check_hypothesis_update_def Let_def option.case append_is_Nil_conv if_single_Nil ungrounded_ids_Nil
      fixed_field_Nil
    by auto
qed

theorem check_hypothesis_update_accepts_iff_witness:
  "check_hypothesis_update \<lparr>hu_key = ''H1'', hu_description = None, hu_cause_category = None, hu_component = None,
     hu_status = Some Set_REJECTED, hu_confidence = None, hu_supporting_evidence_ids = [],
     hu_contradicting_evidence_ids = [30], hu_missing_evidence = None, hu_rationale = ''w''\<rparr>
     (Some sample_snapshot) [30] = []"
  unfolding check_hypothesis_update_accepts_iff by (simp add: sample_snapshot_def)

theorem evaluate_conclusion_accepts_iff_witness:
  "evaluate_conclusion sample_result
     [(''H1'', sample_snapshot), (''H2'', sample_snapshot\<lparr>hs_key := ''H2'', hs_status := H_WEAKENED\<rparr>)]
     [(30, ''metric''), (31, ''log'')] (default_criteria\<lparr>sc_min_confidence := 1 / 2\<rparr>) = []"
proof -
  have "{t. \<exists>e \<in> set (hs_supporting sample_snapshot). map_of [(30, ''metric''), (31, ''log'')] e = Some t} =
      {''metric'', ''log''}" by (auto simp: sample_snapshot_def)
  then show ?thesis
    unfolding evaluate_conclusion_accepts_iff
    by (simp add: sample_result_def Let_def dget_def default_criteria_def) (simp add: sample_snapshot_def)
qed

definition decision_call_ids :: "investigation_decision \<Rightarrow> string list" where
  "decision_call_ids d =
     map fst (de_hypothesis_updates d) @ map fst (de_tool_requests d) @
     (case de_conclusion d of Some c \<Rightarrow> [fst c] | None \<Rightarrow> []) @
     (case de_inconclusive d of Some c \<Rightarrow> [fst c] | None \<Rightarrow> []) @ map fst (de_invalid_calls d)"

lemma interpret_action_keeps:
  assumes "de_conclusion d = None \<or> de_inconclusive d = None"
  shows "mset (decision_call_ids (interpret_action tv tools a d)) = add_mset (ma_call_id a) (mset (decision_call_ids d)) \<and>
    (de_conclusion (interpret_action tv tools a d) = None \<or> de_inconclusive (interpret_action tv tools a d) = None)"
  using assms
  by (cases "de_conclusion d"; cases "de_inconclusive d")
    (simp_all add: interpret_action_def decision_call_ids_def invalid_call_def has_terminal_def split: sum.split)

lemma interpret_fold_keeps:
  assumes "de_conclusion d = None \<or> de_inconclusive d = None"
  shows "mset (decision_call_ids (fold (interpret_action tv tools) actions d)) =
      mset (map ma_call_id actions) + mset (decision_call_ids d) \<and>
    (de_conclusion (fold (interpret_action tv tools) actions d) = None \<or>
     de_inconclusive (fold (interpret_action tv tools) actions d) = None)"
  using assms
proof (induction actions arbitrary: d)
  case (Cons a as)
  then show ?case using interpret_action_keeps [OF Cons.prems, of tv tools a] by simp
qed simp

lemma interpret_turn_calls:
  "mset (decision_call_ids (interpret_turn tv txt actions tools)) = mset (map ma_call_id actions) \<and>
   (de_conclusion (interpret_turn tv txt actions tools) = None \<or>
    de_inconclusive (interpret_turn tv txt actions tools) = None)"
  using interpret_fold_keeps [of empty_decision tv tools actions]
  by (simp add: interpret_turn_def decision_call_ids_def empty_decision_def)

text \<open>
  Nothing the model emits is dropped: the calls of the decision of a turn, valid or invalid, carry
  exactly the call ids of the actions, each as often as it occurs, and the turn has at most one terminal
  call, so constructing the decision never fails.
\<close>

theorem interpret_turn_keeps_every_call:
  "mset (decision_call_ids (interpret_turn tv txt actions tools)) = mset (map ma_call_id actions) \<and>
   (de_conclusion (interpret_turn tv txt actions tools) = None \<or>
    de_inconclusive (interpret_turn tv txt actions tools) = None)"
  by (rule interpret_turn_calls)

end
