(* ===== verification/Database.thy ===== *)
theory Database
  imports Policy Correlation_Engine Investigation_Domain
begin

text \<open>
  The \<^verbatim>\<open>incident_core\<close> schema (\<^verbatim>\<open>packages/incident/db/models.py\<close>) and the event payloads
  (\<^verbatim>\<open>packages/domain/events.py\<close>). Every ORM class is a record with a prefix on its columns; a table is
  the list of its rows in insertion order and the database \<open>db\<close> is the record of the tables.

  Columns that store an enum's value hold the enum; a JSONB column whose shape the code fixes (the
  verification specification, the policy rules, the observation's checks, an event payload) holds the
  structured value it was dumped from and is validated back into. A column with \<^verbatim>\<open>autoincrement\<close> is
  numbered from one without gaps. Identifiers from \<^verbatim>\<open>uuid.uuid4()\<close> come from the counter \<open>next_uuid\<close>.
\<close>

record incident_row =
  i_id :: uuid
  i_status :: incident_status
  i_severity :: alert_severity
  i_service :: string
  i_environment :: string
  i_correlation_key :: string
  i_attempt_count :: int
  i_version :: int
  i_created_at :: datetime
  i_updated_at :: datetime
  i_closed_at :: "datetime option"

record alert_row =
  a_id :: uuid
  a_external_id :: "string option"
  a_source :: alert_source
  a_fingerprint :: string
  a_labels :: "string dict"
  a_annotations :: "string dict"
  a_severity :: alert_severity
  a_status :: alert_status
  a_incident_id :: "uuid option"
  a_raw_payload :: "json dict"
  a_received_at :: datetime
  a_resolved_at :: "datetime option"

datatype event_type =
    AlertReceived | IncidentCreated | AlertCorrelated | AlertResolved | IncidentStatusChanged
  | EvidenceRefRegistered | RemediationProposed | RemediationPolicyEvaluated
  | RemediationApprovalRequested | RemediationApproved | RemediationRejected | RemediationStarted
  | RemediationExecuted | RemediationFailed | RemediationCancelled | VerificationRequested
  | KillSwitchChanged | VerificationStarted | VerificationCompleted | IncidentResolved
  | IncidentEscalated | InvestigationStarted | InvestigationCompleted | InvestigationFailed

datatype aggregate_type = Alert | Incident | Remediation | KillSwitch | Verification | Investigation

text \<open>An aggregate is named by its id, or for a kill switch by \<^verbatim>\<open>uuid5(NAMESPACE_URL, name)\<close>.\<close>

datatype aggregate_ref = Agg_id uuid | Agg_name string

datatype event_payload =
    AlertReceivedPayload (ev_alert_id: uuid) (ev_fingerprint: string) (ev_source: alert_source)
      (ev_incident_id: uuid)
  | IncidentCreatedPayload (ev_incident_id: uuid) (ev_correlation_key: string)
      (ev_initial_severity: alert_severity) (ev_service: string) (ev_environment: string)
      (ev_best_candidate_score: float64) (ev_matched_signals: "string list")
  | AlertCorrelatedPayload (ev_alert_id: uuid) (ev_incident_id: uuid) (ev_score: float64)
      (ev_matched_signals: "string list")
  | AlertResolvedPayload (ev_alert_id: uuid) (ev_incident_id: uuid) (ev_firing_remaining: int)
  | IncidentStatusChangedPayload (ev_incident_id: uuid) (ev_from_status: incident_status)
      (ev_to_status: incident_status) (ev_reason: string) (ev_version: int)
  | EvidenceRefRegisteredPayload (ev_evidence_id: uuid) (ev_incident_id: uuid)
      (ev_evidence_type: string) (ev_source_system: string) (ev_content_hash: string)
  | RemediationEventPayload (ev_remediation_id: uuid) (ev_incident_id: uuid) (ev_action_id: string)
      (ev_catalog_version: string) (ev_remediation_status: remediation_status)
      (ev_proposal_hash: string) (ev_actor: string) (ev_policy_version: "string option")
      (ev_policy_decision: "policy_verdict option") (ev_detail: "json dict")
  | VerificationRequestedPayload (ev_verification_id: uuid) (ev_remediation_id: uuid)
      (ev_incident_id: uuid) (ev_action_id: string) (ev_target_service: string)
      (ev_requirements: "verification_spec list")
  | KillSwitchChangedPayload (ev_scope: string) (ev_engaged: bool) (ev_actor: string)
      (ev_switch_reason: "string option")
  | VerificationEventPayload (ev_verification_id: uuid) (ev_incident_id: uuid)
      (ev_remediation_id: uuid) (ev_verification_status: verification_status)
      (ev_verification_policy: string) (ev_claim_attempt: int)
      (ev_result: "verification_status option") (ev_failure: "string option")
      (ev_next_action: "string option")
  | IncidentClosureEventPayload (ev_incident_id: uuid) (ev_incident_status: incident_status)
      (ev_reason: string) (ev_closing_verification: "uuid option") (ev_closing_remediation: "uuid option")
  | InvestigationStartedPayload (ev_investigation_id: uuid) (ev_incident_id: uuid) (ev_attempt_number: int)
      (ev_model_provider: string) (ev_model_name: string)
  | InvestigationCompletedPayload (ev_investigation_id: uuid) (ev_incident_id: uuid)
      (ev_selected_hypothesis_id: uuid) (ev_rca_report_id: uuid)
  | InvestigationFailedPayload (ev_investigation_id: uuid) (ev_incident_id: uuid)
      (ev_outcome: investigation_status) (ev_reason_code: string)

record outbox_event_row =
  o_sequence :: int
  o_event_id :: uuid
  o_event_type :: event_type
  o_schema_version :: int
  o_aggregate_type :: aggregate_type
  o_aggregate_id :: aggregate_ref
  o_correlation_id :: "uuid option"
  o_causation_id :: "uuid option"
  o_producer :: string
  o_payload :: event_payload
  o_occurred_at :: datetime
  o_published_at :: "datetime option"
  o_publish_attempts :: int
  o_last_publish_error :: "string option"

text \<open>\<^verbatim>\<open>packages/domain/results.py\<close>: what a command returns, and what the ledger stores.\<close>

record alert_received_result =
  ar_alert_id :: uuid
  ar_incident_id :: "uuid option"
  ar_incident_created :: bool
  ar_incident_status :: "incident_status option"

record processed_command_row =
  pr_command_type :: string
  pr_idempotency_key :: string
  pr_result :: alert_received_result
  pr_processed_at :: datetime

record consumed_event_row =
  ce_consumer_name :: string
  ce_event_id :: uuid
  ce_processed_at :: datetime

record evidence_ref_row =
  er_id :: uuid
  er_incident_id :: uuid
  er_investigation_id :: "uuid option"
  er_evidence_type :: string
  er_content_hash :: string
  er_source_system :: string
  er_collected_at :: datetime
  er_registered_at :: datetime

record investigation_row =
  n_id :: uuid
  n_incident_id :: uuid
  n_attempt_number :: int
  n_status :: investigation_status
  n_model_provider :: string
  n_model_name :: string
  n_model_config :: "json dict"
  n_budget :: investigation_budget
  n_iteration_count :: int
  n_tool_call_count :: int
  n_evidence_count :: int
  n_input_tokens :: int
  n_output_tokens :: int
  n_cache_read_tokens :: int
  n_cache_creation_tokens :: int
  n_last_action :: "string option"
  n_failure_reason :: "string option"
  n_escalation_reason :: "string option"
  n_inconclusive_reason :: "string option"
  n_selected_hypothesis_id :: "uuid option"
  n_final_result :: "json dict option"
  n_lease_owner :: "string option"
  n_lease_expires_at :: "datetime option"
  n_created_at :: datetime
  n_started_at :: "datetime option"
  n_completed_at :: "datetime option"
  n_updated_at :: datetime

text \<open>The column \<^verbatim>\<open>confidence\<close> is \<^verbatim>\<open>Numeric(3, 2)\<close>: an exact decimal, here the rational it denotes.\<close>

record hypothesis_row =
  h_id :: uuid
  h_investigation_id :: uuid
  h_key :: string
  h_description :: string
  h_status :: hypothesis_status
  h_confidence :: "rat option"
  h_missing_evidence :: "string list"
  h_cause_category :: "string option"
  h_component :: "string option"
  h_created_at :: datetime
  h_updated_at :: datetime

datatype link_relation = Supports | Contradicts

record hypothesis_evidence_link_row =
  hl_hypothesis_id :: uuid
  hl_evidence_id :: uuid
  hl_relation :: link_relation
  hl_linked_at :: datetime

record investigation_step_row =
  sp_id :: uuid
  sp_investigation_id :: uuid
  sp_sequence :: int
  sp_iteration :: int
  sp_kind :: step_kind
  sp_call_id :: "string option"
  sp_payload :: "json dict"
  sp_latency_ms :: "int option"
  sp_created_at :: datetime

record rca_report_row =
  rca_id :: uuid
  rca_incident_id :: uuid
  rca_investigation_id :: uuid
  rca_root_cause_hypothesis_id :: uuid
  rca_report :: "json dict"
  rca_summary :: string
  rca_generated_at :: datetime

record remediation_row =
  r_id :: uuid
  r_incident_id :: uuid
  r_investigation_id :: "uuid option"
  r_idempotency_key :: string
  r_action_id :: string
  r_catalog_version :: string
  r_parameters :: "json dict"
  r_target_service :: string
  r_environment :: string
  r_reason :: string
  r_expected_effect :: string
  r_blast_radius_tier :: "int option"
  r_proposal_hash :: string
  r_source :: string
  r_proposed_by :: string
  r_status :: remediation_status
  r_policy_decision_id :: "uuid option"
  r_approval_status :: "string option"
  r_execution_status :: "execution_status option"
  r_execution_attempts :: int
  r_executor_result :: "json dict option"
  r_failure_reason :: "string option"
  r_verification_ref :: "uuid option"
  r_correlation_id :: uuid
  r_lease_owner :: "string option"
  r_lease_expires_at :: "datetime option"
  r_version :: int
  r_created_at :: datetime
  r_updated_at :: datetime
  r_completed_at :: "datetime option"

record policy_decision_row =
  d_id :: uuid
  d_remediation_id :: uuid
  d_proposal_hash :: string
  d_policy_version :: string
  d_catalog_version :: "string option"
  d_catalog_digest :: string
  d_decision :: policy_verdict
  d_blast_radius_tier :: "int option"
  d_required_approver_roles :: "string list"
  d_rules :: "policy_rule_result list"
  d_reasons :: "string list"
  d_policy_context :: policy_evaluation_context
  d_evaluated_at :: datetime

datatype approval_decision = Approved | Rejected | Timed_out

fun approval_decision_value :: "approval_decision \<Rightarrow> string" where
  "approval_decision_value Approved = ''approved''"
| "approval_decision_value Rejected = ''rejected''"
| "approval_decision_value Timed_out = ''timed_out''"

record approval_row =
  ap_id :: uuid
  ap_remediation_id :: uuid
  ap_policy_decision_id :: uuid
  ap_proposal_hash :: string
  ap_decision :: approval_decision
  ap_approver :: string
  ap_approver_role :: "string option"
  ap_comment :: "string option"
  ap_decided_at :: datetime

record execution_row =
  x_id :: uuid
  x_remediation_id :: uuid
  x_attempt_number :: int
  x_idempotency_key :: string
  x_status :: execution_status
  x_executor :: string
  x_owner :: string
  x_started_at :: datetime
  x_deadline_at :: datetime
  x_completed_at :: "datetime option"
  x_result :: "json dict option"
  x_error :: "string option"

record timeline_row =
  t_id :: int
  t_remediation_id :: uuid
  t_sequence :: int
  t_event :: string
  t_from_status :: "remediation_status option"
  t_to_status :: "remediation_status option"
  t_actor :: string
  t_correlation_id :: uuid
  t_action_id :: string
  t_catalog_version :: string
  t_policy_version :: "string option"
  t_details :: "json dict"
  t_occurred_at :: datetime

record kill_switch_row =
  k_scope :: string
  k_engaged :: bool
  k_changed_by :: "string option"
  k_reason :: "string option"
  k_changed_at :: datetime

record baseline_row =
  b_remediation_id :: uuid
  b_status :: string
  b_values :: "json dict"
  b_evidence_ids :: "uuid list"
  b_error :: "string option"
  b_captured_at :: datetime

record verification_row =
  v_id :: uuid
  v_incident_id :: uuid
  v_remediation_id :: uuid
  v_verification_type :: string
  v_policy_version :: string
  v_spec :: verification_spec
  v_baseline :: "json dict option"
  v_status :: verification_status
  v_consecutive_successes :: int
  v_observation_count :: int
  v_conclusive_count :: int
  v_result :: "verification_status option"
  v_failure_reason :: "string option"
  v_next_action :: "string option"
  v_correlation_id :: uuid
  v_grace_until :: "datetime option"
  v_deadline_at :: "datetime option"
  v_next_poll_at :: "datetime option"
  v_lease_owner :: "string option"
  v_lease_expires_at :: "datetime option"
  v_claim_attempt :: int
  v_known_alert_ids :: "uuid list"
  v_started_at :: "datetime option"
  v_completed_at :: "datetime option"
  v_created_at :: datetime
  v_updated_at :: datetime

record observation_row =
  ob_id :: int
  ob_verification_id :: uuid
  ob_sequence :: int
  ob_claim_attempt :: int
  ob_observed_at :: datetime
  ob_passed :: bool
  ob_conclusive :: bool
  ob_checks :: "check_result list"
  ob_errors :: "string list"
  ob_evidence_ids :: "uuid list"

record verification_evidence_row =
  ve_verification_id :: uuid
  ve_evidence_id :: uuid
  ve_poll_sequence :: int
  ve_role :: string
  ve_collected_at :: datetime

record db =
  incidents :: "incident_row list"
  alerts :: "alert_row list"
  outbox :: "outbox_event_row list"
  processed_commands :: "processed_command_row list"
  consumed_events :: "consumed_event_row list"
  evidence_refs :: "evidence_ref_row list"
  investigations :: "investigation_row list"
  hypotheses :: "hypothesis_row list"
  hypothesis_links :: "hypothesis_evidence_link_row list"
  investigation_steps :: "investigation_step_row list"
  rca_reports :: "rca_report_row list"
  remediations :: "remediation_row list"
  policy_decisions :: "policy_decision_row list"
  approvals :: "approval_row list"
  executions :: "execution_row list"
  timeline :: "timeline_row list"
  kill_switches :: "kill_switch_row list"
  baselines :: "baseline_row list"
  verifications :: "verification_row list"
  observations :: "observation_row list"
  verification_evidence :: "verification_evidence_row list"
  next_uuid :: uuid

type_synonym 'a cmd = "(db, error, 'a) tx"

definition empty_db :: db where
  "empty_db = \<lparr>incidents = [], alerts = [], outbox = [], processed_commands = [],
     consumed_events = [], evidence_refs = [], investigations = [], hypotheses = [],
     hypothesis_links = [], investigation_steps = [], rca_reports = [],
     remediations = [], policy_decisions = [], approvals = [], executions = [], timeline = [],
     kill_switches = [], baselines = [], verifications = [], observations = [],
     verification_evidence = [], next_uuid = 0\<rparr>"

text \<open>
  The clocks a command reads: the service's \<^verbatim>\<open>self._clock()\<close>, \<^verbatim>\<open>datetime.now(UTC)\<close> and the \<^verbatim>\<open>now()\<close> of
  the database transaction. Each is read once per command.
\<close>

record clock =
  clk_now :: datetime
  clk_wall :: datetime
  clk_db :: datetime

subsection \<open>Tables with an identifier\<close>

definition get_incident :: "uuid \<Rightarrow> db \<Rightarrow> incident_row option" where
  "get_incident k s = lookup_row i_id k (incidents s)"
definition add_incident :: "incident_row \<Rightarrow> db \<Rightarrow> db" where
  "add_incident r s = s\<lparr>incidents := incidents s @ [r]\<rparr>"
definition set_incident :: "uuid \<Rightarrow> (incident_row \<Rightarrow> incident_row) \<Rightarrow> db \<Rightarrow> db" where
  "set_incident k f s = s\<lparr>incidents := update_rows i_id k f (incidents s)\<rparr>"

definition get_alert :: "uuid \<Rightarrow> db \<Rightarrow> alert_row option" where
  "get_alert k s = lookup_row a_id k (alerts s)"
definition add_alert :: "alert_row \<Rightarrow> db \<Rightarrow> db" where
  "add_alert r s = s\<lparr>alerts := alerts s @ [r]\<rparr>"
definition set_alert :: "uuid \<Rightarrow> (alert_row \<Rightarrow> alert_row) \<Rightarrow> db \<Rightarrow> db" where
  "set_alert k f s = s\<lparr>alerts := update_rows a_id k f (alerts s)\<rparr>"

definition get_remediation :: "uuid \<Rightarrow> db \<Rightarrow> remediation_row option" where
  "get_remediation k s = lookup_row r_id k (remediations s)"
definition add_remediation :: "remediation_row \<Rightarrow> db \<Rightarrow> db" where
  "add_remediation r s = s\<lparr>remediations := remediations s @ [r]\<rparr>"
definition set_remediation :: "uuid \<Rightarrow> (remediation_row \<Rightarrow> remediation_row) \<Rightarrow> db \<Rightarrow> db" where
  "set_remediation k f s = s\<lparr>remediations := update_rows r_id k f (remediations s)\<rparr>"

definition get_execution :: "uuid \<Rightarrow> db \<Rightarrow> execution_row option" where
  "get_execution k s = lookup_row x_id k (executions s)"
definition add_execution :: "execution_row \<Rightarrow> db \<Rightarrow> db" where
  "add_execution r s = s\<lparr>executions := executions s @ [r]\<rparr>"
definition set_execution :: "uuid \<Rightarrow> (execution_row \<Rightarrow> execution_row) \<Rightarrow> db \<Rightarrow> db" where
  "set_execution k f s = s\<lparr>executions := update_rows x_id k f (executions s)\<rparr>"

definition get_verification :: "uuid \<Rightarrow> db \<Rightarrow> verification_row option" where
  "get_verification k s = lookup_row v_id k (verifications s)"
definition add_verification :: "verification_row \<Rightarrow> db \<Rightarrow> db" where
  "add_verification r s = s\<lparr>verifications := verifications s @ [r]\<rparr>"
definition set_verification :: "uuid \<Rightarrow> (verification_row \<Rightarrow> verification_row) \<Rightarrow> db \<Rightarrow> db" where
  "set_verification k f s = s\<lparr>verifications := update_rows v_id k f (verifications s)\<rparr>"

definition get_decision :: "uuid \<Rightarrow> db \<Rightarrow> policy_decision_row option" where
  "get_decision k s = lookup_row d_id k (policy_decisions s)"

definition get_baseline :: "uuid \<Rightarrow> db \<Rightarrow> baseline_row option" where
  "get_baseline k s = lookup_row b_remediation_id k (baselines s)"

definition get_investigation :: "uuid \<Rightarrow> db \<Rightarrow> investigation_row option" where
  "get_investigation k s = lookup_row n_id k (investigations s)"
definition add_investigation :: "investigation_row \<Rightarrow> db \<Rightarrow> db" where
  "add_investigation r s = s\<lparr>investigations := investigations s @ [r]\<rparr>"
definition set_investigation :: "uuid \<Rightarrow> (investigation_row \<Rightarrow> investigation_row) \<Rightarrow> db \<Rightarrow> db" where
  "set_investigation k f s = s\<lparr>investigations := update_rows n_id k f (investigations s)\<rparr>"

definition get_hypothesis :: "uuid \<Rightarrow> db \<Rightarrow> hypothesis_row option" where
  "get_hypothesis k s = lookup_row h_id k (hypotheses s)"
definition add_hypothesis :: "hypothesis_row \<Rightarrow> db \<Rightarrow> db" where
  "add_hypothesis r s = s\<lparr>hypotheses := hypotheses s @ [r]\<rparr>"
definition set_hypothesis :: "uuid \<Rightarrow> (hypothesis_row \<Rightarrow> hypothesis_row) \<Rightarrow> db \<Rightarrow> db" where
  "set_hypothesis k f s = s\<lparr>hypotheses := update_rows h_id k f (hypotheses s)\<rparr>"

definition get_kill_switch :: "string \<Rightarrow> db \<Rightarrow> kill_switch_row option" where
  "get_kill_switch k s = lookup_row k_scope k (kill_switches s)"
definition add_kill_switch :: "kill_switch_row \<Rightarrow> db \<Rightarrow> db" where
  "add_kill_switch r s = s\<lparr>kill_switches := kill_switches s @ [r]\<rparr>"
definition set_kill_switch_row :: "string \<Rightarrow> (kill_switch_row \<Rightarrow> kill_switch_row) \<Rightarrow> db \<Rightarrow> db" where
  "set_kill_switch_row k f s = s\<lparr>kill_switches := update_rows k_scope k f (kill_switches s)\<rparr>"

interpretation inc: keyed_table incidents i_id get_incident add_incident set_incident
  by unfold_locales (simp_all add: get_incident_def add_incident_def set_incident_def)

interpretation alr: keyed_table alerts a_id get_alert add_alert set_alert
  by unfold_locales (simp_all add: get_alert_def add_alert_def set_alert_def)

interpretation rem: keyed_table remediations r_id get_remediation add_remediation set_remediation
  by unfold_locales (simp_all add: get_remediation_def add_remediation_def set_remediation_def)

interpretation exe: keyed_table executions x_id get_execution add_execution set_execution
  by unfold_locales (simp_all add: get_execution_def add_execution_def set_execution_def)

interpretation ver: keyed_table verifications v_id get_verification add_verification set_verification
  by unfold_locales (simp_all add: get_verification_def add_verification_def set_verification_def)

interpretation ivg: keyed_table investigations n_id get_investigation add_investigation set_investigation
  by unfold_locales (simp_all add: get_investigation_def add_investigation_def set_investigation_def)

interpretation hyp: keyed_table hypotheses h_id get_hypothesis add_hypothesis set_hypothesis
  by unfold_locales (simp_all add: get_hypothesis_def add_hypothesis_def set_hypothesis_def)

interpretation ksw: keyed_table kill_switches k_scope get_kill_switch add_kill_switch set_kill_switch_row
  by unfold_locales (simp_all add: get_kill_switch_def add_kill_switch_def set_kill_switch_row_def)

lemmas table_defs = add_incident_def set_incident_def add_alert_def set_alert_def
  add_remediation_def set_remediation_def add_execution_def set_execution_def
  add_verification_def set_verification_def add_kill_switch_def set_kill_switch_row_def
  add_investigation_def set_investigation_def add_hypothesis_def set_hypothesis_def

definition new_uuid :: "uuid cmd" where
  "new_uuid = (\<lambda>s. Inr (next_uuid s, s\<lparr>next_uuid := Suc (next_uuid s)\<rparr>))"

lemma new_uuid_Inr [simp]:
  "new_uuid s = Inr (u, s') \<longleftrightarrow> u = next_uuid s \<and> s' = s\<lparr>next_uuid := Suc (next_uuid s)\<rparr>"
  by (auto simp: new_uuid_def)

lemma new_uuid_app: "new_uuid s = Inr (next_uuid s, s\<lparr>next_uuid := Suc (next_uuid s)\<rparr>)"
  by (simp add: new_uuid_def)

text \<open>\<^verbatim>\<open>.scalar_one_or_none()\<close> on the rows a query selects.\<close>

definition scalar_one_or_none :: "'a list \<Rightarrow> ('a option) cmd" where
  "scalar_one_or_none xs =
     (case xs of [] \<Rightarrow> returnT None | [x] \<Rightarrow> returnT (Some x) | _ \<Rightarrow> raiseT MultipleResultsFound)"

lemma scalar_one_or_none_Inr [simp]:
  "scalar_one_or_none xs s = Inr (r, s') \<longleftrightarrow>
     s' = s \<and> (xs = [] \<and> r = None \<or> (\<exists>x. xs = [x] \<and> r = Some x))"
  by (auto simp: scalar_one_or_none_def split: list.splits)

text \<open>\<^verbatim>\<open>assert x is not None\<close>, giving the value.\<close>

definition the_or :: "'a option \<Rightarrow> error \<Rightarrow> 'a cmd" where
  "the_or v e = (case v of Some x \<Rightarrow> returnT x | None \<Rightarrow> raiseT e)"

lemma the_or_Inr [simp]: "the_or v e s = Inr (x, s') \<longleftrightarrow> s' = s \<and> v = Some x"
  by (auto simp: the_or_def split: option.splits)

end
