(* ===== verification/Repository.thy ===== *)
theory Repository
  imports Database
begin

text \<open>
  \<^verbatim>\<open>packages/incident/repository.py\<close>: one definition per function, as a transaction on \<open>db\<close>. An
  ORM row returned by the code is the row as read; later changes to it go through its id. Where a query
  leaves the order of its rows open, the model takes the order of insertion.
\<close>

definition COMMAND_TYPE_ALERT_RECEIVED :: string where
  "COMMAND_TYPE_ALERT_RECEIVED = ''AlertReceivedCommand''"

definition PRODUCER_INCIDENT_CORE :: string where
  "PRODUCER_INCIDENT_CORE = ''incident-core''"

subsection \<open>Processed commands\<close>

definition get_processed_command :: "string \<Rightarrow> string \<Rightarrow> (processed_command_row option) cmd" where
  "get_processed_command command_type idempotency_key =
     bindT (getsT processed_commands) (\<lambda>rows. scalar_one_or_none
       (filter (\<lambda>r. pr_command_type r = command_type \<and> pr_idempotency_key r = idempotency_key) rows))"

definition insert_processed_command ::
  "clock \<Rightarrow> string \<Rightarrow> string \<Rightarrow> alert_received_result \<Rightarrow> bool cmd" where
  "insert_processed_command clk command_type idempotency_key result =
     bindT (getsT processed_commands) (\<lambda>rows.
       if list_ex (\<lambda>r. pr_command_type r = command_type \<and> pr_idempotency_key r = idempotency_key) rows
       then returnT False
       else thenT (modifyT (\<lambda>s. s\<lparr>processed_commands := processed_commands s @
              [\<lparr>pr_command_type = command_type, pr_idempotency_key = idempotency_key,
                pr_result = result, pr_processed_at = clk_db clk\<rparr>]\<rparr>))
            (returnT True))"

subsection \<open>Alerts\<close>

definition new_alert_row ::
  "clock \<Rightarrow> alert_received_command \<Rightarrow> string \<Rightarrow> alert_status \<Rightarrow> datetime option \<Rightarrow> uuid \<Rightarrow> alert_row" where
  "new_alert_row clk command fingerprint status resolved_at aid =
     \<lparr>a_id = aid, a_external_id = c_external_id command, a_source = c_source command,
      a_fingerprint = fingerprint, a_labels = c_labels command,
      a_annotations = c_annotations command, a_severity = c_severity command,
      a_status = status, a_incident_id = None, a_raw_payload = c_raw_payload command,
      a_received_at = clk_db clk, a_resolved_at = resolved_at\<rparr>"

text \<open>An \<^verbatim>\<open>INSERT ... RETURNING\<close> of an alert, with a fresh id.\<close>

definition insert_alert :: "(uuid \<Rightarrow> alert_row) \<Rightarrow> alert_row cmd" where
  "insert_alert mk = bindT new_uuid (\<lambda>aid. thenT (modifyT (add_alert (mk aid))) (returnT (mk aid)))"

definition alerts_with :: "alert_received_command \<Rightarrow> alert_row list \<Rightarrow> alert_row list" where
  "alerts_with command = filter (\<lambda>a. a_source a = c_source command \<and> a_external_id a = c_external_id command)"

definition insert_alert_or_get_existing ::
  "clock \<Rightarrow> alert_received_command \<Rightarrow> string \<Rightarrow> (alert_row \<times> bool) cmd" where
  "insert_alert_or_get_existing clk command fingerprint =
     (let insert = bindT (insert_alert (new_alert_row clk command fingerprint (c_status command) None))
                     (\<lambda>row. returnT (row, False))
      in if c_external_id command \<noteq> None then
           bindT (getsT (\<lambda>s. alerts_with command (alerts s))) (\<lambda>conflicting.
             if conflicting = [] then insert
             else bindT (scalar_one_or_none conflicting) (\<lambda>existing.
                  bindT (the_or existing NoResultFound) (\<lambda>row. returnT (row, True))))
         else insert)"

definition link_alert_to_incident :: "uuid \<Rightarrow> uuid \<Rightarrow> unit cmd" where
  "link_alert_to_incident alert_id incident_id =
     bindT (getsT (get_alert alert_id)) (\<lambda>alert.
     thenT (guardT (alert \<noteq> None) (AssertionFailed ''alert is not None''))
           (modifyT (set_alert alert_id (\<lambda>a. a\<lparr>a_incident_id := Some incident_id\<rparr>))))"

definition open_incident :: "db \<Rightarrow> uuid \<Rightarrow> bool" where
  "open_incident s i = (case get_incident i s of Some r \<Rightarrow> \<not> closed_status (i_status r) | None \<Rightarrow> False)"

definition find_alert_to_resolve ::
  "alert_received_command \<Rightarrow> string \<Rightarrow> (alert_row option) cmd" where
  "find_alert_to_resolve command fingerprint =
     (if c_external_id command \<noteq> None
      then bindT (getsT (\<lambda>s. alerts_with command (alerts s))) scalar_one_or_none
      else getsT (\<lambda>s.
        (case sort_key (\<lambda>a. - a_received_at a)
                (filter (\<lambda>a. a_fingerprint a = fingerprint \<and> a_status a = Alert_FIRING \<and>
                             (case a_incident_id a of Some i \<Rightarrow> open_incident s i | None \<Rightarrow> False))
                   (alerts s)) of
           [] \<Rightarrow> None | a # _ \<Rightarrow> Some a)))"

definition mark_alert_resolved :: "uuid \<Rightarrow> datetime \<Rightarrow> unit cmd" where
  "mark_alert_resolved alert_id now =
     modifyT (set_alert alert_id (\<lambda>a. a\<lparr>a_status := Alert_RESOLVED, a_resolved_at := Some now\<rparr>))"

definition insert_unlinked_resolved_alert ::
  "clock \<Rightarrow> alert_received_command \<Rightarrow> string \<Rightarrow> datetime \<Rightarrow> alert_row cmd" where
  "insert_unlinked_resolved_alert clk command fingerprint now =
     insert_alert (new_alert_row clk command fingerprint Alert_RESOLVED (Some now))"

definition firing_alerts :: "uuid \<Rightarrow> db \<Rightarrow> alert_row list" where
  "firing_alerts incident_id s =
     filter (\<lambda>a. a_incident_id a = Some incident_id \<and> a_status a = Alert_FIRING) (alerts s)"

definition count_firing_alerts :: "uuid \<Rightarrow> int cmd" where
  "count_firing_alerts incident_id = getsT (\<lambda>s. int (length (firing_alerts incident_id s)))"

subsection \<open>Incidents\<close>

definition select_open_incident :: "string \<Rightarrow> (incident_row option) cmd" where
  "select_open_incident correlation_key =
     bindT (getsT incidents) (\<lambda>rows. scalar_one_or_none
       (filter (\<lambda>r. i_correlation_key r = correlation_key \<and> \<not> closed_status (i_status r)) rows))"

definition new_incident_row ::
  "clock \<Rightarrow> string \<Rightarrow> alert_severity \<Rightarrow> string \<Rightarrow> string \<Rightarrow> uuid \<Rightarrow> incident_row" where
  "new_incident_row clk correlation_key severity service environment iid =
     \<lparr>i_id = iid, i_status = TRIAGING, i_severity = severity, i_service = service,
      i_environment = environment, i_correlation_key = correlation_key, i_attempt_count = 0,
      i_version = 0, i_created_at = clk_db clk, i_updated_at = clk_db clk, i_closed_at = None\<rparr>"

definition get_or_create_open_incident ::
  "clock \<Rightarrow> string \<Rightarrow> alert_severity \<Rightarrow> string \<Rightarrow> string \<Rightarrow> (incident_row \<times> bool) cmd" where
  "get_or_create_open_incident clk correlation_key severity service environment =
     bindT (select_open_incident correlation_key) (\<lambda>existing.
       case existing of
         Some row \<Rightarrow> returnT (row, False)
       | None \<Rightarrow>
           bindT (getsT incidents) (\<lambda>rows.
             if list_ex (\<lambda>r. i_correlation_key r = correlation_key \<and> \<not> closed_status (i_status r)) rows
             then bindT (select_open_incident correlation_key) (\<lambda>winner.
                  bindT (the_or winner (AssertionFailed ''winner is not None'')) (\<lambda>row.
                  returnT (row, False)))
             else bindT new_uuid (\<lambda>iid.
                  let row = new_incident_row clk correlation_key severity service environment iid
                  in thenT (modifyT (add_incident row)) (returnT (row, True)))))"

text \<open>
  The key of the advisory lock is eight bytes of a digest read as a signed integer. Taking the lock
  changes no row; it orders the transactions of one service and environment.
\<close>

definition int_from_bytes_signed :: "u8 list \<Rightarrow> int" where
  "int_from_bytes_signed bs =
     (let n = int_from_bytes bs
      in if bs \<noteq> [] \<and> 2 ^ (8 * length bs - 1) \<le> n then n - 2 ^ (8 * length bs) else n)"

definition advisory_lock_key :: "string \<Rightarrow> string \<Rightarrow> int" where
  "advisory_lock_key service environment =
     int_from_bytes_signed (take 8 (sha256 (bytes_of_string (service @ '':'' @ environment))))"

definition acquire_correlation_lock :: "string \<Rightarrow> string \<Rightarrow> int cmd" where
  "acquire_correlation_lock service environment = returnT (advisory_lock_key service environment)"

definition candidates_of :: "db \<Rightarrow> datetime \<Rightarrow> incident_row \<Rightarrow> correlation_candidate list" where
  "candidates_of s cutoff incident =
     (let linked = filter (\<lambda>a. a_incident_id a = Some (i_id incident)) (alerts s)
      in if linked = [] then []
         else let latest = Max (set (map a_received_at linked))
              in if latest \<ge> cutoff
                 then map (\<lambda>alert. \<lparr>cc_incident_id = i_id incident,
                        cc_correlation_key = i_correlation_key incident,
                        cc_status = i_status incident, cc_service = i_service incident,
                        cc_environment = i_environment incident,
                        cc_received_at = a_received_at alert, cc_labels = a_labels alert,
                        cc_fingerprint = a_fingerprint alert\<rparr>)
                      (filter (\<lambda>a. a_received_at a = latest) linked)
                 else [])"

definition find_open_incident_candidates ::
  "string \<Rightarrow> string \<Rightarrow> datetime \<Rightarrow> int \<Rightarrow> (correlation_candidate list) cmd" where
  "find_open_incident_candidates service environment now lookback_seconds =
     getsT (\<lambda>s. concat (map (candidates_of s (now - seconds lookback_seconds))
       (filter (\<lambda>r. i_service r = service \<and> i_environment r = environment \<and>
                    \<not> closed_status (i_status r)) (incidents s))))"

definition touch_incident_updated_at :: "clock \<Rightarrow> uuid \<Rightarrow> unit cmd" where
  "touch_incident_updated_at clk incident_id =
     modifyT (set_incident incident_id (\<lambda>r. r\<lparr>i_updated_at := clk_wall clk\<rparr>))"

text \<open>
  \<^verbatim>\<open>UPDATE ... WHERE id = :id AND version = :expected\<close>: \<open>incident\<close> is the row the caller read, which may
  be older than the row in the table.
\<close>

definition transition_incident_status ::
  "incident_row \<Rightarrow> incident_status \<Rightarrow> datetime \<Rightarrow> bool \<Rightarrow> bool cmd" where
  "transition_incident_status incident to_status now closes =
     bindT (getsT (get_incident (i_id incident))) (\<lambda>current.
       case current of
         None \<Rightarrow> returnT False
       | Some row \<Rightarrow>
           (if i_version row = i_version incident
            then thenT (modifyT (set_incident (i_id incident) (\<lambda>r. r\<lparr>i_status := to_status,
                     i_version := i_version incident + 1, i_updated_at := now,
                     i_closed_at := (if closes then Some now else i_closed_at r)\<rparr>)))
                   (returnT True)
            else returnT False))"

definition get_incident_with_alerts :: "uuid \<Rightarrow> ((incident_row \<times> alert_row list) option) cmd" where
  "get_incident_with_alerts incident_id = getsT (\<lambda>s.
     map_option (\<lambda>r. (r, filter (\<lambda>a. a_incident_id a = Some incident_id) (alerts s)))
       (get_incident incident_id s))"

definition list_incident_summaries ::
  "string option \<Rightarrow> uuid option \<Rightarrow> datetime option \<Rightarrow> nat \<Rightarrow> ((incident_row \<times> alert_row list) list) cmd" where
  "list_incident_summaries environment exclude_incident_id created_before limit = getsT (\<lambda>s.
     map (\<lambda>i. (i, filter (\<lambda>a. a_incident_id a = Some (i_id i)) (alerts s)))
       (take limit (sort_key (\<lambda>i. - i_created_at i) (sort_key i_id
         (filter (\<lambda>i. (case environment of None \<Rightarrow> True | Some e \<Rightarrow> i_environment i = e) \<and>
                      (case exclude_incident_id of None \<Rightarrow> True | Some x \<Rightarrow> i_id i \<noteq> x) \<and>
                      (case created_before of None \<Rightarrow> True | Some t \<Rightarrow> i_created_at i \<le> t))
            (incidents s))))))"

subsection \<open>Evidence references\<close>

definition get_evidence_ref :: "uuid \<Rightarrow> (evidence_ref_row option) cmd" where
  "get_evidence_ref evidence_id = getsT (\<lambda>s. lookup_row er_id evidence_id (evidence_refs s))"

definition insert_evidence_ref :: "clock \<Rightarrow> register_evidence_ref_command \<Rightarrow> bool cmd" where
  "insert_evidence_ref clk command =
     bindT (get_evidence_ref (e_evidence_id command)) (\<lambda>existing.
       if existing \<noteq> None then returnT False
       else thenT (modifyT (\<lambda>s. s\<lparr>evidence_refs := evidence_refs s @
              [\<lparr>er_id = e_evidence_id command, er_incident_id = e_incident_id command,
                er_investigation_id = e_investigation_id command,
                er_evidence_type = e_evidence_type command,
                er_content_hash = e_content_hash command,
                er_source_system = e_source_system command,
                er_collected_at = e_collected_at command, er_registered_at = clk_db clk\<rparr>]\<rparr>))
            (returnT True))"

definition list_evidence_refs :: "uuid \<Rightarrow> (evidence_ref_row list) cmd" where
  "list_evidence_refs incident_id = getsT (\<lambda>s.
     sort_key er_collected_at (sort_key er_id
       (filter (\<lambda>r. er_incident_id r = incident_id) (evidence_refs s))))"

subsection \<open>Outbox\<close>

definition new_outbox_row ::
  "clock \<Rightarrow> event_type \<Rightarrow> aggregate_type \<Rightarrow> aggregate_ref \<Rightarrow> uuid option \<Rightarrow> event_payload \<Rightarrow>
   uuid \<Rightarrow> int \<Rightarrow> outbox_event_row" where
  "new_outbox_row clk event_type aggregate_type aggregate_id correlation_id payload eid sequence =
     \<lparr>o_sequence = sequence, o_event_id = eid, o_event_type = event_type, o_schema_version = 1,
      o_aggregate_type = aggregate_type, o_aggregate_id = aggregate_id,
      o_correlation_id = correlation_id, o_causation_id = None,
      o_producer = PRODUCER_INCIDENT_CORE, o_payload = payload, o_occurred_at = clk_wall clk,
      o_published_at = None, o_publish_attempts = 0, o_last_publish_error = None\<rparr>"

definition insert_outbox_event ::
  "clock \<Rightarrow> event_type \<Rightarrow> aggregate_type \<Rightarrow> aggregate_ref \<Rightarrow> uuid option \<Rightarrow> event_payload \<Rightarrow> unit cmd" where
  "insert_outbox_event clk event_type aggregate_type aggregate_id correlation_id payload =
     bindT new_uuid (\<lambda>eid. modifyT (\<lambda>s. s\<lparr>outbox := outbox s @
       [new_outbox_row clk event_type aggregate_type aggregate_id correlation_id payload eid
          (int (length (outbox s)) + 1)]\<rparr>))"

definition unpublished :: "db \<Rightarrow> outbox_event_row list" where
  "unpublished s = sort_key o_sequence (filter (\<lambda>e. o_published_at e = None) (outbox s))"

definition get_unpublished_outbox_events :: "nat \<Rightarrow> (outbox_event_row list) cmd" where
  "get_unpublished_outbox_events limit = getsT (\<lambda>s. take limit (unpublished s))"

definition set_outbox :: "int \<Rightarrow> (outbox_event_row \<Rightarrow> outbox_event_row) \<Rightarrow> db \<Rightarrow> db" where
  "set_outbox sequence f s = s\<lparr>outbox := update_rows o_sequence sequence f (outbox s)\<rparr>"

definition mark_outbox_event_published :: "clock \<Rightarrow> int \<Rightarrow> unit cmd" where
  "mark_outbox_event_published clk sequence =
     modifyT (set_outbox sequence (\<lambda>e. e\<lparr>o_published_at := Some (clk_wall clk),
       o_publish_attempts := o_publish_attempts e + 1, o_last_publish_error := None\<rparr>))"

definition mark_outbox_event_publish_failed :: "int \<Rightarrow> string \<Rightarrow> unit cmd" where
  "mark_outbox_event_publish_failed sequence err =
     modifyT (set_outbox sequence (\<lambda>e. e\<lparr>o_publish_attempts := o_publish_attempts e + 1,
       o_last_publish_error := Some (take 2000 err)\<rparr>))"

subsection \<open>Consumed events\<close>

definition has_consumed_event :: "string \<Rightarrow> uuid \<Rightarrow> bool cmd" where
  "has_consumed_event consumer_name event_id = getsT (\<lambda>s.
     list_ex (\<lambda>r. ce_consumer_name r = consumer_name \<and> ce_event_id r = event_id) (consumed_events s))"

definition mark_event_consumed :: "clock \<Rightarrow> string \<Rightarrow> uuid \<Rightarrow> bool cmd" where
  "mark_event_consumed clk consumer_name event_id =
     bindT (has_consumed_event consumer_name event_id) (\<lambda>seen.
       if seen then returnT False
       else thenT (modifyT (\<lambda>s. s\<lparr>consumed_events := consumed_events s @
              [\<lparr>ce_consumer_name = consumer_name, ce_event_id = event_id,
                ce_processed_at = clk_db clk\<rparr>]\<rparr>))
            (returnT True))"

subsection \<open>Properties of the functions\<close>

text \<open>
  The key of the correlation lock always fits PostgreSQL's signed 64-bit \<^verbatim>\<open>bigint\<close>, so
  taking the lock never fails on its argument.
\<close>

theorem advisory_lock_key_bigint:
  "- (2 ^ 63) \<le> advisory_lock_key service environment \<and> advisory_lock_key service environment < 2 ^ 63"
proof -
  let ?bs = "take 8 (sha256 (bytes_of_string (service @ '':'' @ environment)))"
  have "length ?bs = 8" by (simp add: length_sha256)
  then show ?thesis using int_from_bytes_range [of ?bs]
    by (auto simp: advisory_lock_key_def int_from_bytes_signed_def Let_def)
qed

lemma scalar_one_or_none_keeps [keeps_rules]: "keepsT f (scalar_one_or_none xs)"
  by (auto simp: keepsT_def relT_def)

lemma the_or_keeps [keeps_rules]: "keepsT f (the_or v e)"
  by (auto simp: keepsT_def relT_def)

text \<open>An optimistic update that read a stale row changes nothing and says so.\<close>

lemma transition_incident_status_stale:
  "get_incident (i_id incident) s = Some row \<Longrightarrow> i_version row \<noteq> i_version incident \<Longrightarrow>
   transition_incident_status incident to_status now closes s = Inr (False, s)"
  by (simp add: transition_incident_status_def tx_run)

lemma transition_incident_status_current:
  "get_incident (i_id row) s = Some row \<Longrightarrow>
   transition_incident_status row to_status now closes s =
     Inr (True, set_incident (i_id row) (\<lambda>r. r\<lparr>i_status := to_status, i_version := i_version row + 1,
       i_updated_at := now, i_closed_at := (if closes then Some now else i_closed_at r)\<rparr>) s)"
  by (simp add: transition_incident_status_def tx_run)

lemma insert_outbox_event_app:
  "insert_outbox_event clk ty agg ref corr payload s =
     Inr ((), s\<lparr>next_uuid := Suc (next_uuid s),
               outbox := outbox s @ [new_outbox_row clk ty agg ref corr payload (next_uuid s)
                                      (int (length (outbox s)) + 1)]\<rparr>)"
  by (simp add: insert_outbox_event_def tx_run new_uuid_app)

end
