(* ===== verification/Remediations.thy ===== *)
theory Remediations
  imports Repository Py_Time
begin

text \<open>
  \<^verbatim>\<open>packages/incident/remediations.py\<close>: the remediation commands of incident-core. One definition per
  method; a row that the code holds locked is addressed by its id and read again where the code reads
  an attribute after changing it. Metrics and log lines are left out.

  The service catalog (\<^verbatim>\<open>ServiceTopology\<close>) and pydantic are parameters, in the record of the service's
  configuration.
\<close>

record remediation_core =
  rc_services :: "string list"
  rc_neighborhood :: "string \<Rightarrow> string list"
  rc_policy :: policy
  rc_approval_timeout :: timedelta
  rc_verification_time_scale :: float64
  rc_model_validate :: validator
  rc_model_json_schema :: "params_class \<Rightarrow> json"

definition GLOBAL_SCOPE :: string where
  "GLOBAL_SCOPE = ''global''"

definition service_scope :: "string \<Rightarrow> string" where
  "service_scope service = ''service:'' @ service"

text \<open>\<^verbatim>\<open>RemediationView\<close>: the row, and the verdict of its policy decision.\<close>

type_synonym remediation_view = "remediation_row \<times> policy_verdict option"

datatype ticket_mode = Execute | Reconcile

record execution_ticket =
  tk_mode :: ticket_mode
  tk_remediation :: remediation_view
  tk_execution_id :: uuid
  tk_attempt :: int
  tk_idempotency_key :: string
  tk_deadline :: datetime
  tk_action_id :: string
  tk_catalog_version :: string
  tk_parameters :: "json dict"
  tk_target_service :: string
  tk_environment :: string

abbreviation jid :: "uuid \<Rightarrow> json" where
  "jid u \<equiv> JStr (uuid_str u)"

abbreviation jstrs :: "string list \<Rightarrow> json" where
  "jstrs xs \<equiv> JList (map JStr xs)"

subsection \<open>Internals\<close>

definition lock :: "uuid \<Rightarrow> remediation_row cmd" where
  "lock remediation_id =
     bindT (getsT (get_remediation remediation_id)) (\<lambda>row.
       the_or row (RemediationNotFoundError (uuid_str remediation_id)))"

definition lock_incident :: "uuid \<Rightarrow> incident_row cmd" where
  "lock_incident incident_id =
     bindT (getsT (get_incident incident_id)) (\<lambda>row.
       the_or row (IncidentNotFoundError (uuid_str incident_id)))"

definition view_of :: "db \<Rightarrow> remediation_row \<Rightarrow> remediation_view" where
  "view_of s row =
     (row, case r_policy_decision_id row of
             None \<Rightarrow> None | Some d \<Rightarrow> map_option d_decision (get_decision d s))"

definition view :: "uuid \<Rightarrow> remediation_view cmd" where
  "view remediation_id = bindT (lock remediation_id) (\<lambda>row. getsT (\<lambda>s. view_of s row))"

definition engaged_scopes :: "db \<Rightarrow> string set" where
  "engaged_scopes s = set (map k_scope (filter k_engaged (kill_switches s)))"

definition kill_switches_view :: "(string \<times> bool) list cmd" where
  "kill_switches_view = getsT (\<lambda>s. map (\<lambda>r. (k_scope r, k_engaged r)) (kill_switches s))"

definition latest_execution :: "uuid \<Rightarrow> db \<Rightarrow> execution_row option" where
  "latest_execution remediation_id s =
     (case sort_key (\<lambda>x. - x_attempt_number x)
             (filter (\<lambda>x. x_remediation_id x = remediation_id) (executions s)) of
        [] \<Rightarrow> None | x # _ \<Rightarrow> Some x)"

definition approvals_of :: "uuid \<Rightarrow> db \<Rightarrow> approval_row list" where
  "approvals_of remediation_id s = filter (\<lambda>a. ap_remediation_id a = remediation_id) (approvals s)"

definition ticket ::
  "uuid \<Rightarrow> execution_row \<Rightarrow> ticket_mode \<Rightarrow> execution_ticket cmd" where
  "ticket remediation_id execution mode =
     bindT (view remediation_id) (\<lambda>v. case v of (row, _) \<Rightarrow> returnT
       \<lparr>tk_mode = mode, tk_remediation = v, tk_execution_id = x_id execution,
        tk_attempt = x_attempt_number execution, tk_idempotency_key = x_idempotency_key execution,
        tk_deadline = x_deadline_at execution, tk_action_id = r_action_id row,
        tk_catalog_version = r_catalog_version row, tk_parameters = r_parameters row,
        tk_target_service = r_target_service row, tk_environment = r_environment row\<rparr>)"

definition next_sequence :: "uuid \<Rightarrow> db \<Rightarrow> int" where
  "next_sequence remediation_id s =
     foldr (\<lambda>t m. max (t_sequence t) m) (filter (\<lambda>t. t_remediation_id t = remediation_id) (timeline s)) 0 + 1"

definition decision_version :: "db \<Rightarrow> remediation_row \<Rightarrow> string option \<Rightarrow> string option" where
  "decision_version s row policy_version =
     (if policy_version = None \<and> r_policy_decision_id row \<noteq> None
      then map_option d_policy_version (get_decision (the (r_policy_decision_id row)) s)
      else policy_version)"

definition add_timeline ::
  "clock \<Rightarrow> uuid \<Rightarrow> string \<Rightarrow> remediation_status option \<Rightarrow> remediation_status option \<Rightarrow> string \<Rightarrow>
   json dict \<Rightarrow> string option \<Rightarrow> unit cmd" where
  "add_timeline clk remediation_id event from_status to_status actor details policy_version =
     bindT (lock remediation_id) (\<lambda>row.
       modifyT (\<lambda>s. s\<lparr>timeline := timeline s @
         [\<lparr>t_id = int (length (timeline s)) + 1, t_remediation_id = remediation_id,
           t_sequence = next_sequence remediation_id s, t_event = event,
           t_from_status = from_status, t_to_status = to_status, t_actor = actor,
           t_correlation_id = r_correlation_id row, t_action_id = r_action_id row,
           t_catalog_version = r_catalog_version row,
           t_policy_version = decision_version s row policy_version,
           t_details = details, t_occurred_at = clk_now clk\<rparr>]\<rparr>))"

definition remediation_event ::
  "clock \<Rightarrow> uuid \<Rightarrow> event_type \<Rightarrow> string \<Rightarrow> policy_decision_row option \<Rightarrow> unit cmd" where
  "remediation_event clk remediation_id event_type actor decision_row =
     bindT (lock remediation_id) (\<lambda>row.
     bindT (getsT (\<lambda>s. if decision_row = None \<and> r_policy_decision_id row \<noteq> None
                        then get_decision (the (r_policy_decision_id row)) s else decision_row)) (\<lambda>dec.
       insert_outbox_event clk event_type Remediation (Agg_id remediation_id) (Some (r_correlation_id row))
         (RemediationEventPayload remediation_id (r_incident_id row) (r_action_id row)
            (r_catalog_version row) (r_status row) (r_proposal_hash row) actor
            (map_option d_policy_version dec) (map_option d_decision dec)
            (case r_failure_reason row of
               Some (c # cs) \<Rightarrow> [(''failure_reason'', JStr (c # cs))] | _ \<Rightarrow> []))))"

definition transition ::
  "clock \<Rightarrow> uuid \<Rightarrow> remediation_status \<Rightarrow> string \<Rightarrow> string \<Rightarrow> json dict \<Rightarrow> string option \<Rightarrow> unit cmd" where
  "transition clk remediation_id to_status event actor details policy_version =
     bindT (lock remediation_id) (\<lambda>row.
     thenT (guardT (can_transition (r_status row) to_status)
              (RemediationStateError (remediation_status_value (r_status row) @ '' -> ''
                 @ remediation_status_value to_status @ '' is not allowed'')))
     (thenT (modifyT (set_remediation remediation_id (\<lambda>r. r\<lparr>r_status := to_status,
               r_version := r_version r + 1, r_updated_at := clk_now clk\<rparr>)))
       (add_timeline clk remediation_id event (Some (r_status row)) (Some to_status) actor details
          policy_version)))"

definition move_incident ::
  "clock \<Rightarrow> uuid \<Rightarrow> incident_status list \<Rightarrow> incident_status \<Rightarrow> string \<Rightarrow> unit cmd" where
  "move_incident clk incident_id from_statuses to_status reason =
     bindT (lock_incident incident_id) (\<lambda>incident.
       if i_status incident \<notin> set from_statuses then returnT ()
       else
         bindT (transition_incident_status incident to_status (clk_now clk) False) (\<lambda>moved.
         thenT (guardT moved (ConcurrentModificationError
                  (''incident '' @ uuid_str incident_id @ '' changed concurrently'')))
         (bindT (lock_incident incident_id) (\<lambda>refreshed.
            insert_outbox_event clk IncidentStatusChanged Incident (Agg_id incident_id) (Some incident_id)
              (IncidentStatusChangedPayload incident_id (i_status incident) (i_status refreshed) reason
                 (i_version refreshed))))))"

definition finish_failed ::
  "clock \<Rightarrow> uuid \<Rightarrow> uuid \<Rightarrow> string \<Rightarrow> string \<Rightarrow> string \<Rightarrow> unit cmd" where
  "finish_failed clk remediation_id incident_id code txt actor =
     seqT
       [modifyT (set_remediation remediation_id (\<lambda>r. r\<lparr>
          r_failure_reason := Some (take 2000 (code @ '': '' @ txt)),
          r_lease_owner := None, r_lease_expires_at := None, r_completed_at := Some (clk_now clk)\<rparr>)),
        transition clk remediation_id R_FAILED ''failed'' actor
          [(''code'', JStr code), (''detail'', JStr txt)] None,
        remediation_event clk remediation_id RemediationFailed actor None,
        move_incident clk incident_id [REMEDIATION_IN_PROGRESS, AWAITING_APPROVAL] ESCALATED
          (''remediation_failed:'' @ code)]"

definition finish_cancelled ::
  "clock \<Rightarrow> uuid \<Rightarrow> uuid \<Rightarrow> string \<Rightarrow> string \<Rightarrow> string \<Rightarrow> incident_status \<Rightarrow> event_type \<Rightarrow>
   policy_decision_row option \<Rightarrow> unit cmd" where
  "finish_cancelled clk remediation_id incident_id event actor reason incident_to event_type decision_row =
     seqT
       [modifyT (set_remediation remediation_id (\<lambda>r. r\<lparr>
          r_failure_reason := Some (take 2000 reason),
          r_lease_owner := None, r_lease_expires_at := None, r_completed_at := Some (clk_now clk)\<rparr>)),
        transition clk remediation_id R_CANCELLED event actor [(''reason'', JStr reason)] None,
        remediation_event clk remediation_id event_type actor decision_row,
        move_incident clk incident_id [AWAITING_APPROVAL, REMEDIATION_IN_PROGRESS] incident_to
          (''remediation_'' @ event)]"

subsection \<open>Proposal and policy\<close>

definition rca_investigation :: "uuid \<Rightarrow> uuid option \<Rightarrow> db \<Rightarrow> investigation_row option" where
  "rca_investigation incident_id investigation_id s =
     (case sort_key (\<lambda>n. - n_attempt_number n)
             (filter (\<lambda>n. n_incident_id n = incident_id \<and>
                          (case investigation_id of None \<Rightarrow> True | Some v \<Rightarrow> n_id n = v))
                (investigations s)) of
        [] \<Rightarrow> None | n # _ \<Rightarrow> Some n)"

definition attempted_remediations :: "uuid \<Rightarrow> db \<Rightarrow> int" where
  "attempted_remediations incident_id s =
     int (length (filter (\<lambda>r. r_incident_id r = incident_id \<and>
       r_status r \<in> set ATTEMPTED_REMEDIATION_STATUSES) (remediations s)))"

definition recent_executions :: "string \<Rightarrow> datetime \<Rightarrow> db \<Rightarrow> int" where
  "recent_executions target since s =
     int (length (filter (\<lambda>x. x_started_at x \<ge> since \<and>
       (case get_remediation (x_remediation_id x) s of
          Some r \<Rightarrow> r_target_service r = target | None \<Rightarrow> False)) (executions s)))"

definition build_context ::
  "remediation_core \<Rightarrow> clock \<Rightarrow> incident_row \<Rightarrow> remediation_proposal \<Rightarrow> int option \<Rightarrow>
   policy_evaluation_context cmd" where
  "build_context core clk incident proposal tier =
     bindT (getsT (rca_investigation (i_id incident) (rp_investigation_id proposal))) (\<lambda>investigation.
     bindT (case investigation of
              None \<Rightarrow> returnT None
            | Some n \<Rightarrow> bindT (getsT rca_reports) (\<lambda>rows.
                scalar_one_or_none (filter (\<lambda>r. rca_investigation_id r = n_id n) rows))) (\<lambda>rca.
     bindT new_uuid (\<lambda>context_id.
     getsT (\<lambda>s.
       let root = (case rca of
                     Some r \<Rightarrow> jdict (jget (rca_report r) ''root_cause_hypothesis'') | None \<Rightarrow> []);
           target = rp_target_service proposal;
           name = (case target of Some t \<Rightarrow> t | None \<Rightarrow> []);
           switches = engaged_scopes s
       in \<lparr>pc_context_id = context_id, pc_captured_at = clk_now clk, pc_incident_id = i_id incident,
           pc_incident_environment = i_environment incident,
           pc_incident_severity = severity_value (i_severity incident),
           pc_incident_service = i_service incident,
           pc_incident_status = incident_status_value (i_status incident),
           pc_investigation_status =
             map_option (\<lambda>n. investigation_status_value (n_status n)) investigation,
           pc_rca_available = (rca \<noteq> None \<and>
             (case investigation of Some n \<Rightarrow> n_status n = Inv_COMPLETED | None \<Rightarrow> False)),
           pc_rca_cause_category = jget root ''cause_category'',
           pc_rca_component = jget root ''component'',
           pc_target_service = target,
           pc_target_known = (name \<noteq> [] \<and> name \<in> set (rc_services core)),
           pc_target_in_incident_scope =
             (name \<noteq> [] \<and> name \<in> set (rc_neighborhood core (i_service incident))),
           pc_action_blast_radius_tier = tier,
           pc_attempted_remediations_this_incident = attempted_remediations (i_id incident) s,
           pc_remediation_executions_last_hour_for_target =
             recent_executions name (clk_now clk - seconds 3600) s,
           pc_global_kill_switch_engaged = (GLOBAL_SCOPE \<in> switches),
           pc_service_kill_switch_engaged = (name \<noteq> [] \<and> service_scope name \<in> switches),
           pc_proposal_source = rp_source proposal\<rparr>))))"

definition record_decision ::
  "remediation_core \<Rightarrow> clock \<Rightarrow> uuid \<Rightarrow> policy_decision \<Rightarrow> policy_evaluation_context \<Rightarrow>
   policy_decision_row cmd" where
  "record_decision core clk remediation_id dec context =
     bindT (lock remediation_id) (\<lambda>row.
     bindT new_uuid (\<lambda>did.
       let decision_row =
         \<lparr>d_id = did, d_remediation_id = remediation_id, d_proposal_hash = r_proposal_hash row,
          d_policy_version = pd_policy_version dec, d_catalog_version = pd_catalog_version dec,
          d_catalog_digest = catalog_digest (rc_model_json_schema core),
          d_decision = pd_decision dec, d_blast_radius_tier = pd_blast_radius_tier dec,
          d_required_approver_roles = pd_required_approver_roles dec, d_rules = pd_rules dec,
          d_reasons = reasons dec, d_policy_context = context, d_evaluated_at = clk_now clk\<rparr>
       in thenT (seqT
            [modifyT (\<lambda>s. s\<lparr>policy_decisions := policy_decisions s @ [decision_row]\<rparr>),
             modifyT (set_remediation remediation_id (\<lambda>r. r\<lparr>r_policy_decision_id := Some did\<rparr>)),
             add_timeline clk remediation_id ''policy_evaluated'' (Some R_PROPOSED) (Some R_PROPOSED)
               ''policy-engine''
               [(''decision'', JStr (policy_verdict_value (pd_decision dec))),
                (''policy_decision_id'', jid did),
                (''denying_rules'', jstrs (denying_rules dec)),
                (''reasons'', jstrs (reasons dec)),
                (''blast_radius_tier'', jopt JInt (pd_blast_radius_tier dec)),
                (''catalog_digest'', JStr (d_catalog_digest decision_row))]
               (Some (pd_policy_version dec)),
             remediation_event clk remediation_id RemediationPolicyEvaluated ''policy-engine''
               (Some decision_row)])
          (returnT decision_row)))"

definition new_remediation_row ::
  "remediation_core \<Rightarrow> clock \<Rightarrow> incident_row \<Rightarrow> remediation_proposal \<Rightarrow> string \<Rightarrow> uuid option \<Rightarrow>
   int option \<Rightarrow> uuid \<Rightarrow> remediation_row" where
  "new_remediation_row core clk incident proposal idempotency_key correlation_id tier rid =
     \<lparr>r_id = rid, r_incident_id = i_id incident, r_investigation_id = rp_investigation_id proposal,
      r_idempotency_key = idempotency_key, r_action_id = rp_action_id proposal,
      r_catalog_version = CATALOG_VERSION, r_parameters = rp_parameters proposal,
      r_target_service = (case rp_target_service proposal of Some t \<Rightarrow> t | None \<Rightarrow> []),
      r_environment = i_environment incident, r_reason = rp_reason proposal,
      r_expected_effect = rp_expected_effect proposal, r_blast_radius_tier = tier,
      r_proposal_hash = proposal_hash (i_id incident) (rp_investigation_id proposal)
        (rp_action_id proposal) CATALOG_VERSION (rp_parameters proposal) (i_environment incident),
      r_source = rp_source proposal, r_proposed_by = rp_proposed_by proposal,
      r_status = R_PROPOSED, r_policy_decision_id = None, r_approval_status = None,
      r_execution_status = None, r_execution_attempts = 0, r_executor_result = None,
      r_failure_reason = None, r_verification_ref = None,
      r_correlation_id = (case correlation_id of Some c \<Rightarrow> c | None \<Rightarrow> i_id incident),
      r_lease_owner = None, r_lease_expires_at = None, r_version = 1,
      r_created_at = clk_now clk, r_updated_at = clk_now clk, r_completed_at = None\<rparr>"

definition route_denied ::
  "clock \<Rightarrow> uuid \<Rightarrow> uuid \<Rightarrow> policy_decision \<Rightarrow> policy_decision_row \<Rightarrow> unit cmd" where
  "route_denied clk remediation_id incident_id dec decision_row =
     seqT
       [transition clk remediation_id R_POLICY_REJECTED ''policy_rejected'' ''policy-engine''
          [(''denying_rules'', jstrs (denying_rules dec)), (''reasons'', jstrs (reasons dec))]
          (Some (pd_policy_version dec)),
        modifyT (set_remediation remediation_id (\<lambda>r. r\<lparr>
          r_failure_reason := Some (take 2000 (join ''; '' (reasons dec))),
          r_completed_at := Some (clk_now clk)\<rparr>)),
        remediation_event clk remediation_id RemediationFailed ''policy-engine'' (Some decision_row),
        move_incident clk incident_id [RCA_READY] ESCALATED ''remediation_policy_rejected'']"

definition route_approval ::
  "clock \<Rightarrow> uuid \<Rightarrow> uuid \<Rightarrow> policy_decision \<Rightarrow> policy_decision_row \<Rightarrow> unit cmd" where
  "route_approval clk remediation_id incident_id dec decision_row =
     seqT
       [transition clk remediation_id R_AWAITING_APPROVAL ''approval_requested'' ''policy-engine''
          [(''required_approver_roles'', jstrs (pd_required_approver_roles dec))]
          (Some (pd_policy_version dec)),
        modifyT (set_remediation remediation_id (\<lambda>r. r\<lparr>r_approval_status := Some ''pending''\<rparr>)),
        remediation_event clk remediation_id RemediationApprovalRequested ''policy-engine'' (Some decision_row),
        move_incident clk incident_id [RCA_READY] AWAITING_APPROVAL ''remediation_awaiting_approval'']"

definition record_proposal ::
  "remediation_core \<Rightarrow> clock \<Rightarrow> incident_row \<Rightarrow> remediation_proposal \<Rightarrow> string \<Rightarrow> uuid option \<Rightarrow>
   int option \<Rightarrow> uuid cmd" where
  "record_proposal core clk incident proposal idempotency_key correlation_id tier =
     thenT (bindT (getsT investigations) (\<lambda>ns. guardT
              (case rp_investigation_id proposal of None \<Rightarrow> True | Some v \<Rightarrow> v \<in> set (map n_id ns))
              (IntegrityError ''remediations.investigation_id'')))
     (bindT new_uuid (\<lambda>rid.
        let row = new_remediation_row core clk incident proposal idempotency_key correlation_id tier rid;
            actor = rp_source proposal @ '':'' @ rp_proposed_by proposal
        in thenT (seqT
             [modifyT (add_remediation row),
              add_timeline clk rid ''proposed'' None (Some R_PROPOSED) actor
                [(''parameters'', JObj (rp_parameters proposal)), (''reason'', JStr (rp_reason proposal)),
                 (''expected_effect'', JStr (rp_expected_effect proposal)),
                 (''proposal_hash'', JStr (r_proposal_hash row)),
                 (''idempotency_key'', JStr idempotency_key)] None,
              remediation_event clk rid RemediationProposed actor None])
           (returnT rid)))"

definition propose ::
  "remediation_core \<Rightarrow> clock \<Rightarrow> remediation_proposal \<Rightarrow> string \<Rightarrow> uuid option \<Rightarrow> remediation_view cmd" where
  "propose core clk proposal idempotency_key correlation_id =
     bindT (lock_incident (rp_incident_id proposal)) (\<lambda>incident.
     bindT (getsT remediations) (\<lambda>rows.
     bindT (scalar_one_or_none (filter (\<lambda>r. r_incident_id r = rp_incident_id proposal \<and>
                                            r_idempotency_key r = idempotency_key) rows)) (\<lambda>existing.
       case existing of
         Some row \<Rightarrow> view (r_id row)
       | None \<Rightarrow>
           (let entry = get_entry (rp_action_id proposal);
                tier = entry_tier (rc_model_validate core) entry (rp_parameters proposal)
            in bindT (record_proposal core clk incident proposal idempotency_key correlation_id tier) (\<lambda>rid.
               bindT (build_context core clk incident proposal tier) (\<lambda>context.
                 let dec = evaluate (rc_model_validate core) proposal entry (rc_policy core) context
                 in bindT (record_decision core clk rid dec context) (\<lambda>decision_row.
                    thenT (if pd_decision dec = DENY
                           then route_denied clk rid (i_id incident) dec decision_row
                           else route_approval clk rid (i_id incident) dec decision_row)
                      (view rid))))))))"

subsection \<open>Approval\<close>

text \<open>
  Inserting an approval: the column \<^verbatim>\<open>remediation_id\<close> is unique and \<^verbatim>\<open>policy_decision_id\<close> is not
  nullable, so a second row or a missing decision is an \<open>IntegrityError\<close>.
\<close>

definition insert_approval ::
  "clock \<Rightarrow> remediation_row \<Rightarrow> approval_decision \<Rightarrow> string \<Rightarrow> string option \<Rightarrow> string option \<Rightarrow> unit cmd" where
  "insert_approval clk row dec approver role comment =
     bindT (getsT (approvals_of (r_id row))) (\<lambda>existing.
     thenT (guardT (existing = [] \<and> r_policy_decision_id row \<noteq> None)
              (IntegrityError ''remediation_approvals''))
     (bindT new_uuid (\<lambda>aid. modifyT (\<lambda>s. s\<lparr>approvals := approvals s @
        [\<lparr>ap_id = aid, ap_remediation_id = r_id row,
          ap_policy_decision_id = the (r_policy_decision_id row),
          ap_proposal_hash = r_proposal_hash row, ap_decision = dec, ap_approver = approver,
          ap_approver_role = role, ap_comment = comment, ap_decided_at = clk_now clk\<rparr>]\<rparr>))))"

definition approve_remediation ::
  "clock \<Rightarrow> uuid \<Rightarrow> uuid \<Rightarrow> string \<Rightarrow> string \<Rightarrow> string option \<Rightarrow> policy_decision_row \<Rightarrow> unit cmd" where
  "approve_remediation clk remediation_id incident_id actor role comment decision_row =
     seqT
       [modifyT (set_remediation remediation_id (\<lambda>r. r\<lparr>r_approval_status := Some ''approved''\<rparr>)),
        transition clk remediation_id R_APPROVED ''approved'' actor
          [(''role'', JStr role), (''comment'', jopt JStr comment)] (Some (d_policy_version decision_row)),
        remediation_event clk remediation_id RemediationApproved actor (Some decision_row),
        move_incident clk incident_id [AWAITING_APPROVAL] REMEDIATION_IN_PROGRESS ''remediation_approved'']"

definition reject_remediation ::
  "clock \<Rightarrow> uuid \<Rightarrow> uuid \<Rightarrow> string \<Rightarrow> string option \<Rightarrow> policy_decision_row \<Rightarrow> unit cmd" where
  "reject_remediation clk remediation_id incident_id approver comment decision_row =
     thenT (modifyT (set_remediation remediation_id (\<lambda>r. r\<lparr>r_approval_status := Some ''rejected''\<rparr>)))
       (finish_cancelled clk remediation_id incident_id ''rejected'' (''human:'' @ approver)
          (''approval rejected by '' @ approver
           @ (case comment of Some (c # cs) \<Rightarrow> '': '' @ c # cs | _ \<Rightarrow> []))
          ESCALATED RemediationRejected (Some decision_row))"

definition decide_approval ::
  "clock \<Rightarrow> uuid \<Rightarrow> string \<Rightarrow> string list \<Rightarrow> bool \<Rightarrow> string \<Rightarrow> uuid \<Rightarrow> string option \<Rightarrow>
   remediation_view cmd" where
  "decide_approval clk remediation_id approver approver_roles approve hash policy_decision_id comment =
     bindT (lock remediation_id) (\<lambda>row.
     bindT (getsT (approvals_of remediation_id)) (\<lambda>rows.
     bindT (scalar_one_or_none rows) (\<lambda>existing.
       let wanted = (if approve then Approved else Rejected)
       in case existing of
         Some a \<Rightarrow>
           (if ap_approver a = approver \<and> ap_decision a = wanted \<and> ap_proposal_hash a = hash
            then view remediation_id
            else raiseT (RemediationStateError (''remediation '' @ uuid_str remediation_id
                   @ '' already has a decision ('' @ approval_decision_value (ap_decision a) @ '')'')))
       | None \<Rightarrow>
           thenT (guardT (r_status row = R_AWAITING_APPROVAL)
                    (RemediationStateError (''remediation '' @ uuid_str remediation_id @ '' is ''
                       @ remediation_status_value (r_status row) @ '', not awaiting approval'')))
           (thenT (guardT (hash = r_proposal_hash row \<and> Some policy_decision_id = r_policy_decision_id row)
                    (ApprovalMismatchError
                      (''the approval does not match the current proposal and policy decision; ''
                       @ ''review the current proposal and approve that'')))
           (bindT (getsT (get_decision policy_decision_id)) (\<lambda>found.
            bindT (the_or found (AssertionFailed ''decision_row is not None'')) (\<lambda>decision_row.
              let eligible = filter (\<lambda>r. r \<in> set (d_required_approver_roles decision_row)) approver_roles;
                  role = (case eligible of [] \<Rightarrow> None | r # _ \<Rightarrow> Some r)
              in
              thenT (guardT (approve \<longrightarrow> eligible \<noteq> [])
                       (ApproverNotAuthorizedError (approver @ '' holds ''
                          @ repr_json (jstrs (sort approver_roles)) @ ''; this remediation needs one of ''
                          @ repr_json (jstrs (d_required_approver_roles decision_row)))))
              (thenT (guardT (\<not> (approve \<and> r_source row = ''operator'' \<and> r_proposed_by row = approver))
                       (ApproverNotAuthorizedError ''a proposer cannot approve their own proposal''))
              (thenT (insert_approval clk row wanted approver role comment)
              (bindT (lock_incident (r_incident_id row)) (\<lambda>incident.
               thenT (if approve
                      then approve_remediation clk remediation_id (i_id incident) (''human:'' @ approver)
                             (hd eligible) comment decision_row
                      else reject_remediation clk remediation_id (i_id incident) approver comment decision_row)
                 (view remediation_id))))))))))))"

text \<open>One iteration of the loop of \<^verbatim>\<open>expire_approvals\<close>, in its own transaction; true when it expired one.\<close>

definition expire_one :: "remediation_core \<Rightarrow> clock \<Rightarrow> uuid \<Rightarrow> bool cmd" where
  "expire_one core clk remediation_id =
     bindT (lock remediation_id) (\<lambda>row.
       if r_status row \<noteq> R_AWAITING_APPROVAL then returnT False
       else thenT (seqT
         [insert_approval clk row Timed_out ''system:approval-timeout'' None None,
          modifyT (set_remediation remediation_id (\<lambda>r. r\<lparr>r_approval_status := Some ''timed_out''\<rparr>)),
          bindT (lock_incident (r_incident_id row)) (\<lambda>incident.
            finish_cancelled clk remediation_id (i_id incident) ''approval_timed_out''
              ''system:approval-timeout''
              (''no approval within '' @ str_timedelta (rc_approval_timeout core))
              ESCALATED RemediationCancelled None)])
         (returnT True))"

definition expirable :: "remediation_core \<Rightarrow> clock \<Rightarrow> db \<Rightarrow> uuid list" where
  "expirable core clk s =
     map r_id (filter (\<lambda>r. r_status r = R_AWAITING_APPROVAL \<and>
       r_updated_at r < clk_now clk - rc_approval_timeout core) (remediations s))"

fun expire_each ::
  "remediation_core \<Rightarrow> clock \<Rightarrow> uuid list \<Rightarrow> db \<Rightarrow> (error + uuid list) \<times> db" where
  "expire_each core clk [] s = (Inr [], s)"
| "expire_each core clk (rid # rids) s =
     (case run_tx (expire_one core clk rid) s of
        (Inl e, s') \<Rightarrow> (Inl e, s')
      | (Inr expired, s') \<Rightarrow>
          (case expire_each core clk rids s' of
             (Inl e, s'') \<Rightarrow> (Inl e, s'')
           | (Inr rest, s'') \<Rightarrow> (Inr (if expired then rid # rest else rest), s'')))"

definition expire_approvals ::
  "remediation_core \<Rightarrow> clock \<Rightarrow> db \<Rightarrow> (error + uuid list) \<times> db" where
  "expire_approvals core clk s = expire_each core clk (expirable core clk s) s"

definition cancel :: "clock \<Rightarrow> uuid \<Rightarrow> string \<Rightarrow> string \<Rightarrow> remediation_view cmd" where
  "cancel clk remediation_id actor reason =
     bindT (lock remediation_id) (\<lambda>row.
     thenT (guardT (r_status row \<in> {R_AWAITING_APPROVAL, R_APPROVED})
              (RemediationStateError (''cannot cancel a remediation that is ''
                 @ remediation_status_value (r_status row))))
     (bindT (lock_incident (r_incident_id row)) (\<lambda>incident.
      thenT (finish_cancelled clk remediation_id (i_id incident) ''cancelled'' actor reason RCA_READY
               RemediationCancelled None)
        (view remediation_id))))"

text \<open>The field constraints of \<^verbatim>\<open>RemediationProposal\<close>; constructing one that breaks them raises.\<close>

definition proposal_fields_ok :: "remediation_proposal \<Rightarrow> bool" where
  "proposal_fields_ok p \<longleftrightarrow>
     length (rp_action_id p) \<in> {1..64} \<and> length (rp_reason p) \<in> {1..1000} \<and>
     length (rp_expected_effect p) \<in> {1..1000} \<and>
     rp_source p \<in> {''planner'', ''operator'', ''model''} \<and> length (rp_proposed_by p) \<in> {1..128}"

definition revise ::
  "remediation_core \<Rightarrow> clock \<Rightarrow> uuid \<Rightarrow> json dict \<Rightarrow> string \<Rightarrow> string option \<Rightarrow> string \<Rightarrow> db \<Rightarrow>
   (error + remediation_view) \<times> db" where
  "revise core clk remediation_id parameters proposed_by reason idempotency_key s =
     (case run_tx (view remediation_id) s of
        (Inl e, s0) \<Rightarrow> (Inl e, s0)
      | (Inr (old, _), s0) \<Rightarrow>
          (case run_tx (cancel clk remediation_id (''operator:'' @ proposed_by) ''superseded by revision'') s0 of
             (Inl e, s1) \<Rightarrow> (Inl e, s1)
           | (Inr _, s1) \<Rightarrow>
               (let proposal = \<lparr>rp_incident_id = r_incident_id old,
                      rp_investigation_id = r_investigation_id old, rp_action_id = r_action_id old,
                      rp_parameters = parameters,
                      rp_reason = (case reason of Some (c # cs) \<Rightarrow> c # cs | _ \<Rightarrow> r_reason old),
                      rp_expected_effect = r_expected_effect old, rp_source = ''operator'',
                      rp_proposed_by = proposed_by\<rparr>
                in if proposal_fields_ok proposal
                   then run_tx (propose core clk proposal idempotency_key (Some (r_correlation_id old))) s1
                   else (Inl (ValueError ''RemediationProposal''), s1))))"

subsection \<open>Execution\<close>

definition execution_blocker ::
  "remediation_core \<Rightarrow> remediation_row \<Rightarrow> action_catalog_entry option \<Rightarrow> (string \<times> string) option cmd" where
  "execution_blocker core row entry =
     bindT (getsT engaged_scopes) (\<lambda>switches.
       if GLOBAL_SCOPE \<in> switches \<or> service_scope (r_target_service row) \<in> switches
       then returnT (Some (''kill_switch'', ''remediation kill switch engaged before execution''))
       else
         bindT (getsT (approvals_of (r_id row))) (\<lambda>rows.
         bindT (scalar_one_or_none rows) (\<lambda>approval.
           if (case approval of
                 None \<Rightarrow> True
               | Some a \<Rightarrow> ap_decision a \<noteq> Approved \<or> ap_proposal_hash a \<noteq> r_proposal_hash row \<or>
                           Some (ap_policy_decision_id a) \<noteq> r_policy_decision_id row)
           then returnT (Some (''approval_invalid'', ''no approval bound to this exact proposal''))
           else
             (case entry of
                None \<Rightarrow> returnT (Some (''catalog_changed'', ''catalog entry '' @ r_action_id row @ '' (''
                          @ r_catalog_version row @ '') is no longer current''))
              | Some e \<Rightarrow>
                  if r_catalog_version row \<noteq> CATALOG_VERSION
                  then returnT (Some (''catalog_changed'', ''catalog entry '' @ r_action_id row @ '' (''
                         @ r_catalog_version row @ '') is no longer current''))
                  else
                    (case validate (rc_model_validate core) e (r_parameters row) of (_, problems) \<Rightarrow>
                      if problems \<noteq> [] then returnT (Some (''invalid_parameters'', join ''; '' problems))
                      else if r_target_service row \<notin> set (rc_services core)
                      then returnT (Some (''target_invalid'', ''target '' @ r_target_service row
                             @ '' is no longer a known service''))
                      else if r_execution_attempts row \<ge> ac_max_attempts e
                      then returnT (Some (''attempts_exhausted'', str_int (r_execution_attempts row)
                             @ '' attempt(s) already made''))
                      else returnT None)))))"

text \<open>The worker that held the attempt died: its outcome is unknown, the claimer reconciles it.\<close>

definition interrupt_execution ::
  "clock \<Rightarrow> remediation_row \<Rightarrow> execution_row \<Rightarrow> string \<Rightarrow> int \<Rightarrow> execution_ticket cmd" where
  "interrupt_execution clk row latest owner lease_seconds =
     thenT (seqT
       [modifyT (set_execution (x_id latest) (\<lambda>x. x\<lparr>x_status := X_UNKNOWN,
          x_error := Some (''worker '' @ x_owner latest @ '' lost its lease mid-execution''),
          x_completed_at := Some (clk_now clk)\<rparr>)),
        modifyT (set_remediation (r_id row) (\<lambda>r. r\<lparr>r_execution_status := Some X_UNKNOWN,
          r_lease_owner := Some owner,
          r_lease_expires_at := Some (clk_now clk + seconds lease_seconds)\<rparr>)),
        add_timeline clk (r_id row) ''execution_interrupted'' (Some (r_status row)) (Some (r_status row))
          (''worker:'' @ owner)
          [(''execution_id'', jid (x_id latest)), (''previous_owner'', JStr (x_owner latest))] None])
     (ticket (r_id row) latest Reconcile)"

definition block_execution ::
  "clock \<Rightarrow> uuid \<Rightarrow> uuid \<Rightarrow> string \<Rightarrow> string \<Rightarrow> unit cmd" where
  "block_execution clk remediation_id incident_id code txt =
     (if code = ''kill_switch''
      then finish_cancelled clk remediation_id incident_id ''cancelled'' ''system:kill-switch'' txt
             ESCALATED RemediationCancelled None
      else finish_failed clk remediation_id incident_id code txt ''system:pre-execution'')"

definition new_execution_row ::
  "clock \<Rightarrow> remediation_row \<Rightarrow> action_catalog_entry \<Rightarrow> string \<Rightarrow> uuid \<Rightarrow> execution_row" where
  "new_execution_row clk row entry owner xid =
     (let attempt = r_execution_attempts row + 1
      in \<lparr>x_id = xid, x_remediation_id = r_id row, x_attempt_number = attempt,
          x_idempotency_key = uuid_str (r_id row) @ '':'' @ str_int attempt, x_status = X_RUNNING,
          x_executor = ''pending'', x_owner = owner, x_started_at = clk_now clk,
          x_deadline_at = clk_now clk + seconds (ac_timeout_seconds entry), x_completed_at = None,
          x_result = None, x_error = None\<rparr>)"

definition begin_attempt ::
  "clock \<Rightarrow> int \<Rightarrow> action_catalog_entry \<Rightarrow> string \<Rightarrow> int \<Rightarrow> remediation_row \<Rightarrow> remediation_row" where
  "begin_attempt clk attempt entry owner lease_seconds r =
     r\<lparr>r_execution_attempts := attempt, r_execution_status := Some X_RUNNING,
       r_lease_owner := Some owner,
       r_lease_expires_at := Some (clk_now clk
         + seconds (max lease_seconds (ac_timeout_seconds entry + 30)))\<rparr>"

definition start_execution ::
  "clock \<Rightarrow> remediation_row \<Rightarrow> action_catalog_entry \<Rightarrow> string \<Rightarrow> int \<Rightarrow> execution_ticket cmd" where
  "start_execution clk row entry owner lease_seconds =
     bindT new_uuid (\<lambda>xid.
       let execution = new_execution_row clk row entry owner xid
       in thenT (seqT
         [modifyT (add_execution execution),
          modifyT (set_remediation (r_id row)
            (begin_attempt clk (x_attempt_number execution) entry owner lease_seconds)),
          transition clk (r_id row) R_EXECUTING ''execution_started'' (''worker:'' @ owner)
            [(''execution_id'', jid xid), (''attempt'', JInt (x_attempt_number execution)),
             (''idempotency_key'', JStr (x_idempotency_key execution)),
             (''deadline'', JStr (isoformat (x_deadline_at execution)))] None,
          remediation_event clk (r_id row) RemediationStarted (''worker:'' @ owner) None])
       (ticket (r_id row) execution Execute))"

definition lease_live :: "clock \<Rightarrow> remediation_row \<Rightarrow> bool" where
  "lease_live clk row = (case r_lease_expires_at row of Some t \<Rightarrow> t > clk_now clk | None \<Rightarrow> False)"

definition begin_execution ::
  "remediation_core \<Rightarrow> clock \<Rightarrow> remediation_row \<Rightarrow> string \<Rightarrow> int \<Rightarrow> (execution_ticket option) cmd" where
  "begin_execution core clk row owner lease_seconds =
     bindT (lock_incident (r_incident_id row)) (\<lambda>incident.
       let entry = get_entry (r_action_id row)
       in bindT (execution_blocker core row entry) (\<lambda>blocker.
          case blocker of
            Some (code, txt) \<Rightarrow>
              thenT (block_execution clk (r_id row) (i_id incident) code txt) (returnT None)
          | None \<Rightarrow>
              bindT (the_or entry (AssertionFailed ''entry is not None'')) (\<lambda>e.
              bindT (start_execution clk row e owner lease_seconds) (\<lambda>t. returnT (Some t)))))"

definition claim_execution ::
  "remediation_core \<Rightarrow> clock \<Rightarrow> uuid \<Rightarrow> string \<Rightarrow> int \<Rightarrow> (execution_ticket option) cmd" where
  "claim_execution core clk remediation_id owner lease_seconds =
     bindT (lock remediation_id) (\<lambda>row.
       if r_status row \<noteq> R_APPROVED \<and> r_status row \<noteq> R_EXECUTING then returnT None
       else
         bindT (getsT (latest_execution remediation_id)) (\<lambda>latest.
           if map_option x_status latest = Some X_RUNNING then
             (if lease_live clk row then returnT None
              else bindT (interrupt_execution clk row (the latest) owner lease_seconds) (\<lambda>t.
                     returnT (Some t)))
           else begin_execution core clk row owner lease_seconds))"

subsection \<open>Completion\<close>

text \<open>A row of \<^verbatim>\<open>verification_evidence\<close>: its evidence must be registered and its key must be new.\<close>

definition link_evidence :: "uuid \<Rightarrow> uuid \<Rightarrow> int \<Rightarrow> string \<Rightarrow> datetime \<Rightarrow> unit cmd" where
  "link_evidence verification_id evidence_id poll_sequence role collected_at =
     bindT (getsT (\<lambda>s. evidence_id \<in> set (map er_id (evidence_refs s)) \<and>
              (verification_id, evidence_id) \<notin>
                set (map (\<lambda>e. (ve_verification_id e, ve_evidence_id e)) (verification_evidence s)))) (\<lambda>ok.
     thenT (guardT ok (IntegrityError ''verification_evidence''))
       (modifyT (\<lambda>s. s\<lparr>verification_evidence := verification_evidence s @
          [\<lparr>ve_verification_id = verification_id, ve_evidence_id = evidence_id,
            ve_poll_sequence = poll_sequence, ve_role = role, ve_collected_at = collected_at\<rparr>]\<rparr>)))"

definition check_spec_json :: "check_spec \<Rightarrow> json" where
  "check_spec_json c = JObj
     [(''kind'', JStr (check_kind_value (cs_kind c))), (''metric'', jopt JStr (cs_metric c)),
      (''max_value'', jopt JFloat (cs_max_value c)), (''key'', jopt JStr (cs_key c)),
      (''expected'', cs_expected c), (''definitive'', JBool (cs_definitive c))]"

definition spec_json :: "verification_spec \<Rightarrow> json" where
  "spec_json v = JObj
     [(''policy_version'', JStr (vs_policy_version v)), (''action_id'', JStr (vs_action_id v)),
      (''target_service'', JStr (vs_target_service v)), (''grace_seconds'', JFloat (vs_grace_seconds v)),
      (''window_seconds'', JFloat (vs_window_seconds v)),
      (''poll_interval_seconds'', JFloat (vs_poll_interval_seconds v)),
      (''timeout_seconds'', JFloat (vs_timeout_seconds v)),
      (''required_consecutive'', JInt (vs_required_consecutive v)),
      (''checks'', JList (map check_spec_json (vs_checks v)))]"

definition baseline_doc :: "baseline_row \<Rightarrow> json dict" where
  "baseline_doc b = dmerge (b_values b)
     [(''evidence_ids'', JList (map jid (b_evidence_ids b))),
      (''captured_at'', JStr (isoformat (b_captured_at b)))]"

definition new_verification_row ::
  "clock \<Rightarrow> remediation_row \<Rightarrow> verification_spec \<Rightarrow> json dict option \<Rightarrow> uuid \<Rightarrow> verification_row" where
  "new_verification_row clk row spec doc vid =
     \<lparr>v_id = vid, v_incident_id = r_incident_id row, v_remediation_id = r_id row,
      v_verification_type = r_action_id row, v_policy_version = vs_policy_version spec,
      v_spec = spec, v_baseline = doc, v_status = V_PENDING, v_consecutive_successes = 0,
      v_observation_count = 0, v_conclusive_count = 0, v_result = None, v_failure_reason = None,
      v_next_action = None, v_correlation_id = r_correlation_id row, v_grace_until = None,
      v_deadline_at = None, v_next_poll_at = None, v_lease_owner = None, v_lease_expires_at = None,
      v_claim_attempt = 0, v_known_alert_ids = [], v_started_at = None, v_completed_at = None,
      v_created_at = clk_now clk, v_updated_at = clk_now clk\<rparr>"

definition request_verification ::
  "remediation_core \<Rightarrow> clock \<Rightarrow> uuid \<Rightarrow> action_catalog_entry option \<Rightarrow> unit cmd" where
  "request_verification core clk remediation_id entry =
     bindT new_uuid (\<lambda>vid.
     thenT (modifyT (set_remediation remediation_id (\<lambda>r. r\<lparr>r_verification_ref := Some vid\<rparr>)))
     (bindT (lock remediation_id) (\<lambda>row.
      bindT (getsT (get_baseline remediation_id)) (\<lambda>baseline.
        let doc = map_option baseline_doc baseline;
            vpolicy = (case entry of Some e \<Rightarrow> ac_verification e
                       | None \<Rightarrow> VerificationPolicy 0 0 1 1 False [])
        in case build_spec vpolicy (r_action_id row) (r_parameters row) doc
                  (rc_verification_time_scale core) of
             Inl e \<Rightarrow> raiseT e
           | Inr spec \<Rightarrow>
               bindT (getsT (\<lambda>s. remediation_id \<in> set (map v_remediation_id (verifications s)))) (\<lambda>dup.
               thenT (guardT (\<not> dup) (IntegrityError ''verifications.remediation_id''))
               (seqT
                 [modifyT (add_verification (new_verification_row clk row spec doc vid)),
                  forT (case baseline of Some b \<Rightarrow> b_evidence_ids b | None \<Rightarrow> []) (\<lambda>evidence_id.
                    link_evidence vid evidence_id 0 ''baseline''
                      (case baseline of Some b \<Rightarrow> b_captured_at b | None \<Rightarrow> clk_now clk)),
                  add_timeline clk remediation_id ''verification_requested'' (Some R_EXECUTED)
                    (Some R_EXECUTED) ''incident-core''
                    [(''verification_id'', jid vid), (''requirements'', JList [spec_json spec])] None,
                  insert_outbox_event clk VerificationRequested Remediation (Agg_id remediation_id)
                    (Some (r_correlation_id row))
                    (VerificationRequestedPayload vid remediation_id (r_incident_id row)
                       (r_action_id row) (r_target_service row) [spec])]))))))"

definition complete_succeeded ::
  "remediation_core \<Rightarrow> clock \<Rightarrow> execution_row \<Rightarrow> remediation_row \<Rightarrow> uuid \<Rightarrow> string \<Rightarrow>
   json dict option \<Rightarrow> unit cmd" where
  "complete_succeeded core clk execution row incident_id actor result =
     seqT
       [modifyT (set_execution (x_id execution) (\<lambda>x. x\<lparr>x_status := X_SUCCEEDED\<rparr>)),
        modifyT (set_remediation (r_id row) (\<lambda>r. r\<lparr>r_execution_status := Some X_SUCCEEDED,
          r_lease_owner := None, r_lease_expires_at := None, r_completed_at := Some (clk_now clk)\<rparr>)),
        transition clk (r_id row) R_EXECUTED ''executed'' actor
          [(''execution_id'', jid (x_id execution)),
           (''result'', JObj (case result of Some d \<Rightarrow> d | None \<Rightarrow> []))] None,
        remediation_event clk (r_id row) RemediationExecuted actor None,
        request_verification core clk (r_id row) (get_entry (r_action_id row)),
        move_incident clk incident_id [REMEDIATION_IN_PROGRESS] VERIFYING ''remediation_executed'']"

definition can_retry :: "action_catalog_entry option \<Rightarrow> remediation_row \<Rightarrow> bool \<Rightarrow> bool" where
  "can_retry entry row retryable =
     (case entry of
        None \<Rightarrow> False
      | Some e \<Rightarrow> ac_retry_safe e \<and> retryable \<and> r_execution_attempts row < ac_max_attempts e)"

definition complete_unsuccessful ::
  "clock \<Rightarrow> execution_row \<Rightarrow> remediation_row \<Rightarrow> uuid \<Rightarrow> string \<Rightarrow> string \<Rightarrow> string option \<Rightarrow> bool \<Rightarrow>
   unit cmd" where
  "complete_unsuccessful clk execution row incident_id actor outcome err retryable =
     (let status = (if outcome = ''timed_out'' then X_TIMED_OUT else X_FAILED);
          entry = get_entry (r_action_id row)
      in seqT
       [modifyT (set_execution (x_id execution) (\<lambda>x. x\<lparr>x_status := status\<rparr>)),
        modifyT (set_remediation (r_id row) (\<lambda>r. r\<lparr>r_execution_status := Some status\<rparr>)),
        if can_retry entry row retryable
        then thenT (modifyT (set_remediation (r_id row) (\<lambda>r. r\<lparr>r_lease_owner := None,
                      r_lease_expires_at := None\<rparr>)))
               (add_timeline clk (r_id row) ''execution_attempt_failed'' (Some R_EXECUTING) (Some R_EXECUTING)
                  actor
                  [(''execution_id'', jid (x_id execution)), (''outcome'', JStr outcome),
                   (''error'', jopt JStr err), (''will_retry'', JBool True)] None)
        else finish_failed clk (r_id row) incident_id outcome
               (if outcome = ''timed_out'' \<and>
                   \<not> (case entry of Some e \<Rightarrow> ac_retry_safe e | None \<Rightarrow> False)
                then ''timed out; outcome unknown and the action is not retry-safe''
                else outcome @ '': '' @ (case err of Some e \<Rightarrow> e | None \<Rightarrow> ''no detail''))
               actor])"

definition complete_execution ::
  "remediation_core \<Rightarrow> clock \<Rightarrow> uuid \<Rightarrow> string \<Rightarrow> string \<Rightarrow> string \<Rightarrow> json dict option \<Rightarrow>
   string option \<Rightarrow> bool \<Rightarrow> remediation_view cmd" where
  "complete_execution core clk execution_id owner outcome executor result err retryable =
     bindT (getsT (get_execution execution_id)) (\<lambda>found.
     bindT (the_or found (RemediationNotFoundError (''execution '' @ uuid_str execution_id))) (\<lambda>execution.
     bindT (lock (x_remediation_id execution)) (\<lambda>row.
       if r_status row \<noteq> R_EXECUTING then view (r_id row)
       else
         thenT (guardT (r_lease_owner row = Some owner)
                  (LeaseLostError (owner @ '' does not hold remediation '' @ uuid_str (r_id row))))
         (if x_status execution \<noteq> X_RUNNING \<and> x_status execution \<noteq> X_UNKNOWN then view (r_id row)
          else
            let e = take 2000 (case err of Some t \<Rightarrow> t | None \<Rightarrow> []);
                recorded_error = (if e = [] then None else Some e);
                actor = ''executor:'' @ executor
            in thenT (modifyT (set_execution execution_id (\<lambda>x. x\<lparr>x_executor := executor,
                        x_completed_at := Some (clk_now clk), x_result := result,
                        x_error := recorded_error\<rparr>)))
            (bindT (lock_incident (r_incident_id row)) (\<lambda>incident.
             thenT (modifyT (set_remediation (r_id row) (\<lambda>r. r\<lparr>r_executor_result :=
                      Some (dmerge [(''attempt'', JInt (x_attempt_number execution))]
                              (case result of Some d \<Rightarrow> d | None \<Rightarrow> []))\<rparr>)))
             (thenT (if outcome = ''succeeded''
                     then complete_succeeded core clk execution row (i_id incident) actor result
                     else complete_unsuccessful clk execution row (i_id incident) actor outcome
                            recorded_error retryable)
               (view (r_id row)))))))))"

definition record_baseline ::
  "clock \<Rightarrow> uuid \<Rightarrow> string \<Rightarrow> json dict \<Rightarrow> uuid list \<Rightarrow> unit cmd" where
  "record_baseline clk remediation_id owner vals evidence_ids =
     bindT (lock remediation_id) (\<lambda>row.
     thenT (guardT (r_lease_owner row = Some owner \<and> r_status row = R_EXECUTING)
              (LeaseLostError (owner @ '' does not hold remediation '' @ uuid_str remediation_id)))
     (bindT (getsT (get_baseline remediation_id)) (\<lambda>existing.
        if existing \<noteq> None then returnT ()
        else seqT
          [modifyT (\<lambda>s. s\<lparr>baselines := baselines s @
             [\<lparr>b_remediation_id = remediation_id, b_status = ''captured'', b_values = vals,
               b_evidence_ids = evidence_ids, b_error = None, b_captured_at = clk_now clk\<rparr>]\<rparr>),
           add_timeline clk remediation_id ''baseline_captured'' (Some R_EXECUTING) (Some R_EXECUTING)
             (''worker:'' @ owner)
             [(''values'', JObj vals), (''evidence_ids'', JList (map jid evidence_ids))] None])))"

definition pending_executions :: "clock \<Rightarrow> db \<Rightarrow> uuid list" where
  "pending_executions clk s =
     map r_id (sort_key r_updated_at (filter (\<lambda>r. r_status r = R_APPROVED \<or>
       r_status r = R_EXECUTING \<and>
         (case r_lease_expires_at r of None \<Rightarrow> True | Some t \<Rightarrow> t < clk_now clk)) (remediations s)))"

subsection \<open>Kill switches and reads\<close>

definition set_kill_switch :: "clock \<Rightarrow> string \<Rightarrow> bool \<Rightarrow> string \<Rightarrow> string option \<Rightarrow> unit cmd" where
  "set_kill_switch clk scope engaged actor reason =
     thenT (guardT (scope = GLOBAL_SCOPE \<or> startswith scope ''service:'')
              (ValueError (''scope is '' @ repr_str ''global'' @ '' or '' @ repr_str ''service:<name>'')))
     (bindT (getsT (get_kill_switch scope)) (\<lambda>found.
      seqT
        [if found = None
         then modifyT (add_kill_switch \<lparr>k_scope = scope, k_engaged = False, k_changed_by = None,
                k_reason = None, k_changed_at = clk_now clk\<rparr>)
         else returnT (),
         modifyT (set_kill_switch_row scope (\<lambda>k. k\<lparr>k_engaged := engaged, k_changed_by := Some actor,
           k_reason := reason, k_changed_at := clk_now clk\<rparr>)),
         insert_outbox_event clk KillSwitchChanged KillSwitch (Agg_name (''kill-switch:'' @ scope)) None
           (KillSwitchChangedPayload scope engaged actor reason)]))"

definition list_for_incident :: "uuid \<Rightarrow> (remediation_view list) cmd" where
  "list_for_incident incident_id = getsT (\<lambda>s. map (view_of s)
     (sort_key r_created_at (filter (\<lambda>r. r_incident_id r = incident_id) (remediations s))))"

definition timeline_of :: "uuid \<Rightarrow> (timeline_row list) cmd" where
  "timeline_of remediation_id = getsT (\<lambda>s.
     sort_key t_sequence (filter (\<lambda>t. t_remediation_id t = remediation_id) (timeline s)))"

definition policy_decisions_of :: "uuid \<Rightarrow> (policy_decision_row list) cmd" where
  "policy_decisions_of remediation_id = getsT (\<lambda>s.
     sort_key d_evaluated_at (filter (\<lambda>d. d_remediation_id d = remediation_id) (policy_decisions s)))"

definition executions_of :: "uuid \<Rightarrow> (execution_row list) cmd" where
  "executions_of remediation_id = getsT (\<lambda>s.
     sort_key x_attempt_number (filter (\<lambda>x. x_remediation_id x = remediation_id) (executions s)))"

end
