(* ===== verification/Investigations.thy ===== *)
theory Investigations
  imports Remediations
begin

text \<open>
  \<^verbatim>\<open>packages/incident/investigations.py\<close>: the investigation commands of incident-core. A worker proposes
  steps, hypothesis updates and a conclusion; these commands decide what is written, each fenced by the
  lease the worker claimed.

  Pydantic's text of a timestamp (\<^verbatim>\<open>model_dump(mode="json")\<close> of the report's timeline) is the parameter
  \<open>nc_dump_datetime\<close>. The text of an identifier is read back by \<open>parse_uuid\<close>, which accepts exactly the
  texts \<open>uuid_str\<close> produces.
\<close>

record investigation_core =
  nc_criteria :: stopping_criteria
  nc_dump_datetime :: "datetime \<Rightarrow> string"

definition OPEN_INVESTIGATION :: "investigation_status list" where
  "OPEN_INVESTIGATION = [Inv_CREATED, Inv_INVESTIGATING]"

definition open_investigation :: "investigation_row \<Rightarrow> bool" where
  "open_investigation n \<longleftrightarrow> n_status n \<in> set OPEN_INVESTIGATION"

record started_investigation =
  si_investigation_id :: uuid
  si_incident_id :: uuid
  si_created :: bool

record investigation_state =
  is_investigation :: investigation_row
  is_steps :: "investigation_step_row list"
  is_hypotheses :: "hypothesis_snapshot dict"
  is_accessible_evidence :: "uuid list"
  is_evidence_types :: "(uuid \<times> string) list"

record hypothesis_update_outcome =
  uo_applied :: "json list"
  uo_rejected :: "json list"

record conclusion_outcome =
  co_accepted :: bool
  co_unmet_criteria :: "string list"
  co_rca_report_id :: "uuid option"

subsection \<open>Internals\<close>

definition lock_investigation :: "uuid \<Rightarrow> investigation_row cmd" where
  "lock_investigation investigation_id =
     bindT (getsT (get_investigation investigation_id)) (\<lambda>row.
       the_or row (InvestigationNotFoundError (uuid_str investigation_id)))"

definition fenced :: "uuid \<Rightarrow> string \<Rightarrow> investigation_row cmd" where
  "fenced investigation_id owner =
     bindT (lock_investigation investigation_id) (\<lambda>row.
       thenT (guardT (n_status row = Inv_INVESTIGATING \<and> n_lease_owner row = Some owner)
                (LeaseLostError (owner @ '' does not hold investigation '' @ uuid_str investigation_id
                   @ '' (status '' @ investigation_status_value (n_status row) @ '', owner ''
                   @ (case n_lease_owner row of Some w \<Rightarrow> w | None \<Rightarrow> ''None'') @ '')'')))
         (returnT row))"

definition steps_of :: "uuid \<Rightarrow> db \<Rightarrow> investigation_step_row list" where
  "steps_of investigation_id s =
     sort_key sp_sequence (filter (\<lambda>p. sp_investigation_id p = investigation_id) (investigation_steps s))"

definition next_step_sequence :: "uuid \<Rightarrow> db \<Rightarrow> int" where
  "next_step_sequence investigation_id s =
     foldr (\<lambda>p m. max (sp_sequence p) m)
       (filter (\<lambda>p. sp_investigation_id p = investigation_id) (investigation_steps s)) 0 + 1"

definition append_step ::
  "clock \<Rightarrow> uuid \<Rightarrow> step_kind \<Rightarrow> int \<Rightarrow> json dict \<Rightarrow> string option \<Rightarrow> int option \<Rightarrow> int cmd" where
  "append_step clk investigation_id kind iteration payload call_id latency_ms =
     bindT (getsT (next_step_sequence investigation_id)) (\<lambda>sequence.
     bindT new_uuid (\<lambda>pid.
     thenT (modifyT (\<lambda>s. s\<lparr>investigation_steps := investigation_steps s @
         [\<lparr>sp_id = pid, sp_investigation_id = investigation_id, sp_sequence = sequence,
           sp_iteration = iteration, sp_kind = kind, sp_call_id = call_id, sp_payload = payload,
           sp_latency_ms = latency_ms, sp_created_at = clk_now clk\<rparr>]\<rparr>))
       (returnT sequence)))"

definition parse_uuid :: "string \<Rightarrow> uuid option" where
  "parse_uuid txt =
     (let n = foldl (\<lambda>acc c. 10 * acc + (of_char c - 48)) 0 txt
      in if uuid_str n = txt then Some n else None)"

fun parse_uuids :: "json list \<Rightarrow> error + uuid list" where
  "parse_uuids [] = Inr []"
| "parse_uuids (JStr txt # js) =
     (case parse_uuid txt of
        None \<Rightarrow> Inl (ValueError ''badly formed hexadecimal UUID string'')
      | Some u \<Rightarrow> (case parse_uuids js of Inl e \<Rightarrow> Inl e | Inr us \<Rightarrow> Inr (u # us)))"
| "parse_uuids (j # js) = Inl (AttributeError ''replace'')"

text \<open>\<^verbatim>\<open>for e in payload.get("evidence_ids", [])\<close>: iterating a string or a dictionary yields strings.\<close>

definition payload_evidence_ids :: "json dict \<Rightarrow> error + uuid list" where
  "payload_evidence_ids payload =
     (case dget payload ''evidence_ids'' of
        None \<Rightarrow> Inr []
      | Some (JList js) \<Rightarrow> parse_uuids js
      | Some (JStr txt) \<Rightarrow> parse_uuids (map (\<lambda>c. JStr [c]) txt)
      | Some (JObj d) \<Rightarrow> parse_uuids (map (\<lambda>(k, _). JStr k) d)
      | Some _ \<Rightarrow> Inl (TypeError ''object is not iterable''))"

fun shown_evidence :: "investigation_step_row list \<Rightarrow> error + uuid list" where
  "shown_evidence [] = Inr []"
| "shown_evidence (p # ps) =
     (case payload_evidence_ids (sp_payload p) of
        Inl e \<Rightarrow> Inl e
      | Inr us \<Rightarrow> (case shown_evidence ps of Inl e \<Rightarrow> Inl e | Inr vs \<Rightarrow> Inr (us @ vs)))"

definition registered_evidence :: "uuid \<Rightarrow> db \<Rightarrow> uuid list" where
  "registered_evidence incident_id s =
     map er_id (filter (\<lambda>r. er_incident_id r = incident_id) (evidence_refs s))"

definition accessible_evidence :: "investigation_row \<Rightarrow> uuid list cmd" where
  "accessible_evidence row =
     bindT (getsT (\<lambda>s. shown_evidence (filter (\<lambda>p. sp_investigation_id p = n_id row \<and>
              sp_kind p \<in> {CONTEXT, TOOL_CALL}) (investigation_steps s)))) (\<lambda>shown.
     case shown of
       Inl e \<Rightarrow> raiseT e
     | Inr ids \<Rightarrow> getsT (\<lambda>s. filter (\<lambda>e. e \<in> set (registered_evidence (n_incident_id row) s)) (remdups ids)))"

definition evidence_types_of :: "uuid \<Rightarrow> db \<Rightarrow> (uuid \<times> string) list" where
  "evidence_types_of incident_id s =
     map (\<lambda>r. (er_id r, er_evidence_type r)) (filter (\<lambda>r. er_incident_id r = incident_id) (evidence_refs s))"

definition hypothesis_rows :: "uuid \<Rightarrow> db \<Rightarrow> hypothesis_row list" where
  "hypothesis_rows investigation_id s =
     sort_key h_created_at (sort_key h_key
       (filter (\<lambda>h. h_investigation_id h = investigation_id) (hypotheses s)))"

definition links_of :: "uuid \<Rightarrow> link_relation \<Rightarrow> db \<Rightarrow> uuid list" where
  "links_of hypothesis_id relation s =
     map hl_evidence_id (filter (\<lambda>l. hl_relation l = relation)
       (sort_key hl_linked_at (sort_key hl_evidence_id
         (filter (\<lambda>l. hl_hypothesis_id l = hypothesis_id) (hypothesis_links s)))))"

definition snapshot_of :: "db \<Rightarrow> hypothesis_row \<Rightarrow> hypothesis_snapshot" where
  "snapshot_of s r =
     \<lparr>hs_key = h_key r, hs_description = h_description r, hs_status = h_status r,
      hs_confidence = map_option rnd (h_confidence r),
      hs_supporting = links_of (h_id r) Supports s, hs_contradicting = links_of (h_id r) Contradicts s,
      hs_missing_evidence = h_missing_evidence r, hs_cause_category = h_cause_category r,
      hs_component = h_component r\<rparr>"

definition snapshots :: "hypothesis_row list \<Rightarrow> db \<Rightarrow> hypothesis_snapshot dict" where
  "snapshots rows s = dmerge [] (map (\<lambda>r. (h_key r, snapshot_of s r)) rows)"

definition status_event ::
  "clock \<Rightarrow> uuid \<Rightarrow> incident_status \<Rightarrow> string \<Rightarrow> unit cmd" where
  "status_event clk incident_id from_status reason =
     bindT (lock_incident incident_id) (\<lambda>incident.
       insert_outbox_event clk IncidentStatusChanged Incident (Agg_id incident_id) (Some incident_id)
         (IncidentStatusChangedPayload incident_id from_status (i_status incident) reason
            (i_version incident)))"

definition move_investigated ::
  "clock \<Rightarrow> uuid \<Rightarrow> incident_status \<Rightarrow> string \<Rightarrow> unit cmd" where
  "move_investigated clk incident_id to_status reason =
     bindT (getsT (get_incident incident_id)) (\<lambda>found.
     bindT (the_or found (AssertionFailed ''incident is not None'')) (\<lambda>incident.
       if i_status incident \<noteq> INVESTIGATING then returnT ()
       else
         bindT (transition_incident_status incident to_status (clk_now clk) False) (\<lambda>moved.
         thenT (guardT moved (ConcurrentModificationError
                  (''incident '' @ uuid_str incident_id @ '' changed concurrently'')))
           (status_event clk incident_id INVESTIGATING reason))))"

definition to_decimal :: "float64 \<Rightarrow> rat" where
  "to_decimal value = of_int (round_half_even (value * 100)) / 100"

text \<open>The key of \<^verbatim>\<open>max(candidates, key=...)\<close>, compared as a tuple; the first maximal candidate wins.\<close>

definition leading_less :: "hypothesis_snapshot \<Rightarrow> hypothesis_snapshot \<Rightarrow> bool" where
  "leading_less a b =
     (let ca = (case hs_confidence a of Some c \<Rightarrow> c | None \<Rightarrow> 0);
          cb = (case hs_confidence b of Some c \<Rightarrow> c | None \<Rightarrow> 0);
          na = length (hs_supporting a); nb = length (hs_supporting b)
      in ca < cb \<or> ca = cb \<and> (na < nb \<or> na = nb \<and> hs_key a < hs_key b))"

definition leading :: "hypothesis_snapshot dict \<Rightarrow> hypothesis_snapshot option" where
  "leading snaps =
     (case filter (\<lambda>h. hs_status h \<in> {H_SUPPORTED, H_ACTIVE}) (map snd snaps) of
        [] \<Rightarrow> None
      | h # hs \<Rightarrow> Some (foldl (\<lambda>best c. if leading_less best c then c else best) h hs))"

subsection \<open>Starting\<close>

definition new_investigation_row ::
  "clock \<Rightarrow> uuid \<Rightarrow> int \<Rightarrow> string \<Rightarrow> string \<Rightarrow> json dict \<Rightarrow> investigation_budget \<Rightarrow> uuid \<Rightarrow> investigation_row" where
  "new_investigation_row clk incident_id attempt provider name settings budget nid =
     \<lparr>n_id = nid, n_incident_id = incident_id, n_attempt_number = attempt, n_status = Inv_CREATED,
      n_model_provider = provider, n_model_name = name, n_model_config = settings, n_budget = budget,
      n_iteration_count = 0, n_tool_call_count = 0, n_evidence_count = 0, n_input_tokens = 0,
      n_output_tokens = 0, n_cache_read_tokens = 0, n_cache_creation_tokens = 0, n_last_action = None,
      n_failure_reason = None, n_escalation_reason = None, n_inconclusive_reason = None,
      n_selected_hypothesis_id = None, n_final_result = None, n_lease_owner = None,
      n_lease_expires_at = None, n_created_at = clk_now clk, n_started_at = None,
      n_completed_at = None, n_updated_at = clk_now clk\<rparr>"

definition create_investigation ::
  "clock \<Rightarrow> incident_row \<Rightarrow> string \<Rightarrow> string \<Rightarrow> json dict \<Rightarrow> investigation_budget \<Rightarrow> started_investigation cmd" where
  "create_investigation clk incident provider name settings budget =
     (let iid = i_id incident; attempt = i_attempt_count incident + 1
      in thenT (modifyT (set_incident iid (\<lambda>r. r\<lparr>i_attempt_count := attempt\<rparr>)))
        (bindT (transition_incident_status incident INVESTIGATING (clk_now clk) False) (\<lambda>moved.
         thenT (guardT moved (ConcurrentModificationError
                  (''incident '' @ uuid_str iid @ '' changed concurrently'')))
        (bindT new_uuid (\<lambda>nid.
         bindT (getsT (\<lambda>s. (iid, attempt) \<in>
                  set (map (\<lambda>n. (n_incident_id n, n_attempt_number n)) (investigations s)))) (\<lambda>dup.
         thenT (guardT (\<not> dup) (IntegrityError ''uq_investigations_attempt''))
           (thenT (seqT
              [modifyT (add_investigation
                 (new_investigation_row clk iid attempt provider name settings budget nid)),
               status_event clk iid (i_status incident)
                 (if i_status incident = TRIAGING then ''investigation_started''
                  else ''reinvestigation_after_failed_verification''),
               insert_outbox_event clk InvestigationStarted Investigation (Agg_id nid) (Some iid)
                 (InvestigationStartedPayload nid iid attempt provider name)])
             (returnT \<lparr>si_investigation_id = nid, si_incident_id = iid, si_created = True\<rparr>))))))))"

definition request_investigation ::
  "clock \<Rightarrow> uuid \<Rightarrow> string \<Rightarrow> string \<Rightarrow> json dict \<Rightarrow> investigation_budget \<Rightarrow> started_investigation cmd" where
  "request_investigation clk incident_id model_provider model_name model_settings budget =
     bindT (lock_incident incident_id) (\<lambda>incident.
     bindT (getsT (\<lambda>s. filter (\<lambda>n. n_incident_id n = incident_id \<and> open_investigation n)
              (investigations s))) (\<lambda>rows.
     bindT (scalar_one_or_none rows) (\<lambda>existing.
       case existing of
         Some n \<Rightarrow> returnT \<lparr>si_investigation_id = n_id n, si_incident_id = incident_id, si_created = False\<rparr>
       | None \<Rightarrow>
           thenT (guardT (i_status incident = TRIAGING \<or> i_status incident = VERIFICATION_FAILED)
                    (InvalidIncidentTransitionError (''incident '' @ uuid_str incident_id @ '' is ''
                       @ incident_status_value (i_status incident)
                       @ '', not TRIAGING or VERIFICATION_FAILED'')))
           (bindT (count_firing_alerts incident_id) (\<lambda>firing.
            thenT (guardT (firing \<noteq> 0)
                     (InvalidIncidentTransitionError (''incident '' @ uuid_str incident_id
                        @ '' has no firing alert; nothing to investigate'')))
              (create_investigation clk incident model_provider model_name model_settings budget))))))"

definition due_for_investigation :: "clock \<Rightarrow> int \<Rightarrow> nat \<Rightarrow> db \<Rightarrow> uuid list" where
  "due_for_investigation clk debounce_seconds limit s =
     map i_id (take limit (sort_key i_created_at
       (filter (\<lambda>i. (i_status i = TRIAGING \<and> i_created_at i \<le> clk_now clk - seconds debounce_seconds \<or>
                     i_status i = VERIFICATION_FAILED) \<and>
                    (\<exists>a \<in> set (alerts s). a_incident_id a = Some (i_id i) \<and> a_status a = Alert_FIRING))
          (incidents s))))"

subsection \<open>Claims and leases\<close>

definition load_state :: "uuid \<Rightarrow> investigation_state cmd" where
  "load_state investigation_id =
     bindT (lock_investigation investigation_id) (\<lambda>row.
     bindT (accessible_evidence row) (\<lambda>accessible.
       getsT (\<lambda>s.
         \<lparr>is_investigation = row, is_steps = steps_of investigation_id s,
          is_hypotheses = snapshots (hypothesis_rows investigation_id s) s,
          is_accessible_evidence = accessible,
          is_evidence_types = evidence_types_of (n_incident_id row) s\<rparr>)))"

text \<open>The first transaction of \<^verbatim>\<open>claim\<close>; true when it took or kept the lease.\<close>

definition take_lease :: "clock \<Rightarrow> uuid \<Rightarrow> string \<Rightarrow> int \<Rightarrow> bool cmd" where
  "take_lease clk investigation_id owner lease_seconds =
     bindT (lock_investigation investigation_id) (\<lambda>row.
       let now = clk_now clk;
           live = (case n_lease_expires_at row of Some t \<Rightarrow> t > now | None \<Rightarrow> False)
       in if n_status row \<in> set TERMINAL_INVESTIGATION_STATUSES then returnT False
          else if live \<and> n_lease_owner row \<noteq> Some owner then returnT False
          else
            thenT (modifyT (set_investigation investigation_id (\<lambda>n. n\<lparr>n_status := Inv_INVESTIGATING,
                n_lease_owner := Some owner, n_lease_expires_at := Some (now + seconds lease_seconds),
                n_started_at := (case n_started_at n of Some t \<Rightarrow> Some t | None \<Rightarrow> Some now),
                n_updated_at := now\<rparr>)))
              (returnT True))"

definition claim_investigation ::
  "clock \<Rightarrow> uuid \<Rightarrow> string \<Rightarrow> int \<Rightarrow> db \<Rightarrow> (error + investigation_state option) \<times> db" where
  "claim_investigation clk investigation_id owner lease_seconds s =
     (case run_tx (take_lease clk investigation_id owner lease_seconds) s of
        (Inl e, s') \<Rightarrow> (Inl e, s')
      | (Inr False, s') \<Rightarrow> (Inr None, s')
      | (Inr True, s') \<Rightarrow>
          (case run_tx (load_state investigation_id) s' of
             (Inl e, s'') \<Rightarrow> (Inl e, s'')
           | (Inr state, s'') \<Rightarrow> (Inr (Some state), s'')))"

definition resumable :: "clock \<Rightarrow> nat \<Rightarrow> db \<Rightarrow> uuid list" where
  "resumable clk limit s =
     map n_id (take limit (sort_key n_created_at
       (filter (\<lambda>n. open_investigation n \<and>
          (case n_lease_expires_at n of None \<Rightarrow> True | Some t \<Rightarrow> t \<le> clk_now clk)) (investigations s))))"

definition release :: "clock \<Rightarrow> uuid \<Rightarrow> string \<Rightarrow> unit cmd" where
  "release clk investigation_id owner =
     bindT (lock_investigation investigation_id) (\<lambda>row.
       if n_lease_owner row = Some owner
       then modifyT (set_investigation investigation_id (\<lambda>n. n\<lparr>n_lease_expires_at := Some (clk_now clk)\<rparr>))
       else returnT ())"

subsection \<open>The trace\<close>

record step_report =
  sr_kind :: step_kind
  sr_iteration :: int
  sr_payload :: "json dict"
  sr_call_id :: "string option"
  sr_latency_ms :: "int option"
  sr_usage :: "int dict option"
  sr_tool_call :: bool
  sr_new_evidence :: int
  sr_last_action :: "string option"

definition usage_of :: "int dict option \<Rightarrow> string \<Rightarrow> int" where
  "usage_of usage k = (case usage of None \<Rightarrow> 0 | Some d \<Rightarrow> (case dget d k of None \<Rightarrow> 0 | Some v \<Rightarrow> v))"

definition count_step :: "clock \<Rightarrow> step_report \<Rightarrow> int \<Rightarrow> investigation_row \<Rightarrow> investigation_row" where
  "count_step clk r lease_seconds n = n\<lparr>
     n_iteration_count := (if sr_kind r = MODEL_TURN then max (n_iteration_count n) (sr_iteration r)
                           else n_iteration_count n),
     n_input_tokens := n_input_tokens n + usage_of (sr_usage r) ''input_tokens'',
     n_output_tokens := n_output_tokens n + usage_of (sr_usage r) ''output_tokens'',
     n_cache_read_tokens := n_cache_read_tokens n + usage_of (sr_usage r) ''cache_read_input_tokens'',
     n_cache_creation_tokens := n_cache_creation_tokens n
       + usage_of (sr_usage r) ''cache_creation_input_tokens'',
     n_tool_call_count := n_tool_call_count n + (if sr_tool_call r then 1 else 0),
     n_evidence_count := n_evidence_count n + sr_new_evidence r,
     n_last_action := (case sr_last_action r of Some (c # cs) \<Rightarrow> Some (take 200 (c # cs)) | _ \<Rightarrow> n_last_action n),
     n_lease_expires_at := Some (clk_now clk + seconds lease_seconds), n_updated_at := clk_now clk\<rparr>"

definition record_step :: "clock \<Rightarrow> uuid \<Rightarrow> string \<Rightarrow> step_report \<Rightarrow> int \<Rightarrow> int cmd" where
  "record_step clk investigation_id owner r lease_seconds =
     bindT (fenced investigation_id owner) (\<lambda>row.
     bindT (append_step clk investigation_id (sr_kind r) (sr_iteration r) (sr_payload r) (sr_call_id r)
              (sr_latency_ms r)) (\<lambda>sequence.
     thenT (modifyT (set_investigation investigation_id (count_step clk r lease_seconds)))
       (returnT sequence)))"

subsection \<open>Hypotheses\<close>

definition find_hypothesis :: "uuid \<Rightarrow> string \<Rightarrow> db \<Rightarrow> hypothesis_row option" where
  "find_hypothesis investigation_id k s =
     find (\<lambda>h. h_investigation_id h = investigation_id \<and> h_key h = k) (hypotheses s)"

definition new_hypothesis_row :: "clock \<Rightarrow> uuid \<Rightarrow> hypothesis_update \<Rightarrow> uuid \<Rightarrow> hypothesis_row" where
  "new_hypothesis_row clk investigation_id u hid =
     \<lparr>h_id = hid, h_investigation_id = investigation_id, h_key = hu_key u,
      h_description = (case hu_description u of Some d \<Rightarrow> d | None \<Rightarrow> []),
      h_status = (case hu_status u of Some st \<Rightarrow> settable st | None \<Rightarrow> H_ACTIVE),
      h_confidence = map_option to_decimal (hu_confidence u),
      h_missing_evidence = (case hu_missing_evidence u of Some m \<Rightarrow> m | None \<Rightarrow> []),
      h_cause_category = hu_cause_category u, h_component = hu_component u,
      h_created_at = clk_now clk, h_updated_at = clk_now clk\<rparr>"

definition change_hypothesis :: "clock \<Rightarrow> hypothesis_update \<Rightarrow> hypothesis_row \<Rightarrow> hypothesis_row" where
  "change_hypothesis clk u h = h\<lparr>
     h_description := (case hu_description u of Some (c # cs) \<Rightarrow> c # cs | _ \<Rightarrow> h_description h),
     h_status := (case hu_status u of Some st \<Rightarrow> settable st | None \<Rightarrow> h_status h),
     h_confidence := (case hu_confidence u of Some c \<Rightarrow> Some (to_decimal c) | None \<Rightarrow> h_confidence h),
     h_missing_evidence := (case hu_missing_evidence u of Some m \<Rightarrow> m | None \<Rightarrow> h_missing_evidence h),
     h_updated_at := clk_now clk\<rparr>"

text \<open>\<^verbatim>\<open>INSERT ... ON CONFLICT (hypothesis_id, evidence_id) DO NOTHING\<close>, with the foreign key.\<close>

definition link_hypothesis :: "clock \<Rightarrow> uuid \<Rightarrow> link_relation \<Rightarrow> uuid \<Rightarrow> unit cmd" where
  "link_hypothesis clk hypothesis_id relation evidence_id =
     bindT (getsT (\<lambda>s. (hypothesis_id, evidence_id) \<in>
              set (map (\<lambda>l. (hl_hypothesis_id l, hl_evidence_id l)) (hypothesis_links s)))) (\<lambda>conflict.
       if conflict then returnT ()
       else
         bindT (getsT (\<lambda>s. evidence_id \<in> set (map er_id (evidence_refs s)))) (\<lambda>known.
         thenT (guardT known (IntegrityError ''hypothesis_evidence_links.evidence_id''))
           (modifyT (\<lambda>s. s\<lparr>hypothesis_links := hypothesis_links s @
              [\<lparr>hl_hypothesis_id = hypothesis_id, hl_evidence_id = evidence_id, hl_relation = relation,
                hl_linked_at = clk_db clk\<rparr>]\<rparr>))))"

definition applied_json :: "hypothesis_update \<Rightarrow> hypothesis_status option \<Rightarrow> hypothesis_row \<Rightarrow> json" where
  "applied_json u from_status h = JObj
     [(''key'', JStr (hu_key u)), (''cause_category'', jopt JStr (h_cause_category h)),
      (''component'', jopt JStr (h_component h)),
      (''from_status'', jopt (\<lambda>st. JStr (hypothesis_status_value st)) from_status),
      (''to_status'', JStr (hypothesis_status_value (h_status h))),
      (''confidence'', jopt JFloat (hu_confidence u)),
      (''added_supporting'', JList (map jid (hu_supporting_evidence_ids u))),
      (''added_contradicting'', JList (map jid (hu_contradicting_evidence_ids u))),
      (''rationale'', JStr (hu_rationale u))]"

text \<open>An accepted update: the row is created or changed, and the evidence is linked.\<close>

definition store_hypothesis :: "clock \<Rightarrow> uuid \<Rightarrow> hypothesis_update \<Rightarrow> hypothesis_row option \<Rightarrow> uuid cmd" where
  "store_hypothesis clk investigation_id u existing =
     (case existing of
        None \<Rightarrow> bindT new_uuid (\<lambda>hid.
          thenT (modifyT (add_hypothesis (new_hypothesis_row clk investigation_id u hid))) (returnT hid))
      | Some h \<Rightarrow> thenT (modifyT (set_hypothesis (h_id h) (change_hypothesis clk u))) (returnT (h_id h)))"

definition apply_update ::
  "clock \<Rightarrow> uuid \<Rightarrow> hypothesis_update \<Rightarrow> (hypothesis_snapshot \<times> json) cmd" where
  "apply_update clk investigation_id u =
     bindT (getsT (find_hypothesis investigation_id (hu_key u))) (\<lambda>existing.
     bindT (store_hypothesis clk investigation_id u existing) (\<lambda>hid.
     thenT (forT (hu_supporting_evidence_ids u) (link_hypothesis clk hid Supports))
     (thenT (forT (hu_contradicting_evidence_ids u) (link_hypothesis clk hid Contradicts))
     (bindT (getsT (get_hypothesis hid)) (\<lambda>found.
      bindT (the_or found (AssertionFailed ''hypothesis'')) (\<lambda>row.
        getsT (\<lambda>s. (snapshot_of s row, applied_json u (map_option h_status existing) row))))))))"

fun apply_updates ::
  "clock \<Rightarrow> uuid \<Rightarrow> uuid list \<Rightarrow> hypothesis_update list \<Rightarrow> hypothesis_snapshot dict \<Rightarrow>
   (hypothesis_snapshot dict \<times> json list \<times> json list) cmd" where
  "apply_updates clk investigation_id accessible [] snaps = returnT (snaps, [], [])"
| "apply_updates clk investigation_id accessible (u # us) snaps =
     (let problems = check_hypothesis_update u (dget snaps (hu_key u)) accessible
      in if problems \<noteq> [] then
           bindT (apply_updates clk investigation_id accessible us snaps) (\<lambda>(snaps', applied, rejected).
             returnT (snaps', applied,
               JObj [(''key'', JStr (hu_key u)), (''problems'', JList (map JStr problems))] # rejected))
         else
           bindT (apply_update clk investigation_id u) (\<lambda>(snap, entry).
           bindT (apply_updates clk investigation_id accessible us (dset snaps (hu_key u) snap))
             (\<lambda>(snaps', applied, rejected). returnT (snaps', entry # applied, rejected))))"

definition apply_hypothesis_updates ::
  "clock \<Rightarrow> uuid \<Rightarrow> string \<Rightarrow> int \<Rightarrow> string \<Rightarrow> hypothesis_update_batch \<Rightarrow> hypothesis_update_outcome cmd" where
  "apply_hypothesis_updates clk investigation_id owner iteration call_id batch =
     bindT (fenced investigation_id owner) (\<lambda>row.
     bindT (accessible_evidence row) (\<lambda>accessible.
     bindT (getsT (\<lambda>s. snapshots (hypothesis_rows investigation_id s) s)) (\<lambda>snaps.
     bindT (apply_updates clk investigation_id accessible batch snaps) (\<lambda>(snaps', applied, rejected).
     bindT (append_step clk investigation_id HYPOTHESIS_UPDATE iteration
              [(''applied'', JList applied), (''rejected'', JList rejected),
               (''hypotheses'', JList (map (\<lambda>(_, h). snapshot_json h) snaps'))] (Some call_id) None) (\<lambda>_.
     thenT (modifyT (set_investigation investigation_id (\<lambda>n. n\<lparr>
              n_last_action := Some (''update_hypotheses: '' @ str_nat (length applied) @ '' applied, ''
                @ str_nat (length rejected) @ '' rejected''), n_updated_at := clk_now clk\<rparr>)))
       (returnT \<lparr>uo_applied = applied, uo_rejected = rejected\<rparr>))))))"

subsection \<open>The report\<close>

definition statement_json :: "grounded_statement \<Rightarrow> json" where
  "statement_json g = JObj [(''text'', JStr (gs_text g)), (''evidence_ids'', JList (map jid (gs_evidence_ids g)))]"

definition rca_json :: "investigation_core \<Rightarrow> rca_draft \<Rightarrow> json dict" where
  "rca_json core r =
     [(''incident_summary'', statement_json (rd_incident_summary r)),
      (''impact'', statement_json (rd_impact r)),
      (''affected_services'', JList (map (\<lambda>a. JObj [(''service'', JStr (as_service a)),
         (''evidence_ids'', JList (map jid (as_evidence_ids a)))]) (rd_affected_services r))),
      (''timeline'', JList (map (\<lambda>t. JObj [(''at'', JStr (nc_dump_datetime core (te_at t))),
         (''event'', JStr (te_event t)), (''evidence_ids'', JList (map jid (te_evidence_ids t)))])
         (rd_timeline r))),
      (''root_cause'', statement_json (rd_root_cause r)),
      (''contributing_factors'', JList (map statement_json (rd_contributing_factors r))),
      (''contradicting_evidence'', JList (map (\<lambda>c. JObj [(''evidence_id'', jid (cn_evidence_id c)),
         (''explanation'', JStr (cn_explanation c))]) (rd_contradicting_evidence r))),
      (''unresolved_questions'', JList (map JStr (rd_unresolved_questions r))),
      (''recommended_next_diagnostic_action'', jopt JStr (rd_recommended_next_diagnostic_action r))]"

definition result_json :: "investigation_core \<Rightarrow> final_investigation_result \<Rightarrow> json" where
  "result_json core r = JObj
     [(''selected_hypothesis_key'', JStr (fr_selected_hypothesis_key r)),
      (''confidence'', JFloat (fr_confidence r)), (''rca'', JObj (rca_json core (fr_rca r)))]"

definition actions_of :: "investigation_step_row list \<Rightarrow> json list" where
  "actions_of steps =
     map (\<lambda>p. JObj
       [(''iteration'', JInt (sp_iteration p)), (''tool'', jget (sp_payload p) ''tool''),
        (''arguments'', jget (sp_payload p) ''arguments''), (''ok'', jget (sp_payload p) ''ok''),
        (''evidence_ids'', (case dget (sp_payload p) ''evidence_ids'' of Some j \<Rightarrow> j | None \<Rightarrow> JList [])),
        (''summary'', jget (sp_payload p) ''summary'')])
     (filter (\<lambda>p. sp_kind p = TOOL_CALL) steps)"

text \<open>
  \<^verbatim>\<open>render_rca_summary\<close> on a report of the shape \<open>complete\<close> builds. \<open>two_places\<close> is the format \<^verbatim>\<open>.2f\<close> of a
  number that is not negative.
\<close>

definition two_places :: "float64 \<Rightarrow> string" where
  "two_places x = (let n = round_half_even (x * 100)
     in str_int (n div 100) @ ''.'' @ pad 2 (n mod 100))"

fun jlist :: "json \<Rightarrow> json list" where
  "jlist (JList js) = js"
| "jlist _ = []"

definition cite :: "json \<Rightarrow> string" where
  "cite ids = ''['' @ join '', '' (map (\<lambda>i. take 8 (str_json i)) (jlist ids)) @ '']''"

definition cited :: "json \<Rightarrow> string \<Rightarrow> string" where
  "cited j field = str_json (jget (jdict j) field) @ '' '' @ cite (jget (jdict j) ''evidence_ids'')"

definition render_rca_summary :: "json dict \<Rightarrow> string" where
  "render_rca_summary report =
     join [CHR 0x0A]
       ([''Root cause (confidence ''
           @ (case jget report ''confidence'' of JFloat q \<Rightarrow> two_places q | j \<Rightarrow> str_json j) @ ''): ''
           @ cited (jget report ''root_cause'') ''text'',
         ''Summary: '' @ cited (jget report ''incident_summary'') ''text'',
         ''Impact: '' @ cited (jget report ''impact'') ''text'',
         ''Affected services: ''
           @ join ''; '' (map (\<lambda>j. cited j ''service'') (jlist (jget report ''affected_services''))),
         ''Timeline:'']
        @ map (\<lambda>j. ''  '' @ str_json (jget (jdict j) ''at'') @ '' '' @ cited j ''event'')
            (jlist (jget report ''timeline''))
        @ (if truthy (jget report ''contributing_factors'')
           then ''Contributing factors:''
             # map (\<lambda>j. ''  '' @ cited j ''text'') (jlist (jget report ''contributing_factors''))
           else [])
        @ (if truthy (jget report ''contradicting_evidence'')
           then ''Contradicting evidence considered:''
             # map (\<lambda>j. ''  '' @ take 8 (str_json (jget (jdict j) ''evidence_id'')) @ '': ''
                 @ str_json (jget (jdict j) ''explanation''))
                 (jlist (jget report ''contradicting_evidence''))
           else [])
        @ (if truthy (jget report ''unresolved_questions'')
           then ''Unresolved questions (not evidence-backed):''
             # map (\<lambda>j. ''  - '' @ str_json j) (jlist (jget report ''unresolved_questions''))
           else []))"

definition full_report ::
  "investigation_core \<Rightarrow> final_investigation_result \<Rightarrow> hypothesis_row \<Rightarrow> hypothesis_snapshot \<Rightarrow>
   hypothesis_snapshot dict \<Rightarrow> investigation_step_row list \<Rightarrow> json dict" where
  "full_report core result selected snap snaps steps =
     dmerge (rca_json core (fr_rca result))
       [(''confidence'', JFloat (fr_confidence result)),
        (''root_cause_hypothesis'', JObj
           [(''key'', JStr (h_key selected)), (''description'', JStr (h_description selected)),
            (''cause_category'', jopt JStr (h_cause_category selected)),
            (''component'', jopt JStr (h_component selected))]),
        (''supporting_evidence'', JList (map jid (hs_supporting snap))),
        (''investigation_actions'', JList (actions_of steps)),
        (''competing_hypotheses'', JList (map (\<lambda>(_, h). snapshot_json h)
           (filter (\<lambda>(k, _). k \<noteq> h_key selected) snaps)))]"

subsection \<open>Outcomes\<close>

definition unmet_criteria ::
  "investigation_core \<Rightarrow> final_investigation_result \<Rightarrow> uuid list \<Rightarrow> hypothesis_snapshot dict \<Rightarrow>
   (uuid \<times> string) list \<Rightarrow> string list" where
  "unmet_criteria core result accessible snaps types =
     (let bad = ungrounded_ids (rca_evidence_ids (fr_rca result)) accessible
      in (if bad \<noteq> []
          then [''rca cites evidence ids this investigation was never shown: '' @ join '', '' bad] else [])
       @ evaluate_conclusion result snaps types (nc_criteria core))"

definition finish_investigation ::
  "clock \<Rightarrow> investigation_status \<Rightarrow> json dict \<Rightarrow> string \<Rightarrow> investigation_row \<Rightarrow> investigation_row" where
  "finish_investigation clk status final last_action n =
     n\<lparr>n_status := status, n_final_result := Some final, n_completed_at := Some (clk_now clk),
       n_updated_at := clk_now clk, n_lease_owner := None, n_lease_expires_at := None,
       n_last_action := Some last_action\<rparr>"

definition new_rca_report :: "clock \<Rightarrow> investigation_row \<Rightarrow> uuid \<Rightarrow> uuid \<Rightarrow> json dict \<Rightarrow> rca_report_row" where
  "new_rca_report clk row hid rid report =
     \<lparr>rca_id = rid, rca_incident_id = n_incident_id row, rca_investigation_id = n_id row,
      rca_root_cause_hypothesis_id = hid, rca_report = report, rca_summary = render_rca_summary report,
      rca_generated_at = clk_now clk\<rparr>"

definition selected_hypothesis :: "clock \<Rightarrow> final_investigation_result \<Rightarrow> hypothesis_row \<Rightarrow> hypothesis_row" where
  "selected_hypothesis clk result h = h\<lparr>h_status := H_SELECTED,
     h_confidence := Some (to_decimal (fr_confidence result)), h_updated_at := clk_now clk\<rparr>"

definition completed ::
  "clock \<Rightarrow> uuid \<Rightarrow> uuid \<Rightarrow> string \<Rightarrow> float64 \<Rightarrow> investigation_row \<Rightarrow> investigation_row" where
  "completed clk hid rid selected_key confidence n =
     (finish_investigation clk Inv_COMPLETED
        [(''outcome'', JStr ''root_cause_identified''), (''rca_report_id'', jid rid),
         (''selected_hypothesis_key'', JStr selected_key), (''confidence'', JFloat confidence)] ''completed'' n)
     \<lparr>n_selected_hypothesis_id := Some hid\<rparr>"

definition accept_conclusion ::
  "investigation_core \<Rightarrow> clock \<Rightarrow> investigation_row \<Rightarrow> int \<Rightarrow> string \<Rightarrow> final_investigation_result \<Rightarrow>
   hypothesis_row \<Rightarrow> hypothesis_snapshot dict \<Rightarrow> conclusion_outcome cmd" where
  "accept_conclusion core clk row iteration call_id result selected0 snaps =
     (let nid = n_id row; iid = n_incident_id row; hid = h_id selected0
      in thenT (modifyT (set_hypothesis hid (selected_hypothesis clk result)))
        (bindT (getsT (get_hypothesis hid)) (\<lambda>found.
         bindT (the_or found (AssertionFailed ''hypothesis'')) (\<lambda>selected.
         bindT (getsT (steps_of nid)) (\<lambda>steps.
         bindT new_uuid (\<lambda>rid.
         bindT (getsT (\<lambda>s. nid \<in> set (map rca_investigation_id (rca_reports s)))) (\<lambda>dup.
         thenT (guardT (\<not> dup) (IntegrityError ''rca_reports.investigation_id''))
           (let report = full_report core result selected (the (dget snaps (h_key selected))) snaps steps
            in thenT (seqT
              [modifyT (\<lambda>s. s\<lparr>rca_reports := rca_reports s @ [new_rca_report clk row hid rid report]\<rparr>),
               modifyT (set_investigation nid (completed clk hid rid (h_key selected) (fr_confidence result))),
               bindT (append_step clk nid OUTCOME iteration
                 [(''status'', JStr ''COMPLETED''), (''rca_report_id'', jid rid)] (Some call_id) None)
                 (\<lambda>_. returnT ()),
               move_investigated clk iid RCA_READY ''root_cause_selected'',
               insert_outbox_event clk InvestigationCompleted Investigation (Agg_id nid) (Some iid)
                 (InvestigationCompletedPayload nid iid hid rid)])
             (returnT \<lparr>co_accepted = True, co_unmet_criteria = [], co_rca_report_id = Some rid\<rparr>)))))))))"

definition complete_investigation ::
  "investigation_core \<Rightarrow> clock \<Rightarrow> uuid \<Rightarrow> string \<Rightarrow> int \<Rightarrow> string \<Rightarrow> final_investigation_result \<Rightarrow>
   conclusion_outcome cmd" where
  "complete_investigation core clk investigation_id owner iteration call_id result =
     bindT (fenced investigation_id owner) (\<lambda>row.
     bindT (accessible_evidence row) (\<lambda>accessible.
     bindT (getsT (hypothesis_rows investigation_id)) (\<lambda>rows.
     bindT (getsT (snapshots rows)) (\<lambda>snaps.
     bindT (getsT (evidence_types_of (n_incident_id row))) (\<lambda>types.
       let unmet = unmet_criteria core result accessible snaps types
       in if unmet \<noteq> [] then
            bindT (append_step clk investigation_id CONCLUSION_REJECTED iteration
              [(''unmet_criteria'', jstrs unmet), (''proposed'', result_json core result)]
              (Some call_id) None) (\<lambda>_.
            thenT (modifyT (set_investigation investigation_id
                     (\<lambda>n. n\<lparr>n_last_action := Some ''conclusion rejected''\<rparr>)))
              (returnT \<lparr>co_accepted = False, co_unmet_criteria = unmet, co_rca_report_id = None\<rparr>))
          else
            bindT (the_or (find (\<lambda>h. h_key h = fr_selected_hypothesis_key result) rows)
                     (AssertionFailed ''StopIteration'')) (\<lambda>selected.
              accept_conclusion core clk row iteration call_id result selected snaps))))))"

definition escalation_result ::
  "investigation_row \<Rightarrow> investigation_status \<Rightarrow> string \<Rightarrow> string \<Rightarrow> string list option \<Rightarrow>
   hypothesis_snapshot dict \<Rightarrow> uuid list \<Rightarrow> json dict" where
  "escalation_result row outcome reason_code detail evidence_gaps snaps accessible =
     [(''outcome'', JStr (investigation_status_value outcome)), (''reason_code'', JStr reason_code),
      (''detail'', JStr (take 2000 detail)),
      (''evidence_gaps'', jstrs (case evidence_gaps of Some g \<Rightarrow> g | None \<Rightarrow> [])),
      (''leading_hypothesis'', jopt snapshot_json (leading snaps)),
      (''hypotheses'', JList (map (\<lambda>(_, h). snapshot_json h) snaps)),
      (''evidence_ids'', jstrs (sort (map uuid_str accessible))),
      (''budget_usage'', JObj
         [(''iterations'', JInt (n_iteration_count row)), (''tool_calls'', JInt (n_tool_call_count row)),
          (''evidence_items'', JInt (n_evidence_count row)), (''input_tokens'', JInt (n_input_tokens row)),
          (''output_tokens'', JInt (n_output_tokens row))])]"

definition escalated ::
  "clock \<Rightarrow> investigation_status \<Rightarrow> string \<Rightarrow> string \<Rightarrow> string option \<Rightarrow> json dict \<Rightarrow>
   investigation_row \<Rightarrow> investigation_row" where
  "escalated clk outcome reason_code detail inconclusive_reason final n =
     (let reason = take 2000 (reason_code @ '': '' @ detail)
      in (finish_investigation clk outcome final
            (lower (investigation_status_value outcome) @ '': '' @ reason_code) n)
         \<lparr>n_failure_reason := (if outcome = Inv_FAILED then Some reason else n_failure_reason n),
          n_escalation_reason := (if outcome = Inv_FAILED then n_escalation_reason n else Some reason),
          n_inconclusive_reason := inconclusive_reason\<rparr>)"

definition escalate_investigation ::
  "clock \<Rightarrow> uuid \<Rightarrow> string \<Rightarrow> int \<Rightarrow> investigation_status \<Rightarrow> string \<Rightarrow> string \<Rightarrow> string option \<Rightarrow>
   string list option \<Rightarrow> string option \<Rightarrow> unit cmd" where
  "escalate_investigation clk investigation_id owner iteration outcome reason_code detail
     inconclusive_reason evidence_gaps call_id =
     thenT (guardT (outcome = Inv_ESCALATED \<or> outcome = Inv_FAILED) (AssertionFailed ''outcome''))
     (bindT (fenced investigation_id owner) (\<lambda>row.
      bindT (getsT (\<lambda>s. snapshots (hypothesis_rows investigation_id s) s)) (\<lambda>snaps.
      bindT (accessible_evidence row) (\<lambda>accessible.
        seqT
          [modifyT (set_investigation investigation_id (escalated clk outcome reason_code detail inconclusive_reason
             (escalation_result row outcome reason_code detail evidence_gaps snaps accessible))),
           bindT (append_step clk investigation_id OUTCOME iteration
             [(''status'', JStr (investigation_status_value outcome)), (''reason_code'', JStr reason_code),
              (''detail'', JStr (take 2000 detail))] call_id None) (\<lambda>_. returnT ()),
           move_investigated clk (n_incident_id row) ESCALATED (''investigation_'' @ reason_code),
           insert_outbox_event clk InvestigationFailed Investigation (Agg_id investigation_id)
             (Some (n_incident_id row))
             (InvestigationFailedPayload investigation_id (n_incident_id row) outcome reason_code)]))))"

subsection \<open>Queries\<close>

record incident_transition =
  it_at :: datetime
  it_from :: incident_status
  it_to :: incident_status
  it_reason :: string

definition incident_transitions :: "uuid \<Rightarrow> db \<Rightarrow> incident_transition list" where
  "incident_transitions incident_id s =
     List.map_filter (\<lambda>e. case o_payload e of
         IncidentStatusChangedPayload _ from_status to_status reason _ \<Rightarrow>
           Some \<lparr>it_at = o_occurred_at e, it_from = from_status, it_to = to_status, it_reason = reason\<rparr>
       | _ \<Rightarrow> None)
     (sort_key o_sequence (filter (\<lambda>e. o_aggregate_id e = Agg_id incident_id \<and>
        o_event_type e = IncidentStatusChanged) (outbox s)))"

definition latest_for_incident :: "uuid \<Rightarrow> db \<Rightarrow> investigation_row option" where
  "latest_for_incident incident_id s =
     (case sort_key (\<lambda>n. - n_attempt_number n) (filter (\<lambda>n. n_incident_id n = incident_id) (investigations s)) of
        [] \<Rightarrow> None | n # _ \<Rightarrow> Some n)"

end
