(* ===== verification/Verifications.thy ===== *)
theory Verifications
  imports Remediations
begin

text \<open>
  \<^verbatim>\<open>packages/incident/verifications.py\<close>: the verification commands of incident-core, which record
  observations, reach the verdict and move the incident out of \<open>VERIFYING\<close>.
\<close>

record verification_ticket =
  vt_verification_id :: uuid
  vt_incident_id :: uuid
  vt_remediation_id :: uuid
  vt_spec :: verification_spec
  vt_owner :: string
  vt_claim_attempt :: int

record verification_core =
  vc_max_attempts :: int

subsection \<open>Internals\<close>

definition lock_verification :: "uuid \<Rightarrow> verification_row cmd" where
  "lock_verification verification_id =
     bindT (getsT (get_verification verification_id)) (\<lambda>row.
       the_or row (RemediationNotFoundError (''verification '' @ uuid_str verification_id)))"

definition latest_result :: "uuid \<Rightarrow> db \<Rightarrow> observation_result option" where
  "latest_result verification_id s =
     (case sort_key (\<lambda>b. - ob_sequence b)
             (filter (\<lambda>b. ob_verification_id b = verification_id) (observations s)) of
        [] \<Rightarrow> None
      | b # _ \<Rightarrow> Some \<lparr>passed = ob_passed b, conclusive = ob_conclusive b, definitive_failure = None,
                        or_checks = ob_checks b\<rparr>)"

definition new_firing_alerts :: "verification_row \<Rightarrow> db \<Rightarrow> int" where
  "new_firing_alerts row s =
     int (length (filter (\<lambda>a. a_id a \<notin> set (v_known_alert_ids row)) (firing_alerts (v_incident_id row) s)))"

definition move_to :: "clock \<Rightarrow> uuid \<Rightarrow> incident_status \<Rightarrow> string \<Rightarrow> unit cmd" where
  "move_to clk incident_id to_status reason =
     bindT (lock_incident incident_id) (\<lambda>incident.
     bindT (transition_incident_status incident to_status (clk_now clk) False) (\<lambda>moved.
     thenT (guardT moved (ConcurrentModificationError
              (''incident '' @ uuid_str incident_id @ '' changed concurrently'')))
     (bindT (lock_incident incident_id) (\<lambda>refreshed.
        insert_outbox_event clk IncidentStatusChanged Incident (Agg_id incident_id) (Some incident_id)
          (IncidentStatusChangedPayload incident_id (i_status incident) (i_status refreshed) reason
             (i_version refreshed))))))"

definition closure :: "clock \<Rightarrow> uuid \<Rightarrow> event_type \<Rightarrow> string \<Rightarrow> verification_row \<Rightarrow> unit cmd" where
  "closure clk incident_id event_type reason row =
     bindT (lock_incident incident_id) (\<lambda>incident.
       insert_outbox_event clk event_type Incident (Agg_id incident_id) (Some incident_id)
         (IncidentClosureEventPayload incident_id (i_status incident) reason (Some (v_id row))
            (Some (v_remediation_id row))))"

definition verification_event :: "clock \<Rightarrow> uuid \<Rightarrow> event_type \<Rightarrow> unit cmd" where
  "verification_event clk verification_id event_type =
     bindT (lock_verification verification_id) (\<lambda>row.
       insert_outbox_event clk event_type Verification (Agg_id verification_id) (Some (v_correlation_id row))
         (VerificationEventPayload verification_id (v_incident_id row) (v_remediation_id row)
            (v_status row) (v_policy_version row) (v_claim_attempt row) (v_result row)
            (v_failure_reason row) (v_next_action row)))"

definition staleness ::
  "verification_row \<Rightarrow> incident_row \<Rightarrow> remediation_row \<Rightarrow> db \<Rightarrow> string option" where
  "staleness row incident remediation s =
     (if i_status incident \<noteq> VERIFYING
      then Some (''incident is '' @ incident_status_value (i_status incident) @ '', not VERIFYING'')
      else if r_status remediation \<noteq> R_EXECUTED
      then Some (''remediation is '' @ remediation_status_value (r_status remediation))
      else if r_verification_ref remediation \<noteq> Some (v_id row)
      then Some ''a newer verification owns this remediation''
      else if filter (\<lambda>r. r_incident_id r = i_id incident \<and> r_created_at r > r_created_at remediation)
                (remediations s) \<noteq> []
      then Some ''a newer remediation exists for the incident''
      else None)"

abbreviation set_next_action :: "uuid \<Rightarrow> string \<Rightarrow> unit cmd" where
  "set_next_action verification_id action \<equiv>
     modifyT (set_verification verification_id (\<lambda>v. v\<lparr>v_next_action := Some action\<rparr>))"

text \<open>
  The part of \<^verbatim>\<open>_finalize\<close> that acts on the incident, when the verdict is not stale. A failure leaves the
  incident in \<open>VERIFICATION_FAILED\<close> for the investigation scheduler only while attempts are left and an
  alert is firing.
\<close>

definition apply_verdict ::
  "verification_core \<Rightarrow> clock \<Rightarrow> verification_row \<Rightarrow> incident_row \<Rightarrow> verification_status \<Rightarrow> unit cmd" where
  "apply_verdict core clk row incident status =
     (let vid = v_id row; iid = i_id incident
      in if status = V_PASSED then
           seqT [set_next_action vid ''resolve'',
                 move_to clk iid RESOLVED ''verification_passed'',
                 closure clk iid IncidentResolved ''verification passed'' row]
         else if status = V_TIMED_OUT then
           seqT [set_next_action vid ''escalate'',
                 move_to clk iid ESCALATED ''verification_timed_out'',
                 closure clk iid IncidentEscalated ''verification timed out'' row]
         else
           thenT (move_to clk iid VERIFICATION_FAILED ''verification_failed'')
           (bindT (count_firing_alerts iid) (\<lambda>firing.
              if i_attempt_count incident < vc_max_attempts core \<and> firing > 0
              then set_next_action vid ''reinvestigate''
              else seqT
                [set_next_action vid ''escalate'',
                 move_to clk iid ESCALATED ''verification_failed'',
                 closure clk iid IncidentEscalated
                   (''verification failed; ''
                    @ (if firing \<noteq> 0
                       then ''investigation attempts exhausted ('' @ str_int (i_attempt_count incident)
                            @ ''/'' @ str_int (vc_max_attempts core) @ '')''
                       else ''no alert still firing to re-investigate'')) row])))"

text \<open>The columns \<^verbatim>\<open>_finalize\<close> writes first, and those it writes when the verdict is not applied.\<close>

definition record_verdict :: "clock \<Rightarrow> verification_decision \<Rightarrow> verification_row \<Rightarrow> verification_row" where
  "record_verdict clk dec v = v\<lparr>v_status := vd_status dec, v_result := Some (vd_status dec),
     v_failure_reason := (let t = take 2000 (case vd_reason dec of Some r \<Rightarrow> r | None \<Rightarrow> [])
                          in if t = [] then None else Some t),
     v_completed_at := Some (clk_now clk), v_lease_owner := None, v_lease_expires_at := None,
     v_next_poll_at := None, v_updated_at := clk_now clk\<rparr>"

definition record_stale :: "string \<Rightarrow> verification_row \<Rightarrow> verification_row" where
  "record_stale why v = v\<lparr>v_next_action := Some ''none'',
     v_failure_reason := Some (strip ((case v_failure_reason v of Some r \<Rightarrow> r | None \<Rightarrow> [])
       @ '' [not applied: '' @ why @ '']''))\<rparr>"

definition finalize_verification ::
  "verification_core \<Rightarrow> clock \<Rightarrow> uuid \<Rightarrow> verification_decision \<Rightarrow> unit cmd" where
  "finalize_verification core clk verification_id dec =
     thenT (modifyT (set_verification verification_id (record_verdict clk dec)))
     (bindT (lock_verification verification_id) (\<lambda>row.
      bindT (getsT (get_incident (v_incident_id row))) (\<lambda>incident_found.
      bindT (getsT (get_remediation (v_remediation_id row))) (\<lambda>remediation_found.
      bindT (the_or incident_found (AssertionFailed ''incident is not None'')) (\<lambda>incident.
      bindT (the_or remediation_found (AssertionFailed ''remediation is not None'')) (\<lambda>remediation.
      bindT (getsT (staleness row incident remediation)) (\<lambda>stale.
      thenT
        (case stale of
           Some why \<Rightarrow> modifyT (set_verification verification_id (record_stale why))
         | None \<Rightarrow> apply_verdict core clk row incident (vd_status dec))
        (verification_event clk verification_id VerificationCompleted))))))))"

subsection \<open>Lifecycle\<close>

definition start_row :: "clock \<Rightarrow> verification_row \<Rightarrow> unit cmd" where
  "start_row clk row =
     bindT (getsT (\<lambda>s. map a_id (filter (\<lambda>a. a_incident_id a = Some (v_incident_id row)) (alerts s)))) (\<lambda>known.
       let grace = clk_now clk + fseconds (vs_grace_seconds (v_spec row))
       in thenT (modifyT (set_verification (v_id row) (\<lambda>v. v\<lparr>v_status := V_RUNNING,
               v_started_at := Some (clk_now clk), v_known_alert_ids := known,
               v_grace_until := Some grace,
               v_deadline_at := Some (clk_now clk + fseconds (vs_timeout_seconds (v_spec row))),
               v_next_poll_at := Some grace, v_updated_at := clk_now clk\<rparr>)))
            (verification_event clk (v_id row) VerificationStarted))"

definition start :: "clock \<Rightarrow> uuid \<Rightarrow> verification_row cmd" where
  "start clk verification_id =
     bindT (lock_verification verification_id) (\<lambda>row.
       thenT (if v_status row = V_PENDING then start_row clk row else returnT ())
         (lock_verification verification_id))"

definition claim_due ::
  "verification_core \<Rightarrow> clock \<Rightarrow> uuid \<Rightarrow> string \<Rightarrow> float64 \<Rightarrow> (verification_ticket option) cmd" where
  "claim_due core clk verification_id owner lease_seconds =
     bindT (lock_verification verification_id) (\<lambda>row0.
     thenT (if v_status row0 = V_PENDING then start_row clk row0 else returnT ())
     (bindT (lock_verification verification_id) (\<lambda>row.
        let now = clk_now clk; spec = v_spec row
        in if v_status row \<noteq> V_RUNNING then returnT None
           else if v_lease_owner row \<noteq> None \<and>
                   (case v_lease_expires_at row of Some t \<Rightarrow> t > now | None \<Rightarrow> False)
           then returnT None
           else if (case v_deadline_at row of Some t \<Rightarrow> now \<ge> t | None \<Rightarrow> False)
           then bindT (getsT (latest_result verification_id)) (\<lambda>latest.
                thenT (finalize_verification core clk verification_id
                         (decide_verification spec latest (v_consecutive_successes row)
                            (v_conclusive_count row) (timestamp now) (timestamp (the (v_deadline_at row)))))
                  (returnT None))
           else if (case v_next_poll_at row of Some t \<Rightarrow> now < t | None \<Rightarrow> False) then returnT None
           else
             thenT (modifyT (set_verification verification_id (\<lambda>v. v\<lparr>v_claim_attempt := v_claim_attempt v + 1,
                      v_lease_owner := Some owner, v_lease_expires_at := Some (now + fseconds lease_seconds),
                      v_updated_at := now\<rparr>)))
               (returnT (Some \<lparr>vt_verification_id = verification_id, vt_incident_id = v_incident_id row,
                  vt_remediation_id = v_remediation_id row, vt_spec = spec, vt_owner = owner,
                  vt_claim_attempt = v_claim_attempt row + 1\<rparr>)))))"

definition record_sample ::
  "clock \<Rightarrow> verification_ticket \<Rightarrow> observation_result \<Rightarrow> string list \<Rightarrow> uuid list \<Rightarrow> datetime \<Rightarrow>
   unit cmd" where
  "record_sample clk tkt result errs evidence_ids observed_at =
     bindT (lock_verification (vt_verification_id tkt)) (\<lambda>row.
       let sequence = v_observation_count row + 1
       in seqT
         [modifyT (set_verification (v_id row) (\<lambda>v. v\<lparr>v_observation_count := sequence,
            v_conclusive_count := v_conclusive_count v + (if conclusive result then 1 else 0),
            v_consecutive_successes := (if passed result then v_consecutive_successes v + 1 else 0)\<rparr>)),
          modifyT (\<lambda>s. s\<lparr>observations := observations s @
            [\<lparr>ob_id = int (length (observations s)) + 1, ob_verification_id = v_id row,
              ob_sequence = sequence, ob_claim_attempt = vt_claim_attempt tkt,
              ob_observed_at = observed_at, ob_passed = passed result, ob_conclusive = conclusive result,
              ob_checks = or_checks result, ob_errors = errs, ob_evidence_ids = evidence_ids\<rparr>]\<rparr>),
          forT evidence_ids (\<lambda>e. link_evidence (v_id row) e sequence ''observation'' observed_at),
          modifyT (set_verification (v_id row) (\<lambda>v. v\<lparr>
            v_next_poll_at := Some (clk_now clk + fseconds (vs_poll_interval_seconds (vt_spec tkt))),
            v_lease_owner := None, v_lease_expires_at := None, v_updated_at := clk_now clk\<rparr>))])"

definition record_observation ::
  "verification_core \<Rightarrow> clock \<Rightarrow> verification_ticket \<Rightarrow> sample \<Rightarrow> uuid list \<Rightarrow> datetime \<Rightarrow>
   verification_row cmd" where
  "record_observation core clk tkt sample0 evidence_ids observed_at =
     bindT (lock_verification (vt_verification_id tkt)) (\<lambda>row.
     thenT (guardT (v_status row = V_RUNNING \<and> v_lease_owner row = Some (vt_owner tkt) \<and>
                    v_claim_attempt row = vt_claim_attempt tkt)
              (LeaseLostError (vt_owner tkt @ '' (claim '' @ str_int (vt_claim_attempt tkt)
                 @ '') no longer holds verification '' @ uuid_str (v_id row))))
     (bindT (getsT (new_firing_alerts row)) (\<lambda>new_alerts.
        let sample = sample0\<lparr>s_new_firing_alerts := Some new_alerts\<rparr>;
            result = evaluate_sample (vt_spec tkt) sample
        in thenT (record_sample clk tkt result (s_errors sample) evidence_ids observed_at)
           (bindT (lock_verification (vt_verification_id tkt)) (\<lambda>row'.
              let now = clk_now clk;
                  dec = decide_verification (vt_spec tkt) (Some result) (v_consecutive_successes row')
                    (v_conclusive_count row') (timestamp now)
                    (timestamp (case v_deadline_at row' of Some t \<Rightarrow> t | None \<Rightarrow> now))
              in thenT (if vd_status dec \<noteq> V_RUNNING
                        then finalize_verification core clk (vt_verification_id tkt) dec else returnT ())
                   (lock_verification (vt_verification_id tkt)))))))"

subsection \<open>Scheduling and reads\<close>

definition is_due :: "clock \<Rightarrow> verification_row \<Rightarrow> bool" where
  "is_due clk v \<longleftrightarrow> v_status v = V_PENDING \<or>
     v_status v = V_RUNNING \<and>
       ((case v_next_poll_at v of Some t \<Rightarrow> t \<le> clk_now clk | None \<Rightarrow> False) \<or>
        (case v_deadline_at v of Some t \<Rightarrow> t \<le> clk_now clk | None \<Rightarrow> False)) \<and>
       (case v_lease_expires_at v of None \<Rightarrow> True | Some t \<Rightarrow> t < clk_now clk)"

definition due :: "clock \<Rightarrow> nat \<Rightarrow> db \<Rightarrow> uuid list" where
  "due clk limit s =
     map v_id (take limit
       (filter (\<lambda>v. v_next_poll_at v = None) (filter (is_due clk) (verifications s)) @
        sort_key (\<lambda>v. the (v_next_poll_at v))
          (filter (\<lambda>v. v_next_poll_at v \<noteq> None) (filter (is_due clk) (verifications s)))))"

definition verifications_for_incident :: "uuid \<Rightarrow> (verification_row list) cmd" where
  "verifications_for_incident incident_id = getsT (\<lambda>s.
     sort_key v_created_at (filter (\<lambda>v. v_incident_id v = incident_id) (verifications s)))"

definition observations_of :: "uuid \<Rightarrow> (observation_row list) cmd" where
  "observations_of verification_id = getsT (\<lambda>s.
     sort_key ob_sequence (filter (\<lambda>b. ob_verification_id b = verification_id) (observations s)))"

definition evidence_links :: "uuid \<Rightarrow> (verification_evidence_row list) cmd" where
  "evidence_links verification_id = getsT (\<lambda>s.
     sort_key ve_poll_sequence (sort_key ve_collected_at
       (filter (\<lambda>e. ve_verification_id e = verification_id) (verification_evidence s))))"

end
