(* ===== verification/Incident_Service.thy ===== *)
theory Incident_Service
  imports Repository
begin

text \<open>
  \<^verbatim>\<open>packages/incident/service.py\<close>: the command handler of incident-core. A command is a transaction
  on \<open>db\<close>; returning without \<^verbatim>\<open>session.commit()\<close> after only reading is \<open>returnT\<close>, raising is a roll-back.
\<close>

record incident_core =
  ic_correlation_engine :: correlation_engine
  ic_candidate_lookback_seconds :: int

definition default_incident_core :: incident_core where
  "default_incident_core =
     \<lparr>ic_correlation_engine = default_correlation_engine DEFAULT_THRESHOLD DEFAULT_TEMPORAL_WINDOW_SECONDS None [],
      ic_candidate_lookback_seconds = DEFAULT_CANDIDATE_LOOKBACK_SECONDS\<rparr>"

definition MAX_IDEMPOTENCY_RACE_RETRIES :: nat where
  "MAX_IDEMPOTENCY_RACE_RETRIES = 3"

definition incident_status_of :: "uuid option \<Rightarrow> (incident_status option) cmd" where
  "incident_status_of incident_id =
     (case incident_id of
        None \<Rightarrow> returnT None
      | Some i \<Rightarrow> getsT (\<lambda>s. map_option i_status (get_incident i s)))"

definition finalize :: "clock \<Rightarrow> alert_received_command \<Rightarrow> alert_received_result \<Rightarrow> unit cmd" where
  "finalize clk command result =
     bindT (insert_processed_command clk COMMAND_TYPE_ALERT_RECEIVED (c_idempotency_key command) result)
       (\<lambda>inserted. guardT inserted LostIdempotencyRace)"

definition finish_resolution ::
  "clock \<Rightarrow> alert_received_command \<Rightarrow> uuid \<Rightarrow> alert_received_result cmd" where
  "finish_resolution clk command alert_id =
     bindT (getsT (get_alert alert_id)) (\<lambda>found.
     bindT (the_or found (AssertionFailed ''alert'')) (\<lambda>alert.
     bindT (incident_status_of (a_incident_id alert)) (\<lambda>status.
       let result = \<lparr>ar_alert_id = a_id alert, ar_incident_id = a_incident_id alert,
                     ar_incident_created = False, ar_incident_status = status\<rparr>
       in thenT (finalize clk command result) (returnT result))))"

text \<open>The \<open>TRIAGING \<rightarrow> CANCELLED\<close> edge, taken when no linked alert is firing any more.\<close>

definition cancel_incident :: "clock \<Rightarrow> incident_row \<Rightarrow> unit cmd" where
  "cancel_incident clk incident =
     bindT (transition_incident_status incident CANCELLED (clk_now clk) True) (\<lambda>moved.
     thenT (guardT moved (ConcurrentModificationError
              (''incident '' @ uuid_str (i_id incident) @ '' changed concurrently; retry the command'')))
     (bindT (getsT (get_incident (i_id incident))) (\<lambda>found.
      bindT (the_or found (AssertionFailed ''incident'')) (\<lambda>refreshed.
        insert_outbox_event clk IncidentStatusChanged Incident (Agg_id (i_id incident))
          (Some (i_id incident))
          (IncidentStatusChangedPayload (i_id incident) (i_status incident) (i_status refreshed)
             ''all_linked_alerts_resolved'' (i_version refreshed))))))"

definition resolve_firing_alert :: "clock \<Rightarrow> alert_row \<Rightarrow> unit cmd" where
  "resolve_firing_alert clk alert =
     thenT (mark_alert_resolved (a_id alert) (clk_now clk))
     (bindT (the_or (a_incident_id alert)
               (AssertionFailed ''a firing alert is always linked to an incident'')) (\<lambda>iid.
      bindT (getsT (get_incident iid)) (\<lambda>row.
      bindT (the_or row (AssertionFailed ''incident is not None'')) (\<lambda>incident.
      bindT (count_firing_alerts (i_id incident)) (\<lambda>remaining.
        thenT (insert_outbox_event clk AlertResolved Alert (Agg_id (a_id alert)) (Some (i_id incident))
                 (AlertResolvedPayload (a_id alert) (i_id incident) remaining))
          (if remaining = 0 \<and> i_status incident = TRIAGING
           then cancel_incident clk incident else returnT ()))))))"

definition process_alert_resolved ::
  "clock \<Rightarrow> alert_received_command \<Rightarrow> string \<Rightarrow> alert_received_result cmd" where
  "process_alert_resolved clk command fingerprint =
     bindT (find_alert_to_resolve command fingerprint) (\<lambda>found.
       case found of
         None \<Rightarrow>
           bindT (insert_unlinked_resolved_alert clk command fingerprint (clk_now clk)) (\<lambda>alert.
             finish_resolution clk command (a_id alert))
       | Some alert \<Rightarrow>
           (if a_status alert = Alert_RESOLVED then finish_resolution clk command (a_id alert)
            else thenT (resolve_firing_alert clk alert)
                   (finish_resolution clk command (a_id alert))))"

text \<open>
  The incident a new firing alert belongs to: the one the engine matched, or the open incident of the
  key made from the engine's key and the time bucket. The second component says it was created.
\<close>

definition incident_for ::
  "incident_core \<Rightarrow> clock \<Rightarrow> alert_received_command \<Rightarrow> correlation_decision \<Rightarrow>
   (incident_row \<times> bool) cmd" where
  "incident_for core clk command dec =
     (if cd_decision dec = CORRELATE then
        bindT (the_or (cd_matched_incident_id dec)
                 (AssertionFailed ''decision.matched_incident_id is not None'')) (\<lambda>iid.
        bindT (getsT (get_incident iid)) (\<lambda>row.
        bindT (the_or row (AssertionFailed ''incident_row is not None'')) (\<lambda>incident.
          thenT (touch_incident_updated_at clk iid) (returnT (incident, False)))))
      else
        thenT (guardT (ic_candidate_lookback_seconds core \<noteq> 0) ZeroDivisionError)
        (let bucket = \<lfloor>timestamp (clk_now clk) / of_int (ic_candidate_lookback_seconds core)\<rfloor>
         in get_or_create_open_incident clk (cd_correlation_key dec @ '':'' @ str_int bucket)
              (c_severity command) (cmd_service command) (cmd_environment command)))"

definition publish_linked ::
  "clock \<Rightarrow> alert_received_command \<Rightarrow> string \<Rightarrow> correlation_decision \<Rightarrow> uuid \<Rightarrow> incident_row \<Rightarrow>
   bool \<Rightarrow> unit cmd" where
  "publish_linked clk command fingerprint dec alert_id incident created =
     seqT
       [insert_outbox_event clk AlertReceived Alert (Agg_id alert_id) (Some (i_id incident))
          (AlertReceivedPayload alert_id fingerprint (c_source command) (i_id incident)),
        if created
        then insert_outbox_event clk IncidentCreated Incident (Agg_id (i_id incident))
               (Some (i_id incident))
               (IncidentCreatedPayload (i_id incident) (i_correlation_key incident)
                  (c_severity command) (cmd_service command) (cmd_environment command)
                  (cd_score dec) (cd_matched_signals dec))
        else insert_outbox_event clk AlertCorrelated Incident (Agg_id (i_id incident))
               (Some (i_id incident))
               (AlertCorrelatedPayload alert_id (i_id incident) (cd_score dec)
                  (cd_matched_signals dec))]"

definition process_new_alert ::
  "incident_core \<Rightarrow> clock \<Rightarrow> alert_received_command \<Rightarrow> string \<Rightarrow> alert_row \<Rightarrow>
   alert_received_result cmd" where
  "process_new_alert core clk command fingerprint alert =
     bindT (find_open_incident_candidates (cmd_service command) (cmd_environment command)
              (clk_now clk) (ic_candidate_lookback_seconds core)) (\<lambda>candidates.
       let dec = decide (ic_correlation_engine core)
                   \<lparr>na_source = source_value (c_source command), na_fingerprint = fingerprint,
                    na_labels = c_labels command, na_service = cmd_service command,
                    na_environment = cmd_environment command, na_received_at = clk_now clk\<rparr>
                   candidates
       in bindT (incident_for core clk command dec) (\<lambda>(incident, created).
          let result = \<lparr>ar_alert_id = a_id alert, ar_incident_id = Some (i_id incident),
                        ar_incident_created = created, ar_incident_status = Some (i_status incident)\<rparr>
          in thenT (seqT
               [link_alert_to_incident (a_id alert) (i_id incident),
                publish_linked clk command fingerprint dec (a_id alert) incident created,
                finalize clk command result])
             (returnT result)))"

definition process_alert_received ::
  "incident_core \<Rightarrow> clock \<Rightarrow> alert_received_command \<Rightarrow> string \<Rightarrow> alert_received_result cmd" where
  "process_alert_received core clk command fingerprint =
     thenT (acquire_correlation_lock (cmd_service command) (cmd_environment command))
     (if c_status command = Alert_RESOLVED then process_alert_resolved clk command fingerprint
      else
        bindT (insert_alert_or_get_existing clk command fingerprint) (\<lambda>(alert, already_existed).
          if already_existed then
            bindT (incident_status_of (a_incident_id alert)) (\<lambda>status.
              let result = \<lparr>ar_alert_id = a_id alert, ar_incident_id = a_incident_id alert,
                            ar_incident_created = False, ar_incident_status = status\<rparr>
              in thenT (finalize clk command result) (returnT result))
          else process_new_alert core clk command fingerprint alert))"

text \<open>
  The retry loop. A lost race rolls the transaction back and looks the winner's result up; the loop
  runs at most \<open>MAX_IDEMPOTENCY_RACE_RETRIES\<close> times.
\<close>

fun alert_received_attempts ::
  "nat \<Rightarrow> incident_core \<Rightarrow> clock \<Rightarrow> alert_received_command \<Rightarrow> string \<Rightarrow> alert_received_result cmd" where
  "alert_received_attempts 0 core clk command fingerprint =
     raiseT (RuntimeError (''failed to process AlertReceivedCommand '' @ repr_str (c_idempotency_key command)
       @ '' after '' @ str_nat MAX_IDEMPOTENCY_RACE_RETRIES @ '' retries''))"
| "alert_received_attempts (Suc n) core clk command fingerprint = (\<lambda>s.
     case process_alert_received core clk command fingerprint s of
       Inr r \<Rightarrow> Inr r
     | Inl LostIdempotencyRace \<Rightarrow>
         bindT (get_processed_command COMMAND_TYPE_ALERT_RECEIVED (c_idempotency_key command)) (\<lambda>winner.
           case winner of
             Some w \<Rightarrow> returnT (pr_result w)
           | None \<Rightarrow> alert_received_attempts n core clk command fingerprint) s
     | Inl e \<Rightarrow> Inl e)"

definition handle_alert_received ::
  "incident_core \<Rightarrow> clock \<Rightarrow> alert_received_command \<Rightarrow> alert_received_result cmd" where
  "handle_alert_received core clk command =
     bindT (get_processed_command COMMAND_TYPE_ALERT_RECEIVED (c_idempotency_key command)) (\<lambda>existing.
       case existing of
         Some row \<Rightarrow> returnT (pr_result row)
       | None \<Rightarrow>
           alert_received_attempts MAX_IDEMPOTENCY_RACE_RETRIES core clk command
             (compute_fingerprint (c_source command) (c_labels command)))"

record evidence_ref_registered_result =
  rr_evidence_id :: uuid
  rr_incident_id :: uuid
  rr_newly_registered :: bool

definition register_evidence_ref ::
  "clock \<Rightarrow> register_evidence_ref_command \<Rightarrow> evidence_ref_registered_result cmd" where
  "register_evidence_ref clk command =
     bindT (getsT (get_incident (e_incident_id command))) (\<lambda>incident.
     thenT (guardT (incident \<noteq> None) (IncidentNotFoundError (uuid_str (e_incident_id command))))
     (bindT (insert_evidence_ref clk command) (\<lambda>inserted.
       if \<not> inserted then
         bindT (get_evidence_ref (e_evidence_id command)) (\<lambda>row.
         bindT (the_or row (AssertionFailed ''existing is not None'')) (\<lambda>existing.
         thenT (guardT (er_content_hash existing = e_content_hash command \<and>
                        er_incident_id existing = e_incident_id command)
                  (EvidenceRefConflictError (uuid_str (e_evidence_id command))))
           (returnT \<lparr>rr_evidence_id = e_evidence_id command, rr_incident_id = e_incident_id command,
                     rr_newly_registered = False\<rparr>)))
       else
         thenT (insert_outbox_event clk EvidenceRefRegistered Incident (Agg_id (e_incident_id command))
                  (Some (e_incident_id command))
                  (EvidenceRefRegisteredPayload (e_evidence_id command) (e_incident_id command)
                     (e_evidence_type command) (e_source_system command) (e_content_hash command)))
           (returnT \<lparr>rr_evidence_id = e_evidence_id command, rr_incident_id = e_incident_id command,
                     rr_newly_registered = True\<rparr>))))"

subsection \<open>Queries\<close>

definition get_incident_view :: "uuid \<Rightarrow> ((incident_row \<times> alert_row list) option) cmd" where
  "get_incident_view incident_id =
     bindT (get_incident_with_alerts incident_id) (\<lambda>found.
       returnT (map_option (\<lambda>(incident, rows). (incident, sort_key a_received_at (sort_key a_id rows))) found))"

definition label_values :: "alert_row list \<Rightarrow> string \<Rightarrow> string list" where
  "label_values rows k = sorted_list_of_set (set (List.map_filter (\<lambda>a. dget (a_labels a) k) rows))"

end
