(* ===== verification/Incident_Invariant.thy ===== *)
theory Incident_Invariant
  imports Incident_Service
begin

text \<open>
  The invariant of the incident tables and its preservation by the command handler of
  \<^verbatim>\<open>packages/incident/service.py\<close>: identifiers are fresh and unique, an open correlation key and a
  \<^verbatim>\<open>(source, external_id)\<close> pair occur at most once, a command is recorded at most once, and every
  alert that is not resolved is linked to an existing incident. The set \<open>X\<close> exempts the alert that is
  being inserted until it is linked.
\<close>

definition linked_ok :: "uuid list \<Rightarrow> alert_row \<Rightarrow> bool" where
  "linked_ok iids a = (case a_incident_id a of
     None \<Rightarrow> a_status a = Alert_RESOLVED | Some i \<Rightarrow> i \<in> set iids)"

definition incident_ids :: "db \<Rightarrow> uuid list" where
  "incident_ids s = map i_id (incidents s)"

definition alert_ids :: "db \<Rightarrow> uuid list" where
  "alert_ids s = map a_id (alerts s)"

definition open_keys :: "db \<Rightarrow> string list" where
  "open_keys s = map i_correlation_key (filter (\<lambda>r. \<not> closed_status (i_status r)) (incidents s))"

definition ext_keys :: "db \<Rightarrow> (alert_source \<times> string option) list" where
  "ext_keys s = map (\<lambda>a. (a_source a, a_external_id a)) (filter (\<lambda>a. a_external_id a \<noteq> None) (alerts s))"

definition command_keys :: "db \<Rightarrow> (string \<times> string) list" where
  "command_keys s = map (\<lambda>r. (pr_command_type r, pr_idempotency_key r)) (processed_commands s)"

definition core_inv :: "uuid set \<Rightarrow> db \<Rightarrow> bool" where
  "core_inv X s \<longleftrightarrow> distinct (incident_ids s) \<and> distinct (alert_ids s) \<and>
     (\<forall>i \<in> set (incident_ids s) \<union> set (alert_ids s). i < next_uuid s) \<and>
     distinct (open_keys s) \<and> distinct (ext_keys s) \<and> distinct (command_keys s) \<and>
     (\<forall>a \<in> set (alerts s). a_id a \<notin> X \<longrightarrow> linked_ok (incident_ids s) a)"

lemmas core_projections = incident_ids_def alert_ids_def open_keys_def ext_keys_def command_keys_def

lemma core_inv_empty: "core_inv {} empty_db"
  by (simp add: core_inv_def core_projections empty_db_def)

lemma core_inv_cong:
  assumes "incidents s' = incidents s" "alerts s' = alerts s"
    "processed_commands s' = processed_commands s" "next_uuid s \<le> next_uuid s'" "core_inv X s"
  shows "core_inv X s'"
proof -
  have "incident_ids s' = incident_ids s" "alert_ids s' = alert_ids s" "open_keys s' = open_keys s"
    "ext_keys s' = ext_keys s" "command_keys s' = command_keys s"
    using assms by (simp_all add: core_projections)
  moreover have "\<forall>i \<in> set (incident_ids s) \<union> set (alert_ids s). i < next_uuid s'"
    using assms(4,5) by (auto simp: core_inv_def intro: less_le_trans)
  ultimately show ?thesis using assms(2,5) by (simp add: core_inv_def)
qed

lemma distinct_map_filter_update:
  "(\<And>r. r \<in> set rs \<Longrightarrow> P (f r) \<Longrightarrow> P r \<and> key (f r) = key r) \<Longrightarrow>
   distinct (map key (filter P rs)) \<Longrightarrow> distinct (map key (filter P (map f rs)))"
proof (induction rs)
  case (Cons r rs)
  have sub: "key ` set (filter P (map f rs)) \<subseteq> key ` set (filter P rs)"
    using Cons.prems(1) by fastforce
  have IH: "distinct (map key (filter P (map f rs)))"
    using Cons by (auto split: if_splits)
  show ?case
  proof (cases "P (f r)")
    case True
    then have "P r" "key (f r) = key r" using Cons.prems(1) [of r] by auto
    with Cons.prems(2) True IH sub show ?thesis by auto
  qed (use IH in simp)
qed simp

lemma map_filter_update:
  "(\<And>r. key (f r) = key r \<and> P (f r) = P r) \<Longrightarrow>
   map key (filter P (map f rs)) = map key (filter P rs)"
  by (induction rs) auto

subsection \<open>The primitives\<close>

lemma core_inv_outbox [inv_rules]: "invT (core_inv X) (insert_outbox_event clk ty agg ref corr payload)"
  unfolding invT_def
  by (rule relTI) (auto simp: insert_outbox_event_app intro: core_inv_cong [rotated 4])

lemma core_inv_processed [inv_rules]:
  "invT (core_inv X) (insert_processed_command clk ty key result)"
  unfolding invT_def
proof (rule relTI, intro impI)
  fix s x s'
  assume r: "insert_processed_command clk ty key result s = Inr (x, s')" and I: "core_inv X s"
  have "incident_ids s' = incident_ids s" "alert_ids s' = alert_ids s" "open_keys s' = open_keys s"
    "ext_keys s' = ext_keys s" "next_uuid s' = next_uuid s" "alerts s' = alerts s"
    using r by (auto simp: insert_processed_command_def core_projections split: if_splits)
  moreover have "distinct (command_keys s')"
    using r I by (auto simp: insert_processed_command_def core_inv_def command_keys_def list_ex_iff
        split: if_splits)
  ultimately show "core_inv X s'" using I by (simp add: core_inv_def)
qed

lemma core_inv_read [inv_rules]: "invT (core_inv X) (scalar_one_or_none xs)"
  "invT (core_inv X) (the_or v e)"
  by (auto simp: invT_def relT_def)

lemma core_inv_add_alert:
  assumes "core_inv X s" "a_id a = next_uuid s"
    "a_external_id a = None \<or> (a_source a, a_external_id a) \<notin> set (ext_keys s)"
    "a_id a \<in> X \<or> linked_ok (incident_ids s) a"
  shows "core_inv X (add_alert a (s\<lparr>next_uuid := Suc (next_uuid s)\<rparr>))"
proof -
  let ?s = "add_alert a (s\<lparr>next_uuid := Suc (next_uuid s)\<rparr>)"
  have p: "incident_ids ?s = incident_ids s" "alert_ids ?s = alert_ids s @ [next_uuid s]"
    "open_keys ?s = open_keys s" "command_keys ?s = command_keys s"
    "next_uuid ?s = Suc (next_uuid s)" "alerts ?s = alerts s @ [a]"
    "ext_keys ?s = ext_keys s @ (if a_external_id a = None then [] else [(a_source a, a_external_id a)])"
    using assms(2) by (simp_all add: core_projections add_alert_def)
  have "\<forall>i \<in> set (incident_ids s) \<union> set (alert_ids s). i < next_uuid s"
    using assms(1) by (simp add: core_inv_def)
  then have "next_uuid s \<notin> set (alert_ids s)"
    "\<forall>i \<in> set (incident_ids s) \<union> (set (alert_ids s) \<union> {next_uuid s}). i < Suc (next_uuid s)"
    by (auto simp: less_Suc_eq)
  with assms p show ?thesis by (auto simp: core_inv_def)
qed

lemma core_inv_add_incident:
  assumes "core_inv X s" "i_id r = next_uuid s" "i_correlation_key r \<notin> set (open_keys s)"
  shows "core_inv X (add_incident r (s\<lparr>next_uuid := Suc (next_uuid s)\<rparr>))"
proof -
  let ?s = "add_incident r (s\<lparr>next_uuid := Suc (next_uuid s)\<rparr>)"
  have p: "incident_ids ?s = incident_ids s @ [next_uuid s]" "alert_ids ?s = alert_ids s"
    "open_keys ?s = open_keys s @ (if closed_status (i_status r) then [] else [i_correlation_key r])"
    "command_keys ?s = command_keys s" "ext_keys ?s = ext_keys s"
    "next_uuid ?s = Suc (next_uuid s)" "alerts ?s = alerts s"
    using assms(2) by (simp_all add: core_projections add_incident_def)
  have "\<forall>i \<in> set (incident_ids s) \<union> set (alert_ids s). i < next_uuid s"
    using assms(1) by (simp add: core_inv_def)
  then have "next_uuid s \<notin> set (incident_ids s)"
    "\<forall>i \<in> set (incident_ids s) \<union> {next_uuid s} \<union> set (alert_ids s). i < Suc (next_uuid s)"
    by (auto simp: less_Suc_eq)
  moreover have "linked_ok (incident_ids s) a \<Longrightarrow> linked_ok (incident_ids s @ [next_uuid s]) a" for a
    by (auto simp: linked_ok_def split: option.splits)
  ultimately show ?thesis using assms p by (auto simp: core_inv_def)
qed

text \<open>Rows keep their identity; a row that is open afterwards was open under the same key before.\<close>

lemma core_inv_set_incident:
  assumes "core_inv X s" "\<And>r. i_id (f r) = i_id r"
    "\<And>r. get_incident k s = Some r \<Longrightarrow> \<not> closed_status (i_status (f r)) \<Longrightarrow>
       \<not> closed_status (i_status r) \<and> i_correlation_key (f r) = i_correlation_key r"
  shows "core_inv X (set_incident k f s)"
proof -
  let ?g = "\<lambda>r. if i_id r = k then f r else r"
  let ?s = "set_incident k f s"
  have d: "distinct (map i_id (incidents s))"
    using assms(1) by (simp add: core_inv_def incident_ids_def)
  have "distinct (map i_correlation_key (filter (\<lambda>r. \<not> closed_status (i_status r)) (map ?g (incidents s))))"
  proof (rule distinct_map_filter_update)
    fix r assume "r \<in> set (incidents s)" "\<not> closed_status (i_status (?g r))"
    then show "\<not> closed_status (i_status r) \<and> i_correlation_key (?g r) = i_correlation_key r"
      using assms(3) [of r] inc.get_of_row [OF d] by (auto split: if_splits)
  qed (use assms(1) in \<open>simp add: core_inv_def open_keys_def\<close>)
  then have "distinct (open_keys ?s)"
    by (simp add: open_keys_def set_incident_def update_rows_def)
  moreover have "incident_ids ?s = incident_ids s"
    using assms(2) by (simp add: incident_ids_def inc.rows_update map_key_update_rows)
  moreover have "alert_ids ?s = alert_ids s" "ext_keys ?s = ext_keys s" "alerts ?s = alerts s"
    "command_keys ?s = command_keys s" "next_uuid ?s = next_uuid s"
    by (simp_all add: core_projections set_incident_def)
  ultimately show ?thesis using assms(1) by (simp add: core_inv_def)
qed

lemma core_inv_set_alert:
  assumes "core_inv X s"
    "\<And>a. a_id (f a) = a_id a \<and> a_source (f a) = a_source a \<and> a_external_id (f a) = a_external_id a"
    "\<And>a. a \<in> set (alerts s) \<Longrightarrow> a_id a = k \<Longrightarrow> a_id a \<notin> Y \<Longrightarrow> linked_ok (incident_ids s) (f a)"
    "X - {k} \<subseteq> Y"
  shows "core_inv Y (set_alert k f s)"
proof -
  let ?g = "\<lambda>a. if a_id a = k then f a else a"
  let ?s = "set_alert k f s"
  have rows: "alerts ?s = map ?g (alerts s)" by (simp add: set_alert_def update_rows_def)
  have g: "a_id (?g a) = a_id a" "(a_source (?g a), a_external_id (?g a)) = (a_source a, a_external_id a)" for a
    using assms(2) [of a] by auto
  have "ext_keys ?s = ext_keys s"
    unfolding ext_keys_def rows using assms(2) by (intro map_filter_update) auto
  moreover have "alert_ids ?s = alert_ids s"
    using assms(2) by (simp add: alert_ids_def alr.rows_update map_key_update_rows)
  moreover have "\<forall>a \<in> set (alerts s). a_id a \<notin> Y \<longrightarrow> linked_ok (incident_ids s) (?g a)"
    using assms(1,3,4) by (auto simp: core_inv_def)
  then have "\<forall>a \<in> set (alerts ?s). a_id a \<notin> Y \<longrightarrow> linked_ok (incident_ids s) a"
    unfolding rows by (auto simp: assms(2))
  moreover have "incident_ids ?s = incident_ids s" "open_keys ?s = open_keys s"
    "command_keys ?s = command_keys s" "next_uuid ?s = next_uuid s"
    by (simp_all add: core_projections set_alert_def)
  ultimately show ?thesis using assms(1) by (simp add: core_inv_def)
qed

subsection \<open>The handlers\<close>

lemma core_inv_transition_closing:
  "closed_status to_status \<Longrightarrow> invT (core_inv X) (transition_incident_status incident to_status now closes)"
  unfolding invT_def
proof (rule relTI, intro impI)
  fix s x s'
  assume c: "closed_status to_status" and I: "core_inv X s"
    and "transition_incident_status incident to_status now closes s = Inr (x, s')"
  then consider "s' = s" | "s' = set_incident (i_id incident) (\<lambda>r. r\<lparr>i_status := to_status,
        i_version := i_version incident + 1, i_updated_at := now,
        i_closed_at := (if closes then Some now else i_closed_at r)\<rparr>) s"
    by (auto simp: transition_incident_status_def split: option.splits if_splits)
  then show "core_inv X s'"
  proof cases
    case 2
    then show ?thesis by (simp only:, intro core_inv_set_incident I) (use c in simp_all)
  qed (simp add: I)
qed

lemma core_inv_touch [inv_rules]: "invT (core_inv X) (touch_incident_updated_at clk i)"
  unfolding touch_incident_updated_at_def by (rule invT_modify) (rule core_inv_set_incident; simp)

lemma core_inv_mark_resolved [inv_rules]: "invT (core_inv X) (mark_alert_resolved a now)"
  unfolding mark_alert_resolved_def
  by (rule invT_modify, rule core_inv_set_alert [where X = X])
    (auto simp: core_inv_def linked_ok_def split: option.splits)

lemma core_inv_cancel_incident [inv_rules]: "invT (core_inv X) (cancel_incident clk incident)"
  unfolding cancel_incident_def
  by (intro inv_rules core_inv_transition_closing) (simp add: CLOSED_INCIDENT_STATUSES_def)

lemma core_inv_finalize [inv_rules]: "invT (core_inv X) (finalize clk command result)"
  unfolding finalize_def by (intro inv_rules)

lemma core_inv_incident_status_of [inv_rules]: "invT (core_inv X) (incident_status_of i)"
  unfolding incident_status_of_def by (intro inv_rules)

lemma core_inv_finish_resolution [inv_rules]: "invT (core_inv X) (finish_resolution clk command a)"
  unfolding finish_resolution_def by (intro inv_rules)

lemma core_inv_resolve_firing_alert [inv_rules]: "invT (core_inv X) (resolve_firing_alert clk alert)"
  unfolding resolve_firing_alert_def count_firing_alerts_def by (intro inv_rules)

lemma alerts_with_ext_keys:
  "alerts_with command (alerts s) = [] \<Longrightarrow> c_external_id command \<noteq> None \<Longrightarrow>
   (c_source command, c_external_id command) \<notin> set (ext_keys s)"
  by (force simp: alerts_with_def ext_keys_def filter_empty_conv)

lemma find_alert_none:
  "find_alert_to_resolve command fp s = Inr (None, s') \<Longrightarrow>
   s' = s \<and> (c_external_id command = None \<or>
             (c_source command, c_external_id command) \<notin> set (ext_keys s))"
  using alerts_with_ext_keys [of command s] by (auto simp: find_alert_to_resolve_def split: if_splits)

lemma find_alert_keeps: "find_alert_to_resolve command fp s = Inr (a, s') \<Longrightarrow> s' = s"
  by (auto simp: find_alert_to_resolve_def split: if_splits)

lemma core_inv_process_alert_resolved [inv_rules]:
  "invT (core_inv X) (process_alert_resolved clk command fp)"
  unfolding invT_def
proof (rule relTI, intro impI)
  fix s x s'
  assume r: "process_alert_resolved clk command fp s = Inr (x, s')" and I: "core_inv X s"
  then obtain found where f: "find_alert_to_resolve command fp s = Inr (found, s)"
    by (auto simp: process_alert_resolved_def dest: find_alert_keeps)
  show "core_inv X s'"
  proof (cases found)
    case None
    let ?a = "new_alert_row clk command fp Alert_RESOLVED (Some (clk_now clk)) (next_uuid s)"
    let ?t = "add_alert ?a (s\<lparr>next_uuid := Suc (next_uuid s)\<rparr>)"
    have A: "core_inv X ?t"
      using I find_alert_none [of command fp s] f None
      by (intro core_inv_add_alert) (auto simp: new_alert_row_def linked_ok_def)
    have B: "finish_resolution clk command (a_id ?a) ?t = Inr (x, s')"
      using r f None
      by (simp add: process_alert_resolved_def insert_unlinked_resolved_alert_def insert_alert_def
          tx_run new_uuid_app)
    show ?thesis by (rule invTD [OF core_inv_finish_resolution A B])
  next
    case (Some alert)
    let ?m = "if a_status alert = Alert_RESOLVED then finish_resolution clk command (a_id alert)
      else thenT (resolve_firing_alert clk alert) (finish_resolution clk command (a_id alert))"
    have A: "invT (core_inv X) ?m" by (intro inv_rules)
    have B: "?m s = Inr (x, s')" using r f Some by (simp add: process_alert_resolved_def tx_run)
    show ?thesis by (rule invTD [OF A I B])
  qed
qed

lemma select_open_incident_Inr:
  "select_open_incident key s = Inr (r, s') \<Longrightarrow>
   s' = s \<and> (r = None \<longrightarrow> key \<notin> set (open_keys s)) \<and> (\<forall>row. r = Some row \<longrightarrow> row \<in> set (incidents s) \<and>
     i_correlation_key row = key \<and> \<not> closed_status (i_status row))"
proof -
  assume *: "select_open_incident key s = Inr (r, s')"
  have "r = Some row \<Longrightarrow> row \<in> set (filter (\<lambda>r. i_correlation_key r = key \<and>
      \<not> closed_status (i_status r)) (incidents s))" for row
    using * by (auto simp: select_open_incident_def)
  moreover have "r = None \<Longrightarrow> key \<notin> set (open_keys s)"
    using * by (auto simp: select_open_incident_def open_keys_def filter_empty_conv)
  ultimately show ?thesis using * by (auto simp: select_open_incident_def)
qed

lemma get_or_create_spec:
  assumes "get_or_create_open_incident clk key sev svc env s = Inr ((incident, created), s')"
    and "core_inv X s"
  shows "core_inv X s' \<and> incident \<in> set (incidents s') \<and> alerts s' = alerts s \<and>
    \<not> closed_status (i_status incident)"
proof -
  obtain r where r: "select_open_incident key s = Inr (r, s)"
    using assms(1) select_open_incident_Inr by (fastforce simp: get_or_create_open_incident_def)
  show ?thesis
  proof (cases r)
    case (Some row)
    with assms r select_open_incident_Inr [OF r] show ?thesis
      by (auto simp: get_or_create_open_incident_def tx_run)
  next
    case None
    then have k: "key \<notin> set (open_keys s)" using select_open_incident_Inr [OF r] by simp
    then have "\<not> list_ex (\<lambda>r. i_correlation_key r = key \<and> \<not> closed_status (i_status r)) (incidents s)"
      by (auto simp: open_keys_def list_ex_iff)
    with assms(1) r None have "incident = new_incident_row clk key sev svc env (next_uuid s)"
      "s' = add_incident incident (s\<lparr>next_uuid := Suc (next_uuid s)\<rparr>)"
      by (auto simp: get_or_create_open_incident_def tx_run new_uuid_app Let_def)
    moreover from this have "core_inv X s'"
      using assms(2) k by (simp add: core_inv_add_incident new_incident_row_def)
    ultimately show ?thesis
      by (simp add: add_incident_def new_incident_row_def CLOSED_INCIDENT_STATUSES_def)
  qed
qed

lemma incident_for_spec:
  assumes "incident_for core clk command dec s = Inr ((incident, created), s')" and "core_inv X s"
  shows "core_inv X s' \<and> i_id incident \<in> set (incident_ids s') \<and> alerts s' = alerts s"
proof (cases "cd_decision dec = CORRELATE")
  case True
  with assms(1) obtain iid where iid: "get_incident iid s = Some incident"
    "touch_incident_updated_at clk iid s = Inr ((), s')"
    by (auto simp: incident_for_def)
  have "core_inv X s'" by (rule invTD [OF core_inv_touch assms(2) iid(2)])
  moreover have "incident_ids s' = incident_ids s" "alerts s' = alerts s"
    using iid(2) by (auto simp: touch_incident_updated_at_def incident_ids_def inc.rows_update
        map_key_update_rows set_incident_def)
  moreover have "i_id incident \<in> set (incident_ids s)"
    using inc.getD [OF iid(1)] by (auto simp: incident_ids_def)
  ultimately show ?thesis by simp
next
  case False
  then show ?thesis using assms get_or_create_spec [of clk _ _ _ _ s incident created s' X]
    by (auto simp: incident_for_def Let_def incident_ids_def)
qed

lemma link_spec:
  assumes "link_alert_to_incident aid iid s = Inr (u, s')" "core_inv {aid} s"
    "iid \<in> set (incident_ids s)"
  shows "core_inv {} s'"
proof -
  have "s' = set_alert aid (\<lambda>a. a\<lparr>a_incident_id := Some iid\<rparr>) s"
    using assms(1) by (auto simp: link_alert_to_incident_def)
  moreover have "core_inv {} (set_alert aid (\<lambda>a. a\<lparr>a_incident_id := Some iid\<rparr>) s)"
    by (rule core_inv_set_alert [OF assms(2)]) (auto simp: linked_ok_def assms(3))
  ultimately show ?thesis by simp
qed

lemma core_inv_publish_linked [inv_rules]:
  "invT (core_inv X) (publish_linked clk command fp dec aid incident created)"
  unfolding publish_linked_def by (intro inv_rules)

lemma process_new_alert_spec:
  assumes "process_new_alert core clk command fp alert s = Inr (x, s')" "core_inv {a_id alert} s"
  shows "core_inv {} s'"
proof -
  obtain dec incident created result s1 s2 where
    inc: "incident_for core clk command dec s = Inr ((incident, created), s1)"
    and link: "link_alert_to_incident (a_id alert) (i_id incident) s1 = Inr ((), s2)"
    and rest: "thenT (publish_linked clk command fp dec (a_id alert) incident created)
       (finalize clk command result) s2 = Inr ((), s')"
    using assms(1)
    by (auto simp: process_new_alert_def find_open_incident_candidates_def Let_def)
  have "core_inv {} s2"
    using incident_for_spec [OF inc assms(2)] link_spec [OF link] by simp
  moreover have "invT (core_inv {}) (thenT (publish_linked clk command fp dec (a_id alert) incident created)
       (finalize clk command result))"
    by (intro inv_rules)
  ultimately show ?thesis using rest invTD by metis
qed

lemma insert_alert_or_get_existing_cases:
  assumes "insert_alert_or_get_existing clk command fp s = Inr ((alert, existed), s')"
  obtains (existing) "existed" "s' = s" "alert \<in> set (alerts s)"
      "a_source alert = c_source command" "a_external_id alert = c_external_id command"
  | (new) "\<not> existed" "alert = new_alert_row clk command fp (c_status command) None (next_uuid s)"
      "s' = add_alert alert (s\<lparr>next_uuid := Suc (next_uuid s)\<rparr>)"
      "c_external_id command = None \<or> alerts_with command (alerts s) = []"
proof (cases "c_external_id command \<noteq> None \<and> alerts_with command (alerts s) \<noteq> []")
  case True
  with assms have e: "existed" "s' = s" "alerts_with command (alerts s) = [alert]"
    by (auto simp: insert_alert_or_get_existing_def Let_def)
  then have "alert \<in> set (alerts_with command (alerts s))" by simp
  then have "alert \<in> set (alerts s) \<and> a_source alert = c_source command \<and>
      a_external_id alert = c_external_id command"
    unfolding alerts_with_def set_filter by blast
  with e show thesis by (intro existing) simp_all
next
  case False
  with assms show thesis
    by (intro new) (auto simp: insert_alert_or_get_existing_def insert_alert_def Let_def tx_run
        new_uuid_app split: if_splits)
qed

lemma core_inv_insert_new_alert:
  assumes "core_inv {} s" "c_external_id command = None \<or> alerts_with command (alerts s) = []"
  shows "core_inv {next_uuid s}
    (add_alert (new_alert_row clk command fp status r (next_uuid s)) (s\<lparr>next_uuid := Suc (next_uuid s)\<rparr>))"
proof (rule core_inv_add_alert)
  show "core_inv {next_uuid s} s" using assms(1) by (simp add: core_inv_def)
  show "a_external_id (new_alert_row clk command fp status r (next_uuid s)) = None \<or>
    (a_source (new_alert_row clk command fp status r (next_uuid s)),
     a_external_id (new_alert_row clk command fp status r (next_uuid s))) \<notin> set (ext_keys s)"
    using assms(2) alerts_with_ext_keys [of command s] by (auto simp: new_alert_row_def)
qed (simp_all add: new_alert_row_def)

lemma core_inv_process_alert_received [inv_rules]:
  "invT (core_inv {}) (process_alert_received core clk command fp)"
  unfolding invT_def
proof (rule relTI, intro impI)
  fix s x s'
  assume r: "process_alert_received core clk command fp s = Inr (x, s')" and I: "core_inv {} s"
  show "core_inv {} s'"
  proof (cases "c_status command = Alert_RESOLVED")
    case True
    with r have "process_alert_resolved clk command fp s = Inr (x, s')"
      by (auto simp: process_alert_received_def acquire_correlation_lock_def)
    then show ?thesis by (rule invTD [OF core_inv_process_alert_resolved I])
  next
    case False
    with r obtain alert existed s1 where
      ins: "insert_alert_or_get_existing clk command fp s = Inr ((alert, existed), s1)"
      by (auto simp: process_alert_received_def acquire_correlation_lock_def)
    from ins show ?thesis
    proof (cases rule: insert_alert_or_get_existing_cases)
      case existing
      let ?m = "bindT (incident_status_of (a_incident_id alert)) (\<lambda>status.
          let result = \<lparr>ar_alert_id = a_id alert, ar_incident_id = a_incident_id alert,
            ar_incident_created = False, ar_incident_status = status\<rparr>
          in thenT (finalize clk command result) (returnT result))"
      have A: "invT (core_inv {}) ?m" by (intro inv_rules)
      have B: "?m s = Inr (x, s')"
        using r False ins existing
        by (simp add: process_alert_received_def acquire_correlation_lock_def tx_run)
      show ?thesis by (rule invTD [OF A I B])
    next
      case new
      have A: "process_new_alert core clk command fp alert s1 = Inr (x, s')"
        using r False ins new by (simp add: process_alert_received_def acquire_correlation_lock_def tx_run)
      have B: "core_inv {a_id alert} s1"
        using core_inv_insert_new_alert [OF I new(4), of clk fp "c_status command" None] new(2,3)
        by (simp add: new_alert_row_def)
      show ?thesis by (rule process_new_alert_spec [OF A B])
    qed
  qed
qed

lemma core_inv_get_processed_command [inv_rules]:
  "invT (core_inv X) (get_processed_command ty key)"
  unfolding get_processed_command_def by (intro inv_rules)

lemma core_inv_attempts [inv_rules]:
  "invT (core_inv {}) (alert_received_attempts n core clk command fp)"
proof (induction n)
  case 0
  then show ?case by (simp add: inv_rules)
next
  case (Suc n)
  let ?w = "bindT (get_processed_command COMMAND_TYPE_ALERT_RECEIVED (c_idempotency_key command)) (\<lambda>winner.
      case winner of Some w \<Rightarrow> returnT (pr_result w) | None \<Rightarrow> alert_received_attempts n core clk command fp)"
  have w: "invT (core_inv {}) ?w" by (intro inv_rules Suc.IH)
  show ?case unfolding invT_def
  proof (rule relTI, intro impI)
    fix s x s'
    assume "alert_received_attempts (Suc n) core clk command fp s = Inr (x, s')" and I: "core_inv {} s"
    then consider "process_alert_received core clk command fp s = Inr (x, s')" | "?w s = Inr (x, s')"
      by (auto split: sum.splits error.splits)
    then show "core_inv {} s'"
      by cases (rule invTD [OF core_inv_process_alert_received I] invTD [OF w I], assumption)+
  qed
qed

lemma core_inv_handle_alert_received [inv_rules]:
  "invT (core_inv {}) (handle_alert_received core clk command)"
  unfolding handle_alert_received_def by (intro inv_rules)

lemma core_inv_register_evidence_ref [inv_rules]:
  "invT (core_inv X) (register_evidence_ref clk command)"
proof -
  have "invT (core_inv X) (insert_evidence_ref clk command)"
    unfolding invT_def
    by (rule relTI) (auto simp: insert_evidence_ref_def get_evidence_ref_def
        intro: core_inv_cong [rotated 4] split: if_splits)
  then show ?thesis
    unfolding register_evidence_ref_def get_evidence_ref_def by (intro inv_rules)
qed

end
