(* ===== verification/Incident_Status.thy ===== *)
theory Incident_Status
  imports Repository
begin

text \<open>
  How the status of incidents may change. \<open>inc_rel E s s'\<close> says that every incident of \<open>s\<close> still exists
  in \<open>s'\<close> and that its status was moved only along edges of \<open>E\<close>. The edges each component owns are
  listed here; the closed statuses are the source of none of them.
\<close>

type_synonym edges = "(incident_status \<times> incident_status) set"

definition inc_rel :: "edges \<Rightarrow> db \<Rightarrow> db \<Rightarrow> bool" where
  "inc_rel E s s' \<longleftrightarrow> (\<forall>i row. get_incident i s = Some row \<longrightarrow>
     (\<exists>row'. get_incident i s' = Some row' \<and> (i_status row, i_status row') \<in> E\<^sup>*))"

definition alert_edges :: edges where
  "alert_edges = {(TRIAGING, CANCELLED)}"

definition remediation_edges :: edges where
  "remediation_edges =
     {(RCA_READY, ESCALATED), (RCA_READY, AWAITING_APPROVAL),
      (AWAITING_APPROVAL, REMEDIATION_IN_PROGRESS), (AWAITING_APPROVAL, ESCALATED),
      (AWAITING_APPROVAL, RCA_READY), (REMEDIATION_IN_PROGRESS, ESCALATED),
      (REMEDIATION_IN_PROGRESS, RCA_READY), (REMEDIATION_IN_PROGRESS, VERIFYING)}"

text \<open>The part of them each remediation command may use; a block or a failed attempt uses \<open>failure_edges\<close>.\<close>

definition proposal_edges :: edges where
  "proposal_edges = {(RCA_READY, ESCALATED), (RCA_READY, AWAITING_APPROVAL)}"

definition failure_edges :: edges where
  "failure_edges = {(AWAITING_APPROVAL, ESCALATED), (REMEDIATION_IN_PROGRESS, ESCALATED)}"

definition approval_edges :: edges where
  "approval_edges = insert (AWAITING_APPROVAL, REMEDIATION_IN_PROGRESS) failure_edges"

definition completion_edges :: edges where
  "completion_edges = insert (REMEDIATION_IN_PROGRESS, VERIFYING) failure_edges"

definition withdrawal_edges :: edges where
  "withdrawal_edges = {(AWAITING_APPROVAL, RCA_READY), (REMEDIATION_IN_PROGRESS, RCA_READY)}"

lemma remediation_edges_parts:
  "proposal_edges \<subseteq> remediation_edges" "failure_edges \<subseteq> remediation_edges"
  "approval_edges \<subseteq> remediation_edges" "completion_edges \<subseteq> remediation_edges"
  "withdrawal_edges \<subseteq> remediation_edges"
  by (auto simp: remediation_edges_def proposal_edges_def failure_edges_def approval_edges_def
      completion_edges_def withdrawal_edges_def)

definition verification_edges :: edges where
  "verification_edges =
     {(VERIFYING, RESOLVED), (VERIFYING, ESCALATED), (VERIFYING, VERIFICATION_FAILED),
      (VERIFICATION_FAILED, ESCALATED)}"

definition investigation_edges :: edges where
  "investigation_edges =
     {(TRIAGING, INVESTIGATING), (VERIFICATION_FAILED, INVESTIGATING), (INVESTIGATING, RCA_READY),
      (INVESTIGATING, ESCALATED)}"

definition request_edges :: edges where
  "request_edges = {(TRIAGING, INVESTIGATING), (VERIFICATION_FAILED, INVESTIGATING)}"

lemma request_edges_part: "request_edges \<subseteq> investigation_edges"
  by (auto simp: request_edges_def investigation_edges_def)

definition incident_edges :: edges where
  "incident_edges = alert_edges \<union> remediation_edges \<union> verification_edges \<union> investigation_edges"

lemma inc_rel_refl: "inc_rel E s s"
  by (auto simp: inc_rel_def)

lemma inc_rel_trans: "inc_rel E s t \<Longrightarrow> inc_rel E t u \<Longrightarrow> inc_rel E s u"
  unfolding inc_rel_def by (meson rtrancl_trans)

interpretation ist: tx_relation "inc_rel E" for E
  by unfold_locales (auto intro: inc_rel_refl inc_rel_trans)

lemma inc_rel_mono: "E \<subseteq> F \<Longrightarrow> inc_rel E s s' \<Longrightarrow> inc_rel F s s'"
  unfolding inc_rel_def using rtrancl_mono by blast

lemma inc_rel_same: "incidents s' = incidents s \<Longrightarrow> inc_rel E s s'"
  by (auto simp: inc_rel_def get_incident_def)

lemma inc_rel_keeps: "keepsT incidents m \<Longrightarrow> relT (inc_rel E) m"
  by (auto simp: keepsT_def relT_def inc_rel_same)

lemma inc_rel_add: "inc_rel E s (add_incident r s)"
  by (auto simp: inc_rel_def intro: inc.get_insert_old)

lemma inc_rel_set:
  assumes "\<And>r. i_id (f r) = i_id r"
    and "\<And>r. get_incident k s = Some r \<Longrightarrow> (i_status r, i_status (f r)) \<in> E\<^sup>*"
  shows "inc_rel E s (set_incident k f s)"
  unfolding inc_rel_def
proof (intro allI impI)
  fix i row
  assume row: "get_incident i s = Some row"
  show "\<exists>row'. get_incident i (set_incident k f s) = Some row' \<and> (i_status row, i_status row') \<in> E\<^sup>*"
  proof (cases "i = k")
    case True
    with row assms show ?thesis by (simp add: inc.get_update_same)
  next
    case False
    with row assms(1) show ?thesis by (simp add: inc.get_update_other)
  qed
qed

lemma inc_rel_new_uuid: "inc_rel E s (s\<lparr>next_uuid := u\<rparr>)"
  by (simp add: inc_rel_same)

lemma inc_rel_outbox: "relT (inc_rel E) (insert_outbox_event clk ty agg ref corr payload)"
  by (rule inc_rel_keeps) (auto simp: keepsT_def relT_def insert_outbox_event_app)

lemma inc_rel_the_or: "relT (inc_rel E) (the_or v e)"
  by (rule inc_rel_keeps) (rule the_or_keeps)

lemma inc_rel_scalar: "relT (inc_rel E) (scalar_one_or_none xs)"
  by (rule inc_rel_keeps) (rule scalar_one_or_none_keeps)

lemma inc_rel_uuid: "relT (inc_rel E) new_uuid"
  by (auto simp: relT_def inc_rel_new_uuid)

lemmas inc_rules = ist.rules inc_rel_outbox inc_rel_the_or inc_rel_scalar inc_rel_uuid

lemma closed_no_edge: "closed_status st \<Longrightarrow> (st, st') \<notin> incident_edges"
  by (auto simp: CLOSED_INCIDENT_STATUSES_def incident_edges_def alert_edges_def remediation_edges_def
      verification_edges_def investigation_edges_def)

lemma closed_stays: "closed_status st \<Longrightarrow> (st, st') \<in> incident_edges\<^sup>* \<Longrightarrow> st' = st"
  by (erule converse_rtranclE) (auto dest: closed_no_edge)

end
