(* ===== verification/Command_Steps.thy ===== *)
theory Command_Steps
  imports Verifications Incident_Invariant Incident_Status "HOL-Library.Sublist"
begin

text \<open>
  The remediation and verification commands change incidents in one way only: a move along an edge,
  announced in the outbox in the same transaction. \<open>quiet\<close> relates databases between which the incident
  tables did not change and events were only appended; \<open>moved\<close> is the database after a move. The locale
  \<open>incident_moves\<close> states what a relation must satisfy to hold across every command; it is interpreted
  below for the status edges, for the announcement of moves, for the append-only outbox and for the
  invariant of the incident tables.
\<close>

text \<open>The tables only the investigation commands write.\<close>

definition inv_tables where
  "inv_tables s = (investigations s, hypotheses s, hypothesis_links s, investigation_steps s, rca_reports s)"

definition quiet :: "db \<Rightarrow> db \<Rightarrow> bool" where
  "quiet s s' \<longleftrightarrow> incidents s' = incidents s \<and> alerts s' = alerts s \<and>
     processed_commands s' = processed_commands s \<and> prefix (outbox s) (outbox s') \<and>
     prefix (verifications s) (verifications s') \<and> next_uuid s \<le> next_uuid s' \<and>
     inv_tables s' = inv_tables s \<and> evidence_refs s' = evidence_refs s"

text \<open>The verification commands may also change rows of verifications: \<open>vquiet\<close>.\<close>

definition vquiet :: "db \<Rightarrow> db \<Rightarrow> bool" where
  "vquiet s s' \<longleftrightarrow> incidents s' = incidents s \<and> alerts s' = alerts s \<and>
     processed_commands s' = processed_commands s \<and> prefix (outbox s) (outbox s') \<and>
     next_uuid s \<le> next_uuid s' \<and> inv_tables s' = inv_tables s \<and> evidence_refs s' = evidence_refs s"

interpretation qt: tx_relation quiet
  by unfold_locales (auto simp: quiet_def intro: prefix_order.trans)

interpretation vqt: tx_relation vquiet
  by unfold_locales (auto simp: vquiet_def intro: prefix_order.trans)

lemma quiet_vquiet: "quiet s s' \<Longrightarrow> vquiet s s'"
  by (simp add: quiet_def vquiet_def)

lemma vquiet_of_quiet: "relT quiet m \<Longrightarrow> relT vquiet m"
  by (auto simp: relT_def intro: quiet_vquiet)

lemma quiet_outbox: "relT quiet (insert_outbox_event clk ty agg ref corr payload)"
  by (rule relTI) (simp add: insert_outbox_event_app quiet_def inv_tables_def)

lemma quiet_read: "relT quiet (the_or v e)" "relT quiet (scalar_one_or_none xs)"
  by (auto simp: relT_def quiet_def)

lemma quiet_uuid: "relT quiet new_uuid"
  by (auto simp: relT_def quiet_def inv_tables_def)

lemma quiet_table:
  "quiet s (set_remediation k rf s)" "quiet s (add_remediation r s)"
  "quiet s (set_execution k xf s)" "quiet s (add_execution x s)"
  "quiet s (add_verification v s)"
  "quiet s (set_kill_switch_row sc kf s)" "quiet s (add_kill_switch w s)"
  "quiet s (s\<lparr>timeline := tl' s\<rparr>)" "quiet s (s\<lparr>policy_decisions := ds' s\<rparr>)" "quiet s (s\<lparr>approvals := aps' s\<rparr>)"
  "quiet s (s\<lparr>baselines := bs' s\<rparr>)" "quiet s (s\<lparr>observations := obs' s\<rparr>)"
  "quiet s (s\<lparr>verification_evidence := ves' s\<rparr>)"
  by (simp_all add: quiet_def inv_tables_def table_defs)

lemma vquiet_set: "vquiet s (set_verification k f s)"
  by (simp add: vquiet_def inv_tables_def set_verification_def)

lemmas quiet_modify = quiet_table [THEN qt.rel_modify]

lemmas quiet_rules = qt.rules quiet_outbox quiet_read quiet_uuid quiet_modify

lemma quiet_lock: "relT quiet (lock k)" "relT quiet (lock_incident i)" "relT quiet (lock_verification v)"
  unfolding lock_def lock_incident_def lock_verification_def by (intro quiet_rules)+

lemma quiet_view: "relT quiet (view k)" "relT quiet (ticket k x mode)"
  unfolding ticket_def view_def by (intro quiet_rules quiet_lock)+

lemma quiet_timeline: "relT quiet (add_timeline clk k ev from to actor details version)"
  unfolding add_timeline_def by (intro quiet_rules quiet_lock)

lemma quiet_event: "relT quiet (remediation_event clk k ty actor dec)"
  unfolding remediation_event_def by (intro quiet_rules quiet_lock)

lemma quiet_transition: "relT quiet (transition clk k to ev actor details version)"
  unfolding transition_def by (intro quiet_rules quiet_lock quiet_timeline)

lemma quiet_context: "relT quiet (build_context core clk incident proposal tier)"
  unfolding build_context_def by (intro quiet_rules)

lemma quiet_decision: "relT quiet (record_decision core clk k dec context)"
  unfolding record_decision_def by (intro quiet_rules quiet_lock quiet_timeline quiet_event)

lemma quiet_proposal: "relT quiet (record_proposal core clk incident proposal key corr tier)"
  unfolding record_proposal_def by (intro quiet_rules quiet_timeline quiet_event)

lemma quiet_approval: "relT quiet (insert_approval clk row dec approver role comment)"
  unfolding insert_approval_def by (intro quiet_rules)

lemma quiet_blocker: "relT quiet (execution_blocker core row entry)"
  unfolding execution_blocker_def by (intro quiet_rules)

lemma quiet_interrupt: "relT quiet (interrupt_execution clk row x owner lease)"
  unfolding interrupt_execution_def by (intro quiet_rules quiet_timeline quiet_view)

lemma quiet_start_execution: "relT quiet (start_execution clk row entry owner lease)"
  unfolding start_execution_def by (intro quiet_rules quiet_transition quiet_event quiet_view)

lemma quiet_link: "relT quiet (link_evidence v e n role collected)"
  unfolding link_evidence_def by (intro quiet_rules)

lemma quiet_request: "relT quiet (request_verification core clk k entry)"
  unfolding request_verification_def by (intro quiet_rules quiet_lock quiet_timeline quiet_link)

lemma quiet_verification_event: "relT quiet (verification_event clk v ty)"
  unfolding verification_event_def by (intro quiet_rules quiet_lock)

lemma quiet_closure: "relT quiet (closure clk i ty reason row)"
  unfolding closure_def by (intro quiet_rules quiet_lock)

lemmas quiet_helpers = quiet_lock quiet_view quiet_timeline quiet_event quiet_transition quiet_context
  quiet_decision quiet_proposal quiet_approval quiet_blocker quiet_interrupt quiet_start_execution
  quiet_link quiet_request quiet_verification_event quiet_closure

lemmas vquiet_rules = vqt.rules quiet_helpers [THEN vquiet_of_quiet] quiet_read [THEN vquiet_of_quiet]
  quiet_modify [THEN vquiet_of_quiet] vquiet_set [THEN vqt.rel_modify]

lemma vquiet_start_row: "relT vquiet (start_row clk row)"
  unfolding start_row_def by (intro vquiet_rules)

lemma vquiet_record_sample: "relT vquiet (record_sample clk tkt result errs ids observed)"
  unfolding record_sample_def by (intro vquiet_rules)

text \<open>Commands that never touch an incident.\<close>

lemma quiet_record_baseline: "relT quiet (record_baseline clk k owner vals ids)"
  unfolding record_baseline_def by (intro quiet_rules quiet_helpers)

lemma quiet_set_kill_switch: "relT quiet (set_kill_switch clk scope engaged actor reason)"
  unfolding set_kill_switch_def by (intro quiet_rules)

lemma vquiet_start: "relT vquiet (start clk v)"
  unfolding start_def by (intro vquiet_rules vquiet_start_row)

subsection \<open>Moving an incident\<close>

definition moved :: "clock \<Rightarrow> incident_row \<Rightarrow> incident_status \<Rightarrow> string \<Rightarrow> db \<Rightarrow> db" where
  "moved clk row to_status reason s =
     (set_incident (i_id row) (\<lambda>r. r\<lparr>i_status := to_status, i_version := i_version row + 1,
        i_updated_at := clk_now clk, i_closed_at := i_closed_at r\<rparr>) s)
     \<lparr>next_uuid := Suc (next_uuid s),
      outbox := outbox s @
        [new_outbox_row clk IncidentStatusChanged Incident (Agg_id (i_id row)) (Some (i_id row))
           (IncidentStatusChangedPayload (i_id row) (i_status row) to_status reason (i_version row + 1))
           (next_uuid s) (int (length (outbox s)) + 1)]\<rparr>"

lemma get_incident_moved:
  assumes "get_incident i s = Some row"
  shows "get_incident j (moved clk row to reason s) =
    (if j = i then Some (row\<lparr>i_status := to, i_version := i_version row + 1, i_updated_at := clk_now clk\<rparr>)
     else get_incident j s)"
proof -
  let ?f = "\<lambda>r. r\<lparr>i_status := to, i_version := i_version row + 1, i_updated_at := clk_now clk,
      i_closed_at := i_closed_at r\<rparr>"
  have "get_incident j (moved clk row to reason s) = get_incident j (set_incident (i_id row) ?f s)"
    by (simp add: moved_def get_incident_def)
  moreover have "i_id row = i" using inc.getD [OF assms] by simp
  ultimately show ?thesis
    using assms inc.get_update_same [of ?f i s] inc.get_update_other [of ?f j i s] by simp
qed

lemma lock_incident_Inr [simp]:
  "lock_incident i s = Inr (row, s') \<longleftrightarrow> s' = s \<and> get_incident i s = Some row"
  by (auto simp: lock_incident_def)

lemma move_core:
  assumes "get_incident i s = Some row"
  shows "bindT (transition_incident_status row to (clk_now clk) False) (\<lambda>ok.
           thenT (guardT ok e) (bindT (lock_incident i) (\<lambda>new.
             insert_outbox_event clk IncidentStatusChanged Incident (Agg_id i) (Some i)
               (IncidentStatusChangedPayload i (i_status row) (i_status new) reason (i_version new))))) s
         = Inr ((), moved clk row to reason s)"
proof -
  let ?f = "\<lambda>r. r\<lparr>i_status := to, i_version := i_version row + 1, i_updated_at := clk_now clk,
      i_closed_at := (if False then Some (clk_now clk) else i_closed_at r)\<rparr>"
  have id: "i_id row = i" using inc.getD [OF assms] by simp
  have t: "transition_incident_status row to (clk_now clk) False s = Inr (True, set_incident i ?f s)"
    using assms transition_incident_status_current [of row s to "clk_now clk" False] id by simp
  have "get_incident i (set_incident i ?f s) = Some (?f row)"
    using assms inc.get_update_same [of ?f i s] by simp
  with t id show ?thesis
    by (simp add: tx_run lock_incident_def the_or_def insert_outbox_event_app moved_def set_incident_def)
qed

lemma move_incident_Inr:
  "move_incident clk i froms to reason s = Inr (x, s') \<longleftrightarrow>
     (\<exists>row. get_incident i s = Some row \<and>
        s' = (if i_status row \<in> set froms then moved clk row to reason s else s))"
proof (cases "get_incident i s")
  case (Some row)
  then show ?thesis using move_core [OF Some]
    by (auto simp: move_incident_def bindT_app lock_incident_def getsT_app the_or_def returnT_app
        split: if_splits)
qed (simp add: move_incident_def bindT_app lock_incident_def getsT_app the_or_def raiseT_app)

lemma move_to_Inr:
  "move_to clk i to reason s = Inr (x, s') \<longleftrightarrow>
     (\<exists>row. get_incident i s = Some row \<and> s' = moved clk row to reason s)"
proof (cases "get_incident i s")
  case (Some row)
  then show ?thesis using move_core [OF Some]
    by (auto simp: move_to_def bindT_app lock_incident_def getsT_app the_or_def returnT_app)
qed (simp add: move_to_def bindT_app lock_incident_def getsT_app the_or_def raiseT_app)

subsection \<open>What holds across every command\<close>

locale incident_moves = tx_relation R for R :: "db \<Rightarrow> db \<Rightarrow> bool" +
  fixes E :: edges
  assumes quiet_step: "quiet s s' \<Longrightarrow> R s s'"
    and move_step: "get_incident i s = Some row \<Longrightarrow> (i_status row, to) \<in> E \<Longrightarrow>
      R s (moved clk row to reason s)"
begin

lemma rel_quiet: "relT quiet m \<Longrightarrow> relT R m"
  by (auto simp: relT_def intro: quiet_step)

lemmas rel_helpers = quiet_helpers [THEN rel_quiet] quiet_read [THEN rel_quiet]
  quiet_outbox [THEN rel_quiet] quiet_uuid [THEN rel_quiet] quiet_modify [THEN rel_quiet]

lemma rel_move_incident:
  "(\<And>st. st \<in> set froms \<Longrightarrow> (st, to) \<in> E) \<Longrightarrow> relT R (move_incident clk i froms to reason)"
  by (rule relTI) (auto simp: move_incident_Inr intro: move_step rel_refl split: if_splits)

end

context incident_moves
begin

lemma edge_move: "set froms \<times> {to} \<subseteq> E \<Longrightarrow> relT R (move_incident clk i froms to reason)"
  by (rule rel_move_incident) auto

lemma edge_finish_failed:
  assumes "failure_edges \<subseteq> E"
  shows "relT R (finish_failed clk k i code msg actor)"
  unfolding finish_failed_def
  by (intro rules rel_helpers edge_move) (use assms in \<open>auto simp: failure_edges_def\<close>)

lemma edge_finish_cancelled:
  assumes "{(AWAITING_APPROVAL, to), (REMEDIATION_IN_PROGRESS, to)} \<subseteq> E"
  shows "relT R (finish_cancelled clk k i ev actor reason to ty dec)"
  unfolding finish_cancelled_def
  by (intro rules rel_helpers edge_move) (use assms in auto)

lemma edge_finish_escalated:
  assumes "failure_edges \<subseteq> E"
  shows "relT R (finish_cancelled clk k i ev actor reason ESCALATED ty dec)"
  by (rule edge_finish_cancelled) (use assms in \<open>simp add: failure_edges_def\<close>)

lemma edge_propose:
  assumes "proposal_edges \<subseteq> E"
  shows "relT R (propose core clk proposal key corr)"
proof -
  have "relT R (route_denied clk k i dec row)" for k i dec row
    unfolding route_denied_def
    by (intro rules rel_helpers edge_move) (use assms in \<open>auto simp: proposal_edges_def\<close>)
  moreover have "relT R (route_approval clk k i dec row)" for k i dec row
    unfolding route_approval_def
    by (intro rules rel_helpers edge_move) (use assms in \<open>auto simp: proposal_edges_def\<close>)
  ultimately show ?thesis unfolding propose_def by (intro rules rel_helpers)
qed

lemma edge_decide_approval:
  assumes "approval_edges \<subseteq> E"
  shows "relT R (decide_approval clk k approver roles approve hash did comment)"
proof -
  have esc: "failure_edges \<subseteq> E" using assms by (simp add: approval_edges_def)
  have "relT R (approve_remediation clk k i actor role comment row)" for i actor role row
    unfolding approve_remediation_def
    by (intro rules rel_helpers edge_move) (use assms in \<open>auto simp: approval_edges_def\<close>)
  moreover have "relT R (reject_remediation clk k i approver comment row)" for i row
    unfolding reject_remediation_def by (intro rules rel_helpers edge_finish_escalated esc)
  ultimately show ?thesis unfolding decide_approval_def by (intro rules rel_helpers)
qed

lemma edge_expire_approvals:
  assumes "failure_edges \<subseteq> E"
  shows "R s (snd (expire_approvals core clk s))"
proof -
  have one: "relT R (expire_one core clk k)" for k
    unfolding expire_one_def by (intro rules rel_helpers edge_finish_escalated assms)
  have "R s (snd (expire_each core clk ks s))" for ks
  proof (induction ks arbitrary: s)
    case (Cons k ks)
    have "R s (snd (run_tx (expire_one core clk k) s))" by (rule rel_run_tx [OF one])
    then show ?case using Cons.IH [of "snd (run_tx (expire_one core clk k) s)"]
      by (auto intro: rel_trans split: prod.splits sum.splits)
  qed (simp add: rel_refl)
  then show ?thesis unfolding expire_approvals_def .
qed

lemma edge_cancel:
  assumes "withdrawal_edges \<subseteq> E"
  shows "relT R (cancel clk k actor reason)"
  unfolding cancel_def
  by (intro rules rel_helpers edge_finish_cancelled) (use assms in \<open>simp add: withdrawal_edges_def\<close>)

lemma edge_revise:
  assumes "withdrawal_edges \<subseteq> E" "proposal_edges \<subseteq> E"
  shows "R s (snd (revise core clk k params by' reason key s))"
proof -
  have v: "R s (snd (run_tx (view k) s))" by (rule rel_run_tx) (rule rel_helpers)
  have c: "R s' (snd (run_tx (cancel clk k a r) s'))" for s' a r by (rule rel_run_tx [OF edge_cancel [OF assms(1)]])
  have p: "R s' (snd (run_tx (propose core clk q key corr) s'))" for s' q corr
    by (rule rel_run_tx [OF edge_propose [OF assms(2)]])
  note chain = v c [of "snd (run_tx (view k) s)" "''operator:'' @ by'" "''superseded by revision''"]
  show ?thesis
    unfolding revise_def using chain p
    by (auto simp: Let_def intro: rel_trans split: prod.splits sum.splits)
qed

lemma edge_claim_execution:
  assumes "failure_edges \<subseteq> E"
  shows "relT R (claim_execution core clk k owner lease)"
proof -
  have "relT R (block_execution clk k' i code msg)" for k' i code msg
    unfolding block_execution_def by (intro rules edge_finish_escalated edge_finish_failed assms)
  then have "relT R (begin_execution core clk row owner lease)" for row
    unfolding begin_execution_def by (intro rules rel_helpers)
  then show ?thesis unfolding claim_execution_def by (intro rules rel_helpers)
qed

lemma edge_complete_execution:
  assumes "completion_edges \<subseteq> E"
  shows "relT R (complete_execution core clk x owner outcome executor result err retryable)"
proof -
  have esc: "failure_edges \<subseteq> E" using assms by (simp add: completion_edges_def)
  have "relT R (complete_succeeded core clk x' row i actor result)" for x' row i actor
    unfolding complete_succeeded_def
    by (intro rules rel_helpers edge_move) (use assms in \<open>auto simp: completion_edges_def\<close>)
  moreover have "relT R (complete_unsuccessful clk x' row i actor outcome e retryable)" for x' row i actor e
    unfolding complete_unsuccessful_def by (intro rules rel_helpers edge_finish_failed esc)
  ultimately show ?thesis unfolding complete_execution_def by (intro rules rel_helpers)
qed

lemma rel_record_baseline: "relT R (record_baseline clk k owner vals ids)"
  by (rule rel_quiet) (rule quiet_record_baseline)

lemma rel_set_kill_switch: "relT R (set_kill_switch clk scope engaged actor reason)"
  by (rule rel_quiet) (rule quiet_set_kill_switch)

end

locale remediation_moves = incident_moves +
  assumes remediation_edges: "remediation_edges \<subseteq> E"
begin

lemmas parts = remediation_edges_parts [THEN order_trans, OF remediation_edges]

lemmas rel_propose = edge_propose [OF parts(1)]
  and rel_decide_approval = edge_decide_approval [OF parts(3)]
  and rel_expire_approvals = edge_expire_approvals [OF parts(2)]
  and rel_cancel = edge_cancel [OF parts(5)]
  and rel_revise = edge_revise [OF parts(5,1)]
  and rel_claim_execution = edge_claim_execution [OF parts(2)]
  and rel_complete_execution = edge_complete_execution [OF parts(4)]

end

locale verification_moves = incident_moves +
  assumes verification_edges: "verification_edges \<subseteq> E"
    and vquiet_step: "vquiet s s' \<Longrightarrow> R s s'"
begin

lemma rel_vquiet: "relT vquiet m \<Longrightarrow> relT R m"
  by (auto simp: relT_def intro: vquiet_step)

lemmas rel_vhelpers = vquiet_start_row [THEN rel_vquiet] vquiet_record_sample [THEN rel_vquiet]
  vquiet_set [THEN vqt.rel_modify, THEN rel_vquiet]

lemma rel_move_to:
  assumes "get_incident i s = Some row" "(i_status row, to) \<in> verification_edges"
    "move_to clk i to reason s = Inr (x, s')"
  shows "R s s'"
  using assms verification_edges by (auto simp: move_to_Inr intro: move_step)

text \<open>A transaction made of a quiet part, a move and a quiet part.\<close>

lemma rel_quiet_move_quiet:
  assumes "thenT m (thenT (move_to clk i to reason) n) s = Inr (x, s')"
    "get_incident i s = Some row" "(i_status row, to) \<in> verification_edges" "relT vquiet m" "relT R n"
  shows "R s s'"
proof -
  obtain a b s1 s2 where m: "m s = Inr (a, s1)" and mv: "move_to clk i to reason s1 = Inr (b, s2)"
    and n: "n s2 = Inr (x, s')"
    using assms(1) by auto
  have q: "vquiet s s1" by (rule relTD [OF assms(4) m])
  then have "get_incident i s1 = Some row" using assms(2) by (simp add: vquiet_def get_incident_def)
  then have "R s1 s2" using assms(3) mv by (rule rel_move_to)
  then show ?thesis using vquiet_step [OF q] relTD [OF assms(5) n] by (blast intro: rel_trans)
qed

lemma rel_apply_verdict:
  assumes run: "apply_verdict core clk row incident status s = Inr (x, s')"
    and inc: "get_incident (i_id incident) s = Some incident" "i_status incident = VERIFYING"
  shows "R s s'"
proof -
  let ?i = "i_id incident"
  note edge = inc(2) verification_edges_def
  have next_action: "relT vquiet (set_next_action (v_id row) a)" for a
    by (rule vqt.rel_modify) (rule vquiet_set)
  have close: "relT R (thenT (closure clk ?i ty reason row) (returnT ()))" for ty reason
    by (intro rules rel_helpers)
  consider (passed) "status = V_PASSED" | (timed_out) "status = V_TIMED_OUT"
    | (failed) "status \<noteq> V_PASSED" "status \<noteq> V_TIMED_OUT" by blast
  then show ?thesis
  proof cases
    case passed
    show ?thesis
      by (rule rel_quiet_move_quiet [OF _ inc(1) _ next_action close])
        (use run passed in \<open>simp add: apply_verdict_def Let_def del: thenT_Inr\<close>, simp add: edge)
  next
    case timed_out
    show ?thesis
      by (rule rel_quiet_move_quiet [OF _ inc(1) _ next_action close])
        (use run timed_out in \<open>simp add: apply_verdict_def Let_def del: thenT_Inr\<close>, simp add: edge)
  next
    case failed
    let ?s1 = "moved clk incident VERIFICATION_FAILED ''verification_failed'' s"
    have first: "R s ?s1"
      using inc move_step [OF inc(1), of VERIFICATION_FAILED] verification_edges
      by (auto simp: verification_edges_def)
    have rest: "(if i_attempt_count incident < vc_max_attempts core \<and> firing_alerts ?i ?s1 \<noteq> []
        then set_next_action (v_id row) ''reinvestigate''
        else thenT (set_next_action (v_id row) ''escalate'')
          (thenT (move_to clk ?i ESCALATED ''verification_failed'')
            (thenT (closure clk ?i IncidentEscalated (''verification failed; ''
                    @ (if firing_alerts ?i ?s1 \<noteq> []
                       then ''investigation attempts exhausted ('' @ str_int (i_attempt_count incident)
                            @ ''/'' @ str_int (vc_max_attempts core) @ '')''
                       else ''no alert still firing to re-investigate'')) row) (returnT ())))) ?s1 = Inr (x, s')"
      using run failed inc(1)
      by (simp add: apply_verdict_def Let_def move_to_Inr count_firing_alerts_def cong: if_cong)
    have "R ?s1 s'"
    proof (cases "i_attempt_count incident < vc_max_attempts core \<and> firing_alerts ?i ?s1 \<noteq> []")
      case True
      with rest show ?thesis by (auto intro!: vquiet_step vquiet_set)
    next
      case False
      note rest' = rest [unfolded if_not_P [OF False]]
      show ?thesis
        by (rule rel_quiet_move_quiet [OF rest' _ _ next_action close])
          (auto simp: get_incident_moved [OF inc(1)] verification_edges_def)
    qed
    then show ?thesis using first by (blast intro: rel_trans)
  qed
qed

lemma rel_finalize: "relT R (finalize_verification core clk v dec)"
proof (rule relTI)
  fix s x s'
  assume "finalize_verification core clk v dec s = Inr (x, s')"
  then obtain row incident remediation s2 y where
      inc: "get_incident (v_incident_id row) (set_verification v (record_verdict clk dec) s) = Some incident"
    and body: "(case staleness row incident remediation (set_verification v (record_verdict clk dec) s) of
           Some why \<Rightarrow> modifyT (set_verification v (record_stale why))
         | None \<Rightarrow> apply_verdict core clk row incident (vd_status dec))
           (set_verification v (record_verdict clk dec) s) = Inr (y, s2)"
    and ev: "verification_event clk v VerificationCompleted s2 = Inr (x, s')"
    by (auto simp: finalize_verification_def lock_verification_def)
  let ?s1 = "set_verification v (record_verdict clk dec) s"
  have "R ?s1 s2"
  proof (cases "staleness row incident remediation ?s1")
    case None
    then have "i_status incident = VERIFYING" by (auto simp: staleness_def split: if_splits)
    moreover have "get_incident (i_id incident) ?s1 = Some incident"
      using inc inc.getD [OF inc] by simp
    ultimately show ?thesis using body None by (auto intro: rel_apply_verdict)
  qed (use body in \<open>auto intro!: vquiet_step vquiet_set\<close>)
  then show "R s s'"
    using vquiet_step [OF vquiet_set] relTD [OF rel_quiet [OF quiet_verification_event] ev]
    by (blast intro: rel_trans)
qed

lemma rel_start: "relT R (start clk v)"
  by (rule rel_vquiet) (rule vquiet_start)

lemma rel_claim_due: "relT R (claim_due core clk v owner lease)"
  unfolding claim_due_def by (intro rules rel_helpers rel_vhelpers rel_finalize)

lemma rel_record_observation: "relT R (record_observation core clk tkt sample ids observed)"
  unfolding record_observation_def by (intro rules rel_helpers rel_vhelpers rel_finalize)

end

end
