(* ===== verification/Investigation_Steps.thy ===== *)
theory Investigation_Steps
  imports Investigations Command_Steps
begin

text \<open>
  The investigation commands as steps: they write their own tables, append events, count an attempt of an
  incident and move it along \<open>investigation_edges\<close>. The locale \<open>investigation_moves\<close> states what a relation
  on databases must satisfy to hold across all of them.
\<close>

definition outer_tables where
  "outer_tables s = (incidents s, alerts s, processed_commands s, consumed_events s, evidence_refs s,
     remediations s, policy_decisions s, approvals s, executions s, kill_switches s, verifications s, observations s)"

definition inv_quiet :: "db \<Rightarrow> db \<Rightarrow> bool" where
  "inv_quiet s s' \<longleftrightarrow> outer_tables s' = outer_tables s \<and> prefix (outbox s) (outbox s') \<and> next_uuid s \<le> next_uuid s'"

interpretation iqt: tx_relation inv_quiet
  by unfold_locales (auto simp: inv_quiet_def intro: prefix_order.trans)

lemma inv_quiet_table:
  "inv_quiet s (set_investigation k nf s)" "inv_quiet s (add_investigation n s)"
  "inv_quiet s (set_hypothesis k hf s)" "inv_quiet s (add_hypothesis h s)"
  "inv_quiet s (s\<lparr>hypothesis_links := ls' s\<rparr>)" "inv_quiet s (s\<lparr>investigation_steps := ps' s\<rparr>)"
  "inv_quiet s (s\<lparr>rca_reports := rs' s\<rparr>)"
  by (simp_all add: inv_quiet_def outer_tables_def table_defs)

lemma inv_quiet_basic:
  "relT inv_quiet (insert_outbox_event clk ty agg ref corr payload)" "relT inv_quiet (the_or v e)"
  "relT inv_quiet (scalar_one_or_none xs)" "relT inv_quiet new_uuid"
  by (auto simp: relT_def inv_quiet_def outer_tables_def insert_outbox_event_app)

lemmas iq_rules = iqt.rules inv_quiet_basic inv_quiet_table [THEN iqt.rel_modify]

lemma iq_lock: "relT inv_quiet (lock_investigation k)" "relT inv_quiet (fenced k owner)" "relT inv_quiet (lock_incident i)"
  unfolding fenced_def lock_investigation_def lock_incident_def by (intro iq_rules)+

lemma iq_helpers:
  "relT inv_quiet (append_step clk k kind iter payload cid lat)" "relT inv_quiet (accessible_evidence row)"
  "relT inv_quiet (status_event clk i from reason)" "relT inv_quiet (link_hypothesis clk h rel e)"
  unfolding append_step_def accessible_evidence_def status_event_def link_hypothesis_def
  by (intro iq_rules iq_lock)+

lemma iq_apply_update: "relT inv_quiet (apply_update clk k u)"
  unfolding apply_update_def store_hypothesis_def by (intro iq_rules iq_helpers)

lemma iq_apply_updates: "relT inv_quiet (apply_updates clk k acc us snaps)"
  by (induction us arbitrary: snaps) (auto simp: Let_def intro!: iq_rules iq_apply_update)

lemmas iq_all = iq_rules iq_lock iq_helpers iq_apply_updates

text \<open>The commands that never touch an incident.\<close>

lemma iq_commands:
  "relT inv_quiet (take_lease clk k owner lease)" "relT inv_quiet (load_state k)" "relT inv_quiet (release clk k owner)"
  "relT inv_quiet (record_step clk k owner r lease)"
  "relT inv_quiet (apply_hypothesis_updates clk k owner iter cid batch)"
  unfolding take_lease_def load_state_def release_def record_step_def apply_hypothesis_updates_def Let_def
  by (intro iq_all)+

subsection \<open>Moves\<close>

lemma move_investigated_eq: "move_investigated clk i to reason s = Inr (x, s') \<longleftrightarrow>
   (\<exists>row. get_incident i s = Some row \<and> s' = (if i_status row = INVESTIGATING then moved clk row to reason s else s))"
proof (cases "get_incident i s")
  case (Some row)
  let ?f = "\<lambda>r. r\<lparr>i_status := to, i_version := i_version row + 1, i_updated_at := clk_now clk,
      i_closed_at := (if False then Some (clk_now clk) else i_closed_at r)\<rparr>"
  have id: "i_id row = i" using inc.getD [OF Some] by simp
  have t: "transition_incident_status row to (clk_now clk) False s = Inr (True, set_incident i ?f s)"
    using Some transition_incident_status_current [of row s to "clk_now clk" False] id by simp
  have "get_incident i (set_incident i ?f s) = Some (?f row)"
    using Some inc.get_update_same [of ?f i s] by simp
  then show ?thesis
    using t id Some
    by (auto simp: move_investigated_def status_event_def tx_run lock_incident_def the_or_def
        insert_outbox_event_app moved_def set_incident_def)
qed (simp add: move_investigated_def tx_run the_or_def)

text \<open>
  Creating an investigation: the attempt is counted, the row is added, the incident moves to
  INVESTIGATING and the start is announced.
\<close>

definition counted_attempt :: "incident_row \<Rightarrow> db \<Rightarrow> db" where
  "counted_attempt row s = set_incident (i_id row) (\<lambda>r. r\<lparr>i_attempt_count := i_attempt_count row + 1\<rparr>) s"

definition with_investigation :: "investigation_row \<Rightarrow> db \<Rightarrow> db" where
  "with_investigation n s = add_investigation n (s\<lparr>next_uuid := Suc (next_uuid s)\<rparr>)"

lemma create_investigation_Inr:
  assumes run: "create_investigation clk row provider name settings budget s = Inr (st, s')"
    and row: "get_incident (i_id row) s = Some row"
  shows "\<exists>row1 n reason s1. row1 = row\<lparr>i_attempt_count := i_attempt_count row + 1\<rparr> \<and>
    n = new_investigation_row clk (i_id row) (i_attempt_count row + 1) provider name settings budget (next_uuid s) \<and>
    get_incident (i_id row) (with_investigation n (counted_attempt row s)) = Some row1 \<and>
    (i_id row, i_attempt_count row + 1) \<notin> (\<lambda>n. (n_incident_id n, n_attempt_number n)) ` set (investigations s) \<and>
    s1 = moved clk row1 INVESTIGATING reason (with_investigation n (counted_attempt row s)) \<and>
    insert_outbox_event clk InvestigationStarted Investigation (Agg_id (n_id n)) (Some (i_id row))
      (InvestigationStartedPayload (n_id n) (i_id row) (i_attempt_count row + 1) provider name) s1 = Inr ((), s') \<and>
    st = \<lparr>si_investigation_id = n_id n, si_incident_id = i_id row, si_created = True\<rparr>"
proof -
  let ?i = "i_id row"
  let ?a = "\<lambda>r. r\<lparr>i_attempt_count := i_attempt_count row + 1\<rparr>"
  let ?f = "\<lambda>r. r\<lparr>i_status := INVESTIGATING, i_version := i_version row + 1, i_updated_at := clk_now clk,
      i_closed_at := i_closed_at r\<rparr>"
  let ?n = "new_investigation_row clk ?i (i_attempt_count row + 1) provider name settings budget (next_uuid s)"
  let ?why = "if i_status row = TRIAGING then ''investigation_started''
      else ''reinvestigation_after_failed_verification''"
  have r1: "get_incident ?i (counted_attempt row s) = Some (?a row)"
    using row inc.get_update_same [of ?a ?i s] by (simp add: counted_attempt_def)
  have r2: "get_incident ?i (with_investigation ?n (counted_attempt row s)) = Some (?a row)"
    using r1 by (simp add: with_investigation_def get_incident_def add_investigation_def)
  have r3: "get_incident ?i (set_incident ?i ?f (counted_attempt row s)) = Some (?f (?a row))"
    using r1 inc.get_update_same [of ?f ?i "counted_attempt row s"] by simp
  have r4: "get_incident ?i (add_investigation ?n ((set_incident ?i ?f (counted_attempt row s))\<lparr>next_uuid := m\<rparr>)) =
      Some (?f (?a row))" for m
    using r3 by (simp add: get_incident_def add_investigation_def)
  have t: "transition_incident_status row INVESTIGATING (clk_now clk) False (counted_attempt row s) =
      Inr (True, set_incident ?i ?f (counted_attempt row s))"
    using r1 by (simp add: transition_incident_status_def tx_run)
  have same: "next_uuid (counted_attempt row s) = next_uuid s" "investigations (counted_attempt row s) = investigations s"
    "outbox (counted_attempt row s) = outbox s"
    by (simp_all add: counted_attempt_def set_incident_def)
  have in_set: "next_uuid (set_incident k g u) = next_uuid u" "investigations (set_incident k g u) = investigations u"
    for k g u by (simp_all add: set_incident_def)
  have nid: "n_id ?n = next_uuid s" by (simp add: new_investigation_row_def)
  let ?s2 = "add_investigation ?n ((set_incident ?i ?f (counted_attempt row s))\<lparr>next_uuid := Suc (next_uuid s)\<rparr>)"
  let ?s1 = "moved clk (?a row) INVESTIGATING ?why (with_investigation ?n (counted_attempt row s))"
  have ev: "status_event clk ?i (i_status row) ?why ?s2 = Inr ((), ?s1)"
    using r4 [of "Suc (next_uuid s)"] same
    by (simp add: status_event_def tx_run lock_incident_def the_or_def insert_outbox_event_app with_investigation_def
        moved_def set_incident_def add_investigation_def)
  have body: "thenT (guardT ((?i, i_attempt_count row + 1) \<notin> (\<lambda>n. (n_incident_id n, n_attempt_number n)) ` set (investigations s))
        (IntegrityError ''uq_investigations_attempt''))
      (thenT (seqT [modifyT (add_investigation ?n), status_event clk ?i (i_status row) ?why,
          insert_outbox_event clk InvestigationStarted Investigation (Agg_id (next_uuid s)) (Some ?i)
            (InvestigationStartedPayload (next_uuid s) ?i (i_attempt_count row + 1) provider name)])
        (returnT \<lparr>si_investigation_id = next_uuid s, si_incident_id = ?i, si_created = True\<rparr>))
      ((set_incident ?i ?f (counted_attempt row s))\<lparr>next_uuid := Suc (next_uuid s)\<rparr>) = Inr (st, s')"
    using run t same unfolding create_investigation_def Let_def
    by (simp add: bindT_app modifyT_app thenT_app getsT_app guardT_app new_uuid_app returnT_app in_set
        counted_attempt_def [symmetric])
  show ?thesis
    using body ev r2 nid
    by (intro exI [of _ "?a row"] exI [of _ ?n] exI [of _ ?why] exI [of _ ?s1]) auto
qed

subsection \<open>What holds across every investigation command\<close>

locale investigation_edge_moves = tx_relation R for R :: "db \<Rightarrow> db \<Rightarrow> bool" +
  fixes E :: edges
  assumes quiet_step: "inv_quiet s s' \<Longrightarrow> R s s'"
    and attempt_step: "R s (set_incident i (\<lambda>r. r\<lparr>i_attempt_count := n\<rparr>) s)"
    and move_step: "get_incident i s = Some row \<Longrightarrow> (i_status row, to) \<in> E \<Longrightarrow>
      R s (moved clk row to reason s)"
begin

lemma rel_quiet: "relT inv_quiet m \<Longrightarrow> relT R m"
  by (auto simp: relT_def intro: quiet_step)

lemmas rel_commands = iq_commands [THEN rel_quiet]
lemmas rel_helpers = iq_all [THEN rel_quiet]

lemma rel_claim_investigation: "R s (snd (claim_investigation clk k owner lease s))"
proof -
  let ?s1 = "snd (run_tx (take_lease clk k owner lease) s)"
  have "snd (claim_investigation clk k owner lease s) \<in> {?s1, snd (run_tx (load_state k) ?s1)}"
    by (simp add: claim_investigation_def split: prod.splits sum.splits bool.splits)
  moreover have t: "R s ?s1" by (rule rel_run_tx [OF rel_commands(1)])
  moreover have "R s (snd (run_tx (load_state k) ?s1))"
    using t rel_run_tx [OF rel_commands(2)] by (rule rel_trans)
  ultimately show ?thesis by auto
qed

lemma edge_move_investigated: "(INVESTIGATING, to) \<in> E \<Longrightarrow> relT R (move_investigated clk i to reason)"
proof (rule relTI)
  assume to: "(INVESTIGATING, to) \<in> E"
  fix s x s' assume "move_investigated clk i to reason s = Inr (x, s')"
  then obtain row where row: "get_incident i s = Some row"
    "s' = (if i_status row = INVESTIGATING then moved clk row to reason s else s)"
    by (auto simp: move_investigated_eq)
  show "R s s'" using to row(2) move_step [OF row(1), of to clk reason] rel_refl by (simp split: if_splits)
qed

lemma edge_complete_investigation:
  assumes "(INVESTIGATING, RCA_READY) \<in> E"
  shows "relT R (complete_investigation core clk k owner iter cid result)"
  unfolding complete_investigation_def accept_conclusion_def Let_def
  by (intro rules rel_helpers edge_move_investigated assms)

lemma edge_escalate_investigation:
  assumes "(INVESTIGATING, ESCALATED) \<in> E"
  shows "relT R (escalate_investigation clk k owner iter outcome code detail why gaps cid)"
  unfolding escalate_investigation_def Let_def
  by (intro rules rel_helpers edge_move_investigated assms)

lemma edge_create_investigation:
  assumes edges: "request_edges \<subseteq> E"
    and run: "create_investigation clk row provider name settings budget s = Inr (st, s')"
    and row: "get_incident (i_id row) s = Some row" "i_status row \<in> {TRIAGING, VERIFICATION_FAILED}"
  shows "R s s'"
proof -
  obtain row1 n reason s1 where row1: "row1 = row\<lparr>i_attempt_count := i_attempt_count row + 1\<rparr>"
    "get_incident (i_id row) (with_investigation n (counted_attempt row s)) = Some row1"
    "s1 = moved clk row1 INVESTIGATING reason (with_investigation n (counted_attempt row s))"
    and out: "insert_outbox_event clk InvestigationStarted Investigation (Agg_id (n_id n)) (Some (i_id row))
      (InvestigationStartedPayload (n_id n) (i_id row) (i_attempt_count row + 1) provider name) s1 = Inr ((), s')"
    using create_investigation_Inr [OF run row(1)] by blast
  have "R s (counted_attempt row s)" unfolding counted_attempt_def by (rule attempt_step)
  moreover have "R (counted_attempt row s) (with_investigation n (counted_attempt row s))"
    by (rule quiet_step) (simp add: inv_quiet_def outer_tables_def with_investigation_def add_investigation_def)
  moreover have "R (with_investigation n (counted_attempt row s)) s1"
    unfolding row1(3) by (rule move_step [OF row1(2)]) (use edges row(2) row1(1) in \<open>auto simp: request_edges_def\<close>)
  moreover have "R s1 s'" by (rule quiet_step) (rule relTD [OF inv_quiet_basic(1) out])
  ultimately show ?thesis by (blast intro: rel_trans)
qed

lemma edge_request_investigation:
  assumes edges: "request_edges \<subseteq> E"
  shows "relT R (request_investigation clk i provider name settings budget)"
proof (rule relTI)
  fix s st s' assume run: "request_investigation clk i provider name settings budget s = Inr (st, s')"
  then obtain row where row: "get_incident i s = Some row" by (auto simp: request_investigation_def)
  have "i_id row = i" using inc.getD [OF row] by simp
  moreover have "s' = s \<or> i_status row \<in> {TRIAGING, VERIFICATION_FAILED} \<and>
      create_investigation clk row provider name settings budget s = Inr (st, s')"
    using run row by (auto simp: request_investigation_def count_firing_alerts_def split: if_splits)
  ultimately show "R s s'" using edge_create_investigation [OF edges] row by (auto intro: rel_refl)
qed

end

locale investigation_moves = investigation_edge_moves R investigation_edges for R :: "db \<Rightarrow> db \<Rightarrow> bool"
begin

lemmas rel_request_investigation = edge_request_investigation [OF request_edges_part]

lemma rel_move_investigated: "to \<in> {RCA_READY, ESCALATED} \<Longrightarrow> relT R (move_investigated clk i to reason)"
  by (rule edge_move_investigated) (auto simp: investigation_edges_def)

lemma rel_complete_investigation: "relT R (complete_investigation core clk k owner iter cid result)"
  by (rule edge_complete_investigation) (simp add: investigation_edges_def)

lemma rel_escalate_investigation:
  "relT R (escalate_investigation clk k owner iter outcome code detail why gaps cid)"
  by (rule edge_escalate_investigation) (simp add: investigation_edges_def)

end

end
