(* ===== verification/Incident_Properties.thy ===== *)
theory Incident_Properties
  imports Incident_Invariant Incident_Status
begin

text \<open>
  What \<^verbatim>\<open>handle_alert_received\<close> guarantees, proved from the invariant of \<open>Incident_Invariant\<close>: no
  assertion or query of the handler can fail, a replayed command returns the recorded result and
  changes nothing, alerts end up linked, and alerts alone move an incident only from \<open>TRIAGING\<close> to
  \<open>CANCELLED\<close>.
\<close>

lemma ex_bool [simp]: "\<exists>x. x" "Ex Not"
  by (rule exI [of _ True], simp) (rule exI [of _ False], simp)

subsection \<open>Queries return at most one row\<close>

lemma filter_distinct_key:
  "distinct (map key rs) \<Longrightarrow>
   filter (\<lambda>r. key r = k) rs = (case lookup_row key k rs of None \<Rightarrow> [] | Some r \<Rightarrow> [r])"
proof (induction rs)
  case (Cons r rs)
  have "lookup_row key k rs = None" if "key r = k"
    using Cons.prems that by (auto simp: lookup_row_None)
  with Cons show ?case by (auto split: option.splits)
qed simp

lemma scalar_one_or_none_key:
  "distinct (map key rs) \<Longrightarrow>
   scalar_one_or_none (filter (\<lambda>r. key r = k) rs) s = Inr (lookup_row key k rs, s)"
  by (simp add: filter_distinct_key split: option.split)

definition command_key :: "alert_received_command \<Rightarrow> string \<times> string" where
  "command_key command = (COMMAND_TYPE_ALERT_RECEIVED, c_idempotency_key command)"

abbreviation ledger_entry :: "string \<times> string \<Rightarrow> db \<Rightarrow> processed_command_row option" where
  "ledger_entry k s \<equiv>
     lookup_row (\<lambda>r. (pr_command_type r, pr_idempotency_key r)) k (processed_commands s)"

lemma get_processed_command_app:
  "distinct (command_keys s) \<Longrightarrow>
   get_processed_command ty key s = Inr (ledger_entry (ty, key) s, s)"
  using scalar_one_or_none_key [of "\<lambda>r. (pr_command_type r, pr_idempotency_key r)" "processed_commands s"
      "(ty, key)" s]
  by (simp add: get_processed_command_def command_keys_def tx_run)

lemma ledger_entry_None: "ledger_entry k s = None \<longleftrightarrow> k \<notin> set (command_keys s)"
  by (simp add: lookup_row_None command_keys_def)

lemma insert_processed_command_app:
  "insert_processed_command clk ty key result s =
     (if (ty, key) \<in> set (command_keys s) then Inr (False, s)
      else Inr (True, s\<lparr>processed_commands := processed_commands s @
             [\<lparr>pr_command_type = ty, pr_idempotency_key = key, pr_result = result,
               pr_processed_at = clk_db clk\<rparr>]\<rparr>))"
  by (auto simp: insert_processed_command_def tx_run command_keys_def list_ex_iff)

lemma finalize_app:
  "command_key command \<notin> set (command_keys s) \<Longrightarrow>
   finalize clk command result s = Inr ((), s\<lparr>processed_commands := processed_commands s @
     [\<lparr>pr_command_type = COMMAND_TYPE_ALERT_RECEIVED, pr_idempotency_key = c_idempotency_key command,
       pr_result = result, pr_processed_at = clk_db clk\<rparr>]\<rparr>)"
  by (simp add: finalize_def command_key_def insert_processed_command_app tx_run)

lemma alerts_with_app:
  assumes "distinct (ext_keys s)" "c_external_id command \<noteq> None"
  shows "alerts_with command (alerts s) = [] \<or> (\<exists>a. alerts_with command (alerts s) = [a])"
proof -
  let ?key = "\<lambda>a. (a_source a, a_external_id a)"
  have "alerts_with command (alerts s) =
      filter (\<lambda>a. ?key a = (c_source command, c_external_id command))
        (filter (\<lambda>a. a_external_id a \<noteq> None) (alerts s))"
    using assms(2) by (auto simp: alerts_with_def intro: filter_cong)
  also have "\<dots> = (case lookup_row ?key (c_source command, c_external_id command)
        (filter (\<lambda>a. a_external_id a \<noteq> None) (alerts s)) of None \<Rightarrow> [] | Some r \<Rightarrow> [r])"
    using assms(1) by (intro filter_distinct_key) (simp add: ext_keys_def)
  finally show ?thesis by (simp split: option.splits)
qed

lemma select_open_incident_app:
  assumes "distinct (open_keys s)"
  shows "\<exists>r. select_open_incident key s = Inr (r, s)"
proof -
  let ?open = "filter (\<lambda>r. \<not> closed_status (i_status r)) (incidents s)"
  have "filter (\<lambda>r. i_correlation_key r = key \<and> \<not> closed_status (i_status r)) (incidents s) =
      filter (\<lambda>r. i_correlation_key r = key) ?open"
    by (simp add: conj_commute)
  also have "\<dots> = (case lookup_row i_correlation_key key ?open of None \<Rightarrow> [] | Some r \<Rightarrow> [r])"
    using assms by (intro filter_distinct_key) (simp add: open_keys_def)
  finally show ?thesis by (simp add: select_open_incident_def tx_run split: option.splits)
qed

subsection \<open>Every step of the handler succeeds\<close>

text \<open>What the handler leaves alone before it records the command.\<close>

lemma new_uuid_keeps: "(\<And>s. f (s\<lparr>next_uuid := Suc (next_uuid s)\<rparr>) = f s) \<Longrightarrow> keepsT f new_uuid"
  by (auto simp: keepsT_def relT_def)

lemma outbox_keeps:
  "(\<And>s u o'. f (s\<lparr>next_uuid := u, outbox := o'\<rparr>) = f s) \<Longrightarrow>
   keepsT f (insert_outbox_event clk ty agg ref corr payload)"
  by (auto simp: keepsT_def relT_def insert_outbox_event_app)

lemma transition_keeps:
  "(\<And>s i. f (s\<lparr>incidents := i\<rparr>) = f s) \<Longrightarrow> keepsT f (transition_incident_status incident st now closes)"
  by (auto simp: keepsT_def relT_def transition_incident_status_def set_incident_def
      split: option.splits if_splits)

lemma resolve_firing_alert_keeps:
  "keepsT processed_commands (resolve_firing_alert clk alert)"
  unfolding resolve_firing_alert_def mark_alert_resolved_def count_firing_alerts_def cancel_incident_def
  by (intro keeps_rules keepsT_modify outbox_keeps transition_keeps) (simp_all add: set_alert_def)

lemma finish_resolution_total:
  assumes "get_alert aid s = Some a" "command_key command \<notin> set (command_keys s)"
  shows "\<exists>r s'. finish_resolution clk command aid s = Inr (r, s')"
  using assms
  by (auto simp: finish_resolution_def tx_run the_or_def incident_status_of_def Let_def finalize_app
      split: option.splits)

lemma cancel_incident_total:
  assumes "get_incident (i_id row) s = Some row"
  shows "\<exists>s'. cancel_incident clk row s = Inr ((), s')"
proof -
  let ?f = "\<lambda>r. r\<lparr>i_status := CANCELLED, i_version := i_version row + 1, i_updated_at := clk_now clk,
      i_closed_at := (if True then Some (clk_now clk) else i_closed_at r)\<rparr>"
  have "get_incident (i_id row) (set_incident (i_id row) ?f s) = Some (?f row)"
    using assms inc.get_update_same [of ?f "i_id row" s] by simp
  then show ?thesis
    by (simp add: cancel_incident_def tx_run transition_incident_status_current [OF assms] the_or_def
        insert_outbox_event_app)
qed

lemma resolve_firing_alert_total:
  assumes "a_incident_id alert = Some iid" "get_incident iid s = Some row"
  shows "\<exists>s'. resolve_firing_alert clk alert s = Inr ((), s')"
proof -
  let ?s1 = "set_alert (a_id alert) (\<lambda>a. a\<lparr>a_status := Alert_RESOLVED, a_resolved_at := Some (clk_now clk)\<rparr>) s"
  let ?rem = "int (length (firing_alerts iid ?s1))"
  have id: "i_id row = iid" using inc.getD [OF assms(2)] by simp
  have g: "get_incident iid ?s1 = Some row" using assms(2) by (simp add: get_incident_def set_alert_def)
  have out: "get_incident iid (s\<lparr>next_uuid := u, outbox := e\<rparr>) = get_incident iid s" for s u e
    by (simp add: get_incident_def)
  show ?thesis
    using cancel_incident_total [of row "?s1\<lparr>next_uuid := Suc (next_uuid ?s1), outbox := _\<rparr>" clk]
    by (auto simp: resolve_firing_alert_def mark_alert_resolved_def tx_run the_or_def assms(1) g id out
        count_firing_alerts_def insert_outbox_event_app)
qed

lemma find_alert_to_resolve_total:
  assumes "core_inv {} s"
  shows "\<exists>found. find_alert_to_resolve command fp s = Inr (found, s) \<and>
    (\<forall>a. found = Some a \<longrightarrow> a \<in> set (alerts s))"
proof (cases "c_external_id command = None")
  case True
  let ?l = "sort_key (\<lambda>a. - a_received_at a) (filter (\<lambda>a. a_fingerprint a = fp \<and> a_status a = Alert_FIRING \<and>
      (case a_incident_id a of Some i \<Rightarrow> open_incident s i | None \<Rightarrow> False)) (alerts s))"
  have "set ?l \<subseteq> set (alerts s)" by auto
  then have "(case ?l of [] \<Rightarrow> None | a # _ \<Rightarrow> Some a) = Some a \<Longrightarrow> a \<in> set (alerts s)" for a
    by (cases ?l) auto
  with True show ?thesis by (auto simp: find_alert_to_resolve_def tx_run)
next
  case False
  have d: "distinct (ext_keys s)" using assms by (simp add: core_inv_def)
  have "set (alerts_with command (alerts s)) \<subseteq> set (alerts s)" by (auto simp: alerts_with_def)
  with alerts_with_app [OF d False] False show ?thesis
    by (auto simp: find_alert_to_resolve_def tx_run)
qed

lemma core_inv_get_alert: "core_inv X s \<Longrightarrow> a \<in> set (alerts s) \<Longrightarrow> get_alert (a_id a) s = Some a"
  by (rule alr.get_of_row) (simp_all add: core_inv_def alert_ids_def)

lemma alert_ids_set_alert: "(\<And>a. a_id (f a) = a_id a) \<Longrightarrow> alert_ids (set_alert k f s) = alert_ids s"
  by (simp add: alert_ids_def alr.rows_update map_key_update_rows)

lemma resolve_firing_alert_keeps_alert_ids: "keepsT alert_ids (resolve_firing_alert clk alert)"
  unfolding resolve_firing_alert_def mark_alert_resolved_def count_firing_alerts_def cancel_incident_def
  by (intro keeps_rules keepsT_modify outbox_keeps transition_keeps)
    (simp_all add: alert_ids_set_alert, simp_all add: alert_ids_def)

lemma get_alert_after_resolve:
  assumes "resolve_firing_alert clk alert s = Inr (u, s')" "get_alert (a_id alert) s \<noteq> None"
  shows "get_alert (a_id alert) s' \<noteq> None"
  using assms(2) keepsTD [OF resolve_firing_alert_keeps_alert_ids assms(1)]
  by (simp add: alr.get_None alert_ids_def flip: set_map)

lemma process_alert_resolved_total:
  assumes I: "core_inv {} s" and fresh: "command_key command \<notin> set (command_keys s)"
  shows "\<exists>r s'. process_alert_resolved clk command fp s = Inr (r, s')"
proof -
  obtain found where f: "find_alert_to_resolve command fp s = Inr (found, s)"
    and m: "\<And>a. found = Some a \<Longrightarrow> a \<in> set (alerts s)"
    using find_alert_to_resolve_total [OF I] by blast
  show ?thesis
  proof (cases found)
    case None
    let ?a = "new_alert_row clk command fp Alert_RESOLVED (Some (clk_now clk)) (next_uuid s)"
    let ?t = "add_alert ?a (s\<lparr>next_uuid := Suc (next_uuid s)\<rparr>)"
    have "core_inv {} ?t" using I find_alert_none [of command fp s] f None
      by (intro core_inv_add_alert) (auto simp: new_alert_row_def linked_ok_def)
    then have "get_alert (a_id ?a) ?t = Some ?a"
      by (intro core_inv_get_alert) (simp_all add: add_alert_def)
    moreover have "command_key command \<notin> set (command_keys ?t)"
      using fresh by (simp add: command_keys_def add_alert_def)
    ultimately show ?thesis using f None finish_resolution_total [of "a_id ?a" ?t ?a command clk]
      by (simp add: process_alert_resolved_def insert_unlinked_resolved_alert_def insert_alert_def
          tx_run new_uuid_app)
  next
    case (Some alert)
    have a: "alert \<in> set (alerts s)" using m Some by simp
    have g: "get_alert (a_id alert) s = Some alert" using core_inv_get_alert [OF I a] .
    show ?thesis
    proof (cases "a_status alert = Alert_RESOLVED")
      case True
      then show ?thesis using f Some finish_resolution_total [OF g fresh, of clk]
        by (simp add: process_alert_resolved_def tx_run)
    next
      case False
      have "linked_ok (incident_ids s) alert" using I a by (simp add: core_inv_def)
      with False obtain iid where iid: "a_incident_id alert = Some iid" "iid \<in> set (incident_ids s)"
        by (auto simp: linked_ok_def split: option.splits)
      then obtain row where row: "get_incident iid s = Some row"
        using inc.get_None [of iid s] by (auto simp: incident_ids_def)
      obtain s1 where s1: "resolve_firing_alert clk alert s = Inr ((), s1)"
        using resolve_firing_alert_total [OF iid(1) row] by blast
      have "command_keys s1 = command_keys s"
        using keepsTD [OF resolve_firing_alert_keeps s1] by (simp add: command_keys_def)
      moreover obtain a' where "get_alert (a_id alert) s1 = Some a'"
        using get_alert_after_resolve [OF s1] g by auto
      ultimately show ?thesis
        using f Some False s1 fresh finish_resolution_total [of "a_id alert" s1 a' command clk]
        by (simp add: process_alert_resolved_def tx_run)
    qed
  qed
qed

subsection \<open>A new firing alert\<close>

lemma candidates_in_table:
  assumes "find_open_incident_candidates svc env now lookback s = Inr (cs, s')" "c \<in> set cs"
  shows "\<exists>row \<in> set (incidents s). i_id row = cc_incident_id c \<and> \<not> closed_status (i_status row) \<and>
    i_service row = svc \<and> i_environment row = env"
  using assms
  by (fastforce simp: find_open_incident_candidates_def candidates_of_def Let_def split: if_splits)

lemma decide_match:
  "cd_matched_incident_id (decide engine alert cs) = Some i \<Longrightarrow>
   cd_decision (decide engine alert cs) = CORRELATE \<and> i \<in> cc_incident_id ` set cs"
  "cd_decision (decide engine alert cs) = CORRELATE \<Longrightarrow> cd_matched_incident_id (decide engine alert cs) \<noteq> None"
  by (rule decide_cases [of cs engine alert]; auto split: if_splits)+

lemma get_or_create_total:
  assumes "distinct (open_keys s)"
  shows "\<exists>r s'. get_or_create_open_incident clk key sev svc env s = Inr (r, s')"
proof -
  obtain r where r: "select_open_incident key s = Inr (r, s)"
    using select_open_incident_app [OF assms] by blast
  have "r = None \<Longrightarrow>
      \<not> list_ex (\<lambda>r. i_correlation_key r = key \<and> \<not> closed_status (i_status r)) (incidents s)"
    using select_open_incident_Inr [OF r] by (auto simp: open_keys_def list_ex_iff)
  with r show ?thesis
    by (cases r) (simp_all add: get_or_create_open_incident_def tx_run new_uuid_app Let_def)
qed

lemma incident_for_total:
  assumes "core_inv X s" "ic_candidate_lookback_seconds core \<noteq> 0"
    "\<And>c. c \<in> set cs \<Longrightarrow> cc_incident_id c \<in> set (incident_ids s)"
  shows "\<exists>r s'. incident_for core clk command (decide engine alert cs) s = Inr (r, s')"
proof (cases "cd_decision (decide engine alert cs) = CORRELATE")
  case True
  then obtain i where i: "cd_matched_incident_id (decide engine alert cs) = Some i"
    using decide_match(2) by blast
  then have "i \<in> set (incident_ids s)" using decide_match(1) [OF i] assms(3) by auto
  then obtain row where "get_incident i s = Some row"
    using inc.get_None [of i s] by (auto simp: incident_ids_def)
  with True i show ?thesis
    by (auto simp: incident_for_def tx_run the_or_def touch_incident_updated_at_def)
next
  case False
  have "distinct (open_keys s)" using assms(1) by (simp add: core_inv_def)
  then show ?thesis using False assms(2) get_or_create_total
    by (auto simp: incident_for_def tx_run Let_def)
qed

lemma incident_for_keeps:
  "keepsT processed_commands (incident_for core clk command dec)"
  "keepsT alerts (incident_for core clk command dec)"
  unfolding incident_for_def touch_incident_updated_at_def get_or_create_open_incident_def
    select_open_incident_def
  by (intro keeps_rules keepsT_modify new_uuid_keeps; simp add: set_incident_def add_incident_def)+

lemma publish_linked_app: "\<exists>s'. publish_linked clk command fp dec aid incident created s = Inr ((), s')"
  by (simp add: publish_linked_def tx_run insert_outbox_event_app)

lemma publish_linked_keeps:
  "(\<And>s u e. f (s\<lparr>next_uuid := u, outbox := e\<rparr>) = f s) \<Longrightarrow>
   keepsT f (publish_linked clk command fp dec aid incident created)"
  unfolding publish_linked_def by (intro keeps_rules outbox_keeps)

lemma link_alert_app:
  "get_alert aid s \<noteq> None \<Longrightarrow>
   link_alert_to_incident aid iid s = Inr ((), set_alert aid (\<lambda>a. a\<lparr>a_incident_id := Some iid\<rparr>) s)"
  by (simp add: link_alert_to_incident_def tx_run)

lemma process_new_alert_total:
  assumes "core_inv X s" "ic_candidate_lookback_seconds core \<noteq> 0" "get_alert (a_id alert) s \<noteq> None"
    "command_key command \<notin> set (command_keys s)"
  shows "\<exists>r s'. process_new_alert core clk command fp alert s = Inr (r, s')"
proof -
  obtain cs where cs: "find_open_incident_candidates (cmd_service command) (cmd_environment command)
      (clk_now clk) (ic_candidate_lookback_seconds core) s = Inr (cs, s)"
    by (simp add: find_open_incident_candidates_def tx_run)
  let ?na = "\<lparr>na_source = source_value (c_source command), na_fingerprint = fp,
      na_labels = c_labels command, na_service = cmd_service command,
      na_environment = cmd_environment command, na_received_at = clk_now clk\<rparr>"
  let ?dec = "decide (ic_correlation_engine core) ?na cs"
  have "cc_incident_id c \<in> set (incident_ids s)" if "c \<in> set cs" for c
    using candidates_in_table [OF cs that] by (force simp: incident_ids_def)
  then obtain inc created s1 where s1: "incident_for core clk command ?dec s = Inr ((inc, created), s1)"
    using incident_for_total [OF assms(1,2)] by (metis surj_pair)
  have "get_alert (a_id alert) s1 \<noteq> None" "command_keys s1 = command_keys s"
    using assms(3) keepsTD [OF incident_for_keeps(1) s1] keepsTD [OF incident_for_keeps(2) s1]
    by (simp_all add: get_alert_def command_keys_def)
  moreover obtain s2 where s2: "publish_linked clk command fp ?dec (a_id alert) inc created
      (set_alert (a_id alert) (\<lambda>a. a\<lparr>a_incident_id := Some (i_id inc)\<rparr>) s1) = Inr ((), s2)"
    using publish_linked_app by blast
  moreover have "processed_commands s2 = processed_commands s1"
    using keepsTD [OF publish_linked_keeps s2, of processed_commands] by (simp add: set_alert_def)
  ultimately show ?thesis using cs s1 assms(4)
    by (simp add: process_new_alert_def tx_run Let_def link_alert_app finalize_app command_keys_def)
qed

lemma core_inv_command_keys: "core_inv X s \<Longrightarrow> distinct (command_keys s)"
  by (simp add: core_inv_def)

lemma process_alert_received_total:
  assumes I: "core_inv {} s" and l: "ic_candidate_lookback_seconds core \<noteq> 0"
    and fresh: "command_key command \<notin> set (command_keys s)"
  shows "\<exists>r s'. process_alert_received core clk command fp s = Inr (r, s')"
proof (cases "c_status command = Alert_RESOLVED")
  case True
  then show ?thesis using process_alert_resolved_total [OF I fresh, of clk fp]
    by (simp add: process_alert_received_def acquire_correlation_lock_def tx_run)
next
  case False
  have "distinct (ext_keys s)" using I by (simp add: core_inv_def)
  then have "c_external_id command = None \<or> alerts_with command (alerts s) = [] \<or>
      (\<exists>a. alerts_with command (alerts s) = [a])"
    using alerts_with_app [of s command] by blast
  then have "\<exists>r. insert_alert_or_get_existing clk command fp s = Inr r"
    by (elim disjE exE) (simp_all add: insert_alert_or_get_existing_def insert_alert_def Let_def tx_run
        new_uuid_app the_or_def scalar_one_or_none_def)
  then obtain alert existed s1 where
    ins: "insert_alert_or_get_existing clk command fp s = Inr ((alert, existed), s1)"
    by (metis surj_pair)
  from ins show ?thesis
  proof (cases rule: insert_alert_or_get_existing_cases)
    case existing
    then show ?thesis using False ins fresh
      by (simp add: process_alert_received_def acquire_correlation_lock_def tx_run Let_def
          incident_status_of_def finalize_app split: option.splits)
  next
    case new
    have B: "core_inv {a_id alert} s1"
      using core_inv_insert_new_alert [OF I new(4), of clk fp "c_status command" None] new(2,3)
      by (simp add: new_alert_row_def)
    have "get_alert (a_id alert) s1 \<noteq> None"
      using core_inv_get_alert [OF B] new(3) by (simp add: add_alert_def)
    moreover have "command_key command \<notin> set (command_keys s1)"
      using fresh new(3) by (simp add: command_keys_def add_alert_def)
    ultimately show ?thesis using process_new_alert_total [OF B l] False ins new(1)
      by (simp add: process_alert_received_def acquire_correlation_lock_def tx_run)
  qed
qed

lemma handle_alert_received_new:
  assumes "core_inv {} s" "ic_candidate_lookback_seconds core \<noteq> 0"
    "command_key command \<notin> set (command_keys s)"
  shows "handle_alert_received core clk command s =
    process_alert_received core clk command (compute_fingerprint (c_source command) (c_labels command)) s"
proof -
  obtain r s' where "process_alert_received core clk command
      (compute_fingerprint (c_source command) (c_labels command)) s = Inr (r, s')"
    using process_alert_received_total [OF assms] by blast
  with assms show ?thesis
    by (simp add: handle_alert_received_def tx_run get_processed_command_app core_inv_command_keys
        MAX_IDEMPOTENCY_RACE_RETRIES_def numeral_3_eq_3 ledger_entry_None [THEN iffD2] flip: command_key_def)
qed

lemma handle_alert_received_replay:
  "distinct (command_keys s) \<Longrightarrow> ledger_entry (command_key command) s = Some row \<Longrightarrow>
   handle_alert_received core clk command s = Inr (pr_result row, s)"
  by (simp add: handle_alert_received_def tx_run get_processed_command_app flip: command_key_def)

subsection \<open>The ledger\<close>

definition recorded :: "alert_received_command \<Rightarrow> alert_received_result \<Rightarrow> db \<Rightarrow> bool" where
  "recorded command r s \<longleftrightarrow> map_option pr_result (ledger_entry (command_key command) s) = Some r"

lemma finalize_records [post_rules]:
  "postT (recorded command) (thenT (finalize clk command result) (returnT result))"
  unfolding postT_def
proof (intro allI impI)
  fix s x s'
  assume a: "thenT (finalize clk command result) (returnT result) s = Inr (x, s')"
  then have "command_key command \<notin> set (command_keys s)"
    by (auto simp: finalize_def insert_processed_command_app command_key_def split: if_splits)
  with a show "recorded command x s'"
    by (auto simp: finalize_app recorded_def lookup_row_append command_key_def
        dest: ledger_entry_None [THEN iffD2])
qed

lemma thenT_assoc: "thenT (thenT a b) c = thenT a (thenT b c)"
  by (auto simp: fun_eq_iff thenT_app split: sum.splits)

lemma thenT_unit: "thenT (m :: ('s, 'e, unit) tx) (thenT (returnT ()) n) = thenT m n"
  by (auto simp: fun_eq_iff thenT_app returnT_app split: sum.splits)

lemma process_alert_received_records:
  "postT (recorded command) (process_alert_received core clk command fp)"
proof -
  have "postT (recorded command) (finish_resolution clk command a)" for a
    unfolding finish_resolution_def by (intro post_rules)
  moreover have "postT (recorded command) (process_new_alert core clk command fp a)" for a
    unfolding process_new_alert_def seqT.simps thenT_assoc thenT_unit by (intro post_rules)
  ultimately show ?thesis
    unfolding process_alert_received_def process_alert_resolved_def by (intro post_rules)
qed

subsection \<open>Status changes\<close>

lemma inc_rel_finalize: "relT (inc_rel E) (finalize clk command result)"
  unfolding finalize_def
  by (intro ist.rules inc_rel_keeps)
    (auto simp: keepsT_def relT_def insert_processed_command_app split: if_splits)

lemma inc_rel_incident_for: "relT (inc_rel E) (incident_for core clk command dec)"
proof -
  have "relT (inc_rel E) (touch_incident_updated_at clk i)" for i
    unfolding touch_incident_updated_at_def by (rule ist.rel_modify) (rule inc_rel_set; simp)
  moreover have "relT (inc_rel E) (modifyT (add_incident r))" for r
    by (rule ist.rel_modify) (rule inc_rel_add)
  ultimately show ?thesis
    unfolding incident_for_def get_or_create_open_incident_def select_open_incident_def
    by (intro inc_rules)
qed

lemma inc_rel_finish_resolution: "relT (inc_rel E) (finish_resolution clk command a)"
  unfolding finish_resolution_def incident_status_of_def by (intro inc_rules inc_rel_finalize)

lemma inc_rel_process_new_alert: "relT (inc_rel E) (process_new_alert core clk command fp alert)"
proof -
  have "relT (inc_rel E) (link_alert_to_incident a i)" for a i
    unfolding link_alert_to_incident_def
    by (intro inc_rules ist.rel_modify inc_rel_same) (simp add: set_alert_def)
  moreover have "relT (inc_rel E) (publish_linked clk command fp dec a i created)" for dec a i created
    unfolding publish_linked_def by (intro inc_rules)
  ultimately show ?thesis
    unfolding process_new_alert_def find_open_incident_candidates_def
    by (intro inc_rules inc_rel_finalize inc_rel_incident_for)
qed

lemma inc_rel_insert_alert: "relT (inc_rel E) (insert_alert mk)"
  unfolding insert_alert_def
  by (intro inc_rules ist.rel_modify inc_rel_same) (simp add: add_alert_def)

text \<open>Resolving a firing alert: at most one incident moves, from \<open>TRIAGING\<close>, with nothing left firing.\<close>

definition cancelled_only :: "db \<Rightarrow> db \<Rightarrow> bool" where
  "cancelled_only s s' \<longleftrightarrow> (\<forall>i row. get_incident i s = Some row \<longrightarrow>
     (\<exists>row'. get_incident i s' = Some row' \<and> (i_status row' = i_status row \<or>
        i_status row = TRIAGING \<and> i_status row' = CANCELLED \<and> firing_alerts i s' = [])))"

lemma cancelled_only_same: "inc_rel {} s s' \<Longrightarrow> cancelled_only s s'"
  unfolding cancelled_only_def inc_rel_def by fastforce

lemma cancelled_only_then:
  "cancelled_only s t \<Longrightarrow> inc_rel {} t u \<Longrightarrow> alerts u = alerts t \<Longrightarrow> cancelled_only s u"
  by (fastforce simp: cancelled_only_def inc_rel_def firing_alerts_def)

lemma cancel_incident_effect:
  assumes "cancel_incident clk row s = Inr (u, s')" "get_incident (i_id row) s = Some row"
  shows "incidents s' = incidents (set_incident (i_id row) (\<lambda>r. r\<lparr>i_status := CANCELLED,
      i_version := i_version row + 1, i_updated_at := clk_now clk,
      i_closed_at := (if True then Some (clk_now clk) else i_closed_at r)\<rparr>) s) \<and> alerts s' = alerts s"
  using assms(1)
  by (auto simp: cancel_incident_def transition_incident_status_current [OF assms(2)]
      insert_outbox_event_app set_incident_def)

lemma resolve_firing_alert_cancels:
  assumes "resolve_firing_alert clk alert s = Inr (u, s')"
  shows "cancelled_only s s'"
proof -
  let ?s1 = "set_alert (a_id alert) (\<lambda>a. a\<lparr>a_status := Alert_RESOLVED, a_resolved_at := Some (clk_now clk)\<rparr>) s"
  obtain iid row where row: "get_incident iid ?s1 = Some row"
    and rest: "thenT (insert_outbox_event clk AlertResolved Alert (Agg_id (a_id alert)) (Some (i_id row))
         (AlertResolvedPayload (a_id alert) (i_id row) (int (length (firing_alerts (i_id row) ?s1)))))
       (if firing_alerts (i_id row) ?s1 = [] \<and> i_status row = TRIAGING
        then cancel_incident clk row else returnT ()) ?s1 = Inr (u, s')"
    using assms by (auto simp: resolve_firing_alert_def mark_alert_resolved_def count_firing_alerts_def)
  have s1: "inc_rel {} s ?s1" by (rule inc_rel_same) (simp add: set_alert_def)
  show ?thesis
  proof (cases "firing_alerts (i_id row) ?s1 = [] \<and> i_status row = TRIAGING")
    case False
    then have "incidents s' = incidents ?s1" using rest by (auto simp: tx_run insert_outbox_event_app)
    then have "inc_rel {} ?s1 s'" by (rule inc_rel_same)
    with s1 show ?thesis by (blast intro: cancelled_only_same inc_rel_trans)
  next
    case True
    let ?f = "\<lambda>r. r\<lparr>i_status := CANCELLED, i_version := i_version row + 1, i_updated_at := clk_now clk,
        i_closed_at := (if True then Some (clk_now clk) else i_closed_at r)\<rparr>"
    have id: "i_id row = iid" using inc.getD [OF row] by simp
    have inc': "incidents s' = incidents (set_incident (i_id row) ?f ?s1)" and al: "alerts s' = alerts ?s1"
      using rest True row id cancel_incident_effect
      by (auto simp: insert_outbox_event_app get_incident_def set_incident_def)
    have g: "get_incident i s' = (if i = iid then map_option ?f (get_incident iid ?s1) else get_incident i ?s1)" for i
      using inc.get_update_same [of ?f iid ?s1] inc.get_update_other [of ?f i iid ?s1] inc' id
      by (simp add: get_incident_def)
    have "get_incident i ?s1 = get_incident i s" for i by (simp add: get_incident_def set_alert_def)
    with g row True id al show ?thesis
      by (auto simp: cancelled_only_def firing_alerts_def)
  qed
qed

lemma process_alert_received_cancels:
  assumes "process_alert_received core clk command fp s = Inr (r, s')"
  shows "cancelled_only s s'"
proof (cases "c_status command = Alert_RESOLVED")
  case True
  then have p: "process_alert_resolved clk command fp s = Inr (r, s')"
    using assms by (auto simp: process_alert_received_def acquire_correlation_lock_def)
  then obtain found where f: "find_alert_to_resolve command fp s = Inr (found, s)"
    by (auto simp: process_alert_resolved_def dest: find_alert_keeps)
  show ?thesis
  proof (cases "\<exists>alert. found = Some alert \<and> a_status alert \<noteq> Alert_RESOLVED")
    case True
    then obtain alert s1 where s1: "resolve_firing_alert clk alert s = Inr ((), s1)"
      and fin: "finish_resolution clk command (a_id alert) s1 = Inr (r, s')"
      using p f by (auto simp: process_alert_resolved_def)
    have "keepsT alerts (finish_resolution clk command (a_id alert))"
      unfolding finish_resolution_def incident_status_of_def finalize_def
      by (intro keeps_rules) (auto simp: keepsT_def relT_def insert_processed_command_app split: if_splits)
    then have "alerts s' = alerts s1" using fin by (rule keepsTD)
    then show ?thesis
      using resolve_firing_alert_cancels [OF s1] relTD [OF inc_rel_finish_resolution fin]
      by (blast intro: cancelled_only_then)
  next
    case False
    let ?m = "case found of None \<Rightarrow> bindT (insert_unlinked_resolved_alert clk command fp (clk_now clk))
          (\<lambda>alert. finish_resolution clk command (a_id alert))
        | Some alert \<Rightarrow> finish_resolution clk command (a_id alert)"
    have m: "relT (inc_rel {}) ?m"
      unfolding insert_unlinked_resolved_alert_def
      by (intro inc_rules inc_rel_finish_resolution inc_rel_insert_alert)
    have "?m s = Inr (r, s')"
      using p f False by (auto simp: process_alert_resolved_def tx_run split: option.splits)
    then show ?thesis by (rule cancelled_only_same [OF relTD [OF m]])
  qed
next
  case False
  have "relT (inc_rel {}) (insert_alert_or_get_existing clk command fp)"
    unfolding insert_alert_or_get_existing_def Let_def by (intro inc_rules inc_rel_insert_alert)
  then have "relT (inc_rel {}) (process_alert_received core clk command fp)"
    unfolding process_alert_received_def acquire_correlation_lock_def incident_status_of_def
    using False by (simp only: if_False) (intro inc_rules inc_rel_finalize inc_rel_process_new_alert)
  then show ?thesis using assms by (blast dest: relTD intro: cancelled_only_same)
qed

lemma handle_alert_received_cases:
  assumes "core_inv {} s" "ic_candidate_lookback_seconds core \<noteq> 0"
    "handle_alert_received core clk command s = Inr (r, s')"
  obtains (replayed) "s' = s" "recorded command r s"
  | (processed) "command_key command \<notin> set (command_keys s)" "process_alert_received core clk command
      (compute_fingerprint (c_source command) (c_labels command)) s = Inr (r, s')"
proof (cases "ledger_entry (command_key command) s")
  case None
  then have "command_key command \<notin> set (command_keys s)" by (simp add: ledger_entry_None)
  then show thesis using handle_alert_received_new [OF assms(1,2)] assms(3) by (intro processed) simp_all
next
  case (Some row)
  then show thesis
    using handle_alert_received_replay [OF core_inv_command_keys [OF assms(1)] Some] assms(3)
    by (intro replayed) (simp_all add: recorded_def)
qed

lemma handle_returns:
  assumes "core_inv {} s" and "ic_candidate_lookback_seconds core \<noteq> 0"
  shows "\<exists>r s'. handle_alert_received core clk command s = Inr (r, s')"
proof (cases "ledger_entry (command_key command) s")
  case None
  then have "command_key command \<notin> set (command_keys s)" by (simp add: ledger_entry_None)
  then show ?thesis
    using handle_alert_received_new [OF assms] process_alert_received_total [OF assms] by simp
next
  case (Some row)
  then show ?thesis using handle_alert_received_replay core_inv_command_keys [OF assms(1)] by blast
qed

subsection \<open>Properties\<close>

definition sample_command :: "alert_status \<Rightarrow> alert_received_command" where
  "sample_command status =
     \<lparr>c_idempotency_key = ''generic:external:42'', c_source = GENERIC, c_external_id = Some ''42'',
      c_labels = [(''service'', ''api''), (''environment'', ''production'')], c_annotations = [],
      c_severity = CRITICAL, c_status = status, c_raw_payload = []\<rparr>"

definition sample_clock :: clock where
  "sample_clock = \<lparr>clk_now = 1000000, clk_wall = 1000000, clk_db = 1000000\<rparr>"

lemma default_lookback: "ic_candidate_lookback_seconds default_incident_core \<noteq> 0"
  by (simp add: default_incident_core_def DEFAULT_CANDIDATE_LOOKBACK_SECONDS_def)

text \<open>
  From every database that satisfies the invariant the handler returns a result: none of its
  assertions fails, no query finds two rows where it expects one, the retry loop does not run out, and
  the database it leaves satisfies the invariant again.
\<close>

theorem handle_alert_received_total:
  assumes "core_inv {} s" and "ic_candidate_lookback_seconds core \<noteq> 0"
  shows "\<exists>r s'. handle_alert_received core clk command s = Inr (r, s') \<and> core_inv {} s'"
  using handle_returns [OF assms] invTD [OF core_inv_handle_alert_received assms(1)] by blast

theorem handle_alert_received_total_witness:
  "\<exists>r s'. handle_alert_received default_incident_core sample_clock (sample_command Alert_FIRING) empty_db =
     Inr (r, s') \<and> core_inv {} s'"
  by (rule handle_alert_received_total [OF core_inv_empty default_lookback])

text \<open>
  C28. A command is idempotent: once it has been handled, every command with the same key returns
  the recorded result and leaves the database exactly as it is, whatever its content, the clock or the
  configuration.
\<close>

theorem handle_alert_received_idempotent:
  assumes "core_inv {} s" and "ic_candidate_lookback_seconds core \<noteq> 0"
    and "handle_alert_received core clk command s = Inr (r, s')"
    and "c_idempotency_key command' = c_idempotency_key command"
  shows "handle_alert_received core' clk' command' s' = Inr (r, s')"
proof -
  have "recorded command r s'"
    using assms(1-3) by (cases rule: handle_alert_received_cases)
      (auto intro: postTD [OF process_alert_received_records])
  moreover have "command_key command' = command_key command" using assms(4) by (simp add: command_key_def)
  moreover have "distinct (command_keys s')"
    using invTD [OF core_inv_handle_alert_received assms(1,3)] by (rule core_inv_command_keys)
  ultimately show ?thesis
    by (auto simp: recorded_def intro: handle_alert_received_replay)
qed

theorem handle_alert_received_idempotent_witness:
  "\<exists>r s'. handle_alert_received default_incident_core sample_clock (sample_command Alert_FIRING) empty_db =
     Inr (r, s') \<and>
   handle_alert_received default_incident_core sample_clock (sample_command Alert_RESOLVED) s' = Inr (r, s')"
proof -
  obtain r s' where "handle_alert_received default_incident_core sample_clock
      (sample_command Alert_FIRING) empty_db = Inr (r, s')"
    using handle_returns [OF core_inv_empty default_lookback] by blast
  moreover from this have "handle_alert_received default_incident_core sample_clock
      (sample_command Alert_RESOLVED) s' = Inr (r, s')"
    by (rule handle_alert_received_idempotent [OF core_inv_empty default_lookback])
      (simp add: sample_command_def)
  ultimately show ?thesis by blast
qed

text \<open>
  Alerts never close an incident somebody is working on: handling an alert keeps every
  incident and its status, except that an incident still in TRIAGING becomes CANCELLED when its last
  firing alert is resolved.
\<close>

theorem alert_moves_only_triaging:
  assumes "core_inv {} s" and "ic_candidate_lookback_seconds core \<noteq> 0"
    and "handle_alert_received core clk command s = Inr (r, s')"
    and "get_incident i s = Some row"
  shows "\<exists>row'. get_incident i s' = Some row' \<and> (i_status row' = i_status row \<or>
    i_status row = TRIAGING \<and> i_status row' = CANCELLED \<and> firing_alerts i s' = [])"
proof -
  have "cancelled_only s s'"
    using assms(1-3) by (cases rule: handle_alert_received_cases)
      (auto intro: process_alert_received_cancels cancelled_only_same inc_rel_refl)
  with assms(4) show ?thesis by (simp add: cancelled_only_def)
qed

definition sample_incident :: "incident_status \<Rightarrow> incident_row" where
  "sample_incident status =
     \<lparr>i_id = 0, i_status = status, i_severity = CRITICAL, i_service = ''api'',
      i_environment = ''production'', i_correlation_key = ''key:0'', i_attempt_count = 1, i_version = 3,
      i_created_at = 0, i_updated_at = 0, i_closed_at = None\<rparr>"

definition sample_alert :: alert_row where
  "sample_alert =
     \<lparr>a_id = 1, a_external_id = Some ''42'', a_source = GENERIC, a_fingerprint = ''f'',
      a_labels = [(''service'', ''api''), (''environment'', ''production'')], a_annotations = [],
      a_severity = CRITICAL, a_status = Alert_FIRING, a_incident_id = Some 0, a_raw_payload = [],
      a_received_at = 0, a_resolved_at = None\<rparr>"

definition sample_db :: "incident_status \<Rightarrow> db" where
  "sample_db status = empty_db\<lparr>incidents := [sample_incident status], alerts := [sample_alert], next_uuid := 2\<rparr>"

lemma core_inv_sample_db: "core_inv {} (sample_db status)"
  by (simp add: core_inv_def core_projections sample_db_def empty_db_def sample_incident_def
      sample_alert_def linked_ok_def)

theorem alert_moves_only_triaging_witness:
  "\<exists>r s' row'. handle_alert_received default_incident_core sample_clock (sample_command Alert_RESOLVED)
     (sample_db RCA_READY) = Inr (r, s') \<and> get_incident 0 s' = Some row' \<and> i_status row' = RCA_READY"
proof -
  obtain r s' where r: "handle_alert_received default_incident_core sample_clock
      (sample_command Alert_RESOLVED) (sample_db RCA_READY) = Inr (r, s')"
    using handle_returns [OF core_inv_sample_db default_lookback] by blast
  have g: "get_incident 0 (sample_db RCA_READY) = Some (sample_incident RCA_READY)"
    by (simp add: get_incident_def sample_db_def sample_incident_def)
  show ?thesis
    using alert_moves_only_triaging [OF core_inv_sample_db default_lookback r g] r
    by (auto simp: sample_incident_def)
qed

end
