(* ===== verification/Incident_Moves.thy ===== *)
theory Incident_Moves
  imports Investigation_Steps Incident_Properties
begin

text \<open>
  The interpretations of \<open>incident_moves\<close>: incidents move along the edges of the component whose command
  runs, every move is announced in the outbox, and the invariant of the incident tables is kept.
\<close>

subsection \<open>Status edges\<close>

lemma inc_rel_quiet: "vquiet s s' \<Longrightarrow> inc_rel E s s'"
  by (rule inc_rel_same) (simp add: vquiet_def)

lemma inc_rel_moved:
  assumes "get_incident i s = Some row" "(i_status row, to) \<in> E"
  shows "inc_rel E s (moved clk row to reason s)"
  using assms by (auto simp: inc_rel_def get_incident_moved [OF assms(1)])

interpretation rst: remediation_moves "inc_rel (remediation_edges \<union> E)" "remediation_edges \<union> E" for E
  by unfold_locales (auto intro: inc_rel_quiet quiet_vquiet inc_rel_moved)

interpretation vst: verification_moves "inc_rel (verification_edges \<union> E)" "verification_edges \<union> E" for E
  by unfold_locales (auto intro: inc_rel_quiet quiet_vquiet inc_rel_moved)

interpretation ess: incident_moves "inc_rel E" E for E
  by unfold_locales (auto intro: inc_rel_quiet quiet_vquiet inc_rel_moved)

interpretation eis: investigation_edge_moves "inc_rel E" E for E
proof unfold_locales
  show "inc_rel E s (set_incident i (\<lambda>r. r\<lparr>i_attempt_count := n\<rparr>) s)" for E s i n
    by (rule inc_rel_set) simp_all
qed (auto simp: inv_quiet_def outer_tables_def intro: inc_rel_same inc_rel_moved)

lemma get_incident_outer: "outer_tables s' = outer_tables s \<Longrightarrow> get_incident i s' = get_incident i s"
  by (simp add: outer_tables_def get_incident_def)

interpretation nst: investigation_moves "inc_rel incident_edges"
proof unfold_locales
  show "inc_rel incident_edges s (set_incident i (\<lambda>r. r\<lparr>i_attempt_count := n\<rparr>) s)" for s i n
    by (rule inc_rel_set) simp_all
qed (auto simp: incident_edges_def inv_quiet_def outer_tables_def intro: inc_rel_same inc_rel_moved)

subsection \<open>The invariant of the incident tables\<close>

definition open_edges :: edges where
  "open_edges = {(from, to). \<not> closed_status from}"

lemma core_inv_quiet: "vquiet s s' \<Longrightarrow> core_inv X s \<Longrightarrow> core_inv X s'"
  by (rule core_inv_cong [of s' s]) (simp_all add: vquiet_def)

lemma core_inv_moved:
  assumes "get_incident i s = Some row" "(i_status row, to) \<in> open_edges" "core_inv X s"
  shows "core_inv X (moved clk row to reason s)"
proof -
  let ?f = "\<lambda>r. r\<lparr>i_status := to, i_version := i_version row + 1,
        i_updated_at := clk_now clk, i_closed_at := i_closed_at r\<rparr>"
  have id: "i_id row = i" using inc.getD [OF assms(1)] by simp
  have "core_inv X (set_incident (i_id row) ?f s)"
    using assms id by (intro core_inv_set_incident) (simp_all add: open_edges_def)
  then show ?thesis
    by (rule core_inv_cong [rotated 4]) (simp_all add: moved_def set_incident_def)
qed

lemma edges_open: "remediation_edges \<subseteq> open_edges" "verification_edges \<subseteq> open_edges"
  "investigation_edges \<subseteq> open_edges"
  by (auto simp: remediation_edges_def verification_edges_def investigation_edges_def open_edges_def CLOSED_INCIDENT_STATUSES_def)

interpretation rci: remediation_moves "\<lambda>s s'. core_inv X s \<longrightarrow> core_inv X s'" open_edges for X
  by unfold_locales (use core_inv_quiet quiet_vquiet core_inv_moved edges_open in blast)+

interpretation vci: verification_moves "\<lambda>s s'. core_inv X s \<longrightarrow> core_inv X s'" open_edges for X
  by unfold_locales (use edges_open core_inv_quiet in blast)+

interpretation nci: investigation_moves "\<lambda>s s'. core_inv X s \<longrightarrow> core_inv X s'" for X
proof unfold_locales
  show "core_inv X s \<longrightarrow> core_inv X s'" if "inv_quiet s s'" for s s'
    using that core_inv_cong [of s' s X] by (auto simp: inv_quiet_def outer_tables_def)
  show "core_inv X s \<longrightarrow> core_inv X (set_incident i (\<lambda>r. r\<lparr>i_attempt_count := n\<rparr>) s)" for s i n
    by (auto intro!: core_inv_set_incident)
  show "core_inv X s \<longrightarrow> core_inv X (moved clk row to reason s)"
    if "get_incident i s = Some row" "(i_status row, to) \<in> investigation_edges" for i s row to clk reason
    using core_inv_moved [OF that(1)] that(2) edges_open(3) by blast
qed

subsection \<open>Announcements\<close>

text \<open>
  \<open>announced s s'\<close>: events were only appended, and for every incident whose status differs there is a new
  \<open>IncidentStatusChanged\<close> event with the status it has now.
\<close>

definition announces :: "uuid \<Rightarrow> incident_status \<Rightarrow> outbox_event_row \<Rightarrow> bool" where
  "announces i st e \<longleftrightarrow> o_event_type e = IncidentStatusChanged \<and> o_aggregate_id e = Agg_id i \<and>
     (case o_payload e of IncidentStatusChangedPayload j _ to _ _ \<Rightarrow> j = i \<and> to = st | _ \<Rightarrow> False)"

definition announced :: "db \<Rightarrow> db \<Rightarrow> bool" where
  "announced s s' \<longleftrightarrow> (\<exists>es. outbox s' = outbox s @ es \<and> (\<forall>i row. get_incident i s = Some row \<longrightarrow>
     (\<exists>row'. get_incident i s' = Some row' \<and>
        (i_status row' = i_status row \<or> (\<exists>e \<in> set es. announces i (i_status row') e)))))"

lemma announced_trans:
  assumes "announced s t" "announced t u"
  shows "announced s u"
proof -
  obtain es where es: "outbox t = outbox s @ es" and st: "\<And>i row. get_incident i s = Some row \<Longrightarrow>
      \<exists>row'. get_incident i t = Some row' \<and> (i_status row' = i_status row \<or> (\<exists>e \<in> set es. announces i (i_status row') e))"
    using assms(1) by (auto simp: announced_def)
  obtain fs where fs: "outbox u = outbox t @ fs" and tu: "\<And>i row. get_incident i t = Some row \<Longrightarrow>
      \<exists>row'. get_incident i u = Some row' \<and> (i_status row' = i_status row \<or> (\<exists>e \<in> set fs. announces i (i_status row') e))"
    using assms(2) by (auto simp: announced_def)
  have "\<exists>row'. get_incident i u = Some row' \<and>
      (i_status row' = i_status row \<or> (\<exists>e \<in> set (es @ fs). announces i (i_status row') e))"
    if r: "get_incident i s = Some row" for i row
  proof -
    obtain rt where t: "get_incident i t = Some rt"
      "i_status rt = i_status row \<or> (\<exists>e \<in> set es. announces i (i_status rt) e)"
      using st [OF r] by blast
    obtain ru where "get_incident i u = Some ru"
      "i_status ru = i_status rt \<or> (\<exists>e \<in> set fs. announces i (i_status ru) e)"
      using tu [OF t(1)] by blast
    with t(2) show ?thesis by auto
  qed
  moreover have "outbox u = outbox s @ es @ fs" using es fs by simp
  ultimately show ?thesis unfolding announced_def by blast
qed

lemma announced_same: "incidents s' = incidents s \<Longrightarrow> prefix (outbox s) (outbox s') \<Longrightarrow> announced s s'"
  by (auto simp: announced_def get_incident_def prefix_def)

lemma announced_moved:
  assumes "get_incident i s = Some row"
  shows "announced s (moved clk row to reason s)"
proof -
  have id: "i_id row = i" using inc.getD [OF assms] by simp
  have "outbox (moved clk row to reason s) = outbox s @
      [new_outbox_row clk IncidentStatusChanged Incident (Agg_id i) (Some i)
        (IncidentStatusChangedPayload i (i_status row) to reason (i_version row + 1))
        (next_uuid s) (int (length (outbox s)) + 1)]" (is "_ = _ @ [?e]")
    by (simp add: moved_def id)
  moreover have "announces i to ?e" by (simp add: announces_def new_outbox_row_def)
  ultimately show ?thesis
    unfolding announced_def by (intro exI [of _ "[?e]"]) (simp add: get_incident_moved [OF assms])
qed

interpretation anc: tx_relation announced
  by unfold_locales (auto intro: announced_same announced_trans)

interpretation ran: remediation_moves announced UNIV
  by unfold_locales (auto simp: quiet_def intro: announced_same announced_moved)

interpretation van: verification_moves announced UNIV
  by unfold_locales (auto simp: vquiet_def intro: announced_same)

interpretation nan: investigation_moves announced
proof unfold_locales
  show "announced s s'" if "inv_quiet s s'" for s s'
    using that by (intro announced_same) (simp_all add: inv_quiet_def outer_tables_def)
  show "announced s (set_incident i (\<lambda>r. r\<lparr>i_attempt_count := n\<rparr>) s)" for s i n
    unfolding announced_def
  proof (intro exI [of _ "[]"] conjI allI impI)
    fix j row assume "get_incident j s = Some row"
    then show "\<exists>row'. get_incident j (set_incident i (\<lambda>r. r\<lparr>i_attempt_count := n\<rparr>) s) = Some row' \<and>
        (i_status row' = i_status row \<or> (\<exists>e \<in> set []. announces j (i_status row') e))"
      by (cases "j = i") (simp_all add: inc.get_update_same inc.get_update_other)
  qed (simp add: set_incident_def)
qed (rule announced_moved)

subsection \<open>The alert handler\<close>

text \<open>The tables of the remediation and verification components, which no alert command touches.\<close>

definition rem_tables where
  "rem_tables s = (remediations s, approvals s, executions s, policy_decisions s, verifications s,
     observations s, kill_switches s)"

definition alert_quiet :: "db \<Rightarrow> db \<Rightarrow> bool" where
  "alert_quiet s s' \<longleftrightarrow> incidents s' = incidents s \<and> rem_tables s' = rem_tables s \<and>
     prefix (outbox s) (outbox s') \<and> next_uuid s \<le> next_uuid s' \<and>
     inv_tables s' = inv_tables s \<and> prefix (evidence_refs s) (evidence_refs s')"

locale alert_steps = tx_relation R for R :: "db \<Rightarrow> db \<Rightarrow> bool" +
  assumes quiet_step: "alert_quiet s s' \<Longrightarrow> R s s'"
    and touch_step: "(\<And>r. i_id (f r) = i_id r \<and> i_status (f r) = i_status r \<and>
      i_attempt_count (f r) = i_attempt_count r) \<Longrightarrow> R s (set_incident k f s)"
    and add_step: "i_status r = TRIAGING \<Longrightarrow> R s (add_incident r s)"
    and cancel_step: "relT R (cancel_incident clk row)"
begin

lemma rel_outbox: "relT R (insert_outbox_event clk ty agg ref corr payload)"
  by (rule relTI, rule quiet_step) (auto simp: insert_outbox_event_app alert_quiet_def rem_tables_def inv_tables_def)

lemma rel_read: "relT R (the_or v e)" "relT R (scalar_one_or_none xs)" "relT R new_uuid"
  by (rule relTI, rule quiet_step, simp add: alert_quiet_def rem_tables_def inv_tables_def)+

lemma rel_set_alert: "relT R (modifyT (set_alert k f))" "relT R (modifyT (add_alert a))"
  by (rule rel_modify, rule quiet_step, simp add: alert_quiet_def rem_tables_def inv_tables_def table_defs)+

lemmas steps = rules rel_outbox rel_read rel_set_alert cancel_step

lemma rel_finalize: "relT R (finalize clk command result)"
proof -
  have "relT R (insert_processed_command clk ty key result)" for ty key
    by (rule relTI, rule quiet_step)
      (auto simp: insert_processed_command_app alert_quiet_def rem_tables_def inv_tables_def split: if_splits)
  then show ?thesis unfolding finalize_def by (intro steps)
qed

lemma rel_finish_resolution: "relT R (finish_resolution clk command a)"
  unfolding finish_resolution_def incident_status_of_def by (intro steps rel_finalize)

lemma rel_incident_for: "relT R (incident_for core clk command dec)"
proof -
  have "relT R (touch_incident_updated_at clk i)" for i
    unfolding touch_incident_updated_at_def by (rule rel_modify) (rule touch_step; simp)
  moreover have "relT R (modifyT (add_incident (new_incident_row clk key sev svc env iid)))"
    for key sev svc env iid
    by (rule rel_modify) (rule add_step, simp add: new_incident_row_def)
  ultimately show ?thesis
    unfolding incident_for_def get_or_create_open_incident_def select_open_incident_def Let_def
    by (intro steps)
qed

lemma rel_process_new_alert: "relT R (process_new_alert core clk command fp alert)"
  unfolding process_new_alert_def find_open_incident_candidates_def link_alert_to_incident_def
    publish_linked_def
  by (intro steps rel_finalize rel_incident_for)

lemma rel_process_alert_resolved: "relT R (process_alert_resolved clk command fp)"
proof -
  have "relT R (find_alert_to_resolve command fp)"
    by (rule relTI) (auto dest: find_alert_keeps simp: rel_refl)
  then show ?thesis
    unfolding process_alert_resolved_def insert_unlinked_resolved_alert_def insert_alert_def
      resolve_firing_alert_def mark_alert_resolved_def count_firing_alerts_def
    by (intro steps rel_finish_resolution)
qed

lemma rel_process_alert_received: "relT R (process_alert_received core clk command fp)"
  unfolding process_alert_received_def acquire_correlation_lock_def incident_status_of_def
    insert_alert_or_get_existing_def insert_alert_def Let_def
  by (intro steps rel_finalize rel_process_new_alert rel_process_alert_resolved)

lemma rel_handle_alert_received:
  assumes "core_inv {} s" "ic_candidate_lookback_seconds core \<noteq> 0"
    "handle_alert_received core clk command s = Inr (r, s')"
  shows "R s s'"
  using assms by (cases rule: handle_alert_received_cases)
    (auto intro: rel_refl relTD [OF rel_process_alert_received])

lemma rel_register_evidence_ref: "relT R (register_evidence_ref clk command)"
proof -
  have "relT R (insert_evidence_ref clk command)"
    unfolding insert_evidence_ref_def get_evidence_ref_def
    by (intro steps rel_modify quiet_step) (simp add: alert_quiet_def rem_tables_def inv_tables_def)
  then show ?thesis
    unfolding register_evidence_ref_def get_evidence_ref_def by (intro steps)
qed

end

lemma cancel_incident_run:
  assumes run: "cancel_incident clk row s = Inr (x, s')"
  obtains cur where "get_incident (i_id row) s = Some cur"
    "\<And>j. get_incident j s' = (if j = i_id row then Some (cur\<lparr>i_status := CANCELLED,
       i_version := i_version row + 1, i_updated_at := clk_now clk, i_closed_at := Some (clk_now clk)\<rparr>)
       else get_incident j s)"
    "outbox s' = outbox s @ [new_outbox_row clk IncidentStatusChanged Incident (Agg_id (i_id row)) (Some (i_id row))
        (IncidentStatusChangedPayload (i_id row) (i_status row) CANCELLED ''all_linked_alerts_resolved''
          (i_version row + 1)) (next_uuid s) (int (length (outbox s)) + 1)]"
    "verifications s' = verifications s"
proof -
  let ?i = "i_id row"
  let ?f = "\<lambda>r. r\<lparr>i_status := CANCELLED, i_version := i_version row + 1, i_updated_at := clk_now clk,
      i_closed_at := Some (clk_now clk)\<rparr>"
  obtain cur where cur: "get_incident ?i s = Some cur" "i_version cur = i_version row"
    using run by (auto simp: cancel_incident_def transition_incident_status_def
        split: option.splits if_splits)
  have g: "get_incident ?i (set_incident ?i ?f s) = Some (?f cur)"
    using cur(1) inc.get_update_same [of ?f ?i s] by simp
  have s': "s' = (set_incident ?i ?f s)\<lparr>next_uuid := Suc (next_uuid s), outbox := outbox s @
      [new_outbox_row clk IncidentStatusChanged Incident (Agg_id ?i) (Some ?i)
        (IncidentStatusChangedPayload ?i (i_status row) CANCELLED ''all_linked_alerts_resolved''
          (i_version row + 1)) (next_uuid s) (int (length (outbox s)) + 1)]\<rparr>"
    using run cur g
    by (auto simp: cancel_incident_def transition_incident_status_def insert_outbox_event_app set_incident_def)
  have "get_incident j s' = (if j = ?i then Some (?f cur) else get_incident j s)" for j
    using g inc.get_update_other [of ?f j ?i s] by (simp add: s' get_incident_def)
  then show thesis by (rule that [OF cur(1)]) (simp_all add: s' set_incident_def)
qed

lemma announced_cancel: "relT announced (cancel_incident clk row)"
proof (rule relTI)
  fix s x s'
  assume "cancel_incident clk row s = Inr (x, s')"
  then show "announced s s'"
  proof (cases rule: cancel_incident_run)
    case (1 cur)
    let ?e = "new_outbox_row clk IncidentStatusChanged Incident (Agg_id (i_id row)) (Some (i_id row))
        (IncidentStatusChangedPayload (i_id row) (i_status row) CANCELLED ''all_linked_alerts_resolved''
          (i_version row + 1)) (next_uuid s) (int (length (outbox s)) + 1)"
    have "announces (i_id row) CANCELLED ?e" by (simp add: announces_def new_outbox_row_def)
    with 1 show ?thesis unfolding announced_def by (intro exI [of _ "[?e]"]) simp
  qed
qed

interpretation aan: alert_steps announced
proof unfold_locales
  show "announced s s'" if "alert_quiet s s'" for s s'
    using that by (simp add: alert_quiet_def announced_same)
  show "announced s (set_incident k f s)"
    if f: "\<And>r. i_id (f r) = i_id r \<and> i_status (f r) = i_status r \<and> i_attempt_count (f r) = i_attempt_count r" for s k f
  proof -
    have "\<exists>row'. get_incident i (set_incident k f s) = Some row' \<and> i_status row' = i_status row"
      if "get_incident i s = Some row" for i row
      using that f
      by (cases "i = k") (simp_all add: inc.get_update_same inc.get_update_other)
    then show ?thesis by (fastforce simp: announced_def set_incident_def)
  qed
  show "announced s (add_incident r s)" for s r
    using inc.get_insert_old by (fastforce simp: announced_def add_incident_def)
  show "relT announced (cancel_incident clk row)" for clk row by (rule announced_cancel)
qed

end
