(* ===== verification/Remediation_Invariant.thy ===== *)
theory Remediation_Invariant
  imports Incident_Moves
begin

text \<open>
  The invariant of the remediation tables and its preservation by every command: at most one approval
  per remediation, bound to the exact proposal and policy decision and given by somebody else in an
  eligible role; a remediation that is approved, executing or executed has an approval; every execution
  belongs to an approved remediation and its attempts stay within the catalog's limit.

  \<open>rem_step P\<close> adds what a step may do: keep the identity of every row, move the status along the allowed
  transitions and only append approvals, decisions and executions. \<open>P\<close> is a fact about the approvals that
  the steps after its establishment may rely on.
\<close>

definition approved :: "uuid \<Rightarrow> approval_row list \<Rightarrow> bool" where
  "approved k as \<longleftrightarrow> (\<exists>a \<in> set as. ap_remediation_id a = k \<and> ap_decision a = Approved)"

definition live_status :: "remediation_status \<Rightarrow> bool" where
  "live_status st \<longleftrightarrow> st \<in> {R_APPROVED, R_EXECUTING, R_EXECUTED}"

definition bound_to :: "approval_row \<Rightarrow> remediation_row \<Rightarrow> bool" where
  "bound_to a r \<longleftrightarrow> ap_remediation_id a = r_id r \<and> ap_proposal_hash a = r_proposal_hash r \<and>
     Some (ap_policy_decision_id a) = r_policy_decision_id r \<and>
     (ap_decision a = Approved \<longrightarrow> \<not> (r_source r = ''operator'' \<and> r_proposed_by r = ap_approver a))"

definition authorised :: "policy_decision_row list \<Rightarrow> approval_row \<Rightarrow> bool" where
  "authorised ds a \<longleftrightarrow> (ap_decision a = Approved \<longrightarrow>
     (\<exists>d role. lookup_row d_id (ap_policy_decision_id a) ds = Some d \<and> ap_approver_role a = Some role \<and>
        role \<in> set (d_required_approver_roles d)))"

definition row_ok :: "approval_row list \<Rightarrow> remediation_row \<Rightarrow> bool" where
  "row_ok as r \<longleftrightarrow> (live_status (r_status r) \<longrightarrow> approved (r_id r) as) \<and> 0 \<le> r_execution_attempts r \<and>
     (r_execution_attempts r = 0 \<or>
      (\<exists>e. get_entry (r_action_id r) = Some e \<and> r_execution_attempts r \<le> ac_max_attempts e))"

definition execution_ok :: "remediation_row list \<Rightarrow> approval_row list \<Rightarrow> execution_row \<Rightarrow> bool" where
  "execution_ok rs as x \<longleftrightarrow> approved (x_remediation_id x) as \<and>
     (\<exists>r \<in> set rs. r_id r = x_remediation_id x \<and> 1 \<le> x_attempt_number x \<and>
        x_attempt_number x \<le> r_execution_attempts r)"

definition exec_ident :: "execution_row \<Rightarrow> uuid \<times> int \<times> uuid \<times> string" where
  "exec_ident x = (x_remediation_id x, x_attempt_number x, x_id x, x_idempotency_key x)"

definition exec_attempts :: "execution_row list \<Rightarrow> (uuid \<times> int) list" where
  "exec_attempts xs = map (\<lambda>x. (x_remediation_id x, x_attempt_number x)) xs"

definition rem_ok :: "db \<Rightarrow> bool" where
  "rem_ok s \<longleftrightarrow> distinct (map r_id (remediations s)) \<and> (\<forall>r \<in> set (remediations s). r_id r < next_uuid s) \<and>
     distinct (map ap_remediation_id (approvals s)) \<and>
     (\<forall>a \<in> set (approvals s). (\<exists>r \<in> set (remediations s). bound_to a r) \<and>
        authorised (policy_decisions s) a) \<and>
     (\<forall>r \<in> set (remediations s). row_ok (approvals s) r) \<and>
     (\<forall>x \<in> set (executions s). execution_ok (remediations s) (approvals s) x) \<and>
     distinct (exec_attempts (executions s))"

definition rem_ident where
  "rem_ident r = (r_id r, r_incident_id r, r_investigation_id r, r_idempotency_key r, r_action_id r,
     r_catalog_version r, r_parameters r, r_target_service r, r_environment r, r_proposal_hash r,
     r_source r, r_proposed_by r)"

definition transitions :: "(remediation_status \<times> remediation_status) set" where
  "transitions = {(from, to). can_transition from to}"

definition rem_rel :: "db \<Rightarrow> db \<Rightarrow> bool" where
  "rem_rel s s' \<longleftrightarrow>
     (\<forall>k r. get_remediation k s = Some r \<longrightarrow> (\<exists>r'. get_remediation k s' = Some r' \<and>
        rem_ident r' = rem_ident r \<and> (r_status r, r_status r') \<in> transitions\<^sup>*)) \<and>
     prefix (approvals s) (approvals s') \<and> prefix (policy_decisions s) (policy_decisions s') \<and>
     prefix (map exec_ident (executions s)) (map exec_ident (executions s'))"

definition rem_step :: "(approval_row list \<Rightarrow> bool) \<Rightarrow> db \<Rightarrow> db \<Rightarrow> bool" where
  "rem_step P s s' \<longleftrightarrow> (rem_ok s \<and> P (approvals s) \<longrightarrow> rem_ok s' \<and> P (approvals s') \<and> rem_rel s s')"

lemma rem_rel_refl: "rem_rel s s"
  by (auto simp: rem_rel_def)

lemma rem_rel_trans:
  assumes "rem_rel s t" "rem_rel t u"
  shows "rem_rel s u"
proof -
  have "\<exists>r'. get_remediation k u = Some r' \<and> rem_ident r' = rem_ident r \<and>
      (r_status r, r_status r') \<in> transitions\<^sup>*" if g: "get_remediation k s = Some r" for k r
  proof -
    obtain r1 where r1: "get_remediation k t = Some r1" "rem_ident r1 = rem_ident r"
      "(r_status r, r_status r1) \<in> transitions\<^sup>*" using assms(1) g unfolding rem_rel_def by blast
    obtain r2 where "get_remediation k u = Some r2" "rem_ident r2 = rem_ident r1"
      "(r_status r1, r_status r2) \<in> transitions\<^sup>*" using assms(2) r1(1) unfolding rem_rel_def by blast
    with r1 show ?thesis by (auto intro: rtrancl_trans)
  qed
  then show ?thesis using assms unfolding rem_rel_def by (auto intro: prefix_order.trans)
qed

interpretation rsp: tx_relation "rem_step P" for P
  by unfold_locales (auto simp: rem_step_def intro: rem_rel_refl rem_rel_trans)

lemma rem_stepI:
  "(rem_ok s \<Longrightarrow> P (approvals s) \<Longrightarrow> rem_ok s') \<Longrightarrow> (rem_ok s \<Longrightarrow> P (approvals s) \<Longrightarrow> rem_rel s s') \<Longrightarrow>
   approvals s' = approvals s \<Longrightarrow> rem_step P s s'"
  by (simp add: rem_step_def)

subsection \<open>Primitive steps\<close>

text \<open>The tables of the invariant are untouched and identifiers only advance.\<close>

definition rem_quiet :: "db \<Rightarrow> db \<Rightarrow> bool" where
  "rem_quiet s s' \<longleftrightarrow> remediations s' = remediations s \<and> approvals s' = approvals s \<and>
     executions s' = executions s \<and> policy_decisions s' = policy_decisions s \<and> next_uuid s \<le> next_uuid s'"

interpretation rqt: tx_relation rem_quiet
  by unfold_locales (auto simp: rem_quiet_def)

lemma rem_ok_quiet: "rem_quiet s s' \<Longrightarrow> rem_ok s \<Longrightarrow> rem_ok s'"
  by (auto simp: rem_quiet_def rem_ok_def)

lemma rem_step_quiet: "rem_quiet s s' \<Longrightarrow> rem_step P s s'"
  by (rule rem_stepI) (auto simp: rem_ok_quiet, auto simp: rem_quiet_def rem_rel_def get_remediation_def)

lemma rsp_quiet: "relT rem_quiet m \<Longrightarrow> relT (rem_step P) m"
  by (auto simp: relT_def intro: rem_step_quiet)

lemma rem_quiet_basic:
  "relT rem_quiet (insert_outbox_event clk ty agg ref corr payload)"
  "relT rem_quiet (the_or v e)" "relT rem_quiet (scalar_one_or_none xs)" "relT rem_quiet new_uuid"
  by (auto simp: relT_def rem_quiet_def insert_outbox_event_app)

lemma rem_quiet_table:
  "rem_quiet s (set_verification k vf s)" "rem_quiet s (add_verification v s)"
  "rem_quiet s (set_kill_switch_row sc kf s)" "rem_quiet s (add_kill_switch w s)"
  "rem_quiet s (set_incident i f s)"
  "rem_quiet s (s\<lparr>timeline := tl' s\<rparr>)" "rem_quiet s (s\<lparr>baselines := bs' s\<rparr>)"
  "rem_quiet s (s\<lparr>observations := obs' s\<rparr>)" "rem_quiet s (s\<lparr>verification_evidence := ves' s\<rparr>)"
  by (simp_all add: rem_quiet_def table_defs)

lemmas rem_quiet_rules = rqt.rules rem_quiet_basic rem_quiet_table [THEN rqt.rel_modify]

lemma rem_quiet_lock:
  "relT rem_quiet (lock k)" "relT rem_quiet (lock_incident i)" "relT rem_quiet (lock_verification v)"
  unfolding lock_def lock_incident_def lock_verification_def by (intro rem_quiet_rules)+

lemma rem_quiet_moved: "rem_quiet s (moved clk row to reason s)"
  by (simp add: rem_quiet_def moved_def set_incident_def)

lemma rem_quiet_helpers:
  "relT rem_quiet (view k)" "relT rem_quiet (ticket k x mode)"
  "relT rem_quiet (add_timeline clk k ev from to actor details version)"
  "relT rem_quiet (remediation_event clk k ty actor dec)"
  "relT rem_quiet (build_context core clk incident proposal tier)"
  "relT rem_quiet (execution_blocker core row entry)"
  "relT rem_quiet (link_evidence v e n role collected)"
  "relT rem_quiet (verification_event clk v ty)"
  "relT rem_quiet (closure clk i ty reason vrow)"
  unfolding ticket_def view_def add_timeline_def remediation_event_def build_context_def
    execution_blocker_def link_evidence_def verification_event_def closure_def
  by (intro rem_quiet_rules rem_quiet_lock)+

lemma rem_quiet_move:
  "relT rem_quiet (move_incident clk i froms to reason)" "relT rem_quiet (move_to clk i to reason)"
  by (auto simp: relT_def move_incident_Inr move_to_Inr rem_quiet_moved rqt.rel_refl)

lemmas rem_quiet_all = rem_quiet_rules rem_quiet_lock rem_quiet_helpers rem_quiet_move

text \<open>The verification commands, the kill switches and the alert commands.\<close>

lemma rem_quiet_verifications:
  "relT rem_quiet (start clk v)" "relT rem_quiet (claim_due vcore clk v owner lease)"
  "relT rem_quiet (record_observation vcore clk tkt sample ids observed)"
  unfolding start_def claim_due_def record_observation_def record_sample_def finalize_verification_def
    apply_verdict_def start_row_def count_firing_alerts_def
  by (intro rem_quiet_all)+

lemma rem_quiet_kill_switch: "relT rem_quiet (set_kill_switch clk scope engaged actor reason)"
  unfolding set_kill_switch_def by (intro rem_quiet_all)

lemma rem_quiet_baseline: "relT rem_quiet (record_baseline clk k owner vals ids)"
  unfolding record_baseline_def by (intro rem_quiet_all)

interpretation nrq: investigation_moves rem_quiet
proof unfold_locales
  show "rem_quiet s s'" if "inv_quiet s s'" for s s'
    using that by (simp add: inv_quiet_def outer_tables_def rem_quiet_def)
qed (rule rem_quiet_table rem_quiet_moved)+

interpretation arq: alert_steps rem_quiet
proof unfold_locales
  show "relT rem_quiet (cancel_incident clk row)" for clk row
    unfolding cancel_incident_def transition_incident_status_def by (intro rem_quiet_all)
qed (auto simp: rem_quiet_def alert_quiet_def rem_tables_def table_defs)

subsection \<open>Steps that change the tables\<close>

lemma authorised_prefix: "prefix ds ds' \<Longrightarrow> authorised ds a \<Longrightarrow> authorised ds' a"
  by (fastforce simp: authorised_def prefix_def lookup_row_append)

text \<open>Rows change but keep their identifier, their binding to an approval and their number of attempts.\<close>

lemma rem_ok_update:
  assumes ok: "rem_ok s"
    and rows: "remediations s' = map g (remediations s)"
    and g: "\<And>r. r \<in> set (remediations s) \<Longrightarrow> r_id (g r) = r_id r \<and> row_ok (approvals s) (g r) \<and>
      r_execution_attempts r \<le> r_execution_attempts (g r) \<and>
      (\<forall>a \<in> set (approvals s). bound_to a r \<longrightarrow> bound_to a (g r))"
    and same: "approvals s' = approvals s" "prefix (policy_decisions s) (policy_decisions s')"
      "next_uuid s \<le> next_uuid s'"
    and xs: "\<And>x. x \<in> set (executions s') \<Longrightarrow> (\<exists>y \<in> set (executions s). exec_ident y = exec_ident x) \<or>
      execution_ok (remediations s') (approvals s) x" "distinct (exec_attempts (executions s'))"
  shows "rem_ok s'"
proof -
  have ids: "map r_id (remediations s') = map r_id (remediations s)" using g by (simp add: rows)
  have x_ok: "execution_ok (remediations s') (approvals s) x" if "x \<in> set (executions s')" for x
  proof (cases "\<exists>y \<in> set (executions s). exec_ident y = exec_ident x")
    case True
    then obtain y where y: "y \<in> set (executions s)" "exec_ident y = exec_ident x" by blast
    then have "execution_ok (remediations s) (approvals s) y" using ok by (simp add: rem_ok_def)
    with y(2) g show ?thesis by (fastforce simp: execution_ok_def exec_ident_def rows)
  qed (use xs that in blast)
  have bound: "(\<exists>r \<in> set (remediations s'). bound_to a r) \<and> authorised (policy_decisions s') a"
    if a: "a \<in> set (approvals s)" for a
  proof -
    obtain r where "r \<in> set (remediations s)" "bound_to a r" "authorised (policy_decisions s) a"
      using ok a by (auto simp: rem_ok_def)
    then show ?thesis using g a by (auto simp: rows intro: authorised_prefix [OF same(2)])
  qed
  have "r < next_uuid s'" if "r \<in> r_id ` set (remediations s')" for r
  proof -
    have "r \<in> r_id ` set (remediations s)" using that ids by (metis set_map)
    then show ?thesis using ok same(3) by (auto simp: rem_ok_def intro: less_le_trans)
  qed
  then show ?thesis
    using ok x_ok bound xs(2) g unfolding rem_ok_def ids same(1) by (auto simp: rows)
qed

lemma rem_rel_update:
  assumes rows: "remediations s' = map g (remediations s)"
    and g: "\<And>r. r \<in> set (remediations s) \<Longrightarrow> rem_ident (g r) = rem_ident r \<and>
      (r_status r, r_status (g r)) \<in> transitions\<^sup>*"
    and same: "prefix (approvals s) (approvals s')" "prefix (policy_decisions s) (policy_decisions s')"
      "prefix (map exec_ident (executions s)) (map exec_ident (executions s'))"
  shows "rem_rel s s'"
proof -
  have "lookup_row r_id k (map g rs) = map_option g (lookup_row r_id k rs)"
    if "set rs \<subseteq> set (remediations s)" for k rs
    using that by (induction rs) (use g in \<open>auto simp: rem_ident_def\<close>)
  then have "get_remediation k s' = map_option g (get_remediation k s)" for k
    by (simp add: get_remediation_def rows)
  then show ?thesis
    using same g by (auto simp: rem_rel_def dest: rem.getD)
qed

lemma rem_step_set:
  assumes "\<And>r. rem_ident (f r) = rem_ident r \<and> r_policy_decision_id (f r) = r_policy_decision_id r \<and>
      r_execution_attempts (f r) = r_execution_attempts r"
    and "\<And>r. get_remediation k s = Some r \<Longrightarrow> r_status (f r) = r_status r \<or>
      can_transition (r_status r) (r_status (f r)) \<and>
      (live_status (r_status (f r)) \<longrightarrow> (\<forall>as. P as \<longrightarrow> approved k as))"
  shows "rem_step P s (set_remediation k f s)"
proof (rule rem_stepI)
  let ?g = "\<lambda>r. if r_id r = k then f r else r"
  have rows: "remediations (set_remediation k f s) = map ?g (remediations s)"
    by (simp add: set_remediation_def update_rows_def)
  have st: "r_status (?g r) = r_status r \<or> can_transition (r_status r) (r_status (?g r)) \<and>
      (live_status (r_status (?g r)) \<longrightarrow> approved (r_id r) (approvals s))"
    if "rem_ok s" "P (approvals s)" "r \<in> set (remediations s)" for r
    using assms(2) [of r] that rem.get_of_row [of s r] by (auto simp: rem_ok_def)
  show "rem_ok (set_remediation k f s)" if ok: "rem_ok s" and P: "P (approvals s)"
  proof (rule rem_ok_update [OF ok rows])
    fix r assume r: "r \<in> set (remediations s)"
    have "row_ok (approvals s) r" using ok r by (simp add: rem_ok_def)
    then show "r_id (?g r) = r_id r \<and> row_ok (approvals s) (?g r) \<and>
        r_execution_attempts r \<le> r_execution_attempts (?g r) \<and>
        (\<forall>a \<in> set (approvals s). bound_to a r \<longrightarrow> bound_to a (?g r))"
      using assms(1) [of r] st [OF ok P r] by (auto simp: rem_ident_def row_ok_def bound_to_def)
  qed (use ok in \<open>auto simp: set_remediation_def rem_ok_def\<close>)
  show "rem_rel s (set_remediation k f s)" if ok: "rem_ok s" and P: "P (approvals s)"
  proof (rule rem_rel_update [OF rows])
    fix r assume "r \<in> set (remediations s)"
    from st [OF ok P this] show "rem_ident (?g r) = rem_ident r \<and> (r_status r, r_status (?g r)) \<in> transitions\<^sup>*"
      using assms(1) [of r] by (auto simp: transitions_def)
  qed (simp_all add: set_remediation_def)
qed (simp add: set_remediation_def)

lemma rsp_set:
  "(\<And>r. rem_ident (f r) = rem_ident r \<and> r_policy_decision_id (f r) = r_policy_decision_id r \<and>
      r_execution_attempts (f r) = r_execution_attempts r \<and> r_status (f r) = r_status r) \<Longrightarrow>
   relT (rem_step P) (modifyT (set_remediation k f))"
  by (rule rsp.rel_modify) (rule rem_step_set; simp)

lemma rsp_transition:
  assumes "live_status to \<Longrightarrow> (\<And>as. P as \<Longrightarrow> approved k as)"
  shows "relT (rem_step P) (transition clk k to ev actor details version)"
proof (rule relTI)
  fix s x s'
  assume run: "transition clk k to ev actor details version s = Inr (x, s')"
  let ?f = "\<lambda>r. r\<lparr>r_status := to, r_version := r_version r + 1, r_updated_at := clk_now clk\<rparr>"
  obtain row y where row: "get_remediation k s = Some row" "can_transition (r_status row) to"
    and rest: "add_timeline clk k ev (Some (r_status row)) (Some to) actor details version
      (set_remediation k ?f s) = Inr (y, s')"
    using run by (auto simp: transition_def lock_def)
  have "rem_step P s (set_remediation k ?f s)"
    by (rule rem_step_set) (use row assms in \<open>auto simp: rem_ident_def\<close>)
  moreover have "rem_step P (set_remediation k ?f s) s'"
    by (rule relTD [OF rsp_quiet [OF rem_quiet_helpers(3)] rest])
  ultimately show "rem_step P s s'" by (rule rsp.rel_trans)
qed

lemma rsp_set_execution:
  assumes "\<And>x. exec_ident (f x) = exec_ident x"
  shows "relT (rem_step P) (modifyT (set_execution k f))"
proof (rule rsp.rel_modify, rule rem_stepI)
  fix s
  have xs: "map h (executions (set_execution k f s)) = map h (executions s)"
    if "\<And>x. h (f x) = h x" for h :: "execution_row \<Rightarrow> 'z"
    using that by (simp add: set_execution_def map_proj_update_rows)
  have xi: "map exec_ident (executions (set_execution k f s)) = map exec_ident (executions s)"
    by (rule xs) (rule assms)
  have rows: "remediations (set_execution k f s) = map id (remediations s)"
    by (simp add: set_execution_def)
  show "rem_ok (set_execution k f s)" if ok: "rem_ok s"
  proof (rule rem_ok_update [OF ok rows])
    fix x assume "x \<in> set (executions (set_execution k f s))"
    then have "exec_ident x \<in> set (map exec_ident (executions (set_execution k f s)))" by simp
    then have "exec_ident x \<in> set (map exec_ident (executions s))" by (simp only: xi)
    then show "(\<exists>y \<in> set (executions s). exec_ident y = exec_ident x) \<or>
        execution_ok (remediations (set_execution k f s)) (approvals s) x" by auto
  next
    have "exec_attempts (executions (set_execution k f s)) = exec_attempts (executions s)"
      unfolding exec_attempts_def by (rule xs) (use assms in \<open>simp add: exec_ident_def\<close>)
    then show "distinct (exec_attempts (executions (set_execution k f s)))" using ok by (simp add: rem_ok_def)
  qed (use ok in \<open>auto simp: set_execution_def rem_ok_def\<close>)
  show "rem_rel s (set_execution k f s)"
    by (rule rem_rel_update [OF rows]) (simp_all add: xi, simp_all add: set_execution_def)
qed (simp add: set_execution_def)

lemmas rsp_rules = rsp.rules rem_quiet_basic [THEN rsp_quiet]
  rem_quiet_table [THEN rqt.rel_modify, THEN rsp_quiet] rem_quiet_lock [THEN rsp_quiet]
  rem_quiet_helpers [THEN rsp_quiet] rem_quiet_move [THEN rsp_quiet] rsp_transition rsp_set
  rsp_set_execution

text \<open>A policy decision is appended and becomes the one of a remediation that has no approval yet.\<close>

lemma rsp_add_decision:
  "relT (rem_step P) (modifyT (\<lambda>s. s\<lparr>policy_decisions := policy_decisions s @ [d]\<rparr>))"
proof (rule rsp.rel_modify, rule rem_stepI)
  fix s :: db
  let ?s = "s\<lparr>policy_decisions := policy_decisions s @ [d]\<rparr>"
  have rows: "remediations ?s = map id (remediations s)" by simp
  show "rem_ok ?s" if "rem_ok s"
    by (rule rem_ok_update [OF that rows]) (use that in \<open>auto simp: rem_ok_def\<close>)
  show "rem_rel s ?s" by (rule rem_rel_update [OF rows]) simp_all
qed simp

lemma rsp_set_decision:
  assumes "\<And>as a. P as \<Longrightarrow> a \<in> set as \<Longrightarrow> ap_remediation_id a \<noteq> k"
  shows "relT (rem_step P) (modifyT (set_remediation k (\<lambda>r. r\<lparr>r_policy_decision_id := d\<rparr>)))"
proof (rule rsp.rel_modify, rule rem_stepI)
  fix s
  let ?s = "set_remediation k (\<lambda>r. r\<lparr>r_policy_decision_id := d\<rparr>) s"
  let ?g = "\<lambda>r. if r_id r = k then r\<lparr>r_policy_decision_id := d\<rparr> else r"
  have rows: "remediations ?s = map ?g (remediations s)"
    by (simp add: set_remediation_def update_rows_def)
  show "rem_ok ?s" if ok: "rem_ok s" and P: "P (approvals s)"
  proof (rule rem_ok_update [OF ok rows])
    fix r assume "r \<in> set (remediations s)"
    then have "row_ok (approvals s) r" using ok by (simp add: rem_ok_def)
    then show "r_id (?g r) = r_id r \<and> row_ok (approvals s) (?g r) \<and>
        r_execution_attempts r \<le> r_execution_attempts (?g r) \<and>
        (\<forall>a \<in> set (approvals s). bound_to a r \<longrightarrow> bound_to a (?g r))"
      using assms [OF P] by (auto simp: row_ok_def bound_to_def)
  qed (use ok in \<open>auto simp: set_remediation_def rem_ok_def\<close>)
  show "rem_rel s ?s"
    by (rule rem_rel_update [OF rows]) (simp_all add: rem_ident_def set_remediation_def)
qed (simp add: set_remediation_def)

lemma rsp_record_decision:
  assumes "\<And>as a. P as \<Longrightarrow> a \<in> set as \<Longrightarrow> ap_remediation_id a \<noteq> k"
  shows "relT (rem_step P) (record_decision core clk k dec context)"
  unfolding record_decision_def
  by (intro rsp_set_decision rsp_add_decision rsp_rules) (use assms in blast)

text \<open>A new remediation.\<close>

lemma rem_step_add:
  assumes r: "r_id r = next_uuid s" "r_status r = R_PROPOSED" "r_execution_attempts r = 0"
  shows "rem_step P s (add_remediation r (s\<lparr>next_uuid := Suc (next_uuid s)\<rparr>))" (is "rem_step P s ?s")
proof (rule rem_stepI)
  have rows: "remediations ?s = remediations s @ [r]" by (simp add: add_remediation_def)
  have same: "approvals ?s = approvals s" "executions ?s = executions s"
    "policy_decisions ?s = policy_decisions s" "next_uuid ?s = Suc (next_uuid s)"
    by (simp_all add: add_remediation_def)
  show "rem_ok ?s" if ok: "rem_ok s"
  proof -
    have "r_id r \<notin> r_id ` set (remediations s)" using ok r(1) by (auto simp: rem_ok_def)
    moreover have "row_ok (approvals s) r" using r by (simp add: row_ok_def live_status_def)
    moreover have "execution_ok (remediations s @ [r]) (approvals s) x" if "x \<in> set (executions s)" for x
      using ok that by (auto simp: rem_ok_def execution_ok_def)
    ultimately show ?thesis
      using ok r(1) by (auto simp: rem_ok_def rows same less_Suc_eq)
  qed
  show "rem_rel s ?s"
    using same by (auto simp: rem_rel_def get_remediation_def rows lookup_row_append)
qed (simp add: add_remediation_def)

lemma record_proposal_step:
  assumes run: "record_proposal core clk incident proposal key corr tier s = Inr (rid, s')"
    and ok: "rem_ok s"
  shows "rem_step P s s' \<and> approvals s' = approvals s \<and> (\<forall>a \<in> set (approvals s). ap_remediation_id a \<noteq> rid)"
proof -
  let ?row = "new_remediation_row core clk incident proposal key corr tier (next_uuid s)"
  let ?s1 = "add_remediation ?row (s\<lparr>next_uuid := Suc (next_uuid s)\<rparr>)"
  let ?actor = "rp_source proposal @ '':'' @ rp_proposed_by proposal"
  let ?rest = "\<lambda>rid. thenT (add_timeline clk rid ''proposed'' None (Some R_PROPOSED) ?actor
       [(''parameters'', JObj (rp_parameters proposal)), (''reason'', JStr (rp_reason proposal)),
        (''expected_effect'', JStr (rp_expected_effect proposal)),
        (''proposal_hash'', JStr (r_proposal_hash ?row)), (''idempotency_key'', JStr key)] None)
     (thenT (remediation_event clk rid RemediationProposed ?actor None) (returnT ()))"
  have rid: "rid = next_uuid s" and u: "?rest (next_uuid s) ?s1 = Inr ((), s')"
    using run by (auto simp: record_proposal_def Let_def)
  have q: "relT rem_quiet (?rest k)" for k
    by (intro rem_quiet_all)
  have "rem_step P s ?s1"
    by (rule rem_step_add) (simp_all add: new_remediation_row_def)
  then have "rem_step P s s'" using rem_step_quiet [OF relTD [OF q u]] by (rule rsp.rel_trans)
  moreover have "approvals s' = approvals s"
    using relTD [OF q u] by (simp add: rem_quiet_def add_remediation_def)
  moreover have "ap_remediation_id a \<noteq> rid" if "a \<in> set (approvals s)" for a
    using ok that rid by (fastforce simp: rem_ok_def bound_to_def)
  ultimately show ?thesis by blast
qed

text \<open>An approval.\<close>

lemma insert_approval_step:
  assumes run: "insert_approval clk row dec who role comment s = Inr (u, s')"
    and ok: "rem_ok s" and row: "get_remediation (r_id row) s = Some row"
    and self: "dec = Approved \<Longrightarrow> \<not> (r_source row = ''operator'' \<and> r_proposed_by row = who)"
    and auth: "dec = Approved \<Longrightarrow> \<exists>d rl. get_decision (the (r_policy_decision_id row)) s = Some d \<and>
      role = Some rl \<and> rl \<in> set (d_required_approver_roles d)"
  shows "rem_ok s' \<and> rem_rel s s' \<and> remediations s' = remediations s \<and> executions s' = executions s \<and>
    (\<exists>a. approvals s' = approvals s @ [a] \<and> ap_remediation_id a = r_id row \<and> ap_decision a = dec)"
proof -
  let ?a = "\<lparr>ap_id = next_uuid s, ap_remediation_id = r_id row,
     ap_policy_decision_id = the (r_policy_decision_id row), ap_proposal_hash = r_proposal_hash row,
     ap_decision = dec, ap_approver = who, ap_approver_role = role, ap_comment = comment,
     ap_decided_at = clk_now clk\<rparr>"
  have s': "s' = s\<lparr>next_uuid := Suc (next_uuid s), approvals := approvals s @ [?a]\<rparr>"
    and fresh: "approvals_of (r_id row) s = []" and d: "r_policy_decision_id row \<noteq> None"
    using run by (auto simp: insert_approval_def)
  have same: "remediations s' = remediations s" "approvals s' = approvals s @ [?a]"
    "policy_decisions s' = policy_decisions s" "executions s' = executions s"
    "next_uuid s' = Suc (next_uuid s)" by (simp_all add: s')
  have "bound_to ?a row" using d self by (auto simp: bound_to_def)
  moreover have "row \<in> set (remediations s)" using rem.getD [OF row] by simp
  moreover have "authorised (policy_decisions s) ?a"
    using auth by (auto simp: authorised_def get_decision_def)
  moreover have "ap_remediation_id ?a \<notin> ap_remediation_id ` set (approvals s)"
    using fresh by (auto simp: approvals_of_def filter_empty_conv)
  moreover have "row_ok (approvals s @ [?a]) r" if "row_ok (approvals s) r" for r
    using that by (auto simp: row_ok_def approved_def)
  moreover have "execution_ok (remediations s) (approvals s @ [?a]) x"
    if "execution_ok (remediations s) (approvals s) x" for x
    using that by (auto simp: execution_ok_def approved_def)
  ultimately have "rem_ok s'"
    using ok unfolding rem_ok_def same by (auto intro: less_SucI)
  moreover have "rem_rel s s'"
    using same by (simp add: rem_rel_def get_remediation_def)
  ultimately show ?thesis using same by simp
qed

text \<open>A new attempt: the execution row and the counter of the remediation change together.\<close>

lemma rem_step_attempt:
  assumes row: "get_remediation k s = Some row" and e: "get_entry (r_action_id row) = Some entry"
    "r_execution_attempts row < ac_max_attempts entry"
    and x: "x_remediation_id x = k" "x_attempt_number x = r_execution_attempts row + 1"
    and P: "\<And>as. P as \<Longrightarrow> approved k as"
    and f: "\<And>r. rem_ident (f r) = rem_ident r \<and> r_policy_decision_id (f r) = r_policy_decision_id r \<and>
      r_status (f r) = r_status r \<and> r_execution_attempts (f r) = r_execution_attempts row + 1"
  shows "rem_step P s (set_remediation k f (add_execution x (s\<lparr>next_uuid := Suc (next_uuid s)\<rparr>)))"
    (is "rem_step P s ?s")
proof (rule rem_stepI)
  let ?g = "\<lambda>r. if r_id r = k then f r else r"
  have rows: "remediations ?s = map ?g (remediations s)"
    by (simp add: set_remediation_def add_execution_def update_rows_def)
  have xs: "executions ?s = executions s @ [x]" by (simp add: set_remediation_def add_execution_def)
  show "rem_ok ?s" if ok: "rem_ok s" and p: "P (approvals s)"
  proof (rule rem_ok_update [OF ok rows])
    have unique: "r = row" if "r \<in> set (remediations s)" "r_id r = k" for r
      using that rem.get_of_row [of s r] row ok by (auto simp: rem_ok_def)
    fix r assume r: "r \<in> set (remediations s)"
    have "row_ok (approvals s) r" using ok r by (simp add: rem_ok_def)
    then show "r_id (?g r) = r_id r \<and> row_ok (approvals s) (?g r) \<and>
        r_execution_attempts r \<le> r_execution_attempts (?g r) \<and>
        (\<forall>a \<in> set (approvals s). bound_to a r \<longrightarrow> bound_to a (?g r))"
      using f [of r] e unique [OF r] by (auto simp: rem_ident_def row_ok_def bound_to_def)
  next
    have "row \<in> set (remediations s)" "r_id row = k" using rem.getD [OF row] by auto
    then have row_ok: "row_ok (approvals s) row" using ok by (simp add: rem_ok_def)
    fix x' assume "x' \<in> set (executions ?s)"
    moreover have "f row \<in> set (remediations ?s)"
      using \<open>row \<in> set (remediations s)\<close> \<open>r_id row = k\<close> unfolding rows by (force simp: image_iff)
    then have "execution_ok (remediations ?s) (approvals s) x"
      using \<open>r_id row = k\<close> row_ok f [of row] x P [OF p] unfolding execution_ok_def
      by (intro conjI bexI [of _ "f row"]) (auto simp: rem_ident_def row_ok_def)
    ultimately show "(\<exists>y \<in> set (executions s). exec_ident y = exec_ident x') \<or>
        execution_ok (remediations ?s) (approvals s) x'" by (auto simp: xs)
  next
    have "(k, r_execution_attempts row + 1) \<notin> set (exec_attempts (executions s))"
    proof
      assume "(k, r_execution_attempts row + 1) \<in> set (exec_attempts (executions s))"
      then obtain y where y: "y \<in> set (executions s)" "x_remediation_id y = k"
        "x_attempt_number y = r_execution_attempts row + 1" by (auto simp: exec_attempts_def)
      then obtain r where "r \<in> set (remediations s)" "r_id r = k" "x_attempt_number y \<le> r_execution_attempts r"
        using ok unfolding rem_ok_def execution_ok_def by blast
      moreover from this have "r = row" using rem.get_of_row [of s r] row ok by (auto simp: rem_ok_def)
      ultimately show False using y(3) by simp
    qed
    then show "distinct (exec_attempts (executions ?s))"
      using ok x by (simp add: xs exec_attempts_def rem_ok_def)
  qed (use ok in \<open>auto simp: set_remediation_def add_execution_def rem_ok_def\<close>)
  show "rem_rel s ?s"
    by (rule rem_rel_update [OF rows]) (use f in \<open>auto simp: set_remediation_def add_execution_def\<close>)
qed (simp add: set_remediation_def add_execution_def)

lemma start_execution_step:
  assumes run: "start_execution clk row entry owner lease s = Inr (tkt, s')"
    and row: "get_remediation (r_id row) s = Some row"
    and e: "get_entry (r_action_id row) = Some entry" "r_execution_attempts row < ac_max_attempts entry"
  shows "rem_step (approved (r_id row)) s s'"
proof -
  let ?k = "r_id row"
  let ?x = "new_execution_row clk row entry owner (next_uuid s)"
  let ?f = "begin_attempt clk (x_attempt_number ?x) entry owner lease"
  have x: "x_remediation_id ?x = ?k" "x_attempt_number ?x = r_execution_attempts row + 1"
    by (simp_all add: new_execution_row_def Let_def)
  then have f: "rem_ident (?f r) = rem_ident r \<and> r_policy_decision_id (?f r) = r_policy_decision_id r \<and>
      r_status (?f r) = r_status r \<and> r_execution_attempts (?f r) = r_execution_attempts row + 1" for r
    by (simp add: begin_attempt_def rem_ident_def)
  obtain ev actor details s1 s2 u1 u2 where
      t: "transition clk ?k R_EXECUTING ev actor details None
        (set_remediation ?k ?f (add_execution ?x (s\<lparr>next_uuid := Suc (next_uuid s)\<rparr>))) = Inr (u1, s1)"
    and r: "remediation_event clk ?k RemediationStarted actor None s1 = Inr (u2, s2)"
    and k: "ticket ?k ?x Execute s2 = Inr (tkt, s')"
    using run by (auto simp: start_execution_def Let_def)
  have "rem_step (approved ?k) s (set_remediation ?k ?f (add_execution ?x (s\<lparr>next_uuid := Suc (next_uuid s)\<rparr>)))"
    by (rule rem_step_attempt [OF row e x _ f])
  moreover have "relT (rem_step (approved ?k)) (transition clk ?k R_EXECUTING ev actor details None)"
    by (intro rsp_rules)
  note relTD [OF this t]
  moreover have "rem_quiet s1 s'"
    using relTD [OF rem_quiet_helpers(4) r] relTD [OF rem_quiet_helpers(2) k] by (rule rqt.rel_trans)
  note rem_step_quiet [OF this]
  ultimately show ?thesis by (blast intro: rsp.rel_trans)
qed

subsection \<open>The commands\<close>

abbreviation rem_command :: "db \<Rightarrow> db \<Rightarrow> bool" where
  "rem_command \<equiv> rem_step (\<lambda>_. True)"

lemma rem_commandI: "(rem_ok s \<Longrightarrow> rem_ok s' \<and> rem_rel s s') \<Longrightarrow> rem_command s s'"
  by (simp add: rem_step_def)

lemma rem_command_from:
  "(rem_ok s \<Longrightarrow> rem_ok t \<and> rem_rel s t \<and> P (approvals t)) \<Longrightarrow> rem_step P t u \<Longrightarrow> rem_command s u"
  by (auto simp: rem_step_def intro: rem_rel_trans)

lemma not_live: "\<not> live_status R_FAILED" "\<not> live_status R_CANCELLED" "\<not> live_status R_POLICY_REJECTED"
  "\<not> live_status R_AWAITING_APPROVAL"
  by (simp_all add: live_status_def)

lemma rsp_finish_failed: "relT (rem_step P) (finish_failed clk k i code msg actor)"
  unfolding finish_failed_def by (intro rsp_rules) (simp_all add: rem_ident_def not_live)

lemma rsp_finish_cancelled: "relT (rem_step P) (finish_cancelled clk k i ev actor reason to ty dec)"
  unfolding finish_cancelled_def by (intro rsp_rules) (simp_all add: rem_ident_def not_live)

lemma rsp_routes:
  "relT (rem_step P) (route_denied clk k i dec drow)" "relT (rem_step P) (route_approval clk k i dec drow)"
  unfolding route_denied_def route_approval_def
  by (intro rsp_rules; simp add: rem_ident_def not_live)+

lemma rsp_propose: "relT rem_command (propose core clk proposal key corr)"
proof (rule relTI)
  fix s v s'
  assume run: "propose core clk proposal key corr s = Inr (v, s')"
  let ?tier = "entry_tier (rc_model_validate core) (get_entry (rp_action_id proposal)) (rp_parameters proposal)"
  define rest where "rest = (\<lambda>incident rid. bindT (build_context core clk incident proposal ?tier) (\<lambda>context.
     let dec = evaluate (rc_model_validate core) proposal (get_entry (rp_action_id proposal)) (rc_policy core) context
     in bindT (record_decision core clk rid dec context) (\<lambda>decision_row.
        thenT (if pd_decision dec = DENY then route_denied clk rid (i_id incident) dec decision_row
               else route_approval clk rid (i_id incident) dec decision_row)
          (view rid))))"
  have run': "bindT (lock_incident (rp_incident_id proposal)) (\<lambda>incident. bindT (getsT remediations) (\<lambda>rows.
      bindT (scalar_one_or_none (filter (\<lambda>r. r_incident_id r = rp_incident_id proposal \<and>
        r_idempotency_key r = key) rows)) (\<lambda>existing. case existing of Some row \<Rightarrow> view (r_id row)
          | None \<Rightarrow> bindT (record_proposal core clk incident proposal key corr ?tier) (rest incident)))) s = Inr (v, s')"
    using run by (simp only: propose_def rest_def Let_def)
  from run' consider (known) row :: remediation_row where "view (r_id row) s = Inr (v, s')"
    | (new) incident rid s1 where "record_proposal core clk incident proposal key corr ?tier s = Inr (rid, s1)"
        "rest incident rid s1 = Inr (v, s')"
    by auto
  then show "rem_command s s'"
  proof cases
    case known
    then show ?thesis by (rule relTD [OF rsp_quiet [OF rem_quiet_helpers(1)]])
  next
    case new
    let ?P = "\<lambda>as. \<forall>a \<in> set as. ap_remediation_id a \<noteq> rid"
    have "relT (rem_step ?P) (rest incident rid)"
      unfolding rest_def by (intro rsp_record_decision rsp_routes rsp_rules) simp
    then have "rem_step ?P s1 s'" using new(2) by (rule relTD)
    then show ?thesis
      using record_proposal_step [OF new(1), of "\<lambda>_. True"]
      by (intro rem_command_from [of s s1 ?P]) (auto simp: rem_step_def)
  qed
qed

lemma rsp_approve:
  "relT (rem_step (approved k)) (approve_remediation clk k i actor role comment drow)"
  unfolding approve_remediation_def by (intro rsp_rules) (simp_all add: rem_ident_def)

lemma rsp_reject: "relT (rem_step P) (reject_remediation clk k i approver comment drow)"
  unfolding reject_remediation_def by (intro rsp_finish_cancelled rsp_rules) (simp add: rem_ident_def)

text \<open>A decision either replays the recorded one or records the only approval of the remediation.\<close>

lemma decide_approval_cases:
  assumes "decide_approval clk k approver roles approve hash did comment s = Inr (v, s')"
  obtains (replay) "view k s = Inr (v, s')"
  | (decided) row d s1 s2 i role where "get_remediation k s = Some row" "r_status row = R_AWAITING_APPROVAL"
      "hash = r_proposal_hash row" "r_policy_decision_id row = Some did" "get_decision did s = Some d"
      "approve \<Longrightarrow> \<exists>rl \<in> set roles. role = Some rl \<and> rl \<in> set (d_required_approver_roles d)"
      "approve \<Longrightarrow> \<not> (r_source row = ''operator'' \<and> r_proposed_by row = approver)"
      "insert_approval clk row (if approve then Approved else Rejected) approver role comment s = Inr ((), s1)"
      "approve \<Longrightarrow> approve_remediation clk k i (''human:'' @ approver) (the role) comment d s1 = Inr ((), s2)"
      "\<not> approve \<Longrightarrow> reject_remediation clk k i approver comment d s1 = Inr ((), s2)"
      "view k s2 = Inr (v, s')"
proof (cases "view k s = Inr (v, s')")
  case False
  obtain row d i s1 s2 where facts: "get_remediation k s = Some row" "r_status row = R_AWAITING_APPROVAL"
      "hash = r_proposal_hash row" "r_policy_decision_id row = Some did" "get_decision did s = Some d"
    and el: "approve \<longrightarrow> filter (\<lambda>r. r \<in> set (d_required_approver_roles d)) roles \<noteq> []"
    and self: "approve \<longrightarrow> \<not> (r_source row = ''operator'' \<and> r_proposed_by row = approver)"
    and ins: "insert_approval clk row (if approve then Approved else Rejected) approver
         (case filter (\<lambda>r. r \<in> set (d_required_approver_roles d)) roles of [] \<Rightarrow> None | r # _ \<Rightarrow> Some r)
         comment s = Inr ((), s1)"
    and act: "(if approve then approve_remediation clk k i (''human:'' @ approver)
                (hd (filter (\<lambda>r. r \<in> set (d_required_approver_roles d)) roles)) comment d
         else reject_remediation clk k i approver comment d) s1 = Inr ((), s2)" "view k s2 = Inr (v, s')"
    using assms False by (auto simp: decide_approval_def lock_def Let_def cong: if_cong split: if_splits(2))
  show thesis
  proof (rule decided [OF facts _ _ ins _ _ act(2)])
    show "\<exists>rl \<in> set roles. (case filter (\<lambda>r. r \<in> set (d_required_approver_roles d)) roles of
        [] \<Rightarrow> None | r # _ \<Rightarrow> Some r) = Some rl \<and> rl \<in> set (d_required_approver_roles d)" if approve
      using el that by (auto simp: neq_Nil_conv dest: Cons_eq_filterD [OF sym])
  qed (use self act(1) el in \<open>auto split: list.splits\<close>)
qed (rule replay)

lemma rsp_decide_approval: "relT rem_command (decide_approval clk k approver roles approve hash did comment)"
proof (rule relTI)
  fix s v s'
  assume "decide_approval clk k approver roles approve hash did comment s = Inr (v, s')"
  then show "rem_command s s'"
  proof (cases rule: decide_approval_cases)
    case replay
    then show ?thesis by (rule relTD [OF rsp_quiet [OF rem_quiet_helpers(1)]])
  next
    case (decided row d s1 s2 i role)
    have id: "r_id row = k" using rem.getD [OF decided(1)] by simp
    have ins: "rem_ok s1 \<and> rem_rel s s1 \<and> (approve \<longrightarrow> approved k (approvals s1))" if ok: "rem_ok s"
    proof -
      have "rem_ok s1 \<and> rem_rel s s1 \<and> remediations s1 = remediations s \<and> executions s1 = executions s \<and>
          (\<exists>a. approvals s1 = approvals s @ [a] \<and> ap_remediation_id a = r_id row \<and>
             ap_decision a = (if approve then Approved else Rejected))"
        by (rule insert_approval_step [OF decided(8) ok])
          (use decided(1-7) id in \<open>auto split: if_splits\<close>)
      then show ?thesis using id by (auto simp: approved_def)
    qed
    have v: "rem_step P s2 s'" for P
      by (rule relTD [OF rsp_quiet [OF rem_quiet_helpers(1)] decided(11)])
    show ?thesis
    proof (cases approve)
      case True
      have "rem_step (approved k) s1 s'"
        using relTD [OF rsp_approve decided(9) [OF True]] v by (rule rsp.rel_trans)
      then show ?thesis using ins True by (intro rem_command_from) auto
    next
      case False
      have "rem_command s1 s'"
        using relTD [OF rsp_reject decided(10) [OF False]] v by (rule rsp.rel_trans)
      then show ?thesis using ins by (intro rem_command_from) auto
    qed
  qed
qed

lemma rsp_expire_one: "relT rem_command (expire_one core clk k)"
proof (rule relTI)
  fix s b s'
  assume run: "expire_one core clk k s = Inr (b, s')"
  define rest where "rest = (\<lambda>row :: remediation_row. thenT (modifyT (set_remediation k (\<lambda>r. r\<lparr>r_approval_status := Some ''timed_out''\<rparr>)))
     (bindT (lock_incident (r_incident_id row)) (\<lambda>incident.
        finish_cancelled clk k (i_id incident) ''approval_timed_out'' ''system:approval-timeout''
          (''no approval within '' @ str_timedelta (rc_approval_timeout core)) ESCALATED
          RemediationCancelled None)))"
  have rest: "relT (rem_step P) (rest row)" for P row
    unfolding rest_def by (intro rsp_finish_cancelled rsp_rules) (simp add: rem_ident_def)
  obtain row where row: "get_remediation k s = Some row"
    and cases: "s' = s \<or> (\<exists>s1. insert_approval clk row Timed_out ''system:approval-timeout'' None None s = Inr ((), s1) \<and>
      rest row s1 = Inr ((), s'))"
    using run by (auto simp: expire_one_def rest_def lock_def split: if_splits)
  have id: "r_id row = k" using rem.getD [OF row] by simp
  show "rem_command s s'"
    using cases
  proof
    assume "\<exists>s1. insert_approval clk row Timed_out ''system:approval-timeout'' None None s = Inr ((), s1) \<and>
      rest row s1 = Inr ((), s')"
    then obtain s1 where s1: "insert_approval clk row Timed_out ''system:approval-timeout'' None None s = Inr ((), s1)"
      "rest row s1 = Inr ((), s')" by blast
    have "rem_ok s1 \<and> rem_rel s s1" if "rem_ok s"
      using insert_approval_step [OF s1(1) that] row id by simp
    then show ?thesis
      by (intro rem_command_from [OF _ relTD [OF rest s1(2)], of _ "\<lambda>_. True"]) simp
  qed (simp add: rsp.rel_refl)
qed

lemma rsp_cancel: "relT (rem_step P) (cancel clk k actor reason)"
  unfolding cancel_def by (intro rsp_finish_cancelled rsp_rules)

lemma rsp_expire_each: "rem_command s (snd (expire_each core clk ks s))"
proof (induction ks arbitrary: s)
  case (Cons k ks)
  have "rem_command s (snd (run_tx (expire_one core clk k) s))" by (rule rsp.rel_run_tx [OF rsp_expire_one])
  then show ?case using Cons.IH [of "snd (run_tx (expire_one core clk k) s)"]
    by (auto intro: rsp.rel_trans split: prod.splits sum.splits)
qed (simp add: rsp.rel_refl)

lemma rsp_expire_approvals: "rem_command s (snd (expire_approvals core clk s))"
  unfolding expire_approvals_def by (rule rsp_expire_each)

lemma rsp_revise: "rem_command s (snd (revise core clk k params by' reason key s))"
proof -
  have v: "rem_command s (snd (run_tx (view k) s))"
    by (rule rsp.rel_run_tx) (rule rsp_quiet [OF rem_quiet_helpers(1)])
  have c: "rem_command s' (snd (run_tx (cancel clk k a r) s'))" for s' a r
    by (rule rsp.rel_run_tx [OF rsp_cancel])
  have p: "rem_command s' (snd (run_tx (propose core clk q key corr) s'))" for s' q corr
    by (rule rsp.rel_run_tx [OF rsp_propose])
  note chain = v c [of "snd (run_tx (view k) s)" "''operator:'' @ by'" "''superseded by revision''"]
  show ?thesis
    unfolding revise_def using chain p
    by (auto simp: Let_def intro: rsp.rel_trans split: prod.splits sum.splits)
qed

text \<open>What the checks before an execution establish.\<close>

lemma execution_blocker_None:
  assumes "execution_blocker core row entry s = Inr (None, s')"
  shows "s' = s \<and> GLOBAL_SCOPE \<notin> engaged_scopes s \<and> service_scope (r_target_service row) \<notin> engaged_scopes s \<and>
    (\<exists>a. approvals_of (r_id row) s = [a] \<and> ap_decision a = Approved \<and>
       ap_proposal_hash a = r_proposal_hash row \<and> Some (ap_policy_decision_id a) = r_policy_decision_id row) \<and>
    (\<exists>e. entry = Some e \<and> r_catalog_version row = CATALOG_VERSION \<and>
       snd (validate (rc_model_validate core) e (r_parameters row)) = [] \<and>
       r_target_service row \<in> set (rc_services core) \<and> r_execution_attempts row < ac_max_attempts e)"
  using assms
  by (auto simp: execution_blocker_def split: if_splits option.splits prod.splits)

lemma execution_blocker_reads: "execution_blocker core row entry s = Inr (b, s') \<Longrightarrow> s' = s"
proof -
  have "keepsT (\<lambda>s. s) (execution_blocker core row entry)"
    unfolding execution_blocker_def by (intro keeps_rules)
  then show "execution_blocker core row entry s = Inr (b, s') \<Longrightarrow> s' = s" by (rule keepsTD)
qed

lemma rsp_block_execution: "relT (rem_step P) (block_execution clk k i code msg)"
  unfolding block_execution_def by (intro rsp.rules rsp_finish_cancelled rsp_finish_failed)

lemma rsp_begin_execution:
  assumes run: "begin_execution core clk row owner lease s = Inr (r, s')"
    and row: "get_remediation (r_id row) s = Some row"
  shows "rem_command s s'"
proof -
  obtain incident blocker where inc: "get_incident (r_incident_id row) s = Some incident"
    and b: "execution_blocker core row (get_entry (r_action_id row)) s = Inr (blocker, s)"
    and rest: "(case blocker of
        Some (code, msg) \<Rightarrow> thenT (block_execution clk (r_id row) (i_id incident) code msg) (returnT None)
      | None \<Rightarrow> bindT (the_or (get_entry (r_action_id row)) (AssertionFailed ''entry is not None'')) (\<lambda>e.
          bindT (start_execution clk row e owner lease) (\<lambda>t. returnT (Some t)))) s = Inr (r, s')"
    using run unfolding begin_execution_def Let_def
    by (auto dest: execution_blocker_reads)
  show ?thesis
  proof (cases blocker)
    case None
    then obtain e tkt where e: "get_entry (r_action_id row) = Some e"
      "start_execution clk row e owner lease s = Inr (tkt, s')" using rest by auto
    have ok: "r_execution_attempts row < ac_max_attempts e" "approved (r_id row) (approvals s)"
      using execution_blocker_None [OF b [unfolded None]] e(1)
      by (auto simp: approved_def approvals_of_def dest!: filter_eq_ConsD)
    have "rem_step (approved (r_id row)) s s'" by (rule start_execution_step [OF e(2) row e(1) ok(1)])
    then show ?thesis using ok(2) by (auto simp: rem_step_def)
  next
    case (Some c)
    then show ?thesis
      using rest by (cases c) (auto intro: relTD [OF rsp_block_execution])
  qed
qed

lemma rsp_claim_execution: "relT rem_command (claim_execution core clk k owner lease)"
proof (rule relTI)
  fix s t s'
  assume run: "claim_execution core clk k owner lease s = Inr (t, s')"
  then obtain row where row: "get_remediation k s = Some row" by (auto simp: claim_execution_def lock_def)
  have id: "r_id row = k" using rem.getD [OF row] by simp
  have int: "relT rem_command (interrupt_execution clk row x owner lease)" for x
    unfolding interrupt_execution_def
    by (intro rsp_rules) (simp_all add: rem_ident_def exec_ident_def)
  from run row consider "s' = s"
    | t' x where "interrupt_execution clk row x owner lease s = Inr (t', s')"
    | "begin_execution core clk row owner lease s = Inr (t, s')"
    by (auto simp: claim_execution_def lock_def split: if_splits)
  then show "rem_command s s'"
    using relTD [OF int] rsp_begin_execution [of core clk row owner lease s t s'] row id
    by cases (auto simp: rsp.rel_refl)
qed

lemma bindT_getsT: "bindT (getsT f) g s = g (f s) s"
  by (simp add: tx_run)

lemma bindT_bindT: "bindT (bindT m f) g = bindT m (\<lambda>x. bindT (f x) g)"
  by (auto simp: fun_eq_iff bindT_app split: sum.splits)

lemma bindT_the_or: "bindT (the_or (Some x) e) g s = g x s"
  by (simp add: tx_run the_or_def)

text \<open>Completing an execution: an executing remediation is approved, so it may become executed.\<close>

lemma rsp_request_verification: "relT (rem_step P) (request_verification core clk k entry)"
  unfolding request_verification_def by (intro rsp_rules) (simp add: rem_ident_def)

lemma rsp_complete_succeeded:
  "relT (rem_step (approved (r_id row))) (complete_succeeded core clk x row i actor result)"
  unfolding complete_succeeded_def
  by (intro rsp_request_verification rsp_rules) (simp_all add: rem_ident_def exec_ident_def)

lemma rsp_complete_unsuccessful:
  "relT (rem_step P) (complete_unsuccessful clk x row i actor outcome err retryable)"
  unfolding complete_unsuccessful_def
  by (intro rsp_finish_failed rsp_rules) (simp_all add: rem_ident_def exec_ident_def)

lemma rsp_complete_execution:
  "relT rem_command (complete_execution core clk x owner outcome executor result err retryable)"
proof (rule relTI)
  fix s v s'
  assume run: "complete_execution core clk x owner outcome executor result err retryable s = Inr (v, s')"
  then obtain ex row where ex: "get_execution x s = Some ex" "get_remediation (x_remediation_id ex) s = Some row"
    by (auto simp: complete_execution_def lock_def)
  have id: "r_id row = x_remediation_id ex" using rem.getD [OF ex(2)] by simp
  define e where "e = (let e = take 2000 (case err of Some t \<Rightarrow> t | None \<Rightarrow> []) in if e = [] then None else Some e)"
  define rest where "rest = thenT (modifyT (set_execution x (\<lambda>x. x\<lparr>x_executor := executor,
       x_completed_at := Some (clk_now clk), x_result := result, x_error := e\<rparr>)))
     (bindT (lock_incident (r_incident_id row)) (\<lambda>incident.
      thenT (modifyT (set_remediation (r_id row) (\<lambda>r. r\<lparr>r_executor_result :=
               Some (dmerge [(''attempt'', JInt (x_attempt_number ex))]
                       (case result of Some d \<Rightarrow> d | None \<Rightarrow> []))\<rparr>)))
      (thenT (if outcome = ''succeeded''
              then complete_succeeded core clk ex row (i_id incident) (''executor:'' @ executor) result
              else complete_unsuccessful clk ex row (i_id incident) (''executor:'' @ executor) outcome e retryable)
        (view (r_id row)))))"
  have r: "relT (rem_step (approved (r_id row))) rest"
    unfolding rest_def
    by (intro rsp_complete_succeeded rsp_complete_unsuccessful rsp_rules)
      (simp_all add: rem_ident_def exec_ident_def)
  have "(if r_status row \<noteq> R_EXECUTING then view (r_id row)
      else thenT (guardT (r_lease_owner row = Some owner)
               (LeaseLostError (owner @ '' does not hold remediation '' @ uuid_str (r_id row))))
        (if x_status ex \<noteq> X_RUNNING \<and> x_status ex \<noteq> X_UNKNOWN then view (r_id row) else rest)) s = Inr (v, s')"
    using run unfolding complete_execution_def rest_def e_def Let_def lock_def
    by (simp only: bindT_getsT bindT_the_or bindT_bindT ex)
  then have "view (r_id row) s = Inr (v, s') \<or> r_status row = R_EXECUTING \<and> rest s = Inr (v, s')"
    by (auto split: if_splits)
  then show "rem_command s s'"
  proof
    assume "view (r_id row) s = Inr (v, s')"
    then show ?thesis by (rule relTD [OF rsp_quiet [OF rem_quiet_helpers(1)]])
  next
    assume *: "r_status row = R_EXECUTING \<and> rest s = Inr (v, s')"
    have "approved (r_id row) (approvals s)" if "rem_ok s"
      using that * rem.getD [OF ex(2)] by (auto simp: rem_ok_def row_ok_def live_status_def)
    then show ?thesis
      using relTD [OF r conjunct2 [OF *]] by (intro rem_command_from [of s s]) (auto simp: rem_rel_refl)
  qed
qed

end
