(* ===== verification/System.thy ===== *)
theory System
  imports Remediation_Invariant
begin

text \<open>
  The commands of incident-core as one system: every public method that changes the database is a
  \<open>command\<close>, \<open>exec\<close> runs one in its own transactions and commits, and \<open>run\<close> is a history of commands, each
  at its own clock reading. A command that raises leaves the database as its last committed
  transaction left it.
\<close>

record incident_system =
  sys_incidents :: incident_core
  sys_remediations :: remediation_core
  sys_verifications :: verification_core
  sys_investigations :: investigation_core

datatype command =
    Handle_alert_received alert_received_command
  | Register_evidence_ref register_evidence_ref_command
  | Propose remediation_proposal string "uuid option"
  | Decide_approval uuid string "string list" bool string uuid "string option"
  | Expire_approvals
  | Cancel uuid string string
  | Revise uuid "json dict" string "string option" string
  | Claim_execution uuid string int
  | Complete_execution uuid string string string "json dict option" "string option" bool
  | Record_baseline uuid string "json dict" "uuid list"
  | Set_kill_switch string bool string "string option"
  | Start_verification uuid
  | Claim_due uuid string float64
  | Record_observation verification_ticket sample "uuid list" datetime
  | Request_investigation uuid string string "json dict" investigation_budget
  | Claim_investigation uuid string int
  | Release_investigation uuid string
  | Record_step uuid string step_report int
  | Apply_hypothesis_updates uuid string int string hypothesis_update_batch
  | Complete_investigation uuid string int string final_investigation_result
  | Escalate_investigation uuid string int investigation_status string string "string option"
      "string list option" "string option"

fun exec :: "incident_system \<Rightarrow> clock \<Rightarrow> command \<Rightarrow> db \<Rightarrow> db" where
  "exec sys clk (Handle_alert_received c) s = snd (run_tx (handle_alert_received (sys_incidents sys) clk c) s)"
| "exec sys clk (Register_evidence_ref c) s = snd (run_tx (register_evidence_ref clk c) s)"
| "exec sys clk (Propose p key corr) s = snd (run_tx (propose (sys_remediations sys) clk p key corr) s)"
| "exec sys clk (Decide_approval k who roles ok hash d comment) s =
     snd (run_tx (decide_approval clk k who roles ok hash d comment) s)"
| "exec sys clk Expire_approvals s = snd (expire_approvals (sys_remediations sys) clk s)"
| "exec sys clk (Cancel k actor reason) s = snd (run_tx (cancel clk k actor reason) s)"
| "exec sys clk (Revise k params who reason key) s =
     snd (revise (sys_remediations sys) clk k params who reason key s)"
| "exec sys clk (Claim_execution k owner lease) s =
     snd (run_tx (claim_execution (sys_remediations sys) clk k owner lease) s)"
| "exec sys clk (Complete_execution x owner outcome executor result err retryable) s =
     snd (run_tx (complete_execution (sys_remediations sys) clk x owner outcome executor result err retryable) s)"
| "exec sys clk (Record_baseline k owner vals ids) s = snd (run_tx (record_baseline clk k owner vals ids) s)"
| "exec sys clk (Set_kill_switch scope engaged actor reason) s =
     snd (run_tx (set_kill_switch clk scope engaged actor reason) s)"
| "exec sys clk (Start_verification v) s = snd (run_tx (start clk v) s)"
| "exec sys clk (Claim_due v owner lease) s =
     snd (run_tx (claim_due (sys_verifications sys) clk v owner lease) s)"
| "exec sys clk (Record_observation tkt sample ids observed) s =
     snd (run_tx (record_observation (sys_verifications sys) clk tkt sample ids observed) s)"
| "exec sys clk (Request_investigation i provider name settings budget) s =
     snd (run_tx (request_investigation clk i provider name settings budget) s)"
| "exec sys clk (Claim_investigation k owner lease) s = snd (claim_investigation clk k owner lease s)"
| "exec sys clk (Release_investigation k owner) s = snd (run_tx (release clk k owner) s)"
| "exec sys clk (Record_step k owner r lease) s = snd (run_tx (record_step clk k owner r lease) s)"
| "exec sys clk (Apply_hypothesis_updates k owner iter cid batch) s =
     snd (run_tx (apply_hypothesis_updates clk k owner iter cid batch) s)"
| "exec sys clk (Complete_investigation k owner iter cid result) s =
     snd (run_tx (complete_investigation (sys_investigations sys) clk k owner iter cid result) s)"
| "exec sys clk (Escalate_investigation k owner iter outcome code detail why gaps cid) s =
     snd (run_tx (escalate_investigation clk k owner iter outcome code detail why gaps cid) s)"

text \<open>The investigation commands.\<close>

fun investigates :: "command \<Rightarrow> bool" where
  "investigates (Request_investigation _ _ _ _ _) = True"
| "investigates (Claim_investigation _ _ _) = True"
| "investigates (Release_investigation _ _) = True"
| "investigates (Record_step _ _ _ _) = True"
| "investigates (Apply_hypothesis_updates _ _ _ _ _) = True"
| "investigates (Complete_investigation _ _ _ _ _) = True"
| "investigates (Escalate_investigation _ _ _ _ _ _ _ _ _) = True"
| "investigates _ = False"

fun run :: "incident_system \<Rightarrow> (clock \<times> command) list \<Rightarrow> db \<Rightarrow> db" where
  "run sys [] s = s"
| "run sys ((clk, c) # cs) s = run sys cs (exec sys clk c s)"

definition well_configured :: "incident_system \<Rightarrow> bool" where
  "well_configured sys \<longleftrightarrow> ic_candidate_lookback_seconds (sys_incidents sys) \<noteq> 0"

definition sys_inv :: "db \<Rightarrow> bool" where
  "sys_inv s \<longleftrightarrow> core_inv {} s \<and> rem_ok s"

lemma sys_inv_empty: "sys_inv empty_db"
  using core_inv_empty by (simp add: sys_inv_def rem_ok_def exec_attempts_def empty_db_def)

subsection \<open>Relations across commands\<close>

text \<open>
  A relation that holds across the commands of every component holds across every command, and, when it
  is reflexive and transitive, across every history. The kill switches come last: some relations hold
  only while nobody flips one.
\<close>

locale incident_commands = tx_relation R for R :: "db \<Rightarrow> db \<Rightarrow> bool" +
  assumes alert_step: "core_inv {} s \<Longrightarrow> ic_candidate_lookback_seconds core \<noteq> 0 \<Longrightarrow>
      handle_alert_received core clk c s = Inr (r, s') \<Longrightarrow> R s s'"
    and evidence_step: "relT R (register_evidence_ref clk e)"
    and propose_step: "relT R (propose rcore clk p key corr)"
    and decide_step: "relT R (decide_approval clk k who roles ok hash d comment)"
    and expire_step: "R s (snd (expire_approvals rcore clk s))"
    and cancel_step: "relT R (cancel clk k actor reason)"
    and revise_step: "R s (snd (revise rcore clk k params who rsn key s))"
    and claim_step: "relT R (claim_execution rcore clk k owner lease)"
    and complete_step: "relT R (complete_execution rcore clk x owner outcome executor result err retryable)"
    and baseline_step: "relT R (record_baseline clk k owner vals ids)"
    and start_step: "relT R (start clk v)"
    and claim_due_step: "relT R (claim_due vcore clk v owner flease)"
    and observe_step: "relT R (record_observation vcore clk tkt sample ids observed)"
begin

lemma exec_incident_command:
  assumes "well_configured sys" "core_inv {} s" "\<And>scope on who why. c \<noteq> Set_kill_switch scope on who why"
    "\<not> investigates c"
  shows "R s (exec sys clk c s)"
proof (cases c)
  case (Handle_alert_received a)
  then show ?thesis
    using alert_step [of s "sys_incidents sys" clk a] assms
    by (auto simp: run_tx_snd well_configured_def rel_refl split: sum.splits)
qed (use assms(3,4) in \<open>simp_all add: expire_step revise_step evidence_step [THEN rel_run_tx]
    propose_step [THEN rel_run_tx] decide_step [THEN rel_run_tx] cancel_step [THEN rel_run_tx]
    claim_step [THEN rel_run_tx] complete_step [THEN rel_run_tx] baseline_step [THEN rel_run_tx]
    start_step [THEN rel_run_tx] claim_due_step [THEN rel_run_tx] observe_step [THEN rel_run_tx]\<close>)

end

locale command_steps = incident_commands R + investigation_moves R for R :: "db \<Rightarrow> db \<Rightarrow> bool"
begin

lemma exec_unswitched_step:
  assumes "well_configured sys" "core_inv {} s" "\<And>scope on who why. c \<noteq> Set_kill_switch scope on who why"
  shows "R s (exec sys clk c s)"
proof (cases "investigates c")
  case True
  then show ?thesis
    by (cases c) (simp_all add: rel_claim_investigation rel_request_investigation [THEN rel_run_tx]
      rel_commands [THEN rel_run_tx] rel_complete_investigation [THEN rel_run_tx]
      rel_escalate_investigation [THEN rel_run_tx])
qed (use exec_incident_command [OF assms] in simp)

end

locale system_steps = command_steps +
  assumes switch_step: "relT R (set_kill_switch clk scope engaged actor rsn)"
begin

lemma exec_step:
  assumes "well_configured sys" "core_inv {} s"
  shows "R s (exec sys clk c s)"
  using exec_unswitched_step [OF assms, of c clk] switch_step [THEN rel_run_tx] by (cases c) simp_all

end

interpretation sci: system_steps "\<lambda>s s'. core_inv {} s \<longrightarrow> core_inv {} s'"
proof unfold_locales
  show "core_inv {} s \<longrightarrow> core_inv {} s'"
    if "handle_alert_received core clk c s = Inr (r, s')" for s core clk c r s'
    using invTD [OF core_inv_handle_alert_received _ that] by blast
  show "relT (\<lambda>s s'. core_inv {} s \<longrightarrow> core_inv {} s') (register_evidence_ref clk e)" for clk e
    using core_inv_register_evidence_ref by (simp add: invT_def)
qed (rule rci.rel_propose rci.rel_decide_approval rci.rel_expire_approvals rci.rel_cancel rci.rel_revise
    rci.rel_claim_execution rci.rel_complete_execution rci.rel_record_baseline rci.rel_set_kill_switch
    vci.rel_start vci.rel_claim_due vci.rel_record_observation)+

lemma run_core_inv:
  assumes "well_configured sys" "core_inv {} s"
  shows "core_inv {} (run sys cs s)"
  using assms(2)
proof (induction cs arbitrary: s)
  case (Cons x cs)
  then show ?case using sci.exec_step [OF assms(1) Cons.prems] by (cases x) auto
qed simp

context system_steps
begin

lemma run_step:
  assumes "well_configured sys" "core_inv {} s"
  shows "R s (run sys cs s)"
  using assms(2)
proof (induction cs arbitrary: s)
  case (Cons x cs)
  obtain clk c where x: "x = (clk, c)" by (cases x)
  have "core_inv {} (exec sys clk c s)" using run_core_inv [OF assms(1) Cons.prems, of "[x]"] x by simp
  then show ?case
    using Cons.IH exec_step [OF assms(1) Cons.prems] x by (auto intro: rel_trans)
qed (simp add: rel_refl)

end

lemma alert_moves:
  assumes "core_inv {} s" "ic_candidate_lookback_seconds core \<noteq> 0" "handle_alert_received core clk c s = Inr (r, s')"
  shows "inc_rel alert_edges s s'"
proof -
  have "cancelled_only s s'"
    using assms by (cases rule: handle_alert_received_cases)
      (auto intro: process_alert_received_cancels cancelled_only_same inc_rel_refl)
  then show ?thesis by (fastforce simp: cancelled_only_def inc_rel_def alert_edges_def)
qed

lemma evidence_moves: "relT (inc_rel E) (register_evidence_ref clk ev)"
  unfolding register_evidence_ref_def insert_evidence_ref_def get_evidence_ref_def
  by (intro inc_rules ist.rel_modify inc_rel_same) simp

interpretation sst: system_steps "inc_rel incident_edges"
proof -
  have e: "remediation_edges \<union> incident_edges = incident_edges"
    "verification_edges \<union> incident_edges = incident_edges" by (auto simp: incident_edges_def)
  note r = rst.rel_propose [of incident_edges, unfolded e] rst.rel_decide_approval [of incident_edges, unfolded e]
    rst.rel_expire_approvals [of incident_edges, unfolded e] rst.rel_cancel [of incident_edges, unfolded e]
    rst.rel_revise [of incident_edges, unfolded e] rst.rel_claim_execution [of incident_edges, unfolded e]
    rst.rel_complete_execution [of incident_edges, unfolded e]
    rst.rel_record_baseline [of incident_edges, unfolded e] rst.rel_set_kill_switch [of incident_edges, unfolded e]
    vst.rel_start [of incident_edges, unfolded e] vst.rel_claim_due [of incident_edges, unfolded e]
    vst.rel_record_observation [of incident_edges, unfolded e]
  show "system_steps (inc_rel incident_edges)"
  proof unfold_locales
    show "inc_rel incident_edges s s'"
      if "core_inv {} s" "ic_candidate_lookback_seconds core \<noteq> 0"
        "handle_alert_received core clk c s = Inr (r, s')" for s core clk c r s'
      using alert_moves [OF that] by (rule inc_rel_mono [rotated]) (auto simp: incident_edges_def)
    show "relT (inc_rel incident_edges) (register_evidence_ref clk ev)" for clk ev
      by (rule evidence_moves)
  qed (rule r)+
qed

interpretation san: system_steps announced
  by unfold_locales (rule aan.rel_handle_alert_received aan.rel_register_evidence_ref ran.rel_propose
    ran.rel_decide_approval ran.rel_expire_approvals ran.rel_cancel ran.rel_revise ran.rel_claim_execution
    ran.rel_complete_execution ran.rel_record_baseline ran.rel_set_kill_switch van.rel_start
    van.rel_claim_due van.rel_record_observation; assumption?)+

interpretation nrm: investigation_moves rem_command
  by unfold_locales (rule rem_step_quiet, erule nrq.quiet_step nrq.move_step nrq.attempt_step; assumption?
    | rule rem_step_quiet, rule nrq.attempt_step)+

interpretation srm: system_steps rem_command
proof unfold_locales
  show "rem_command s s'"
    if "core_inv {} s" "ic_candidate_lookback_seconds core \<noteq> 0"
      "handle_alert_received core clk c s = Inr (r, s')" for s core clk c r s'
    by (rule rem_step_quiet) (rule arq.rel_handle_alert_received [OF that])
  show "relT rem_command (register_evidence_ref clk e)" for clk e
    by (rule rsp_quiet) (rule arq.rel_register_evidence_ref)
qed (rule rsp_propose rsp_decide_approval rsp_expire_approvals rsp_cancel rsp_revise rsp_claim_execution
    rsp_complete_execution rem_quiet_baseline [THEN rsp_quiet] rem_quiet_kill_switch [THEN rsp_quiet]
    rem_quiet_verifications [THEN rsp_quiet])+

lemma run_sys_inv:
  assumes "well_configured sys" "sys_inv s"
  shows "sys_inv (run sys cs s)"
  using assms run_core_inv [of sys s cs] srm.run_step [of sys s cs]
  by (auto simp: sys_inv_def rem_step_def)

subsection \<open>Which status changes each command may make\<close>

text \<open>
  \<open>command_moves c\<close> are the single moves of a command. \<open>command_edges c\<close> are the changes from its start to its
  end, each of them a row of the transition tables of \<^verbatim>\<open>docs/architecture/04-incident-state-machine.md\<close>. The tables do
  not list what a withdrawal (\<open>withdraws\<close>) does to an incident whose remediation was approved already.
\<close>

fun withdraws :: "command \<Rightarrow> bool" where
  "withdraws (Cancel _ _ _) = True"
| "withdraws (Revise _ _ _ _ _) = True"
| "withdraws _ = False"

fun command_moves :: "command \<Rightarrow> edges" where
  "command_moves (Handle_alert_received _) = alert_edges"
| "command_moves (Propose _ _ _) = proposal_edges"
| "command_moves (Decide_approval _ _ _ _ _ _ _) = approval_edges"
| "command_moves Expire_approvals = failure_edges"
| "command_moves (Cancel _ _ _) = withdrawal_edges"
| "command_moves (Revise _ _ _ _ _) = withdrawal_edges \<union> proposal_edges"
| "command_moves (Claim_execution _ _ _) = failure_edges"
| "command_moves (Complete_execution _ _ _ _ _ _ _) = completion_edges"
| "command_moves (Claim_due _ _ _) = verification_edges"
| "command_moves (Record_observation _ _ _ _) = verification_edges"
| "command_moves (Request_investigation _ _ _ _ _) = request_edges"
| "command_moves (Complete_investigation _ _ _ _ _) = {(INVESTIGATING, RCA_READY)}"
| "command_moves (Escalate_investigation _ _ _ _ _ _ _ _ _) = {(INVESTIGATING, ESCALATED)}"
| "command_moves _ = {}"

fun command_edges :: "command \<Rightarrow> edges" where
  "command_edges (Handle_alert_received _) = {(TRIAGING, CANCELLED)}"
| "command_edges (Propose _ _ _) = {(RCA_READY, ESCALATED), (RCA_READY, AWAITING_APPROVAL)}"
| "command_edges (Decide_approval _ _ _ _ _ _ _) =
     {(AWAITING_APPROVAL, REMEDIATION_IN_PROGRESS), (AWAITING_APPROVAL, ESCALATED), (REMEDIATION_IN_PROGRESS, ESCALATED)}"
| "command_edges Expire_approvals = {(AWAITING_APPROVAL, ESCALATED), (REMEDIATION_IN_PROGRESS, ESCALATED)}"
| "command_edges (Cancel _ _ _) = {(AWAITING_APPROVAL, RCA_READY)}"
| "command_edges (Revise _ _ _ _ _) =
     {(AWAITING_APPROVAL, RCA_READY), (AWAITING_APPROVAL, ESCALATED), (RCA_READY, ESCALATED), (RCA_READY, AWAITING_APPROVAL)}"
| "command_edges (Claim_execution _ _ _) = {(AWAITING_APPROVAL, ESCALATED), (REMEDIATION_IN_PROGRESS, ESCALATED)}"
| "command_edges (Complete_execution _ _ _ _ _ _ _) =
     {(REMEDIATION_IN_PROGRESS, VERIFYING), (AWAITING_APPROVAL, ESCALATED), (REMEDIATION_IN_PROGRESS, ESCALATED)}"
| "command_edges (Claim_due _ _ _) =
     {(VERIFYING, RESOLVED), (VERIFYING, ESCALATED), (VERIFYING, VERIFICATION_FAILED), (VERIFICATION_FAILED, ESCALATED)}"
| "command_edges (Record_observation _ _ _ _) =
     {(VERIFYING, RESOLVED), (VERIFYING, ESCALATED), (VERIFYING, VERIFICATION_FAILED), (VERIFICATION_FAILED, ESCALATED)}"
| "command_edges (Request_investigation _ _ _ _ _) = {(TRIAGING, INVESTIGATING), (VERIFICATION_FAILED, INVESTIGATING)}"
| "command_edges (Complete_investigation _ _ _ _ _) = {(INVESTIGATING, RCA_READY)}"
| "command_edges (Escalate_investigation _ _ _ _ _ _ _ _ _) = {(INVESTIGATING, ESCALATED)}"
| "command_edges _ = {}"

lemma start_moves: "relT (inc_rel E) (start clk v)"
  using vquiet_start inc_rel_quiet unfolding relT_def by blast

lemma exec_moves:
  assumes "well_configured sys" "core_inv {} s"
  shows "inc_rel (command_moves c) s (exec sys clk c s)"
proof (cases c)
  case (Handle_alert_received a)
  then show ?thesis
    using alert_moves [OF assms(2), of "sys_incidents sys" clk a] assms(1)
    by (auto simp: run_tx_snd well_configured_def inc_rel_refl split: sum.splits)
next
  case (Claim_investigation k owner lease)
  then show ?thesis by (simp add: eis.rel_claim_investigation)
next
  case (Complete_investigation k owner iter cid res)
  then show ?thesis by (simp add: eis.edge_complete_investigation [THEN ist.rel_run_tx])
next
  case (Escalate_investigation k owner iter outcome code detail why gaps cid)
  then show ?thesis by (simp add: eis.edge_escalate_investigation [THEN ist.rel_run_tx])
qed (simp_all add: evidence_moves [THEN ist.rel_run_tx] start_moves [THEN ist.rel_run_tx]
    ess.edge_propose [THEN ist.rel_run_tx] ess.edge_decide_approval [THEN ist.rel_run_tx]
    ess.edge_expire_approvals ess.edge_cancel [THEN ist.rel_run_tx] ess.edge_revise
    ess.edge_claim_execution [THEN ist.rel_run_tx] ess.edge_complete_execution [THEN ist.rel_run_tx]
    ess.rel_record_baseline [THEN ist.rel_run_tx] ess.rel_set_kill_switch [THEN ist.rel_run_tx]
    vst.rel_claim_due [where E = "{}", simplified, THEN ist.rel_run_tx]
    vst.rel_record_observation [where E = "{}", simplified, THEN ist.rel_run_tx]
    eis.edge_request_investigation [THEN ist.rel_run_tx] eis.rel_commands [THEN ist.rel_run_tx])

text \<open>Several moves of one command amount to one of its edges.\<close>

lemmas edge_defs = alert_edges_def proposal_edges_def failure_edges_def approval_edges_def completion_edges_def
  withdrawal_edges_def verification_edges_def request_edges_def

lemma moves_within:
  assumes "(a, b) \<in> M\<^sup>*" "\<And>x y. (x, y) \<in> M \<Longrightarrow> x = a \<or> (a, x) \<in> D \<Longrightarrow> y = a \<or> (a, y) \<in> D"
  shows "b = a \<or> (a, b) \<in> D"
  using assms(1) by induction (use assms(2) in auto)

lemma command_moves_within:
  assumes "(a, b) \<in> (command_moves c)\<^sup>*" "\<not> (withdraws c \<and> a = REMEDIATION_IN_PROGRESS)"
  shows "b = a \<or> (a, b) \<in> command_edges c"
  using assms(1) by (rule moves_within) (use assms(2) in \<open>cases c; auto simp: edge_defs\<close>)

lemma exec_edges:
  assumes "well_configured sys" "core_inv {} s" "get_incident i s = Some row"
    and "\<not> (withdraws c \<and> i_status row = REMEDIATION_IN_PROGRESS)"
  shows "\<exists>row'. get_incident i (exec sys clk c s) = Some row' \<and>
    (i_status row' = i_status row \<or> (i_status row, i_status row') \<in> command_edges c)"
  using exec_moves [OF assms(1,2), of c clk] assms(3) command_moves_within [OF _ assms(4)]
  unfolding inc_rel_def by blast

subsection \<open>A sample system\<close>

definition sample_core :: remediation_core where
  "sample_core = \<lparr>rc_services = [''api''], rc_neighborhood = (\<lambda>s. [s]), rc_policy = DEFAULT_POLICY,
     rc_approval_timeout = seconds 3600, rc_verification_time_scale = 1,
     rc_model_validate = sample_validate, rc_model_json_schema = (\<lambda>_. JObj [])\<rparr>"

definition sample_system :: incident_system where
  "sample_system = \<lparr>sys_incidents = default_incident_core, sys_remediations = sample_core,
     sys_verifications = \<lparr>vc_max_attempts = 3\<rparr>,
     sys_investigations = \<lparr>nc_criteria = default_criteria, nc_dump_datetime = isoformat\<rparr>\<rparr>"

lemma sample_system_configured: "well_configured sample_system"
  using default_lookback by (simp add: well_configured_def sample_system_def)

text \<open>An incident with one remediation, its policy decision, its approval and, perhaps, an execution.\<close>

definition sample_remediation :: "remediation_status \<Rightarrow> int \<Rightarrow> remediation_row" where
  "sample_remediation status attempts =
     \<lparr>r_id = 2, r_incident_id = 0, r_investigation_id = None, r_idempotency_key = ''k'',
      r_action_id = ''restart_service'', r_catalog_version = CATALOG_VERSION,
      r_parameters = [(''service'', JStr ''api'')], r_target_service = ''api'',
      r_environment = ''production'', r_reason = ''r'', r_expected_effect = ''e'',
      r_blast_radius_tier = Some 1, r_proposal_hash = ''h'', r_source = ''planner'',
      r_proposed_by = ''planner'', r_status = status, r_policy_decision_id = Some 3,
      r_approval_status = Some ''approved'', r_execution_status = None, r_execution_attempts = attempts,
      r_executor_result = None, r_failure_reason = None, r_verification_ref = None, r_correlation_id = 0,
      r_lease_owner = (if attempts = 0 then None else Some ''w1''),
      r_lease_expires_at = (if attempts = 0 then None else Some 5000000), r_version = 1,
      r_created_at = 0, r_updated_at = 0, r_completed_at = None\<rparr>"

definition sample_context :: policy_evaluation_context where
  "sample_context =
     \<lparr>pc_context_id = 9, pc_captured_at = 0, pc_incident_id = 0, pc_incident_environment = ''production'',
      pc_incident_severity = ''critical'', pc_incident_service = ''api'', pc_incident_status = ''RCA_READY'',
      pc_investigation_status = Some ''COMPLETED'', pc_rca_available = True,
      pc_rca_cause_category = JNull, pc_rca_component = JStr ''api'', pc_target_service = Some ''api'',
      pc_target_known = True, pc_target_in_incident_scope = True, pc_action_blast_radius_tier = Some 1,
      pc_attempted_remediations_this_incident = 0, pc_remediation_executions_last_hour_for_target = 0,
      pc_global_kill_switch_engaged = False, pc_service_kill_switch_engaged = False,
      pc_proposal_source = ''planner''\<rparr>"

definition sample_decision :: policy_decision_row where
  "sample_decision =
     \<lparr>d_id = 3, d_remediation_id = 2, d_proposal_hash = ''h'', d_policy_version = ''p'',
      d_catalog_version = Some CATALOG_VERSION, d_catalog_digest = ''d'', d_decision = REQUIRE_APPROVAL,
      d_blast_radius_tier = Some 1, d_required_approver_roles = [''sre''], d_rules = [], d_reasons = [],
      d_policy_context = sample_context, d_evaluated_at = 0\<rparr>"

definition sample_approval :: approval_row where
  "sample_approval =
     \<lparr>ap_id = 4, ap_remediation_id = 2, ap_policy_decision_id = 3, ap_proposal_hash = ''h'',
      ap_decision = Approved, ap_approver = ''alice'', ap_approver_role = Some ''sre'', ap_comment = None,
      ap_decided_at = 0\<rparr>"

definition sample_execution :: "execution_status \<Rightarrow> execution_row" where
  "sample_execution status =
     \<lparr>x_id = 5, x_remediation_id = 2, x_attempt_number = 1, x_idempotency_key = ''2:1'', x_status = status,
      x_executor = ''pending'', x_owner = ''w1'', x_started_at = 0, x_deadline_at = 120000000,
      x_completed_at = None, x_result = None, x_error = None\<rparr>"

definition waiting_db :: db where
  "waiting_db = (sample_db AWAITING_APPROVAL)\<lparr>remediations := [sample_remediation R_AWAITING_APPROVAL 0],
     policy_decisions := [sample_decision], next_uuid := 10\<rparr>"

definition approved_db :: db where
  "approved_db = (sample_db REMEDIATION_IN_PROGRESS)\<lparr>remediations := [sample_remediation R_APPROVED 0],
     policy_decisions := [sample_decision], approvals := [sample_approval], next_uuid := 10\<rparr>"

definition executing_db :: db where
  "executing_db = (sample_db REMEDIATION_IN_PROGRESS)\<lparr>remediations := [sample_remediation R_EXECUTING 1],
     policy_decisions := [sample_decision], approvals := [sample_approval],
     executions := [sample_execution X_RUNNING], next_uuid := 10\<rparr>"

lemmas sample_defs = sample_db_def empty_db_def sample_incident_def sample_alert_def waiting_db_def
  approved_db_def executing_db_def sample_remediation_def sample_decision_def sample_approval_def
  sample_execution_def

lemma restart_entry: "get_entry ''restart_service'' = Some entry_restart_service"
  by (simp add: get_entry_def dget_def CATALOG_def catalog_entries)

lemma sample_inv: "sys_inv waiting_db" "sys_inv approved_db" "sys_inv executing_db"
proof -
  have "core_inv {} waiting_db"
    by (rule core_inv_cong [OF _ _ _ _ core_inv_sample_db]) (simp_all add: waiting_db_def sample_db_def)
  moreover have "core_inv {} approved_db"
    by (rule core_inv_cong [OF _ _ _ _ core_inv_sample_db]) (simp_all add: approved_db_def sample_db_def)
  moreover have "core_inv {} executing_db"
    by (rule core_inv_cong [OF _ _ _ _ core_inv_sample_db]) (simp_all add: executing_db_def sample_db_def)
  moreover have "rem_ok waiting_db" "rem_ok approved_db" "rem_ok executing_db"
    by (simp_all add: rem_ok_def exec_attempts_def bound_to_def authorised_def row_ok_def live_status_def
        execution_ok_def approved_def restart_entry catalog_entries sample_defs)
  ultimately show "sys_inv waiting_db" "sys_inv approved_db" "sys_inv executing_db"
    by (simp_all add: sys_inv_def)
qed

end
