(* ===== verification/Verification_Properties.thy ===== *)
theory Verification_Properties
  imports System
begin

text \<open>
  The verification commands: a verdict is final, an incident is resolved only by a verification that
  passed, a superseded worker cannot record anything, and a verification past its deadline reaches a
  verdict at the next claim.
\<close>

definition terminal :: "verification_row \<Rightarrow> bool" where
  "terminal v \<longleftrightarrow> v_status v \<in> set TERMINAL_VERIFICATION_STATUSES"

definition ver_ident where
  "ver_ident v = (v_id v, v_incident_id v, v_remediation_id v, v_spec v, v_policy_version v, v_baseline v)"

definition verdict_part where
  "verdict_part v = (v_status v, v_result v, v_consecutive_successes v, v_conclusive_count v,
     v_observation_count v, v_completed_at v)"

definition ver_keep :: "db \<Rightarrow> db \<Rightarrow> bool" where
  "ver_keep s s' \<longleftrightarrow> (\<forall>k v. get_verification k s = Some v \<longrightarrow> (\<exists>v'. get_verification k s' = Some v' \<and>
     ver_ident v' = ver_ident v \<and> (terminal v \<longrightarrow> verdict_part v' = verdict_part v)))"

definition passed_for :: "uuid \<Rightarrow> db \<Rightarrow> bool" where
  "passed_for i s \<longleftrightarrow> (\<exists>k v. get_verification k s = Some v \<and> v_incident_id v = i \<and> v_status v = V_PASSED \<and>
     v_result v = Some V_PASSED)"

definition res_inv :: "db \<Rightarrow> bool" where
  "res_inv s \<longleftrightarrow> (\<forall>i row. get_incident i s = Some row \<longrightarrow> i_status row = RESOLVED \<longrightarrow> passed_for i s)"

definition ver_step :: "db \<Rightarrow> db \<Rightarrow> bool" where
  "ver_step s s' \<longleftrightarrow> ver_keep s s' \<and> (res_inv s \<longrightarrow> res_inv s')"

lemma ver_keep_trans:
  assumes "ver_keep s t" "ver_keep t u"
  shows "ver_keep s u"
  unfolding ver_keep_def
proof (intro allI impI)
  fix k v assume "get_verification k s = Some v"
  then obtain v1 where v1: "get_verification k t = Some v1" "ver_ident v1 = ver_ident v"
    "terminal v \<longrightarrow> verdict_part v1 = verdict_part v" using assms(1) unfolding ver_keep_def by blast
  then obtain v2 where "get_verification k u = Some v2" "ver_ident v2 = ver_ident v1"
    "terminal v1 \<longrightarrow> verdict_part v2 = verdict_part v1" using assms(2) unfolding ver_keep_def by blast
  with v1 show "\<exists>v'. get_verification k u = Some v' \<and> ver_ident v' = ver_ident v \<and>
      (terminal v \<longrightarrow> verdict_part v' = verdict_part v)"
    by (auto simp: terminal_def verdict_part_def)
qed

interpretation vrs: tx_relation ver_step
  by unfold_locales (auto simp: ver_step_def ver_keep_def [of s s for s] intro: ver_keep_trans)

text \<open>What a passed verification proves survives every step that keeps verdicts.\<close>

lemma passed_for_keep: "ver_keep s s' \<Longrightarrow> passed_for i s \<Longrightarrow> passed_for i s'"
  unfolding passed_for_def ver_keep_def
  by (fastforce simp: terminal_def TERMINAL_VERIFICATION_STATUSES_def ver_ident_def verdict_part_def)

text \<open>Incidents that are resolved afterwards either were before or have a passed verification.\<close>

lemma ver_stepI:
  assumes "ver_keep s s'"
    and "\<And>i row'. get_incident i s' = Some row' \<Longrightarrow> i_status row' = RESOLVED \<Longrightarrow>
      (\<exists>row. get_incident i s = Some row \<and> i_status row = RESOLVED) \<or> passed_for i s'"
  shows "ver_step s s'"
  using assms passed_for_keep [OF assms(1)] unfolding ver_step_def res_inv_def by blast

lemma ver_keep_prefix: "prefix (verifications s) (verifications s') \<Longrightarrow> ver_keep s s'"
  by (auto simp: ver_keep_def get_verification_def prefix_def lookup_row_append)

lemma ver_step_quiet: "quiet s s' \<Longrightarrow> ver_step s s'"
  by (rule ver_stepI) (auto simp: quiet_def get_incident_def intro: ver_keep_prefix)

lemma ver_step_moved:
  assumes "get_incident i s = Some row" "to = RESOLVED \<Longrightarrow> passed_for i s"
  shows "ver_step s (moved clk row to reason s)"
proof (rule ver_stepI)
  have v: "verifications (moved clk row to reason s) = verifications s"
    by (simp add: moved_def set_incident_def)
  then show keep: "ver_keep s (moved clk row to reason s)" by (simp add: ver_keep_prefix)
  fix j row' assume "get_incident j (moved clk row to reason s) = Some row'" "i_status row' = RESOLVED"
  then show "(\<exists>row. get_incident j s = Some row \<and> i_status row = RESOLVED) \<or> passed_for j (moved clk row to reason s)"
    using assms passed_for_keep [OF keep] by (auto simp: get_incident_moved [OF assms(1)] split: if_splits)
qed

interpretation rvs: remediation_moves ver_step "{(from, to). to \<noteq> RESOLVED}"
  by unfold_locales (auto simp: remediation_edges_def intro: ver_step_quiet ver_step_moved)

lemma ver_step_touch:
  assumes f: "\<And>r. i_id (f r) = i_id r \<and> i_status (f r) = i_status r"
  shows "ver_step s (set_incident k f s)"
proof (rule ver_stepI)
  fix i row' assume a: "get_incident i (set_incident k f s) = Some row'" "i_status row' = RESOLVED"
  then show "(\<exists>row. get_incident i s = Some row \<and> i_status row = RESOLVED) \<or> passed_for i (set_incident k f s)"
    using f inc.get_update_same [of f k s] inc.get_update_other [of f i k s] by (cases "i = k") auto
qed (simp add: ver_keep_prefix set_incident_def)

interpretation avs: alert_steps ver_step
proof unfold_locales
  show "ver_step s (set_incident k f s)"
    if "\<And>r. i_id (f r) = i_id r \<and> i_status (f r) = i_status r \<and> i_attempt_count (f r) = i_attempt_count r" for s k f
    by (rule ver_step_touch) (simp add: that)
  show "ver_step s s'" if "alert_quiet s s'" for s s'
    by (rule ver_stepI) (use that in \<open>auto simp: alert_quiet_def rem_tables_def get_incident_def intro: ver_keep_prefix\<close>)
  show "ver_step s (add_incident r s)" if "i_status r = TRIAGING" for s r
    by (rule ver_stepI)
      (use that in \<open>auto simp: add_incident_def get_incident_def lookup_row_append intro: ver_keep_prefix
        split: option.splits if_splits\<close>)
  show "relT ver_step (cancel_incident clk row)" for clk row
  proof (rule relTI)
    fix s x s' assume "cancel_incident clk row s = Inr (x, s')"
    then show "ver_step s s'"
      by (cases rule: cancel_incident_run)
        (rule ver_stepI, auto intro: ver_keep_prefix split: if_splits)
  qed
qed

subsection \<open>The verification commands\<close>

lemma ver_step_set:
  assumes "\<And>v. ver_ident (f v) = ver_ident v"
    and "\<And>v. get_verification k s = Some v \<Longrightarrow> terminal v \<Longrightarrow> verdict_part (f v) = verdict_part v"
  shows "ver_step s (set_verification k f s)"
proof (rule ver_stepI)
  have id: "v_id (f v) = v_id v" for v using assms(1) [of v] by (simp add: ver_ident_def)
  show "ver_keep s (set_verification k f s)"
    unfolding ver_keep_def
  proof (intro allI impI)
    fix j v assume "get_verification j s = Some v"
    then show "\<exists>v'. get_verification j (set_verification k f s) = Some v' \<and> ver_ident v' = ver_ident v \<and>
        (terminal v \<longrightarrow> verdict_part v' = verdict_part v)"
      using assms by (cases "j = k") (simp_all add: id ver.get_update_same ver.get_update_other)
  qed
qed (auto simp: get_incident_def set_verification_def)

lemma relT_ver_set:
  "(\<And>v. ver_ident (f v) = ver_ident v \<and> verdict_part (f v) = verdict_part v) \<Longrightarrow>
   relT ver_step (modifyT (set_verification k f))"
  by (rule vrs.rel_modify) (rule ver_step_set; simp)

lemma ver_quiet: "relT quiet m \<Longrightarrow> relT ver_step m"
  by (auto simp: relT_def intro: ver_step_quiet)

lemmas ver_rules = vrs.rules quiet_helpers [THEN ver_quiet] quiet_read [THEN ver_quiet]
  quiet_modify [THEN ver_quiet]

lemma relT_next_action: "relT ver_step (set_next_action k a)"
  by (rule relT_ver_set) (simp add: ver_ident_def verdict_part_def)

lemma relT_move_to: "to \<noteq> RESOLVED \<Longrightarrow> relT ver_step (move_to clk i to reason)"
  by (rule relTI) (auto simp: move_to_Inr intro: ver_step_moved)

lemma apply_verdict_step:
  assumes run: "apply_verdict core clk row incident status s = Inr (x, s')"
    and passed: "status = V_PASSED \<Longrightarrow> passed_for (i_id incident) s"
  shows "ver_step s s'"
proof (cases "status = V_PASSED")
  case True
  let ?s1 = "set_verification (v_id row) (\<lambda>v. v\<lparr>v_next_action := Some ''resolve''\<rparr>) s"
  obtain s2 y where mv: "move_to clk (i_id incident) RESOLVED ''verification_passed'' ?s1 = Inr (y, s2)"
    and cl: "closure clk (i_id incident) IncidentResolved ''verification passed'' row s2 = Inr ((), s')"
    using run True by (auto simp: apply_verdict_def Let_def)
  have s1: "ver_step s ?s1" by (rule ver_step_set) (simp_all add: ver_ident_def verdict_part_def)
  then have "passed_for (i_id incident) ?s1"
    using passed True by (auto simp: ver_step_def intro: passed_for_keep)
  then have "ver_step ?s1 s2" using mv by (auto simp: move_to_Inr intro: ver_step_moved)
  then show ?thesis
    using s1 relTD [OF ver_quiet [OF quiet_closure] cl] by (blast intro: vrs.rel_trans)
next
  case False
  then have eq: "apply_verdict core clk row incident status =
      (if status = V_TIMED_OUT then
           seqT [set_next_action (v_id row) ''escalate'',
                 move_to clk (i_id incident) ESCALATED ''verification_timed_out'',
                 closure clk (i_id incident) IncidentEscalated ''verification timed out'' row]
         else
           thenT (move_to clk (i_id incident) VERIFICATION_FAILED ''verification_failed'')
           (bindT (count_firing_alerts (i_id incident)) (\<lambda>firing.
              if i_attempt_count incident < vc_max_attempts core \<and> firing > 0
              then set_next_action (v_id row) ''reinvestigate''
              else seqT
                [set_next_action (v_id row) ''escalate'',
                 move_to clk (i_id incident) ESCALATED ''verification_failed'',
                 closure clk (i_id incident) IncidentEscalated
                   (''verification failed; ''
                    @ (if firing \<noteq> 0
                       then ''investigation attempts exhausted ('' @ str_int (i_attempt_count incident)
                            @ ''/'' @ str_int (vc_max_attempts core) @ '')''
                       else ''no alert still firing to re-investigate'')) row])))"
    by (simp add: apply_verdict_def Let_def)
  have "relT ver_step (apply_verdict core clk row incident status)"
    unfolding eq count_firing_alerts_def by (intro relT_next_action relT_move_to ver_rules) simp_all
  then show ?thesis using run by (rule relTD)
qed

lemma finalize_step:
  assumes run: "finalize_verification core clk k dec s = Inr (x, s')"
    and v: "get_verification k s = Some v" "\<not> terminal v"
  shows "ver_step s (set_verification k (record_verdict clk dec) s)"
    and "ver_step (set_verification k (record_verdict clk dec) s) s'"
proof -
  let ?s1 = "set_verification k (record_verdict clk dec) s"
  let ?v1 = "record_verdict clk dec v"
  have v1: "get_verification k ?s1 = Some ?v1"
    using v(1) ver.get_update_same [of "record_verdict clk dec" k s] by (simp add: record_verdict_def)
  obtain incident remediation s2 y where
      inc: "get_incident (v_incident_id ?v1) ?s1 = Some incident"
    and body: "(case staleness ?v1 incident remediation ?s1 of
           Some why \<Rightarrow> modifyT (set_verification k (record_stale why))
         | None \<Rightarrow> apply_verdict core clk ?v1 incident (vd_status dec)) ?s1 = Inr (y, s2)"
    and ev: "verification_event clk k VerificationCompleted s2 = Inr (x, s')"
    using run v1 by (auto simp: finalize_verification_def lock_verification_def)
  show "ver_step s ?s1"
    by (rule ver_step_set) (use v in \<open>auto simp: ver_ident_def record_verdict_def\<close>)
  have "passed_for (i_id incident) ?s1" if "vd_status dec = V_PASSED"
    using v1 that inc.getD [OF inc]
    by (auto simp: passed_for_def record_verdict_def intro!: exI [of _ k])
  then have "ver_step ?s1 s2"
    using body by (auto intro: apply_verdict_step relTD [OF relT_ver_set]
        simp: record_stale_def ver_ident_def verdict_part_def split: option.splits intro!: ver_step_set)
  then show "ver_step ?s1 s'"
    using relTD [OF ver_quiet [OF quiet_verification_event] ev] by (rule vrs.rel_trans)
qed

lemmas finalize_ver_step = vrs.rel_trans [OF finalize_step]

text \<open>A verdict that ends the verification is what the row carries from then on.\<close>

lemma finalize_row:
  assumes "finalize_verification core clk k dec s = Inr (x, s')"
    and v: "get_verification k s = Some v" "\<not> terminal v"
    and "vd_status dec \<in> set TERMINAL_VERIFICATION_STATUSES"
  shows "\<exists>v'. get_verification k s' = Some v' \<and> ver_ident v' = ver_ident v \<and>
    verdict_part v' = verdict_part (record_verdict clk dec v)"
proof -
  have "get_verification k (set_verification k (record_verdict clk dec) s) = Some (record_verdict clk dec v)"
    using v(1) ver.get_update_same [of "record_verdict clk dec" k s] by (simp add: record_verdict_def)
  moreover have "terminal (record_verdict clk dec v)" using assms(4) by (simp add: terminal_def record_verdict_def)
  moreover have "ver_ident (record_verdict clk dec v) = ver_ident v"
    by (simp add: ver_ident_def record_verdict_def)
  ultimately show ?thesis
    using finalize_step(2) [OF assms(1) v] unfolding ver_step_def ver_keep_def by fastforce
qed

lemma decide_terminal:
  "vd_status (decide_verification spec latest n m t d) \<noteq> V_RUNNING \<Longrightarrow>
   vd_status (decide_verification spec latest n m t d) \<in> set TERMINAL_VERIFICATION_STATUSES"
  by (simp add: decide_verification_status TERMINAL_VERIFICATION_STATUSES_def split: if_splits)

definition started :: "clock \<Rightarrow> verification_row \<Rightarrow> db \<Rightarrow> verification_row \<Rightarrow> verification_row" where
  "started clk row s v = v\<lparr>v_status := V_RUNNING, v_started_at := Some (clk_now clk),
      v_known_alert_ids := map a_id (filter (\<lambda>a. a_incident_id a = Some (v_incident_id row)) (alerts s)),
      v_grace_until := Some (clk_now clk + fseconds (vs_grace_seconds (v_spec row))),
      v_deadline_at := Some (clk_now clk + fseconds (vs_timeout_seconds (v_spec row))),
      v_next_poll_at := Some (clk_now clk + fseconds (vs_grace_seconds (v_spec row))),
      v_updated_at := clk_now clk\<rparr>"

lemma start_row_run:
  "start_row clk row s = verification_event clk (v_id row) VerificationStarted (set_verification (v_id row) (started clk row s) s)"
  by (simp add: start_row_def Let_def started_def [abs_def] tx_run)

lemma start_row_step:
  assumes "start_row clk row s = Inr (x, s')" "get_verification (v_id row) s = Some row" "v_status row = V_PENDING"
  shows "ver_step s s'"
proof -
  have "ver_step s (set_verification (v_id row) (started clk row s) s)"
    by (rule ver_step_set)
      (use assms in \<open>auto simp: started_def ver_ident_def terminal_def TERMINAL_VERIFICATION_STATUSES_def\<close>)
  then show ?thesis
    using relTD [OF ver_quiet [OF quiet_verification_event] assms(1) [unfolded start_row_run]]
    by (rule vrs.rel_trans)
qed

lemma lock_verification_Inr [simp]:
  "lock_verification k s = Inr (v, s') \<longleftrightarrow> s' = s \<and> get_verification k s = Some v"
  by (auto simp: lock_verification_def)

lemma start_step: "relT ver_step (start clk k)"
proof (rule relTI)
  fix s x s' assume run: "start clk k s = Inr (x, s')"
  then obtain row where row: "get_verification k s = Some row" by (auto simp: start_def)
  have id: "v_id row = k" using ver.getD [OF row] by simp
  show "ver_step s s'"
    using run row id start_row_step [of clk row s]
    by (auto simp: start_def vrs.rel_refl split: if_splits)
qed

lemma claim_due_step: "relT ver_step (claim_due core clk k owner lease)"
proof (rule relTI)
  fix s x s' assume run: "claim_due core clk k owner lease s = Inr (x, s')"
  then obtain row0 row s1 u where row0: "get_verification k s = Some row0"
    and first: "(if v_status row0 = V_PENDING then start_row clk row0 else returnT ()) s = Inr (u, s1)"
    and row: "get_verification k s1 = Some row"
    and second: "s' = s1 \<or> (v_status row = V_RUNNING \<and>
      ((\<exists>latest u t d. finalize_verification core clk k (decide_verification (v_spec row) latest
          (v_consecutive_successes row) (v_conclusive_count row) t d) s1 = Inr (u, s')) \<or>
       s' = set_verification k (\<lambda>v. v\<lparr>v_claim_attempt := v_claim_attempt v + 1, v_lease_owner := Some owner,
          v_lease_expires_at := Some (clk_now clk + fseconds lease), v_updated_at := clk_now clk\<rparr>) s1))"
    unfolding claim_due_def Let_def
    by (simp only: bindT_Inr thenT_Inr lock_verification_Inr) (fastforce split: if_splits)
  have id: "v_id row0 = k" using ver.getD [OF row0] by simp
  have s1: "ver_step s s1"
    using first row0 id start_row_step [of clk row0 s] by (auto simp: vrs.rel_refl split: if_splits)
  have run': "\<not> terminal row" if "v_status row = V_RUNNING"
    using that by (simp add: terminal_def TERMINAL_VERIFICATION_STATUSES_def)
  have "ver_step s1 s'"
    using second
  proof (elim disjE conjE exE)
    fix latest u t d
    assume r: "v_status row = V_RUNNING"
      and fin: "finalize_verification core clk k (decide_verification (v_spec row) latest
          (v_consecutive_successes row) (v_conclusive_count row) t d) s1 = Inr (u, s')"
    show ?thesis by (rule finalize_ver_step [OF fin row run' [OF r] fin row run' [OF r]])
  next
    assume "s' = set_verification k (\<lambda>v. v\<lparr>v_claim_attempt := v_claim_attempt v + 1, v_lease_owner := Some owner,
          v_lease_expires_at := Some (clk_now clk + fseconds lease), v_updated_at := clk_now clk\<rparr>) s1"
    then show ?thesis by (simp only:) (rule ver_step_set; simp add: ver_ident_def verdict_part_def)
  qed (simp add: vrs.rel_refl)
  then show "ver_step s s'" using s1 by (blast intro: vrs.rel_trans)
qed

text \<open>A running row stays a running row of the same verification while an observation is recorded.\<close>

definition counted :: "observation_result \<Rightarrow> verification_row \<Rightarrow> verification_row" where
  "counted result v = v\<lparr>v_observation_count := v_observation_count v + 1,
     v_conclusive_count := v_conclusive_count v + (if conclusive result then 1 else 0),
     v_consecutive_successes := (if passed result then v_consecutive_successes v + 1 else 0)\<rparr>"

lemma keeps_links:
  "keepsT verifications (forT ids (\<lambda>e. link_evidence k e n role collected))"
  "keepsT incidents (forT ids (\<lambda>e. link_evidence k e n role collected))"
  "keepsT remediations (forT ids (\<lambda>e. link_evidence k e n role collected))"
  unfolding link_evidence_def by (intro keeps_rules keepsT_modify; simp)+

lemma record_sample_row:
  assumes run: "record_sample clk tkt result errs ids observed s = Inr (x, s')"
    and row: "get_verification (vt_verification_id tkt) s = Some row"
  shows "get_verification (vt_verification_id tkt) s' = Some ((counted result row)\<lparr>
      v_next_poll_at := Some (clk_now clk + fseconds (vs_poll_interval_seconds (vt_spec tkt))),
      v_lease_owner := None, v_lease_expires_at := None, v_updated_at := clk_now clk\<rparr>) \<and>
    incidents s' = incidents s \<and> remediations s' = remediations s"
proof -
  let ?k = "vt_verification_id tkt"
  let ?f = "\<lambda>v. v\<lparr>v_observation_count := v_observation_count row + 1,
      v_conclusive_count := v_conclusive_count v + (if conclusive result then 1 else 0),
      v_consecutive_successes := (if passed result then v_consecutive_successes v + 1 else 0)\<rparr>"
  let ?g = "\<lambda>v. v\<lparr>v_next_poll_at := Some (clk_now clk + fseconds (vs_poll_interval_seconds (vt_spec tkt))),
      v_lease_owner := None, v_lease_expires_at := None, v_updated_at := clk_now clk\<rparr>"
  have id: "v_id row = ?k" using ver.getD [OF row] by simp
  obtain obs s2 u where
      links: "forT ids (\<lambda>e. link_evidence ?k e (v_observation_count row + 1) ''observation'' observed)
        ((set_verification ?k ?f s)\<lparr>observations := obs\<rparr>) = Inr (u, s2)"
    and s': "s' = set_verification ?k ?g s2"
    using run row id by (auto simp: record_sample_def Let_def)
  have v: "verifications s2 = verifications (set_verification ?k ?f s)"
    and same: "incidents s2 = incidents s" "remediations s2 = remediations s"
    using keepsTD [OF keeps_links(1) links] keepsTD [OF keeps_links(2) links] keepsTD [OF keeps_links(3) links]
    by (simp_all add: set_verification_def)
  have "get_verification ?k s2 = Some (?f row)"
    using row v ver.get_update_same [of ?f ?k s] by (simp add: get_verification_def)
  then have "get_verification ?k s' = Some (?g (?f row))"
    using ver.get_update_same [of ?g ?k s2] by (simp add: s')
  then show ?thesis using same by (simp add: counted_def s' set_verification_def)
qed

lemma record_sample_step:
  assumes run: "record_sample clk tkt result errs ids observed s = Inr (x, s')"
    and row: "get_verification (vt_verification_id tkt) s = Some row" "v_status row = V_RUNNING"
  shows "ver_step s s'"
proof -
  let ?k = "vt_verification_id tkt"
  let ?f = "\<lambda>v. v\<lparr>v_observation_count := v_observation_count row + 1,
      v_conclusive_count := v_conclusive_count v + (if conclusive result then 1 else 0),
      v_consecutive_successes := (if passed result then v_consecutive_successes v + 1 else 0)\<rparr>"
  have id: "v_id row = ?k" using ver.getD [OF row(1)] by simp
  obtain obs a b s1 where
      rest: "thenT (forT ids (\<lambda>e. link_evidence ?k e (v_observation_count row + 1) ''observation'' observed))
        (modifyT (set_verification ?k (\<lambda>v. v\<lparr>v_next_poll_at := a, v_lease_owner := None,
           v_lease_expires_at := None, v_updated_at := b\<rparr>)))
        ((set_verification ?k ?f s)\<lparr>observations := obs\<rparr>) = Inr ((), s')"
    using run row id by (auto simp: record_sample_def Let_def)
  have "ver_step s (set_verification ?k ?f s)"
    by (rule ver_step_set)
      (use row in \<open>auto simp: ver_ident_def terminal_def TERMINAL_VERIFICATION_STATUSES_def\<close>)
  moreover have "ver_step (set_verification ?k ?f s) ((set_verification ?k ?f s)\<lparr>observations := obs\<rparr>)"
    by (rule ver_step_quiet) (rule quiet_table)
  moreover have "relT ver_step (thenT (forT ids (\<lambda>e. link_evidence ?k e (v_observation_count row + 1) ''observation'' observed))
        (modifyT (set_verification ?k (\<lambda>v. v\<lparr>v_next_poll_at := a, v_lease_owner := None,
           v_lease_expires_at := None, v_updated_at := b\<rparr>))))"
    by (intro relT_ver_set ver_rules) (simp add: ver_ident_def verdict_part_def)
  note relTD [OF this rest]
  ultimately show ?thesis by (blast intro: vrs.rel_trans)
qed

text \<open>What a successful \<open>record_observation\<close> did.\<close>

lemma record_observation_cases:
  assumes run: "record_observation core clk tkt sample ids observed s = Inr (v, s')"
  obtains row s1 row1 result dec where
    "get_verification (vt_verification_id tkt) s = Some row" "v_status row = V_RUNNING"
    "v_lease_owner row = Some (vt_owner tkt)" "v_claim_attempt row = vt_claim_attempt tkt"
    "result = evaluate_sample (vt_spec tkt) (sample\<lparr>s_new_firing_alerts := Some (new_firing_alerts row s)\<rparr>)"
    "record_sample clk tkt result (s_errors sample) ids observed s = Inr ((), s1)"
    "get_verification (vt_verification_id tkt) s1 = Some row1"
    "dec = decide_verification (vt_spec tkt) (Some result) (v_consecutive_successes row1)
       (v_conclusive_count row1) (timestamp (clk_now clk))
       (timestamp (case v_deadline_at row1 of Some t \<Rightarrow> t | None \<Rightarrow> clk_now clk))"
    "if vd_status dec = V_RUNNING then s' = s1
     else finalize_verification core clk (vt_verification_id tkt) dec s1 = Inr ((), s')"
    "get_verification (vt_verification_id tkt) s' = Some v"
  using run unfolding record_observation_def Let_def
  by (auto split: if_splits)

lemma record_observation_step: "relT ver_step (record_observation core clk tkt sample ids observed)"
proof (rule relTI)
  fix s v s' assume "record_observation core clk tkt sample ids observed s = Inr (v, s')"
  then show "ver_step s s'"
  proof (cases rule: record_observation_cases)
    case (1 row s1 row1 result dec)
    have first: "ver_step s s1" by (rule record_sample_step [OF 1(6,1,2)])
    have "v_status row1 = V_RUNNING"
      using record_sample_row [OF 1(6,1)] 1(2,7) by (auto simp: counted_def)
    then have "\<not> terminal row1" by (simp add: terminal_def TERMINAL_VERIFICATION_STATUSES_def)
    then have "ver_step s1 s'"
      using 1(9) finalize_ver_step [OF _ 1(7) _ _ 1(7)] by (auto simp: vrs.rel_refl split: if_splits)
    with first show ?thesis by (rule vrs.rel_trans)
  qed
qed

interpretation nvs: investigation_moves ver_step
proof unfold_locales
  show "ver_step s s'" if "inv_quiet s s'" for s s'
    by (rule ver_stepI) (use that in \<open>auto simp: inv_quiet_def outer_tables_def get_incident_def intro: ver_keep_prefix\<close>)
  show "ver_step s (set_incident i (\<lambda>r. r\<lparr>i_attempt_count := n\<rparr>) s)" for s i n
    by (rule ver_step_touch) simp
  show "ver_step s (moved clk row to reason s)"
    if "get_incident i s = Some row" "(i_status row, to) \<in> investigation_edges" for i s row to clk reason
    by (rule ver_step_moved [OF that(1)]) (use that(2) in \<open>auto simp: investigation_edges_def\<close>)
qed

interpretation svs: system_steps ver_step
  by unfold_locales (rule avs.rel_handle_alert_received avs.rel_register_evidence_ref rvs.rel_propose
    rvs.rel_decide_approval rvs.rel_expire_approvals rvs.rel_cancel rvs.rel_revise rvs.rel_claim_execution
    rvs.rel_complete_execution rvs.rel_record_baseline rvs.rel_set_kill_switch start_step claim_due_step
    record_observation_step; assumption?)+

subsection \<open>Claims\<close>

lemma start_row_claims:
  assumes "start_row clk row s = Inr (x, s')" "get_verification (v_id row) s = Some row"
  shows "\<exists>row'. get_verification (v_id row) s' = Some row' \<and> v_claim_attempt row' = v_claim_attempt row"
proof -
  let ?s1 = "set_verification (v_id row) (started clk row s) s"
  have "keepsT verifications (verification_event clk (v_id row) VerificationStarted)"
    by (auto simp: keepsT_def relT_def verification_event_def insert_outbox_event_app)
  from keepsTD [OF this assms(1) [unfolded start_row_run]]
  have "get_verification (v_id row) s' = get_verification (v_id row) ?s1" by (simp add: get_verification_def)
  then show ?thesis
    using assms(2) ver.get_update_same [of "started clk row s" "v_id row" s] by (simp add: started_def)
qed

lemma claim_due_Some:
  assumes run: "claim_due core clk k owner lease s = Inr (Some t, s')" and row: "get_verification k s = Some row"
  shows "\<exists>row'. get_verification k s' = Some row' \<and> v_claim_attempt row' = v_claim_attempt row + 1 \<and>
    v_lease_owner row' = Some owner \<and> vt_claim_attempt t = v_claim_attempt row' \<and> vt_owner t = owner \<and>
    vt_spec t = v_spec row' \<and> vt_verification_id t = k"
proof -
  let ?f = "\<lambda>v. v\<lparr>v_claim_attempt := v_claim_attempt v + 1, v_lease_owner := Some owner,
      v_lease_expires_at := Some (clk_now clk + fseconds lease), v_updated_at := clk_now clk\<rparr>"
  obtain s1 row1 u where first: "(if v_status row = V_PENDING then start_row clk row else returnT ()) s = Inr (u, s1)"
    and row1: "get_verification k s1 = Some row1" and s': "s' = set_verification k ?f s1"
    and t: "vt_claim_attempt t = v_claim_attempt row1 + 1" "vt_owner t = owner" "vt_spec t = v_spec row1"
      "vt_verification_id t = k"
    using run row unfolding claim_due_def Let_def
    by (simp only: bindT_Inr thenT_Inr lock_verification_Inr) (fastforce split: if_splits)
  have id: "v_id row = k" using ver.getD [OF row] by simp
  have "v_claim_attempt row1 = v_claim_attempt row"
    using first row row1 id start_row_claims [of clk row s] by (auto split: if_splits)
  moreover have "get_verification k s' = Some (?f row1)"
    using row1 ver.get_update_same [of ?f k s1] by (simp add: s')
  ultimately show ?thesis using t by simp
qed

subsection \<open>A verification past its deadline\<close>

lemma closure_total:
  "get_incident i s = Some row \<Longrightarrow> \<exists>s'. closure clk i ty reason v s = Inr ((), s')"
  by (simp add: closure_def bindT_app lock_incident_def getsT_app the_or_def returnT_app insert_outbox_event_app)

lemma move_to_app:
  "get_incident i s = Some row \<Longrightarrow> move_to clk i to reason s = Inr ((), moved clk row to reason s)"
  using move_to_Inr [of clk i to reason s] by blast

lemma apply_verdict_total:
  assumes "get_incident (i_id incident) s = Some incident"
  shows "\<exists>s'. apply_verdict core clk row incident status s = Inr ((), s')"
proof -
  let ?i = "i_id incident"
  have set: "get_incident ?i (set_verification k f t) = get_incident ?i t" for k f t
    by (simp add: get_incident_def set_verification_def)
  have act: "\<exists>s'. thenT (set_next_action k a) (thenT (move_to clk ?i to reason) (thenT (closure clk ?i ty why row) (returnT ()))) t
      = Inr ((), s')" if "get_incident ?i t = Some r" for k a to reason ty why t r
  proof -
    let ?t = "set_verification k (\<lambda>v. v\<lparr>v_next_action := Some a\<rparr>) t"
    have r: "get_incident ?i ?t = Some r" using that by (simp add: set)
    have "get_incident ?i (moved clk r to reason ?t) = Some (r\<lparr>i_status := to, i_version := i_version r + 1,
        i_updated_at := clk_now clk\<rparr>)" using get_incident_moved [OF r, of ?i] by simp
    then obtain t' where "closure clk ?i ty why row (moved clk r to reason ?t) = Inr ((), t')"
      using closure_total by blast
    then show ?thesis using move_to_app [OF r] by (simp add: thenT_app modifyT_app returnT_app)
  qed
  let ?s1 = "moved clk incident VERIFICATION_FAILED ''verification_failed'' s"
  have s1: "get_incident ?i ?s1 = Some (incident\<lparr>i_status := VERIFICATION_FAILED,
      i_version := i_version incident + 1, i_updated_at := clk_now clk\<rparr>)"
    using get_incident_moved [OF assms, of ?i] by simp
  show ?thesis
    using act [OF assms] act [OF s1] move_to_app [OF assms]
    by (auto simp: apply_verdict_def Let_def count_firing_alerts_def thenT_app [of "move_to _ _ _ _"]
        bindT_app getsT_app modifyT_app)
qed

definition verification_ids :: "db \<Rightarrow> uuid list" where
  "verification_ids s = map v_id (verifications s)"

lemma keeps_ids:
  "(\<And>v. v_id (f v) = v_id v) \<Longrightarrow> keepsT verification_ids (modifyT (set_verification k f))"
  "keepsT verification_ids (move_to clk i to reason)" "keepsT verification_ids (closure clk i ty why v)"
proof -
  show "keepsT verification_ids (modifyT (set_verification k f))" if "\<And>v. v_id (f v) = v_id v"
    by (rule keepsT_modify) (simp add: verification_ids_def ver.rows_update map_key_update_rows that)
  show "keepsT verification_ids (move_to clk i to reason)"
    by (auto simp: keepsT_def relT_def move_to_Inr moved_def verification_ids_def set_incident_def)
  show "keepsT verification_ids (closure clk i ty why v)"
    by (auto simp: keepsT_def relT_def closure_def insert_outbox_event_app verification_ids_def)
qed

lemma apply_verdict_keeps_ids: "keepsT verification_ids (apply_verdict core clk row incident status)"
  unfolding apply_verdict_def Let_def count_firing_alerts_def by (intro keeps_rules keeps_ids) simp_all

lemma finalize_total:
  assumes v: "get_verification k s = Some v" "\<not> terminal v"
    and "get_incident (v_incident_id v) s = Some incident" "get_remediation (v_remediation_id v) s = Some r"
  shows "\<exists>s'. finalize_verification core clk k dec s = Inr ((), s')"
proof -
  let ?s1 = "set_verification k (record_verdict clk dec) s"
  let ?v1 = "record_verdict clk dec v"
  have v1: "get_verification k ?s1 = Some ?v1" "v_incident_id ?v1 = v_incident_id v"
    "v_remediation_id ?v1 = v_remediation_id v"
    using v(1) ver.get_update_same [of "record_verdict clk dec" k s] by (simp_all add: record_verdict_def)
  have i: "get_incident (v_incident_id v) ?s1 = Some incident" "i_id incident = v_incident_id v"
    "get_remediation (v_remediation_id v) ?s1 = Some r"
    using assms(3,4) inc.getD [OF assms(3)]
    by (simp_all add: get_incident_def get_remediation_def set_verification_def)
  let ?body = "case staleness ?v1 incident r ?s1 of
      Some why \<Rightarrow> modifyT (set_verification k (record_stale why))
    | None \<Rightarrow> apply_verdict core clk ?v1 incident (vd_status dec)"
  obtain s2 where s2: "?body ?s1 = Inr ((), s2)"
    using apply_verdict_total [of incident ?s1 core clk ?v1 "vd_status dec"] i
    by (cases "staleness ?v1 incident r ?s1") (auto simp: modifyT_app)
  have "keepsT verification_ids ?body"
    by (intro keeps_rules apply_verdict_keeps_ids keeps_ids(1)) (simp add: record_stale_def)
  from keepsTD [OF this s2] have "get_verification k s2 \<noteq> None"
    using v1(1) ver.get_None [of k ?s1] ver.get_None [of k s2]
    by (simp add: verification_ids_def flip: set_map)
  then show ?thesis
    using s2 v1 i
    by (auto simp: finalize_verification_def verification_event_def lock_verification_def tx_run the_or_def
        insert_outbox_event_app)
qed

subsection \<open>A sample verification\<close>

definition sample_spec :: verification_spec where
  "sample_spec = \<lparr>vs_policy_version = ''v'', vs_action_id = ''restart_service'', vs_target_service = ''api'',
     vs_grace_seconds = 0, vs_window_seconds = 60, vs_poll_interval_seconds = 5, vs_timeout_seconds = 60,
     vs_required_consecutive = 2, vs_checks = []\<rparr>"

definition sample_verification :: "verification_status \<Rightarrow> verification_row" where
  "sample_verification status =
     \<lparr>v_id = 7, v_incident_id = 0, v_remediation_id = 2, v_verification_type = ''t'', v_policy_version = ''v'',
      v_spec = sample_spec, v_baseline = None, v_status = status, v_consecutive_successes = 0,
      v_observation_count = 0, v_conclusive_count = 0,
      v_result = (if status = V_RUNNING then None else Some status), v_failure_reason = None,
      v_next_action = None, v_correlation_id = 0, v_grace_until = Some 0, v_deadline_at = Some 60000000,
      v_next_poll_at = Some 0, v_lease_owner = None, v_lease_expires_at = None, v_claim_attempt = 1,
      v_known_alert_ids = [], v_started_at = Some 0, v_completed_at = None, v_created_at = 0,
      v_updated_at = 0\<rparr>"

definition verified_db :: "incident_status \<Rightarrow> verification_status \<Rightarrow> db" where
  "verified_db st status = (sample_db st)\<lparr>remediations := [sample_remediation R_EXECUTED 1],
     verifications := [sample_verification status], next_uuid := 10\<rparr>"

lemmas verified_defs = verified_db_def sample_verification_def sample_spec_def sample_defs

lemma verified_db_inv: "core_inv {} (verified_db st status)"
  by (rule core_inv_cong [OF _ _ _ _ core_inv_sample_db]) (simp_all add: verified_db_def sample_db_def)

lemma verified_db_lookup:
  "get_verification 7 (verified_db st status) = Some (sample_verification status)"
  "get_incident 0 (verified_db st status) = Some (sample_incident st)"
  "get_remediation 2 (verified_db st status) = Some (sample_remediation R_EXECUTED 1)"
  by (simp_all add: get_verification_def get_incident_def get_remediation_def verified_defs)

subsection \<open>Properties\<close>

text \<open>
  C3. An incident is RESOLVED only by a verification that passed: in every history from a database where
  that holds (the empty one, for instance), each incident in status RESOLVED has a verification of that
  incident whose status and result are PASSED.
\<close>

theorem resolved_only_by_passed_verification:
  assumes "well_configured sys" and "core_inv {} s" and "res_inv s"
    and "get_incident i (run sys cs s) = Some row" and "i_status row = RESOLVED"
  shows "\<exists>k v. get_verification k (run sys cs s) = Some v \<and> v_incident_id v = i \<and>
    v_status v = V_PASSED \<and> v_result v = Some V_PASSED"
  using svs.run_step [OF assms(1,2), of cs] assms(3-5)
  by (auto simp: ver_step_def res_inv_def passed_for_def)

theorem resolved_only_by_passed_verification_witness:
  "\<exists>k v. get_verification k (run sample_system [(sample_clock, Claim_due 7 ''w'' 60)] (verified_db RESOLVED V_PASSED)) =
     Some v \<and> v_incident_id v = 0 \<and> v_status v = V_PASSED \<and> v_result v = Some V_PASSED"
proof -
  let ?s = "verified_db RESOLVED V_PASSED"
  have res: "res_inv ?s"
    by (auto simp: res_inv_def passed_for_def get_incident_def get_verification_def verified_defs
        split: if_splits)
  obtain row where "get_incident 0 (run sample_system [(sample_clock, Claim_due 7 ''w'' 60)] ?s) = Some row"
    "i_status row = RESOLVED"
    by (simp add: run_tx_snd claim_due_def lock_verification_def tx_run the_or_def verified_db_lookup)
      (simp add: sample_verification_def sample_incident_def verified_db_lookup tx_run)
  from resolved_only_by_passed_verification [OF sample_system_configured verified_db_inv res this]
  show ?thesis .
qed

text \<open>
  C17. A verdict is final: once a verification has passed, failed or timed out, no command changes its
  status, its result, its counters or the time it completed.
\<close>

theorem verdict_is_final:
  assumes "well_configured sys" and "core_inv {} s" and "get_verification k s = Some v"
    and "v_status v \<in> {V_PASSED, V_FAILED, V_TIMED_OUT}"
  shows "\<exists>v'. get_verification k (run sys cs s) = Some v' \<and> v_status v' = v_status v \<and>
    v_result v' = v_result v \<and> v_consecutive_successes v' = v_consecutive_successes v \<and>
    v_observation_count v' = v_observation_count v \<and> v_completed_at v' = v_completed_at v"
  using svs.run_step [OF assms(1,2), of cs] assms(3,4)
  unfolding ver_step_def ver_keep_def
  by (fastforce simp: terminal_def TERMINAL_VERIFICATION_STATUSES_def verdict_part_def)

theorem verdict_is_final_witness:
  "\<exists>v. get_verification 7 (run sample_system [(sample_clock, Claim_due 7 ''w'' 60), (sample_clock, Start_verification 7)]
     (verified_db VERIFYING V_FAILED)) = Some v \<and> v_status v = V_FAILED \<and> v_result v = Some V_FAILED"
proof -
  have "v_status (sample_verification V_FAILED) \<in> {V_PASSED, V_FAILED, V_TIMED_OUT}"
    by (simp add: sample_verification_def)
  from verdict_is_final [OF sample_system_configured verified_db_inv verified_db_lookup(1) this,
      where cs = "[(sample_clock, Claim_due 7 ''w'' 60), (sample_clock, Start_verification 7)]"]
  show ?thesis by (fastforce simp: sample_verification_def simp del: run.simps)
qed

text \<open>
  C18. A later claim fences every earlier one: after a worker has claimed a verification, no ticket issued
  before can record an observation; it is refused with LeaseLostError.
\<close>

theorem later_claim_fences:
  assumes "claim_due core clk k owner lease s = Inr (Some t, s')"
    and "get_verification k s = Some row" and "vt_verification_id old = k"
    and "vt_claim_attempt old \<le> v_claim_attempt row"
  shows "\<exists>e. record_observation core' clk' old sample ids observed s' = Inl (LeaseLostError e)"
proof -
  obtain row' where "get_verification k s' = Some row'" "v_claim_attempt row' = v_claim_attempt row + 1"
    using claim_due_Some [OF assms(1,2)] by blast
  with assms(3,4) show ?thesis
    by (simp add: record_observation_def tx_run lock_verification_def the_or_def)
qed

theorem later_claim_fences_witness:
  "\<exists>t s' e. claim_due \<lparr>vc_max_attempts = 3\<rparr> sample_clock 7 ''w2'' 60 (verified_db VERIFYING V_RUNNING) =
       Inr (Some t, s') \<and>
     record_observation \<lparr>vc_max_attempts = 3\<rparr> sample_clock (t\<lparr>vt_claim_attempt := 1\<rparr>)
       \<lparr>s_health = None, s_deployment = None, s_config = None, s_runtime = None,
        s_new_firing_alerts = None, s_errors = []\<rparr> [] 0 s' = Inl (LeaseLostError e)"
proof -
  obtain t s' where run: "claim_due \<lparr>vc_max_attempts = 3\<rparr> sample_clock 7 ''w2'' 60
      (verified_db VERIFYING V_RUNNING) = Inr (Some t, s')"
    by (simp add: claim_due_def lock_verification_def tx_run the_or_def verified_db_lookup Let_def)
      (simp add: sample_verification_def sample_clock_def tx_run verified_db_lookup)
  have "vt_verification_id t = 7" using claim_due_Some [OF run verified_db_lookup(1)] by blast
  with run later_claim_fences [OF run verified_db_lookup(1), of "t\<lparr>vt_claim_attempt := 1\<rparr>"]
  show ?thesis by (fastforce simp: sample_verification_def)
qed

text \<open>
  A verification does not outlive its deadline: when a running verification whose lease has lapsed is
  claimed at or after the deadline, the claim succeeds, hands out no ticket and leaves the verification
  with a final verdict.
\<close>

theorem claim_past_deadline_decides:
  assumes "get_verification k s = Some v" and "v_status v = V_RUNNING"
    and "v_lease_owner v = None" and "v_deadline_at v = Some d" and "0 \<le> d" and "d \<le> clk_now clk"
    and "get_incident (v_incident_id v) s = Some incident"
    and "get_remediation (v_remediation_id v) s = Some r"
  shows "\<exists>s' v'. claim_due core clk k owner lease s = Inr (None, s') \<and> get_verification k s' = Some v' \<and>
    v_status v' \<in> {V_PASSED, V_FAILED, V_TIMED_OUT} \<and> v_result v' = Some (v_status v') \<and>
    v_completed_at v' = Some (clk_now clk)"
proof -
  let ?dec = "decide_verification (v_spec v) (latest_result k s) (v_consecutive_successes v)
      (v_conclusive_count v) (timestamp (clk_now clk)) (timestamp d)"
  have nt: "\<not> terminal v" using assms(2) by (simp add: terminal_def TERMINAL_VERIFICATION_STATUSES_def)
  obtain s' where s': "finalize_verification core clk k ?dec s = Inr ((), s')"
    using finalize_total [OF assms(1) nt assms(7,8)] by blast
  have dec: "vd_status ?dec \<in> set TERMINAL_VERIFICATION_STATUSES"
    using timestamp_mono [OF assms(5,6)]
    by (auto simp: decide_verification_status TERMINAL_VERIFICATION_STATUSES_def)
  obtain v' where "get_verification k s' = Some v'" "verdict_part v' = verdict_part (record_verdict clk ?dec v)"
    using finalize_row [OF s' assms(1) nt dec] by blast
  moreover have "claim_due core clk k owner lease s = Inr (None, s')"
    using s' assms by (simp add: claim_due_def tx_run lock_verification_def the_or_def Let_def)
  ultimately show ?thesis using dec
    by (auto simp: verdict_part_def record_verdict_def TERMINAL_VERIFICATION_STATUSES_def)
qed

theorem claim_past_deadline_decides_witness:
  "\<exists>s' v'. claim_due \<lparr>vc_max_attempts = 3\<rparr> \<lparr>clk_now = 60000000, clk_wall = 60000000, clk_db = 60000000\<rparr> 7 ''w2'' 60
       (verified_db VERIFYING V_RUNNING) = Inr (None, s') \<and> get_verification 7 s' = Some v' \<and>
     v_status v' \<in> {V_PASSED, V_FAILED, V_TIMED_OUT}"
proof -
  let ?clk = "\<lparr>clk_now = 60000000, clk_wall = 60000000, clk_db = 60000000\<rparr>"
  have "v_status (sample_verification V_RUNNING) = V_RUNNING" "v_lease_owner (sample_verification V_RUNNING) = None"
    "v_deadline_at (sample_verification V_RUNNING) = Some 60000000" "(0::int) \<le> 60000000"
    "60000000 \<le> clk_now ?clk"
    "get_incident (v_incident_id (sample_verification V_RUNNING)) (verified_db VERIFYING V_RUNNING) =
       Some (sample_incident VERIFYING)"
    "get_remediation (v_remediation_id (sample_verification V_RUNNING)) (verified_db VERIFYING V_RUNNING) =
       Some (sample_remediation R_EXECUTED 1)"
    using verified_db_lookup by (simp_all add: sample_verification_def)
  from claim_past_deadline_decides [OF verified_db_lookup(1) this]
  show ?thesis by blast
qed

end
