(* ===== verification/Evidence_Domain.thy ===== *)
theory Evidence_Domain
  imports Incident_Service Py_Time
begin

text \<open>
  The pure modules of \<^verbatim>\<open>packages/evidence\<close>: types, records, errors and limits, content hashing, the removal of
  NUL characters, and the scope of an incident, which decides what may be asked about it.
\<close>

subsection \<open>Types, records and errors\<close>

datatype evidence_type =
    Metric | Log | Trace | Deployment | Git_change | Configuration | Incident_history

fun evidence_type_value :: "evidence_type \<Rightarrow> string" where
  "evidence_type_value Metric = ''metric''"
| "evidence_type_value Log = ''log''"
| "evidence_type_value Trace = ''trace''"
| "evidence_type_value Deployment = ''deployment''"
| "evidence_type_value Git_change = ''git_change''"
| "evidence_type_value Configuration = ''configuration''"
| "evidence_type_value Incident_history = ''incident_history''"

datatype source_system =
    Prometheus | Loki | Tempo | Deployment_registry | Config_registry | Git | Incident_core | Runtime_registry

fun source_system_value :: "source_system \<Rightarrow> string" where
  "source_system_value Prometheus = ''prometheus''"
| "source_system_value Loki = ''loki''"
| "source_system_value Tempo = ''tempo''"
| "source_system_value Deployment_registry = ''deployment-registry''"
| "source_system_value Config_registry = ''config-registry''"
| "source_system_value Git = ''git''"
| "source_system_value Incident_core = ''incident-core''"
| "source_system_value Runtime_registry = ''runtime-registry''"

definition EXPIRING_TYPES :: "evidence_type list" where
  "EXPIRING_TYPES = [Metric, Log, Trace]"

definition EVIDENCE_TTL_DAYS :: int where
  "EVIDENCE_TTL_DAYS = 30"

record observation =
  ob_evidence_type :: evidence_type
  ob_source_system :: source_system
  ob_operation :: string
  ob_subject_service :: string
  ob_query_spec :: "json dict"
  ob_source_reference :: "json dict"
  ob_raw_response :: json
  ob_raw_truncated :: bool
  ob_normalized_payload :: "json dict"
  ob_summary :: string
  ob_result_count :: int
  ob_observed_at :: datetime
  ob_window_start :: "datetime option"
  ob_window_end :: "datetime option"

record evidence_item =
  ei_evidence_id :: uuid
  ei_incident_id :: uuid
  ei_evidence_type :: evidence_type
  ei_source_system :: source_system
  ei_operation :: string
  ei_subject_service :: string
  ei_observed_at :: datetime
  ei_collected_at :: datetime
  ei_content_hash :: string
  ei_summary :: string
  ei_result_count :: int
  ei_data :: "json dict"

record evidence_record =
  ec_evidence_id :: uuid
  ec_sequence :: int
  ec_incident_id :: uuid
  ec_investigation_id :: "uuid option"
  ec_evidence_type :: evidence_type
  ec_source_system :: source_system
  ec_operation :: string
  ec_subject_service :: string
  ec_query_spec :: json
  ec_source_reference :: json
  ec_observed_at :: datetime
  ec_window_start :: "datetime option"
  ec_window_end :: "datetime option"
  ec_collected_at :: datetime
  ec_expires_at :: "datetime option"
  ec_requested_by :: string
  ec_content_hash :: string
  ec_raw_response :: json
  ec_raw_truncated :: bool
  ec_normalized_payload :: "json dict"
  ec_summary :: string
  ec_result_count :: int

definition to_item :: "evidence_record \<Rightarrow> evidence_item" where
  "to_item r =
     \<lparr>ei_evidence_id = ec_evidence_id r, ei_incident_id = ec_incident_id r, ei_evidence_type = ec_evidence_type r,
      ei_source_system = ec_source_system r, ei_operation = ec_operation r,
      ei_subject_service = ec_subject_service r, ei_observed_at = ec_observed_at r,
      ei_collected_at = ec_collected_at r, ei_content_hash = ec_content_hash r, ei_summary = ec_summary r,
      ei_result_count = ec_result_count r, ei_data = ec_normalized_payload r\<rparr>"

text \<open>\<^verbatim>\<open>packages/evidence/errors.py\<close>: the class of an error gives its code and whether it is transient.\<close>

datatype evidence_error_class =
    Invalid_query | Scope_violation | Incident_unknown | Evidence_unknown | Backend_unavailable | Backend_timeout

fun error_code :: "evidence_error_class \<Rightarrow> string" where
  "error_code Invalid_query = ''invalid_argument''"
| "error_code Scope_violation = ''scope_violation''"
| "error_code Incident_unknown = ''incident_not_found''"
| "error_code Evidence_unknown = ''evidence_not_found''"
| "error_code Backend_unavailable = ''backend_unavailable''"
| "error_code Backend_timeout = ''backend_timeout''"

fun retryable_error :: "evidence_error_class \<Rightarrow> bool" where
  "retryable_error Backend_unavailable = True"
| "retryable_error Backend_timeout = True"
| "retryable_error _ = False"

record evidence_error =
  ee_class :: evidence_error_class
  ee_message :: string

abbreviation evidence_error :: "evidence_error_class \<Rightarrow> string \<Rightarrow> evidence_error" where
  "evidence_error cls msg \<equiv> \<lparr>ee_class = cls, ee_message = msg\<rparr>"

subsection \<open>Limits\<close>

definition MAX_WINDOW :: timedelta where "MAX_WINDOW = seconds (3 * 3600)"
definition MIN_WINDOW :: timedelta where "MIN_WINDOW = seconds 60"
definition DEFAULT_WINDOW :: timedelta where "DEFAULT_WINDOW = seconds (30 * 60)"
definition MAX_CHANGE_WINDOW :: timedelta where "MAX_CHANGE_WINDOW = seconds (48 * 3600)"
definition MAX_LOOKBACK_BEFORE_INCIDENT :: timedelta where "MAX_LOOKBACK_BEFORE_INCIDENT = seconds (24 * 3600)"
definition MAX_LOG_LINES_RETURNED :: int where "MAX_LOG_LINES_RETURNED = 20"
definition MAX_TRACES :: int where "MAX_TRACES = 20"
definition MAX_DEPLOYMENTS :: int where "MAX_DEPLOYMENTS = 20"
definition MAX_CONFIG_CHANGES :: int where "MAX_CONFIG_CHANGES = 20"
definition MAX_COMMITS :: int where "MAX_COMMITS = 20"
definition MAX_SIMILAR_INCIDENTS :: int where "MAX_SIMILAR_INCIDENTS = 10"

lemmas limit_defs = MAX_WINDOW_def MIN_WINDOW_def DEFAULT_WINDOW_def MAX_CHANGE_WINDOW_def
  MAX_LOOKBACK_BEFORE_INCIDENT_def MAX_LOG_LINES_RETURNED_def MAX_TRACES_def MAX_DEPLOYMENTS_def
  MAX_CONFIG_CHANGES_def MAX_COMMITS_def MAX_SIMILAR_INCIDENTS_def

subsection \<open>Canonical JSON and content hashes\<close>

text \<open>\<^verbatim>\<open>json.dumps(v, sort_keys=True, separators=(",", ":"), ensure_ascii=False)\<close>: only control characters,
  quotes and backslashes are escaped.\<close>

definition canonical_char :: "char \<Rightarrow> string" where
  "canonical_char c = (if 126 < (of_char c :: nat) then [c] else dumps_char c)"

definition canonical_str :: "string \<Rightarrow> string" where
  "canonical_str t = [CHR 0x22] @ concat (map canonical_char t) @ [CHR 0x22]"

fun canonical_json :: "json \<Rightarrow> string" where
  "canonical_json (JStr t) = canonical_str t"
| "canonical_json (JList xs) = ''['' @ join '','' (map canonical_json xs) @ '']''"
| "canonical_json (JObj d) =
     ''{'' @ join '','' (map (\<lambda>(k, t). canonical_str k @ '':'' @ t)
        (sort_key fst (map (\<lambda>(k, v). (k, canonical_json v)) d))) @ ''}''"
| "canonical_json j = dumps j"

text \<open>\<^verbatim>\<open>encode("utf-8")\<close> of characters up to U+00FF.\<close>

definition utf8_char :: "char \<Rightarrow> u8 list" where
  "utf8_char c =
     (let n = (of_char c :: nat)
      in if n < 128 then [of_nat n] else [of_nat (192 + n div 64), of_nat (128 + n mod 64)])"

definition content_hash :: "json \<Rightarrow> string" where
  "content_hash raw = ''sha256:'' @ hexdigest (sha256 (concat (map utf8_char (canonical_json raw))))"

definition verify_content_hash :: "json \<Rightarrow> string \<Rightarrow> bool" where
  "verify_content_hash raw expected \<longleftrightarrow> content_hash raw = expected"

text \<open>\<^verbatim>\<open>json.loads(canonical_json(v))\<close>: the document with its keys in order.\<close>

fun reloaded :: "json \<Rightarrow> json" where
  "reloaded (JList xs) = JList (map reloaded xs)"
| "reloaded (JObj d) = JObj (sort_key fst (map (\<lambda>(k, v). (k, reloaded v)) d))"
| "reloaded j = j"

text \<open>\<^verbatim>\<open>strip_nul\<close>: a key that becomes equal to an earlier one takes its place.\<close>

definition without_nul :: "string \<Rightarrow> string" where
  "without_nul t = filter (\<lambda>c. c \<noteq> CHR 0x00) t"

fun strip_nul :: "json \<Rightarrow> json" where
  "strip_nul (JStr t) = JStr (without_nul t)"
| "strip_nul (JObj d) = JObj (dmerge [] (map (\<lambda>(k, v). (without_nul k, strip_nul v)) d))"
| "strip_nul (JList xs) = JList (map strip_nul xs)"
| "strip_nul j = j"

text \<open>The texts of a JSON list.\<close>

definition text_items :: "json \<Rightarrow> string list" where
  "text_items j = (case j of JList js \<Rightarrow> List.map_filter (\<lambda>v. case v of JStr t \<Rightarrow> Some t | _ \<Rightarrow> None) js | _ \<Rightarrow> [])"

subsection \<open>The service catalog\<close>

text \<open>
  \<^verbatim>\<open>re.compile(r"^[a-z0-9][a-z0-9-]{0,62}$").match\<close>. The dollar also matches before a line feed at the
  end of the text.
\<close>

definition label_start :: "char \<Rightarrow> bool" where
  "label_start c \<longleftrightarrow> (CHR ''a'' \<le> c \<and> c \<le> CHR ''z'') \<or> (CHR ''0'' \<le> c \<and> c \<le> CHR ''9'')"

definition plain_label :: "string \<Rightarrow> bool" where
  "plain_label t \<longleftrightarrow> t \<noteq> [] \<and> label_start (hd t) \<and> length t \<le> 63 \<and>
     list_all (\<lambda>c. label_start c \<or> c = CHR ''-'') (tl t)"

definition label_value :: "string \<Rightarrow> bool" where
  "label_value t \<longleftrightarrow> plain_label t \<or> (t \<noteq> [] \<and> last t = CHR 0x0A \<and> plain_label (butlast t))"

record service_entry =
  se_name :: string
  se_dependencies :: "string list"
  se_repo_paths :: "string list"

type_synonym service_catalog = "service_entry dict"

text \<open>\<^verbatim>\<open>".." in Path(path).parts\<close>.\<close>

fun split_slash :: "string \<Rightarrow> string list" where
  "split_slash [] = [[]]"
| "split_slash (c # t) =
     (if c = CHR ''/'' then [] # split_slash t
      else case split_slash t of part # parts \<Rightarrow> (c # part) # parts | [] \<Rightarrow> [[c]])"

definition repo_relative :: "string \<Rightarrow> bool" where
  "repo_relative path \<longleftrightarrow> \<not> startswith path ''/'' \<and> ''..'' \<notin> set (split_slash path)"

definition load_catalog :: "service_catalog \<Rightarrow> error + service_catalog" where
  "load_catalog entries =
     (case find (\<lambda>(_, e). \<not> label_value (se_name e) \<or> \<not> list_all repo_relative (se_repo_paths e)) entries of
        None \<Rightarrow> Inr entries
      | Some (_, e) \<Rightarrow>
          if \<not> label_value (se_name e) then Inl (ValueError (''invalid service name in catalog: '' @ repr_str (se_name e)))
          else Inl (ValueError (''repo path must be repo-relative: ''
                 @ repr_str (hd (filter (\<lambda>p. \<not> repo_relative p) (se_repo_paths e))))))"

definition neighborhood :: "service_catalog \<Rightarrow> string \<Rightarrow> string list" where
  "neighborhood catalog service =
     remdups (service # (case dget catalog service of None \<Rightarrow> [] | Some e \<Rightarrow> se_dependencies e)
       @ map fst (filter (\<lambda>(_, e). service \<in> set (se_dependencies e)) catalog))"

definition repo_paths :: "service_catalog \<Rightarrow> string \<Rightarrow> string list" where
  "repo_paths catalog service = (case dget catalog service of None \<Rightarrow> [] | Some e \<Rightarrow> se_repo_paths e)"

subsection \<open>The scope of an incident\<close>

record incident_scope =
  sc_incident_id :: uuid
  sc_service :: string
  sc_environment :: string
  sc_status :: incident_status
  sc_created_at :: datetime
  sc_allowed_services :: "string list"
  sc_regions :: "string list"
  sc_alert_types :: "string list"

text \<open>\<^verbatim>\<open>sorted({a.labels[k] for a in alerts if k in a.labels})\<close>.\<close>

definition scope_labels :: "string \<Rightarrow> alert_row list \<Rightarrow> string list" where
  "scope_labels k linked = sort (remdups (List.map_filter (\<lambda>a. dget (a_labels a) k) linked))"

definition from_incident :: "incident_row \<times> alert_row list \<Rightarrow> service_catalog \<Rightarrow> incident_scope" where
  "from_incident incident catalog = (case incident of (row, linked) \<Rightarrow>
     \<lparr>sc_incident_id = i_id row, sc_service = i_service row, sc_environment = i_environment row,
      sc_status = i_status row, sc_created_at = i_created_at row,
      sc_allowed_services = neighborhood catalog (i_service row),
      sc_regions = scope_labels ''region'' linked, sc_alert_types = scope_labels ''alertname'' linked\<rparr>)"

definition repr_list :: "string list \<Rightarrow> string" where
  "repr_list xs = repr_json (JList (map JStr xs))"

definition service_or_default :: "incident_scope \<Rightarrow> string option \<Rightarrow> evidence_error + string" where
  "service_or_default scope service =
     (let target = (case service of None \<Rightarrow> sc_service scope | Some t \<Rightarrow> if t = [] then sc_service scope else t)
      in if \<not> label_value target then Inl (evidence_error Invalid_query (''malformed service name '' @ repr_str target))
         else if target \<notin> set (sc_allowed_services scope)
         then Inl (evidence_error Scope_violation (''service '' @ repr_str target @ '' is outside incident ''
                @ uuid_str (sc_incident_id scope) @ '''s scope (allowed: ''
                @ repr_list (sort (sc_allowed_services scope)) @ '')''))
         else Inr target)"

text \<open>A timestamp of a caller carries a time zone or not.\<close>

datatype timestamp = Aware datetime | Naive datetime

fun instant :: "timestamp \<Rightarrow> datetime" where
  "instant (Aware t) = t"
| "instant (Naive t) = t"

definition naive :: "timestamp option \<Rightarrow> bool" where
  "naive t \<longleftrightarrow> (case t of Some (Naive _) \<Rightarrow> True | _ \<Rightarrow> False)"

text \<open>\<^verbatim>\<open>window(start, end, now=..., default=..., max_length=...)\<close>; \<open>until\<close> is its \<^verbatim>\<open>end\<close>.\<close>

definition window ::
  "incident_scope \<Rightarrow> timestamp option \<Rightarrow> timestamp option \<Rightarrow> datetime \<Rightarrow> timedelta \<Rightarrow> timedelta \<Rightarrow>
   (evidence_error, datetime \<times> datetime) sum" where
  "window scope start until now dflt max_length =
     (if naive start \<or> naive until
      then Inl (evidence_error Invalid_query ''window timestamps must be timezone-aware'')
      else
        let resolved_end = min (case until of None \<Rightarrow> now | Some t \<Rightarrow> instant t) now;
            earliest = sc_created_at scope - MAX_LOOKBACK_BEFORE_INCIDENT;
            resolved_start = (case start of Some t \<Rightarrow> instant t | None \<Rightarrow> max (resolved_end - dflt) earliest);
            len = resolved_end - resolved_start
        in if resolved_start \<ge> resolved_end
           then Inl (evidence_error Invalid_query ''window start must be before its end (and not in the future)'')
           else if len > max_length
           then Inl (evidence_error Invalid_query (''window '' @ str_timedelta len @ '' exceeds the maximum ''
                  @ str_timedelta max_length))
           else if len < MIN_WINDOW
           then Inl (evidence_error Invalid_query (''window '' @ str_timedelta len @ '' is below the minimum ''
                  @ str_timedelta MIN_WINDOW))
           else if resolved_start < earliest
           then Inl (evidence_error Scope_violation (''window starts before '' @ isoformat earliest @ '' (''
                  @ str_timedelta MAX_LOOKBACK_BEFORE_INCIDENT @ '' before the incident opened)''))
           else Inr (resolved_start, resolved_end))"

definition bounded_limit :: "int option \<Rightarrow> int \<Rightarrow> int \<Rightarrow> evidence_error + int" where
  "bounded_limit requested dflt maximum =
     (let v = (case requested of None \<Rightarrow> dflt | Some n \<Rightarrow> n)
      in if v < 1 then Inl (evidence_error Invalid_query ''limit must be at least 1'') else Inr (min v maximum))"

subsection \<open>Bounds and round trips\<close>

text \<open>
  Every accepted window is bounded, whatever the caller asks for: it starts before it ends and not in the
  future, is at least a minute and at most the maximum of its kind, and reaches no further back than a day
  before the incident opened.
\<close>

theorem window_bounded:
  assumes "window scope start until now dflt max_length = Inr (a, b)"
  shows "a < b \<and> b \<le> now \<and> MIN_WINDOW \<le> b - a \<and> b - a \<le> max_length \<and>
    sc_created_at scope - MAX_LOOKBACK_BEFORE_INCIDENT \<le> a"
  using assms by (auto simp: window_def Let_def split: if_splits)

definition sample_scope :: incident_scope where
  "sample_scope = \<lparr>sc_incident_id = 0, sc_service = ''api'', sc_environment = ''production'', sc_status = INVESTIGATING,
     sc_created_at = seconds 100000, sc_allowed_services = [''api'', ''db''], sc_regions = [], sc_alert_types = []\<rparr>"

theorem window_bounded_witness:
  "window sample_scope None (Some (Aware (seconds 200000))) (seconds 101000) DEFAULT_WINDOW MAX_WINDOW =
     Inr (seconds 99200, seconds 101000) \<and> seconds 101000 - seconds 99200 \<le> MAX_WINDOW"
proof -
  have "window sample_scope None (Some (Aware (seconds 200000))) (seconds 101000) DEFAULT_WINDOW MAX_WINDOW =
      Inr (seconds 99200, seconds 101000)"
    by (simp add: window_def naive_def sample_scope_def limit_defs seconds_def)
  then show ?thesis using window_bounded by blast
qed

lemma bounded_limit_range: "bounded_limit requested dflt maximum = Inr n \<Longrightarrow> 1 \<le> maximum \<Longrightarrow> 1 \<le> n \<and> n \<le> maximum"
  by (auto simp: bounded_limit_def Let_def split: if_splits)

lemma service_or_default_allowed:
  "service_or_default scope service = Inr t \<Longrightarrow> t \<in> set (sc_allowed_services scope) \<and> label_value t"
  by (auto simp: service_or_default_def Let_def split: if_splits)

text \<open>A document read back from the store hashes like the one that was stored.\<close>

lemma sort_items: "sort_key fst (map (\<lambda>(k, v). (k, f v)) d) = map (\<lambda>(k, v). (k, f v)) (sort_key fst d)"
proof (induction d)
  case (Cons e d)
  have "insort_key fst (k, f v) (map (\<lambda>(k, v). (k, f v)) xs) = map (\<lambda>(k, v). (k, f v)) (insort_key fst (k, v) xs)"
    for k v xs by (induction xs) auto
  with Cons show ?case by (cases e) simp
qed simp

lemma canonical_reloaded: "canonical_json (reloaded j) = canonical_json j"
proof (induction j rule: reloaded.induct)
  case (2 d)
  have items: "map (\<lambda>(k, v). (k, canonical_json v)) (map (\<lambda>(k, v). (k, reloaded v)) d) =
      map (\<lambda>(k, v). (k, canonical_json v)) d"
    using 2 by auto
  have "sort_key fst (map (\<lambda>(k, v). (k, canonical_json v)) (sort_key fst (map (\<lambda>(k, v). (k, reloaded v)) d))) =
      sort_key fst (sort_key fst (map (\<lambda>(k, v). (k, canonical_json v)) (map (\<lambda>(k, v). (k, reloaded v)) d)))"
    by (simp only: sort_items)
  also have "\<dots> = sort_key fst (map (\<lambda>(k, v). (k, canonical_json v)) d)"
    unfolding items by (simp add: sort_key_id_if_sorted)
  finally show ?case by simp
qed (simp_all cong: map_cong)

lemma content_hash_reloaded: "content_hash (reloaded j) = content_hash j"
  by (simp add: content_hash_def canonical_reloaded)

text \<open>
  The alphabet check lets one line feed through: an incident whose own service label ends with a line feed
  is accepted with it, although the label goes into the text of queries.
\<close>

lemma trailing_line_feed_accepted:
  assumes "plain_label t"
  shows "service_or_default (from_incident (row\<lparr>i_service := t @ [CHR 0x0A]\<rparr>, linked) catalog) None = Inr (t @ [CHR 0x0A])"
proof -
  have "label_value (t @ [CHR 0x0A])" using assms by (simp add: label_value_def)
  then show ?thesis by (simp add: service_or_default_def from_incident_def neighborhood_def Let_def)
qed

end
