(* ===== verification/Workers.thy ===== *)
theory Workers
  imports System
begin

text \<open>
  Worker processes. A worker is a loop around the services: it issues commands, each in a transaction of its
  own, and between them it talks to the outside (a language model, an executor, the evidence sources, the
  clock). Its world is the database and the state of that outside. Unlike a transaction, a worker that raises
  keeps what it has already committed, so an exception carries the world it was raised in.

  \<open>relW R m\<close> says that whatever \<open>m\<close> does, the database before and after are related by \<open>R\<close>; taking for \<open>R\<close> "some
  history of commands leads from one to the other" turns every property of histories into a property of workers.
\<close>

type_synonym 'w world = "db \<times> 'w"
type_synonym ('w, 'x, 'a) worker = "'w world \<Rightarrow> ('x + 'a) \<times> 'w world"

named_theorems worker_rules \<open>which relation between databases a worker respects\<close>

definition returnW :: "'a \<Rightarrow> ('w, 'x, 'a) worker" where
  "returnW x = (\<lambda>w. (Inr x, w))"

definition raiseW :: "'x \<Rightarrow> ('w, 'x, 'a) worker" where
  "raiseW e = (\<lambda>w. (Inl e, w))"

definition bindW :: "('w, 'x, 'a) worker \<Rightarrow> ('a \<Rightarrow> ('w, 'x, 'b) worker) \<Rightarrow> ('w, 'x, 'b) worker" where
  "bindW m f = (\<lambda>w. case m w of (Inl e, w') \<Rightarrow> (Inl e, w') | (Inr x, w') \<Rightarrow> f x w')"

definition thenW :: "('w, 'x, 'a) worker \<Rightarrow> ('w, 'x, 'b) worker \<Rightarrow> ('w, 'x, 'b) worker" where
  "thenW m n = bindW m (\<lambda>_. n)"

fun forW :: "'a list \<Rightarrow> ('a \<Rightarrow> ('w, 'x, unit) worker) \<Rightarrow> ('w, 'x, unit) worker" where
  "forW [] f = returnW ()"
| "forW (x # xs) f = thenW (f x) (forW xs f)"

text \<open>\<^verbatim>\<open>try: m except e: handle(e)\<close>; the handler runs in the world the exception was raised in.\<close>

definition tryW :: "('w, 'x, 'a) worker \<Rightarrow> ('x \<Rightarrow> ('w, 'y, 'a) worker) \<Rightarrow> ('w, 'y, 'a) worker" where
  "tryW m handle = (\<lambda>w. case m w of (Inl e, w') \<Rightarrow> handle e w' | (Inr x, w') \<Rightarrow> (Inr x, w'))"

text \<open>A value computed without touching the world, or an exception.\<close>

definition liftW :: "'x + 'a \<Rightarrow> ('w, 'x, 'a) worker" where
  "liftW v = (case v of Inl e \<Rightarrow> raiseW e | Inr x \<Rightarrow> returnW x)"

text \<open>An exchange with the outside; it may take time in which others change the database.\<close>

definition askW :: "('w world \<Rightarrow> 'a \<times> 'w world) \<Rightarrow> ('w, 'x, 'a) worker" where
  "askW f = (\<lambda>w. case f w of (x, w') \<Rightarrow> (Inr x, w'))"

text \<open>A command of a service: it reads the clock and commits, or raises and rolls back.\<close>

definition commandW ::
  "('w \<Rightarrow> clock \<times> 'w) \<Rightarrow> (error \<Rightarrow> 'x) \<Rightarrow> (clock \<Rightarrow> db \<Rightarrow> (error + 'a) \<times> db) \<Rightarrow> ('w, 'x, 'a) worker" where
  "commandW tick raised m = (\<lambda>(s, o'). case tick o' of (clk, o'') \<Rightarrow>
     (case m clk s of (Inl e, s') \<Rightarrow> (Inl (raised e), (s', o'')) | (Inr x, s') \<Rightarrow> (Inr x, (s', o''))))"

lemma returnW_app: "returnW x w = (Inr x, w)" by (simp add: returnW_def)
lemma raiseW_app: "raiseW e w = (Inl e, w)" by (simp add: raiseW_def)

lemma bindW_app: "bindW m f w = (case m w of (Inl e, w') \<Rightarrow> (Inl e, w') | (Inr x, w') \<Rightarrow> f x w')"
  by (simp add: bindW_def)

lemma thenW_app: "thenW m n w = (case m w of (Inl e, w') \<Rightarrow> (Inl e, w') | (Inr x, w') \<Rightarrow> n w')"
  by (simp add: thenW_def bindW_def)

lemma returnW_Inr [simp]: "returnW x w = (Inr y, w') \<longleftrightarrow> y = x \<and> w' = w"
  by (auto simp: returnW_def)

lemma returnW_Inl [simp]: "returnW x w \<noteq> (Inl e, w')"
  by (simp add: returnW_def)

lemma raiseW_Inr [simp]: "raiseW e w \<noteq> (Inr y, w')"
  by (simp add: raiseW_def)

lemma raiseW_Inl [simp]: "raiseW e w = (Inl e', w') \<longleftrightarrow> e' = e \<and> w' = w"
  by (auto simp: raiseW_def)

lemma bindW_Inr [simp]:
  "bindW m f w = (Inr y, w'') \<longleftrightarrow> (\<exists>x w'. m w = (Inr x, w') \<and> f x w' = (Inr y, w''))"
  by (auto simp: bindW_def split: prod.splits sum.splits)

lemma bindW_Inl:
  "bindW m f w = (Inl e, w'') \<longleftrightarrow>
     m w = (Inl e, w'') \<or> (\<exists>x w'. m w = (Inr x, w') \<and> f x w' = (Inl e, w''))"
  by (auto simp: bindW_def split: prod.splits sum.splits)

lemma thenW_Inr [simp]:
  "thenW m n w = (Inr y, w'') \<longleftrightarrow> (\<exists>x w'. m w = (Inr x, w') \<and> n w' = (Inr y, w''))"
  by (simp add: thenW_def)

lemma thenW_Inl:
  "thenW m n w = (Inl e, w'') \<longleftrightarrow>
     m w = (Inl e, w'') \<or> (\<exists>x w'. m w = (Inr x, w') \<and> n w' = (Inl e, w''))"
  by (simp add: thenW_def bindW_Inl)

lemma liftW_Inr [simp]: "liftW v w = (Inr y, w') \<longleftrightarrow> v = Inr y \<and> w' = w"
  by (auto simp: liftW_def split: sum.splits)

lemma liftW_Inl [simp]: "liftW v w = (Inl e, w') \<longleftrightarrow> v = Inl e \<and> w' = w"
  by (auto simp: liftW_def split: sum.splits)

lemma askW_Inr [simp]: "askW f w = (Inr y, w') \<longleftrightarrow> f w = (y, w')"
  by (auto simp: askW_def split: prod.splits)

lemma askW_Inl [simp]: "askW f w \<noteq> (Inl e, w')"
  by (simp add: askW_def split: prod.splits)

lemma commandW_Inr:
  "commandW tick raised m (s, o') = (Inr x, w') \<longleftrightarrow>
     (\<exists>clk o'' s'. tick o' = (clk, o'') \<and> m clk s = (Inr x, s') \<and> w' = (s', o''))"
  by (auto simp: commandW_def split: prod.splits sum.splits)

lemma commandW_Inl:
  "commandW tick raised m (s, o') = (Inl x, w') \<longleftrightarrow>
     (\<exists>clk o'' s' e. tick o' = (clk, o'') \<and> m clk s = (Inl e, s') \<and> x = raised e \<and> w' = (s', o''))"
  by (auto simp: commandW_def split: prod.splits sum.splits)

subsection \<open>What a worker does to the database\<close>

definition relW :: "(db \<Rightarrow> db \<Rightarrow> bool) \<Rightarrow> ('w, 'x, 'a) worker \<Rightarrow> bool" where
  "relW R m \<longleftrightarrow> (\<forall>w r w'. m w = (r, w') \<longrightarrow> R (fst w) (fst w'))"

lemma relWI: "(\<And>w r w'. m w = (r, w') \<Longrightarrow> R (fst w) (fst w')) \<Longrightarrow> relW R m"
  by (auto simp: relW_def)

lemma relWD: "relW R m \<Longrightarrow> m w = (r, w') \<Longrightarrow> R (fst w) (fst w')"
  unfolding relW_def by blast

locale worker_relation = tx_relation R for R :: "db \<Rightarrow> db \<Rightarrow> bool"
begin

lemma rel_returnW: "relW R (returnW x)"
  by (simp add: relW_def returnW_def rel_refl)

lemma rel_raiseW: "relW R (raiseW x)"
  by (simp add: relW_def raiseW_def rel_refl)

lemma rel_liftW: "relW R (liftW v)"
  by (cases v) (simp_all add: liftW_def rel_returnW rel_raiseW)

lemma rel_bindW:
  assumes "relW R m" and "\<And>x. relW R (f x)"
  shows "relW R (bindW m f)"
proof (rule relWI)
  fix w r w''
  assume "bindW m f w = (r, w'')"
  then consider r' where "m w = (r', w'')" | x w' where "m w = (Inr x, w')" "f x w' = (r, w'')"
    by (auto simp: bindW_def split: prod.splits sum.splits)
  then show "R (fst w) (fst w'')" by cases (use assms in \<open>blast dest: relWD intro: rel_trans\<close>)+
qed

lemma rel_thenW: "relW R m \<Longrightarrow> relW R n \<Longrightarrow> relW R (thenW m n)"
  unfolding thenW_def by (rule rel_bindW)

lemma rel_forW: "(\<And>x. relW R (f x)) \<Longrightarrow> relW R (forW xs f)"
  by (induction xs) (simp_all add: rel_returnW rel_thenW)

lemma rel_tryW:
  assumes "relW R m" and "\<And>e. relW R (handle e)"
  shows "relW R (tryW m handle)"
proof (rule relWI)
  fix w r w''
  assume "tryW m handle w = (r, w'')"
  then consider r' where "m w = (r', w'')" | e w' where "m w = (Inl e, w')" "handle e w' = (r, w'')"
    by (auto simp: tryW_def split: prod.splits sum.splits)
  then show "R (fst w) (fst w'')" by cases (use assms in \<open>blast dest: relWD intro: rel_trans\<close>)+
qed

lemma rel_askW: "(\<And>s o' x s' o''. f (s, o') = (x, (s', o'')) \<Longrightarrow> R s s') \<Longrightarrow> relW R (askW f)"
  unfolding relW_def askW_def by (auto split: prod.splits)

lemma rel_commandW:
  assumes "\<And>clk s. R s (snd (m clk s))"
  shows "relW R (commandW tick raised m)"
proof (rule relWI)
  fix w r w'
  assume "commandW tick raised m w = (r, w')"
  moreover obtain s o' clk o'' where "w = (s, o')" "tick o' = (clk, o'')" by (metis surj_pair)
  ultimately show "R (fst w) (fst w')"
    using assms [of s clk] by (cases "m clk s"; cases "fst (m clk s)") (auto simp: commandW_def)
qed

lemma rel_ifW: "(b \<Longrightarrow> relW R m) \<Longrightarrow> (\<not> b \<Longrightarrow> relW R n) \<Longrightarrow> relW R (if b then m else n)"
  by simp

lemma rel_letW: "(\<And>x. relW R (m x)) \<Longrightarrow> relW R (let x = v in m x)"
  by simp

lemma rel_optionW: "relW R m \<Longrightarrow> (\<And>x. relW R (n x)) \<Longrightarrow> relW R (case v of None \<Rightarrow> m | Some x \<Rightarrow> n x)"
  by (cases v) simp_all

lemma rel_prodW: "(\<And>x y. relW R (m x y)) \<Longrightarrow> relW R (case v of (x, y) \<Rightarrow> m x y)"
  by (cases v) simp

lemma rel_sumW:
  "(\<And>x. relW R (m x)) \<Longrightarrow> (\<And>y. relW R (n y)) \<Longrightarrow> relW R (case v of Inl x \<Rightarrow> m x | Inr y \<Rightarrow> n y)"
  by (cases v) simp_all

lemmas rulesW = rel_returnW rel_raiseW rel_liftW rel_bindW rel_thenW rel_forW rel_tryW rel_ifW rel_letW
  rel_optionW rel_prodW rel_sumW

end

subsection \<open>Histories of commands\<close>

definition history :: "incident_system \<Rightarrow> db \<Rightarrow> db \<Rightarrow> bool" where
  "history sys s s' \<longleftrightarrow> (\<exists>cs. s' = run sys cs s)"

lemma run_append: "run sys (cs @ ds) s = run sys ds (run sys cs s)"
  by (induction cs arbitrary: s) auto

lemma history_refl: "history sys s s"
  unfolding history_def by (rule exI [of _ "[]"]) simp

lemma history_trans: "history sys s t \<Longrightarrow> history sys t u \<Longrightarrow> history sys s u"
  unfolding history_def by (metis run_append)

interpretation hist: worker_relation "history sys" for sys
  by unfold_locales (rule history_refl, rule history_trans)

lemma history_exec: "history sys s (exec sys clk c s)"
  unfolding history_def by (rule exI [of _ "[(clk, c)]"]) simp

end
