(* ===== verification/Evidence_Service.thy ===== *)
theory Evidence_Service
  imports Evidence_Domain Workers
begin

text \<open>
  \<^verbatim>\<open>packages/evidence/service.py\<close> with \<^verbatim>\<open>repository.py\<close>: every query is checked against the scope of its
  incident, run by a backend adapter, persisted with a content hash, registered with incident-core, and only
  then returned. The adapters are a function from a checked query to an observation; the table
  \<^verbatim>\<open>evidence_records\<close> is a list beside the database of incident-core, which is another schema with its own
  transactions.
\<close>

subsection \<open>Queries\<close>

text \<open>What reaches an adapter: one constructor per adapter method, with its arguments.\<close>

datatype evidence_query =
    Metric_query string string string datetime datetime
  | Health_query string string datetime
  | Log_query string datetime datetime "string list option" "string option" "string option" int
  | Trace_query string
  | Trace_search string datetime datetime string "int option" int
  | Deployment_query string string datetime datetime int
  | Config_query string string datetime datetime int
  | Code_query string "string list" datetime datetime "string option" int
  | Commit_query string "string list" datetime datetime int
  | Runtime_query string string datetime
  | Similar_query uuid string string "string list" "string list" datetime int

text \<open>What a caller asks for: one constructor per public operation, in the order of the class.\<close>

datatype evidence_request =
    Get_metric_window string "string option" "timestamp option" "timestamp option"
  | Get_latency string "string option" "timestamp option" "timestamp option"
  | Get_service_health "string option" "timestamp option"
  | Get_logs "string option" "timestamp option" "timestamp option" "string list option" "string option"
      "string option" "int option"
  | Get_trace string
  | Get_traces "string option" "timestamp option" "timestamp option" string "int option" "int option"
  | Get_recent_deployments "string option" "timestamp option" "timestamp option" "int option"
  | Get_config_changes "string option" "timestamp option" "timestamp option" "int option"
  | Get_code_changes "string option" "timestamp option" "timestamp option" "string option" "int option"
  | Get_recent_commits "string option" "int option"
  | Get_runtime_state "string option"
  | Search_similar_incidents "int option"

definition LATENCY_METRICS :: "string dict" where
  "LATENCY_METRICS = [(''0.5'', ''latency_p50''), (''0.95'', ''latency_p95''), (''0.99'', ''latency_p99'')]"

definition SEARCH_MODES :: "string list" where
  "SEARCH_MODES = [''recent'', ''errors'', ''slow'']"

definition upper :: "string \<Rightarrow> string" where
  "upper t = map (\<lambda>c. if CHR ''a'' \<le> c \<and> c \<le> CHR ''z'' then char_of ((of_char c :: nat) - 32) else c) t"

definition bindV :: "'e + 'a \<Rightarrow> ('a \<Rightarrow> 'e + 'b) \<Rightarrow> 'e + 'b" where
  "bindV v f = (case v of Inl e \<Rightarrow> Inl e | Inr x \<Rightarrow> f x)"

lemma bindV_Inr [simp]: "bindV v f = Inr y \<longleftrightarrow> (\<exists>x. v = Inr x \<and> f x = Inr y)"
  by (auto simp: bindV_def split: sum.splits)

type_synonym collector = "incident_scope \<Rightarrow> datetime \<Rightarrow> evidence_error + evidence_query"

definition change_window ::
  "incident_scope \<Rightarrow> timestamp option \<Rightarrow> timestamp option \<Rightarrow> datetime \<Rightarrow> evidence_error + datetime \<times> datetime" where
  "change_window scope since until now = window scope since until now MAX_CHANGE_WINDOW MAX_CHANGE_WINDOW"

definition collect_metric_window :: "string \<Rightarrow> string option \<Rightarrow> timestamp option \<Rightarrow> timestamp option \<Rightarrow> collector" where
  "collect_metric_window metric service since until scope now =
     bindV (service_or_default scope service) (\<lambda>target.
     bindV (window scope since until now DEFAULT_WINDOW MAX_WINDOW) (\<lambda>(a, b).
       Inr (Metric_query metric target (sc_environment scope) a b)))"

definition collect_service_health :: "string option \<Rightarrow> timestamp option \<Rightarrow> collector" where
  "collect_service_health service moment scope now =
     bindV (service_or_default scope service) (\<lambda>target.
     bindV (window scope None moment now MIN_WINDOW MAX_WINDOW) (\<lambda>(_, b).
       Inr (Health_query target (sc_environment scope) b)))"

definition collect_logs ::
  "string option \<Rightarrow> timestamp option \<Rightarrow> timestamp option \<Rightarrow> string list option \<Rightarrow> string option \<Rightarrow>
   string option \<Rightarrow> int option \<Rightarrow> collector" where
  "collect_logs service since until severities trace_id request_id most scope now =
     bindV (service_or_default scope service) (\<lambda>target.
     bindV (window scope since until now DEFAULT_WINDOW MAX_WINDOW) (\<lambda>(a, b).
     bindV (bounded_limit most MAX_LOG_LINES_RETURNED MAX_LOG_LINES_RETURNED) (\<lambda>n.
       Inr (Log_query target a b
         (case severities of Some (x # xs) \<Rightarrow> Some (map upper (x # xs)) | _ \<Rightarrow> None) trace_id request_id n))))"

definition collect_traces ::
  "string option \<Rightarrow> timestamp option \<Rightarrow> timestamp option \<Rightarrow> string \<Rightarrow> int option \<Rightarrow> int option \<Rightarrow> collector" where
  "collect_traces service since until mode min_duration_ms most scope now =
     bindV (service_or_default scope service) (\<lambda>target.
     bindV (window scope since until now DEFAULT_WINDOW MAX_WINDOW) (\<lambda>(a, b).
     bindV (bounded_limit most 10 MAX_TRACES) (\<lambda>n.
       Inr (Trace_search target a b mode min_duration_ms n))))"

definition collect_deployments ::
  "string option \<Rightarrow> timestamp option \<Rightarrow> timestamp option \<Rightarrow> int option \<Rightarrow> collector" where
  "collect_deployments service since until most scope now =
     bindV (change_window scope since until now) (\<lambda>(a, b).
     bindV (service_or_default scope service) (\<lambda>target.
     bindV (bounded_limit most 10 MAX_DEPLOYMENTS) (\<lambda>n.
       Inr (Deployment_query target (sc_environment scope) a b n))))"

definition collect_config_changes ::
  "string option \<Rightarrow> timestamp option \<Rightarrow> timestamp option \<Rightarrow> int option \<Rightarrow> collector" where
  "collect_config_changes service since until most scope now =
     bindV (change_window scope since until now) (\<lambda>(a, b).
     bindV (service_or_default scope service) (\<lambda>target.
     bindV (bounded_limit most 10 MAX_CONFIG_CHANGES) (\<lambda>n.
       Inr (Config_query target (sc_environment scope) a b n))))"

definition collect_code_changes ::
  "service_catalog \<Rightarrow> string option \<Rightarrow> timestamp option \<Rightarrow> timestamp option \<Rightarrow> string option \<Rightarrow> int option \<Rightarrow> collector" where
  "collect_code_changes catalog service since until sha most scope now =
     bindV (service_or_default scope service) (\<lambda>target.
     bindV (change_window scope since until now) (\<lambda>(a, b).
     bindV (bounded_limit most 10 MAX_COMMITS) (\<lambda>n.
       Inr (Code_query target (repo_paths catalog target) a b sha n))))"

definition collect_recent_commits :: "service_catalog \<Rightarrow> string option \<Rightarrow> int option \<Rightarrow> collector" where
  "collect_recent_commits catalog service most scope now =
     bindV (service_or_default scope service) (\<lambda>target.
     bindV (bounded_limit most 10 MAX_COMMITS) (\<lambda>n.
       Inr (Commit_query target (repo_paths catalog target) now (sc_created_at scope) n)))"

definition collect_runtime_state :: "string option \<Rightarrow> collector" where
  "collect_runtime_state service scope now =
     bindV (service_or_default scope service) (\<lambda>target. Inr (Runtime_query target (sc_environment scope) now))"

definition collect_similar :: "int option \<Rightarrow> collector" where
  "collect_similar most scope now =
     bindV (bounded_limit most 5 MAX_SIMILAR_INCIDENTS) (\<lambda>n.
       Inr (Similar_query (sc_incident_id scope) (sc_service scope) (sc_environment scope) (sc_regions scope)
              (sc_alert_types scope) (sc_created_at scope) n))"

text \<open>
  The collector of a request, or the error raised before the incident is even looked up: an unknown latency
  quantile or trace search mode.
\<close>

fun collector_of :: "service_catalog \<Rightarrow> evidence_request \<Rightarrow> evidence_error + collector" where
  "collector_of catalog (Get_metric_window metric service since until) =
     Inr (collect_metric_window metric service since until)"
| "collector_of catalog (Get_latency quantile service since until) =
     (case dget LATENCY_METRICS quantile of
        None \<Rightarrow> Inl (evidence_error Invalid_query (''quantile must be one of ''
                  @ repr_list (sort (map fst LATENCY_METRICS))))
      | Some metric \<Rightarrow> Inr (collect_metric_window metric service since until))"
| "collector_of catalog (Get_service_health service moment) = Inr (collect_service_health service moment)"
| "collector_of catalog (Get_logs service since until severities trace_id request_id most) =
     Inr (collect_logs service since until severities trace_id request_id most)"
| "collector_of catalog (Get_trace trace_id) = Inr (\<lambda>scope now. Inr (Trace_query trace_id))"
| "collector_of catalog (Get_traces service since until mode min_duration_ms most) =
     (if mode \<notin> set SEARCH_MODES
      then Inl (evidence_error Invalid_query (''mode must be one of ('' @ join '', '' (map repr_str SEARCH_MODES) @ '')''))
      else Inr (collect_traces service since until mode min_duration_ms most))"
| "collector_of catalog (Get_recent_deployments service since until most) = Inr (collect_deployments service since until most)"
| "collector_of catalog (Get_config_changes service since until most) = Inr (collect_config_changes service since until most)"
| "collector_of catalog (Get_code_changes service since until sha most) =
     Inr (collect_code_changes catalog service since until sha most)"
| "collector_of catalog (Get_recent_commits service most) = Inr (collect_recent_commits catalog service most)"
| "collector_of catalog (Get_runtime_state service) = Inr (collect_runtime_state service)"
| "collector_of catalog (Search_similar_incidents most) = Inr (collect_similar most)"

text \<open>After the backend has answered: a trace must involve a service of the scope.\<close>

definition check_trace :: "string \<Rightarrow> incident_scope \<Rightarrow> observation \<Rightarrow> evidence_error + observation" where
  "check_trace trace_id scope ob =
     (let services = text_items (jget (ob_normalized_payload ob) ''services'')
      in if truthy (jget (ob_normalized_payload ob) ''found'') \<and> set services \<inter> set (sc_allowed_services scope) = {}
         then Inl (evidence_error Scope_violation (''trace '' @ trace_id @ '' involves only ''
                @ repr_list (sort (remdups services)) @ '', outside incident scope''))
         else Inr ob)"

definition check_observation :: "evidence_request \<Rightarrow> incident_scope \<Rightarrow> observation \<Rightarrow> evidence_error + observation" where
  "check_observation req scope ob = (case req of Get_trace trace_id \<Rightarrow> check_trace trace_id scope ob | _ \<Rightarrow> Inr ob)"

subsection \<open>The one path every query takes\<close>

datatype evidence_raised = Evidence_failed evidence_error | Core_failed error

type_synonym 'v evidence_world = "(evidence_record list \<times> 'v) world"
type_synonym ('v, 'a) evidence_worker = "(evidence_record list \<times> 'v, evidence_raised, 'a) worker"

text \<open>The collaborators: the catalog, the clock, the adapters and \<^verbatim>\<open>uuid4\<close>.\<close>

record 'v evidence_service =
  ev_catalog :: service_catalog
  ev_tick :: "'v \<Rightarrow> clock \<times> 'v"
  ev_backend :: "evidence_query \<Rightarrow> 'v evidence_world \<Rightarrow> (evidence_error + observation) \<times> 'v evidence_world"
  ev_new_id :: "'v evidence_world \<Rightarrow> uuid \<times> 'v evidence_world"

definition evidence_tick :: "'v evidence_service \<Rightarrow> evidence_record list \<times> 'v \<Rightarrow> clock \<times> (evidence_record list \<times> 'v)" where
  "evidence_tick ev = (\<lambda>(records, rest). case ev_tick ev rest of (clk, rest') \<Rightarrow> (clk, (records, rest')))"

definition gatewayW :: "'v evidence_service \<Rightarrow> (clock \<Rightarrow> 'a cmd) \<Rightarrow> ('v, 'a) evidence_worker" where
  "gatewayW ev m = commandW (evidence_tick ev) Core_failed (\<lambda>clk. run_tx (m clk))"

definition evidence_clock :: "'v evidence_service \<Rightarrow> ('v, datetime) evidence_worker" where
  "evidence_clock ev = askW (\<lambda>(s, o'). case evidence_tick ev o' of (clk, o'') \<Rightarrow> (clk_now clk, (s, o'')))"

definition checkedW :: "evidence_error + 'a \<Rightarrow> ('v, 'a) evidence_worker" where
  "checkedW v = liftW (map_sum Evidence_failed id v)"

definition resolve_scope :: "'v evidence_service \<Rightarrow> uuid \<Rightarrow> ('v, incident_scope) evidence_worker" where
  "resolve_scope ev incident_id =
     bindW (gatewayW ev (\<lambda>_. get_incident_view incident_id)) (\<lambda>found.
       case found of
         None \<Rightarrow> raiseW (Evidence_failed (evidence_error Incident_unknown
                   (''incident '' @ uuid_str incident_id @ '' not found'')))
       | Some incident \<Rightarrow> returnW (from_incident incident (ev_catalog ev)))"

definition new_evidence_record ::
  "incident_scope \<Rightarrow> observation \<Rightarrow> string \<Rightarrow> uuid option \<Rightarrow> datetime \<Rightarrow> uuid \<Rightarrow> int \<Rightarrow> evidence_record" where
  "new_evidence_record scope ob requested_by investigation_id collected_at evidence_id sequence =
     (let raw = reloaded (strip_nul (ob_raw_response ob))
      in \<lparr>ec_evidence_id = evidence_id, ec_sequence = sequence, ec_incident_id = sc_incident_id scope,
          ec_investigation_id = investigation_id, ec_evidence_type = ob_evidence_type ob,
          ec_source_system = ob_source_system ob, ec_operation = ob_operation ob,
          ec_subject_service = ob_subject_service ob, ec_query_spec = reloaded (JObj (ob_query_spec ob)),
          ec_source_reference = reloaded (JObj (ob_source_reference ob)), ec_observed_at = ob_observed_at ob,
          ec_window_start = ob_window_start ob, ec_window_end = ob_window_end ob, ec_collected_at = collected_at,
          ec_expires_at = (if ob_evidence_type ob \<in> set EXPIRING_TYPES
                           then Some (collected_at + seconds (EVIDENCE_TTL_DAYS * 86400)) else None),
          ec_requested_by = requested_by, ec_content_hash = content_hash raw, ec_raw_response = raw,
          ec_raw_truncated = ob_raw_truncated ob,
          ec_normalized_payload = jdict (reloaded (strip_nul (JObj (ob_normalized_payload ob)))),
          ec_summary = ob_summary ob, ec_result_count = ob_result_count ob\<rparr>)"

text \<open>\<^verbatim>\<open>insert_record\<close>: the primary key must be new; the sequence is assigned by the table.\<close>

definition insert_record :: "(int \<Rightarrow> evidence_record) \<Rightarrow> ('v, evidence_record) evidence_worker" where
  "insert_record build = (\<lambda>(s, (records, rest)).
     (let r = build (int (length records) + 1)
      in if ec_evidence_id r \<in> set (map ec_evidence_id records)
         then (Inl (Core_failed (IntegrityError ''evidence_records'')), (s, (records, rest)))
         else (Inr r, (s, (records @ [r], rest)))))"

definition persist ::
  "'v evidence_service \<Rightarrow> incident_scope \<Rightarrow> observation \<Rightarrow> string \<Rightarrow> uuid option \<Rightarrow> ('v, evidence_record) evidence_worker" where
  "persist ev scope ob requested_by investigation_id =
     bindW (evidence_clock ev) (\<lambda>collected_at.
     bindW (askW (ev_new_id ev)) (\<lambda>evidence_id.
       insert_record (new_evidence_record scope ob requested_by investigation_id collected_at evidence_id)))"

definition ref_command :: "evidence_record \<Rightarrow> register_evidence_ref_command" where
  "ref_command r =
     \<lparr>e_evidence_id = ec_evidence_id r, e_incident_id = ec_incident_id r, e_investigation_id = ec_investigation_id r,
      e_evidence_type = evidence_type_value (ec_evidence_type r), e_content_hash = ec_content_hash r,
      e_source_system = source_system_value (ec_source_system r), e_collected_at = ec_collected_at r\<rparr>"

definition register_record :: "'v evidence_service \<Rightarrow> evidence_record \<Rightarrow> ('v, unit) evidence_worker" where
  "register_record ev r =
     bindW (gatewayW ev (\<lambda>clk. register_evidence_ref clk (ref_command r))) (\<lambda>_. returnW ())"

text \<open>\<^verbatim>\<open>_run\<close>, together with the public method that calls it.\<close>

definition collect_evidence ::
  "'v evidence_service \<Rightarrow> uuid \<Rightarrow> string \<Rightarrow> uuid option \<Rightarrow> evidence_request \<Rightarrow> ('v, evidence_item) evidence_worker" where
  "collect_evidence ev incident_id requested_by investigation_id req =
     bindW (checkedW (collector_of (ev_catalog ev) req)) (\<lambda>collect.
     bindW (resolve_scope ev incident_id) (\<lambda>scope.
     bindW (evidence_clock ev) (\<lambda>now.
     bindW (checkedW (collect scope now)) (\<lambda>query.
     bindW (askW (ev_backend ev query)) (\<lambda>answer.
     bindW (checkedW answer) (\<lambda>found.
     bindW (checkedW (check_observation req scope found)) (\<lambda>ob.
     bindW (persist ev scope ob requested_by investigation_id) (\<lambda>r.
       thenW (register_record ev r) (returnW (to_item r))))))))))"

subsection \<open>Replay and audit\<close>

definition get_incident_evidence :: "uuid \<Rightarrow> evidence_record list \<Rightarrow> evidence_record list" where
  "get_incident_evidence incident_id records =
     sort_key ec_collected_at (sort_key ec_sequence (filter (\<lambda>r. ec_incident_id r = incident_id) records))"

definition get_record :: "uuid \<Rightarrow> evidence_record list \<Rightarrow> evidence_record option" where
  "get_record evidence_id records = find (\<lambda>r. ec_evidence_id r = evidence_id) records"

record integrity_report =
  ir_evidence_id :: uuid
  ir_content_hash_matches :: bool
  ir_ref_registered :: bool
  ir_ref_matches :: bool

definition integrity_ok :: "integrity_report \<Rightarrow> bool" where
  "integrity_ok r \<longleftrightarrow> ir_content_hash_matches r \<and> ir_ref_registered r \<and> ir_ref_matches r"

definition get_evidence :: "uuid \<Rightarrow> ('v, evidence_record) evidence_worker" where
  "get_evidence evidence_id = (\<lambda>(s, (records, rest)).
     (case get_record evidence_id records of
        None \<Rightarrow> (Inl (Evidence_failed (evidence_error Evidence_unknown
                    (''evidence '' @ uuid_str evidence_id @ '' not found''))), (s, (records, rest)))
      | Some r \<Rightarrow> (Inr r, (s, (records, rest)))))"

definition report_on :: "evidence_record \<Rightarrow> evidence_ref_row list \<Rightarrow> integrity_report" where
  "report_on r refs =
     (let ref = find (\<lambda>x. er_id x = ec_evidence_id r) (rev refs)
      in \<lparr>ir_evidence_id = ec_evidence_id r,
          ir_content_hash_matches = verify_content_hash (ec_raw_response r) (ec_content_hash r),
          ir_ref_registered = (ref \<noteq> None),
          ir_ref_matches = (case ref of None \<Rightarrow> False
            | Some x \<Rightarrow> er_content_hash x = ec_content_hash r \<and> er_incident_id x = ec_incident_id r)\<rparr>)"

definition verify_evidence :: "'v evidence_service \<Rightarrow> uuid \<Rightarrow> ('v, integrity_report) evidence_worker" where
  "verify_evidence ev evidence_id =
     bindW (get_evidence evidence_id) (\<lambda>r.
     bindW (gatewayW ev (\<lambda>_. list_evidence_refs (ec_incident_id r))) (\<lambda>refs.
       returnW (report_on r refs)))"

end
