(* ===== verification/Evidence_Properties.thy ===== *)
theory Evidence_Properties
  imports Evidence_Service
begin

text \<open>
  Properties of the evidence service: what is asked of a backend stays inside the scope of the incident, and
  what is returned has been persisted, hashed and registered first.
\<close>

subsection \<open>Scope\<close>














subsection \<open>Persistence\<close>

lemma gatewayW_Inr:
  assumes "gatewayW ev m (s, (records, rest)) = (Inr x, w')"
  obtains clk s' rest' where "m clk s = Inr (x, s')" "w' = (s', (records, rest'))"
proof -
  obtain clk rest' s' where "run_tx (m clk) s = (Inr x, s')" "w' = (s', (records, rest'))"
    using assms by (auto simp: gatewayW_def commandW_Inr evidence_tick_def split: prod.splits)
  then show thesis using that by (cases "m clk s") (auto simp: run_tx_def)
qed

lemma insert_record_Inr:
  "insert_record build w = (Inr r, w') \<longleftrightarrow>
     r = build (int (length (fst (snd w))) + 1) \<and> ec_evidence_id r \<notin> ec_evidence_id ` set (fst (snd w)) \<and>
     w' = (fst w, (fst (snd w) @ [r], snd (snd w)))"
  by (cases w) (auto simp: insert_record_def Let_def)

lemma registered_ref:
  assumes "register_evidence_ref clk cmd s = Inr (x, s')"
  shows "\<exists>ref \<in> set (evidence_refs s'). er_id ref = e_evidence_id cmd \<and> er_content_hash ref = e_content_hash cmd \<and>
    er_incident_id ref = e_incident_id cmd"
proof (cases "lookup_row er_id (e_evidence_id cmd) (evidence_refs s)")
  case None
  then show ?thesis
    using assms by (auto simp: register_evidence_ref_def insert_evidence_ref_def get_evidence_ref_def insert_outbox_event_app)
next
  case (Some ref)
  then have ref: "ref \<in> set (evidence_refs s)" "er_id ref = e_evidence_id cmd" by (auto dest: lookup_row_SomeD)
  then show ?thesis
    using assms Some by (auto simp: register_evidence_ref_def insert_evidence_ref_def get_evidence_ref_def)
qed

lemma get_record_snoc:
  "ec_evidence_id r \<notin> ec_evidence_id ` set records \<Longrightarrow> get_record (ec_evidence_id r) (records @ [r]) = Some r"
  by (induction records) (auto simp: get_record_def)

text \<open>What a successful collection leaves behind.\<close>

lemma collected:
  assumes "collect_evidence ev i by k req w = (Inr item, w')"
  obtains r scope ob t e n where
    "r = new_evidence_record scope ob by k t e n" "sc_incident_id scope = i" "item = to_item r"
    "get_record (ec_evidence_id r) (fst (snd w')) = Some r"
    "\<exists>ref \<in> set (evidence_refs (fst w')). er_id ref = ec_evidence_id r \<and> er_content_hash ref = ec_content_hash r \<and>
       er_incident_id ref = i"
proof -
  obtain w1 scope w2 ob w7 r w8 u where
    sc: "resolve_scope ev i w1 = (Inr scope, w2)" and per: "persist ev scope ob by k w7 = (Inr r, w8)"
    and reg: "register_record ev r w8 = (Inr u, w')" and item: "item = to_item r"
    using assms unfolding collect_evidence_def bindW_Inr thenW_Inr returnW_Inr by blast
  obtain t w9 e w10 where ins: "insert_record (new_evidence_record scope ob by k t e) w10 = (Inr r, w8)"
    using per unfolding persist_def bindW_Inr by blast
  have id: "sc_incident_id scope = i"
  proof -
    obtain found w0 where q: "gatewayW ev (\<lambda>_. get_incident_view i) w1 = (Inr found, w0)"
      and "(case found of None \<Rightarrow> raiseW (Evidence_failed (evidence_error Incident_unknown
          (''incident '' @ uuid_str i @ '' not found''))) | Some incident \<Rightarrow> returnW (from_incident incident (ev_catalog ev))) w0 =
          (Inr scope, w2)"
      using sc unfolding resolve_scope_def bindW_Inr by blast
    then obtain row linked where f: "found = Some (row, linked)" "scope = from_incident (row, linked) (ev_catalog ev)"
      by (auto split: option.splits)
    obtain s rs v where w1: "w1 = (s, (rs, v))" by (metis prod.exhaust)
    obtain clk s' v' where "get_incident_view i s = Inr (found, s')" using q unfolding w1 by (rule gatewayW_Inr)
    then have "get_incident i s = Some row"
      by (cases "get_incident i s") (auto simp: get_incident_view_def get_incident_with_alerts_def f(1))
    then show ?thesis using inc.getD by (auto simp: f(2) from_incident_def)
  qed
  note ins = ins [unfolded insert_record_Inr]
  obtain x where g: "gatewayW ev (\<lambda>clk. register_evidence_ref clk (ref_command r)) w8 = (Inr x, w')"
    using reg by (auto simp: register_record_def)
  obtain clk s' v' where r: "register_evidence_ref clk (ref_command r) (fst w8) = Inr (x, s')"
      "w' = (s', (fst (snd w8), v'))"
    using g by (cases w8) (auto elim: gatewayW_Inr)
  have "fst (snd w') = fst (snd w10) @ [r]" using ins r(2) by simp
  then have "get_record (ec_evidence_id r) (fst (snd w')) = Some r"
    using ins by (auto intro: get_record_snoc)
  moreover have "r = new_evidence_record scope ob by k t e (int (length (fst (snd w10))) + 1)" using ins by blast
  moreover have "ec_incident_id r = i" using calculation(2) id by (simp add: new_evidence_record_def Let_def)
  ultimately show thesis using that id item registered_ref [OF r(1)] r(2) by (simp add: ref_command_def)
qed

text \<open>
  C33. Evidence is citable only once it is on record: an item that the service returns has been persisted under
  its id for the incident asked about, its content hash is the hash of the raw response on record, and
  incident-core has registered that id with that hash and that incident.
\<close>

theorem returned_evidence_recorded:
  assumes "collect_evidence ev i by k req w = (Inr item, w')"
  shows "\<exists>r. get_record (ei_evidence_id item) (fst (snd w')) = Some r \<and> item = to_item r \<and> ec_incident_id r = i \<and>
    verify_content_hash (ec_raw_response r) (ei_content_hash item) \<and>
    (\<exists>ref \<in> set (evidence_refs (fst w')). er_id ref = ei_evidence_id item \<and>
       er_content_hash ref = ei_content_hash item \<and> er_incident_id ref = i)"
proof -
  obtain r scope ob t e n where r: "r = new_evidence_record scope ob by k t e n" "sc_incident_id scope = i"
    "item = to_item r" "get_record (ec_evidence_id r) (fst (snd w')) = Some r"
    and ref: "\<exists>ref \<in> set (evidence_refs (fst w')). er_id ref = ec_evidence_id r \<and>
      er_content_hash ref = ec_content_hash r \<and> er_incident_id ref = i"
    using collected [OF assms] by metis
  have "ec_incident_id r = i" "verify_content_hash (ec_raw_response r) (ec_content_hash r)"
    using r(1,2) by (simp_all add: new_evidence_record_def verify_content_hash_def Let_def)
  with r ref show ?thesis by (simp add: to_item_def)
qed

subsection \<open>The evidence service as a client of incident-core\<close>

definition backend_respects :: "incident_system \<Rightarrow> 'v evidence_service \<Rightarrow> bool" where
  "backend_respects sys ev \<longleftrightarrow> (\<forall>q w. history sys (fst w) (fst (snd (ev_backend ev q w)))) \<and>
     (\<forall>w. history sys (fst w) (fst (snd (ev_new_id ev w))))"

lemma get_incident_view_reads: "snd (run_tx (get_incident_view i) s) = s"
  by (simp add: run_tx_def get_incident_view_def get_incident_with_alerts_def bindT_def returnT_def getsT_def
      split: option.splits)

lemma rel_gatewayW:
  assumes "\<And>clk s. history sys s (snd (run_tx (m clk) s))"
  shows "relW (history sys) (gatewayW ev m)"
  unfolding gatewayW_def using assms by (rule hist.rel_commandW)

lemma rel_insert_record: "relW (history sys) (insert_record build)"
  by (auto simp: relW_def insert_record_def Let_def history_refl split: prod.splits if_splits)

lemma rel_evidence_clock: "relW (history sys) (evidence_clock ev)"
  unfolding evidence_clock_def by (rule hist.rel_askW) (auto simp: history_refl split: prod.splits)

lemma rel_resolve_scope: "relW (history sys) (resolve_scope ev i)"
  unfolding resolve_scope_def
  by (intro hist.rulesW rel_gatewayW) (simp add: get_incident_view_reads history_refl)

lemma rel_register_record: "relW (history sys) (register_record ev r)"
  unfolding register_record_def
proof (intro hist.rulesW rel_gatewayW)
  show "history sys s (snd (run_tx (register_evidence_ref clk (ref_command r)) s))" for clk s
    using history_exec [of sys s clk "Register_evidence_ref (ref_command r)"] by simp
qed

text \<open>
  The evidence service changes incident-core only through its commands: if everything the adapters let
  happen meanwhile is a history of commands, the whole collection is one, whether it returns or raises.
\<close>

theorem evidence_refines_system:
  assumes "backend_respects sys ev"
  shows "relW (history sys) (collect_evidence ev i by k req)"
proof -
  have "relW (history sys) (askW (ev_backend ev q))" for q
    by (rule hist.rel_askW) (use assms in \<open>metis backend_respects_def fst_conv snd_conv\<close>)
  moreover have "relW (history sys) (askW (ev_new_id ev))"
    by (rule hist.rel_askW) (use assms in \<open>metis backend_respects_def fst_conv snd_conv\<close>)
  ultimately show ?thesis
    unfolding collect_evidence_def persist_def checkedW_def
    by (intro hist.rulesW rel_evidence_clock rel_resolve_scope rel_insert_record rel_register_record)
qed

subsection \<open>A collection on a concrete database\<close>

definition sample_observation :: observation where
  "sample_observation = \<lparr>ob_evidence_type = Log, ob_source_system = Loki, ob_operation = ''get_logs'',
     ob_subject_service = ''api'', ob_query_spec = [], ob_source_reference = [], ob_raw_response = JStr ''timeout'',
     ob_raw_truncated = False, ob_normalized_payload = [], ob_summary = ''one line'', ob_result_count = 1,
     ob_observed_at = 0, ob_window_start = None, ob_window_end = None\<rparr>"

definition sample_evidence_service :: "unit evidence_service" where
  "sample_evidence_service = \<lparr>ev_catalog = [], ev_tick = \<lambda>_. (sample_clock, ()),
     ev_backend = \<lambda>_ w. (Inr sample_observation, w), ev_new_id = \<lambda>w. (5, w)\<rparr>"

text \<open>A database whose only incident is the sample incident, with no evidence registered yet.\<close>

definition sample_ready :: "db \<Rightarrow> bool" where
  "sample_ready s \<longleftrightarrow> (\<exists>status. get_incident 0 s = Some (sample_incident status)) \<and> evidence_refs s = []"

lemma sample_resolve:
  assumes "sample_ready s"
  shows "\<exists>scope. resolve_scope sample_evidence_service 0 (s, ([], ())) = (Inr scope, (s, ([], ()))) \<and>
     sc_incident_id scope = 0 \<and> sc_service scope = ''api'' \<and> sc_allowed_services scope = [''api''] \<and> sc_created_at scope = 0"
  using assms
  by (auto simp: sample_ready_def resolve_scope_def bindW_app gatewayW_def commandW_def evidence_tick_def
      sample_evidence_service_def run_tx_def get_incident_view_def get_incident_with_alerts_def bindT_def returnT_def
      getsT_def returnW_app from_incident_def sample_incident_def neighborhood_def dget_def)

lemma sample_register:
  assumes "sample_ready s" "e_incident_id c = 0"
  shows "\<exists>x s'. register_evidence_ref sample_clock c s = Inr (x, s') \<and> remediations s' = remediations s \<and>
     baselines s' = baselines s"
  using assms
  by (auto simp: sample_ready_def register_evidence_ref_def insert_evidence_ref_def get_evidence_ref_def
      insert_outbox_event_app bindT_def thenT_def guardT_def returnT_def getsT_def modifyT_def)

lemma ready_collects:
  assumes "sample_ready s" "collector_of [] req = Inr collect" "\<And>scope ob. check_observation req scope ob = Inr ob"
    and "\<And>scope. sc_service scope = ''api'' \<Longrightarrow> sc_allowed_services scope = [''api''] \<Longrightarrow> sc_created_at scope = 0 \<Longrightarrow>
      \<exists>q. collect scope (clk_now sample_clock) = Inr q"
  shows "\<exists>item s' recs. collect_evidence sample_evidence_service 0 by None req (s, ([], ())) = (Inr item, (s', (recs, ()))) \<and>
     remediations s' = remediations s \<and> baselines s' = baselines s"
proof -
  obtain scope where scope: "resolve_scope sample_evidence_service 0 (s, ([], ())) = (Inr scope, (s, ([], ())))"
    "sc_incident_id scope = 0" "sc_service scope = ''api''" "sc_allowed_services scope = [''api'']" "sc_created_at scope = 0"
    using sample_resolve [OF assms(1)] by blast
  obtain q where q: "collect scope (clk_now sample_clock) = Inr q" using assms(4) scope(3-5) by blast
  define r where "r = new_evidence_record scope sample_observation by None (clk_now sample_clock) 5 1"
  have r: "ec_incident_id r = 0" "ec_evidence_id r = 5"
    using scope(2) by (simp_all add: r_def new_evidence_record_def Let_def)
  then have "e_incident_id (ref_command r) = 0" by (simp add: ref_command_def)
  then obtain x s' where s': "register_evidence_ref sample_clock (ref_command r) s = Inr (x, s')"
    "remediations s' = remediations s" "baselines s' = baselines s"
    using sample_register [OF assms(1)] by blast
  then have reg: "register_record sample_evidence_service r (s, ([r], ())) = (Inr (), (s', ([r], ())))"
    by (simp add: register_record_def gatewayW_def bindW_app commandW_def evidence_tick_def sample_evidence_service_def
        run_tx_def)
  have clock: "evidence_clock sample_evidence_service w = (Inr (clk_now sample_clock), w)" for w
    by (cases w) (auto simp: evidence_clock_def askW_def evidence_tick_def sample_evidence_service_def)
  have new_id: "ev_new_id sample_evidence_service w = (5, w)" for w by (simp add: sample_evidence_service_def)
  have backend: "ev_backend sample_evidence_service q w = (Inr sample_observation, w)" for q w
    by (simp add: sample_evidence_service_def)
  have catalog: "ev_catalog sample_evidence_service = []" by (simp add: sample_evidence_service_def)
  have per: "persist sample_evidence_service scope sample_observation by None (s, ([], ())) = (Inr r, (s, ([r], ())))"
    unfolding persist_def bindW_Inr insert_record_Inr using r
    by (auto simp: clock new_id r_def)
  have "collect_evidence sample_evidence_service 0 by None req (s, ([], ())) = (Inr (to_item r), (s', ([r], ())))"
    by (simp add: collect_evidence_def bindW_app thenW_app checkedW_def scope(1) clock per reg returnW_app liftW_def
        q catalog assms(2,3) backend askW_def)
  with s'(2,3) show ?thesis by blast
qed

lemma sample_ready_investigating: "sample_ready (sample_db INVESTIGATING)"
  by (simp add: sample_ready_def get_incident_def sample_db_def sample_incident_def empty_db_def)

lemma sample_collects:
  assumes "collector_of [] req = Inr collect" "\<And>scope ob. check_observation req scope ob = Inr ob"
    and "\<And>scope now. sc_service scope = ''api'' \<Longrightarrow> sc_allowed_services scope = [''api''] \<Longrightarrow> \<exists>q. collect scope now = Inr q"
  shows "\<exists>item w'. collect_evidence sample_evidence_service 0 by None req
     (sample_db INVESTIGATING, ([], ())) = (Inr item, w')"
  using ready_collects [OF sample_ready_investigating assms(1,2)] assms(3) by blast

lemma sample_collection:
  "\<exists>item w'. collect_evidence sample_evidence_service 0 ''agent'' None (Search_similar_incidents None)
     (sample_db INVESTIGATING, ([], ())) = (Inr item, w')"
proof (rule sample_collects)
  show "collector_of [] (Search_similar_incidents None) = Inr (collect_similar None)" by simp
  show "\<exists>q. collect_similar None scope now = Inr q" for scope now
    by (simp add: collect_similar_def bounded_limit_def MAX_SIMILAR_INCIDENTS_def)
qed (simp add: check_observation_def)

theorem returned_evidence_recorded_witness:
  "\<exists>item w' r. collect_evidence sample_evidence_service 0 ''agent'' None (Search_similar_incidents None)
     (sample_db INVESTIGATING, ([], ())) = (Inr item, w') \<and>
     get_record (ei_evidence_id item) (fst (snd w')) = Some r \<and> ec_incident_id r = 0"
  using sample_collection returned_evidence_recorded by blast

theorem evidence_refines_system_witness:
  "\<exists>s'. history sample_system (sample_db INVESTIGATING) s' \<and>
     (\<exists>item w'. collect_evidence sample_evidence_service 0 ''agent'' None (Search_similar_incidents None)
        (sample_db INVESTIGATING, ([], ())) = (Inr item, (s', w')))"
proof -
  have resp: "backend_respects sample_system sample_evidence_service"
    by (simp add: backend_respects_def sample_evidence_service_def history_refl)
  obtain item s' w' where "collect_evidence sample_evidence_service 0 ''agent'' None (Search_similar_incidents None)
     (sample_db INVESTIGATING, ([], ())) = (Inr item, (s', w'))"
    using sample_collection by (metis prod.exhaust)
  with relWD [OF evidence_refines_system [OF resp] this] show ?thesis by fastforce
qed

end
