(* ===== verification/Transcript.thy ===== *)
theory Transcript
  imports Workers
begin

text \<open>
  The pure half of \<^verbatim>\<open>packages/agents/engine.py\<close> and the types of \<^verbatim>\<open>packages/agents/model.py\<close>: how the
  recorded trace of an investigation becomes the conversation the model sees (\<^verbatim>\<open>build_transcript\<close>), and
  what the engine counts in a trace (\<^verbatim>\<open>_trailing_invalid_turns\<close>, \<^verbatim>\<open>_trailing_backend_failures\<close>,
  \<^verbatim>\<open>_prior_calls\<close>). Payloads are JSON documents, so reading them can raise.
\<close>

subsection \<open>Exceptions and JSON access\<close>

text \<open>What leaves a step of the engine: \<^verbatim>\<open>_Stop\<close> with the terminal status, an error of a service, a missing key.\<close>

datatype raised = Stopped investigation_status | Failed error | KeyError string

definition bindE :: "'e + 'a \<Rightarrow> ('a \<Rightarrow> 'e + 'b) \<Rightarrow> 'e + 'b" where
  "bindE v f = (case v of Inl e \<Rightarrow> Inl e | Inr x \<Rightarrow> f x)"

lemma bindE_simps [simp]: "bindE (Inl e) f = Inl e" "bindE (Inr x) f = f x"
  by (simp_all add: bindE_def)

lemma bindE_Inr: "bindE v f = Inr y \<longleftrightarrow> (\<exists>x. v = Inr x \<and> f x = Inr y)"
  by (cases v) simp_all

fun mapE :: "('a \<Rightarrow> 'e + 'b) \<Rightarrow> 'a list \<Rightarrow> 'e + 'b list" where
  "mapE f [] = Inr []"
| "mapE f (x # xs) = bindE (f x) (\<lambda>y. bindE (mapE f xs) (\<lambda>ys. Inr (y # ys)))"

lemma mapE_Inr_map: "(\<And>x. x \<in> set xs \<Longrightarrow> f (g x) = Inr x) \<Longrightarrow> mapE f (map g xs) = Inr xs"
  by (induction xs) simp_all

text \<open>\<^verbatim>\<open>d[k]\<close> on a dictionary and on any JSON value, \<^verbatim>\<open>for x in j\<close>, \<^verbatim>\<open>len(j)\<close> and \<^verbatim>\<open>sep.join(j)\<close>.\<close>

definition key_of :: "json dict \<Rightarrow> string \<Rightarrow> raised + json" where
  "key_of d k = (case dget d k of Some v \<Rightarrow> Inr v | None \<Rightarrow> Inl (KeyError k))"

definition item_of :: "json \<Rightarrow> string \<Rightarrow> raised + json" where
  "item_of j k = (case j of JObj d \<Rightarrow> key_of d k | _ \<Rightarrow> Inl (Failed (TypeError ''indices must be integers'')))"

definition get_or :: "json dict \<Rightarrow> string \<Rightarrow> json \<Rightarrow> json" where
  "get_or d k v = (case dget d k of Some x \<Rightarrow> x | None \<Rightarrow> v)"

definition iter_of :: "json \<Rightarrow> raised + json list" where
  "iter_of j =
     (case j of JList js \<Rightarrow> Inr js
      | JStr txt \<Rightarrow> Inr (map (\<lambda>c. JStr [c]) txt)
      | JObj d \<Rightarrow> Inr (map (\<lambda>(k, _). JStr k) d)
      | _ \<Rightarrow> Inl (Failed (TypeError ''object is not iterable'')))"

definition len_of :: "json \<Rightarrow> raised + json" where
  "len_of j =
     (case j of JList js \<Rightarrow> Inr (JInt (int (length js)))
      | JStr txt \<Rightarrow> Inr (JInt (int (length txt)))
      | JObj d \<Rightarrow> Inr (JInt (int (length d)))
      | _ \<Rightarrow> Inl (Failed (TypeError ''object has no len()'')))"

definition str_of :: "json \<Rightarrow> raised + string" where
  "str_of j = (case j of JStr txt \<Rightarrow> Inr txt | _ \<Rightarrow> Inl (Failed (TypeError ''expected str'')))"

definition join_of :: "string \<Rightarrow> json \<Rightarrow> raised + string" where
  "join_of sep j = bindE (iter_of j) (\<lambda>js. bindE (mapE str_of js) (\<lambda>parts. Inr (join sep parts)))"

text \<open>\<^verbatim>\<open>json.dumps(v, separators=(",", ":"))\<close> and \<^verbatim>\<open>json.dumps(v, indent=1, sort_keys=True)\<close>.\<close>

fun dumps_plain :: "json \<Rightarrow> string" where
  "dumps_plain (JList xs) = ''['' @ join '','' (map dumps_plain xs) @ '']''"
| "dumps_plain (JObj d) = ''{'' @ join '','' (map (\<lambda>(k, v). dumps_str k @ '':'' @ dumps_plain v) d) @ ''}''"
| "dumps_plain j = dumps j"

definition new_line :: "nat \<Rightarrow> string" where
  "new_line level = CHR 0x0A # replicate level (CHR '' '')"

fun dumps_indent :: "nat \<Rightarrow> json \<Rightarrow> string" where
  "dumps_indent level (JList []) = ''[]''"
| "dumps_indent level (JObj []) = ''{}''"
| "dumps_indent level (JList xs) =
     ''['' @ new_line (Suc level) @ join ('','' @ new_line (Suc level)) (map (dumps_indent (Suc level)) xs)
       @ new_line level @ '']''"
| "dumps_indent level (JObj d) =
     ''{'' @ new_line (Suc level) @ join ('','' @ new_line (Suc level))
         (map (\<lambda>(k, t). dumps_str k @ '': '' @ t)
            (sort_key fst (map (\<lambda>(k, v). (k, dumps_indent (Suc level) v)) d)))
       @ new_line level @ ''}''"
| "dumps_indent level j = dumps j"

subsection \<open>Model turns and the transcript\<close>

record tool_definition =
  td_name :: string
  td_description :: string
  td_input_schema :: "json dict"

record tool_result_entry =
  tr_call_id :: string
  tr_content :: json
  tr_is_error :: bool

datatype transcript_entry =
    ContextEntry string
  | AssistantEntry json "model_action list" json
  | ObservationEntry "tool_result_entry list" "json list"

record decision_request =
  dr_system_prompt :: string
  dr_tools :: "tool_definition list"
  dr_transcript :: "transcript_entry list"

record model_turn =
  mt_text :: string
  mt_actions :: "model_action list"
  mt_stop_reason :: string
  mt_usage :: "int dict"
  mt_provider_payload :: "json dict"
  mt_served_model :: string
  mt_latency_ms :: int
  mt_cache :: "json dict"

record model_error =
  me_code :: string
  me_message :: string
  me_retryable :: bool

definition canonical_tools :: "tool_definition list \<Rightarrow> string" where
  "canonical_tools tools = dumps (JList (map (\<lambda>t. JObj
     [(''name'', JStr (td_name t)), (''description'', JStr (td_description t)),
      (''input_schema'', JObj (td_input_schema t))]) tools))"

definition stable_prefix_digest :: "string \<Rightarrow> tool_definition list \<Rightarrow> string" where
  "stable_prefix_digest system_prompt tools = sha256_hex (system_prompt @ CHR 0x00 # canonical_tools tools)"

text \<open>\<^verbatim>\<open>ModelAction.model_dump\<close> and \<^verbatim>\<open>ModelAction(**a)\<close>, which reads back what was recorded.\<close>

definition action_json :: "model_action \<Rightarrow> json" where
  "action_json a = JObj
     [(''call_id'', JStr (ma_call_id a)), (''name'', JStr (ma_name a)), (''arguments'', JObj (ma_arguments a))]"

definition action_of :: "json \<Rightarrow> raised + model_action" where
  "action_of j =
     (case j of
        JObj d \<Rightarrow>
          (case (dget d ''call_id'', dget d ''name'', dget d ''arguments'') of
             (Some (JStr c), Some (JStr n), Some (JObj args)) \<Rightarrow>
               Inr \<lparr>ma_call_id = c, ma_name = n, ma_arguments = args\<rparr>
           | _ \<Rightarrow> Inl (Failed (ValueError ''ModelAction'')))
      | _ \<Rightarrow> Inl (Failed (TypeError ''argument after ** must be a mapping'')))"

definition actions_in :: "json dict \<Rightarrow> raised + model_action list" where
  "actions_in payload = bindE (iter_of (get_or payload ''actions'' (JList []))) (mapE action_of)"

lemma action_of_json: "action_of (action_json a) = Inr a"
  by (simp add: action_of_def action_json_def dget_def)

definition render_context :: "json \<Rightarrow> string" where
  "render_context c = ''Investigate this incident. Incident context (JSON):'' @ CHR 0x0A # dumps_indent 0 c"

text \<open>\<^verbatim>\<open>observation_for\<close>: what the model was told for an action step.\<close>

definition applied_entry :: "json \<Rightarrow> raised + json" where
  "applied_entry a =
     bindE (item_of a ''key'') (\<lambda>k. bindE (item_of a ''from_status'') (\<lambda>f. bindE (item_of a ''to_status'') (\<lambda>t.
       Inr (JObj [(''key'', k), (''from'', f), (''to'', t)]))))"

definition hypothesis_entry :: "json \<Rightarrow> raised + json" where
  "hypothesis_entry h =
     bindE (item_of h ''key'') (\<lambda>k. bindE (item_of h ''status'') (\<lambda>st. bindE (item_of h ''confidence'') (\<lambda>c.
     bindE (bindE (item_of h ''supporting_evidence_ids'') len_of) (\<lambda>sup.
     bindE (bindE (item_of h ''contradicting_evidence_ids'') len_of) (\<lambda>con.
       Inr (JObj [(''key'', k), (''status'', st), (''confidence'', c), (''supporting'', sup),
                  (''contradicting'', con)]))))))"

definition update_observation :: "json dict \<Rightarrow> raised + string" where
  "update_observation payload =
     bindE (bindE (iter_of (get_or payload ''applied'' (JList []))) (mapE applied_entry)) (\<lambda>applied.
     bindE (bindE (iter_of (get_or payload ''hypotheses'' (JList []))) (mapE hypothesis_entry)) (\<lambda>hs.
       Inr (''Hypothesis update result: '' @ dumps_plain (JObj
         [(''applied'', JList applied), (''rejected'', get_or payload ''rejected'' (JList [])),
          (''hypotheses'', JList hs)]))))"

definition observation_for :: "investigation_step_row \<Rightarrow> raised + (json \<times> bool)" where
  "observation_for p =
     (let payload = sp_payload p
      in if sp_kind p \<in> {TOOL_CALL, INVALID_CALL} then
           bindE (key_of payload ''observation'') (\<lambda>o'. Inr (o', truthy (jget payload ''is_error'')))
         else if sp_kind p = HYPOTHESIS_UPDATE then
           bindE (update_observation payload) (\<lambda>txt.
             Inr (JStr txt, truthy (get_or payload ''rejected'' (JList []))))
         else if sp_kind p = CONCLUSION_REJECTED then
           bindE (join_of ''; '' (get_or payload ''unmet_criteria'' (JList []))) (\<lambda>unmet.
             Inr (JStr (''Conclusion not accepted. Unmet criteria: '' @ unmet), True))
         else Inr (JStr [], False))"

text \<open>\<^verbatim>\<open>build_transcript\<close>: the entries so far, and the results and notices not yet flushed.\<close>

type_synonym transcript_state = "transcript_entry list \<times> tool_result_entry list \<times> json list"

definition flush :: "transcript_state \<Rightarrow> transcript_state" where
  "flush st = (case st of (entries, results, notices) \<Rightarrow>
     if results \<noteq> [] \<or> notices \<noteq> [] then (entries @ [ObservationEntry results notices], [], []) else st)"

text \<open>A call id counts as present when it is not empty.\<close>

definition call_of :: "investigation_step_row \<Rightarrow> string option" where
  "call_of p = (case sp_call_id p of Some (c # cs) \<Rightarrow> Some (c # cs) | _ \<Rightarrow> None)"

definition transcript_step :: "transcript_state \<Rightarrow> investigation_step_row \<Rightarrow> raised + transcript_state" where
  "transcript_step st p =
     (let payload = sp_payload p
      in if sp_kind p = CONTEXT then
           bindE (key_of payload ''context'') (\<lambda>c.
             Inr (case st of (entries, results, notices) \<Rightarrow>
               (entries @ [ContextEntry (render_context c)], results, notices)))
         else if sp_kind p = MODEL_TURN then
           bindE (actions_in payload) (\<lambda>acts.
             Inr (case flush st of (entries, results, notices) \<Rightarrow>
               (entries @ [AssistantEntry (get_or payload ''text'' (JStr [])) acts
                             (get_or payload ''provider_payload'' (JObj []))], results, notices)))
         else if sp_kind p \<in> set ACTION_STEP_KINDS \<and> call_of p \<noteq> None then
           bindE (observation_for p) (\<lambda>(content, is_error).
             Inr (case st of (entries, results, notices) \<Rightarrow>
               (entries, results @ [\<lparr>tr_call_id = the (call_of p), tr_content = content,
                                     tr_is_error = is_error\<rparr>], notices)))
         else if sp_kind p = FEEDBACK then
           bindE (key_of payload ''text'') (\<lambda>t.
             Inr (case st of (entries, results, notices) \<Rightarrow> (entries, results, notices @ [t])))
         else Inr st)"

fun transcript_steps :: "transcript_state \<Rightarrow> investigation_step_row list \<Rightarrow> raised + transcript_state" where
  "transcript_steps st [] = Inr st"
| "transcript_steps st (p # ps) = bindE (transcript_step st p) (\<lambda>st'. transcript_steps st' ps)"

definition build_transcript :: "investigation_step_row list \<Rightarrow> raised + transcript_entry list" where
  "build_transcript steps = bindE (transcript_steps ([], [], []) steps) (\<lambda>st. Inr (fst (flush st)))"

subsection \<open>What the engine reads off a trace\<close>

definition prior_calls :: "investigation_step_row list \<Rightarrow> raised + (json \<times> json) list" where
  "prior_calls steps =
     mapE (\<lambda>p. bindE (key_of (sp_payload p) ''tool'') (\<lambda>t.
              Inr (t, get_or (sp_payload p) ''arguments'' (JObj []))))
       (filter (\<lambda>p. sp_kind p = TOOL_CALL \<and> truthy (jget (sp_payload p) ''counted'')) steps)"

definition turns_of :: "investigation_step_row list \<Rightarrow> investigation_step_row list" where
  "turns_of steps = filter (\<lambda>p. sp_kind p = MODEL_TURN) steps"

text \<open>A turn without a valid action: it made no call, or every answer to it is an invalid call.\<close>

definition invalid_turn :: "investigation_step_row list \<Rightarrow> investigation_step_row \<Rightarrow> bool" where
  "invalid_turn steps turn \<longleftrightarrow>
     \<not> truthy (jget (sp_payload turn) ''actions'') \<or>
     filter (\<lambda>p. sp_iteration p = sp_iteration turn \<and> call_of p \<noteq> None \<and> sp_kind p \<noteq> INVALID_CALL) steps = []"

definition trailing_invalid_turns :: "investigation_step_row list \<Rightarrow> int" where
  "trailing_invalid_turns steps = int (length (takeWhile (invalid_turn steps) (rev (turns_of steps))))"

definition BACKEND_FAILURES :: "string list" where
  "BACKEND_FAILURES = [''backend_unavailable'', ''backend_timeout'']"

definition backend_failure :: "investigation_step_row \<Rightarrow> bool" where
  "backend_failure p \<longleftrightarrow>
     \<not> truthy (jget (sp_payload p) ''ok'') \<and> jget (sp_payload p) ''error_code'' \<in> set (map JStr BACKEND_FAILURES)"

definition trailing_backend_failures :: "investigation_step_row list \<Rightarrow> int" where
  "trailing_backend_failures steps =
     int (length (takeWhile backend_failure (rev (filter (\<lambda>p. sp_kind p = TOOL_CALL) steps))))"

text \<open>The calls of the last model turn that have no answer yet; \<^verbatim>\<open>None\<close> when there was no turn.\<close>

definition steps_after :: "investigation_step_row \<Rightarrow> investigation_step_row list \<Rightarrow> investigation_step_row list" where
  "steps_after turn steps = filter (\<lambda>p. sp_sequence p > sp_sequence turn) steps"

definition answered :: "investigation_step_row list \<Rightarrow> string option list" where
  "answered after = map sp_call_id (filter (\<lambda>p. sp_kind p \<in> set ACTION_STEP_KINDS \<or> call_of p \<noteq> None) after)"

definition unanswered :: "investigation_step_row list \<Rightarrow> model_action list \<Rightarrow> model_action list" where
  "unanswered after actions = filter (\<lambda>a. Some (ma_call_id a) \<notin> set (answered after)) actions"

end
