(* ===== verification/Tools.thy ===== *)
theory Tools
  imports Evidence_Properties Transcript
begin

text \<open>
  \<^verbatim>\<open>packages/tools\<close>: the read-only tools of an investigation. \<open>contracts.py\<close> gives the inputs, \<open>registry.py\<close> maps each
  tool to one query of the evidence service, \<open>executor.py\<close> runs a call under the budgets of the investigation. What
  pydantic makes of the arguments is a parameter: the problems it reports, or the parsed input.
\<close>

subsection \<open>Contracts\<close>

datatype tool_input =
    GetMetricsInput string "string option" "timestamp option" "timestamp option"
  | GetServiceHealthInput "string option" "timestamp option"
  | GetLogsInput "string option" "timestamp option" "timestamp option" "string list option" "string option"
      "string option" int
  | GetTraceInput string
  | GetTracesInput "string option" "timestamp option" "timestamp option" string "int option" int
  | GetDeploysInput "string option" "timestamp option" "timestamp option" int
  | GetConfigHistoryInput "string option" "timestamp option" "timestamp option" int
  | GetGitDiffInput "string option" "timestamp option" "timestamp option" "string option" int
  | GetRecentCommitsInput "string option" int
  | SearchHistoricalIncidentsInput int

record tool_context =
  tc_incident_id :: uuid
  tc_investigation_id :: "uuid option"
  tc_caller :: string

datatype tool_result =
    Tool_success string evidence_item
  | Tool_failure string string string bool

fun tool_ok :: "tool_result \<Rightarrow> bool" where
  "tool_ok (Tool_success _ _) = True"
| "tool_ok (Tool_failure _ _ _ _) = False"

subsection \<open>The registry\<close>

text \<open>The handler of a tool as the query it asks the evidence service.\<close>

fun tool_request :: "tool_input \<Rightarrow> evidence_request" where
  "tool_request (GetMetricsInput metric service since until) = Get_metric_window metric service since until"
| "tool_request (GetServiceHealthInput service moment) = Get_service_health service moment"
| "tool_request (GetLogsInput service since until severities trace_id request_id n) =
     Get_logs service since until (case severities of Some (x # xs) \<Rightarrow> Some (x # xs) | _ \<Rightarrow> None) trace_id request_id (Some n)"
| "tool_request (GetTraceInput trace_id) = Get_trace trace_id"
| "tool_request (GetTracesInput service since until mode min_duration_ms n) =
     Get_traces service since until mode min_duration_ms (Some n)"
| "tool_request (GetDeploysInput service since until n) = Get_recent_deployments service since until (Some n)"
| "tool_request (GetConfigHistoryInput service since until n) = Get_config_changes service since until (Some n)"
| "tool_request (GetGitDiffInput service since until sha n) = Get_code_changes service since until sha (Some n)"
| "tool_request (GetRecentCommitsInput service n) = Get_recent_commits service (Some n)"
| "tool_request (SearchHistoricalIncidentsInput n) = Search_similar_incidents (Some n)"

definition TOOLS :: "string list" where
  "TOOLS = [''get_metrics'', ''get_service_health'', ''get_logs'', ''get_trace'', ''get_traces'', ''get_deploys'',
     ''get_config_history'', ''get_git_diff'', ''get_recent_commits'', ''search_historical_incidents'']"

definition DECISION_TOOL_SPECS :: "string list" where
  "DECISION_TOOL_SPECS = [''update_hypotheses'', ''conclude_investigation'', ''declare_inconclusive'']"

subsection \<open>The executor\<close>

record tool_budget =
  tb_max_calls :: int
  tb_max_identical_calls :: int
  tb_max_attempts_per_call :: nat
  tb_retry_backoff_seconds :: float64

definition default_tool_budget :: tool_budget where
  "default_tool_budget = \<lparr>tb_max_calls = 20, tb_max_identical_calls = 3, tb_max_attempts_per_call = 2,
     tb_retry_backoff_seconds = 1 / 2\<rparr>"

text \<open>What does not change during a run, and the counters that do.\<close>

record 'v toolbox =
  tx_service :: "'v evidence_service"
  tx_context :: tool_context
  tx_budget :: tool_budget
  tx_validate :: "string \<Rightarrow> json dict \<Rightarrow> (string list) + tool_input"
  tx_sleep :: "float64 \<Rightarrow> 'v evidence_world \<Rightarrow> 'v evidence_world"

record tool_counts =
  tn_calls :: int
  tn_seen :: "string \<Rightarrow> int"

definition call_key :: "string \<Rightarrow> json dict \<Rightarrow> string" where
  "call_key tool arguments = tool @ '':'' @ canonical_json (JObj arguments)"

definition count_call :: "string \<Rightarrow> json dict \<Rightarrow> tool_counts \<Rightarrow> tool_counts" where
  "count_call tool arguments c =
     (let k = call_key tool arguments in c\<lparr>tn_calls := tn_calls c + 1, tn_seen := (tn_seen c)(k := tn_seen c k + 1)\<rparr>)"

definition initial_counts :: "(string \<times> json dict) list \<Rightarrow> tool_counts" where
  "initial_counts earlier =
     fold (\<lambda>(tool, arguments). count_call tool arguments) earlier \<lparr>tn_calls = 0, tn_seen = (\<lambda>_. 0)\<rparr>"

text \<open>Why a call is refused before it counts.\<close>

definition call_refused :: "tool_budget \<Rightarrow> tool_counts \<Rightarrow> string \<Rightarrow> json dict \<Rightarrow> tool_result option" where
  "call_refused b c tool arguments =
     (if tool \<notin> set TOOLS
      then Some (if tool \<in> set DECISION_TOOL_SPECS
                 then Tool_failure tool ''decision_tool'' (tool @ '' is handled by the investigation engine'') False
                 else Tool_failure tool ''unknown_tool'' (''no tool named '' @ repr_str tool) False)
      else if tn_calls c \<ge> tb_max_calls b
      then Some (Tool_failure tool ''budget_exceeded'' (''tool call budget of '' @ str_int (tb_max_calls b) @ '' spent'') False)
      else if tn_seen c (call_key tool arguments) \<ge> tb_max_identical_calls b
      then Some (Tool_failure tool ''repeated_call'' ''this exact call was already made; try a different query'' False)
      else None)"

fun attempt_tool ::
  "'v toolbox \<Rightarrow> string \<Rightarrow> evidence_request \<Rightarrow> nat \<Rightarrow> nat \<Rightarrow> ('v, tool_result) evidence_worker" where
  "attempt_tool tb tool req attempt 0 = raiseW (Core_failed (AssertionFailed ''unreachable''))"
| "attempt_tool tb tool req attempt (Suc left) =
     tryW (bindW (collect_evidence (tx_service tb) (tc_incident_id (tx_context tb)) (''tool:'' @ tool)
                    (tc_investigation_id (tx_context tb)) req) (\<lambda>item. returnW (Tool_success tool item)))
       (\<lambda>e. case e of
          Core_failed _ \<Rightarrow> raiseW e
        | Evidence_failed err \<Rightarrow>
            if retryable_error (ee_class err) \<and> attempt < tb_max_attempts_per_call (tx_budget tb)
            then thenW (askW (\<lambda>w. ((), tx_sleep tb (fmul (tb_retry_backoff_seconds (tx_budget tb)) (of_nat attempt)) w)))
                   (attempt_tool tb tool req (attempt + 1) left)
            else returnW (Tool_failure tool (error_code (ee_class err)) (ee_message err) (retryable_error (ee_class err))))"

definition execute_tool ::
  "'v toolbox \<Rightarrow> string \<Rightarrow> json dict \<Rightarrow> tool_counts \<Rightarrow> ('v, tool_result \<times> tool_counts) evidence_worker" where
  "execute_tool tb tool arguments c =
     (case call_refused (tx_budget tb) c tool arguments of
        Some failure \<Rightarrow> returnW (failure, c)
      | None \<Rightarrow>
          (case tx_validate tb tool arguments of
             Inl problems \<Rightarrow> returnW (Tool_failure tool ''invalid_argument'' (join ''; '' problems) False, count_call tool arguments c)
           | Inr parsed \<Rightarrow>
               bindW (attempt_tool tb tool (tool_request parsed) 1 (tb_max_attempts_per_call (tx_budget tb)))
                 (\<lambda>r. returnW (r, count_call tool arguments c))))"

subsection \<open>Budgets\<close>

text \<open>A run of calls, one after the other.\<close>

fun execute_tools ::
  "'v toolbox \<Rightarrow> (string \<times> json dict) list \<Rightarrow> tool_counts \<Rightarrow> ('v, tool_result list \<times> tool_counts) evidence_worker" where
  "execute_tools tb [] c = returnW ([], c)"
| "execute_tools tb ((tool, arguments) # calls) c =
     bindW (execute_tool tb tool arguments c) (\<lambda>(r, c1).
     bindW (execute_tools tb calls c1) (\<lambda>(rs, c2). returnW (r # rs, c2)))"

definition answered_calls :: "(string \<times> json dict) list \<Rightarrow> tool_result list \<Rightarrow> (string \<times> json dict) list" where
  "answered_calls calls results = map fst (filter (\<lambda>(call, r). tool_ok r) (zip calls results))"

lemma execute_tool_counts:
  assumes "execute_tool tb tool arguments c w = (Inr (r, c'), w')"
  shows "(c' = c \<and> \<not> tool_ok r) \<or>
    (c' = count_call tool arguments c \<and> tn_calls c < tb_max_calls (tx_budget tb) \<and>
     tn_seen c (call_key tool arguments) < tb_max_identical_calls (tx_budget tb))"
proof (cases "call_refused (tx_budget tb) c tool arguments")
  case None
  then have "tn_calls c < tb_max_calls (tx_budget tb)" "tn_seen c (call_key tool arguments) < tb_max_identical_calls (tx_budget tb)"
    by (auto simp: call_refused_def split: if_splits)
  moreover have "c' = count_call tool arguments c"
    using assms None by (auto simp: execute_tool_def split: sum.splits)
  ultimately show ?thesis by simp
next
  case (Some failure)
  then have "\<not> tool_ok failure" by (auto simp: call_refused_def split: if_splits)
  then show ?thesis using assms Some by (simp add: execute_tool_def)
qed

definition within_budget :: "tool_budget \<Rightarrow> tool_counts \<Rightarrow> tool_counts \<Rightarrow> bool" where
  "within_budget b c c' \<longleftrightarrow> tn_calls c \<le> tn_calls c' \<and> tn_calls c' \<le> max (tn_calls c) (tb_max_calls b) \<and>
     (\<forall>k. tn_seen c k \<le> tn_seen c' k \<and> tn_seen c' k \<le> max (tn_seen c k) (tb_max_identical_calls b))"

lemma run_within_budget:
  assumes "execute_tools tb calls c w = (Inr (rs, c'), w')"
  shows "within_budget (tx_budget tb) c c' \<and> length rs = length calls \<and>
    int (length (answered_calls calls rs)) \<le> tn_calls c' - tn_calls c \<and>
    (\<forall>k. int (length (filter (\<lambda>(t, a). call_key t a = k) (answered_calls calls rs))) \<le> tn_seen c' k - tn_seen c k)"
  using assms
proof (induction calls arbitrary: c w rs)
  case Nil
  then show ?case by (simp add: within_budget_def answered_calls_def)
next
  case (Cons call calls)
  obtain tool arguments where call: "call = (tool, arguments)" by (rule prod.exhaust)
  obtain r c1 w1 rs' where one: "execute_tool tb tool arguments c w = (Inr (r, c1), w1)"
    and rest: "execute_tools tb calls c1 w1 = (Inr (rs', c'), w')" and rs: "rs = r # rs'"
    using Cons.prems by (auto simp: call)
  note ih = Cons.IH [OF rest]
  note step = execute_tool_counts [OF one]
  have ans: "answered_calls (call # calls) rs =
      (if tool_ok r then [call] else []) @ answered_calls calls rs'" by (simp add: answered_calls_def rs)
  from step show ?case
  proof
    assume "c1 = c \<and> \<not> tool_ok r"
    then show ?thesis using ih rs ans by simp
  next
    assume c1: "c1 = count_call tool arguments c \<and> tn_calls c < tb_max_calls (tx_budget tb) \<and>
      tn_seen c (call_key tool arguments) < tb_max_identical_calls (tx_budget tb)"
    then have n: "tn_calls c1 = tn_calls c + 1"
      "tn_seen c1 = (tn_seen c)(call_key tool arguments := tn_seen c (call_key tool arguments) + 1)"
      by (simp_all add: count_call_def Let_def)
    have "within_budget (tx_budget tb) c c'"
      unfolding within_budget_def
    proof (intro conjI allI)
      show "tn_calls c \<le> tn_calls c'" "tn_calls c' \<le> max (tn_calls c) (tb_max_calls (tx_budget tb))"
        using ih c1 n(1) unfolding within_budget_def by linarith+
      fix k
      have "tn_seen c1 k \<le> tn_seen c' k" "tn_seen c' k \<le> max (tn_seen c1 k) (tb_max_identical_calls (tx_budget tb))"
        using ih unfolding within_budget_def by blast+
      then show "tn_seen c k \<le> tn_seen c' k" "tn_seen c' k \<le> max (tn_seen c k) (tb_max_identical_calls (tx_budget tb))"
        using c1 n(2) by (cases "k = call_key tool arguments"; simp)+
    qed
    moreover have "int (length (filter (\<lambda>(t, a). call_key t a = k) (answered_calls (call # calls) rs))) \<le>
        tn_seen c' k - tn_seen c k" for k
    proof -
      let ?cnt = "\<lambda>xs. int (length (filter (\<lambda>(t, a). call_key t a = k) xs))"
      have "?cnt (answered_calls calls rs') \<le> tn_seen c' k - tn_seen c1 k" using ih by blast
      moreover have "?cnt (answered_calls (call # calls) rs) \<le>
          (if call_key tool arguments = k then 1 else 0) + ?cnt (answered_calls calls rs')"
        unfolding ans by (simp add: call)
      moreover have "tn_seen c1 k = tn_seen c k + (if call_key tool arguments = k then 1 else 0)" by (simp add: n(2))
      ultimately show ?thesis by linarith
    qed
    ultimately show ?thesis using ih n rs ans by simp
  qed
qed

text \<open>
  C39. An investigation cannot query without end: however many calls are made, at most \<open>max_calls\<close> of them return evidence, and
  at most \<open>max_identical_calls\<close> with the same tool and arguments, counting what earlier calls had used.
\<close>

theorem tool_budget_bounds_queries:
  assumes "execute_tools tb calls c w = (Inr (rs, c'), w')"
  shows "length rs = length calls \<and>
    int (length (answered_calls calls rs)) \<le> max 0 (tb_max_calls (tx_budget tb) - tn_calls c) \<and>
    int (length (filter (\<lambda>(t, a). call_key t a = k) (answered_calls calls rs))) \<le>
      max 0 (tb_max_identical_calls (tx_budget tb) - tn_seen c k)"
proof -
  note b = run_within_budget [OF assms]
  have "tn_calls c' \<le> max (tn_calls c) (tb_max_calls (tx_budget tb))"
    "tn_seen c' k \<le> max (tn_seen c k) (tb_max_identical_calls (tx_budget tb))"
    using b unfolding within_budget_def by blast+
  moreover have "int (length (answered_calls calls rs)) \<le> tn_calls c' - tn_calls c"
    "int (length (filter (\<lambda>(t, a). call_key t a = k) (answered_calls calls rs))) \<le> tn_seen c' k - tn_seen c k"
    using b by blast+
  ultimately show ?thesis using b by linarith
qed

lemma attempt_contains:
  assumes "attempt_tool tb tool req attempt left w = (Inl e, w')" "0 < left"
    and "attempt + left = tb_max_attempts_per_call (tx_budget tb) + 1"
  shows "\<exists>i by k req w1 w2. collect_evidence (tx_service tb) i by k req w1 = (Inl e, w2) \<and> (\<exists>err. e = Core_failed err)"
  using assms
proof (induction left arbitrary: attempt w)
  case (Suc left)
  let ?collect = "collect_evidence (tx_service tb) (tc_incident_id (tx_context tb)) (''tool:'' @ tool)
    (tc_investigation_id (tx_context tb)) req"
  obtain r w1 where c: "?collect w = (r, w1)" by (rule prod.exhaust)
  consider item where "r = Inr item" | err where "r = Inl (Core_failed err)" | err where "r = Inl (Evidence_failed err)"
    by (metis sum.exhaust evidence_raised.exhaust)
  then show ?case
  proof cases
    case 1
    then show ?thesis using Suc.prems(1) c by (simp add: tryW_def bindW_app returnW_app)
  next
    case (2 err)
    then have "e = Core_failed err" using Suc.prems(1) c by (simp add: tryW_def bindW_app raiseW_app)
    with 2 c show ?thesis by blast
  next
    case (3 err)
    then have again: "retryable_error (ee_class err) \<and> attempt < tb_max_attempts_per_call (tx_budget tb)"
      and "attempt_tool tb tool req (attempt + 1) left
        (tx_sleep tb (fmul (tb_retry_backoff_seconds (tx_budget tb)) (of_nat attempt)) w1) = (Inl e, w')"
      using Suc.prems(1) c
      by (auto simp: tryW_def bindW_app thenW_app askW_def returnW_app split: if_splits)
    then show ?thesis using Suc.IH Suc.prems(3) by simp
  qed
qed simp

text \<open>
  A tool call ends in a result: whatever is asked and however often backends fail, an evidence error never escapes from a
  call. It is retried within the attempts of the budget and then becomes a failure the model sees; all that can escape is an
  error of incident-core (a lookup or a registration it refuses).
\<close>

theorem tool_errors_contained:
  assumes "1 \<le> tb_max_attempts_per_call (tx_budget tb)"
  shows "(\<exists>r c' w'. execute_tool tb tool arguments c w = (Inr (r, c'), w')) \<or>
    (\<exists>err w'. execute_tool tb tool arguments c w = (Inl (Core_failed err), w') \<and>
       (\<exists>i by k req w1 w2. collect_evidence (tx_service tb) i by k req w1 = (Inl (Core_failed err), w2)))"
proof -
  obtain x w' where run: "execute_tool tb tool arguments c w = (x, w')" by (rule prod.exhaust)
  show ?thesis
  proof (cases x)
    case (Inr y)
    obtain r c' where "y = (r, c')" by (rule prod.exhaust)
    then have "execute_tool tb tool arguments c w = (Inr (r, c'), w')" using run Inr by simp
    then show ?thesis by blast
  next
    case (Inl e)
    then obtain parsed where
      "attempt_tool tb tool (tool_request parsed) 1 (tb_max_attempts_per_call (tx_budget tb)) w = (Inl e, w')"
      using run by (auto simp: execute_tool_def bindW_Inl split: option.splits sum.splits)
    from attempt_contains [OF this] assms obtain i who k req w1 w2 err where
      "collect_evidence (tx_service tb) i who k req w1 = (Inl e, w2)" "e = Core_failed err" by force
    with run Inl show ?thesis by blast
  qed
qed

subsection \<open>A toolbox\<close>

definition sample_toolbox :: "unit toolbox" where
  "sample_toolbox = \<lparr>tx_service = sample_evidence_service,
     tx_context = \<lparr>tc_incident_id = 0, tc_investigation_id = None, tc_caller = ''investigation-agent''\<rparr>,
     tx_budget = default_tool_budget\<lparr>tb_max_calls := 1\<rparr>,
     tx_validate = \<lambda>_ _. Inr (SearchHistoricalIncidentsInput 5), tx_sleep = \<lambda>_ w. w\<rparr>"

lemma sample_tool_call:
  "\<exists>item w'. execute_tool sample_toolbox ''search_historical_incidents'' [] (initial_counts []) (sample_db INVESTIGATING, ([], ())) =
     (Inr (Tool_success ''search_historical_incidents'' item, count_call ''search_historical_incidents'' [] (initial_counts [])), w')"
proof -
  have "\<exists>item w'. collect_evidence sample_evidence_service 0 (''tool:'' @ ''search_historical_incidents'') None
     (Search_similar_incidents (Some 5)) (sample_db INVESTIGATING, ([], ())) = (Inr item, w')"
  proof (rule sample_collects)
    show "collector_of [] (Search_similar_incidents (Some 5)) = Inr (collect_similar (Some 5))" by simp
    show "\<exists>q. collect_similar (Some 5) scope now = Inr q" for scope now
      by (simp add: collect_similar_def bounded_limit_def MAX_SIMILAR_INCIDENTS_def)
  qed (simp add: check_observation_def)
  then obtain item w' where c: "collect_evidence sample_evidence_service 0 (''tool:'' @ ''search_historical_incidents'') None
     (Search_similar_incidents (Some 5)) (sample_db INVESTIGATING, ([], ())) = (Inr item, w')" by blast
  have budget: "tb_max_attempts_per_call (tx_budget sample_toolbox) = Suc 1"
    by (simp add: sample_toolbox_def default_tool_budget_def)
  have free: "call_refused (tx_budget sample_toolbox) (initial_counts []) ''search_historical_incidents'' [] = None"
    by (simp add: call_refused_def sample_toolbox_def default_tool_budget_def initial_counts_def TOOLS_def)
  have "attempt_tool sample_toolbox ''search_historical_incidents'' (Search_similar_incidents (Some 5)) 1 (Suc 1)
      (sample_db INVESTIGATING, ([], ())) = (Inr (Tool_success ''search_historical_incidents'' item), w')"
    unfolding attempt_tool.simps tryW_def bindW_app
    using c by (simp add: sample_toolbox_def returnW_app)
  moreover have "tx_validate sample_toolbox ''search_historical_incidents'' [] = Inr (SearchHistoricalIncidentsInput 5)"
    by (simp add: sample_toolbox_def)
  ultimately have "execute_tool sample_toolbox ''search_historical_incidents'' [] (initial_counts [])
      (sample_db INVESTIGATING, ([], ())) = (Inr (Tool_success ''search_historical_incidents'' item,
        count_call ''search_historical_incidents'' [] (initial_counts [])), w')"
    unfolding execute_tool_def free budget bindW_app by (simp add: returnW_app)
  then show ?thesis by blast
qed

theorem tool_budget_bounds_queries_witness:
  "\<exists>rs c' w'. execute_tools sample_toolbox [(''search_historical_incidents'', []), (''get_logs'', [])] (initial_counts [])
     (sample_db INVESTIGATING, ([], ())) = (Inr (rs, c'), w') \<and>
     length (answered_calls [(''search_historical_incidents'', []), (''get_logs'', [])] rs) \<le> 1"
proof -
  obtain item w' where one: "execute_tool sample_toolbox ''search_historical_incidents'' [] (initial_counts [])
      (sample_db INVESTIGATING, ([], ())) =
     (Inr (Tool_success ''search_historical_incidents'' item, count_call ''search_historical_incidents'' [] (initial_counts [])), w')"
    using sample_tool_call by blast
  let ?c = "count_call ''search_historical_incidents'' [] (initial_counts [])"
  have "tn_calls ?c = 1" by (simp add: count_call_def initial_counts_def Let_def)
  then obtain f where "call_refused (tx_budget sample_toolbox) ?c ''get_logs'' [] = Some f"
    by (simp add: call_refused_def sample_toolbox_def default_tool_budget_def TOOLS_def)
  then have "execute_tool sample_toolbox ''get_logs'' [] ?c w' = (Inr (f, ?c), w')"
    by (simp add: execute_tool_def returnW_app)
  with one have run: "execute_tools sample_toolbox [(''search_historical_incidents'', []), (''get_logs'', [])] (initial_counts [])
     (sample_db INVESTIGATING, ([], ())) = (Inr ([Tool_success ''search_historical_incidents'' item, f], ?c), w')"
    by (simp add: bindW_app returnW_app)
  have "tb_max_calls (tx_budget sample_toolbox) = 1" "tn_calls (initial_counts []) = 0"
    by (simp_all add: sample_toolbox_def initial_counts_def)
  with tool_budget_bounds_queries [OF run] run show ?thesis by auto
qed

theorem tool_errors_contained_witness:
  "\<exists>out. execute_tool sample_toolbox ''get_logs'' [] (initial_counts []) (empty_db, ([], ())) = out \<and>
     (\<forall>err. fst out \<noteq> Inl (Evidence_failed err))"
proof -
  have "1 \<le> tb_max_attempts_per_call (tx_budget sample_toolbox)" by (simp add: sample_toolbox_def default_tool_budget_def)
  from tool_errors_contained [OF this, of "''get_logs''" "[]" "initial_counts []" "(empty_db, ([], ()))"]
  show ?thesis by auto
qed

end
