(* ===== verification/Engine.thy ===== *)
theory Engine
  imports Transcript "HOL-Library.While_Combinator"
begin

text \<open>
  The investigation engine, \<^verbatim>\<open>packages/agents/engine.py\<close>: the loop that claims an investigation, asks a
  language model for the next step, carries it out through the commands of the investigation service and
  enforces the budgets. The collaborators passed to its constructor (model, tools, reader of the context)
  are functions on the world of the worker; the service is the one of \<open>Investigations\<close>.
\<close>

subsection \<open>Collaborators\<close>

text \<open>\<^verbatim>\<open>ToolOutcome\<close> of \<^verbatim>\<open>packages/agents/toolset.py\<close>.\<close>

record tool_outcome =
  to_ok :: bool
  to_observation :: string
  to_evidence_ids :: "string list"
  to_new_evidence :: int
  to_error_code :: "string option"
  to_summary :: "string option"
  to_latency_ms :: int

definition GET_INCIDENT_EVIDENCE :: string where
  "GET_INCIDENT_EVIDENCE = ''get_incident_evidence''"

definition EVIDENCE_TOOL_NAMES :: "string list" where
  "EVIDENCE_TOOL_NAMES =
     [''get_service_health'', ''get_metric_window'', ''get_logs'', ''get_traces'', ''get_trace'',
      ''get_recent_deployments'', ''get_config_changes'', ''get_code_changes'', ''get_recent_commits'',
      ''search_similar_incidents'', GET_INCIDENT_EVIDENCE]"

text \<open>What \<^verbatim>\<open>ModelSpec.from_persisted\<close> and the model factory give: a rejected specification, a
  \<^verbatim>\<open>ModelConfigError\<close>, or a model.\<close>

type_synonym 'w model = "decision_request \<Rightarrow> 'w world \<Rightarrow> (model_error + model_turn) \<times> 'w world"

datatype 'w model_setup = Bad_spec error | Bad_config string | Ready "'w model"

text \<open>
  A toolset is created once per run, by the given factory or, with an evidence service, from the prior
  calls; \<open>en_execute\<close> runs a tool of the toolset created last. \<open>en_sleep\<close> is the pause after a failed attempt.
\<close>

record 'w engine =
  en_owner :: string
  en_lease_seconds :: int
  en_retry_attempts :: nat
  en_core :: investigation_core
  en_validators :: turn_validators
  en_system_prompt :: string
  en_definitions :: "tool_definition list"
  en_tick :: "'w \<Rightarrow> clock \<times> 'w"
  en_sleep :: "nat \<Rightarrow> 'w world \<Rightarrow> 'w world"
  en_model_factory :: "string \<Rightarrow> string \<Rightarrow> json dict \<Rightarrow> 'w model_setup"
  en_toolset_factory :: "(investigation_state \<Rightarrow> 'w world \<Rightarrow> (error + unit) \<times> 'w world) option"
  en_live_toolset :: "(investigation_row \<Rightarrow> (json \<times> json) list \<Rightarrow> 'w world \<Rightarrow> (error + unit) \<times> 'w world) option"
  en_execute :: "string \<Rightarrow> json dict \<Rightarrow> 'w world \<Rightarrow> (error + tool_outcome) \<times> 'w world"
  en_build_context :: "incident_row \<times> alert_row list \<Rightarrow> evidence_ref_row list \<Rightarrow> investigation_budget \<Rightarrow>
    datetime \<Rightarrow> json"

definition serviceW :: "'w engine \<Rightarrow> (clock \<Rightarrow> 'a cmd) \<Rightarrow> ('w, raised, 'a) worker" where
  "serviceW eng m = commandW (en_tick eng) Failed (\<lambda>clk. run_tx (m clk))"

definition outsideW :: "('w world \<Rightarrow> (error + 'a) \<times> 'w world) \<Rightarrow> ('w, raised, 'a) worker" where
  "outsideW f = bindW (askW f) (\<lambda>r. liftW (map_sum Failed id r))"

definition clockW :: "'w engine \<Rightarrow> ('w, raised, clock) worker" where
  "clockW eng = askW (\<lambda>(s, o'). case en_tick eng o' of (clk, o'') \<Rightarrow> (clk, (s, o'')))"

subsection \<open>Persistence helpers\<close>

definition step_record :: "step_kind \<Rightarrow> int \<Rightarrow> json dict \<Rightarrow> step_report" where
  "step_record kind iteration payload =
     \<lparr>sr_kind = kind, sr_iteration = iteration, sr_payload = payload, sr_call_id = None, sr_latency_ms = None,
      sr_usage = None, sr_tool_call = False, sr_new_evidence = 0, sr_last_action = None\<rparr>"

definition recordW :: "'w engine \<Rightarrow> uuid \<Rightarrow> step_report \<Rightarrow> ('w, raised, unit) worker" where
  "recordW eng k r =
     bindW (serviceW eng (\<lambda>clk. record_step clk k (en_owner eng) r (en_lease_seconds eng))) (\<lambda>_. returnW ())"

definition loadW :: "'w engine \<Rightarrow> uuid \<Rightarrow> ('w, raised, investigation_state) worker" where
  "loadW eng k = serviceW eng (\<lambda>_. load_state k)"

text \<open>\<^verbatim>\<open>_escalate\<close> never returns: it raises \<^verbatim>\<open>_Stop\<close> after the command has committed.\<close>

definition escalateW ::
  "'w engine \<Rightarrow> uuid \<Rightarrow> int \<Rightarrow> investigation_status \<Rightarrow> string \<Rightarrow> string \<Rightarrow> string option \<Rightarrow> string list option \<Rightarrow>
   string option \<Rightarrow> ('w, raised, 'a) worker" where
  "escalateW eng k iteration outcome reason_code detail inconclusive_reason evidence_gaps call_id =
     thenW (serviceW eng (\<lambda>clk. escalate_investigation clk k (en_owner eng) iteration outcome reason_code detail
              inconclusive_reason evidence_gaps call_id))
       (raiseW (Stopped outcome))"

definition record_context :: "'w engine \<Rightarrow> investigation_row \<Rightarrow> ('w, raised, unit) worker" where
  "record_context eng row =
     bindW (serviceW eng (\<lambda>_. get_incident_view (n_incident_id row))) (\<lambda>found.
     bindW (liftW (case found of None \<Rightarrow> Inl (Failed (AssertionFailed ''incident is not None'')) | Some i \<Rightarrow> Inr i)) (\<lambda>incident.
     bindW (serviceW eng (\<lambda>_. list_evidence_refs (n_incident_id row))) (\<lambda>refs.
     bindW (clockW eng) (\<lambda>clk.
       recordW eng (n_id row) ((step_record CONTEXT 0
         [(''context'', en_build_context eng incident refs (n_budget row) (clk_now clk)),
          (''evidence_ids'', JList (map (\<lambda>r. jid (er_id r)) refs)),
          (''tools'', jstrs (map td_name (en_definitions eng))),
          (''system_prompt'', JStr (en_system_prompt eng)),
          (''prompt_version'', jget (n_model_config row) ''prompt_version''),
          (''stable_prefix_digest'', JStr (stable_prefix_digest (en_system_prompt eng) (en_definitions eng))),
          (''model'', JObj [(''provider'', JStr (n_model_provider row)), (''name'', JStr (n_model_name row))])])
         \<lparr>sr_last_action := Some ''context built''\<rparr>)))))"

subsection \<open>Budgets\<close>

definition final_turn_reason :: "investigation_row \<Rightarrow> int \<Rightarrow> bool \<Rightarrow> string option" where
  "final_turn_reason row iteration pending =
     (let budget = n_budget row
      in if iteration \<ge> bg_max_iterations budget then
           Some (''turn budget '' @ str_int (bg_max_iterations budget) @ '' reached'')
         else if pending then None
         else if n_tool_call_count row \<ge> bg_max_tool_calls budget then
           Some (''evidence tool call budget '' @ str_int (bg_max_tool_calls budget) @ '' spent'')
         else if n_evidence_count row \<ge> bg_max_evidence_items budget then
           Some (''evidence item budget '' @ str_int (bg_max_evidence_items budget) @ '' spent'')
         else None)"

definition budget_notice :: "investigation_row \<Rightarrow> int \<Rightarrow> string option \<Rightarrow> string" where
  "budget_notice row iteration final_reason =
     (let budget = n_budget row
      in ''Budget: turn '' @ str_int iteration @ '' of '' @ str_int (bg_max_iterations budget)
         @ ''; evidence tool calls '' @ str_int (n_tool_call_count row) @ ''/'' @ str_int (bg_max_tool_calls budget)
         @ ''; evidence items '' @ str_int (n_evidence_count row) @ ''/'' @ str_int (bg_max_evidence_items budget)
         @ ''.'' @
         (case final_reason of None \<Rightarrow> []
          | Some why \<Rightarrow> '' FINAL TURN ('' @ why @ ''): evidence tools are disabled. Call ''
              @ ''conclude_investigation if the criteria are met; otherwise declare_inconclusive.''))"

definition total_tokens :: "investigation_row \<Rightarrow> int" where
  "total_tokens row = n_input_tokens row + n_output_tokens row + n_cache_read_tokens row + n_cache_creation_tokens row"

text \<open>Each limit in turn; an exceeded one ends the investigation.\<close>

definition limitW :: "'w engine \<Rightarrow> investigation_row \<Rightarrow> bool \<Rightarrow> investigation_status \<Rightarrow> string \<Rightarrow> string \<Rightarrow>
   ('w, raised, unit) worker" where
  "limitW eng row exceeded outcome reason_code detail =
     (if exceeded then escalateW eng (n_id row) (n_iteration_count row) outcome reason_code detail None None None
      else returnW ())"

definition wall_clock_limit :: "'w engine \<Rightarrow> investigation_row \<Rightarrow> ('w, raised, unit) worker" where
  "wall_clock_limit eng row =
     (case n_started_at row of None \<Rightarrow> returnW ()
      | Some started \<Rightarrow> bindW (clockW eng) (\<lambda>clk.
          let elapsed = clk_now clk - started; most = bg_max_wall_clock_seconds (n_budget row)
          in limitW eng row (elapsed > seconds most) Inv_ESCALATED ''budget_exhausted''
               (''wall clock '' @ str_int (elapsed div 1000000) @ ''s exceeded '' @ str_int most @ ''s'')))"

definition enforce_limits :: "'w engine \<Rightarrow> investigation_state \<Rightarrow> ('w, raised, unit) worker" where
  "enforce_limits eng state =
     (let row = is_investigation state; budget = n_budget row
      in thenW (wall_clock_limit eng row)
        (thenW (case bg_max_total_tokens budget of None \<Rightarrow> returnW ()
                | Some most \<Rightarrow> limitW eng row (total_tokens row \<ge> most) Inv_ESCALATED ''budget_exhausted''
                    (''token budget '' @ str_int most @ '' spent ('' @ str_int (total_tokens row) @ '')''))
        (thenW (limitW eng row (n_iteration_count row \<ge> bg_max_iterations budget) Inv_ESCALATED
                  ''budget_exhausted'' (''iteration budget '' @ str_int (bg_max_iterations budget) @ '' spent''))
        (thenW (limitW eng row (trailing_invalid_turns (is_steps state) \<ge> bg_max_consecutive_invalid_turns budget)
                  Inv_FAILED ''malformed_output''
                  (str_int (bg_max_consecutive_invalid_turns budget) @ '' consecutive turns without a valid action''))
          (limitW eng row (trailing_backend_failures (is_steps state) \<ge> bg_max_consecutive_tool_failures budget)
                  Inv_FAILED ''evidence_unavailable''
                  (str_int (bg_max_consecutive_tool_failures budget) @ '' consecutive evidence-service failures''))))))"

subsection \<open>One model turn\<close>

text \<open>The attempts \<open>attempt, attempt + 1, ...\<close> of which \<open>left\<close> remain.\<close>

fun model_attempts ::
  "'w engine \<Rightarrow> 'w model \<Rightarrow> uuid \<Rightarrow> decision_request \<Rightarrow> int \<Rightarrow> nat \<Rightarrow> nat \<Rightarrow> ('w, raised, model_turn) worker" where
  "model_attempts eng model k request iteration attempt 0 = raiseW (Failed (AssertionFailed ''unreachable''))"
| "model_attempts eng model k request iteration attempt (Suc left) =
     bindW (askW (model request)) (\<lambda>answer.
       case answer of
         Inr turn \<Rightarrow> returnW turn
       | Inl e \<Rightarrow>
           thenW (recordW eng k (step_record MODEL_ERROR iteration
             [(''code'', JStr (me_code e)), (''retryable'', JBool (me_retryable e)),
              (''attempt'', JInt (int attempt)), (''message'', JStr (take 300 (me_message e)))]))
           (if \<not> me_retryable e \<or> left = 0 then
              escalateW eng k iteration Inv_FAILED (if me_retryable e then ''model_unavailable'' else ''model_error'')
                (me_code e @ '' after '' @ str_nat attempt @ '' attempt(s)'') None None None
            else
              thenW (askW (\<lambda>w. ((), en_sleep eng attempt w)))
                (model_attempts eng model k request iteration (Suc attempt) left)))"

definition call_model ::
  "'w engine \<Rightarrow> 'w model \<Rightarrow> uuid \<Rightarrow> decision_request \<Rightarrow> int \<Rightarrow> ('w, raised, model_turn) worker" where
  "call_model eng model k request iteration =
     model_attempts eng model k request iteration 1 (en_retry_attempts eng)"

subsection \<open>Carrying out a decision\<close>

definition no_action_text :: "json \<Rightarrow> string" where
  "no_action_text stop_reason =
     (if stop_reason = JStr ''max_tokens''
      then ''Your response was cut off by the output limit before any tool call completed.''
      else ''Your turn made no tool call.'')
     @ '' Act only through tools: gather evidence, update hypotheses, conclude_investigation, or declare_inconclusive.''"

definition refusal :: "investigation_row \<Rightarrow> string option \<Rightarrow> string \<Rightarrow> int \<Rightarrow> (string \<times> string) option" where
  "refusal row final_reason tool used_evidence =
     (if final_reason \<noteq> None then Some (''final_turn'', ''Final turn: evidence tools are disabled.'')
      else if tool \<noteq> GET_INCIDENT_EVIDENCE \<and> used_evidence \<ge> bg_max_evidence_items (n_budget row)
        then Some (''evidence_budget_exhausted'', ''The evidence item budget is spent.'')
      else None)"

definition refused_step :: "int \<Rightarrow> string \<Rightarrow> json dict \<Rightarrow> string \<Rightarrow> string \<times> string \<Rightarrow> step_report" where
  "refused_step iteration tool arguments call_id why =
     (step_record TOOL_CALL iteration
        [(''tool'', JStr tool), (''arguments'', JObj arguments), (''ok'', JBool False),
         (''error_code'', JStr (fst why)), (''observation'', JStr (''Not executed: '' @ snd why)),
         (''is_error'', JBool True), (''evidence_ids'', JList []), (''counted'', JBool False)])
      \<lparr>sr_call_id := Some call_id\<rparr>"

definition counted :: "tool_outcome \<Rightarrow> bool" where
  "counted t \<longleftrightarrow> to_error_code t \<notin> {Some ''budget_exceeded'', Some ''repeated_call''}"

definition tool_step :: "int \<Rightarrow> string \<Rightarrow> json dict \<Rightarrow> string \<Rightarrow> tool_outcome \<Rightarrow> step_report" where
  "tool_step iteration tool arguments call_id t =
     (step_record TOOL_CALL iteration
        [(''tool'', JStr tool), (''arguments'', JObj arguments), (''ok'', JBool (to_ok t)),
         (''error_code'', jopt JStr (to_error_code t)), (''summary'', jopt JStr (to_summary t)),
         (''evidence_ids'', jstrs (to_evidence_ids t)), (''observation'', JStr (to_observation t)),
         (''is_error'', JBool (\<not> to_ok t)), (''counted'', JBool (counted t))])
      \<lparr>sr_call_id := Some call_id, sr_latency_ms := Some (to_latency_ms t), sr_tool_call := counted t,
       sr_new_evidence := to_new_evidence t,
       sr_last_action := Some (tool @ '' -> '' @ (if to_ok t then ''ok''
         else case to_error_code t of Some c \<Rightarrow> c | None \<Rightarrow> ''None''))\<rparr>"

text \<open>The loop over the tool requests, carrying \<^verbatim>\<open>used_evidence\<close> (\<^verbatim>\<open>used_calls\<close> is counted but never read).\<close>

fun run_tools ::
  "'w engine \<Rightarrow> investigation_row \<Rightarrow> int \<Rightarrow> string option \<Rightarrow> int \<Rightarrow> (string \<times> string \<times> json dict) list \<Rightarrow>
   ('w, raised, unit) worker" where
  "run_tools eng row iteration final_reason used [] = returnW ()"
| "run_tools eng row iteration final_reason used ((call_id, tool, arguments) # requests) =
     (case refusal row final_reason tool used of
        Some why \<Rightarrow>
          thenW (recordW eng (n_id row) (refused_step iteration tool arguments call_id why))
            (run_tools eng row iteration final_reason used requests)
      | None \<Rightarrow>
          bindW (outsideW (en_execute eng tool arguments)) (\<lambda>t.
          thenW (recordW eng (n_id row) (tool_step iteration tool arguments call_id t))
            (run_tools eng row iteration final_reason (used + to_new_evidence t) requests)))"

definition invalid_step :: "int \<Rightarrow> string \<times> string \<times> string \<Rightarrow> step_report" where
  "invalid_step iteration call = (case call of (call_id, name, err) \<Rightarrow>
     (step_record INVALID_CALL iteration
        [(''tool'', JStr name), (''error'', JStr err), (''observation'', JStr (''Rejected: '' @ err)),
         (''is_error'', JBool True)])\<lparr>sr_call_id := Some call_id\<rparr>)"

definition update_hypothesesW ::
  "'w engine \<Rightarrow> uuid \<Rightarrow> int \<Rightarrow> string \<times> hypothesis_update_batch \<Rightarrow> ('w, raised, unit) worker" where
  "update_hypothesesW eng k iteration call = (case call of (call_id, batch) \<Rightarrow>
     bindW (serviceW eng (\<lambda>clk. apply_hypothesis_updates clk k (en_owner eng) iteration call_id batch)) (\<lambda>_. returnW ()))"

definition concludeW ::
  "'w engine \<Rightarrow> uuid \<Rightarrow> int \<Rightarrow> (string \<times> final_investigation_result) option \<Rightarrow> ('w, raised, unit) worker" where
  "concludeW eng k iteration conclusion =
     (case conclusion of None \<Rightarrow> returnW ()
      | Some (call_id, result) \<Rightarrow>
          bindW (serviceW eng (\<lambda>clk. complete_investigation (en_core eng) clk k (en_owner eng) iteration call_id result)) (\<lambda>out.
            if co_accepted out then raiseW (Stopped Inv_COMPLETED) else returnW ()))"

definition declareW ::
  "'w engine \<Rightarrow> uuid \<Rightarrow> int \<Rightarrow> (string \<times> inconclusive_declaration) option \<Rightarrow> ('w, raised, unit) worker" where
  "declareW eng k iteration inconclusive =
     (case inconclusive of None \<Rightarrow> returnW ()
      | Some (call_id, d) \<Rightarrow>
          escalateW eng k iteration Inv_ESCALATED ''inconclusive'' (id_reason d) (Some (id_reason d))
            (Some (id_evidence_gaps d)) (Some call_id))"

definition process ::
  "'w engine \<Rightarrow> investigation_row \<Rightarrow> investigation_decision \<Rightarrow> int \<Rightarrow> string option \<Rightarrow> json \<Rightarrow>
   ('w, raised, unit) worker" where
  "process eng row decision iteration final_reason stop_reason =
     (let k = n_id row
      in if \<not> has_actions decision then
           recordW eng k (step_record FEEDBACK iteration
             [(''text'', JStr (no_action_text stop_reason)), (''reason'', JStr ''no_action'')])
         else
           thenW (forW (de_hypothesis_updates decision) (update_hypothesesW eng k iteration))
           (thenW (forW (de_invalid_calls decision) (\<lambda>call. recordW eng k (invalid_step iteration call)))
           (thenW (run_tools eng row iteration final_reason (n_evidence_count row) (de_tool_requests decision))
           (thenW (concludeW eng k iteration (de_conclusion decision))
             (declareW eng k iteration (de_inconclusive decision))))))"

text \<open>After a final turn without an outcome the budget is what ends the investigation.\<close>

definition out_of_budget :: "'w engine \<Rightarrow> uuid \<Rightarrow> int \<Rightarrow> string option \<Rightarrow> ('w, raised, unit) worker" where
  "out_of_budget eng k iteration final_reason =
     (case final_reason of None \<Rightarrow> returnW ()
      | Some why \<Rightarrow> escalateW eng k iteration Inv_ESCALATED ''budget_exhausted''
          (why @ ''; the final turn did not reach a conclusion'') None None None)"

subsection \<open>Resuming\<close>

definition resume_turn ::
  "'w engine \<Rightarrow> investigation_state \<Rightarrow> investigation_step_row \<Rightarrow> model_action list \<Rightarrow> ('w, raised, bool) worker" where
  "resume_turn eng state turn pending =
     (let row = is_investigation state; final = final_turn_reason row (sp_iteration turn) True
      in bindW (liftW (str_of (get_or (sp_payload turn) ''text'' (JStr [])))) (\<lambda>said.
         thenW (process eng row (interpret_turn (en_validators eng) said pending EVIDENCE_TOOL_NAMES)
                  (sp_iteration turn) final (JStr ''tool_use''))
         (thenW (out_of_budget eng (n_id row) (sp_iteration turn) final) (returnW True))))"

definition resolve_pending :: "'w engine \<Rightarrow> investigation_state \<Rightarrow> ('w, raised, bool) worker" where
  "resolve_pending eng state =
     (let steps = is_steps state
      in if turns_of steps = [] then returnW False
         else let turn = last (turns_of steps); after = steps_after turn steps
           in bindW (liftW (actions_in (sp_payload turn))) (\<lambda>actions.
              if actions = [] then
                (if filter (\<lambda>p. sp_kind p = FEEDBACK) after \<noteq> [] then returnW False
                 else thenW (process eng (is_investigation state) empty_decision (sp_iteration turn) None
                               (get_or (sp_payload turn) ''stop_reason'' (JStr ''end_turn'')))
                        (returnW True))
              else if unanswered after actions = [] then returnW False
              else resume_turn eng state turn (unanswered after actions)))"

subsection \<open>The loop\<close>

definition turn_step :: "int \<Rightarrow> model_turn \<Rightarrow> step_report" where
  "turn_step iteration turn =
     (step_record MODEL_TURN iteration
        [(''text'', JStr (mt_text turn)), (''actions'', JList (map action_json (mt_actions turn))),
         (''stop_reason'', JStr (mt_stop_reason turn)),
         (''usage'', JObj (map (\<lambda>(u, v). (u, JInt v)) (mt_usage turn))),
         (''served_model'', JStr (mt_served_model turn)), (''provider_payload'', JObj (mt_provider_payload turn)),
         (''cache'', JObj (mt_cache turn))])
      \<lparr>sr_latency_ms := Some (mt_latency_ms turn), sr_usage := Some (mt_usage turn),
       sr_last_action := Some (''model turn '' @ str_int iteration @ '': '' @ str_nat (length (mt_actions turn))
         @ '' tool call(s)'')\<rparr>"

definition ask_model :: "'w engine \<Rightarrow> 'w model \<Rightarrow> investigation_state \<Rightarrow> ('w, raised, unit) worker" where
  "ask_model eng model state =
     (let row = is_investigation state; k = n_id row; iteration = n_iteration_count row + 1;
          final = final_turn_reason row iteration False
      in thenW (recordW eng k (step_record FEEDBACK iteration
                  [(''text'', JStr (budget_notice row iteration final)), (''reason'', JStr ''budget'')]))
        (bindW (loadW eng k) (\<lambda>state'.
         bindW (liftW (build_transcript (is_steps state'))) (\<lambda>transcript.
         bindW (call_model eng model k
                  \<lparr>dr_system_prompt = en_system_prompt eng, dr_tools = en_definitions eng, dr_transcript = transcript\<rparr>
                  iteration) (\<lambda>turn.
         thenW (recordW eng k (turn_step iteration turn))
         (thenW (process eng (is_investigation state')
                   (interpret_turn (en_validators eng) (mt_text turn) (mt_actions turn) EVIDENCE_TOOL_NAMES)
                   iteration final (JStr (mt_stop_reason turn)))
           (out_of_budget eng k iteration final)))))))"

text \<open>One round of \<^verbatim>\<open>while True\<close>: \<open>Some status\<close> when the loop returns, \<open>None\<close> when it goes on.\<close>

definition engine_round ::
  "'w engine \<Rightarrow> 'w model \<Rightarrow> uuid \<Rightarrow> ('w, raised, investigation_status option) worker" where
  "engine_round eng model k =
     bindW (loadW eng k) (\<lambda>state.
       if n_status (is_investigation state) \<in> set TERMINAL_INVESTIGATION_STATUSES
       then returnW (Some (n_status (is_investigation state)))
       else
         bindW (resolve_pending eng state) (\<lambda>resumed.
           if resumed then returnW None
           else thenW (enforce_limits eng state) (thenW (ask_model eng model state) (returnW None))))"

text \<open>The loop itself, with no bound of its own: \<open>None\<close> would mean that it never ends.\<close>

definition engine_loop ::
  "'w engine \<Rightarrow> 'w model \<Rightarrow> uuid \<Rightarrow> 'w world \<Rightarrow> ((raised + investigation_status option) \<times> 'w world) option" where
  "engine_loop eng model k w =
     while_option (\<lambda>(r, w). r = Inr None) (\<lambda>(r, w). engine_round eng model k w) (Inr None, w)"

definition new_toolset :: "'w engine \<Rightarrow> investigation_state \<Rightarrow> ('w, raised, unit) worker" where
  "new_toolset eng state =
     (case en_toolset_factory eng of
        Some build \<Rightarrow> outsideW (build state)
      | None \<Rightarrow>
          (case en_live_toolset eng of
             None \<Rightarrow> raiseW (Failed (ValueError ''an engine without an evidence service needs a toolset_factory''))
           | Some build \<Rightarrow> bindW (liftW (prior_calls (is_steps state))) (\<lambda>prior.
               outsideW (build (is_investigation state) prior))))"

definition prepare :: "'w engine \<Rightarrow> investigation_state \<Rightarrow> ('w, raised, 'w model) worker" where
  "prepare eng state =
     (let row = is_investigation state
      in case en_model_factory eng (n_model_provider row) (n_model_name row) (n_model_config row) of
           Bad_spec e \<Rightarrow> raiseW (Failed e)
         | Bad_config msg \<Rightarrow>
             escalateW eng (n_id row) (n_iteration_count row) Inv_FAILED ''model_config_error'' (take 300 msg)
               None None None
         | Ready model \<Rightarrow>
             bindW (if filter (\<lambda>p. sp_kind p = CONTEXT) (is_steps state) = []
                    then thenW (record_context eng row) (loadW eng (n_id row)) else returnW state) (\<lambda>state'.
             thenW (new_toolset eng state') (returnW model)))"

text \<open>\<^verbatim>\<open>except _Stop\<close> and \<^verbatim>\<open>except LeaseLostError\<close> around the run.\<close>

definition settle :: "raised + investigation_status option \<Rightarrow> raised + investigation_status option" where
  "settle r =
     (case r of
        Inl (Stopped st) \<Rightarrow> Inr (Some st)
      | Inl (Failed (LeaseLostError msg)) \<Rightarrow> Inr None
      | _ \<Rightarrow> r)"

definition engine_run ::
  "'w engine \<Rightarrow> uuid \<Rightarrow> 'w world \<Rightarrow> ((raised + investigation_status option) \<times> 'w world) option" where
  "engine_run eng k w =
     (case commandW (en_tick eng) Failed (\<lambda>clk. claim_investigation clk k (en_owner eng) (en_lease_seconds eng)) w of
        (Inl e, w') \<Rightarrow> Some (Inl e, w')
      | (Inr None, w') \<Rightarrow> Some (Inr None, w')
      | (Inr (Some state), w') \<Rightarrow>
          (case prepare eng state w' of
             (Inl e, w'') \<Rightarrow> Some (settle (Inl e), w'')
           | (Inr model, w'') \<Rightarrow> map_option (map_prod settle id) (engine_loop eng model k w'')))"

end
