(* ===== verification/Toolset.thy ===== *)
theory Toolset
  imports Tools Engine
begin

text \<open>
  \<^verbatim>\<open>packages/agents/toolset.py\<close>: the tools under the names the model sees, and the compaction of a result to what
  fits into the model's context. The engine is given these outcomes through its field \<open>en_execute\<close>.
\<close>

subsection \<open>Compaction\<close>

definition MAX_RESULT_CHARS :: int where
  "MAX_RESULT_CHARS = 6000"

definition MAX_LISTED_EVIDENCE :: int where
  "MAX_LISTED_EVIDENCE = 40"

text \<open>\<^verbatim>\<open>[[timestamp, value], ...]\<close>.\<close>

definition is_point :: "json \<Rightarrow> bool" where
  "is_point p = (case p of JList [JStr _, _] \<Rightarrow> True | _ \<Rightarrow> False)"

definition is_series :: "json list \<Rightarrow> bool" where
  "is_series node \<longleftrightarrow> node \<noteq> [] \<and> list_all is_point node"

definition series_picks :: "nat \<Rightarrow> nat \<Rightarrow> int list" where
  "series_picks n keep =
     (let step = rnd (of_int (int n - 1) / of_int (max (int keep - 1) 1))
      in sort (remdups (map (\<lambda>i. round_half_even (fmul (of_int (int i)) step)) [0..<keep])))"

fun trim_lists :: "nat \<Rightarrow> json \<Rightarrow> json" where
  "trim_lists keep (JList node) =
     (if is_series node \<and> length node > keep
      then JList (map (\<lambda>i. node ! nat i) (series_picks (length node) keep)
             @ [JStr (''... downsampled from '' @ str_int (int (length node)) @ '' points'')])
      else JList (take keep (map (trim_lists keep) node)
             @ (if length node > keep then [JStr (''... '' @ str_int (int (length node) - int keep) @ '' more'')] else [])))"
| "trim_lists keep (JObj d) = JObj (map (\<lambda>(k, v). (k, trim_lists keep v)) d)"
| "trim_lists keep j = j"

text \<open>The loop of \<^verbatim>\<open>compact\<close>, with \<^verbatim>\<open>keep\<close> halved in every round, and \<^verbatim>\<open>text[:n]\<close>.\<close>

fun shrink :: "int \<Rightarrow> nat \<Rightarrow> json \<Rightarrow> string" where
  "shrink limit keep v =
     (if int (length (dumps_plain v)) > limit \<and> keep \<ge> 1 then shrink limit (keep div 2) (trim_lists keep v)
      else dumps_plain v)"

declare shrink.simps [simp del]

definition slice_to :: "int \<Rightarrow> string \<Rightarrow> string" where
  "slice_to n t = take (nat (if n < 0 then int (length t) + n else n)) t"

definition TRUNCATED :: string where
  "TRUNCATED = ''...'' @ [CHR 0x22] @ ''[truncated; full record in the evidence store]'' @ [CHR 0x22]"

definition compact_text :: "json \<Rightarrow> int \<Rightarrow> string" where
  "compact_text v limit =
     (let t = shrink limit 8 v
      in if int (length t) > limit then slice_to (limit - 60) t @ TRUNCATED else t)"

subsection \<open>The toolset\<close>

definition EVIDENCE_TOOL_ALIASES :: "string dict" where
  "EVIDENCE_TOOL_ALIASES =
     [(''get_service_health'', ''get_service_health''), (''get_metric_window'', ''get_metrics''), (''get_logs'', ''get_logs''),
      (''get_traces'', ''get_traces''), (''get_trace'', ''get_trace''), (''get_recent_deployments'', ''get_deploys''),
      (''get_config_changes'', ''get_config_history''), (''get_code_changes'', ''get_git_diff''),
      (''get_recent_commits'', ''get_recent_commits''), (''search_similar_incidents'', ''search_historical_incidents'')]"

datatype toolset_raised = Unknown_alias string | Tool_raised evidence_raised

record 'v toolset =
  tt_toolbox :: "'v toolbox"
  tt_listing :: "json dict \<Rightarrow> string + int"
  tt_latency :: "'v evidence_world \<Rightarrow> 'v evidence_world \<Rightarrow> int"

definition aliased_calls :: "(string \<times> json dict) list \<Rightarrow> (string \<times> json dict) list" where
  "aliased_calls calls = map (\<lambda>(t, a). (case dget EVIDENCE_TOOL_ALIASES t of None \<Rightarrow> t | Some t' \<Rightarrow> t', a)) calls"

definition toolset_budget :: "int \<Rightarrow> int \<Rightarrow> float64 \<Rightarrow> tool_budget" where
  "toolset_budget max_tool_calls max_identical_calls backoff =
     default_tool_budget\<lparr>tb_max_calls := max_tool_calls, tb_max_identical_calls := max_identical_calls,
       tb_retry_backoff_seconds := backoff\<rparr>"

fun outcome_of_result :: "tool_result \<Rightarrow> tool_outcome" where
  "outcome_of_result (Tool_success tool item) =
     \<lparr>to_ok = True,
      to_observation = compact_text (JObj
        [(''evidence_id'', jid (ei_evidence_id item)),
         (''evidence_type'', JStr (evidence_type_value (ei_evidence_type item))),
         (''source'', JStr (source_system_value (ei_source_system item))),
         (''service'', JStr (ei_subject_service item)),
         (''observed_at'', JStr (isoformat (ei_observed_at item))),
         (''summary'', JStr (ei_summary item)), (''data'', JObj (ei_data item))]) MAX_RESULT_CHARS,
      to_evidence_ids = [uuid_str (ei_evidence_id item)], to_new_evidence = 1, to_error_code = None,
      to_summary = Some (ei_summary item), to_latency_ms = 0\<rparr>"
| "outcome_of_result (Tool_failure tool code msg retryable) =
     \<lparr>to_ok = False,
      to_observation = compact_text (JObj [(''error'', JObj
        [(''code'', JStr code), (''message'', JStr msg), (''retryable'', JBool retryable)])]) MAX_RESULT_CHARS,
      to_evidence_ids = [], to_new_evidence = 0, to_error_code = Some code, to_summary = Some (take 300 msg),
      to_latency_ms = 0\<rparr>"

definition evidence_tool ::
  "'v toolset \<Rightarrow> string \<Rightarrow> json dict \<Rightarrow> tool_counts \<Rightarrow>
   (evidence_record list \<times> 'v, toolset_raised, tool_outcome \<times> tool_counts) worker" where
  "evidence_tool ts tool arguments c =
     (case dget EVIDENCE_TOOL_ALIASES tool of
        None \<Rightarrow> raiseW (Unknown_alias tool)
      | Some name \<Rightarrow>
          tryW (bindW (execute_tool (tt_toolbox ts) name arguments c) (\<lambda>(r, c'). returnW (outcome_of_result r, c')))
            (\<lambda>e. raiseW (Tool_raised e)))"

definition evidence_listing :: "evidence_record list \<Rightarrow> json list" where
  "evidence_listing listed = map (\<lambda>r. JObj
     [(''evidence_id'', jid (ec_evidence_id r)), (''evidence_type'', JStr (evidence_type_value (ec_evidence_type r))),
      (''operation'', JStr (ec_operation r)), (''service'', JStr (ec_subject_service r)),
      (''observed_at'', JStr (isoformat (ec_observed_at r))), (''summary'', JStr (take 300 (ec_summary r)))]) listed"

definition incident_evidence :: "'v toolset \<Rightarrow> json dict \<Rightarrow> evidence_record list \<Rightarrow> tool_outcome" where
  "incident_evidence ts arguments all_records =
     (case tt_listing ts arguments of
        Inl msg \<Rightarrow>
          \<lparr>to_ok = False,
           to_observation = compact_text (JObj [(''error'', JObj [(''code'', JStr ''invalid_argument''), (''message'', JStr msg)])])
             MAX_RESULT_CHARS,
           to_evidence_ids = [], to_new_evidence = 0, to_error_code = Some ''invalid_argument'', to_summary = None,
           to_latency_ms = 0\<rparr>
      | Inr limit \<Rightarrow>
          let records = get_incident_evidence (tc_incident_id (tx_context (tt_toolbox ts))) all_records;
              listed = drop (length records - nat limit) records
          in \<lparr>to_ok = True,
              to_observation = compact_text (JObj
                [(''total_recorded'', JInt (int (length records))), (''evidence'', JList (evidence_listing listed))])
                MAX_RESULT_CHARS,
              to_evidence_ids = map (\<lambda>r. uuid_str (ec_evidence_id r)) listed, to_new_evidence = 0, to_error_code = None,
              to_summary = Some (str_int (int (length listed)) @ '' of '' @ str_int (int (length records))
                @ '' recorded evidence items listed''),
              to_latency_ms = 0\<rparr>)"

definition toolset_execute ::
  "'v toolset \<Rightarrow> string \<Rightarrow> json dict \<Rightarrow> tool_counts \<Rightarrow>
   (evidence_record list \<times> 'v, toolset_raised, tool_outcome \<times> tool_counts) worker" where
  "toolset_execute ts tool arguments c = (\<lambda>w.
     (case (if tool = GET_INCIDENT_EVIDENCE
            then returnW (incident_evidence ts arguments (fst (snd w)), c) else evidence_tool ts tool arguments c) w of
        (Inl e, w') \<Rightarrow> (Inl e, w')
      | (Inr (t, c'), w') \<Rightarrow> (Inr (t\<lparr>to_latency_ms := tt_latency ts w w'\<rparr>, c'), w')))"

subsection \<open>What the model sees\<close>

lemma compact_fits:
  assumes "60 \<le> limit"
  shows "int (length (compact_text v limit)) \<le> limit"
proof -
  let ?t = "shrink limit 8 v"
  have "length TRUNCATED \<le> 60" by (simp add: TRUNCATED_def)
  moreover have "length (slice_to (limit - 60) ?t) \<le> nat (limit - 60)" using assms by (simp add: slice_to_def)
  ultimately have "int (length (slice_to (limit - 60) ?t @ TRUNCATED)) \<le> limit" using assms by simp
  then show ?thesis by (simp add: compact_text_def Let_def)
qed

lemma compact_max: "int (length (compact_text v MAX_RESULT_CHARS)) \<le> MAX_RESULT_CHARS"
  by (rule compact_fits) (simp add: MAX_RESULT_CHARS_def)

lemma evidence_recorded:
  assumes "collect_evidence ev i by k req w = (Inr item, w')"
  shows "\<exists>r \<in> set (fst (snd w')). ec_evidence_id r = ei_evidence_id item \<and> ec_incident_id r = i"
  using assms
proof (rule collected)
  fix r scope ob t e n
  assume r: "r = new_evidence_record scope ob by k t e n" "sc_incident_id scope = i" "item = to_item r"
    "get_record (ec_evidence_id r) (fst (snd w')) = Some r"
  have "r \<in> set (fst (snd w'))" using r(4) by (auto simp: get_record_def find_Some_iff)
  moreover have "ec_incident_id r = i" using r(1,2) by (simp add: new_evidence_record_def Let_def)
  moreover have "ec_evidence_id r = ei_evidence_id item" using r(3) by (simp add: to_item_def)
  ultimately show ?thesis by blast
qed

lemma attempt_success:
  assumes "attempt_tool tb tool req attempt left w = (Inr (Tool_success name item), w')"
  shows "\<exists>r \<in> set (fst (snd w')). ec_evidence_id r = ei_evidence_id item \<and> ec_incident_id r = tc_incident_id (tx_context tb)"
  using assms
proof (induction left arbitrary: attempt w)
  case 0
  then show ?case by (simp add: raiseW_def)
next
  case (Suc left)
  let ?collect = "collect_evidence (tx_service tb) (tc_incident_id (tx_context tb)) (''tool:'' @ tool)
    (tc_investigation_id (tx_context tb)) req"
  obtain r w1 where c: "?collect w = (r, w1)" by (rule prod.exhaust)
  consider item' where "r = Inr item'" | err where "r = Inl (Core_failed err)" | err where "r = Inl (Evidence_failed err)"
    by (metis sum.exhaust evidence_raised.exhaust)
  then show ?case
  proof cases
    case 1
    then have "?collect w = (Inr item, w')" using Suc.prems c by (simp add: tryW_def bindW_app returnW_app)
    then show ?thesis by (rule evidence_recorded)
  next
    case (2 err)
    then show ?thesis using Suc.prems c by (simp add: tryW_def bindW_app raiseW_app)
  next
    case (3 err)
    then have "attempt_tool tb tool req (attempt + 1) left
        (tx_sleep tb (fmul (tb_retry_backoff_seconds (tx_budget tb)) (of_nat attempt)) w1) = (Inr (Tool_success name item), w')"
      using Suc.prems c by (auto simp: tryW_def bindW_app thenW_app askW_def returnW_app split: if_splits)
    then show ?thesis by (rule Suc.IH)
  qed
qed

lemma result_observation: "int (length (to_observation (outcome_of_result r))) \<le> MAX_RESULT_CHARS"
  by (cases r) (simp_all add: compact_max)

lemma listing_observation:
  "int (length (to_observation (incident_evidence ts arguments records))) \<le> MAX_RESULT_CHARS"
  by (simp add: incident_evidence_def compact_max Let_def split: sum.split)

lemma listing_ids:
  "e \<in> set (to_evidence_ids (incident_evidence ts arguments records)) \<Longrightarrow>
    \<exists>r \<in> set records. uuid_str (ec_evidence_id r) = e \<and> ec_incident_id r = tc_incident_id (tx_context (tt_toolbox ts))"
  by (auto simp: incident_evidence_def Let_def get_incident_evidence_def split: sum.splits dest!: in_set_dropD)

text \<open>
  C40. Whatever a model asks for, what it sees of a tool call fits the limit of 6000 characters, and every evidence id it is
  shown belongs to a record of the one incident the toolset is bound to.
\<close>

theorem tool_outcome_bounded:
  assumes "toolset_execute ts tool arguments c w = (Inr (t, c'), w')"
  shows "int (length (to_observation t)) \<le> MAX_RESULT_CHARS \<and>
    (\<forall>e \<in> set (to_evidence_ids t). \<exists>r \<in> set (fst (snd w')). uuid_str (ec_evidence_id r) = e \<and>
       ec_incident_id r = tc_incident_id (tx_context (tt_toolbox ts)))"
proof (cases "tool = GET_INCIDENT_EVIDENCE")
  case True
  have "t = (incident_evidence ts arguments (fst (snd w)))\<lparr>to_latency_ms := tt_latency ts w w'\<rparr>" "w' = w"
    using assms True by (auto simp: toolset_execute_def returnW_app)
  moreover have "int (length (to_observation (incident_evidence ts arguments (fst (snd w))))) \<le> MAX_RESULT_CHARS"
    by (rule listing_observation)
  moreover have "\<forall>e \<in> set (to_evidence_ids (incident_evidence ts arguments (fst (snd w)))).
      \<exists>r \<in> set (fst (snd w)). uuid_str (ec_evidence_id r) = e \<and>
        ec_incident_id r = tc_incident_id (tx_context (tt_toolbox ts))"
    using listing_ids by blast
  ultimately show ?thesis by simp
next
  case False
  then obtain t0 where run: "evidence_tool ts tool arguments c w = (Inr (t0, c'), w')"
    and t: "t = t0\<lparr>to_latency_ms := tt_latency ts w w'\<rparr>"
    using assms by (auto simp: toolset_execute_def split: prod.splits sum.splits)
  obtain name r where exec: "execute_tool (tt_toolbox ts) name arguments c w = (Inr (r, c'), w')"
    and t0: "t0 = outcome_of_result r"
    using run by (auto simp: evidence_tool_def tryW_def bindW_app returnW_app raiseW_app
        split: option.splits prod.splits sum.splits)
  have "\<exists>r \<in> set (fst (snd w')). uuid_str (ec_evidence_id r) = e \<and>
       ec_incident_id r = tc_incident_id (tx_context (tt_toolbox ts))" if "e \<in> set (to_evidence_ids t)" for e
  proof (cases r)
    case (Tool_success tool' item)
    then obtain parsed where "attempt_tool (tt_toolbox ts) name (tool_request parsed) 1
        (tb_max_attempts_per_call (tx_budget (tt_toolbox ts))) w = (Inr (Tool_success tool' item), w')"
      using exec by (auto simp: execute_tool_def call_refused_def split: option.splits sum.splits if_splits)
    from attempt_success [OF this] obtain rec where "rec \<in> set (fst (snd w'))" "ec_evidence_id rec = ei_evidence_id item"
      "ec_incident_id rec = tc_incident_id (tx_context (tt_toolbox ts))" by blast
    moreover have "e = uuid_str (ei_evidence_id item)" using that Tool_success by (simp add: t t0)
    ultimately show ?thesis by metis
  qed (use that in \<open>simp add: t t0\<close>)
  then show ?thesis using result_observation by (simp add: t t0)
qed

definition sample_toolset :: "unit toolset" where
  "sample_toolset = \<lparr>tt_toolbox = sample_toolbox, tt_listing = \<lambda>_. Inr 20, tt_latency = \<lambda>_ _. 3\<rparr>"

theorem tool_outcome_bounded_witness:
  "\<exists>t c' w'. toolset_execute sample_toolset ''search_similar_incidents'' [] (initial_counts [])
     (sample_db INVESTIGATING, ([], ())) = (Inr (t, c'), w') \<and> to_new_evidence t = 1 \<and>
     int (length (to_observation t)) \<le> MAX_RESULT_CHARS"
proof -
  obtain item c' w' where one: "execute_tool sample_toolbox ''search_historical_incidents'' [] (initial_counts [])
      (sample_db INVESTIGATING, ([], ())) = (Inr (Tool_success ''search_historical_incidents'' item, c'), w')"
    using sample_tool_call by blast
  have "evidence_tool sample_toolset ''search_similar_incidents'' [] (initial_counts []) (sample_db INVESTIGATING, ([], ())) =
      (Inr (outcome_of_result (Tool_success ''search_historical_incidents'' item), c'), w')"
    using one by (simp add: evidence_tool_def EVIDENCE_TOOL_ALIASES_def dget_def sample_toolset_def tryW_def bindW_app
        returnW_app del: outcome_of_result.simps)
  then have run: "toolset_execute sample_toolset ''search_similar_incidents'' [] (initial_counts [])
      (sample_db INVESTIGATING, ([], ())) =
      (Inr ((outcome_of_result (Tool_success ''search_historical_incidents'' item))\<lparr>to_latency_ms := 3\<rparr>, c'), w')"
    by (simp add: toolset_execute_def GET_INCIDENT_EVIDENCE_def sample_toolset_def del: outcome_of_result.simps)
  have "to_new_evidence ((outcome_of_result (Tool_success ''search_historical_incidents'' item))\<lparr>to_latency_ms := 3\<rparr>) = 1"
    by simp
  with tool_outcome_bounded [OF run] run show ?thesis by blast
qed

subsection \<open>A series that is shortened twice\<close>

text \<open>
  Shortening a series keeps its first and last point, but the marker appended to it makes the result an ordinary list: if the
  text is still too long, the next round keeps only its head, the oldest points.
\<close>

lemma second_round_keeps_the_head:
  assumes "is_series node" "8 < length node" "4 < length (series_picks (length node) 8)"
  shows "trim_lists 4 (trim_lists 8 (JList node)) =
    JList (map (\<lambda>i. trim_lists 4 (node ! nat i)) (take 4 (series_picks (length node) 8)) @
      [JStr (''... '' @ str_int (int (length (series_picks (length node) 8)) - 3) @ '' more'')])"
proof -
  let ?picks = "map (\<lambda>i. node ! nat i) (series_picks (length node) 8)"
  let ?marker = "JStr (''... downsampled from '' @ str_int (int (length node)) @ '' points'')"
  have "\<not> is_series (?picks @ [?marker])" by (simp add: is_series_def is_point_def)
  then show ?thesis using assms by (simp add: take_map)
qed

end
