(* ===== verification/Streams.thy ===== *)
theory Streams
  imports Repository
begin

text \<open>
  \<^verbatim>\<open>packages/events/streams.py\<close> and \<^verbatim>\<open>envelope.py\<close>: the envelope of an outbox event, the names of the sharded streams
  and the shard an event belongs to. The text of a \<^verbatim>\<open>uuid5\<close>, which names the aggregate of a kill switch, is a parameter.
\<close>

subsection \<open>The envelope\<close>

record event_envelope =
  en_event_id :: uuid
  en_event_type :: event_type
  en_schema_version :: int
  en_aggregate_type :: aggregate_type
  en_aggregate_id :: aggregate_ref
  en_occurred_at :: datetime
  en_correlation_id :: "uuid option"
  en_causation_id :: "uuid option"
  en_producer :: string
  en_payload :: event_payload

definition envelope_from_row :: "outbox_event_row \<Rightarrow> event_envelope" where
  "envelope_from_row row =
     \<lparr>en_event_id = o_event_id row, en_event_type = o_event_type row, en_schema_version = o_schema_version row,
      en_aggregate_type = o_aggregate_type row, en_aggregate_id = o_aggregate_id row, en_occurred_at = o_occurred_at row,
      en_correlation_id = o_correlation_id row, en_causation_id = o_causation_id row, en_producer = o_producer row,
      en_payload = o_payload row\<rparr>"

subsection \<open>Streams and shards\<close>

definition DEFAULT_STREAM_PREFIX :: string where
  "DEFAULT_STREAM_PREFIX = ''stream:events''"

definition DEFAULT_SHARD_COUNT :: int where
  "DEFAULT_SHARD_COUNT = 8"

definition DLQ_SUFFIX :: string where
  "DLQ_SUFFIX = ''dlq''"

definition shard_for_key :: "string \<Rightarrow> int \<Rightarrow> int" where
  "shard_for_key key shard_count = int_from_bytes (take 8 (sha256 (bytes_of_string key))) mod shard_count"

definition shard_key_for_event :: "(string \<Rightarrow> string) \<Rightarrow> uuid option \<Rightarrow> aggregate_ref \<Rightarrow> string" where
  "shard_key_for_event uuid5_text correlation_id aggregate_id =
     (case correlation_id of
        Some c \<Rightarrow> uuid_str c
      | None \<Rightarrow> (case aggregate_id of Agg_id u \<Rightarrow> uuid_str u | Agg_name n \<Rightarrow> uuid5_text n))"

definition stream_name_for_shard :: "string \<Rightarrow> int \<Rightarrow> string" where
  "stream_name_for_shard stream_prefix shard = stream_prefix @ '':'' @ str_int shard"

definition stream_name_for_event :: "(string \<Rightarrow> string) \<Rightarrow> string \<Rightarrow> int \<Rightarrow> uuid option \<Rightarrow> aggregate_ref \<Rightarrow> string" where
  "stream_name_for_event uuid5_text stream_prefix shard_count correlation_id aggregate_id =
     stream_name_for_shard stream_prefix
       (shard_for_key (shard_key_for_event uuid5_text correlation_id aggregate_id) shard_count)"

definition all_stream_names :: "string \<Rightarrow> int \<Rightarrow> string list" where
  "all_stream_names stream_prefix shard_count = map (stream_name_for_shard stream_prefix) [0..shard_count - 1]"

definition dead_letter_stream_name :: "string \<Rightarrow> string" where
  "dead_letter_stream_name stream_prefix = stream_prefix @ '':'' @ DLQ_SUFFIX"

definition consumer_group_name :: "string \<Rightarrow> string" where
  "consumer_group_name purpose = ''cg:'' @ purpose"

lemma shard_range: "0 < n \<Longrightarrow> 0 \<le> shard_for_key key n \<and> shard_for_key key n < n"
  by (simp add: shard_for_key_def)

text \<open>Every event lands on a stream that some consumer of the group reads.\<close>

lemma event_stream_consumed:
  "0 < n \<Longrightarrow> stream_name_for_event h p n c a \<in> set (all_stream_names p n)"
  using shard_range [of n "shard_key_for_event h c a"]
  by (auto simp: stream_name_for_event_def all_stream_names_def)

text \<open>The events of an incident land on one stream, whatever they are about.\<close>

lemma incident_stream: "stream_name_for_event h p n (Some c) a = stream_name_for_event h p n (Some c) b"
  by (simp add: stream_name_for_event_def shard_key_for_event_def)

lemma last_str_int: "str_int i \<noteq> [] \<and> (\<exists>d < 10. last (str_int i) = digit_char d)"
proof (induction i rule: str_int.induct)
  case (1 i)
  consider "i < 0" | "0 \<le> i" "i < 10" | "10 \<le> i" by linarith
  then show ?case
  proof cases
    case 1
    then show ?thesis using "1.IH"(1) by (simp add: str_int.simps [of i])
  next
    case 2
    then show ?thesis by (intro conjI exI [of _ "nat i"]) (simp_all add: str_int.simps [of i])
  next
    case 3
    then show ?thesis by (intro conjI exI [of _ "nat (i mod 10)"]) (simp_all add: str_int.simps [of i])
  qed
qed

text \<open>The dead letters have a stream of their own, which no consumer of the events reads.\<close>

lemma dead_letters_apart: "dead_letter_stream_name p \<notin> set (all_stream_names p n)"
proof
  assume "dead_letter_stream_name p \<in> set (all_stream_names p n)"
  then obtain i where "''dlq'' = str_int i"
    by (auto simp: dead_letter_stream_name_def all_stream_names_def stream_name_for_shard_def DLQ_SUFFIX_def)
  with last_str_int [of i] have "\<exists>d < 10. last ''dlq'' = digit_char d" by metis
  then obtain d where d: "d < 10" "digit_char d = CHR ''q''" by auto
  have "\<forall>d < 10. digit_char d \<noteq> CHR ''q''" by code_simp
  with d show False by blast
qed

end
