(* ===== verification/Relay.thy ===== *)
theory Relay
  imports Streams Workers
begin

text \<open>
  The outbox relay \<^verbatim>\<open>apps/worker/main.py\<close> and the publisher \<^verbatim>\<open>packages/events/publisher.py\<close>: a pass reads a batch of
  unpublished events, hands each to the publisher, and commits for each whether it was published. The publisher and
  the pause between attempts belong to the outside, which keeps a log of the envelopes the publisher accepted.
\<close>

subsection \<open>The publisher\<close>

text \<open>A publisher answers \<open>None\<close> or the text of the exception it raised.\<close>

type_synonym 'v publisher = "event_envelope \<Rightarrow> 'v world \<Rightarrow> string option \<times> 'v world"

definition redis_publisher ::
  "(string \<Rightarrow> (string \<times> string) list \<Rightarrow> 'v world \<Rightarrow> string option \<times> 'v world) \<Rightarrow> (event_envelope \<Rightarrow> string) \<Rightarrow>
   (string \<Rightarrow> string) \<Rightarrow> string \<Rightarrow> int \<Rightarrow> 'v publisher" where
  "redis_publisher xadd dump uuid5_text stream_prefix shard_count e =
     xadd (stream_name_for_event uuid5_text stream_prefix shard_count (en_correlation_id e) (en_aggregate_id e))
       [(''event'', dump e)]"

subsection \<open>One pass\<close>

record 'v relay =
  rl_tick :: "'v \<Rightarrow> clock \<times> 'v"
  rl_publish :: "'v publisher"
  rl_sleep :: "float64 \<Rightarrow> 'v world \<Rightarrow> 'v world"

type_synonym ('v, 'a) relay_worker = "(event_envelope list \<times> 'v, error, 'a) worker"

definition DEFAULT_MAX_PUBLISH_ATTEMPTS :: nat where
  "DEFAULT_MAX_PUBLISH_ATTEMPTS = 3"

definition DEFAULT_RETRY_BACKOFF_SECONDS :: float64 where
  "DEFAULT_RETRY_BACKOFF_SECONDS = 1 / 2"

definition relayW :: "'v relay \<Rightarrow> (clock \<Rightarrow> 'a cmd) \<Rightarrow> ('v, 'a) relay_worker" where
  "relayW rl m = commandW (\<lambda>(accepted, v). case rl_tick rl v of (clk, v') \<Rightarrow> (clk, (accepted, v'))) id (\<lambda>clk. run_tx (m clk))"

definition publishW :: "'v relay \<Rightarrow> event_envelope \<Rightarrow> ('v, string option) relay_worker" where
  "publishW rl e = (\<lambda>(s, (accepted, v)). case rl_publish rl e (s, v) of
     (r, (s', v')) \<Rightarrow> (Inr r, (s', (if r = None then accepted @ [e] else accepted, v'))))"

definition pauseW :: "'v relay \<Rightarrow> float64 \<Rightarrow> ('v, unit) relay_worker" where
  "pauseW rl period = (\<lambda>(s, (accepted, v)). case rl_sleep rl period (s, v) of (s', v') \<Rightarrow> (Inr (), (s', (accepted, v'))))"

fun publish_attempts ::
  "'v relay \<Rightarrow> event_envelope \<Rightarrow> nat \<Rightarrow> float64 \<Rightarrow> nat \<Rightarrow> nat \<Rightarrow> string option \<Rightarrow> ('v, bool \<times> string option) relay_worker" where
  "publish_attempts rl e max_attempts backoff attempt 0 last_error = returnW (False, last_error)"
| "publish_attempts rl e max_attempts backoff attempt (Suc left) last_error =
     bindW (publishW rl e) (\<lambda>raised. case raised of
       None \<Rightarrow> returnW (True, None)
     | Some err \<Rightarrow>
         thenW (if attempt < max_attempts then pauseW rl (fmul backoff (of_nat attempt)) else returnW ())
           (publish_attempts rl e max_attempts backoff (attempt + 1) left (Some err)))"

definition publish_with_retry :: "'v relay \<Rightarrow> event_envelope \<Rightarrow> nat \<Rightarrow> float64 \<Rightarrow> ('v, bool \<times> string option) relay_worker" where
  "publish_with_retry rl e max_attempts backoff = publish_attempts rl e max_attempts backoff 1 max_attempts None"

definition or_unknown :: "string option \<Rightarrow> string" where
  "or_unknown err = (case err of Some (c # cs) \<Rightarrow> c # cs | _ \<Rightarrow> ''unknown error'')"

fun relay_rows :: "'v relay \<Rightarrow> nat \<Rightarrow> float64 \<Rightarrow> outbox_event_row list \<Rightarrow> nat \<Rightarrow> ('v, nat) relay_worker" where
  "relay_rows rl max_attempts backoff [] published_count = returnW published_count"
| "relay_rows rl max_attempts backoff (row # rows) published_count =
     bindW (publish_with_retry rl (envelope_from_row row) max_attempts backoff) (\<lambda>(success, err).
       if success
       then thenW (relayW rl (\<lambda>clk. mark_outbox_event_published clk (o_sequence row)))
              (relay_rows rl max_attempts backoff rows (published_count + 1))
       else thenW (relayW rl (\<lambda>clk. mark_outbox_event_publish_failed (o_sequence row) (or_unknown err)))
              (relay_rows rl max_attempts backoff rows published_count))"

definition relay_once :: "'v relay \<Rightarrow> nat \<Rightarrow> nat \<Rightarrow> float64 \<Rightarrow> ('v, nat) relay_worker" where
  "relay_once rl batch_size max_attempts backoff =
     bindW (relayW rl (\<lambda>_. get_unpublished_outbox_events batch_size))
       (\<lambda>rows. relay_rows rl max_attempts backoff rows 0)"

subsection \<open>What a pass does to the outbox\<close>

text \<open>Of the outside it is assumed that whatever happens meanwhile only appends to the outbox, as every command does.\<close>

definition appends :: "db \<Rightarrow> db \<Rightarrow> bool" where
  "appends s s' \<longleftrightarrow> prefix (outbox s) (outbox s')"

definition relay_appends :: "'v relay \<Rightarrow> bool" where
  "relay_appends rl \<longleftrightarrow> (\<forall>e w. appends (fst w) (fst (snd (rl_publish rl e w)))) \<and>
     (\<forall>x w. appends (fst w) (fst (rl_sleep rl x w)))"

lemma history_appends:
  assumes "well_configured sys" "core_inv {} s" "history sys s s'"
  shows "appends s s'"
proof -
  obtain cs where "s' = run sys cs s" using assms(3) by (auto simp: history_def)
  then have "announced s s'" using san.run_step [OF assms(1,2)] by simp
  then show ?thesis by (auto simp: announced_def appends_def)
qed

text \<open>The old rows of the outbox after some sequence numbers have been marked.\<close>

definition row_after :: "int set \<Rightarrow> outbox_event_row \<Rightarrow> outbox_event_row \<Rightarrow> bool" where
  "row_after Q r r' \<longleftrightarrow> envelope_from_row r' = envelope_from_row r \<and> o_sequence r' = o_sequence r \<and>
     (o_published_at r' \<noteq> None \<longleftrightarrow> o_published_at r \<noteq> None \<or> o_sequence r \<in> Q)"

definition marked :: "db \<Rightarrow> int set \<Rightarrow> db \<Rightarrow> bool" where
  "marked s0 Q s \<longleftrightarrow> (\<exists>old new. outbox s = old @ new \<and> list_all2 (row_after Q) (outbox s0) old)"

lemma marked_refl: "marked s {} s"
  unfolding marked_def by (intro exI [of _ "outbox s"] exI [of _ "[]"]) (simp add: list_all2_refl row_after_def)

lemma marked_appends: "marked s0 Q s \<Longrightarrow> appends s s' \<Longrightarrow> marked s0 Q s'"
  by (fastforce simp: marked_def appends_def prefix_def)

lemma marked_update:
  assumes "marked s0 Q s" "\<And>r0 r. row_after Q r0 r \<Longrightarrow> row_after Q' r0 (if o_sequence r = q then f r else r)"
  shows "marked s0 Q' (set_outbox q f s)"
proof -
  let ?g = "\<lambda>r. if o_sequence r = q then f r else r"
  obtain old new where "outbox s = old @ new" "list_all2 (row_after Q) (outbox s0) old"
    using assms(1) by (auto simp: marked_def)
  then have "outbox (set_outbox q f s) = map ?g old @ map ?g new" "list_all2 (row_after Q') (outbox s0) (map ?g old)"
    using assms(2) by (auto simp: set_outbox_def update_rows_def list_all2_conv_all_nth)
  then show ?thesis unfolding marked_def by blast
qed

lemma marked_published:
  "marked s0 Q s \<Longrightarrow> run_tx (mark_outbox_event_published clk q) s = (x, s') \<Longrightarrow> x = Inr () \<and> marked s0 (insert q Q) s'"
  by (auto simp: run_tx_def mark_outbox_event_published_def tx_run envelope_from_row_def row_after_def elim!: marked_update)

lemma marked_failed:
  "marked s0 Q s \<Longrightarrow> run_tx (mark_outbox_event_publish_failed q err) s = (x, s') \<Longrightarrow> x = Inr () \<and> marked s0 Q s'"
  by (auto simp: run_tx_def mark_outbox_event_publish_failed_def tx_run envelope_from_row_def row_after_def elim!: marked_update)

lemma publish_attempts_result:
  assumes "relay_appends rl"
  shows "\<exists>ok err s' v'. publish_attempts rl e m b k left earlier (s, (accepted, v)) =
      (Inr (ok, err), (s', (if ok then accepted @ [e] else accepted, v'))) \<and> appends s s' \<and>
      ((\<forall>w. fst (rl_publish rl e w) = None) \<longrightarrow> 0 < left \<longrightarrow> ok)"
proof (induction left arbitrary: k earlier s v)
  case 0
  then show ?case by (simp add: returnW_app appends_def)
next
  case (Suc left)
  obtain r s1 v1 where p: "rl_publish rl e (s, v) = (r, (s1, v1))" by (metis prod.exhaust)
  have s1: "appends s s1" using assms p unfolding relay_appends_def by (metis fst_conv snd_conv)
  show ?case
  proof (cases r)
    case None
    then show ?thesis using s1 by (simp add: publishW_def p bindW_app returnW_app)
  next
    case (Some err)
    obtain s2 v2 where q: "(if k < m then pauseW rl (fmul b (of_nat k)) else returnW ()) (s1, (accepted, v1)) =
        (Inr (), (s2, (accepted, v2)))" and s2: "appends s1 s2"
    proof (cases "k < m")
      case True
      obtain s2 v2 where "rl_sleep rl (fmul b (of_nat k)) (s1, v1) = (s2, v2)" by (rule prod.exhaust)
      moreover from this have "appends s1 s2" using assms unfolding relay_appends_def by (metis fst_conv)
      ultimately show ?thesis using that True by (simp add: pauseW_def)
    qed (use that in \<open>simp add: returnW_app appends_def\<close>)
    from Suc.IH [of "k + 1" "Some err" s2 v2] obtain ok err' s' v'
      where "publish_attempts rl e m b (k + 1) left (Some err) (s2, (accepted, v2)) =
        (Inr (ok, err'), (s', (if ok then accepted @ [e] else accepted, v')))" "appends s2 s'" by blast
    moreover have "appends s s'" using s1 s2 calculation(2) unfolding appends_def by (meson prefix_order.order_trans)
    moreover have "\<exists>w. fst (rl_publish rl e w) \<noteq> None" using p Some by (metis fst_conv option.distinct(1))
    ultimately show ?thesis using Some q
      by (intro exI [of _ ok] exI [of _ err'] exI [of _ s'] exI [of _ v'])
        (simp add: publishW_def p bindW_app thenW_app del: split_paired_All split_paired_Ex, metis option.distinct(1))
  qed
qed

lemma relayW_run:
  assumes "\<And>clk. \<exists>s'. run_tx (m clk) s = (Inr x, s') \<and> P s'"
  shows "\<exists>s' v'. relayW rl m (s, (accepted, v)) = (Inr x, (s', (accepted, v'))) \<and> P s'"
proof -
  obtain clk v' where "rl_tick rl v = (clk, v')" by (rule prod.exhaust)
  moreover from assms [of clk] obtain s' where "run_tx (m clk) s = (Inr x, s')" "P s'" by blast
  ultimately show ?thesis by (simp add: relayW_def commandW_def)
qed

lemma relay_rows_result:
  assumes "relay_appends rl" "marked s0 Q s"
  shows "\<exists>sent s' v'. relay_rows rl m b rows n (s, (accepted, v)) =
      (Inr (n + length sent), (s', (accepted @ map envelope_from_row sent, v'))) \<and> subseq sent rows \<and>
      marked s0 (Q \<union> o_sequence ` set sent) s' \<and>
      ((\<forall>e w. fst (rl_publish rl e w) = None) \<longrightarrow> 0 < m \<longrightarrow> sent = rows)"
  using assms(2)
proof (induction rows arbitrary: n s accepted v Q)
  case Nil
  then show ?case by (intro exI [of _ "[]"]) (simp add: returnW_app)
next
  case (Cons row rows)
  let ?e = "envelope_from_row row"
  obtain ok err s1 v1 where p: "publish_with_retry rl ?e m b (s, (accepted, v)) =
      (Inr (ok, err), (s1, (if ok then accepted @ [?e] else accepted, v1)))" "appends s s1"
      "(\<forall>w. fst (rl_publish rl ?e w) = None) \<longrightarrow> 0 < m \<longrightarrow> ok"
    using publish_attempts_result [OF assms(1)] unfolding publish_with_retry_def by blast
  have s1: "marked s0 Q s1" using Cons.prems p(2) by (rule marked_appends)
  show ?case
  proof (cases ok)
    case True
    have "\<exists>s2 v2. relayW rl (\<lambda>clk. mark_outbox_event_published clk (o_sequence row)) (s1, (accepted @ [?e], v1)) =
        (Inr (), (s2, (accepted @ [?e], v2))) \<and> marked s0 (insert (o_sequence row) Q) s2"
      by (rule relayW_run) (use marked_published [OF s1] in \<open>metis prod.exhaust\<close>)
    then obtain s2 v2 where q: "relayW rl (\<lambda>clk. mark_outbox_event_published clk (o_sequence row)) (s1, (accepted @ [?e], v1)) =
        (Inr (), (s2, (accepted @ [?e], v2)))" and s2: "marked s0 (insert (o_sequence row) Q) s2" by blast
    from Cons.IH [OF s2, of "n + 1" "accepted @ [?e]" v2] obtain sent s' v'
      where ih: "relay_rows rl m b rows (n + 1) (s2, (accepted @ [?e], v2)) =
          (Inr (n + 1 + length sent), (s', ((accepted @ [?e]) @ map envelope_from_row sent, v')))"
        "subseq sent rows" "marked s0 (insert (o_sequence row) Q \<union> o_sequence ` set sent) s'"
        "(\<forall>e w. fst (rl_publish rl e w) = None) \<longrightarrow> 0 < m \<longrightarrow> sent = rows" by blast
    show ?thesis
      by (intro exI [of _ "row # sent"] exI [of _ s'] exI [of _ v'])
        (use ih True p q in \<open>simp add: bindW_app thenW_app\<close>)
  next
    case False
    have "\<exists>s2 v2. relayW rl (\<lambda>clk. mark_outbox_event_publish_failed (o_sequence row) (or_unknown err)) (s1, (accepted, v1)) =
        (Inr (), (s2, (accepted, v2))) \<and> marked s0 Q s2"
      by (rule relayW_run) (use marked_failed [OF s1] in \<open>metis prod.exhaust\<close>)
    then obtain s2 v2 where q: "relayW rl (\<lambda>clk. mark_outbox_event_publish_failed (o_sequence row) (or_unknown err))
        (s1, (accepted, v1)) = (Inr (), (s2, (accepted, v2)))" and s2: "marked s0 Q s2" by blast
    from Cons.IH [OF s2, of n accepted v2] obtain sent s' v'
      where ih: "relay_rows rl m b rows n (s2, (accepted, v2)) =
          (Inr (n + length sent), (s', (accepted @ map envelope_from_row sent, v')))"
        "subseq sent rows" "marked s0 (Q \<union> o_sequence ` set sent) s'" by blast
    show ?thesis
      by (intro exI [of _ sent] exI [of _ s'] exI [of _ v']) (use ih False p q in \<open>auto simp: bindW_app thenW_app\<close>)
  qed
qed

subsection \<open>What a pass promises\<close>

lemma subseq_set: "subseq xs ys \<Longrightarrow> set xs \<subseteq> set ys"
  unfolding subseq_conv_nths using set_nths_subset by fastforce

lemma unpublished_rows: "set (unpublished s) \<subseteq> set (outbox s)"
  by (auto simp: unpublished_def)

lemma relay_once_result:
  assumes "relay_appends rl" "distinct (map o_sequence (outbox s))"
  shows "\<exists>sent s' v'. relay_once rl batch m b (s, (accepted, v)) =
      (Inr (length sent), (s', (accepted @ map envelope_from_row sent, v'))) \<and> subseq sent (take batch (unpublished s)) \<and>
      list_all2 (\<lambda>r r'. envelope_from_row r' = envelope_from_row r \<and>
        (o_published_at r' \<noteq> None \<longleftrightarrow> o_published_at r \<noteq> None \<or> r \<in> set sent))
        (outbox s) (take (length (outbox s)) (outbox s')) \<and>
      ((\<forall>e w. fst (rl_publish rl e w) = None) \<longrightarrow> 0 < m \<longrightarrow> sent = take batch (unpublished s))"
proof -
  let ?rows = "take batch (unpublished s)"
  have "\<exists>s1 v1. relayW rl (\<lambda>_. get_unpublished_outbox_events batch) (s, (accepted, v)) = (Inr ?rows, (s1, (accepted, v1))) \<and> s1 = s"
    by (rule relayW_run) (simp add: run_tx_def get_unpublished_outbox_events_def tx_run)
  then obtain v1 where read: "relayW rl (\<lambda>_. get_unpublished_outbox_events batch) (s, (accepted, v)) = (Inr ?rows, (s, (accepted, v1)))"
    by blast
  obtain sent s' v' where rows: "relay_rows rl m b ?rows 0 (s, (accepted, v1)) =
      (Inr (0 + length sent), (s', (accepted @ map envelope_from_row sent, v')))" and sub: "subseq sent ?rows"
    and marked: "marked s ({} \<union> o_sequence ` set sent) s'"
    and all: "(\<forall>e w. fst (rl_publish rl e w) = None) \<longrightarrow> 0 < m \<longrightarrow> sent = ?rows"
    using relay_rows_result [OF assms(1) marked_refl, of m b ?rows 0 s accepted v1] by blast
  have "set sent \<subseteq> set ?rows" using sub by (rule subseq_set)
  also have "\<dots> \<subseteq> set (outbox s)" by (rule subset_trans [OF set_take_subset unpublished_rows])
  finally have known: "set sent \<subseteq> set (outbox s)" .
  have seq: "o_sequence r \<in> o_sequence ` set sent \<longleftrightarrow> r \<in> set sent" if "r \<in> set (outbox s)" for r
  proof (rule inj_on_image_mem_iff)
    show "inj_on o_sequence (set (outbox s))" using assms(2) by (simp add: distinct_map)
  qed (rule that, rule known)
  obtain old new where s': "outbox s' = old @ new" "list_all2 (row_after (o_sequence ` set sent)) (outbox s) old"
    using marked by (auto simp: marked_def)
  have "list_all2 (\<lambda>r r'. envelope_from_row r' = envelope_from_row r \<and>
      (o_published_at r' \<noteq> None \<longleftrightarrow> o_published_at r \<noteq> None \<or> r \<in> set sent)) (outbox s) old"
    using s'(2) by (rule list.rel_mono_strong) (use seq in \<open>auto simp: row_after_def\<close>)
  moreover have "take (length (outbox s)) (outbox s') = old" using s' list_all2_lengthD [OF s'(2)] by simp
  ultimately show ?thesis using read rows sub all
    by (intro exI [of _ sent] exI [of _ s'] exI [of _ v']) (simp add: relay_once_def bindW_app)
qed

text \<open>
  C15. At-least-once publishing: an event is marked published only after the publisher has accepted it, and every event it
  accepted is marked; the accepted ones are, in the order of the outbox, among the first unpublished events; nothing else
  about an event changes, and the pass returns their number whatever fails.
\<close>

theorem relay_marks_what_was_accepted:
  assumes "relay_appends rl" and "distinct (map o_sequence (outbox s))"
  shows "\<exists>sent s' v'. relay_once rl batch max_attempts backoff (s, (accepted, v)) =
      (Inr (length sent), (s', (accepted @ map envelope_from_row sent, v'))) \<and>
      subseq sent (take batch (unpublished s)) \<and> sorted (map o_sequence sent) \<and>
      list_all2 (\<lambda>r r'. envelope_from_row r' = envelope_from_row r \<and>
        (o_published_at r' \<noteq> None \<longleftrightarrow> o_published_at r \<noteq> None \<or> r \<in> set sent))
        (outbox s) (take (length (outbox s)) (outbox s'))"
proof -
  obtain sent s' v' where r: "relay_once rl batch max_attempts backoff (s, (accepted, v)) =
      (Inr (length sent), (s', (accepted @ map envelope_from_row sent, v')))" "subseq sent (take batch (unpublished s))"
      "list_all2 (\<lambda>r r'. envelope_from_row r' = envelope_from_row r \<and>
        (o_published_at r' \<noteq> None \<longleftrightarrow> o_published_at r \<noteq> None \<or> r \<in> set sent))
        (outbox s) (take (length (outbox s)) (outbox s'))"
    using relay_once_result [OF assms] by blast
  have "subseq (map o_sequence sent) (map o_sequence (take batch (unpublished s)))" using r(2) by (rule subseq_map)
  moreover have "sorted (map o_sequence (take batch (unpublished s)))"
    unfolding take_map [symmetric] unpublished_def by (intro sorted_wrt_take) simp
  ultimately have "sorted (map o_sequence sent)"
    by (metis subseq_conv_nths sorted_nths)
  with r show ?thesis by blast
qed

text \<open>If the publisher accepts, nothing that was unpublished is left, and all of it is accepted in the order of the outbox.\<close>

lemma relay_delivers:
  assumes "relay_appends rl" "distinct (map o_sequence (outbox s))" "\<And>e w. fst (rl_publish rl e w) = None" "0 < m"
    and "length (unpublished s) \<le> batch"
  shows "\<exists>s' v'. relay_once rl batch m b (s, (accepted, v)) =
      (Inr (length (unpublished s)), (s', (accepted @ map envelope_from_row (unpublished s), v'))) \<and>
      list_all (\<lambda>r. o_published_at r \<noteq> None) (take (length (outbox s)) (outbox s'))"
proof -
  obtain sent s' v' where r: "relay_once rl batch m b (s, (accepted, v)) =
      (Inr (length sent), (s', (accepted @ map envelope_from_row sent, v')))"
    and after: "list_all2 (\<lambda>r r'. envelope_from_row r' = envelope_from_row r \<and>
        (o_published_at r' \<noteq> None \<longleftrightarrow> o_published_at r \<noteq> None \<or> r \<in> set sent))
        (outbox s) (take (length (outbox s)) (outbox s'))"
    and sent: "sent = unpublished s"
    using relay_once_result [OF assms(1,2), of batch m b accepted v] assms(3-5) by auto
  have "r \<in> set (outbox s) \<Longrightarrow> o_published_at r \<noteq> None \<or> r \<in> set sent" for r
    by (cases "o_published_at r") (simp_all add: sent unpublished_def)
  with after have "list_all (\<lambda>r. o_published_at r \<noteq> None) (take (length (outbox s)) (outbox s'))"
    by (auto simp: list_all2_conv_all_nth list_all_length)
  with r sent show ?thesis by blast
qed

text \<open>An example: a publisher that fails for the first three times, and two events of one incident.\<close>

definition sample_relay :: "nat relay" where
  "sample_relay = \<lparr>rl_tick = Pair sample_clock,
     rl_publish = (\<lambda>e (s, v). (if v < 3 then Some ''connection refused'' else None, (s, v + 1))), rl_sleep = \<lambda>_ w. w\<rparr>"

definition sample_event :: "uuid \<Rightarrow> int \<Rightarrow> outbox_event_row" where
  "sample_event eid q = new_outbox_row sample_clock IncidentStatusChanged Incident (Agg_id 7) (Some 7)
     (IncidentStatusChangedPayload 7 TRIAGING CLOSED ''x'' 1) eid q"

definition sample_outbox :: db where
  "sample_outbox = empty_db\<lparr>outbox := [sample_event 1 1, sample_event 2 2]\<rparr>"

lemma sample_relay_appends: "relay_appends sample_relay"
  by (simp add: relay_appends_def sample_relay_def appends_def split: prod.split)

theorem relay_marks_what_was_accepted_witness:
  "\<exists>sent s' v'. relay_once sample_relay 100 3 (1 / 2) (sample_outbox, ([], 0)) =
     (Inr (length sent), (s', (map envelope_from_row sent, v'))) \<and> sorted (map o_sequence sent) \<and>
     set sent \<subseteq> {sample_event 1 1, sample_event 2 2}"
proof -
  have "distinct (map o_sequence (outbox sample_outbox))"
    by (simp add: sample_outbox_def sample_event_def new_outbox_row_def)
  from relay_marks_what_was_accepted [OF sample_relay_appends this, of 100 3 "1 / 2" "[]" 0]
  obtain sent s' v' where r: "relay_once sample_relay 100 3 (1 / 2) (sample_outbox, ([], 0)) =
      (Inr (length sent), (s', ([] @ map envelope_from_row sent, v')))" "subseq sent (take 100 (unpublished sample_outbox))"
      "sorted (map o_sequence sent)" by blast
  have "set (take 100 (unpublished sample_outbox)) \<subseteq> {sample_event 1 1, sample_event 2 2}"
    by (simp add: unpublished_def sample_outbox_def sample_event_def new_outbox_row_def)
  with subseq_set [OF r(2)] r show ?thesis by auto
qed

text \<open>
  When all attempts for an event fail, the pass goes on to the later events of the same incident: they reach the stream
  first, and the failed one follows in the next pass.
\<close>

lemma failed_event_overtaken:
  "\<exists>s' v' s''. relay_once sample_relay 100 3 (1 / 2) (sample_outbox, ([], 0)) =
       (Inr 1, (s', ([envelope_from_row (sample_event 2 2)], v'))) \<and>
     relay_once sample_relay 100 3 (1 / 2) (s', ([envelope_from_row (sample_event 2 2)], v')) =
       (Inr 1, (s'', (map envelope_from_row [sample_event 2 2, sample_event 1 1], v' + 1)))"
  by (simp add: relay_once_def relayW_def publish_with_retry_def publishW_def pauseW_def sample_relay_def sample_outbox_def
      sample_event_def new_outbox_row_def unpublished_def get_unpublished_outbox_events_def commandW_def run_tx_def tx_run
      bindW_app thenW_app returnW_app mark_outbox_event_published_def mark_outbox_event_publish_failed_def set_outbox_def
      envelope_from_row_def numeral_3_eq_3)

end
