(* ===== verification/Consumer.thy ===== *)
theory Consumer
  imports Streams Workers
begin

text \<open>
  \<^verbatim>\<open>packages/events/consumer.py\<close>, the consumer of one stream, with the ledger \<^verbatim>\<open>apps/worker/consumer_main.py\<close> gives it.
  Redis and the handler belong to the outside: a command of Redis answers or raises. Notes record what the consumer
  achieved, in order; nothing depends on them.
\<close>

subsection \<open>State\<close>

datatype handler_answer = Handler_returned | Permanent_processing_error string | Handler_raised string

datatype consumer_raised = Redis_raised string | Malformed_event string | Ledger_raised error

datatype consumer_note =
    Handled event_envelope handler_answer
  | Recorded event_envelope
  | Acked string event_envelope
  | Dead_lettered string event_envelope string

record consumer_stats =
  cn_processed :: int
  cn_duplicates_skipped :: int
  cn_failures :: int
  cn_dead_lettered :: int
  cn_notes :: "consumer_note list"

definition new_stats :: consumer_stats where
  "new_stats = \<lparr>cn_processed = 0, cn_duplicates_skipped = 0, cn_failures = 0, cn_dead_lettered = 0, cn_notes = []\<rparr>"

type_synonym message = "string \<times> (string \<times> string) list"
type_synonym ('v, 'a) redis_command = "'v world \<Rightarrow> (string + 'a) \<times> 'v world"

record 'v redis =
  rd_xgroup_create :: "string \<Rightarrow> string \<Rightarrow> ('v, unit) redis_command"
  rd_xautoclaim :: "string \<Rightarrow> string \<Rightarrow> string \<Rightarrow> int \<Rightarrow> string \<Rightarrow> int \<Rightarrow> ('v, string \<times> message list) redis_command"
  rd_xreadgroup :: "string \<Rightarrow> string \<Rightarrow> string \<Rightarrow> int \<Rightarrow> int \<Rightarrow> ('v, (string \<times> message list) list) redis_command"
  rd_xpending_range :: "string \<Rightarrow> string \<Rightarrow> string \<Rightarrow> ('v, int list) redis_command"
  rd_xadd :: "string \<Rightarrow> (string \<times> string) list \<Rightarrow> ('v, unit) redis_command"
  rd_xack :: "string \<Rightarrow> string \<Rightarrow> string \<Rightarrow> ('v, unit) redis_command"

record 'v consumer =
  cs_redis :: "'v redis"
  cs_stream :: string
  cs_group :: string
  cs_consumer_name :: string
  cs_ledger_consumer_name :: string
  cs_handler :: "event_envelope \<Rightarrow> 'v world \<Rightarrow> handler_answer \<times> 'v world"
  cs_parse :: "(string \<times> string) list \<Rightarrow> string + event_envelope"
  cs_dump :: "event_envelope \<Rightarrow> string"
  cs_tick :: "'v \<Rightarrow> clock \<times> 'v"
  cs_max_deliveries :: int
  cs_claim_min_idle_ms :: int
  cs_dead_letter_stream :: string
  cs_batch_size :: int
  cs_block_ms :: int

type_synonym ('v, 'a) consumer_worker = "(consumer_stats \<times> 'v, consumer_raised, 'a) worker"

definition redisW :: "('v, 'a) redis_command \<Rightarrow> ('v, 'a) consumer_worker" where
  "redisW f = (\<lambda>(s, (st, v)). case f (s, v) of
     (Inl t, (s', v')) \<Rightarrow> (Inl (Redis_raised t), (s', (st, v')))
   | (Inr x, (s', v')) \<Rightarrow> (Inr x, (s', (st, v'))))"

definition statsW :: "(consumer_stats \<Rightarrow> consumer_stats) \<Rightarrow> ('v, unit) consumer_worker" where
  "statsW f = (\<lambda>(s, (st, v)). (Inr (), (s, (f st, v))))"

definition noteW :: "consumer_note \<Rightarrow> ('v, unit) consumer_worker" where
  "noteW n = statsW (\<lambda>st. st\<lparr>cn_notes := cn_notes st @ [n]\<rparr>)"

definition ledgerW :: "'v consumer \<Rightarrow> (clock \<Rightarrow> 'a cmd) \<Rightarrow> ('v, 'a) consumer_worker" where
  "ledgerW cs m = commandW (\<lambda>(st, v). case cs_tick cs v of (clk, v') \<Rightarrow> (clk, (st, v'))) Ledger_raised (\<lambda>clk. run_tx (m clk))"

definition is_duplicate :: "'v consumer \<Rightarrow> uuid \<Rightarrow> ('v, bool) consumer_worker" where
  "is_duplicate cs event_id = ledgerW cs (\<lambda>_. has_consumed_event (cs_ledger_consumer_name cs) event_id)"

definition mark_processed :: "'v consumer \<Rightarrow> uuid \<Rightarrow> ('v, bool) consumer_worker" where
  "mark_processed cs event_id = ledgerW cs (\<lambda>clk. mark_event_consumed clk (cs_ledger_consumer_name cs) event_id)"

definition handlerW :: "'v consumer \<Rightarrow> event_envelope \<Rightarrow> ('v, handler_answer) consumer_worker" where
  "handlerW cs e = (\<lambda>(s, (st, v)). case cs_handler cs e (s, v) of
     (a, (s', v')) \<Rightarrow> (Inr a, (s', (st\<lparr>cn_notes := cn_notes st @ [Handled e a]\<rparr>, v'))))"

subsection \<open>One message\<close>

definition DEFAULT_MAX_DELIVERIES :: int where
  "DEFAULT_MAX_DELIVERIES = 5"

definition DEFAULT_CLAIM_MIN_IDLE_MS :: int where
  "DEFAULT_CLAIM_MIN_IDLE_MS = 30000"

definition DEFAULT_BLOCK_MS :: int where
  "DEFAULT_BLOCK_MS = 5000"

definition DEFAULT_BATCH_SIZE :: int where
  "DEFAULT_BATCH_SIZE = 10"

definition classify_delivery :: "int \<Rightarrow> int \<Rightarrow> string" where
  "classify_delivery delivery_count max_deliveries = (if delivery_count > max_deliveries then ''poison'' else ''process'')"

definition ensure_group :: "'v consumer \<Rightarrow> ('v, unit) consumer_worker" where
  "ensure_group cs =
     tryW (redisW (rd_xgroup_create (cs_redis cs) (cs_stream cs) (cs_group cs)))
       (\<lambda>e. case e of Redis_raised t \<Rightarrow> if sublist ''BUSYGROUP'' t then returnW () else raiseW e | _ \<Rightarrow> raiseW e)"

definition delivery_count :: "'v consumer \<Rightarrow> string \<Rightarrow> ('v, int) consumer_worker" where
  "delivery_count cs message_id =
     bindW (redisW (rd_xpending_range (cs_redis cs) (cs_stream cs) (cs_group cs) message_id))
       (\<lambda>pending. returnW (case pending of [] \<Rightarrow> 1 | n # _ \<Rightarrow> n))"

definition ackW :: "'v consumer \<Rightarrow> string \<Rightarrow> event_envelope \<Rightarrow> ('v, unit) consumer_worker" where
  "ackW cs message_id e =
     thenW (redisW (rd_xack (cs_redis cs) (cs_stream cs) (cs_group cs) message_id)) (noteW (Acked message_id e))"

definition dead_letter :: "'v consumer \<Rightarrow> string \<Rightarrow> event_envelope \<Rightarrow> string \<Rightarrow> ('v, unit) consumer_worker" where
  "dead_letter cs message_id e reason =
     thenW (redisW (rd_xadd (cs_redis cs) (cs_dead_letter_stream cs)
              [(''event'', cs_dump cs e), (''original_stream'', cs_stream cs), (''original_group'', cs_group cs),
               (''reason'', reason)]))
     (thenW (noteW (Dead_lettered message_id e reason))
     (thenW (ackW cs message_id e)
       (statsW (\<lambda>st. st\<lparr>cn_dead_lettered := cn_dead_lettered st + 1\<rparr>))))"

definition process_event :: "'v consumer \<Rightarrow> string \<Rightarrow> event_envelope \<Rightarrow> ('v, unit) consumer_worker" where
  "process_event cs message_id e =
     bindW (handlerW cs e) (\<lambda>answer. case answer of
       Permanent_processing_error t \<Rightarrow> dead_letter cs message_id e (''permanent_error: '' @ t)
     | Handler_raised t \<Rightarrow> statsW (\<lambda>st. st\<lparr>cn_failures := cn_failures st + 1\<rparr>)
     | Handler_returned \<Rightarrow>
         thenW (mark_processed cs (en_event_id e))
         (thenW (noteW (Recorded e))
         (thenW (ackW cs message_id e)
           (statsW (\<lambda>st. st\<lparr>cn_processed := cn_processed st + 1\<rparr>)))))"

definition handle_message :: "'v consumer \<Rightarrow> string \<Rightarrow> (string \<times> string) list \<Rightarrow> ('v, unit) consumer_worker" where
  "handle_message cs message_id body =
     (case cs_parse cs body of
        Inl problem \<Rightarrow> raiseW (Malformed_event problem)
      | Inr e \<Rightarrow>
          bindW (delivery_count cs message_id) (\<lambda>n.
            if classify_delivery n (cs_max_deliveries cs) = ''poison''
            then dead_letter cs message_id e ''max_deliveries_exceeded''
            else bindW (is_duplicate cs (en_event_id e)) (\<lambda>duplicate.
              if duplicate
              then thenW (noteW (Recorded e))
                  (thenW (statsW (\<lambda>st. st\<lparr>cn_duplicates_skipped := cn_duplicates_skipped st + 1\<rparr>)) (ackW cs message_id e))
              else process_event cs message_id e)))"

subsection \<open>One round\<close>

fun handle_messages :: "'v consumer \<Rightarrow> message list \<Rightarrow> nat \<Rightarrow> ('v, nat) consumer_worker" where
  "handle_messages cs [] handled = returnW handled"
| "handle_messages cs ((message_id, body) # messages) handled =
     thenW (handle_message cs message_id body) (handle_messages cs messages (handled + 1))"

text \<open>
  The loop over the cursors of \<^verbatim>\<open>XAUTOCLAIM\<close> runs for at most \<open>rounds\<close> answers of Redis; \<open>None\<close> when that was not enough.
\<close>

fun reclaim_stale :: "'v consumer \<Rightarrow> nat \<Rightarrow> string \<Rightarrow> nat \<Rightarrow> ('v, nat option) consumer_worker" where
  "reclaim_stale cs 0 cursor handled = returnW None"
| "reclaim_stale cs (Suc rounds) cursor handled =
     bindW (redisW (rd_xautoclaim (cs_redis cs) (cs_stream cs) (cs_group cs) (cs_consumer_name cs)
              (cs_claim_min_idle_ms cs) cursor (cs_batch_size cs))) (\<lambda>(next_cursor, claimed).
     bindW (handle_messages cs claimed handled) (\<lambda>handled'.
       if claimed = [] \<or> next_cursor = ''0-0'' then returnW (Some handled')
       else reclaim_stale cs rounds next_cursor handled'))"

definition read_new :: "'v consumer \<Rightarrow> ('v, nat) consumer_worker" where
  "read_new cs =
     bindW (redisW (rd_xreadgroup (cs_redis cs) (cs_group cs) (cs_consumer_name cs) (cs_stream cs)
              (cs_batch_size cs) (cs_block_ms cs))) (\<lambda>response. handle_messages cs (concat (map snd response)) 0)"

definition run_once :: "'v consumer \<Rightarrow> nat \<Rightarrow> ('v, nat option) consumer_worker" where
  "run_once cs rounds =
     bindW (reclaim_stale cs rounds ''0-0'' 0) (\<lambda>reclaimed. case reclaimed of
       None \<Rightarrow> returnW None
     | Some handled \<Rightarrow> bindW (read_new cs) (\<lambda>n. returnW (Some (handled + n))))"

text \<open>\<^verbatim>\<open>build_consumers\<close>: one consumer per shard, all with the default stream of dead letters.\<close>

definition build_consumers ::
  "'v redis \<Rightarrow> (event_envelope \<Rightarrow> 'v world \<Rightarrow> handler_answer \<times> 'v world) \<Rightarrow> ((string \<times> string) list \<Rightarrow> string + event_envelope) \<Rightarrow>
   (event_envelope \<Rightarrow> string) \<Rightarrow> ('v \<Rightarrow> clock \<times> 'v) \<Rightarrow> string \<Rightarrow> string \<Rightarrow> string \<Rightarrow> int \<Rightarrow> int \<Rightarrow> int \<Rightarrow> int \<Rightarrow>
   'v consumer list" where
  "build_consumers redis handler parse dump tick purpose identity stream_prefix shard_count max_deliveries min_idle_ms block_ms =
     map (\<lambda>stream. \<lparr>cs_redis = redis, cs_stream = stream, cs_group = consumer_group_name purpose,
            cs_consumer_name = identity, cs_ledger_consumer_name = purpose, cs_handler = handler, cs_parse = parse,
            cs_dump = dump, cs_tick = tick, cs_max_deliveries = max_deliveries, cs_claim_min_idle_ms = min_idle_ms,
            cs_dead_letter_stream = dead_letter_stream_name DEFAULT_STREAM_PREFIX, cs_batch_size = DEFAULT_BATCH_SIZE,
            cs_block_ms = block_ms\<rparr>)
       (all_stream_names stream_prefix shard_count)"

subsection \<open>Triples for workers\<close>

text \<open>
  \<open>triple P m Q E\<close>: from a world with \<open>P\<close>, a worker that returns \<open>x\<close> ends with \<open>Q x\<close> and one that raises ends with \<open>E\<close>.
\<close>

definition triple ::
  "('w world \<Rightarrow> bool) \<Rightarrow> ('w, 'x, 'a) worker \<Rightarrow> ('a \<Rightarrow> 'w world \<Rightarrow> bool) \<Rightarrow> ('w world \<Rightarrow> bool) \<Rightarrow> bool" where
  "triple P m Q E \<longleftrightarrow> (\<forall>w r w'. P w \<longrightarrow> m w = (r, w') \<longrightarrow> (case r of Inl e \<Rightarrow> E w' | Inr x \<Rightarrow> Q x w'))"

named_theorems triple_rules \<open>triples of workers, by their shape\<close>

lemma triple_return [triple_rules]: "(\<And>w. P w \<Longrightarrow> Q x w) \<Longrightarrow> triple P (returnW x) Q E"
  by (simp add: triple_def returnW_def)

lemma triple_raise [triple_rules]: "(\<And>w. P w \<Longrightarrow> E w) \<Longrightarrow> triple P (raiseW e) Q E"
  by (simp add: triple_def raiseW_def)

lemma tripleI:
  assumes "\<And>w e w'. P w \<Longrightarrow> m w = (Inl e, w') \<Longrightarrow> E w'" "\<And>w x w'. P w \<Longrightarrow> m w = (Inr x, w') \<Longrightarrow> Q x w'"
  shows "triple P m Q E"
  unfolding triple_def using assms by (metis (no_types, lifting) sum.case_eq_if sum.collapse)

lemma triple_Inl: "triple P m Q E \<Longrightarrow> P w \<Longrightarrow> m w = (Inl e, w') \<Longrightarrow> E w'"
  unfolding triple_def by (metis sum.case(1))

lemma triple_Inr: "triple P m Q E \<Longrightarrow> P w \<Longrightarrow> m w = (Inr x, w') \<Longrightarrow> Q x w'"
  unfolding triple_def by (metis sum.case(2))

lemma triple_bind:
  assumes "triple P m R E" "\<And>x. triple (R x) (f x) Q E"
  shows "triple P (bindW m f) Q E"
proof (rule tripleI)
  show "E w'" if "P w" "bindW m f w = (Inl e, w')" for w e w'
    using that triple_Inl [OF assms(1)] triple_Inr [OF assms(1)] triple_Inl [OF assms(2)] unfolding bindW_Inl by blast
  show "Q x w'" if "P w" "bindW m f w = (Inr x, w')" for w x w'
    using that triple_Inr [OF assms(1)] triple_Inr [OF assms(2)] unfolding bindW_Inr by blast
qed

lemma triple_then: "triple P m (\<lambda>_. R) E \<Longrightarrow> triple R n Q E \<Longrightarrow> triple P (thenW m n) Q E"
  unfolding thenW_def by (rule triple_bind)

lemma triple_pre: "triple P' m Q E \<Longrightarrow> (\<And>w. P w \<Longrightarrow> P' w) \<Longrightarrow> triple P m Q E"
  unfolding triple_def by blast

lemma triple_if:
  "(b \<Longrightarrow> triple P m Q E) \<Longrightarrow> (\<not> b \<Longrightarrow> triple P n Q E) \<Longrightarrow> triple P (if b then m else n) Q E"
  by simp

lemma tripleD:
  assumes "triple P m Q E" "P w" "m w = (r, w')" "\<And>x w'. Q x w' \<Longrightarrow> E w'"
  shows "E w'"
proof (cases r)
  case (Inl e)
  then show ?thesis using triple_Inl [OF assms(1,2)] assms(3) by simp
next
  case (Inr x)
  then have "Q x w'" using triple_Inr [OF assms(1,2)] assms(3) by simp
  then show ?thesis by (rule assms(4))
qed

lemma triple_error:
  assumes "triple P m Q E" "\<And>w. E w \<Longrightarrow> E' w"
  shows "triple P m Q E'"
proof (rule tripleI)
  show "E' w'" if "P w" "m w = (Inl e, w')" for w e w'
    using triple_Inl [OF assms(1) that] by (rule assms(2))
qed (rule triple_Inr [OF assms(1)])

subsection \<open>The notes of a consumer\<close>

definition consumed :: "'v consumer \<Rightarrow> db \<Rightarrow> uuid \<Rightarrow> bool" where
  "consumed cs s k \<longleftrightarrow>
     list_ex (\<lambda>r. ce_consumer_name r = cs_ledger_consumer_name cs \<and> ce_event_id r = k) (consumed_events s)"

definition ledger_kept :: "db \<Rightarrow> db \<Rightarrow> bool" where
  "ledger_kept s s' \<longleftrightarrow> set (consumed_events s) \<subseteq> set (consumed_events s')"

text \<open>Of the outside it is assumed that nothing is taken out of the ledger while Redis or the handler runs.\<close>

definition keeps_ledger :: "('v world \<Rightarrow> 'a \<times> 'v world) \<Rightarrow> bool" where
  "keeps_ledger f \<longleftrightarrow> (\<forall>w. ledger_kept (fst w) (fst (snd (f w))))"

definition consumer_respects :: "'v consumer \<Rightarrow> bool" where
  "consumer_respects cs \<longleftrightarrow>
     (\<forall>g n c i k b. keeps_ledger (rd_xautoclaim (cs_redis cs) g n c i k b)) \<and>
     (\<forall>g n c i k. keeps_ledger (rd_xreadgroup (cs_redis cs) g n c i k)) \<and>
     (\<forall>g n m. keeps_ledger (rd_xpending_range (cs_redis cs) g n m)) \<and>
     (\<forall>n fs. keeps_ledger (rd_xadd (cs_redis cs) n fs)) \<and>
     (\<forall>g n m. keeps_ledger (rd_xack (cs_redis cs) g n m)) \<and> (\<forall>e. keeps_ledger (cs_handler cs e))"

fun settled_in :: "consumer_note list \<Rightarrow> string \<Rightarrow> event_envelope \<Rightarrow> bool" where
  "settled_in ns mid e \<longleftrightarrow> Recorded e \<in> set ns \<or> (\<exists>r. Dead_lettered mid e r \<in> set ns)"

fun note_ok :: "'v consumer \<Rightarrow> db \<Rightarrow> consumer_note list \<Rightarrow> consumer_note \<Rightarrow> bool" where
  "note_ok cs s ns (Acked mid e) \<longleftrightarrow> settled_in ns mid e"
| "note_ok cs s ns (Recorded e) \<longleftrightarrow> consumed cs s (en_event_id e)"
| "note_ok cs s ns (Handled e a) \<longleftrightarrow> a = Handler_returned \<longrightarrow> consumed cs s (en_event_id e)"
| "note_ok cs s ns (Dead_lettered mid e r) \<longleftrightarrow> True"

fun notes_ok :: "'v consumer \<Rightarrow> db \<Rightarrow> consumer_note list \<Rightarrow> consumer_note list \<Rightarrow> bool" where
  "notes_ok cs s seen [] \<longleftrightarrow> True"
| "notes_ok cs s seen (n # ns) \<longleftrightarrow> note_ok cs s seen n \<and> notes_ok cs s (seen @ [n]) ns"

fun succeeded :: "uuid \<Rightarrow> consumer_note \<Rightarrow> bool" where
  "succeeded k (Handled e Handler_returned) \<longleftrightarrow> en_event_id e = k"
| "succeeded k n \<longleftrightarrow> False"

lemma consumed_kept: "consumed cs s k \<Longrightarrow> ledger_kept s s' \<Longrightarrow> consumed cs s' k"
  by (auto simp: consumed_def ledger_kept_def list_ex_iff)

lemma notes_ok_append: "notes_ok cs s seen (ms @ ns) \<longleftrightarrow> notes_ok cs s seen ms \<and> notes_ok cs s (seen @ ms) ns"
  by (induction ms arbitrary: seen) auto

lemma note_ok_kept: "note_ok cs s ns n \<Longrightarrow> ledger_kept s s' \<Longrightarrow> note_ok cs s' ns n"
  by (cases n) (auto intro: consumed_kept)

lemma notes_ok_kept: "notes_ok cs s seen ns \<Longrightarrow> ledger_kept s s' \<Longrightarrow> notes_ok cs s' seen ns"
  by (induction ns arbitrary: seen) (auto intro: note_ok_kept)

lemma succeeded_consumed:
  assumes "notes_ok cs s seen ns" "\<not> consumed cs s k"
  shows "filter (succeeded k) ns = []"
  using assms(1)
proof (induction ns arbitrary: seen)
  case (Cons n ns)
  have "\<not> succeeded k n" using Cons.prems assms(2)
    by (cases "(k, n)" rule: succeeded.cases) auto
  with Cons show ?case by auto
qed simp

definition consumer_ok :: "'v consumer \<Rightarrow> db \<Rightarrow> (consumer_stats \<times> 'v) world \<Rightarrow> bool" where
  "consumer_ok cs s0 = (\<lambda>(s, (st, v)). ledger_kept s0 s \<and> notes_ok cs s [] (cn_notes st) \<and>
     (\<forall>k. length (filter (succeeded k) (cn_notes st)) \<le> (if consumed cs s0 k then 0 else 1)))"

definition stable :: "((consumer_stats \<times> 'v) world \<Rightarrow> bool) \<Rightarrow> bool" where
  "stable P \<longleftrightarrow> (\<forall>s s' st v v'. P (s, (st, v)) \<longrightarrow> ledger_kept s s' \<longrightarrow> P (s', (st, v')))"

definition settling :: "'v consumer \<Rightarrow> db \<Rightarrow> string \<Rightarrow> event_envelope \<Rightarrow> (consumer_stats \<times> 'v) world \<Rightarrow> bool" where
  "settling cs s0 mid e w \<longleftrightarrow> consumer_ok cs s0 w \<and> settled_in (cn_notes (fst (snd w))) mid e"

lemma ledger_kept_trans: "ledger_kept s t \<Longrightarrow> ledger_kept t u \<Longrightarrow> ledger_kept s u"
  unfolding ledger_kept_def by (rule subset_trans)

lemma stable_ok: "stable (consumer_ok cs s0)"
  unfolding stable_def consumer_ok_def by (auto intro: notes_ok_kept ledger_kept_trans)

lemma stable_settling: "stable (settling cs s0 mid e)"
  using stable_ok [of cs s0] unfolding stable_def settling_def by auto

lemma triple_redis:
  assumes "keeps_ledger f" "stable P"
  shows "triple P (redisW f) (\<lambda>_. P) P"
  unfolding triple_def
proof (intro allI impI)
  fix w w' :: "(consumer_stats \<times> 'a) world" and r
  assume p: "P w" and run: "redisW f w = (r, w')"
  obtain s st v where w: "w = (s, (st, v))" by (metis prod.exhaust)
  obtain y s' v' where f: "f (s, v) = (y, (s', v'))" by (metis prod.exhaust)
  have "ledger_kept s s'" using assms(1) f unfolding keeps_ledger_def by (metis fst_conv snd_conv)
  then have "P (s', (st, v'))" using assms(2) p unfolding stable_def w by blast
  moreover have "w' = (s', (st, v'))" using run f by (cases y) (auto simp: redisW_def w)
  ultimately show "case r of Inl e \<Rightarrow> P w' | Inr x \<Rightarrow> P w'" by (cases r) simp_all
qed

lemma triple_stats:
  "(\<And>s st v. P (s, (st, v)) \<Longrightarrow> Q (s, (f st, v))) \<Longrightarrow> triple P (statsW f) (\<lambda>_. Q) E"
  by (auto simp: triple_def statsW_def)

lemma ok_note:
  assumes "consumer_ok cs s0 (s, (st, v))" "note_ok cs s (cn_notes st) n" "\<And>k. \<not> succeeded k n"
  shows "consumer_ok cs s0 (s, (st\<lparr>cn_notes := cn_notes st @ [n]\<rparr>, v))"
  using assms by (simp add: consumer_ok_def notes_ok_append)

lemma triple_ack:
  assumes "consumer_respects cs"
  shows "triple (settling cs s0 mid e) (ackW cs mid e) (\<lambda>_. consumer_ok cs s0) (consumer_ok cs s0)"
proof -
  have "triple (settling cs s0 mid e) (redisW (rd_xack (cs_redis cs) (cs_stream cs) (cs_group cs) mid))
      (\<lambda>_. settling cs s0 mid e) (settling cs s0 mid e)"
    using assms by (intro triple_redis stable_settling) (simp add: consumer_respects_def)
  then have "triple (settling cs s0 mid e) (redisW (rd_xack (cs_redis cs) (cs_stream cs) (cs_group cs) mid))
      (\<lambda>_. settling cs s0 mid e) (consumer_ok cs s0)"
    by (rule triple_error) (simp add: settling_def)
  moreover have "triple (settling cs s0 mid e) (noteW (Acked mid e)) (\<lambda>_. consumer_ok cs s0) (consumer_ok cs s0)"
    unfolding noteW_def by (rule triple_stats) (auto simp: settling_def intro!: ok_note)
  ultimately show ?thesis unfolding ackW_def by (rule triple_then)
qed

lemma triple_count: 
  assumes "\<And>st. cn_notes (f st) = cn_notes st"
  shows "triple (consumer_ok cs s0) (statsW f) (\<lambda>_. consumer_ok cs s0) E"
    "triple (settling cs s0 mid e) (statsW f) (\<lambda>_. settling cs s0 mid e) E"
  using assms by (auto intro!: triple_stats simp: consumer_ok_def settling_def)

lemma triple_dead_letter:
  assumes "consumer_respects cs"
  shows "triple (consumer_ok cs s0) (dead_letter cs mid e reason) (\<lambda>_. consumer_ok cs s0) (consumer_ok cs s0)"
  unfolding dead_letter_def
proof (intro triple_then)
  show "triple (consumer_ok cs s0) (redisW (rd_xadd (cs_redis cs) (cs_dead_letter_stream cs)
      [(''event'', cs_dump cs e), (''original_stream'', cs_stream cs), (''original_group'', cs_group cs),
       (''reason'', reason)])) (\<lambda>_. consumer_ok cs s0) (consumer_ok cs s0)"
    using assms by (intro triple_redis stable_ok) (simp add: consumer_respects_def)
  show "triple (consumer_ok cs s0) (noteW (Dead_lettered mid e reason)) (\<lambda>_. settling cs s0 mid e) (consumer_ok cs s0)"
    unfolding noteW_def by (rule triple_stats) (auto simp: settling_def intro!: ok_note)
  show "triple (settling cs s0 mid e) (ackW cs mid e) (\<lambda>_. consumer_ok cs s0) (consumer_ok cs s0)"
    using assms by (rule triple_ack)
qed (rule triple_count, simp)

text \<open>Between a handler that returned and the entry in the ledger.\<close>

definition unrecorded :: "'v consumer \<Rightarrow> db \<Rightarrow> event_envelope \<Rightarrow> (consumer_stats \<times> 'v) world \<Rightarrow> bool" where
  "unrecorded cs s0 e = (\<lambda>(s, (st, v)). \<exists>ns. cn_notes st = ns @ [Handled e Handler_returned] \<and>
     consumer_ok cs s0 (s, (st\<lparr>cn_notes := ns\<rparr>, v)) \<and> \<not> consumed cs s0 (en_event_id e) \<and>
     filter (succeeded (en_event_id e)) ns = [])"

lemma mark_run:
  assumes "run_tx (mark_event_consumed clk (cs_ledger_consumer_name cs) k) s = (x, s')"
  shows "\<exists>new. x = Inr new \<and> consumed cs s' k \<and> ledger_kept s s'"
  using assms by (auto simp: run_tx_def mark_event_consumed_def has_consumed_event_def tx_run consumed_def ledger_kept_def
      split: if_splits)

lemma triple_handler:
  assumes "consumer_respects cs"
  shows "triple (\<lambda>w. consumer_ok cs s0 w \<and> \<not> consumed cs (fst w) (en_event_id e)) (handlerW cs e)
    (\<lambda>a. if a = Handler_returned then unrecorded cs s0 e else consumer_ok cs s0) E"
  unfolding triple_def
proof (intro allI impI)
  fix w w' :: "(consumer_stats \<times> 'a) world" and r :: "consumer_raised + handler_answer"
  assume p: "consumer_ok cs s0 w \<and> \<not> consumed cs (fst w) (en_event_id e)" and run: "handlerW cs e w = (r, w')"
  obtain s st v where w: "w = (s, (st, v))" by (metis prod.exhaust)
  obtain a s' v' where h: "cs_handler cs e (s, v) = (a, (s', v'))" by (metis prod.exhaust)
  have r: "r = Inr a" "w' = (s', (st\<lparr>cn_notes := cn_notes st @ [Handled e a]\<rparr>, v'))"
    using run by (auto simp: handlerW_def w h)
  have kept: "ledger_kept s s'"
    using assms h unfolding consumer_respects_def keeps_ledger_def by (metis fst_conv snd_conv)
  then have ok: "consumer_ok cs s0 (s', (st, v'))" using p stable_ok [of cs s0] unfolding stable_def w by blast
  show "case r of Inl e' \<Rightarrow> E w' | Inr a \<Rightarrow> (if a = Handler_returned then unrecorded cs s0 e else consumer_ok cs s0) w'"
  proof (cases "a = Handler_returned")
    case True
    have none: "\<not> consumed cs s (en_event_id e)" using p by (simp add: w)
    have "notes_ok cs s [] (cn_notes st)" "ledger_kept s0 s" using p by (simp_all add: w consumer_ok_def)
    with none have "filter (succeeded (en_event_id e)) (cn_notes st) = []" "\<not> consumed cs s0 (en_event_id e)"
      using succeeded_consumed consumed_kept by blast+
    then show ?thesis using ok True by (simp add: r unrecorded_def)
  next
    case False
    have "\<not> succeeded k (Handled e a)" for k using False by (cases a) simp_all
    then show ?thesis using False ok_note [OF ok] by (simp add: r)
  qed
qed

lemma triple_mark:
  "triple (unrecorded cs s0 e) (mark_processed cs (en_event_id e))
     (\<lambda>_ w. consumer_ok cs s0 w \<and> consumed cs (fst w) (en_event_id e)) E"
  unfolding triple_def
proof (intro allI impI)
  fix w w' :: "(consumer_stats \<times> 'a) world" and r :: "consumer_raised + bool"
  assume p: "unrecorded cs s0 e w" and run: "mark_processed cs (en_event_id e) w = (r, w')"
  obtain s st v where w: "w = (s, (st, v))" by (metis prod.exhaust)
  obtain clk v1 where t: "cs_tick cs v = (clk, v1)" by (rule prod.exhaust)
  obtain x s' where m: "run_tx (mark_event_consumed clk (cs_ledger_consumer_name cs) (en_event_id e)) s = (x, s')"
    by (rule prod.exhaust)
  obtain new where x: "x = Inr new" and marked: "consumed cs s' (en_event_id e)" and kept: "ledger_kept s s'"
    using mark_run [OF m] by blast
  have r: "r = Inr new" "w' = (s', (st, v1))"
    using run t m x by (auto simp: mark_processed_def ledgerW_def commandW_def w)
  obtain ns where ns: "cn_notes st = ns @ [Handled e Handler_returned]" "consumer_ok cs s0 (s, (st\<lparr>cn_notes := ns\<rparr>, v))"
    "\<not> consumed cs s0 (en_event_id e)" "filter (succeeded (en_event_id e)) ns = []" using p by (auto simp: unrecorded_def w)
  have "ledger_kept s0 s'" "notes_ok cs s' [] ns" using ns(2) kept
    by (auto simp: consumer_ok_def intro: ledger_kept_trans notes_ok_kept)
  moreover have "length (filter (succeeded k) (cn_notes st)) \<le> (if consumed cs s0 k then 0 else 1)" for k
    using ns by (cases "k = en_event_id e") (simp_all add: consumer_ok_def)
  ultimately have "consumer_ok cs s0 w'" using marked by (simp add: r consumer_ok_def ns(1) notes_ok_append)
  then show "case r of Inl e' \<Rightarrow> E w' | Inr _ \<Rightarrow> consumer_ok cs s0 w' \<and> consumed cs (fst w') (en_event_id e)"
    using marked by (simp add: r)
qed

lemma triple_recorded:
  "triple (\<lambda>w. consumer_ok cs s0 w \<and> consumed cs (fst w) (en_event_id e)) (noteW (Recorded e)) (\<lambda>_. settling cs s0 mid e) E"
  unfolding noteW_def by (rule triple_stats) (auto simp: settling_def intro!: ok_note)

lemma triple_process:
  assumes "consumer_respects cs"
  shows "triple (\<lambda>w. consumer_ok cs s0 w \<and> \<not> consumed cs (fst w) (en_event_id e)) (process_event cs mid e)
    (\<lambda>_. consumer_ok cs s0) (consumer_ok cs s0)"
  unfolding process_event_def
proof (rule triple_bind [OF triple_handler [OF assms]])
  fix a
  show "triple (if a = Handler_returned then unrecorded cs s0 e else consumer_ok cs s0)
    (case a of Handler_returned \<Rightarrow> thenW (mark_processed cs (en_event_id e)) (thenW (noteW (Recorded e))
        (thenW (ackW cs mid e) (statsW (\<lambda>st. st\<lparr>cn_processed := cn_processed st + 1\<rparr>))))
     | Permanent_processing_error t \<Rightarrow> dead_letter cs mid e (''permanent_error: '' @ t)
     | Handler_raised t \<Rightarrow> statsW (\<lambda>st. st\<lparr>cn_failures := cn_failures st + 1\<rparr>))
    (\<lambda>_. consumer_ok cs s0) (consumer_ok cs s0)"
  proof (cases a)
    case Handler_returned
    have "triple (unrecorded cs s0 e) (thenW (mark_processed cs (en_event_id e)) (thenW (noteW (Recorded e))
        (thenW (ackW cs mid e) (statsW (\<lambda>st. st\<lparr>cn_processed := cn_processed st + 1\<rparr>)))))
      (\<lambda>_. consumer_ok cs s0) (consumer_ok cs s0)"
      by (rule triple_then [OF triple_mark triple_then [OF triple_recorded
            triple_then [OF triple_ack [OF assms] triple_count(1)]]]) simp
    then show ?thesis by (simp add: Handler_returned)
  qed (simp_all add: triple_dead_letter [OF assms] triple_count)
qed

lemma triple_duplicate:
  "triple (consumer_ok cs s0) (is_duplicate cs k)
     (\<lambda>d w. consumer_ok cs s0 w \<and> (d \<longleftrightarrow> consumed cs (fst w) k)) E"
  unfolding triple_def
proof (intro allI impI)
  fix w w' :: "(consumer_stats \<times> 'a) world" and r :: "consumer_raised + bool"
  assume p: "consumer_ok cs s0 w" and run: "is_duplicate cs k w = (r, w')"
  obtain s st v where w: "w = (s, (st, v))" by (metis prod.exhaust)
  obtain clk v1 where t: "cs_tick cs v = (clk, v1)" by (rule prod.exhaust)
  have r: "r = Inr (consumed cs s k)" "w' = (s, (st, v1))"
    using run t by (auto simp: is_duplicate_def ledgerW_def commandW_def w run_tx_def has_consumed_event_def tx_run consumed_def)
  with p show "case r of Inl e \<Rightarrow> E w' | Inr d \<Rightarrow> consumer_ok cs s0 w' \<and> (d \<longleftrightarrow> consumed cs (fst w') k)"
    by (simp add: w consumer_ok_def)
qed

lemma triple_delivery_count:
  assumes "consumer_respects cs"
  shows "triple (consumer_ok cs s0) (delivery_count cs mid) (\<lambda>_. consumer_ok cs s0) (consumer_ok cs s0)"
  unfolding delivery_count_def
  by (rule triple_bind [OF triple_redis triple_return]) (use assms in \<open>simp_all add: consumer_respects_def stable_ok\<close>)

lemma triple_handle_message:
  assumes "consumer_respects cs"
  shows "triple (consumer_ok cs s0) (handle_message cs mid body) (\<lambda>_. consumer_ok cs s0) (consumer_ok cs s0)"
proof (cases "cs_parse cs body")
  case (Inl problem)
  then show ?thesis by (simp add: handle_message_def triple_raise)
next
  case (Inr e)
  have skip: "triple (\<lambda>w. consumer_ok cs s0 w \<and> consumed cs (fst w) (en_event_id e))
      (thenW (noteW (Recorded e)) (thenW (statsW (\<lambda>st. st\<lparr>cn_duplicates_skipped := cn_duplicates_skipped st + 1\<rparr>))
        (ackW cs mid e))) (\<lambda>_. consumer_ok cs s0) (consumer_ok cs s0)"
    by (rule triple_then [OF triple_recorded triple_then [OF triple_count(2) triple_ack [OF assms]]]) simp
  show ?thesis
    unfolding handle_message_def Inr sum.case
  proof (rule triple_bind [OF triple_delivery_count [OF assms]], rule triple_if)
    fix n
    show "triple (consumer_ok cs s0) (dead_letter cs mid e ''max_deliveries_exceeded'') (\<lambda>_. consumer_ok cs s0)
      (consumer_ok cs s0)" by (rule triple_dead_letter [OF assms])
    show "triple (consumer_ok cs s0) (bindW (is_duplicate cs (en_event_id e)) (\<lambda>d. if d
        then thenW (noteW (Recorded e)) (thenW (statsW (\<lambda>st. st\<lparr>cn_duplicates_skipped := cn_duplicates_skipped st + 1\<rparr>))
          (ackW cs mid e)) else process_event cs mid e)) (\<lambda>_. consumer_ok cs s0) (consumer_ok cs s0)"
    proof (rule triple_bind [OF triple_duplicate], rule triple_if)
      fix d
      show "triple (\<lambda>w. consumer_ok cs s0 w \<and> d = consumed cs (fst w) (en_event_id e))
        (thenW (noteW (Recorded e)) (thenW (statsW (\<lambda>st. st\<lparr>cn_duplicates_skipped := cn_duplicates_skipped st + 1\<rparr>))
          (ackW cs mid e))) (\<lambda>_. consumer_ok cs s0) (consumer_ok cs s0)" if d
        by (rule triple_pre [OF skip]) (use that in simp)
      show "triple (\<lambda>w. consumer_ok cs s0 w \<and> d = consumed cs (fst w) (en_event_id e)) (process_event cs mid e)
        (\<lambda>_. consumer_ok cs s0) (consumer_ok cs s0)" if "\<not> d"
        by (rule triple_pre [OF triple_process [OF assms]]) (use that in simp)
    qed
  qed
qed

lemma triple_handle_messages:
  assumes "consumer_respects cs"
  shows "triple (consumer_ok cs s0) (handle_messages cs messages n) (\<lambda>_. consumer_ok cs s0) (consumer_ok cs s0)"
proof (induction messages arbitrary: n)
  case (Cons m messages)
  obtain mid body where "m = (mid, body)" by (rule prod.exhaust)
  then show ?case using triple_then [OF triple_handle_message [OF assms] Cons.IH] by simp
qed (simp add: triple_return)

lemma triple_reclaim:
  assumes "consumer_respects cs"
  shows "triple (consumer_ok cs s0) (reclaim_stale cs rounds cursor n) (\<lambda>_. consumer_ok cs s0) (consumer_ok cs s0)"
proof (induction rounds arbitrary: cursor n)
  case (Suc rounds)
  have claim: "triple (consumer_ok cs s0) (redisW (rd_xautoclaim (cs_redis cs) (cs_stream cs) (cs_group cs)
      (cs_consumer_name cs) (cs_claim_min_idle_ms cs) cursor (cs_batch_size cs))) (\<lambda>_. consumer_ok cs s0) (consumer_ok cs s0)"
    using assms by (intro triple_redis stable_ok) (simp add: consumer_respects_def)
  show ?case
    unfolding reclaim_stale.simps
  proof (rule triple_bind [OF claim])
    fix x :: "string \<times> message list"
    obtain c ms where x: "x = (c, ms)" by (rule prod.exhaust)
    have "triple (consumer_ok cs s0) (if ms = [] \<or> c = ''0-0'' then returnW (Some h) else reclaim_stale cs rounds c h)
        (\<lambda>_. consumer_ok cs s0) (consumer_ok cs s0)" for h
      by (rule triple_if) (simp_all add: triple_return Suc.IH)
    from triple_bind [OF triple_handle_messages [OF assms] this]
    show "triple (consumer_ok cs s0) (case x of (c, ms) \<Rightarrow> bindW (handle_messages cs ms n) (\<lambda>h.
        if ms = [] \<or> c = ''0-0'' then returnW (Some h) else reclaim_stale cs rounds c h))
        (\<lambda>_. consumer_ok cs s0) (consumer_ok cs s0)" unfolding x by simp
  qed
qed (simp add: triple_return)

lemma triple_read_new:
  assumes "consumer_respects cs"
  shows "triple (consumer_ok cs s0) (read_new cs) (\<lambda>_. consumer_ok cs s0) (consumer_ok cs s0)"
  unfolding read_new_def
  by (rule triple_bind [OF triple_redis triple_handle_messages [OF assms]])
    (use assms in \<open>simp_all add: consumer_respects_def stable_ok\<close>)

lemma triple_run_once:
  assumes "consumer_respects cs"
  shows "triple (consumer_ok cs s0) (run_once cs rounds) (\<lambda>_. consumer_ok cs s0) (consumer_ok cs s0)"
  unfolding run_once_def
proof (rule triple_bind [OF triple_reclaim [OF assms]])
  fix r :: "nat option"
  have "triple (consumer_ok cs s0) (bindW (read_new cs) (\<lambda>n. returnW (Some (h + n)))) (\<lambda>_. consumer_ok cs s0)
      (consumer_ok cs s0)" for h
    by (rule triple_bind [OF triple_read_new [OF assms] triple_return])
  then show "triple (consumer_ok cs s0) (case r of None \<Rightarrow> returnW None
      | Some h \<Rightarrow> bindW (read_new cs) (\<lambda>n. returnW (Some (h + n)))) (\<lambda>_. consumer_ok cs s0) (consumer_ok cs s0)"
    by (cases r) (simp_all add: triple_return)
qed

subsection \<open>What a consumer guarantees\<close>

text \<open>
  Round after round; an exception ends a round, and the process that is started again goes on with the same database and
  the same streams.
\<close>

fun rounds_of :: "'v consumer \<Rightarrow> nat list \<Rightarrow> (consumer_stats \<times> 'v) world \<Rightarrow> (consumer_stats \<times> 'v) world" where
  "rounds_of cs [] w = w"
| "rounds_of cs (n # ns) w = rounds_of cs ns (snd (run_once cs n w))"

lemma rounds_ok:
  assumes "consumer_respects cs" "consumer_ok cs s0 w"
  shows "consumer_ok cs s0 (rounds_of cs ns w)"
  using assms(2)
proof (induction ns arbitrary: w)
  case (Cons n ns)
  obtain r w' where run: "run_once cs n w = (r, w')" by (rule prod.exhaust)
  have "consumer_ok cs s0 w'" by (rule tripleD [OF triple_run_once [OF assms(1)] Cons.prems run])
  then show ?case using Cons.IH run by simp
qed simp

lemma rounds_result:
  assumes "consumer_respects cs" "rounds_of cs ns (s, (new_stats, v)) = (s', (st, v'))"
  shows "consumer_ok cs s (s', (st, v'))"
  using rounds_ok [OF assms(1), of s "(s, (new_stats, v))" ns] assms(2)
  by (simp add: consumer_ok_def new_stats_def ledger_kept_def)


text \<open>
  C14. Nothing is lost: a message is acknowledged only after its event was recorded in the ledger, where it stays, or was
  put on the stream of dead letters.
\<close>

theorem acknowledged_only_when_settled:
  assumes "consumer_respects cs" and "rounds_of cs rounds (s, (new_stats, v)) = (s', (st, v'))"
    and "cn_notes st = before @ Acked mid e # after"
  shows "(Recorded e \<in> set before \<and> consumed cs s' (en_event_id e)) \<or> (\<exists>reason. Dead_lettered mid e reason \<in> set before)"
proof -
  have ok: "notes_ok cs s' [] before" "settled_in before mid e"
    using rounds_result [OF assms(1,2)] by (simp_all add: consumer_ok_def assms(3) notes_ok_append)
  have "consumed cs s' (en_event_id e)" if "Recorded e \<in> set before"
  proof -
    from split_list [OF that] obtain xs ys where "before = xs @ Recorded e # ys" by blast
    then show ?thesis using ok(1) by (simp add: notes_ok_append)
  qed
  then show ?thesis using ok(2) by auto
qed

text \<open>A consumer whose new messages are the same event twice, as after a crash of the relay before its commit.\<close>

definition sample_envelope :: event_envelope where
  "sample_envelope = envelope_from_row (new_outbox_row sample_clock IncidentStatusChanged Incident (Agg_id 7) (Some 7)
     (IncidentStatusChangedPayload 7 TRIAGING CLOSED ''x'' 1) 1 1)"

definition sample_consumer :: "unit consumer" where
  "sample_consumer =
     \<lparr>cs_redis = \<lparr>rd_xgroup_create = \<lambda>_ _ w. (Inr (), w), rd_xautoclaim = \<lambda>_ _ _ _ _ _ w. (Inr (''0-0'', []), w),
        rd_xreadgroup = \<lambda>_ _ stream _ _ w. (Inr [(stream, [(''1-0'', []), (''2-0'', [])])], w),
        rd_xpending_range = \<lambda>_ _ _ w. (Inr [1], w), rd_xadd = \<lambda>_ _ w. (Inr (), w), rd_xack = \<lambda>_ _ _ w. (Inr (), w)\<rparr>,
      cs_stream = ''stream:events:0'', cs_group = consumer_group_name ''metrics'', cs_consumer_name = ''host:1'',
      cs_ledger_consumer_name = ''metrics'', cs_handler = \<lambda>_ w. (Handler_returned, w), cs_parse = \<lambda>_. Inr sample_envelope,
      cs_dump = \<lambda>_. [], cs_tick = Pair sample_clock, cs_max_deliveries = DEFAULT_MAX_DELIVERIES,
      cs_claim_min_idle_ms = DEFAULT_CLAIM_MIN_IDLE_MS, cs_dead_letter_stream = dead_letter_stream_name DEFAULT_STREAM_PREFIX,
      cs_batch_size = DEFAULT_BATCH_SIZE, cs_block_ms = DEFAULT_BLOCK_MS\<rparr>"

lemma sample_consumer_respects: "consumer_respects sample_consumer"
  by (simp add: consumer_respects_def sample_consumer_def keeps_ledger_def ledger_kept_def)

lemma sample_rounds:
  "\<exists>s' st. rounds_of sample_consumer [1] (empty_db, (new_stats, ())) = (s', (st, ())) \<and>
     cn_notes st = [Handled sample_envelope Handler_returned, Recorded sample_envelope] @ Acked ''1-0'' sample_envelope #
       [Recorded sample_envelope, Acked ''2-0'' sample_envelope]"
  by (simp add: sample_consumer_def run_once_def read_new_def redisW_def handle_message_def delivery_count_def
      classify_delivery_def DEFAULT_MAX_DELIVERIES_def is_duplicate_def ledgerW_def commandW_def run_tx_def
      has_consumed_event_def mark_event_consumed_def mark_processed_def tx_run process_event_def handlerW_def noteW_def
      statsW_def ackW_def new_stats_def empty_db_def bindW_app thenW_app returnW_app)


theorem acknowledged_only_when_settled_witness:
  "\<exists>s' st. rounds_of sample_consumer [1] (empty_db, (new_stats, ())) = (s', (st, ())) \<and>
     consumed sample_consumer s' (en_event_id sample_envelope)"
proof -
  obtain s' st where r: "rounds_of sample_consumer [1] (empty_db, (new_stats, ())) = (s', (st, ()))"
    "cn_notes st = [Handled sample_envelope Handler_returned, Recorded sample_envelope] @ Acked ''1-0'' sample_envelope #
       [Recorded sample_envelope, Acked ''2-0'' sample_envelope]" using sample_rounds by blast
  from acknowledged_only_when_settled [OF sample_consumer_respects r] r(1) show ?thesis by auto
qed

subsection \<open>Ends and failures\<close>

text \<open>
  The loop over cursors ends if the cursors Redis answers with go towards the end of the pending entries: \<open>rank\<close> of a
  cursor is a bound on the answers still to come.
\<close>

lemma reclaim_ends:
  assumes "\<And>g n c i k b w k' ms w'. rd_xautoclaim (cs_redis cs) g n c i k b w = (Inr (k', ms), w') \<Longrightarrow> ms \<noteq> [] \<Longrightarrow>
      k' \<noteq> ''0-0'' \<Longrightarrow> rank k' < rank k"
    and "rank cursor < rounds" "reclaim_stale cs rounds cursor n w = (Inr r, w')"
  shows "r \<noteq> None"
  using assms(2,3)
proof (induction rounds arbitrary: cursor n w)
  case (Suc rounds)
  obtain k ms w1 h w2 where claim: "redisW (rd_xautoclaim (cs_redis cs) (cs_stream cs) (cs_group cs) (cs_consumer_name cs)
      (cs_claim_min_idle_ms cs) cursor (cs_batch_size cs)) w = (Inr (k, ms), w1)"
    and rest: "(if ms = [] \<or> k = ''0-0'' then returnW (Some h) else reclaim_stale cs rounds k h) w2 = (Inr r, w')"
    using Suc.prems(2) by auto
  obtain s st v where w: "w = (s, (st, v))" by (metis prod.exhaust)
  obtain y s' v' where y: "rd_xautoclaim (cs_redis cs) (cs_stream cs) (cs_group cs) (cs_consumer_name cs)
      (cs_claim_min_idle_ms cs) cursor (cs_batch_size cs) (s, v) = (y, (s', v'))" by (metis prod.exhaust)
  have answer: "y = Inr (k, ms)" using claim y by (cases y) (auto simp: redisW_def w)
  show ?case
  proof (cases "ms = [] \<or> k = ''0-0''")
    case True
    then show ?thesis using rest by simp
  next
    case False
    then have "rank k < rank cursor" using assms(1) y answer by blast
    then show ?thesis using Suc.IH [of k h w2] Suc.prems(1) rest False by simp
  qed
qed simp

text \<open>
  A message that is no event raises before its deliveries are counted: the round ends, the message is neither
  acknowledged nor put aside however often it was delivered, and the messages behind it are not handled.
\<close>

lemma malformed_message_blocks:
  assumes "cs_parse cs body = Inl problem"
  shows "handle_messages cs ((mid, body) # messages) n w = (Inl (Malformed_event problem), w)"
  using assms by (simp add: handle_message_def thenW_app raiseW_app)

end
