(* ===== verification/Planner.thy ===== *)
theory Planner
  imports Evidence_Domain Remediations
begin

text \<open>
  \<^verbatim>\<open>packages/remediation/planner.py\<close>: from an accepted root-cause report and the evidence it cites to at most one
  proposal of a catalog action. Reading a document can raise (a change without a key), and so can building the
  proposal, whose fields pydantic bounds.
\<close>

datatype planner_error = Plan_key_error string | Plan_invalid

definition PLANNER :: string where
  "PLANNER = ''remediation-planner''"

text \<open>\<^verbatim>\<open>proposal(action, params, effect)\<close>.\<close>

definition planned ::
  "uuid \<Rightarrow> uuid \<Rightarrow> json \<Rightarrow> string \<Rightarrow> string \<Rightarrow> json dict \<Rightarrow> string \<Rightarrow> string \<Rightarrow>
   planner_error + (remediation_proposal option \<times> string)" where
  "planned incident_id investigation_id component reason action params effect why =
     (let p = \<lparr>rp_incident_id = incident_id, rp_investigation_id = Some investigation_id, rp_action_id = action,
               rp_parameters = dmerge [(''service'', component)] params, rp_reason = take 1000 reason,
               rp_expected_effect = effect, rp_source = ''planner'', rp_proposed_by = PLANNER\<rparr>
      in if proposal_fields_ok p then Inr (Some p, why) else Inl Plan_invalid)"

text \<open>The cited records about the component, and the first one of a type.\<close>

definition cited_records :: "string list \<Rightarrow> json \<Rightarrow> evidence_record list \<Rightarrow> evidence_record list" where
  "cited_records supporting component records =
     filter (\<lambda>r. uuid_str (ec_evidence_id r) \<in> set supporting \<and> JStr (ec_subject_service r) = component) records"

definition first_of :: "evidence_type \<Rightarrow> evidence_record list \<Rightarrow> json dict" where
  "first_of ty records =
     (case find (\<lambda>r. ec_evidence_type r = ty) records of None \<Rightarrow> [] | Some r \<Rightarrow> ec_normalized_payload r)"

type_synonym proposer = "string \<Rightarrow> json dict \<Rightarrow> string \<Rightarrow> string \<Rightarrow> planner_error + (remediation_proposal option \<times> string)"

definition plan_rollback :: "proposer \<Rightarrow> json \<Rightarrow> evidence_record list \<Rightarrow> planner_error + (remediation_proposal option \<times> string)" where
  "plan_rollback offer component records =
     (let current = jdict (jget (first_of Deployment records) ''current'');
          running = jget current ''version''; previous = jget current ''previous_version''
      in if \<not> truthy running \<or> \<not> truthy previous
         then Inr (None, ''no cited deployment record names the running and previous versions'')
         else offer ''rollback_deployment'' [(''from_version'', running), (''to_version'', previous)]
                (str_json component @ '' returns to '' @ str_json previous @ ''; its error rate returns below 5%'')
                ''rollback to the previously deployed version'')"

text \<open>The newest change comes first; a \<^verbatim>\<open>feature.*\<close> key is a flag.\<close>

definition plan_change :: "proposer \<Rightarrow> json \<Rightarrow> json dict \<Rightarrow> planner_error + (remediation_proposal option \<times> string)" where
  "plan_change offer component change =
     (case dget change ''key'' of
        None \<Rightarrow> Inl (Plan_key_error ''key'')
      | Some k \<Rightarrow>
          if startswith (str_json k) ''feature.''
          then offer ''disable_feature_flag'' [(''flag'', k)]
                 (str_json k @ '' off; '' @ str_json component @ '' error rate returns below 5%'')
                 ''disable the feature flag that changed''
          else if jget change ''old_value'' = JNull
          then Inr (None, ''the configuration change has no previous value to revert to'')
          else
            (case dget change ''new_value'' of
               None \<Rightarrow> Inl (Plan_key_error ''new_value'')
             | Some v \<Rightarrow> offer ''revert_configuration''
                 [(''key'', k), (''from_value'', v), (''to_value'', jget change ''old_value'')]
                 (str_json k @ '' back to '' @ repr_json (jget change ''old_value'') @ ''; errors return below 5%'')
                 ''revert the configuration change''))"

definition plan_configuration :: "proposer \<Rightarrow> json \<Rightarrow> evidence_record list \<Rightarrow> planner_error + (remediation_proposal option \<times> string)" where
  "plan_configuration offer component records =
     (case jget (first_of Configuration records) ''changes_in_window'' of
        JList (change # _) \<Rightarrow> plan_change offer component (jdict change)
      | _ \<Rightarrow> Inr (None, ''no cited configuration record contains the change''))"

definition plan ::
  "uuid \<Rightarrow> uuid \<Rightarrow> json dict \<Rightarrow> evidence_record list \<Rightarrow> planner_error + (remediation_proposal option \<times> string)" where
  "plan incident_id investigation_id report evidence =
     (let root = jdict (jget report ''root_cause_hypothesis'');
          category = jget root ''cause_category''; component = jget root ''component''
      in if \<not> truthy category \<or> \<not> truthy component then Inr (None, ''the RCA has no structured root cause'')
         else
           let records = cited_records (text_items (jget report ''supporting_evidence'')) component evidence;
               root_text = (case dget (jdict (jget report ''root_cause'')) ''text'' of None \<Rightarrow> JStr [] | Some t \<Rightarrow> t);
               reason = ''RCA of investigation '' @ uuid_str investigation_id @ '': '' @ str_json category @ '' in ''
                 @ str_json component @ ''. '' @ str_json root_text;
               offer = planned incident_id investigation_id component reason
           in if category = JStr ''deployment'' then plan_rollback offer component records
              else if category = JStr ''configuration'' then plan_configuration offer component records
              else if category = JStr ''resource_memory''
              then offer ''restart_service'' [] (str_json component @ '' memory back to baseline'')
                     ''restart to release leaked memory''
              else if category = JStr ''resource_cpu'' \<or> category = JStr ''traffic''
              then offer ''scale_service'' [(''increase_by'', JInt 2)] (str_json component @ '' p95 latency below 1s'')
                     ''add capacity''
              else Inr (None, ''no catalog action remediates a '' @ str_json category @ '' cause on '' @ str_json component))"

subsection \<open>What a plan may contain\<close>

text \<open>The fields of the parameter models.\<close>

fun param_fields :: "params_class \<Rightarrow> string list" where
  "param_fields RestartService = [''service'']"
| "param_fields ScaleService = [''service'', ''increase_by'']"
| "param_fields RollbackDeployment = [''service'', ''from_version'', ''to_version'']"
| "param_fields DisableFeatureFlag = [''service'', ''flag'']"
| "param_fields RevertConfiguration = [''service'', ''key'', ''from_value'', ''to_value'']"

lemma planned_SomeD:
  assumes "planned i n component reason action params effect why = Inr (Some p, why')"
  shows "rp_incident_id p = i \<and> rp_investigation_id p = Some n \<and> rp_action_id p = action \<and>
    rp_parameters p = dmerge [(''service'', component)] params \<and> proposal_fields_ok p"
  using assms by (auto simp: planned_def Let_def split: if_splits)

lemma catalog_actions:
  "get_entry ''restart_service'' = Some entry_restart_service"
  "get_entry ''scale_service'' = Some entry_scale_service"
  "get_entry ''rollback_deployment'' = Some entry_rollback_deployment"
  "get_entry ''disable_feature_flag'' = Some entry_disable_feature_flag"
  "get_entry ''revert_configuration'' = Some entry_revert_configuration"
  by (simp_all add: get_entry_def CATALOG_def dget_def entry_restart_service_def entry_scale_service_def
      entry_rollback_deployment_def entry_disable_feature_flag_def entry_revert_configuration_def)

lemma catalog_fields:
  "param_fields (ac_parameters entry_restart_service) = [''service'']"
  "param_fields (ac_parameters entry_scale_service) = [''service'', ''increase_by'']"
  "param_fields (ac_parameters entry_rollback_deployment) = [''service'', ''from_version'', ''to_version'']"
  "param_fields (ac_parameters entry_disable_feature_flag) = [''service'', ''flag'']"
  "param_fields (ac_parameters entry_revert_configuration) = [''service'', ''key'', ''from_value'', ''to_value'']"
  by (simp_all add: entry_restart_service_def entry_scale_service_def entry_rollback_deployment_def
      entry_disable_feature_flag_def entry_revert_configuration_def)

text \<open>A value that stands in the part of a record the planner reads.\<close>

definition taken_from :: "json \<Rightarrow> evidence_record \<Rightarrow> bool" where
  "taken_from v r \<longleftrightarrow> v \<in> snd ` set (jdict (jget (ec_normalized_payload r) ''current'')) \<or>
     (\<exists>change older. jget (ec_normalized_payload r) ''changes_in_window'' = JList (change # older) \<and>
        v \<in> snd ` set (jdict change))"

lemma jget_in: "jget d k \<noteq> JNull \<Longrightarrow> jget d k \<in> snd ` set d"
  by (cases "map_of d k") (force simp: jget_def dest: map_of_SomeD)+

lemma dget_in: "dget d k = Some v \<Longrightarrow> v \<in> snd ` set d"
  by (force simp: dget_def dest: map_of_SomeD)

text \<open>
  The plans there are: an action with its parameters beside the service, where \<open>cited\<close> tells the values that a
  cited record names.
\<close>

inductive grounded :: "(json \<Rightarrow> bool) \<Rightarrow> string \<Rightarrow> json dict \<Rightarrow> bool" for cited :: "json \<Rightarrow> bool" where
  restart: "grounded cited ''restart_service'' []"
| scale: "grounded cited ''scale_service'' [(''increase_by'', JInt 2)]"
| rollback: "cited a \<Longrightarrow> cited b \<Longrightarrow> grounded cited ''rollback_deployment'' [(''from_version'', a), (''to_version'', b)]"
| flag: "cited a \<Longrightarrow> grounded cited ''disable_feature_flag'' [(''flag'', a)]"
| revert: "cited a \<Longrightarrow> cited b \<Longrightarrow> cited c \<Longrightarrow> c \<noteq> JNull \<Longrightarrow>
    grounded cited ''revert_configuration'' [(''key'', a), (''from_value'', b), (''to_value'', c)]"

definition cited_value :: "evidence_record list \<Rightarrow> json \<Rightarrow> bool" where
  "cited_value records v \<longleftrightarrow> (\<exists>r \<in> set records. taken_from v r)"

definition offered :: "proposer \<Rightarrow> evidence_record list \<Rightarrow> remediation_proposal \<Rightarrow> bool" where
  "offered offer records p \<longleftrightarrow> (\<exists>action params effect why why'. grounded (cited_value records) action params \<and>
     offer action params effect why = Inr (Some p, why'))"

lemma offeredI: "offer action params effect why = Inr (Some p, why') \<Longrightarrow> grounded (cited_value records) action params \<Longrightarrow>
    offered offer records p"
  unfolding offered_def by blast

lemma first_of_cases:
  obtains "first_of ty records = []" | r where "r \<in> set records" "first_of ty records = ec_normalized_payload r"
proof (cases "find (\<lambda>r. ec_evidence_type r = ty) records")
  case None
  then show ?thesis using that(1) by (simp add: first_of_def)
next
  case (Some r)
  then have "r \<in> set records" by (auto simp: find_Some_iff)
  with Some show ?thesis using that(2) by (simp add: first_of_def)
qed

lemma rollback_offered:
  assumes "plan_rollback offer component records = Inr (Some p, why)"
  shows "offered offer records p"
proof (cases rule: first_of_cases [of Deployment records])
  case 1
  then show ?thesis using assms by (simp add: plan_rollback_def jget_def jdict_def)
next
  case (2 r)
  define current where "current = jdict (jget (ec_normalized_payload r) ''current'')"
  have vals: "truthy (jget current ''version'')" "truthy (jget current ''previous_version'')"
    and off: "offer ''rollback_deployment'' [(''from_version'', jget current ''version''),
      (''to_version'', jget current ''previous_version'')]
      (str_json component @ '' returns to '' @ str_json (jget current ''previous_version'') @ ''; its error rate returns below 5%'')
      ''rollback to the previously deployed version'' = Inr (Some p, why)"
    using assms by (auto simp: plan_rollback_def 2(2) current_def [symmetric] Let_def split: if_splits)
  have "cited_value records (jget current k)" if "truthy (jget current k)" for k
  proof -
    have "jget current k \<noteq> JNull" using that by auto
    then have "jget current k \<in> snd ` set current" by (rule jget_in)
    then show ?thesis using 2(1) by (auto simp: cited_value_def taken_from_def current_def)
  qed
  with vals have "grounded (cited_value records) ''rollback_deployment''
      [(''from_version'', jget current ''version''), (''to_version'', jget current ''previous_version'')]"
    by (intro grounded.rollback)
  with off show ?thesis by (rule offeredI)
qed

lemma configuration_offered:
  assumes "plan_configuration offer component records = Inr (Some p, why)"
  shows "offered offer records p"
proof -
  obtain change older where ch: "jget (first_of Configuration records) ''changes_in_window'' = JList (change # older)"
    and pc: "plan_change offer component (jdict change) = Inr (Some p, why)"
    using assms by (auto simp: plan_configuration_def split: json.splits list.splits)
  obtain r where r: "r \<in> set records" "first_of Configuration records = ec_normalized_payload r"
    using ch by (cases rule: first_of_cases [of Configuration records]) (simp_all add: jget_def)
  have cited: "cited_value records v" if "v \<in> snd ` set (jdict change)" for v
    using that r ch by (auto simp: cited_value_def taken_from_def)
  obtain k where k: "dget (jdict change) ''key'' = Some k"
    using pc by (auto simp: plan_change_def split: option.splits)
  show ?thesis
  proof (cases "startswith (str_json k) ''feature.''")
    case True
    then show ?thesis using pc k
      by (auto simp: plan_change_def intro!: offeredI grounded.flag cited dget_in)
  next
    case False
    then obtain v where v: "dget (jdict change) ''new_value'' = Some v" "jget (jdict change) ''old_value'' \<noteq> JNull"
      using pc k by (auto simp: plan_change_def split: if_splits option.splits)
    show ?thesis using pc k v False
      by (auto simp: plan_change_def intro!: offeredI grounded.revert cited elim: dget_in jget_in)
  qed
qed

lemma plan_offered:
  assumes "plan i n report evidence = Inr (Some p, why)"
  defines "component \<equiv> jget (jdict (jget report ''root_cause_hypothesis'')) ''component''"
  shows "\<exists>reason. offered (planned i n component reason)
    (cited_records (text_items (jget report ''supporting_evidence'')) component evidence) p"
  using assms(1) unfolding plan_def Let_def component_def [symmetric]
  by (auto dest: rollback_offered configuration_offered intro: offeredI grounded.restart grounded.scale split: if_splits)

text \<open>
  C35. The planner invents nothing: a proposal made from a root-cause report acts on the component the report names,
  and is a restart, a scale-up by two, or an action whose every other parameter (versions, flag, key and values)
  stands in an evidence record that the report cites and that is about that component.
\<close>

theorem planned_from_cited_evidence:
  assumes "plan i n report evidence = Inr (Some p, why)"
  defines "component \<equiv> jget (jdict (jget report ''root_cause_hypothesis'')) ''component''"
  shows "\<exists>params. rp_parameters p = (''service'', component) # params \<and>
    grounded (\<lambda>v. \<exists>r \<in> set evidence. uuid_str (ec_evidence_id r) \<in> set (text_items (jget report ''supporting_evidence'')) \<and>
        JStr (ec_subject_service r) = component \<and> taken_from v r) (rp_action_id p) params"
proof -
  obtain reason action params effect why why' where
    g: "grounded (cited_value (cited_records (text_items (jget report ''supporting_evidence'')) component evidence)) action params"
    and p: "planned i n component reason action params effect why = Inr (Some p, why')"
    using plan_offered [OF assms(1)] unfolding component_def offered_def by blast
  have c: "cited_value (cited_records (text_items (jget report ''supporting_evidence'')) component evidence) =
      (\<lambda>v. \<exists>r \<in> set evidence. uuid_str (ec_evidence_id r) \<in> set (text_items (jget report ''supporting_evidence'')) \<and>
        JStr (ec_subject_service r) = component \<and> taken_from v r)"
    by (auto simp: fun_eq_iff cited_value_def cited_records_def)
  have "dmerge [(''service'', component)] params = (''service'', component) # params"
    using g by cases (simp_all add: dmerge_def)
  with g planned_SomeD [OF p] show ?thesis unfolding c by auto
qed

text \<open>
  C36. Every plan is a well-formed proposal of the catalog: its action is a catalog entry, its parameters are
  exactly the fields of that entry's parameter model, and its texts keep the bounds that recording a proposal asks for.
\<close>

theorem planned_fits_catalog:
  assumes "plan i n report evidence = Inr (Some p, why)"
  shows "\<exists>entry. get_entry (rp_action_id p) = Some entry \<and> map fst (rp_parameters p) = param_fields (ac_parameters entry) \<and>
    proposal_fields_ok p \<and> rp_incident_id p = i \<and> rp_investigation_id p = Some n"
proof -
  let ?component = "jget (jdict (jget report ''root_cause_hypothesis'')) ''component''"
  obtain reason action params effect why why' cited where g: "grounded cited action params"
    and p: "planned i n ?component reason action params effect why = Inr (Some p, why')"
    using plan_offered [OF assms] unfolding offered_def by blast
  have "\<exists>entry. get_entry action = Some entry \<and>
      map fst (dmerge [(''service'', ?component)] params) = param_fields (ac_parameters entry)"
    using g by cases (simp_all add: dmerge_def catalog_actions catalog_fields)
  with planned_SomeD [OF p] show ?thesis by auto
qed

definition sample_report :: "json dict" where
  "sample_report = [(''root_cause_hypothesis'', JObj [(''cause_category'', JStr ''resource_memory''), (''component'', JStr ''api'')]),
     (''supporting_evidence'', JList [])]"

lemma sample_plan: "\<exists>p why. plan 0 2 sample_report [] = Inr (Some p, why)"
  by (simp add: plan_def sample_report_def jget_def jdict_def dget_def planned_def proposal_fields_ok_def PLANNER_def
      Let_def dmerge_def)

theorem planned_from_cited_evidence_witness:
  "\<exists>p why params. plan 0 2 sample_report [] = Inr (Some p, why) \<and> rp_parameters p = (''service'', JStr ''api'') # params"
proof -
  obtain p why where p: "plan 0 2 sample_report [] = Inr (Some p, why)" using sample_plan by blast
  with planned_from_cited_evidence [OF p] show ?thesis by (auto simp: sample_report_def jget_def jdict_def)
qed

theorem planned_fits_catalog_witness:
  "\<exists>p why entry. plan 0 2 sample_report [] = Inr (Some p, why) \<and> get_entry (rp_action_id p) = Some entry"
  using sample_plan planned_fits_catalog by blast

end
