(* ===== verification/Executor.thy ===== *)
theory Executor
  imports Catalog Py_Time
begin

text \<open>
  \<^verbatim>\<open>packages/remediation/executor.py\<close>: the executor that carries out one catalog action on the simulated
  production environment. Its Redis keys are the fields of a record, one per key pattern; documents are kept
  as JSON values, since every reader and writer of these keys goes through \<^verbatim>\<open>json.dumps\<close> and \<^verbatim>\<open>json.loads\<close>.
\<close>

subsection \<open>The environment\<close>

text \<open>
  \<open>sm_faults\<close> is \<^verbatim>\<open>chaos:{service}\<close>, \<open>sm_deployments\<close> and \<open>sm_configs\<close> the append-only registries,
  \<open>sm_flags\<close> and \<open>sm_replicas\<close> the control surfaces, \<open>sm_applied\<close> and \<open>sm_ops\<close> the executor's own keys.
  The replica count is kept as the number its decimal text stands for; \<open>sm_fresh\<close> stands for \<^verbatim>\<open>uuid4\<close>.
\<close>

record simulator =
  sm_faults :: "string \<Rightarrow> json dict option"
  sm_deployments :: "string \<Rightarrow> json dict list"
  sm_configs :: "string \<Rightarrow> json dict list"
  sm_flags :: "string \<Rightarrow> string \<Rightarrow> string option"
  sm_replicas :: "string \<Rightarrow> int option"
  sm_applied :: "string \<Rightarrow> json dict option"
  sm_ops :: "string \<Rightarrow> json dict list"
  sm_fresh :: uuid

text \<open>The executor's own clock, the wall clock of the registries and \<^verbatim>\<open>time.time()\<close>.\<close>

record exec_times =
  et_clock :: datetime
  et_now :: datetime
  et_time :: float64

record execution_request =
  rq_execution_id :: string
  rq_idempotency_key :: string
  rq_action_id :: string
  rq_catalog_version :: string
  rq_parameters :: "json dict"
  rq_target_service :: string
  rq_environment :: string
  rq_deadline :: datetime

record executor_result =
  xr_succeeded :: bool
  xr_detail :: "json dict"
  xr_error :: "string option"
  xr_retryable :: bool

datatype executor_error = Execution_timeout string | Executor_key_error string | Executor_attribute_error string

definition MAX_REPLICAS :: int where
  "MAX_REPLICAS = 10"

definition RESTART_CLEARS :: "string list" where
  "RESTART_CLEARS = [''memory-leak'', ''high-cpu'']"

definition CONFIG_KEY_NAME :: string where
  "CONFIG_KEY_NAME = ''request_pipeline_config_version''"

definition ACTOR :: string where
  "ACTOR = ''remediation-executor''"

subsection \<open>Results\<close>

definition result_to_json :: "executor_result \<Rightarrow> json dict" where
  "result_to_json r =
     [(''succeeded'', JBool (xr_succeeded r)), (''detail'', JObj (xr_detail r)),
      (''error'', jopt JStr (xr_error r)), (''retryable'', JBool (xr_retryable r))]"

definition result_from_json :: "json dict \<Rightarrow> executor_error + executor_result" where
  "result_from_json d =
     (case dget d ''succeeded'' of
        None \<Rightarrow> Inl (Executor_key_error ''succeeded'')
      | Some v \<Rightarrow> Inr \<lparr>xr_succeeded = truthy v, xr_detail = jdict (jget d ''detail''),
          xr_error = (case jget d ''error'' of JStr e \<Rightarrow> Some e | _ \<Rightarrow> None),
          xr_retryable = truthy (jget d ''retryable'')\<rparr>)"

abbreviation succeeded_with :: "json dict \<Rightarrow> executor_result" where
  "succeeded_with d \<equiv> \<lparr>xr_succeeded = True, xr_detail = d, xr_error = None, xr_retryable = False\<rparr>"

abbreviation failed_with :: "json dict \<Rightarrow> string \<Rightarrow> executor_result" where
  "failed_with d e \<equiv> \<lparr>xr_succeeded = False, xr_detail = d, xr_error = Some e, xr_retryable = False\<rparr>"

subsection \<open>The simulated change system\<close>

definition latest_record :: "json dict list \<Rightarrow> json dict option" where
  "latest_record rs = (if rs = [] then None else Some (last rs))"

definition current_deployment :: "string \<Rightarrow> simulator \<Rightarrow> json dict option" where
  "current_deployment service st = latest_record (sm_deployments st service)"

definition find_deployment :: "string \<Rightarrow> string \<Rightarrow> simulator \<Rightarrow> json dict option" where
  "find_deployment service version st =
     find (\<lambda>r. jget r ''version'' = JStr version) (rev (sm_deployments st service))"

definition current_config :: "string \<Rightarrow> simulator \<Rightarrow> json dict option" where
  "current_config service st = latest_record (sm_configs st service)"

definition or_empty :: "json dict option \<Rightarrow> json dict" where
  "or_empty d = (case d of None \<Rightarrow> [] | Some x \<Rightarrow> x)"

definition record_rollback ::
  "exec_times \<Rightarrow> string \<Rightarrow> string \<Rightarrow> string \<Rightarrow> json \<Rightarrow> simulator \<Rightarrow> json dict \<times> simulator" where
  "record_rollback ts service environment version commit_sha st =
     (let current = or_empty (current_deployment service st);
          r = [(''deployment_id'', JStr (uuid_str (sm_fresh st))), (''service'', JStr service),
               (''environment'', JStr environment), (''version'', JStr version),
               (''previous_version'', jget current ''version''), (''commit_sha'', commit_sha),
               (''deployed_at'', JStr (isoformat (et_now ts))), (''deployed_by'', JStr ACTOR),
               (''change_type'', JStr ''rollback'')]
      in (r, st\<lparr>sm_deployments := (sm_deployments st)(service := sm_deployments st service @ [r]),
                sm_fresh := Suc (sm_fresh st)\<rparr>))"

definition record_config ::
  "exec_times \<Rightarrow> string \<Rightarrow> string \<Rightarrow> string \<Rightarrow> simulator \<Rightarrow> json dict \<times> simulator" where
  "record_config ts service environment new_value st =
     (let current = or_empty (current_config service st);
          r = [(''change_id'', JStr (uuid_str (sm_fresh st))), (''service'', JStr service),
               (''environment'', JStr environment), (''key'', JStr CONFIG_KEY_NAME),
               (''old_value'', jget current ''new_value''), (''new_value'', JStr new_value),
               (''changed_at'', JStr (isoformat (et_now ts))), (''changed_by'', JStr ACTOR)]
      in (r, st\<lparr>sm_configs := (sm_configs st)(service := sm_configs st service @ [r]),
                sm_fresh := Suc (sm_fresh st)\<rparr>))"

subsection \<open>Actions\<close>

text \<open>\<^verbatim>\<open>_clear_fault\<close>: the scenario of a fault is a text (\<^verbatim>\<open>simulator/chaos\<close>); \<open>None\<close> becomes \<^verbatim>\<open>null\<close> in a result.\<close>

definition clear_fault :: "string \<Rightarrow> string list \<Rightarrow> simulator \<Rightarrow> json \<times> simulator" where
  "clear_fault service scenarios st =
     (case sm_faults st service of
        None \<Rightarrow> (JNull, st)
      | Some fault \<Rightarrow>
          (case jget fault ''scenario'' of
             JStr sc \<Rightarrow> if sc \<in> set scenarios
                       then (JStr sc, st\<lparr>sm_faults := (sm_faults st)(service := None)\<rparr>) else (JNull, st)
           | _ \<Rightarrow> (JNull, st)))"

type_synonym action_handler =
  "exec_times \<Rightarrow> execution_request \<Rightarrow> params \<Rightarrow> simulator \<Rightarrow> (executor_error + executor_result) \<times> simulator"

definition no_attribute :: "string \<Rightarrow> simulator \<Rightarrow> (executor_error + executor_result) \<times> simulator" where
  "no_attribute name st = (Inl (Executor_attribute_error name), st)"

definition restart_service :: action_handler where
  "restart_service ts req p st =
     (case clear_fault (p_service p) RESTART_CLEARS st of (cleared, st') \<Rightarrow>
        (Inr (succeeded_with [(''restarted'', JStr (p_service p)), (''cleared_fault'', cleared)]), st'))"

definition scale_service :: action_handler where
  "scale_service ts req p st =
     (case p of
        ScaleServiceParams service n \<Rightarrow>
          (let before = (case sm_replicas st service of None \<Rightarrow> 1 | Some m \<Rightarrow> m); after = before + n
           in if after > MAX_REPLICAS
              then (Inr (failed_with [(''replicas'', JInt before)]
                      (''would exceed '' @ str_int MAX_REPLICAS @ '' replicas'')), st)
              else (Inr (succeeded_with [(''replicas_before'', JInt before), (''replicas_after'', JInt after)]),
                    st\<lparr>sm_replicas := (sm_replicas st)(service := Some after)\<rparr>))
      | _ \<Rightarrow> no_attribute ''increase_by'' st)"

definition rollback_deployment :: action_handler where
  "rollback_deployment ts req p st =
     (case p of
        RollbackDeploymentParams service from_v to_v \<Rightarrow>
          (let running = jget (or_empty (current_deployment service st)) ''version''
           in if running = JStr to_v
              then (case clear_fault service [''bad-deployment''] st of (cleared, st') \<Rightarrow>
                      (Inr (succeeded_with [(''already_at'', JStr to_v), (''cleared_fault'', cleared),
                                            (''no_op'', JBool True)]), st'))
              else if running \<noteq> JStr from_v
              then (Inr (failed_with [(''running'', running)]
                      (''target changed: '' @ service @ '' runs '' @ str_json running @ '', not '' @ from_v)), st)
              else
                (case record_rollback ts service (rq_environment req) to_v
                        (jget (or_empty (find_deployment service to_v st)) ''commit_sha'') st of (r, st1) \<Rightarrow>
                 (case clear_fault service [''bad-deployment''] st1 of (cleared, st2) \<Rightarrow>
                    (Inr (succeeded_with [(''deployment_id'', jget r ''deployment_id''), (''from_version'', JStr from_v),
                            (''to_version'', JStr to_v), (''cleared_fault'', cleared)]), st2))))
      | _ \<Rightarrow> no_attribute ''to_version'' st)"

definition disable_feature_flag :: action_handler where
  "disable_feature_flag ts req p st =
     (case p of
        DisableFeatureFlagParams service f \<Rightarrow>
          (Inr (succeeded_with [(''flag'', JStr f), (''previous'', jopt JStr (sm_flags st service f)),
                                (''now'', JStr ''false'')]),
           st\<lparr>sm_flags := (sm_flags st)(service := (sm_flags st service)(f := Some ''false''))\<rparr>)
      | _ \<Rightarrow> no_attribute ''flag'' st)"

definition revert_configuration :: action_handler where
  "revert_configuration ts req p st =
     (case p of
        RevertConfigurationParams service k from_v to_v \<Rightarrow>
          if k \<noteq> CONFIG_KEY_NAME then (Inr (failed_with [] (''unknown configuration key '' @ repr_str k)), st)
          else
            (let current = jget (or_empty (current_config service st)) ''new_value''
             in if py_eq current to_v
                then (case clear_fault service [''bad-configuration''] st of (cleared, st') \<Rightarrow>
                        (Inr (succeeded_with [(''already'', current), (''cleared_fault'', cleared),
                                              (''no_op'', JBool True)]), st'))
                else if \<not> py_eq current from_v
                then (Inr (failed_with [(''current'', current)]
                        (''target changed: '' @ k @ '' is '' @ repr_json current @ '', not '' @ repr_json from_v)), st)
                else
                  (case record_config ts service (rq_environment req) (str_json to_v) st of (r, st1) \<Rightarrow>
                   (case clear_fault service [''bad-configuration''] st1 of (cleared, st2) \<Rightarrow>
                      (Inr (succeeded_with [(''change_id'', jget r ''change_id''), (''key'', JStr k), (''now'', to_v),
                                            (''cleared_fault'', cleared)]), st2))))
      | _ \<Rightarrow> no_attribute ''key'' st)"

text \<open>\<^verbatim>\<open>getattr(self, "_" + action_id)\<close>.\<close>

definition handler_of :: "string \<Rightarrow> action_handler option" where
  "handler_of action_id =
     map_of [(''restart_service'', restart_service), (''scale_service'', scale_service),
             (''rollback_deployment'', rollback_deployment), (''disable_feature_flag'', disable_feature_flag),
             (''revert_configuration'', revert_configuration)] action_id"

subsection \<open>Executing a request\<close>

definition inspect :: "string \<Rightarrow> simulator \<Rightarrow> executor_error + executor_result option" where
  "inspect key st =
     (case sm_applied st key of None \<Rightarrow> Inr None | Some d \<Rightarrow> map_sum id Some (result_from_json d))"

text \<open>Why a request is refused before anything is done, with the parameters when it is not.\<close>

definition checked_params :: "validator \<Rightarrow> execution_request \<Rightarrow> executor_result + params" where
  "checked_params model_validate req =
     (case get_entry (rq_action_id req) of
        None \<Rightarrow> Inl (failed_with [] (rq_action_id req @ '' is not a current catalog action''))
      | Some entry \<Rightarrow>
          if rq_catalog_version req \<noteq> CATALOG_VERSION
          then Inl (failed_with [] (rq_action_id req @ '' is not a current catalog action''))
          else
            (case validate model_validate entry (rq_parameters req) of
               (None, problems) \<Rightarrow> Inl (failed_with [] (''invalid parameters: '' @ join ''; '' problems))
             | (Some p, problems) \<Rightarrow>
                 if p_service p \<noteq> rq_target_service req
                 then Inl (failed_with [] ''parameters target a different service'')
                 else if rq_environment req \<notin> set (ac_allowed_environments entry)
                 then Inl (failed_with [] (rq_action_id req @ '' not allowed in '' @ rq_environment req))
                 else Inr p))"

definition applied_record :: "exec_times \<Rightarrow> execution_request \<Rightarrow> executor_result \<Rightarrow> simulator \<Rightarrow> simulator" where
  "applied_record ts req r st =
     st\<lparr>sm_applied := (sm_applied st)(rq_idempotency_key req \<mapsto> result_to_json r),
        sm_ops := (sm_ops st)(rq_target_service req := sm_ops st (rq_target_service req) @
          [[(''at'', JFloat (et_time ts)), (''action'', JStr (rq_action_id req)),
            (''parameters'', JObj (rq_parameters req)), (''idempotency_key'', JStr (rq_idempotency_key req)),
            (''succeeded'', JBool (xr_succeeded r)), (''error'', jopt JStr (xr_error r))]])\<rparr>"

definition execute ::
  "validator \<Rightarrow> exec_times \<Rightarrow> execution_request \<Rightarrow> simulator \<Rightarrow> (executor_error + executor_result) \<times> simulator" where
  "execute model_validate ts req st =
     (case inspect (rq_idempotency_key req) st of
        Inl e \<Rightarrow> (Inl e, st)
      | Inr (Some previous) \<Rightarrow> (Inr previous, st)
      | Inr None \<Rightarrow>
          (case checked_params model_validate req of
             Inl refused \<Rightarrow> (Inr refused, st)
           | Inr p \<Rightarrow>
               if et_clock ts \<ge> rq_deadline req
               then (Inl (Execution_timeout ''deadline passed before the action started''), st)
               else
                 (case handler_of (rq_action_id req) of
                    None \<Rightarrow> no_attribute (''_'' @ rq_action_id req) st
                  | Some handle \<Rightarrow>
                      (case handle ts req p st of
                         (Inl e, st') \<Rightarrow> (Inl e, st')
                       | (Inr r, st') \<Rightarrow> (Inr r, applied_record ts req r st')))))"

subsection \<open>What a request does\<close>

named_theorems action_defs \<open>the actions of the executor\<close>

declare restart_service_def [action_defs] scale_service_def [action_defs] rollback_deployment_def [action_defs]
  disable_feature_flag_def [action_defs] revert_configuration_def [action_defs] no_attribute_def [action_defs]

lemma result_round_trip: "result_from_json (result_to_json r) = Inr r"
  by (cases r) (auto simp: result_from_json_def result_to_json_def dget_def jget_def jdict_def split: option.splits)

lemma inspect_applied: "sm_applied st key = Some (result_to_json r) \<Longrightarrow> inspect key st = Inr (Some r)"
  by (simp add: inspect_def result_round_trip)

lemma handler_of_cases:
  assumes "handler_of action_id = Some handle"
  obtains "handle = restart_service" | "handle = scale_service" | "handle = rollback_deployment"
    | "handle = disable_feature_flag" | "handle = revert_configuration"
  using assms by (auto simp: handler_of_def split: if_splits)

text \<open>\<open>execute_cases\<close>: a request was seen before, was refused, or was carried out by its action.\<close>

lemma execute_cases:
  assumes "execute v ts req st = (out, st')"
  obtains (seen) "inspect (rq_idempotency_key req) st = map_sum id Some out" "st' = st"
    | (refused) r where "inspect (rq_idempotency_key req) st = Inr None" "checked_params v req = Inl r" "out = Inr r" "st' = st"
    | (raised) e where "inspect (rq_idempotency_key req) st = Inr None" "out = Inl e"
        "st' = st \<or> (\<exists>handle p. handler_of (rq_action_id req) = Some handle \<and> handle ts req p st = (Inl e, st'))"
    | (acted) p handle r st1 where "inspect (rq_idempotency_key req) st = Inr None" "checked_params v req = Inr p"
        "et_clock ts < rq_deadline req" "handler_of (rq_action_id req) = Some handle" "handle ts req p st = (Inr r, st1)"
        "out = Inr r" "st' = applied_record ts req r st1"
  using assms unfolding execute_def
  by (fastforce split: sum.splits option.splits if_splits prod.splits simp: no_attribute_def)

lemma clear_fault_frame:
  "clear_fault service scs st = (c, st') \<Longrightarrow> sm_deployments st' = sm_deployments st \<and> sm_configs st' = sm_configs st \<and>
     sm_flags st' = sm_flags st \<and> sm_replicas st' = sm_replicas st \<and> sm_applied st' = sm_applied st \<and>
     sm_ops st' = sm_ops st \<and> (\<forall>other. other \<noteq> service \<longrightarrow> sm_faults st' other = sm_faults st other)"
  by (auto simp: clear_fault_def split: option.splits json.splits if_splits)

lemma action_frame:
  assumes "handler_of action_id = Some handle" "handle ts req p st = (out, st')"
  shows "sm_applied st' = sm_applied st" "sm_ops st' = sm_ops st"
    "other \<noteq> p_service p \<Longrightarrow> sm_faults st' other = sm_faults st other \<and> sm_deployments st' other = sm_deployments st other \<and>
       sm_configs st' other = sm_configs st other \<and> sm_flags st' other = sm_flags st other \<and>
       sm_replicas st' other = sm_replicas st other"
    "out = Inl e \<Longrightarrow> st' = st"
  using handler_of_cases [OF assms(1)] assms(2)
  by (cases; auto simp: action_defs Let_def record_rollback_def record_config_def dest!: clear_fault_frame
      split: params.splits if_splits prod.splits)+

lemma action_replicas:
  assumes "handler_of action_id = Some handle" "handle ts req p st = (out, st')" "sm_replicas st' service = Some n"
  shows "sm_replicas st service = Some n \<or> n \<le> MAX_REPLICAS"
  using handler_of_cases [OF assms(1)] assms(2,3)
  by (cases; auto simp: action_defs Let_def record_rollback_def record_config_def dest!: clear_fault_frame
      split: params.splits if_splits prod.splits)

lemma applied_record_simps [simp]:
  "sm_faults (applied_record ts req r st) = sm_faults st" "sm_deployments (applied_record ts req r st) = sm_deployments st"
  "sm_configs (applied_record ts req r st) = sm_configs st" "sm_flags (applied_record ts req r st) = sm_flags st"
  "sm_replicas (applied_record ts req r st) = sm_replicas st"
  "sm_applied (applied_record ts req r st) = (sm_applied st)(rq_idempotency_key req \<mapsto> result_to_json r)"
  by (simp_all add: applied_record_def)

subsection \<open>Properties\<close>

text \<open>Requests carried out one after the other, each with its own validator and clock readings.\<close>

fun execute_all :: "(validator \<times> exec_times \<times> execution_request) list \<Rightarrow> simulator \<Rightarrow> simulator" where
  "execute_all [] st = st"
| "execute_all ((v, ts, req) # reqs) st = execute_all reqs (snd (execute v ts req st))"

lemma inspect_answers:
  "inspect key st = Inr None \<longleftrightarrow> sm_applied st key = None"
  "inspect key st = Inr (Some r) \<longleftrightarrow> (\<exists>d. sm_applied st key = Some d \<and> result_from_json d = Inr r)"
  by (cases "sm_applied st key"; simp add: inspect_def; cases "result_from_json (the (sm_applied st key))"; simp)+

lemma applied_stays:
  assumes "sm_applied st key = Some d"
  shows "sm_applied (snd (execute v ts req st)) key = Some d"
proof -
  obtain out st' where run: "execute v ts req st = (out, st')" by (rule prod.exhaust)
  from run have "sm_applied st' key = Some d"
  proof (cases rule: execute_cases)
    case (raised e)
    then have "st' = st" using action_frame(4) by blast
    then show ?thesis using assms by simp
  next
    case (acted p handle r st1)
    have "rq_idempotency_key req \<noteq> key" using acted(1) assms by (auto simp: inspect_answers)
    then show ?thesis using acted(7) action_frame(1) [OF acted(4,5)] assms by simp
  qed (use assms in simp_all)
  with run show ?thesis by simp
qed

lemma applied_stays_all: "sm_applied st key = Some d \<Longrightarrow> sm_applied (execute_all reqs st) key = Some d"
  by (induction reqs st rule: execute_all.induct) (simp_all add: applied_stays)

lemma execute_applied:
  "sm_applied st (rq_idempotency_key req) = Some d \<Longrightarrow> result_from_json d = Inr r \<Longrightarrow> execute v ts req st = (Inr r, st)"
  by (simp add: execute_def inspect_def)

text \<open>
  C31. Nothing is done twice under one idempotency key. After a request has returned, either nothing was done:
  the environment is unchanged and a later request under the key starts afresh, after a refusal that was not
  a success; or the result is stored for good: whatever other requests come in between, under this key or others, every
  later request under the key, at any time and whatever it asks for, returns that result and changes nothing.
\<close>

theorem executed_once_per_key:
  assumes "execute v ts req st = (Inr r, st')"
  shows "(inspect (rq_idempotency_key req) st' = Inr None \<and> st' = st \<and> \<not> xr_succeeded r) \<or>
    (\<forall>reqs v' ts' req'. rq_idempotency_key req' = rq_idempotency_key req \<longrightarrow>
       execute v' ts' req' (execute_all reqs st') = (Inr r, execute_all reqs st'))"
proof -
  have stored: "execute v' ts' req' (execute_all reqs st') = (Inr r, execute_all reqs st')"
    if "sm_applied st' (rq_idempotency_key req) = Some d" "result_from_json d = Inr r"
      "rq_idempotency_key req' = rq_idempotency_key req" for d reqs v' ts' req'
    using execute_applied [of "execute_all reqs st'" req' d r] applied_stays_all [OF that(1)] that(2,3) by simp
  from assms show ?thesis
  proof (cases rule: execute_cases)
    case seen
    then obtain d where "sm_applied st' (rq_idempotency_key req) = Some d" "result_from_json d = Inr r"
      by (auto simp: inspect_answers)
    with stored show ?thesis by blast
  next
    case (refused r')
    then show ?thesis
      by (auto simp: checked_params_def split: option.splits if_splits prod.splits)
  next
    case (acted p handle r' st1)
    have "sm_applied st' (rq_idempotency_key req) = Some (result_to_json r)" using acted(6,7) by simp
    with stored result_round_trip show ?thesis by blast
  qed simp
qed

definition sample_params :: validator where
  "sample_params cls d =
     (case cls of
        ScaleService \<Rightarrow> Inr (ScaleServiceParams ''api'' 2)
      | RollbackDeployment \<Rightarrow> Inr (RollbackDeploymentParams ''api'' ''v2'' ''v1'')
      | RevertConfiguration \<Rightarrow> Inr (RevertConfigurationParams ''api'' CONFIG_KEY_NAME (JStr ''4'') (JInt 3))
      | _ \<Rightarrow> Inl [''unexpected''])"

definition sample_request :: "string \<Rightarrow> string \<Rightarrow> execution_request" where
  "sample_request key action =
     \<lparr>rq_execution_id = ''x'', rq_idempotency_key = key, rq_action_id = action, rq_catalog_version = CATALOG_VERSION,
      rq_parameters = [(''service'', JStr ''api'')], rq_target_service = ''api'', rq_environment = ''production'',
      rq_deadline = 100\<rparr>"

definition sample_times :: exec_times where
  "sample_times = \<lparr>et_clock = 10, et_now = 10, et_time = 1\<rparr>"

definition sample_simulator :: simulator where
  "sample_simulator =
     \<lparr>sm_faults = \<lambda>_. None,
      sm_deployments = (\<lambda>_. [])(''api'' := [[(''version'', JStr ''v1'')], [(''version'', JStr ''v2'')]]),
      sm_configs = (\<lambda>_. [])(''api'' := [[(''new_value'', JStr ''4'')]]), sm_flags = \<lambda>_ _. None,
      sm_replicas = \<lambda>_. Some 9, sm_applied = \<lambda>_. None, sm_ops = \<lambda>_. [], sm_fresh = 7\<rparr>"

lemmas sample_executor_defs = sample_params_def sample_request_def sample_times_def sample_simulator_def

lemma known_entries:
  "get_entry ''rollback_deployment'' = Some entry_rollback_deployment" "get_entry ''scale_service'' = Some entry_scale_service"
  "get_entry ''revert_configuration'' = Some entry_revert_configuration"
  by (simp_all add: get_entry_def CATALOG_def catalog_entries dget_def)

lemma sample_checked:
  "checked_params sample_params (sample_request key ''rollback_deployment'') = Inr (RollbackDeploymentParams ''api'' ''v2'' ''v1'')"
  "checked_params sample_params (sample_request key ''scale_service'') = Inr (ScaleServiceParams ''api'' 2)"
  "checked_params sample_params (sample_request key ''revert_configuration'') =
     Inr (RevertConfigurationParams ''api'' CONFIG_KEY_NAME (JStr ''4'') (JInt 3))"
  by (simp_all add: checked_params_def sample_request_def known_entries validate_def)
    (simp_all add: catalog_entries ENVS_def sample_params_def)

lemma checked_params_key: "checked_params v (req\<lparr>rq_idempotency_key := key\<rparr>) = checked_params v req"
  by (simp add: checked_params_def split: option.split prod.split)

lemma execute_acts:
  assumes "inspect (rq_idempotency_key req) st = Inr None" "checked_params v req = Inr p" "et_clock ts < rq_deadline req"
    "handler_of (rq_action_id req) = Some handle" "handle ts req p st = (Inr r, st1)"
  shows "execute v ts req st = (Inr r, applied_record ts req r st1)"
  using assms by (simp add: execute_def)

lemma sample_fresh: "inspect key sample_simulator = Inr None"
  by (simp add: inspect_def sample_simulator_def)

lemma sample_acts:
  assumes "handler_of action = Some handle" "checked_params sample_params (sample_request key action) = Inr p"
    "handle sample_times (sample_request key action) p sample_simulator = (Inr r, st1)"
  shows "execute sample_params sample_times (sample_request key action) sample_simulator =
      (Inr r, applied_record sample_times (sample_request key action) r st1)"
proof -
  have "rq_action_id (sample_request key action) = action" "et_clock sample_times < rq_deadline (sample_request key action)"
    by (simp_all add: sample_request_def sample_times_def)
  with assms execute_acts [OF sample_fresh] show ?thesis by metis
qed

lemma sample_rollback:
  "\<exists>r st. execute sample_params sample_times (sample_request ''k'' ''rollback_deployment'') sample_simulator = (Inr r, st) \<and>
     xr_succeeded r \<and> inspect ''k2'' st = Inr None"
proof -
  let ?p = "RollbackDeploymentParams ''api'' ''v2'' ''v1''" and ?req = "sample_request ''k'' ''rollback_deployment''"
  obtain r st1 where run: "rollback_deployment sample_times ?req ?p sample_simulator = (Inr r, st1)" "xr_succeeded r"
    by (simp add: action_defs Let_def current_deployment_def latest_record_def or_empty_def jget_def
        record_rollback_def clear_fault_def sample_simulator_def)
  have h: "handler_of ''rollback_deployment'' = Some rollback_deployment" by (simp add: handler_of_def)
  have "inspect ''k2'' (applied_record sample_times ?req r st1) = Inr None"
    using action_frame(1) [OF h run(1)] by (simp add: inspect_def sample_request_def sample_simulator_def)
  with sample_acts [OF h sample_checked(1) run(1)] run(2) show ?thesis by blast
qed

theorem executed_once_per_key_witness:
  "\<exists>r st. execute sample_params sample_times (sample_request ''k'' ''rollback_deployment'') sample_simulator = (Inr r, st) \<and>
     (let later = execute_all [(sample_params, sample_times, sample_request ''k2'' ''scale_service'')] st
      in execute sample_params sample_times (sample_request ''k'' ''rollback_deployment'') later = (Inr r, later))"
proof -
  obtain r st where run: "execute sample_params sample_times (sample_request ''k'' ''rollback_deployment'') sample_simulator =
      (Inr r, st)" "xr_succeeded r" using sample_rollback by blast
  then show ?thesis using executed_once_per_key [OF run(1)] unfolding Let_def by blast
qed

text \<open>
  C32. An execution acts on its target only: whatever is asked and whatever the outcome, faults, deployments,
  configuration, flags and replicas of every other service are what they were.
\<close>

theorem execution_confined_to_target:
  assumes "execute v ts req st = (out, st')" "other \<noteq> rq_target_service req"
  shows "sm_faults st' other = sm_faults st other \<and> sm_deployments st' other = sm_deployments st other \<and>
    sm_configs st' other = sm_configs st other \<and> sm_flags st' other = sm_flags st other \<and>
    sm_replicas st' other = sm_replicas st other"
  using assms(1)
proof (cases rule: execute_cases)
  case (raised e)
  then show ?thesis using action_frame(4) by blast
next
  case (acted p handle r st1)
  have "p_service p = rq_target_service req"
    using acted(2) by (auto simp: checked_params_def split: option.splits if_splits prod.splits)
  with action_frame(3) [OF acted(4,5), of other] assms(2) acted(7) show ?thesis by simp
qed auto

theorem execution_confined_to_target_witness:
  "\<exists>r st. execute sample_params sample_times (sample_request ''k'' ''rollback_deployment'') sample_simulator = (Inr r, st) \<and>
     xr_succeeded r \<and> sm_deployments st ''web'' = []"
proof -
  obtain r st where run: "execute sample_params sample_times (sample_request ''k'' ''rollback_deployment'') sample_simulator =
      (Inr r, st)" "xr_succeeded r" using sample_rollback by blast
  have "''web'' \<noteq> rq_target_service (sample_request ''k'' ''rollback_deployment'')" by (simp add: sample_request_def)
  from execution_confined_to_target [OF run(1) this] run show ?thesis by (auto simp: sample_simulator_def)
qed

text \<open>
  Scaling is bounded: if no service has more than ten replicas, none has more after any request.
\<close>

theorem replicas_bounded:
  assumes "execute v ts req st = (out, st')" "\<And>service n. sm_replicas st service = Some n \<Longrightarrow> n \<le> MAX_REPLICAS"
    and "sm_replicas st' service = Some n"
  shows "n \<le> MAX_REPLICAS"
  using assms(1)
proof (cases rule: execute_cases)
  case (raised e)
  then have "st' = st" using action_frame(4) by blast
  then show ?thesis using assms(2,3) by blast
next
  case (acted p handle r st1)
  have "sm_replicas st1 service = Some n" using assms(3) acted(7) by simp
  then show ?thesis using action_replicas [OF acted(4,5)] assms(2) by blast
qed (use assms(2,3) in blast)+

theorem replicas_bounded_witness:
  "\<exists>r st n. execute sample_params sample_times (sample_request ''k'' ''scale_service'') sample_simulator = (Inr r, st) \<and>
     sm_replicas st ''api'' = Some n \<and> n \<le> 10"
proof -
  let ?req = "sample_request ''k'' ''scale_service''"
  have h: "handler_of ''scale_service'' = Some scale_service" by (simp add: handler_of_def)
  obtain r where run: "scale_service sample_times ?req (ScaleServiceParams ''api'' 2) sample_simulator = (Inr r, sample_simulator)"
    by (simp add: scale_service_def Let_def MAX_REPLICAS_def sample_simulator_def)
  note ex = sample_acts [OF h sample_checked(2) run]
  have n: "sm_replicas (applied_record sample_times ?req r sample_simulator) ''api'' = Some 9"
    by (simp add: sample_simulator_def)
  have "(9 :: int) \<le> MAX_REPLICAS"
    by (rule replicas_bounded [OF ex _ n]) (simp add: sample_simulator_def MAX_REPLICAS_def)
  with ex n show ?thesis by (auto simp: MAX_REPLICAS_def)
qed

text \<open>
  A rollback is not repeated: after a rollback has succeeded, the same request under another key (a retry
  whose first result was lost) succeeds without deploying anything again.
\<close>

theorem rollback_done_once:
  assumes "execute v ts req st = (Inr r, st')" "xr_succeeded r" "inspect (rq_idempotency_key req) st = Inr None"
    and "rq_action_id req = ''rollback_deployment''"
    and "inspect key st' = Inr None" "et_clock ts' < rq_deadline req"
  shows "\<exists>r' st''. execute v ts' (req\<lparr>rq_idempotency_key := key\<rparr>) st' = (Inr r', st'') \<and> xr_succeeded r' \<and>
    jget (xr_detail r') ''no_op'' = JBool True \<and> sm_deployments st'' = sm_deployments st'"
  using assms(1)
proof (cases rule: execute_cases)
  case (acted p handle r0 st1)
  let ?req = "req\<lparr>rq_idempotency_key := key\<rparr>"
  have h: "handle = rollback_deployment" using acted(4) assms(4) by (simp add: handler_of_def)
  obtain service from_v to_v where p: "p = RollbackDeploymentParams service from_v to_v"
    using acted(5) h by (auto simp: rollback_deployment_def no_attribute_def split: params.splits)
  have "jget (or_empty (current_deployment service st1)) ''version'' = JStr to_v"
    using acted(5,6) assms(2) unfolding h p
    by (auto simp: rollback_deployment_def Let_def record_rollback_def current_deployment_def latest_record_def or_empty_def
        jget_def dest!: clear_fault_frame split: if_splits prod.splits)
  then have at: "jget (or_empty (current_deployment service st')) ''version'' = JStr to_v"
    using acted(7) by (simp add: current_deployment_def)
  obtain c st2 where cl: "clear_fault service [''bad-deployment''] st' = (c, st2)" by (rule prod.exhaust)
  have "rollback_deployment ts' ?req p st' = (Inr (succeeded_with [(''already_at'', JStr to_v), (''cleared_fault'', c),
      (''no_op'', JBool True)]), st2)"
    by (simp add: rollback_deployment_def p at cl Let_def)
  moreover have "checked_params v ?req = Inr p" using acted(2) by (simp add: checked_params_key)
  ultimately have "execute v ts' ?req st' = (Inr (succeeded_with [(''already_at'', JStr to_v), (''cleared_fault'', c),
      (''no_op'', JBool True)]), applied_record ts' ?req (succeeded_with [(''already_at'', JStr to_v), (''cleared_fault'', c),
      (''no_op'', JBool True)]) st2)"
    by (intro execute_acts [where handle = rollback_deployment]) (use assms acted(4) h in simp_all)
  then show ?thesis using clear_fault_frame [OF cl] by (simp add: jget_def)
qed (use assms in \<open>auto simp: checked_params_def split: option.splits if_splits prod.splits\<close>)

theorem rollback_done_once_witness:
  "\<exists>r st r' st'. execute sample_params sample_times (sample_request ''k'' ''rollback_deployment'') sample_simulator = (Inr r, st) \<and>
     execute sample_params sample_times (sample_request ''k2'' ''rollback_deployment'') st = (Inr r', st') \<and>
     jget (xr_detail r') ''no_op'' = JBool True"
proof -
  let ?req = "sample_request ''k'' ''rollback_deployment''"
  obtain r st where run: "execute sample_params sample_times ?req sample_simulator = (Inr r, st)" "xr_succeeded r"
    "inspect ''k2'' st = Inr None" using sample_rollback by blast
  have req: "rq_action_id ?req = ''rollback_deployment''" "et_clock sample_times < rq_deadline ?req"
    "?req\<lparr>rq_idempotency_key := ''k2''\<rparr> = sample_request ''k2'' ''rollback_deployment''"
    by (simp_all add: sample_request_def sample_times_def)
  show ?thesis using rollback_done_once [OF run(1,2) sample_fresh req(1) run(3) req(2)] run(1) req(3) by auto
qed

text \<open>
  The same does not hold of a configuration whose previous value is a number: the registry keeps the text of
  the value, which is not equal to the number, so a repeated revert is told that the target has changed.
\<close>

lemma reverted_number_refused:
  assumes "execute v ts req st = (Inr r, st')" "xr_succeeded r" "inspect (rq_idempotency_key req) st = Inr None"
    and "checked_params v req = Inr (RevertConfigurationParams service k (JStr a) (JInt n))" "a \<noteq> str_int n"
    and "jget (or_empty (current_config service st)) ''new_value'' = JStr a"
    and "rq_action_id req = ''revert_configuration''"
    and "inspect key st' = Inr None" "et_clock ts' < rq_deadline req"
  shows "\<exists>r' st''. execute v ts' (req\<lparr>rq_idempotency_key := key\<rparr>) st' = (Inr r', st'') \<and> \<not> xr_succeeded r' \<and>
    jget (xr_detail r') ''current'' = JStr (str_int n)"
  using assms(1)
proof (cases rule: execute_cases)
  case (acted p handle r0 st1)
  let ?req = "req\<lparr>rq_idempotency_key := key\<rparr>" and ?p = "RevertConfigurationParams service k (JStr a) (JInt n)"
  have h: "handle = revert_configuration" using acted(4) assms(7) by (simp add: handler_of_def)
  have p: "p = ?p" using acted(2) assms(4) by simp
  have k: "k = CONFIG_KEY_NAME" using acted(5,6) assms(2) unfolding h p
    by (auto simp: revert_configuration_def split: if_splits)
  have "jget (or_empty (current_config service st1)) ''new_value'' = JStr (str_int n)"
    using acted(5) assms(6) unfolding h p k
    by (auto simp: revert_configuration_def Let_def record_config_def current_config_def latest_record_def or_empty_def
        jget_def dest!: clear_fault_frame split: if_splits prod.splits)
  then have at: "jget (or_empty (current_config service st')) ''new_value'' = JStr (str_int n)"
    using acted(7) by (simp add: current_config_def)
  obtain e where "revert_configuration ts' ?req ?p st' = (Inr (failed_with [(''current'', JStr (str_int n))] e), st')"
    using assms(5) by (simp add: revert_configuration_def at k Let_def)
  moreover have "checked_params v ?req = Inr ?p" using assms(4) by (simp add: checked_params_key)
  ultimately have "execute v ts' ?req st' = (Inr (failed_with [(''current'', JStr (str_int n))] e),
      applied_record ts' ?req (failed_with [(''current'', JStr (str_int n))] e) st')"
    by (intro execute_acts [where handle = revert_configuration]) (use assms acted(4) h in simp_all)
  then show ?thesis by (simp add: jget_def)
qed (use assms in \<open>auto simp: checked_params_def split: option.splits if_splits prod.splits\<close>)

end
