(* ===== verification/Remediation_Properties.thy ===== *)
theory Remediation_Properties
  imports System
begin

text \<open>
  Properties of the remediation commands: what a worker may execute and when, the kill switch, approval
  decisions, the completion of an execution, and idempotent proposals.
\<close>

subsection \<open>Helper facts\<close>

lemma transition_Inr:
  assumes "transition clk k to ev actor details version s = Inr (u, s')"
  shows "\<exists>row. get_remediation k s = Some row \<and> can_transition (r_status row) to \<and>
    get_remediation k s' = Some (row\<lparr>r_status := to, r_version := r_version row + 1, r_updated_at := clk_now clk\<rparr>)"
proof -
  let ?f = "\<lambda>r. r\<lparr>r_status := to, r_version := r_version r + 1, r_updated_at := clk_now clk\<rparr>"
  obtain row x where row: "get_remediation k s = Some row" "can_transition (r_status row) to"
    and s': "s' = (set_remediation k ?f s)\<lparr>timeline := x\<rparr>"
    using assms by (auto simp: transition_def add_timeline_def lock_def)
  have "get_remediation k (set_remediation k ?f s) = Some (?f row)"
    using row(1) rem.get_update_same [of ?f k s] by simp
  then show ?thesis using row by (simp add: s' get_remediation_def)
qed

lemma view_Inr [simp]:
  "view k s = Inr (v, s') \<longleftrightarrow> s' = s \<and> (\<exists>row. get_remediation k s = Some row \<and> v = view_of s row)"
  by (auto simp: view_def lock_def)

lemma ticket_Inr:
  "ticket k x mode s = Inr (t, s') \<Longrightarrow> s' = s \<and> tk_mode t = mode \<and> tk_execution_id t = x_id x \<and>
     tk_attempt t = x_attempt_number x \<and> tk_idempotency_key t = x_idempotency_key x \<and>
     (\<exists>row. get_remediation k s = Some row \<and> tk_parameters t = r_parameters row \<and> tk_action_id t = r_action_id row \<and>
        tk_target_service t = r_target_service row \<and> tk_environment t = r_environment row \<and>
        tk_catalog_version t = r_catalog_version row)"
  by (auto simp: ticket_def view_of_def)

lemma keeps_executions:
  "keepsT executions (remediation_event clk k ty actor dec)"
  "keepsT executions (transition clk k to ev actor details version)"
  "keepsT remediations (remediation_event clk k ty actor dec)"
  by (auto simp: keepsT_def relT_def remediation_event_def transition_def add_timeline_def lock_def
      insert_outbox_event_app set_remediation_def)

text \<open>A new attempt: the execution is appended, and the remediation counts it and is leased to the owner.\<close>

lemma start_execution_result:
  assumes run: "start_execution clk row entry owner lease s = Inr (t, s')"
    and row: "get_remediation (r_id row) s = Some row"
  shows "executions s' = executions s @ [new_execution_row clk row entry owner (next_uuid s)] \<and>
    tk_mode t = Execute \<and> tk_execution_id t = next_uuid s \<and> tk_parameters t = r_parameters row \<and>
    tk_action_id t = r_action_id row \<and> tk_target_service t = r_target_service row \<and>
    tk_environment t = r_environment row \<and> tk_catalog_version t = r_catalog_version row \<and>
    tk_idempotency_key t = x_idempotency_key (new_execution_row clk row entry owner (next_uuid s)) \<and>
    (\<exists>row'. get_remediation (r_id row) s' = Some row' \<and> r_status row' = R_EXECUTING \<and>
       r_lease_owner row' = Some owner \<and> r_execution_attempts row' = r_execution_attempts row + 1)"
proof -
  let ?k = "r_id row"
  let ?x = "new_execution_row clk row entry owner (next_uuid s)"
  let ?f = "begin_attempt clk (x_attempt_number ?x) entry owner lease"
  let ?s0 = "set_remediation ?k ?f (add_execution ?x (s\<lparr>next_uuid := Suc (next_uuid s)\<rparr>))"
  obtain ev actor details s1 s2 u1 u2 where
      t: "transition clk ?k R_EXECUTING ev actor details None ?s0 = Inr (u1, s1)"
    and r: "remediation_event clk ?k RemediationStarted actor None s1 = Inr (u2, s2)"
    and k: "ticket ?k ?x Execute s2 = Inr (t, s')"
    using run by (auto simp: start_execution_def Let_def)
  have x: "x_attempt_number ?x = r_execution_attempts row + 1" "x_id ?x = next_uuid s"
    by (simp_all add: new_execution_row_def Let_def)
  have "get_remediation ?k (add_execution ?x (s\<lparr>next_uuid := Suc (next_uuid s)\<rparr>)) = Some row"
    using row by (simp add: get_remediation_def add_execution_def)
  then have s0: "get_remediation ?k ?s0 = Some (?f row)" "executions ?s0 = executions s @ [?x]"
    using rem.get_update_same [of ?f ?k "add_execution ?x (s\<lparr>next_uuid := Suc (next_uuid s)\<rparr>)"]
    by (simp_all add: begin_attempt_def set_remediation_def add_execution_def)
  obtain row' where row': "get_remediation ?k s1 = Some row'" "r_status row' = R_EXECUTING"
    "r_lease_owner row' = Some owner" "r_execution_attempts row' = r_execution_attempts row + 1"
    "r_parameters row' = r_parameters row" "r_action_id row' = r_action_id row"
    "r_target_service row' = r_target_service row" "r_environment row' = r_environment row"
    "r_catalog_version row' = r_catalog_version row"
    using transition_Inr [OF t] s0(1) x by (auto simp: begin_attempt_def)
  have same: "executions s2 = executions s @ [?x]" "get_remediation ?k s2 = get_remediation ?k s1"
    using keepsTD [OF keeps_executions(2) t] keepsTD [OF keeps_executions(1) r]
      keepsTD [OF keeps_executions(3) r] s0(2) by (simp_all add: get_remediation_def)
  show ?thesis using ticket_Inr [OF k] same row' x by auto
qed

text \<open>Nothing in starting an attempt can fail once the transition is allowed.\<close>

lemma transition_total:
  assumes "get_remediation k s = Some row" "can_transition (r_status row) to"
  shows "\<exists>s'. transition clk k to ev actor details version s = Inr ((), s')"
proof -
  let ?f = "\<lambda>r. r\<lparr>r_status := to, r_version := r_version r + 1, r_updated_at := clk_now clk\<rparr>"
  have "get_remediation k (set_remediation k ?f s) = Some (?f row)"
    using assms(1) rem.get_update_same [of ?f k s] by simp
  then show ?thesis
    using assms by (simp add: transition_def add_timeline_def lock_def the_or_def tx_run)
qed

lemma remediation_event_total:
  "get_remediation k s = Some row \<Longrightarrow> \<exists>s'. remediation_event clk k ty actor dec s = Inr ((), s')"
  by (simp add: remediation_event_def lock_def the_or_def tx_run insert_outbox_event_app)

lemma start_execution_total:
  assumes row: "get_remediation (r_id row) s = Some row" "can_transition (r_status row) R_EXECUTING"
  shows "\<exists>t s'. start_execution clk row entry owner lease s = Inr (t, s')"
proof -
  let ?k = "r_id row"
  let ?x = "new_execution_row clk row entry owner (next_uuid s)"
  let ?f = "begin_attempt clk (x_attempt_number ?x) entry owner lease"
  let ?t = "add_execution ?x (s\<lparr>next_uuid := Suc (next_uuid s)\<rparr>)"
  have "get_remediation ?k ?t = Some row" using row by (simp add: get_remediation_def add_execution_def)
  then have s0: "get_remediation ?k (set_remediation ?k ?f ?t) = Some (?f row)"
    using rem.get_update_same [of ?f ?k ?t] by (simp add: begin_attempt_def)
  then have "can_transition (r_status (?f row)) R_EXECUTING" using row(2) by (simp add: begin_attempt_def)
  note * = transition_total [OF s0 this]
  let ?det = "[(''execution_id'', jid (next_uuid s)), (''attempt'', JInt (x_attempt_number ?x)),
    (''idempotency_key'', JStr (x_idempotency_key ?x)), (''deadline'', JStr (isoformat (x_deadline_at ?x)))]"
  obtain s1 where t: "transition clk ?k R_EXECUTING ''execution_started'' (''worker:'' @ owner) ?det None
      (set_remediation ?k ?f ?t) = Inr ((), s1)" using * by blast
  then obtain row1 where row1: "get_remediation ?k s1 = Some row1" using transition_Inr by blast
  then obtain s2 where r: "remediation_event clk ?k RemediationStarted (''worker:'' @ owner) None s1 = Inr ((), s2)"
    using remediation_event_total by blast
  have "get_remediation ?k s2 = Some row1"
    using keepsTD [OF keeps_executions(3) r] row1 by (simp add: get_remediation_def)
  then show ?thesis
    using t r by (simp add: start_execution_def Let_def tx_run new_uuid_app ticket_def view_def lock_def the_or_def
        split: prod.split)
qed

text \<open>The three ways a claim can end.\<close>

lemma claim_execution_cases:
  assumes run: "claim_execution core clk k owner lease s = Inr (t, s')"
  obtains (idle) "t = None" "s' = s"
  | (reconcile) row x t' where "get_remediation k s = Some row" "latest_execution k s = Some x" "x_status x = X_RUNNING"
      "\<not> lease_live clk row" "interrupt_execution clk row x owner lease s = Inr (t', s')" "t = Some t'"
  | (blocked) row i code msg where "get_remediation k s = Some row" "get_incident (r_incident_id row) s = Some i"
      "execution_blocker core row (get_entry (r_action_id row)) s = Inr (Some (code, msg), s)"
      "block_execution clk k (i_id i) code msg s = Inr ((), s')" "t = None"
  | (started) row entry t' where "get_remediation k s = Some row" "r_status row \<in> {R_APPROVED, R_EXECUTING}"
      "execution_blocker core row (get_entry (r_action_id row)) s = Inr (None, s)"
      "get_entry (r_action_id row) = Some entry"
      "start_execution clk row entry owner lease s = Inr (t', s')" "t = Some t'"
proof -
  obtain row where row: "get_remediation k s = Some row" using run by (auto simp: claim_execution_def lock_def)
  have id: "r_id row = k" using rem.getD [OF row] by simp
  from run row consider "t = None" "s' = s"
    | x t' where "latest_execution k s = Some x" "x_status x = X_RUNNING" "\<not> lease_live clk row"
        "interrupt_execution clk row x owner lease s = Inr (t', s')" "t = Some t'"
    | "begin_execution core clk row owner lease s = Inr (t, s')" "r_status row \<in> {R_APPROVED, R_EXECUTING}"
    by (auto simp: claim_execution_def lock_def split: if_splits)
  then show thesis
  proof cases
    case 1
    then show thesis by (rule idle)
  next
    case 2
    then show thesis by (rule reconcile [OF row])
  next
    case 3
    obtain i b where i: "get_incident (r_incident_id row) s = Some i"
      and b: "execution_blocker core row (get_entry (r_action_id row)) s = Inr (b, s)"
      and rest: "(case b of
          Some (code, msg) \<Rightarrow> thenT (block_execution clk (r_id row) (i_id i) code msg) (returnT None)
        | None \<Rightarrow> bindT (the_or (get_entry (r_action_id row)) (AssertionFailed ''entry is not None'')) (\<lambda>e.
            bindT (start_execution clk row e owner lease) (\<lambda>t. returnT (Some t)))) s = Inr (t, s')"
      using 3(1) unfolding begin_execution_def Let_def by (auto dest: execution_blocker_reads)
    show thesis
    proof (cases b)
      case None
      then obtain e t' where "get_entry (r_action_id row) = Some e"
        "start_execution clk row e owner lease s = Inr (t', s')" "t = Some t'" using rest by auto
      then show thesis using started [OF row 3(2)] b None by simp
    next
      case (Some c)
      then show thesis using blocked [OF row i, of "fst c" "snd c"] rest b id by (cases c) auto
    qed
  qed
qed

subsection \<open>Claims\<close>

text \<open>
  C16. A worker executes only what was cleared at that moment: when a claim hands out a ticket to execute,
  the remediation was APPROVED or EXECUTING, no kill switch that covers it was engaged, its only approval
  decision approved exactly this proposal under exactly this policy decision, the catalog entry was
  current, the parameters validated, the target was known and attempts were left. The claim appends
  exactly one RUNNING execution, the ticket carries the approved parameters, and the remediation is
  leased to the claiming worker with the attempt counted.
\<close>

theorem claim_execution_cleared:
  assumes "claim_execution core clk k owner lease s = Inr (Some t, s')" and "tk_mode t = Execute"
  shows "\<exists>row a e row'. get_remediation k s = Some row \<and> r_status row \<in> {R_APPROVED, R_EXECUTING} \<and>
    GLOBAL_SCOPE \<notin> engaged_scopes s \<and> service_scope (r_target_service row) \<notin> engaged_scopes s \<and>
    approvals_of k s = [a] \<and> ap_decision a = Approved \<and> ap_proposal_hash a = r_proposal_hash row \<and>
    r_policy_decision_id row = Some (ap_policy_decision_id a) \<and>
    get_entry (r_action_id row) = Some e \<and> r_catalog_version row = CATALOG_VERSION \<and>
    snd (validate (rc_model_validate core) e (r_parameters row)) = [] \<and>
    r_target_service row \<in> set (rc_services core) \<and> r_execution_attempts row < ac_max_attempts e \<and>
    executions s' = executions s @ [new_execution_row clk row e owner (tk_execution_id t)] \<and>
    tk_parameters t = r_parameters row \<and> get_remediation k s' = Some row' \<and> r_status row' = R_EXECUTING \<and>
    r_lease_owner row' = Some owner \<and> r_execution_attempts row' = r_execution_attempts row + 1"
  using assms(1)
proof (cases rule: claim_execution_cases)
  case (reconcile row x t')
  then have "tk_mode t = Reconcile" by (auto simp: interrupt_execution_def dest: ticket_Inr)
  with assms(2) show ?thesis by simp
next
  case (started row e t')
  have id: "r_id row = k" using rem.getD [OF started(1)] by simp
  have res: "executions s' = executions s @ [new_execution_row clk row e owner (next_uuid s)] \<and>
      tk_execution_id t = next_uuid s \<and> tk_parameters t = r_parameters row"
    "\<exists>row'. get_remediation k s' = Some row' \<and> r_status row' = R_EXECUTING \<and>
       r_lease_owner row' = Some owner \<and> r_execution_attempts row' = r_execution_attempts row + 1"
    using start_execution_result [OF started(5)] started(1,6) id by auto
  then obtain row' where row': "get_remediation k s' = Some row'" "r_status row' = R_EXECUTING"
    "r_lease_owner row' = Some owner" "r_execution_attempts row' = r_execution_attempts row + 1" by blast
  obtain a where a: "approvals_of k s = [a]" "ap_decision a = Approved" "ap_proposal_hash a = r_proposal_hash row"
    "r_policy_decision_id row = Some (ap_policy_decision_id a)"
    using execution_blocker_None [OF started(3)] id by (metis (no_types))
  show ?thesis
    using execution_blocker_None [OF started(3)] started(1,2,4) a row' res(1)
    by (intro exI [of _ row] exI [of _ a] exI [of _ e] exI [of _ row']) simp
qed simp_all

text \<open>The sample remediation: no switch is engaged and its approval is bound to it, so a claim starts it.\<close>

lemma sample_cleared:
  assumes "approvals s = [sample_approval]" "kill_switches s = []" "n < ac_max_attempts entry_restart_service"
  shows "execution_blocker sample_core (sample_remediation st n) (Some entry_restart_service) s = Inr (None, s)"
  using assms
  by (simp add: execution_blocker_def engaged_scopes_def approvals_of_def tx_run scalar_one_or_none_def
      validate_def sample_validate_def jget_def sample_core_def sample_approval_def sample_remediation_def
      catalog_entries)

lemma sample_ticket:
  assumes "get_remediation 2 s = Some (sample_remediation st n)" "st = R_APPROVED \<or> st = R_EXECUTING"
    and "approvals s = [sample_approval]" "kill_switches s = []" "n < ac_max_attempts entry_restart_service"
    and "map_option x_status (latest_execution 2 s) \<noteq> Some X_RUNNING" "get_incident 0 s = Some i"
  shows "\<exists>t s'. claim_execution sample_core clk 2 owner lease s = Inr (Some t, s') \<and> tk_mode t = Execute"
proof -
  let ?row = "sample_remediation st n"
  have row: "r_id ?row = 2" "r_status ?row = st" "r_action_id ?row = ''restart_service''" "r_incident_id ?row = 0"
    by (simp_all add: sample_remediation_def)
  have "can_transition st R_EXECUTING" using assms(2) by (auto simp: can_transition_def)
  then obtain t s' where go: "start_execution clk ?row entry_restart_service owner lease s = Inr (t, s')"
    using start_execution_total [of ?row s clk entry_restart_service owner lease] assms(1) row by auto
  then have "tk_mode t = Execute" using start_execution_result [OF go] assms(1) row by simp
  then show ?thesis
    using go assms row sample_cleared [OF assms(3-5), of st]
    by (auto simp: claim_execution_def begin_execution_def lock_def lock_incident_def the_or_def tx_run
        restart_entry)
qed

lemma sample_approved_claim:
  "\<exists>t s'. claim_execution sample_core clk 2 owner lease approved_db = Inr (Some t, s') \<and> tk_mode t = Execute"
  by (rule sample_ticket [of _ R_APPROVED 0])
    (simp_all add: get_remediation_def get_incident_def latest_execution_def catalog_entries sample_defs)

theorem claim_execution_cleared_witness:
  "\<exists>t s' x. claim_execution sample_core sample_clock 2 ''w1'' 120 approved_db = Inr (Some t, s') \<and>
     executions s' = [x] \<and> tk_parameters t = [(''service'', JStr ''api'')]"
proof -
  obtain t s' where run: "claim_execution sample_core sample_clock 2 ''w1'' 120 approved_db = Inr (Some t, s')"
    "tk_mode t = Execute"
    using sample_approved_claim by blast
  have row: "get_remediation 2 approved_db = Some (sample_remediation R_APPROVED 0)" "executions approved_db = []"
    by (simp_all add: get_remediation_def sample_defs)
  from claim_execution_cleared [OF run] run(1) row show ?thesis by (auto simp: sample_remediation_def)
qed

text \<open>
  A live lease does not protect an attempt whose outcome is unknown: when the latest execution is
  UNKNOWN, because a worker is reconciling an attempt whose previous owner died, and every check before
  an execution passes, a claim by anybody succeeds with a ticket to execute, however long the lease of the
  reconciling worker still runs.
\<close>

theorem unknown_attempt_ignores_lease:
  assumes "get_remediation k s = Some row" and "r_status row = R_EXECUTING"
    and "latest_execution k s = Some x" and "x_status x = X_UNKNOWN"
    and "lease_live clk row" and "r_lease_owner row = Some other" and "owner \<noteq> other"
    and "get_incident (r_incident_id row) s = Some i"
    and "execution_blocker core row (get_entry (r_action_id row)) s = Inr (None, s)"
  shows "\<exists>t s' row'. claim_execution core clk k owner lease s = Inr (Some t, s') \<and> tk_mode t = Execute \<and>
    get_remediation k s' = Some row' \<and> r_lease_owner row' = Some owner"
proof -
  have id: "r_id row = k" using rem.getD [OF assms(1)] by simp
  obtain e where e: "get_entry (r_action_id row) = Some e" using execution_blocker_None [OF assms(9)] by blast
  obtain t s' where go: "start_execution clk row e owner lease s = Inr (t, s')"
    using start_execution_total [of row s clk e owner lease] assms(1,2) id by (auto simp: can_transition_def)
  then have "claim_execution core clk k owner lease s = Inr (Some t, s')"
    using assms e id
    by (simp add: claim_execution_def begin_execution_def lock_def lock_incident_def the_or_def tx_run)
  then show ?thesis using start_execution_result [OF go] assms(1) id by auto
qed

definition reconciling_db :: db where
  "reconciling_db = executing_db\<lparr>executions := [sample_execution X_UNKNOWN]\<rparr>"

theorem unknown_attempt_ignores_lease_witness:
  "\<exists>t s'. claim_execution sample_core sample_clock 2 ''w2'' 120 reconciling_db = Inr (Some t, s') \<and>
     tk_mode t = Execute \<and> r_lease_owner (sample_remediation R_EXECUTING 1) = Some ''w1'' \<and>
     lease_live sample_clock (sample_remediation R_EXECUTING 1)"
proof -
  let ?row = "sample_remediation R_EXECUTING 1"
  have facts: "get_remediation 2 reconciling_db = Some ?row" "r_status ?row = R_EXECUTING"
    "latest_execution 2 reconciling_db = Some (sample_execution X_UNKNOWN)"
    "x_status (sample_execution X_UNKNOWN) = X_UNKNOWN" "lease_live sample_clock ?row"
    "r_lease_owner ?row = Some ''w1''" "''w2'' \<noteq> ''w1''"
    "get_incident (r_incident_id ?row) reconciling_db = Some (sample_incident REMEDIATION_IN_PROGRESS)"
    by (simp_all add: get_remediation_def get_incident_def latest_execution_def lease_live_def sample_clock_def
        reconciling_db_def sample_defs)
  have "execution_blocker sample_core ?row (get_entry (r_action_id ?row)) reconciling_db = Inr (None, reconciling_db)"
    using sample_cleared [of reconciling_db 1 R_EXECUTING] restart_entry
    by (simp add: reconciling_db_def executing_db_def sample_db_def empty_db_def sample_remediation_def catalog_entries)
  from unknown_attempt_ignores_lease [OF facts this] facts show ?thesis by blast
qed

subsection \<open>Approval decisions\<close>

lemma keeps_approvals_basic:
  "keepsT approvals (insert_outbox_event clk ty agg ref corr payload)" "keepsT approvals (lock k)"
  "keepsT approvals (lock_incident i)" "keepsT approvals (modifyT (set_remediation k f))"
  "keepsT approvals (move_incident clk i froms to reason)"
  "keepsT approvals (remediation_event clk k ty actor dec)"
  "keepsT approvals (transition clk k st ev actor details version)"
  by (auto simp: keepsT_def relT_def insert_outbox_event_app lock_def lock_incident_def set_remediation_def
      move_incident_Inr moved_def remediation_event_def transition_def add_timeline_def set_incident_def)

lemma keeps_approvals:
  "keepsT approvals (approve_remediation clk k i actor role comment d)"
  "keepsT approvals (reject_remediation clk k i approver comment d)"
  unfolding approve_remediation_def reject_remediation_def finish_cancelled_def
  by (intro keeps_rules keeps_approvals_basic)+

text \<open>
  A remediation is decided once: after a successful decision the remediation has exactly one approval
  row, it carries the approver, the decision and the proposal hash of the call; the same approver
  repeating the same decision on the same proposal gets the current state back and changes nothing, and
  any other decision is refused.
\<close>

theorem decided_once:
  assumes "decide_approval clk k approver roles approve hash did comment s = Inr (v, s')"
  shows "\<exists>a. approvals_of k s' = [a] \<and> ap_approver a = approver \<and> ap_proposal_hash a = hash \<and>
    ap_decision a = (if approve then Approved else Rejected) \<and>
    decide_approval clk' k approver roles' approve hash did' comment' s' = Inr (v, s') \<and>
    ((approver'', approve'', hash'') \<noteq> (approver, approve, hash) \<longrightarrow>
      (\<exists>m. decide_approval clk'' k approver'' roles'' approve'' hash'' did'' comment'' s' = Inl (RemediationStateError m)))"
proof -
  let ?w = "if approve then Approved else Rejected"
  obtain row where row: "get_remediation k s = Some row" using assms by (auto simp: decide_approval_def lock_def)
  have id: "r_id row = k" using rem.getD [OF row] by simp
  have "\<exists>a. approvals_of k s' = [a] \<and> ap_approver a = approver \<and> ap_proposal_hash a = hash \<and> ap_decision a = ?w \<and>
      view k s' = Inr (v, s')"
  proof (cases "approvals_of k s")
    case Nil
    with assms row obtain d i role s1 s2 where ins: "insert_approval clk row ?w approver role comment s = Inr ((), s1)"
      and hash: "hash = r_proposal_hash row"
      and act: "(if approve then approve_remediation clk k i (''human:'' @ approver)
                (hd (filter (\<lambda>r. r \<in> set (d_required_approver_roles d)) roles)) comment d
              else reject_remediation clk k i approver comment d) s1 = Inr ((), s2)" "view k s2 = Inr (v, s')"
      by (auto simp: decide_approval_def lock_def Let_def cong: if_cong split: if_splits(2))
    have "approvals s2 = approvals s1"
      using act(1) keepsTD [OF keeps_approvals(1)] keepsTD [OF keeps_approvals(2)] by (simp split: if_splits)
    then show ?thesis
      using ins act(2) Nil hash id by (auto simp: insert_approval_def approvals_of_def)
  next
    case (Cons a as)
    then show ?thesis using assms row by (auto simp: decide_approval_def lock_def Let_def split: if_splits)
  qed
  then obtain a where a: "approvals_of k s' = [a]" "ap_approver a = approver" "ap_proposal_hash a = hash"
    "ap_decision a = ?w" "view k s' = Inr (v, s')" by blast
  then obtain row' where row': "get_remediation k s' = Some row'" "v = view_of s' row'" by auto
  have again: "decide_approval c' k w rs ok h dd c s' =
      (if ap_approver a = w \<and> ap_decision a = (if ok then Approved else Rejected) \<and> ap_proposal_hash a = h
       then Inr (v, s') else Inl (RemediationStateError (''remediation '' @ uuid_str k
                   @ '' already has a decision ('' @ approval_decision_value (ap_decision a) @ '')'')))"
    for c' w rs ok h dd c
    using row' a(1) by (simp add: decide_approval_def lock_def view_def the_or_def tx_run scalar_one_or_none_def Let_def)
  show ?thesis
    by (intro exI [of _ a]) (use a in \<open>auto simp: again split: if_splits\<close>)
qed

lemma sample_decision_runs:
  "\<exists>v s'. decide_approval sample_clock 2 ''alice'' [''sre''] True ''h'' 3 None waiting_db = Inr (v, s')"
  by (simp add: decide_approval_def insert_approval_def approve_remediation_def transition_def add_timeline_def
      remediation_event_def lock_def view_def tx_run the_or_def insert_outbox_event_app can_transition_def
      move_incident_def lock_incident_def transition_incident_status_def get_remediation_def approvals_of_def
      get_incident_def get_decision_def scalar_one_or_none_def new_uuid_app table_defs sample_defs)

theorem decided_once_witness:
  "\<exists>v s' m. decide_approval sample_clock 2 ''alice'' [''sre''] True ''h'' 3 None waiting_db = Inr (v, s') \<and>
     decide_approval sample_clock 2 ''alice'' [''sre''] True ''h'' 3 None s' = Inr (v, s') \<and>
     decide_approval sample_clock 2 ''bob'' [''sre''] False ''h'' 3 None s' = Inl (RemediationStateError m)"
proof -
  obtain v s' where run: "decide_approval sample_clock 2 ''alice'' [''sre''] True ''h'' 3 None waiting_db = Inr (v, s')"
    using sample_decision_runs by blast
  have "(''bob'', False, ''h'') \<noteq> (''alice'', True, ''h'')" by simp
  with run decided_once [OF run, where clk' = sample_clock and roles' = "[''sre'']" and did' = 3 and
      comment' = None and approver'' = "''bob''" and approve'' = False and hash'' = "''h''" and
      clk'' = sample_clock and roles'' = "[''sre'']" and did'' = 3 and comment'' = None]
  show ?thesis by blast
qed

subsection \<open>Completion\<close>

text \<open>What the steps of a completion leave alone.\<close>

definition core_tables where
  "core_tables s = (remediations s, verifications s, executions s, incidents s)"

lemma keeps_core_tables:
  "keepsT core_tables (insert_outbox_event clk ty agg ref corr payload)"
  "keepsT core_tables (lock k)" "keepsT core_tables (lock_incident i)" "keepsT core_tables (view k)"
  "keepsT core_tables (add_timeline clk k ev from to actor details version)"
  "keepsT core_tables (remediation_event clk k ty actor dec)"
  "keepsT core_tables (link_evidence v e n role collected)"
  by (auto simp: keepsT_def relT_def core_tables_def insert_outbox_event_app lock_def lock_incident_def
      add_timeline_def remediation_event_def link_evidence_def)

lemma keeps_links_core: "keepsT core_tables (forT es (\<lambda>e. link_evidence v e n role collected))"
  by (intro keeps_rules keeps_core_tables)

lemma request_verification_result:
  assumes run: "request_verification core clk k entry s = Inr (u, s')" and row: "get_remediation k s = Some row"
  shows "\<exists>vid spec doc. verifications s' = verifications s @ [new_verification_row clk row spec doc vid] \<and>
    get_remediation k s' = Some (row\<lparr>r_verification_ref := Some vid\<rparr>) \<and> executions s' = executions s \<and>
    incidents s' = incidents s \<and> k \<notin> v_remediation_id ` set (verifications s)"
proof -
  let ?f = "\<lambda>r. r\<lparr>r_verification_ref := Some (next_uuid s)\<rparr>"
  let ?s1 = "set_remediation k ?f (s\<lparr>next_uuid := Suc (next_uuid s)\<rparr>)"
  have row1: "get_remediation k ?s1 = Some (?f row)"
    using row rem.get_update_same [of ?f k "s\<lparr>next_uuid := Suc (next_uuid s)\<rparr>"] by (simp add: get_remediation_def)
  let ?b = "get_baseline k ?s1"
  let ?doc = "map_option baseline_doc ?b"
  have vs: "verifications ?s1 = verifications s" by (simp add: set_remediation_def)
  obtain spec s2 s3 u1 u2 where new: "k \<notin> v_remediation_id ` set (verifications s)"
    and links: "forT (case ?b of Some b \<Rightarrow> b_evidence_ids b | None \<Rightarrow> []) (\<lambda>evidence_id.
           link_evidence (next_uuid s) evidence_id 0 ''baseline'' (case ?b of Some b \<Rightarrow> b_captured_at b | None \<Rightarrow> clk_now clk))
         (add_verification (new_verification_row clk (?f row) spec ?doc (next_uuid s)) ?s1) = Inr (u1, s2)"
    and line: "add_timeline clk k ''verification_requested'' (Some R_EXECUTED) (Some R_EXECUTED) ''incident-core''
            [(''verification_id'', jid (next_uuid s)), (''requirements'', JList [spec_json spec])] None s2 = Inr (u2, s3)"
    and out: "insert_outbox_event clk VerificationRequested Remediation (Agg_id k) (Some (r_correlation_id row))
            (VerificationRequestedPayload (next_uuid s) k (r_incident_id row) (r_action_id row) (r_target_service row) [spec])
            s3 = Inr ((), s')"
    using run row1 vs unfolding request_verification_def Let_def by (auto simp: lock_def split: sum.splits)
  have "core_tables s2 = core_tables (add_verification (new_verification_row clk (?f row) spec ?doc (next_uuid s)) ?s1)"
    using keepsTD [OF keeps_links_core links] .
  then have "core_tables s' = core_tables (add_verification (new_verification_row clk (?f row) spec ?doc (next_uuid s)) ?s1)"
    using keepsTD [OF keeps_core_tables(5) line] keepsTD [OF keeps_core_tables(1) out] by simp
  then show ?thesis using new row1
    by (intro exI [of _ "next_uuid s"] exI [of _ spec] exI [of _ ?doc])
      (simp add: core_tables_def get_remediation_def add_verification_def set_remediation_def new_verification_row_def)
qed

lemma complete_succeeded_result:
  assumes run: "complete_succeeded core clk x row i actor result s = Inr (u, s')"
    and row: "get_remediation (r_id row) s = Some row0"
  shows "\<exists>row' vrow. get_remediation (r_id row) s' = Some row' \<and> r_status row' = R_EXECUTED \<and>
    r_lease_owner row' = None \<and> r_verification_ref row' = Some (v_id vrow) \<and>
    verifications s' = verifications s @ [vrow] \<and> v_status vrow = V_PENDING \<and> v_remediation_id vrow = r_id row0 \<and>
    v_incident_id vrow = r_incident_id row0 \<and> r_id row \<notin> v_remediation_id ` set (verifications s)"
proof -
  let ?k = "r_id row"
  let ?g = "\<lambda>x. x\<lparr>x_status := X_SUCCEEDED\<rparr>"
  let ?f = "\<lambda>r. r\<lparr>r_execution_status := Some X_SUCCEEDED, r_lease_owner := None, r_lease_expires_at := None,
      r_completed_at := Some (clk_now clk)\<rparr>"
  let ?s1 = "set_remediation ?k ?f (set_execution (x_id x) ?g s)"
  have row1: "get_remediation ?k ?s1 = Some (?f row0)" "verifications ?s1 = verifications s"
    using row rem.get_update_same [of ?f ?k "set_execution (x_id x) ?g s"]
    by (simp_all add: get_remediation_def set_execution_def set_remediation_def)
  obtain det s2 s3 s4 u2 u3 u4 where
      t: "transition clk ?k R_EXECUTED ''executed'' actor det None ?s1 = Inr (u2, s2)"
    and e: "remediation_event clk ?k RemediationExecuted actor None s2 = Inr (u3, s3)"
    and v: "request_verification core clk ?k (get_entry (r_action_id row)) s3 = Inr (u4, s4)"
    and m: "move_incident clk i [REMEDIATION_IN_PROGRESS] VERIFYING ''remediation_executed'' s4 = Inr ((), s')"
    using run by (auto simp: complete_succeeded_def)
  let ?row2 = "(?f row0)\<lparr>r_status := R_EXECUTED, r_version := r_version (?f row0) + 1, r_updated_at := clk_now clk\<rparr>"
  have row2: "get_remediation ?k s2 = Some ?row2" "verifications s2 = verifications s"
    using transition_Inr [OF t] row1 t
    by (auto simp: transition_def add_timeline_def lock_def set_remediation_def)
  have "core_tables s3 = core_tables s2" using keepsTD [OF keeps_core_tables(6) e] .
  then have row3: "get_remediation ?k s3 = Some ?row2" "verifications s3 = verifications s"
    using row2 by (simp_all add: core_tables_def get_remediation_def)
  have "remediations s' = remediations s4" "verifications s' = verifications s4"
    using m by (auto simp: move_incident_Inr moved_def set_incident_def)
  then show ?thesis
    using request_verification_result [OF v row3(1)] row3(2)
    by (auto simp: get_remediation_def new_verification_row_def)
qed

text \<open>
  C26. Success and verification are one step: when a worker completes a running (or reconciled) execution
  of an EXECUTING remediation as succeeded, it held the lease, and in the same transaction the remediation
  becomes EXECUTED, releases its lease and gets exactly one new verification, PENDING and bound to the
  remediation and its incident, where there was none before.
\<close>

theorem completion_requests_verification:
  assumes "complete_execution core clk xid owner ''succeeded'' executor result err retryable s = Inr (v, s')"
    and "get_execution xid s = Some x" and "get_remediation (x_remediation_id x) s = Some row"
    and "r_status row = R_EXECUTING" and "x_status x = X_RUNNING \<or> x_status x = X_UNKNOWN"
  shows "r_lease_owner row = Some owner \<and> (\<exists>row' vrow. get_remediation (r_id row) s' = Some row' \<and>
    r_status row' = R_EXECUTED \<and> r_lease_owner row' = None \<and> r_verification_ref row' = Some (v_id vrow) \<and>
    verifications s' = verifications s @ [vrow] \<and> v_status vrow = V_PENDING \<and> v_remediation_id vrow = r_id row \<and>
    v_incident_id vrow = r_incident_id row \<and> r_id row \<notin> v_remediation_id ` set (verifications s))"
proof -
  let ?k = "r_id row"
  have k: "x_remediation_id x = ?k" using rem.getD [OF assms(3)] by simp
  let ?r = "Some (dmerge [(''attempt'', JInt (x_attempt_number x))] (case result of Some d \<Rightarrow> d | None \<Rightarrow> []))"
  let ?f = "\<lambda>r. r\<lparr>r_executor_result := ?r\<rparr>"
  define e where "e = (let e = take 2000 (case err of Some t \<Rightarrow> t | None \<Rightarrow> []) in if e = [] then None else Some e)"
  define g where "g = (\<lambda>x :: execution_row. x\<lparr>x_executor := executor, x_completed_at := Some (clk_now clk), x_result := result, x_error := e\<rparr>)"
  have "(thenT (guardT (r_lease_owner row = Some owner)
             (LeaseLostError (owner @ '' does not hold remediation '' @ uuid_str ?k)))
      (thenT (modifyT (set_execution xid g))
       (bindT (lock_incident (r_incident_id row)) (\<lambda>incident. thenT (modifyT (set_remediation ?k ?f))
         (thenT (complete_succeeded core clk x row (i_id incident) (''executor:'' @ executor) result)
           (view ?k)))))) s = Inr (v, s')"
    using assms unfolding complete_execution_def e_def g_def Let_def
    by (auto simp: bindT_getsT bindT_the_or lock_def)
  then obtain incident :: incident_row and u where own: "r_lease_owner row = Some owner"
    and run: "complete_succeeded core clk x row (i_id incident) (''executor:'' @ executor) result
        (set_remediation ?k ?f (set_execution xid g s)) = Inr (u, s')"
    by (auto simp: lock_incident_def)
  have row0: "get_remediation ?k (set_remediation ?k ?f (set_execution xid g s)) = Some (?f row)"
    "verifications (set_remediation ?k ?f (set_execution xid g s)) = verifications s"
    using assms(3) k rem.get_update_same [of ?f ?k "set_execution xid g s"]
    by (simp_all add: get_remediation_def set_execution_def set_remediation_def)
  show ?thesis using complete_succeeded_result [OF run row0(1)] row0(2) own by auto
qed

lemma sample_spec_builds:
  "\<exists>spec. build_spec (ac_verification entry_restart_service) ''restart_service'' [(''service'', JStr ''api'')] None 1 = Inr spec"
  by (simp add: build_spec_def build_check_def Let_def VerificationPolicy_def catalog_entries HEALTHY_def ERRORS_OK_def NO_NEW_ALERTS_def)

lemma sample_completion_runs:
  "\<exists>v s'. complete_execution sample_core sample_clock 5 ''w1'' ''succeeded'' ''docker'' None None False executing_db = Inr (v, s')"
proof -
  obtain spec where spec: "build_spec (ac_verification entry_restart_service) ''restart_service''
      [(''service'', JStr ''api'')] None 1 = Inr spec" using sample_spec_builds by blast
  show ?thesis
    by (simp add: complete_execution_def complete_succeeded_def request_verification_def transition_def add_timeline_def
        remediation_event_def lock_def view_def tx_run the_or_def insert_outbox_event_app can_transition_def
        move_incident_def lock_incident_def transition_incident_status_def get_remediation_def get_execution_def
        get_baseline_def get_incident_def get_decision_def new_uuid_app restart_entry Let_def spec sample_core_def table_defs
        sample_defs)
qed

theorem completion_requests_verification_witness:
  "\<exists>v s' vrow. complete_execution sample_core sample_clock 5 ''w1'' ''succeeded'' ''docker'' None None False executing_db =
       Inr (v, s') \<and> verifications s' = [vrow] \<and> v_status vrow = V_PENDING \<and> v_remediation_id vrow = 2"
proof -
  obtain v s' where run: "complete_execution sample_core sample_clock 5 ''w1'' ''succeeded'' ''docker'' None None False
      executing_db = Inr (v, s')" using sample_completion_runs by blast
  have "get_execution 5 executing_db = Some (sample_execution X_RUNNING)"
    "get_remediation (x_remediation_id (sample_execution X_RUNNING)) executing_db = Some (sample_remediation R_EXECUTING 1)"
    "r_status (sample_remediation R_EXECUTING 1) = R_EXECUTING"
    "x_status (sample_execution X_RUNNING) = X_RUNNING \<or> x_status (sample_execution X_RUNNING) = X_UNKNOWN"
    by (simp_all add: get_execution_def get_remediation_def sample_defs)
  from completion_requests_verification [OF run this] run
  show ?thesis by (auto simp: sample_defs)
qed

text \<open>
  Completion is recorded once: when the remediation has left EXECUTING, completing its execution, by any
  worker and with any outcome, returns the recorded state and changes nothing.
\<close>

theorem late_completion_changes_nothing:
  assumes "get_execution xid s = Some x" and "get_remediation (x_remediation_id x) s = Some row"
    and "r_status row \<noteq> R_EXECUTING"
  shows "complete_execution core clk xid owner outcome executor result err retryable s = Inr (view_of s row, s)"
proof -
  have "r_id row = x_remediation_id x" using rem.getD [OF assms(2)] by simp
  then show ?thesis
    using assms by (simp add: complete_execution_def lock_def view_def the_or_def tx_run)
qed

theorem late_completion_changes_nothing_witness:
  "\<exists>v. complete_execution sample_core sample_clock 5 ''w9'' ''failed'' ''docker'' None None True
     (executing_db\<lparr>remediations := [sample_remediation R_EXECUTED 1]\<rparr>) =
     Inr (v, executing_db\<lparr>remediations := [sample_remediation R_EXECUTED 1]\<rparr>)"
proof -
  let ?s = "executing_db\<lparr>remediations := [sample_remediation R_EXECUTED 1]\<rparr>"
  have "get_execution 5 ?s = Some (sample_execution X_RUNNING)"
    "get_remediation (x_remediation_id (sample_execution X_RUNNING)) ?s = Some (sample_remediation R_EXECUTED 1)"
    "r_status (sample_remediation R_EXECUTED 1) \<noteq> R_EXECUTING"
    by (simp_all add: get_execution_def get_remediation_def sample_defs)
  from late_completion_changes_nothing [OF this] show ?thesis by blast
qed

subsection \<open>Proposals\<close>

definition proposal_keys :: "db \<Rightarrow> (uuid \<times> uuid \<times> string) list" where
  "proposal_keys s = map (\<lambda>r. (r_id r, r_incident_id r, r_idempotency_key r)) (remediations s)"

lemma proposal_keys_set:
  "(\<And>r. r_id (f r) = r_id r \<and> r_incident_id (f r) = r_incident_id r \<and> r_idempotency_key (f r) = r_idempotency_key r) \<Longrightarrow>
   keepsT proposal_keys (modifyT (set_remediation k f))"
  by (rule keepsT_modify) (simp add: proposal_keys_def set_remediation_def update_rows_def)

lemma keeps_proposal_keys:
  "keepsT proposal_keys (insert_outbox_event clk ty agg ref corr payload)" "keepsT proposal_keys (lock k)"
  "keepsT proposal_keys (add_timeline clk k ev from to actor details version)"
  "keepsT proposal_keys (remediation_event clk k ty actor dec)" "keepsT proposal_keys new_uuid"
  "keepsT proposal_keys (move_incident clk i froms st reason)"
  "keepsT proposal_keys (modifyT (\<lambda>s. s\<lparr>policy_decisions := ds s\<rparr>))"
  by (auto simp: keepsT_def relT_def proposal_keys_def insert_outbox_event_app lock_def add_timeline_def
      remediation_event_def move_incident_Inr moved_def set_incident_def)

lemma keeps_proposal_steps:
  "keepsT proposal_keys (record_decision core clk rid dec context)"
  "keepsT proposal_keys (build_context core clk incident proposal tier)"
  "keepsT proposal_keys (route_denied clk rid i dec drow)" "keepsT proposal_keys (route_approval clk rid i dec drow)"
  unfolding record_decision_def build_context_def route_denied_def route_approval_def transition_def Let_def
  by (intro keeps_rules keeps_proposal_keys proposal_keys_set; simp)+

lemma record_proposal_keys:
  assumes "record_proposal core clk incident proposal key corr tier s = Inr (rid, s')"
  shows "proposal_keys s' = proposal_keys s @ [(rid, i_id incident, key)]"
proof -
  let ?row = "new_remediation_row core clk incident proposal key corr tier (next_uuid s)"
  let ?s1 = "add_remediation ?row (s\<lparr>next_uuid := Suc (next_uuid s)\<rparr>)"
  obtain det actor s2 u1 u2 where rid: "rid = next_uuid s"
    and tl: "add_timeline clk rid ''proposed'' None (Some R_PROPOSED) actor det None ?s1 = Inr (u1, s2)"
    and ev: "remediation_event clk rid RemediationProposed actor None s2 = Inr (u2, s')"
    using assms by (auto simp: record_proposal_def Let_def)
  show ?thesis
    using keepsTD [OF keeps_proposal_keys(3) tl] keepsTD [OF keeps_proposal_keys(4) ev] rid
    by (simp add: proposal_keys_def add_remediation_def new_remediation_row_def)
qed

text \<open>The rows of one incident and key, read off the keys.\<close>

lemma proposal_rows:
  "map (\<lambda>r. (r_id r, r_incident_id r, r_idempotency_key r))
     (filter (\<lambda>r. r_incident_id r = i \<and> r_idempotency_key r = key) (remediations s)) =
   filter (\<lambda>(_, j, k). j = i \<and> k = key) (proposal_keys s)"
  by (simp add: proposal_keys_def filter_map o_def)

lemma propose_new:
  assumes run: "propose core clk proposal key corr s = Inr (v, s')"
    and none: "filter (\<lambda>r. r_incident_id r = rp_incident_id proposal \<and> r_idempotency_key r = key) (remediations s) = []"
  obtains rid where "proposal_keys s' = proposal_keys s @ [(rid, rp_incident_id proposal, key)]"
    "view rid s' = Inr (v, s')"
proof -
  let ?tier = "entry_tier (rc_model_validate core) (get_entry (rp_action_id proposal)) (rp_parameters proposal)"
  obtain inc rid s1 ctx s2 drow s3 s4 u where inc: "get_incident (rp_incident_id proposal) s = Some inc"
    and rec: "record_proposal core clk inc proposal key corr ?tier s = Inr (rid, s1)"
    and con: "build_context core clk inc proposal ?tier s1 = Inr (ctx, s2)"
    and dec: "record_decision core clk rid (evaluate (rc_model_validate core) proposal (get_entry (rp_action_id proposal))
        (rc_policy core) ctx) ctx s2 = Inr (drow, s3)"
    and route: "(if pd_decision (evaluate (rc_model_validate core) proposal (get_entry (rp_action_id proposal))
          (rc_policy core) ctx) = DENY
        then route_denied clk rid (i_id inc) (evaluate (rc_model_validate core) proposal
          (get_entry (rp_action_id proposal)) (rc_policy core) ctx) drow
        else route_approval clk rid (i_id inc) (evaluate (rc_model_validate core) proposal
          (get_entry (rp_action_id proposal)) (rc_policy core) ctx) drow) s3 = Inr (u, s4)"
    and view: "view rid s4 = Inr (v, s')"
    using run none unfolding propose_def Let_def lock_incident_def
    by (auto simp del: view_Inr split: if_splits(1))
  have "proposal_keys s4 = proposal_keys s1"
    using keepsTD [OF keeps_proposal_steps(2) con] keepsTD [OF keeps_proposal_steps(1) dec]
      keepsTD [OF keeps_proposal_steps(3)] keepsTD [OF keeps_proposal_steps(4)] route
    by (simp split: if_splits)
  moreover have "i_id inc = rp_incident_id proposal" using inc.getD [OF inc] by simp
  ultimately show thesis using record_proposal_keys [OF rec] view that by auto
qed

text \<open>
  Proposals are idempotent per incident and key: repeating a successful proposal with the same
  incident and idempotency key, whatever the content, the clock or the configuration, returns the recorded
  remediation as the first call did, and creates, evaluates and announces nothing.
\<close>

theorem propose_idempotent:
  assumes "propose core clk proposal key corr s = Inr (v, s')"
    and "rp_incident_id proposal' = rp_incident_id proposal"
  shows "propose core' clk' proposal' key corr' s' = Inr (v, s')"
proof -
  let ?i = "rp_incident_id proposal"
  let ?mine = "\<lambda>rs. filter (\<lambda>r. r_incident_id r = ?i \<and> r_idempotency_key r = key) rs"
  obtain inc where inc: "get_incident ?i s = Some inc" using assms(1) by (auto simp: propose_def lock_incident_def)
  obtain inc' where inc': "get_incident ?i s' = Some inc'"
    using relTD [OF rst.rel_propose [where E = "{}"] assms(1)] inc by (auto simp: inc_rel_def)
  obtain row where row: "?mine (remediations s') = [row]" "view (r_id row) s' = Inr (v, s')"
  proof (cases "?mine (remediations s)")
    case Nil
    then obtain rid where rid: "proposal_keys s' = proposal_keys s @ [(rid, ?i, key)]" "view rid s' = Inr (v, s')"
      using propose_new [OF assms(1)] by blast
    have "map (\<lambda>r. (r_id r, r_incident_id r, r_idempotency_key r)) (?mine (remediations s')) = [(rid, ?i, key)]"
      using proposal_rows [of ?i key s] proposal_rows [of ?i key s'] Nil rid(1) by simp
    then show thesis using rid(2) that by (auto simp: map_eq_Cons_conv)
  next
    case (Cons r rs)
    then show thesis using assms(1) inc that by (auto simp: propose_def lock_incident_def)
  qed
  then show ?thesis
    using inc' assms(2) by (simp add: propose_def lock_incident_def the_or_def tx_run scalar_one_or_none_def del: view_Inr)
qed

theorem propose_idempotent_witness:
  "\<exists>v. propose sample_core sample_clock \<lparr>rp_incident_id = 0, rp_investigation_id = None,
     rp_action_id = ''scale_service'', rp_parameters = [], rp_reason = ''other'', rp_expected_effect = ''e'',
     rp_source = ''operator'', rp_proposed_by = ''bob''\<rparr> ''k'' None waiting_db = Inr (v, waiting_db)"
proof -
  let ?p = "\<lambda>act. \<lparr>rp_incident_id = 0, rp_investigation_id = None, rp_action_id = act, rp_parameters = [],
      rp_reason = ''other'', rp_expected_effect = ''e'', rp_source = ''operator'', rp_proposed_by = ''bob''\<rparr>"
  obtain v where "propose sample_core sample_clock (?p ''restart_service'') ''k'' None waiting_db = Inr (v, waiting_db)"
    by (simp add: propose_def lock_incident_def view_def lock_def tx_run the_or_def scalar_one_or_none_def
        get_incident_def get_remediation_def sample_defs)
  from propose_idempotent [OF this, of "?p ''scale_service''" sample_core sample_clock None]
  show ?thesis by auto
qed

end
