(* ===== verification/Kill_Switch.thy ===== *)
theory Kill_Switch
  imports Remediation_Properties
begin

text \<open>
  The global kill switch across histories: which commands touch the switches or start an execution, and
  that an engaged switch freezes the executions until somebody releases it.
\<close>

definition exec_part :: "db \<Rightarrow> kill_switch_row list \<times> (uuid \<times> int \<times> uuid \<times> string) list" where
  "exec_part s = (kill_switches s, map exec_ident (executions s))"

definition frozen :: "db \<Rightarrow> db \<Rightarrow> bool" where
  "frozen s s' \<longleftrightarrow> kill_switches s' = kill_switches s \<and>
     (GLOBAL_SCOPE \<in> engaged_scopes s \<longrightarrow> map exec_ident (executions s') = map exec_ident (executions s))"

interpretation frz: tx_relation frozen
  by unfold_locales (auto simp: frozen_def engaged_scopes_def)

lemma frozen_same: "exec_part s' = exec_part s \<Longrightarrow> frozen s s'"
  by (simp add: frozen_def exec_part_def)

lemma frozen_keeps: "keepsT exec_part m \<Longrightarrow> relT frozen m"
  by (auto simp: keepsT_def relT_def intro: frozen_same)

subsection \<open>Commands that start nothing\<close>

lemma exec_part_tables:
  "exec_part (set_remediation k f s) = exec_part s" "exec_part (add_remediation r s) = exec_part s"
  "exec_part (set_verification k vf s) = exec_part s" "exec_part (add_verification v s) = exec_part s"
  "exec_part (set_incident i g s) = exec_part s"
  "exec_part (s\<lparr>timeline := a s\<rparr>) = exec_part s" "exec_part (s\<lparr>baselines := b s\<rparr>) = exec_part s"
  "exec_part (s\<lparr>policy_decisions := c s\<rparr>) = exec_part s" "exec_part (s\<lparr>approvals := d s\<rparr>) = exec_part s"
  "exec_part (s\<lparr>observations := o' s\<rparr>) = exec_part s" "exec_part (s\<lparr>verification_evidence := e s\<rparr>) = exec_part s"
  "exec_part (s\<lparr>evidence_refs := e' s\<rparr>) = exec_part s"
  by (simp_all add: exec_part_def table_defs)

lemma exec_part_execution:
  "(\<And>x. exec_ident (f x) = exec_ident x) \<Longrightarrow> exec_part (set_execution k f s) = exec_part s"
  by (simp add: exec_part_def set_execution_def update_rows_def)

lemmas kp_table = exec_part_tables [THEN keepsT_modify [where f = exec_part]]

lemma kp_basic:
  "keepsT exec_part (insert_outbox_event clk ty agg ref corr payload)" "keepsT exec_part new_uuid"
  by (auto simp: keepsT_def relT_def exec_part_def insert_outbox_event_app)

lemmas kp_rules = keeps_rules kp_basic kp_table

lemma kp_lock:
  "keepsT exec_part (lock k)" "keepsT exec_part (lock_incident i)" "keepsT exec_part (lock_verification v)"
  unfolding lock_def lock_incident_def lock_verification_def by (intro kp_rules)+

lemma kp_helpers:
  "keepsT exec_part (view k)" "keepsT exec_part (ticket k x mode)"
  "keepsT exec_part (add_timeline clk k ev from to actor details version)"
  "keepsT exec_part (remediation_event clk k ty actor dec)"
  "keepsT exec_part (build_context core clk incident proposal tier)"
  "keepsT exec_part (execution_blocker core row entry)"
  "keepsT exec_part (link_evidence v e n role collected)"
  "keepsT exec_part (verification_event clk v ty)"
  "keepsT exec_part (closure clk i ty reason vrow)"
  "keepsT exec_part (insert_approval clk row verdict who aprole comment)"
  unfolding ticket_def view_def add_timeline_def remediation_event_def build_context_def
    execution_blocker_def link_evidence_def verification_event_def closure_def insert_approval_def
  by (intro kp_rules kp_lock)+

lemma kp_move:
  "keepsT exec_part (move_incident clk i froms to reason)" "keepsT exec_part (move_to clk i to reason)"
  "keepsT exec_part (transition clk k st ev actor details version)"
  unfolding move_incident_def move_to_def transition_def transition_incident_status_def
  by (intro kp_rules kp_lock kp_helpers)+

lemmas kp_all = kp_rules kp_lock kp_helpers kp_move

lemma kp_finish:
  "keepsT exec_part (finish_failed clk k i code msg actor)"
  "keepsT exec_part (finish_cancelled clk k i ev actor reason to ty dec)"
  "keepsT exec_part (block_execution clk k i code msg)"
  unfolding block_execution_def finish_failed_def finish_cancelled_def by (intro kp_all)+

lemma kp_propose: "keepsT exec_part (propose core clk proposal key corr)"
  unfolding propose_def record_proposal_def record_decision_def route_denied_def route_approval_def Let_def
  by (intro kp_all)

lemma kp_decide_approval: "keepsT exec_part (decide_approval clk k who roles ok hash d comment)"
  unfolding decide_approval_def approve_remediation_def reject_remediation_def Let_def
  by (intro kp_all kp_finish)

lemma kp_expire_one: "keepsT exec_part (expire_one core clk k)"
  unfolding expire_one_def by (intro kp_all kp_finish)

lemma kp_cancel: "keepsT exec_part (cancel clk k actor reason)"
  unfolding cancel_def by (intro kp_all kp_finish)

lemma kp_complete_execution:
  "keepsT exec_part (complete_execution core clk x owner outcome executor result err retryable)"
  unfolding complete_execution_def complete_succeeded_def complete_unsuccessful_def request_verification_def
    Let_def
  by (intro kp_all kp_finish keepsT_modify [where f = exec_part, OF exec_part_execution]) (simp_all add: exec_ident_def)

lemma kp_baseline: "keepsT exec_part (record_baseline clk k owner vals ids)"
  unfolding record_baseline_def by (intro kp_all)

lemma kp_verifications:
  "keepsT exec_part (start clk v)" "keepsT exec_part (claim_due vcore clk v owner flease)"
  "keepsT exec_part (record_observation vcore clk tkt sample ids observed)"
  unfolding start_def claim_due_def record_observation_def record_sample_def finalize_verification_def
    apply_verdict_def start_row_def count_firing_alerts_def Let_def
  by (intro kp_all)+

lemma frozen_expire_each: "frozen s (snd (expire_each core clk ks s))"
proof (induction ks arbitrary: s)
  case (Cons k ks)
  have "frozen s (snd (run_tx (expire_one core clk k) s))" by (rule frz.rel_run_tx [OF frozen_keeps [OF kp_expire_one]])
  then show ?case using Cons.IH [of "snd (run_tx (expire_one core clk k) s)"]
    by (auto intro: frz.rel_trans split: prod.splits sum.splits)
qed (simp add: frz.rel_refl)

lemma frozen_revise: "frozen s (snd (revise core clk k params who rsn key s))"
proof -
  have v: "frozen s (snd (run_tx (view k) s))" by (rule frz.rel_run_tx [OF frozen_keeps [OF kp_helpers(1)]])
  have c: "frozen s' (snd (run_tx (cancel clk k a r) s'))" for s' a r
    by (rule frz.rel_run_tx [OF frozen_keeps [OF kp_cancel]])
  have p: "frozen s' (snd (run_tx (propose core clk p key' corr) s'))" for s' p key' corr
    by (rule frz.rel_run_tx [OF frozen_keeps [OF kp_propose]])
  show ?thesis
    using v c [of "snd (run_tx (view k) s)" "''operator:'' @ who" "''superseded by revision''"] p
    unfolding revise_def
    by (auto simp: Let_def intro: frz.rel_trans split: prod.splits sum.splits)
qed

subsection \<open>Claiming under an engaged switch\<close>

lemma engaged_blocks:
  assumes "GLOBAL_SCOPE \<in> engaged_scopes s \<or> service_scope (r_target_service row) \<in> engaged_scopes s"
  shows "execution_blocker core row entry s \<noteq> Inr (None, s')"
  using assms execution_blocker_None by blast

lemma interrupt_exec_part: "keepsT exec_part (interrupt_execution clk row x owner lease)"
  unfolding interrupt_execution_def
  by (intro kp_all keepsT_modify [where f = exec_part, OF exec_part_execution]) (simp add: exec_ident_def)

lemma engaged_claim:
  assumes run: "claim_execution core clk k owner lease s = Inr (t, s')" and row: "get_remediation k s = Some row"
    and on: "GLOBAL_SCOPE \<in> engaged_scopes s \<or> service_scope (r_target_service row) \<in> engaged_scopes s"
  shows "exec_part s' = exec_part s \<and> (case t of None \<Rightarrow> True | Some x \<Rightarrow> tk_mode x = Reconcile)"
  using run
proof (cases rule: claim_execution_cases)
  case (reconcile row' x t')
  moreover have "tk_mode t' = Reconcile" using reconcile(5) by (auto simp: interrupt_execution_def dest: ticket_Inr)
  ultimately show ?thesis using keepsTD [OF interrupt_exec_part] by fastforce
next
  case (blocked row' i code msg)
  then show ?thesis using keepsTD [OF kp_finish(3)] by fastforce
next
  case (started row' e t')
  then show ?thesis using engaged_blocks [OF on] row by fastforce
qed simp

lemma keeps_switches: "keepsT exec_part m \<Longrightarrow> keepsT kill_switches m"
  by (auto simp: keepsT_def relT_def exec_part_def)

lemma start_execution_switches: "keepsT kill_switches (start_execution clk row entry owner lease)"
  unfolding start_execution_def Let_def
  by (intro keeps_rules kp_move(3) [THEN keeps_switches] kp_helpers [THEN keeps_switches]
      kp_basic [THEN keeps_switches] kp_table [THEN keeps_switches])
    (auto intro: keepsT_modify simp: add_execution_def)

lemma frozen_claim: "relT frozen (claim_execution core clk k owner lease)"
proof (rule relTI)
  fix s t s' assume run: "claim_execution core clk k owner lease s = Inr (t, s')"
  then obtain row where row: "get_remediation k s = Some row" by (auto simp: claim_execution_def lock_def)
  from run have "kill_switches s' = kill_switches s"
  proof (cases rule: claim_execution_cases)
    case (started row' e t')
    then show ?thesis using keepsTD [OF start_execution_switches] by blast
  next
    case (reconcile row' x t')
    then show ?thesis using keepsTD [OF keeps_switches [OF interrupt_exec_part]] by blast
  next
    case (blocked row' i code msg)
    then show ?thesis using keepsTD [OF keeps_switches [OF kp_finish(3)]] by blast
  qed simp
  then show "frozen s s'" using engaged_claim [OF run row] by (auto simp: frozen_def exec_part_def)
qed

interpretation afz: alert_steps frozen
proof unfold_locales
  show "relT frozen (cancel_incident clk row)" for clk row
    unfolding cancel_incident_def transition_incident_status_def by (intro frozen_keeps kp_all)
qed (auto simp: alert_quiet_def rem_tables_def exec_part_def table_defs intro!: frozen_same)

interpretation nfz: investigation_moves frozen
  by unfold_locales
    (auto simp: inv_quiet_def outer_tables_def exec_part_def set_incident_def moved_def intro!: frozen_same)

interpretation sfz: command_steps frozen
proof unfold_locales
  show "frozen s s'"
    if "core_inv {} s" "ic_candidate_lookback_seconds core \<noteq> 0"
      "handle_alert_received core clk c s = Inr (r, s')" for s core clk c r s'
    by (rule afz.rel_handle_alert_received [OF that])
  show "relT frozen (register_evidence_ref clk e)" for clk e by (rule afz.rel_register_evidence_ref)
  show "frozen s (snd (expire_approvals core clk s))" for s core clk
    unfolding expire_approvals_def by (rule frozen_expire_each)
  show "frozen s (snd (revise core clk k params who rsn key s))" for s core clk k params who rsn key
    by (rule frozen_revise)
  show "relT frozen (claim_execution core clk k owner lease)" for core clk k owner lease by (rule frozen_claim)
qed (rule frozen_keeps, rule kp_propose kp_decide_approval kp_cancel kp_complete_execution kp_baseline
    kp_verifications)+

subsection \<open>Properties\<close>

text \<open>The commands that leave the global switch engaged: all but its release.\<close>

fun releases :: "command \<Rightarrow> bool" where
  "releases (Set_kill_switch scope engaged actor reason) = (scope = GLOBAL_SCOPE \<and> \<not> engaged)"
| "releases _ = False"

lemma switch_keeps_engaged:
  assumes run: "set_kill_switch clk scope engaged actor reason s = Inr (u, s')"
    and on: "GLOBAL_SCOPE \<in> engaged_scopes s" and keep: "scope = GLOBAL_SCOPE \<longrightarrow> engaged"
  shows "GLOBAL_SCOPE \<in> engaged_scopes s' \<and> executions s' = executions s"
proof -
  let ?f = "\<lambda>k. k\<lparr>k_engaged := engaged, k_changed_by := Some actor, k_reason := reason, k_changed_at := clk_now clk\<rparr>"
  obtain s1 es n where s1: "s1 = s \<or> (\<exists>w. s1 = add_kill_switch w s)"
    and s': "s' = (set_kill_switch_row scope ?f s1)\<lparr>next_uuid := n, outbox := es\<rparr>"
    using run by (auto simp: set_kill_switch_def insert_outbox_event_app split: if_splits)
  obtain r where "r \<in> set (kill_switches s1)" "k_scope r = GLOBAL_SCOPE" "k_engaged r"
    using on s1 unfolding engaged_scopes_def by (fastforce simp: add_kill_switch_def)
  then have "\<exists>r \<in> set (kill_switches s'). k_scope r = GLOBAL_SCOPE \<and> k_engaged r"
    using keep
    by (intro bexI [of _ "if k_scope r = scope then ?f r else r"])
      (auto simp: s' set_kill_switch_row_def update_rows_def)
  moreover have "executions s' = executions s"
    using s1 by (auto simp: s' set_kill_switch_row_def add_kill_switch_def)
  ultimately show ?thesis by (force simp: engaged_scopes_def image_iff)
qed

lemma frozen_exec:
  assumes "well_configured sys" "core_inv {} s" "GLOBAL_SCOPE \<in> engaged_scopes s" "\<not> releases c"
  shows "GLOBAL_SCOPE \<in> engaged_scopes (exec sys clk c s) \<and>
    map exec_ident (executions (exec sys clk c s)) = map exec_ident (executions s)"
proof (cases "\<exists>scope on who why. c = Set_kill_switch scope on who why")
  case True
  then obtain scope on who why where c: "c = Set_kill_switch scope on who why" by blast
  show ?thesis
  proof (cases "set_kill_switch clk scope on who why s")
    case (Inr r)
    then show ?thesis
      using switch_keeps_engaged [of clk scope on who why s "fst r" "snd r"] assms(3,4) c
      by (cases r) (simp add: run_tx_snd)
  qed (use assms(3) c in \<open>simp add: run_tx_snd\<close>)
next
  case False
  then have "frozen s (exec sys clk c s)" using sfz.exec_unswitched_step [OF assms(1,2)] by blast
  then show ?thesis using assms(3) by (auto simp: frozen_def engaged_scopes_def)
qed

text \<open>
  C2. An engaged global kill switch freezes execution: whatever commands run, in any order and number, as
  long as none of them releases the global switch, it stays engaged and no execution is ever started;
  the recorded executions, their attempt numbers and idempotency keys stay exactly as they were.
\<close>

theorem kill_switch_freezes:
  assumes "well_configured sys" and "core_inv {} s" and "GLOBAL_SCOPE \<in> engaged_scopes s"
    and "\<forall>(clk, c) \<in> set cs. \<not> releases c"
  shows "GLOBAL_SCOPE \<in> engaged_scopes (run sys cs s) \<and>
    map exec_ident (executions (run sys cs s)) = map exec_ident (executions s)"
  using assms(2-4)
proof (induction cs arbitrary: s)
  case (Cons x cs)
  obtain clk c where x: "x = (clk, c)" by force
  then have "\<not> releases c" using Cons.prems(3) by auto
  note step = frozen_exec [OF assms(1) Cons.prems(1,2) this, of clk]
  have "core_inv {} (exec sys clk c s)" using run_core_inv [OF assms(1) Cons.prems(1), of "[x]"] x by simp
  from Cons.IH [OF this] step Cons.prems(3) x show ?case by auto
qed simp

theorem kill_switch_freezes_witness:
  "executions (run sample_system [(sample_clock, Claim_execution 2 ''w1'' 120)]
     (approved_db\<lparr>kill_switches := [\<lparr>k_scope = ''global'', k_engaged = True, k_changed_by = None, k_reason = None,
        k_changed_at = 0\<rparr>]\<rparr>)) = []"
proof -
  let ?s = "approved_db\<lparr>kill_switches := [\<lparr>k_scope = ''global'', k_engaged = True, k_changed_by = None,
      k_reason = None, k_changed_at = 0\<rparr>]\<rparr>"
  have "core_inv {} ?s"
    by (rule core_inv_cong [OF _ _ _ _ core_inv_sample_db]) (simp_all add: approved_db_def sample_db_def)
  moreover have "GLOBAL_SCOPE \<in> engaged_scopes ?s" by (simp add: engaged_scopes_def GLOBAL_SCOPE_def)
  ultimately have "map exec_ident (executions (run sample_system [(sample_clock, Claim_execution 2 ''w1'' 120)] ?s)) =
      map exec_ident (executions ?s)"
    by (rule kill_switch_freezes [OF sample_system_configured, THEN conjunct2]) simp
  then show ?thesis by (simp add: sample_defs del: run.simps)
qed

end
