(* ===== verification/Runner.thy ===== *)
theory Runner
  imports Executor Workers Kill_Switch
begin

text \<open>
  \<^verbatim>\<open>packages/remediation/runner.py\<close>: the worker that drives authorized execution attempts through an executor.
  The executor, the baseline capture and the clock are its environment; incident-core is called through its
  commands. The executor runs in a thread of its own and is given the time left to the deadline; what comes back
  is a result, a timeout, or an exception, and by then others may have changed the database.
\<close>

datatype execution_outcome = Finished executor_result | Timed_out string | Crashed string string

datatype runner_raised = Core_raised error | Executor_raised string

type_synonym ('w, 'a) runner_worker = "('w, runner_raised, 'a) worker"

record 'w runner =
  rn_core :: remediation_core
  rn_tick :: "'w \<Rightarrow> clock \<times> 'w"
  rn_executor_name :: string
  rn_execute :: "execution_request \<Rightarrow> timedelta \<Rightarrow> 'w world \<Rightarrow> execution_outcome \<times> 'w world"
  rn_inspect :: "string \<Rightarrow> 'w world \<Rightarrow> (string + executor_result option) \<times> 'w world"
  rn_baseline :: "(execution_ticket \<Rightarrow> string \<Rightarrow> ('w, runner_raised, bool) worker) option"
  rn_owner :: string
  rn_lease_seconds :: int

definition MAX_CLAIMS :: nat where
  "MAX_CLAIMS = 10"

text \<open>What the runner makes of an executor that raises.\<close>

fun outcome_of :: "executor_error + executor_result \<Rightarrow> execution_outcome" where
  "outcome_of (Inr r) = Finished r"
| "outcome_of (Inl (Execution_timeout msg)) = Timed_out ''ExecutionTimeout''"
| "outcome_of (Inl (Executor_key_error key)) = Crashed ''KeyError'' (repr_str key)"
| "outcome_of (Inl (Executor_attribute_error msg)) = Crashed ''AttributeError'' msg"

definition coreW :: "'w runner \<Rightarrow> (clock \<Rightarrow> 'a cmd) \<Rightarrow> ('w, 'a) runner_worker" where
  "coreW rn m = commandW (rn_tick rn) Core_raised (\<lambda>clk. run_tx (m clk))"

definition runner_clock :: "'w runner \<Rightarrow> ('w, datetime) runner_worker" where
  "runner_clock rn = askW (\<lambda>(s, o'). case rn_tick rn o' of (clk, o'') \<Rightarrow> (clk_now clk, (s, o'')))"

definition completion ::
  "'w runner \<Rightarrow> execution_ticket \<Rightarrow> string \<Rightarrow> string \<Rightarrow> json dict option \<Rightarrow> string option \<Rightarrow> bool \<Rightarrow>
   ('w, remediation_view) runner_worker" where
  "completion rn tk outcome executor result err retryable =
     coreW rn (\<lambda>clk. complete_execution (rn_core rn) clk (tk_execution_id tk) (rn_owner rn) outcome executor result err retryable)"

definition complete_ticket ::
  "'w runner \<Rightarrow> execution_ticket \<Rightarrow> executor_result \<Rightarrow> bool \<Rightarrow> ('w, remediation_view) runner_worker" where
  "complete_ticket rn tk result reconciled =
     completion rn tk (if xr_succeeded result then ''succeeded'' else ''failed'') (rn_executor_name rn)
       (Some (dmerge (xr_detail result) (if reconciled then [(''reconciled'', JBool True)] else [])))
       (xr_error result) (xr_retryable result)"

definition reconcile_ticket :: "'w runner \<Rightarrow> execution_ticket \<Rightarrow> ('w, remediation_view) runner_worker" where
  "reconcile_ticket rn tk =
     bindW (askW (rn_inspect rn (tk_idempotency_key tk))) (\<lambda>answer.
     bindW (liftW (map_sum Executor_raised id answer)) (\<lambda>known.
       case known of
         None \<Rightarrow> complete_ticket rn tk
           \<lparr>xr_succeeded = False, xr_detail = [],
            xr_error = Some ''no executor record after the previous worker was lost; not applied'', xr_retryable = True\<rparr> True
       | Some r \<Rightarrow> complete_ticket rn tk r True))"

definition request_of :: "execution_ticket \<Rightarrow> execution_request" where
  "request_of tk =
     \<lparr>rq_execution_id = uuid_str (tk_execution_id tk), rq_idempotency_key = tk_idempotency_key tk,
      rq_action_id = tk_action_id tk, rq_catalog_version = tk_catalog_version tk, rq_parameters = tk_parameters tk,
      rq_target_service = tk_target_service tk, rq_environment = tk_environment tk, rq_deadline = tk_deadline tk\<rparr>"

definition report_outcome :: "'w runner \<Rightarrow> execution_ticket \<Rightarrow> execution_outcome \<Rightarrow> ('w, remediation_view) runner_worker" where
  "report_outcome rn tk outcome =
     (case outcome of
        Finished r \<Rightarrow> complete_ticket rn tk r False
      | Timed_out name \<Rightarrow> completion rn tk ''timed_out'' (rn_executor_name rn) None
          (Some (''no result before the deadline ('' @ name @ '')'')) True
      | Crashed name msg \<Rightarrow> completion rn tk ''failed'' (rn_executor_name rn) None
          (Some (name @ '': '' @ take 300 msg)) True)"

definition run_executor :: "'w runner \<Rightarrow> execution_ticket \<Rightarrow> ('w, execution_outcome) runner_worker" where
  "run_executor rn tk =
     bindW (runner_clock rn) (\<lambda>now. askW (rn_execute rn (request_of tk) (max (tk_deadline tk - now) 0)))"

definition capture_baseline :: "'w runner \<Rightarrow> execution_ticket \<Rightarrow> ('w, bool) runner_worker" where
  "capture_baseline rn tk = (case rn_baseline rn of None \<Rightarrow> returnW True | Some capture \<Rightarrow> capture tk (rn_owner rn))"

definition execute_ticket :: "'w runner \<Rightarrow> execution_ticket \<Rightarrow> ('w, remediation_view) runner_worker" where
  "execute_ticket rn tk =
     bindW (capture_baseline rn tk) (\<lambda>ready.
       if \<not> ready
       then completion rn tk ''failed'' ''none'' None
              (Some ''pre-remediation baseline unavailable; action not executed'') True
       else bindW (run_executor rn tk) (report_outcome rn tk))"

text \<open>\<^verbatim>\<open>except LeaseLostError\<close> around one ticket: the worker stops there.\<close>

definition lease_lost_stops :: "runner_raised \<Rightarrow> ('w, remediation_view option) runner_worker" where
  "lease_lost_stops e = (case e of Core_raised (LeaseLostError _) \<Rightarrow> returnW None | _ \<Rightarrow> raiseW e)"

definition handle_ticket :: "'w runner \<Rightarrow> execution_ticket \<Rightarrow> ('w, remediation_view option) runner_worker" where
  "handle_ticket rn tk =
     tryW (bindW (if tk_mode tk = Reconcile then reconcile_ticket rn tk else execute_ticket rn tk) (\<lambda>v. returnW (Some v)))
       lease_lost_stops"

fun claim_loop :: "'w runner \<Rightarrow> uuid \<Rightarrow> nat \<Rightarrow> ('w, remediation_view) runner_worker" where
  "claim_loop rn remediation_id 0 = coreW rn (\<lambda>_. view remediation_id)"
| "claim_loop rn remediation_id (Suc left) =
     bindW (coreW rn (\<lambda>clk. claim_execution (rn_core rn) clk remediation_id (rn_owner rn) (rn_lease_seconds rn))) (\<lambda>claimed.
       case claimed of
         None \<Rightarrow> coreW rn (\<lambda>_. view remediation_id)
       | Some tk \<Rightarrow>
           bindW (handle_ticket rn tk) (\<lambda>handled.
             case handled of
               None \<Rightarrow> coreW rn (\<lambda>_. view remediation_id)
             | Some v \<Rightarrow> if r_status (fst v) \<noteq> R_EXECUTING then returnW v else claim_loop rn remediation_id left))"

definition run_remediation :: "'w runner \<Rightarrow> uuid \<Rightarrow> ('w, remediation_view) runner_worker" where
  "run_remediation rn remediation_id = claim_loop rn remediation_id MAX_CLAIMS"

subsection \<open>The runner as a client of incident-core\<close>

definition runner_respects :: "incident_system \<Rightarrow> 'w runner \<Rightarrow> bool" where
  "runner_respects sys rn \<longleftrightarrow> sys_remediations sys = rn_core rn \<and>
     (\<forall>req left w. history sys (fst w) (fst (snd (rn_execute rn req left w)))) \<and>
     (\<forall>key w. history sys (fst w) (fst (snd (rn_inspect rn key w)))) \<and>
     (case rn_baseline rn of None \<Rightarrow> True | Some capture \<Rightarrow> \<forall>tk who. relW (history sys) (capture tk who))"

lemma rel_coreW:
  assumes "\<And>clk s. history sys s (snd (run_tx (m clk) s))"
  shows "relW (history sys) (coreW rn m)"
  unfolding coreW_def using assms by (rule hist.rel_commandW)

lemma view_reads: "snd (run_tx (view k) s) = s"
  by (cases "view k s") (auto simp: run_tx_def)

lemma rel_view: "relW (history sys) (coreW rn (\<lambda>_. view k))"
  by (rule rel_coreW) (simp add: view_reads history_refl)

lemma rel_claim:
  assumes "sys_remediations sys = rn_core rn"
  shows "relW (history sys) (coreW rn (\<lambda>clk. claim_execution (rn_core rn) clk k owner lease))"
proof (rule rel_coreW)
  show "history sys s (snd (run_tx (claim_execution (rn_core rn) clk k owner lease) s))" for clk s
    using history_exec [of sys s clk "Claim_execution k owner lease"] assms by simp
qed

lemma rel_completion:
  assumes "sys_remediations sys = rn_core rn"
  shows "relW (history sys) (completion rn tk outcome executor result err retryable)"
  unfolding completion_def
proof (rule rel_coreW)
  show "history sys s (snd (run_tx (complete_execution (rn_core rn) clk (tk_execution_id tk) (rn_owner rn) outcome
      executor result err retryable) s))" for clk s
    using history_exec [of sys s clk "Complete_execution (tk_execution_id tk) (rn_owner rn) outcome executor result err retryable"]
      assms by simp
qed

lemma rel_runner_clock: "relW (history sys) (runner_clock rn)"
  unfolding runner_clock_def by (rule hist.rel_askW) (auto simp: history_refl split: prod.splits)

lemma rel_asks:
  assumes "runner_respects sys rn"
  shows "relW (history sys) (askW (rn_execute rn req left))" "relW (history sys) (askW (rn_inspect rn key))"
    "relW (history sys) (capture_baseline rn tk)"
proof -
  show "relW (history sys) (askW (rn_execute rn req left))"
    by (rule hist.rel_askW) (use assms in \<open>metis runner_respects_def fst_conv snd_conv\<close>)
  show "relW (history sys) (askW (rn_inspect rn key))"
    by (rule hist.rel_askW) (use assms in \<open>metis runner_respects_def fst_conv snd_conv\<close>)
  show "relW (history sys) (capture_baseline rn tk)"
    using assms by (simp add: capture_baseline_def runner_respects_def hist.rel_returnW split: option.splits)
qed

lemma rel_handle_ticket:
  assumes "runner_respects sys rn"
  shows "relW (history sys) (handle_ticket rn tk)"
proof -
  have core: "sys_remediations sys = rn_core rn" using assms by (simp add: runner_respects_def)
  have compl: "relW (history sys) (complete_ticket rn tk r b)" for r b
    unfolding complete_ticket_def by (rule rel_completion [OF core])
  have out: "relW (history sys) (report_outcome rn tk outcome)" for outcome
    by (cases outcome) (simp_all add: report_outcome_def compl rel_completion [OF core])
  have stop: "relW (history sys) (lease_lost_stops e)" for e
    by (simp add: lease_lost_stops_def hist.rulesW split: runner_raised.split error.split)
  show ?thesis
    unfolding handle_ticket_def reconcile_ticket_def execute_ticket_def run_executor_def
    by (intro hist.rulesW rel_asks [OF assms] rel_runner_clock rel_completion [OF core] compl out stop)
qed

text \<open>
  The remediation runner changes incident-core only through its commands: whatever the executor answers,
  times out with or raises, and whether a lease is lost or not, a run is a history of commands, as long as what
  happens meanwhile is one.
\<close>

theorem runner_refines_system:
  assumes "runner_respects sys rn"
  shows "relW (history sys) (run_remediation rn k)"
proof -
  have core: "sys_remediations sys = rn_core rn" using assms by (simp add: runner_respects_def)
  have "relW (history sys) (claim_loop rn k left)" for left
  proof (induction left)
    case 0
    show ?case by (simp add: rel_view)
  next
    case (Suc left)
    then show ?case
      unfolding claim_loop.simps by (intro hist.rulesW rel_claim [OF core] rel_view rel_handle_ticket [OF assms])
  qed
  then show ?thesis by (simp add: run_remediation_def)
qed

subsection \<open>What reaches the executor\<close>

text \<open>The conditions under which an attempt is cleared: the request carries what was approved.\<close>

definition cleared :: "uuid \<Rightarrow> execution_request \<Rightarrow> db \<Rightarrow> bool" where
  "cleared k req s \<longleftrightarrow> (\<exists>row a e. get_remediation k s = Some row \<and>
     GLOBAL_SCOPE \<notin> engaged_scopes s \<and> service_scope (r_target_service row) \<notin> engaged_scopes s \<and>
     approvals_of k s = [a] \<and> ap_decision a = Approved \<and> ap_proposal_hash a = r_proposal_hash row \<and>
     r_policy_decision_id row = Some (ap_policy_decision_id a) \<and> get_entry (r_action_id row) = Some e \<and>
     r_execution_attempts row < ac_max_attempts e \<and> rq_action_id req = r_action_id row \<and>
     rq_parameters req = r_parameters row \<and> rq_target_service req = r_target_service row \<and>
     rq_environment req = r_environment row \<and> rq_catalog_version req = CATALOG_VERSION \<and>
     rq_idempotency_key req = uuid_str k @ '':'' @ str_int (r_execution_attempts row + 1))"

lemma claimed_cleared:
  assumes "claim_execution core clk k owner lease s = Inr (Some t, s')" and "tk_mode t = Execute"
  shows "cleared k (request_of t) s"
  using assms(1)
proof (cases rule: claim_execution_cases)
  case (reconcile row x t')
  then have "tk_mode t = Reconcile" by (auto simp: interrupt_execution_def dest: ticket_Inr)
  with assms(2) show ?thesis by simp
next
  case (started row e t')
  have id: "r_id row = k" using rem.getD [OF started(1)] by simp
  obtain a where a: "approvals_of k s = [a]" "ap_decision a = Approved" "ap_proposal_hash a = r_proposal_hash row"
    "r_policy_decision_id row = Some (ap_policy_decision_id a)"
    using execution_blocker_None [OF started(3)] id by (metis (no_types))
  have "tk_parameters t = r_parameters row \<and> tk_action_id t = r_action_id row \<and> tk_target_service t = r_target_service row \<and>
    tk_environment t = r_environment row \<and> tk_catalog_version t = r_catalog_version row \<and>
    tk_idempotency_key t = uuid_str k @ '':'' @ str_int (r_execution_attempts row + 1)"
    using start_execution_result [OF started(5)] started(1,6) id by (auto simp: new_execution_row_def Let_def)
  then show ?thesis
    using execution_blocker_None [OF started(3)] started(1,4) a unfolding cleared_def
    by (intro exI [of _ row] exI [of _ a] exI [of _ e]) (simp add: request_of_def)
qed simp_all

text \<open>
  \<open>keepsW J m\<close>: the worker keeps \<open>J\<close>, a property of the whole world.
\<close>

definition keepsW :: "('w world \<Rightarrow> bool) \<Rightarrow> ('w, 'x, 'a) worker \<Rightarrow> bool" where
  "keepsW J m \<longleftrightarrow> (\<forall>w r w'. J w \<longrightarrow> m w = (r, w') \<longrightarrow> J w')"

lemma keepsW_basic:
  "keepsW J (returnW x)" "keepsW J (raiseW e)" "keepsW J (liftW v)"
  by (auto simp: keepsW_def returnW_def raiseW_def liftW_def split: sum.splits)

lemma keepsWD: "keepsW J m \<Longrightarrow> J w \<Longrightarrow> m w = (r, w') \<Longrightarrow> J w'"
  unfolding keepsW_def by blast

lemma keepsW_bind:
  assumes "keepsW J m" "\<And>x. keepsW J (f x)"
  shows "keepsW J (bindW m f)"
  unfolding keepsW_def
proof (intro allI impI)
  fix w r w''
  assume j: "J w" and "bindW m f w = (r, w'')"
  then consider r' where "m w = (r', w'')" | x w' where "m w = (Inr x, w')" "f x w' = (r, w'')"
    by (auto simp: bindW_def split: prod.splits sum.splits)
  then show "J w''" by cases (use j keepsWD [OF assms(1)] keepsWD [OF assms(2)] in blast)+
qed

lemma keepsW_try:
  assumes "keepsW J m" "\<And>e. keepsW J (h e)"
  shows "keepsW J (tryW m h)"
  unfolding keepsW_def
proof (intro allI impI)
  fix w r w''
  assume j: "J w" and "tryW m h w = (r, w'')"
  then consider r' where "m w = (r', w'')" | e w' where "m w = (Inl e, w')" "h e w' = (r, w'')"
    by (auto simp: tryW_def split: prod.splits sum.splits)
  then show "J w''" by cases (use j keepsWD [OF assms(1)] keepsWD [OF assms(2)] in blast)+
qed

lemma keepsW_ask:
  assumes "\<And>w. J w \<Longrightarrow> J (snd (f w))"
  shows "keepsW J (askW f)"
  unfolding keepsW_def askW_def
proof (intro allI impI)
  fix w r w'
  assume "J w" "(case f w of (x, w') \<Rightarrow> (Inr x, w')) = (r, w')"
  then show "J w'" using assms [of w] by (cases "f w") auto
qed

lemma keepsW_cases:
  "(b \<Longrightarrow> keepsW J m) \<Longrightarrow> (\<not> b \<Longrightarrow> keepsW J n) \<Longrightarrow> keepsW J (if b then m else n)"
  "keepsW J m \<Longrightarrow> (\<And>x. keepsW J (g x)) \<Longrightarrow> keepsW J (case v of None \<Rightarrow> m | Some x \<Rightarrow> g x)"
  by (simp, cases v) simp_all

lemmas keepsW_rules = keepsW_basic keepsW_bind keepsW_try keepsW_cases

text \<open>
  To say what reaches the executor, the outside keeps a log of the requests it was given. \<open>logged\<close>: the database has
  a history since \<open>s\<close>, and every request since then was cleared at some point of it.
\<close>

definition logs_requests :: "(execution_request list \<times> 'v) runner \<Rightarrow> bool" where
  "logs_requests rn \<longleftrightarrow>
     (\<forall>o'. fst (snd (rn_tick rn o')) = fst o') \<and>
     (\<forall>key w. fst (snd (snd (rn_inspect rn key w))) = fst (snd w)) \<and>
     (case rn_baseline rn of None \<Rightarrow> True | Some capture \<Rightarrow>
        \<forall>tk who w. fst (snd (snd (capture tk who w))) = fst (snd w)) \<and>
     (\<forall>req left w. fst (snd (snd (rn_execute rn req left w))) = fst (snd w) @ [req])"

definition cleared_between :: "incident_system \<Rightarrow> uuid \<Rightarrow> execution_request \<Rightarrow> db \<Rightarrow> db \<Rightarrow> bool" where
  "cleared_between sys k req s s' \<longleftrightarrow> (\<exists>t. history sys s t \<and> cleared k req t \<and> history sys t s')"

definition logged ::
  "incident_system \<Rightarrow> uuid \<Rightarrow> db \<Rightarrow> execution_request list \<Rightarrow> (execution_request list \<times> 'v) world \<Rightarrow> bool" where
  "logged sys k s seen w \<longleftrightarrow> history sys s (fst w) \<and>
     (\<exists>new. fst (snd w) = seen @ new \<and> (\<forall>req \<in> set new. cleared_between sys k req s (fst w)))"

lemma cleared_between_later:
  "cleared_between sys k req s t \<Longrightarrow> history sys t t' \<Longrightarrow> cleared_between sys k req s t'"
  unfolding cleared_between_def using history_trans by blast

lemma logged_step:
  assumes "logged sys k s seen w" "history sys (fst w) (fst w')" "fst (snd w') = fst (snd w)"
  shows "logged sys k s seen w'"
  using assms cleared_between_later history_trans unfolding logged_def by metis

lemma logged_request:
  assumes "logged sys k s seen w" "history sys (fst w) (fst w')" "fst (snd w') = fst (snd w) @ [req]"
    "cleared_between sys k req s (fst w)"
  shows "logged sys k s seen w'"
proof -
  obtain new where new: "fst (snd w) = seen @ new" "\<forall>r \<in> set new. cleared_between sys k r s (fst w)"
    using assms(1) unfolding logged_def by blast
  then have "fst (snd w') = seen @ (new @ [req])" "\<forall>r \<in> set (new @ [req]). cleared_between sys k r s (fst w')"
    using assms(2-4) cleared_between_later by auto
  moreover have "history sys s (fst w')" using assms(1,2) history_trans unfolding logged_def by blast
  ultimately show ?thesis unfolding logged_def by blast
qed

lemma logged_core:
  fixes rn :: "(execution_request list \<times> 'v) runner"
  assumes "logs_requests rn" "\<And>clk t. history sys t (snd (run_tx (m clk) t))"
  shows "keepsW (logged sys k s seen) (coreW rn m)"
  unfolding keepsW_def
proof (intro allI impI)
  fix w w' :: "(execution_request list \<times> 'v) world" and r
  assume j: "logged sys k s seen w" and run: "coreW rn m w = (r, w')"
  obtain t o' where w: "w = (t, o')" by (rule prod.exhaust)
  obtain clk o'' where tick: "rn_tick rn o' = (clk, o'')" by (rule prod.exhaust)
  obtain x t' where tx: "run_tx (m clk) t = (x, t')" by (rule prod.exhaust)
  have w': "w' = (t', o'')" using run tick tx by (cases x) (auto simp: coreW_def commandW_def w)
  have "fst o'' = fst o'" using assms(1) tick unfolding logs_requests_def by (metis snd_conv)
  moreover have "history sys t t'" using assms(2) [of t clk] tx by simp
  ultimately show "logged sys k s seen w'" using logged_step [OF j, of "(t', o'')"] by (simp add: w w')
qed

lemma logged_completion:
  fixes rn :: "(execution_request list \<times> 'v) runner"
  assumes "logs_requests rn" "sys_remediations sys = rn_core rn"
  shows "keepsW (logged sys k s seen) (completion rn tk outcome executor result err retryable)"
  unfolding completion_def
proof (rule logged_core [OF assms(1)])
  show "history sys t (snd (run_tx (complete_execution (rn_core rn) clk (tk_execution_id tk) (rn_owner rn) outcome
      executor result err retryable) t))" for clk t
    using history_exec [of sys t clk "Complete_execution (tk_execution_id tk) (rn_owner rn) outcome executor result err retryable"]
      assms(2) by simp
qed

lemma logged_view:
  fixes rn :: "(execution_request list \<times> 'v) runner"
  assumes "logs_requests rn"
  shows "keepsW (logged sys k s seen) (coreW rn (\<lambda>_. view j))"
  using assms by (rule logged_core) (simp add: view_reads history_refl)

lemma logged_clock:
  fixes rn :: "(execution_request list \<times> 'v) runner"
  assumes "logs_requests rn"
  shows "keepsW (logged sys k s seen) (runner_clock rn)"
  unfolding runner_clock_def
proof (rule keepsW_ask)
  fix w :: "(execution_request list \<times> 'v) world"
  assume j: "logged sys k s seen w"
  obtain t o' where w: "w = (t, o')" by (rule prod.exhaust)
  obtain clk o'' where tick: "rn_tick rn o' = (clk, o'')" by (rule prod.exhaust)
  have "fst o'' = fst o'" using assms tick unfolding logs_requests_def by (metis snd_conv)
  with logged_step [OF j, of "(t, o'')"]
  show "logged sys k s seen (snd ((\<lambda>(s, o'). case rn_tick rn o' of (clk, o'') \<Rightarrow> (clk_now clk, (s, o''))) w))"
    by (simp add: w tick history_refl)
qed

lemma logged_inspect:
  fixes rn :: "(execution_request list \<times> 'v) runner"
  assumes "logs_requests rn" "runner_respects sys rn"
  shows "keepsW (logged sys k s seen) (askW (rn_inspect rn key))"
proof (rule keepsW_ask)
  fix w :: "(execution_request list \<times> 'v) world"
  assume j: "logged sys k s seen w"
  show "logged sys k s seen (snd (rn_inspect rn key w))"
    using assms unfolding logs_requests_def runner_respects_def by (blast intro: logged_step [OF j])
qed

lemma logged_baseline:
  fixes rn :: "(execution_request list \<times> 'v) runner"
  assumes "logs_requests rn" "runner_respects sys rn"
  shows "keepsW (logged sys k s seen) (capture_baseline rn tk)"
proof (cases "rn_baseline rn")
  case None
  then show ?thesis by (simp add: capture_baseline_def keepsW_basic)
next
  case (Some capture)
  have rel: "relW (history sys) (capture tk who)" for who
    using assms(2) Some unfolding runner_respects_def by simp
  have kept: "\<forall>tk who w. fst (snd (snd (capture tk who w))) = fst (snd w)"
    using assms(1) Some unfolding logs_requests_def by simp
  have "keepsW (logged sys k s seen) (capture tk who)" for who
    unfolding keepsW_def
  proof (intro allI impI)
    fix w w' :: "(execution_request list \<times> 'v) world" and r assume j: "logged sys k s seen w" and "capture tk who w = (r, w')"
    then show "logged sys k s seen w'"
      using logged_step [OF j] relWD [OF rel] kept [rule_format, of tk who w] by (metis snd_conv)
  qed
  then show ?thesis using Some by (simp add: capture_baseline_def)
qed

text \<open>\<open>prepared\<close>: beside that, an \<open>Execute\<close> ticket in hand was cleared.\<close>

definition prepared ::
  "incident_system \<Rightarrow> uuid \<Rightarrow> db \<Rightarrow> execution_request list \<Rightarrow> execution_ticket \<Rightarrow>
   (execution_request list \<times> 'v) world \<Rightarrow> bool" where
  "prepared sys k s seen tk w \<longleftrightarrow> logged sys k s seen w \<and>
     (tk_mode tk = Execute \<longrightarrow> cleared_between sys k (request_of tk) s (fst w))"

lemma prepared_keeps:
  assumes "keepsW (logged sys k s seen) m" "relW (history sys) m"
  shows "keepsW (prepared sys k s seen tk) m"
  unfolding keepsW_def prepared_def
  using keepsWD [OF assms(1)] relWD [OF assms(2)] cleared_between_later by blast

lemma prepared_execute:
  fixes rn :: "(execution_request list \<times> 'v) runner"
  assumes g: "logs_requests rn" and r: "runner_respects sys rn" and "tk_mode tk = Execute"
  shows "keepsW (prepared sys k s seen tk) (askW (rn_execute rn (request_of tk) left))"
proof (rule keepsW_ask)
  fix w :: "(execution_request list \<times> 'v) world"
  assume j: "prepared sys k s seen tk w"
  have h: "history sys (fst w) (fst (snd (rn_execute rn (request_of tk) left w)))"
    using r unfolding runner_respects_def by blast
  have l: "fst (snd (snd (rn_execute rn (request_of tk) left w))) = fst (snd w) @ [request_of tk]"
    using g unfolding logs_requests_def by blast
  have c: "cleared_between sys k (request_of tk) s (fst w)" using j assms(3) by (simp add: prepared_def)
  have "logged sys k s seen (snd (rn_execute rn (request_of tk) left w))"
    using j logged_request [OF _ h l c] by (simp add: prepared_def)
  then show "prepared sys k s seen tk (snd (rn_execute rn (request_of tk) left w))"
    using cleared_between_later [OF c h] by (simp add: prepared_def)
qed

lemma prepared_ticket:
  fixes rn :: "(execution_request list \<times> 'v) runner"
  assumes g: "logs_requests rn" and r: "runner_respects sys rn"
  shows "keepsW (prepared sys k s seen tk) (handle_ticket rn tk)"
proof -
  have core: "sys_remediations sys = rn_core rn" using r by (simp add: runner_respects_def)
  note rc = prepared_keeps [OF logged_completion [OF g core] rel_completion [OF core]]
  note rb = prepared_keeps [OF logged_baseline [OF g r] rel_asks(3) [OF r]]
  note rt = prepared_keeps [OF logged_clock [OF g] rel_runner_clock]
  note ri = prepared_keeps [OF logged_inspect [OF g r] rel_asks(2) [OF r]]
  have compl: "keepsW (prepared sys k s seen tk) (complete_ticket rn tk x b)" for x b
    unfolding complete_ticket_def by (rule rc)
  have out: "keepsW (prepared sys k s seen tk) (report_outcome rn tk outcome)" for outcome
    by (cases outcome) (simp_all add: report_outcome_def compl rc)
  have stop: "keepsW (prepared sys k s seen tk) (lease_lost_stops e)" for e
    by (simp add: lease_lost_stops_def keepsW_basic split: runner_raised.split error.split)
  have rec: "keepsW (prepared sys k s seen tk) (reconcile_ticket rn tk)"
    unfolding reconcile_ticket_def by (intro keepsW_rules ri compl)
  have ex: "keepsW (prepared sys k s seen tk) (execute_ticket rn tk)" if "tk_mode tk = Execute"
    unfolding execute_ticket_def run_executor_def
    by (intro keepsW_rules rb rt rc out prepared_execute [OF g r that])
  have "tk_mode tk = Execute" if "tk_mode tk \<noteq> Reconcile" using that by (cases "tk_mode tk") simp_all
  then show ?thesis
    unfolding handle_ticket_def by (intro keepsW_rules rec ex stop)
qed

lemma claim_prepares:
  fixes rn :: "(execution_request list \<times> 'v) runner"
  assumes g: "logs_requests rn" and core: "sys_remediations sys = rn_core rn" and j: "logged sys k s seen w"
    and run: "coreW rn (\<lambda>clk. claim_execution (rn_core rn) clk k owner lease) w = (Inr (Some tk), w')"
  shows "prepared sys k s seen tk w'"
proof -
  have step: "history sys t (snd (run_tx (claim_execution (rn_core rn) clk k owner lease) t))" for t clk
    using history_exec [of sys t clk "Claim_execution k owner lease"] core by simp
  have w': "logged sys k s seen w'" using logged_core [OF g step] j run by (rule keepsWD)
  have h: "history sys (fst w) (fst w')" using rel_coreW [OF step] run by (rule relWD)
  obtain clk t' where "claim_execution (rn_core rn) clk k owner lease (fst w) = Inr (Some tk, t')"
  proof -
    obtain t o' where w: "w = (t, o')" by (rule prod.exhaust)
    obtain clk o'' where tick: "rn_tick rn o' = (clk, o'')" by (rule prod.exhaust)
    have "\<exists>t'. claim_execution (rn_core rn) clk k owner lease t = Inr (Some tk, t')"
      using run tick by (cases "claim_execution (rn_core rn) clk k owner lease t")
        (auto simp: coreW_def commandW_def w run_tx_def split: prod.splits)
    with that w show thesis by auto
  qed
  then have "tk_mode tk = Execute \<Longrightarrow> cleared k (request_of tk) (fst w)" by (rule claimed_cleared)
  then have "tk_mode tk = Execute \<Longrightarrow> cleared_between sys k (request_of tk) s (fst w')"
    using j h unfolding cleared_between_def logged_def by blast
  with w' show ?thesis by (simp add: prepared_def)
qed

lemma loop_keeps:
  fixes rn :: "(execution_request list \<times> 'v) runner"
  assumes g: "logs_requests rn" and r: "runner_respects sys rn"
  shows "keepsW (logged sys k s seen) (claim_loop rn k left)"
proof (induction left)
  case 0
  show ?case by (simp add: logged_view [OF g])
next
  case (Suc left)
  have core: "sys_remediations sys = rn_core rn" using r by (simp add: runner_respects_def)
  have step: "history sys t (snd (run_tx (claim_execution (rn_core rn) clk k owner lease) t))" for t clk owner lease
    using history_exec [of sys t clk "Claim_execution k owner lease"] core by simp
  show ?case
    unfolding keepsW_def
  proof (intro allI impI)
    fix w w' :: "(execution_request list \<times> 'v) world" and x assume j: "logged sys k s seen w" and run: "claim_loop rn k (Suc left) w = (x, w')"
    let ?claim = "coreW rn (\<lambda>clk. claim_execution (rn_core rn) clk k (rn_owner rn) (rn_lease_seconds rn))"
    let ?rest = "\<lambda>handled. case handled of None \<Rightarrow> coreW rn (\<lambda>_. view k)
      | Some v \<Rightarrow> if r_status (fst v) \<noteq> R_EXECUTING then returnW v else claim_loop rn k left"
    have rest: "keepsW (logged sys k s seen) (?rest handled)" for handled
      by (intro keepsW_rules logged_view [OF g] Suc.IH)
    obtain c w1 where c: "?claim w = (c, w1)" by (rule prod.exhaust)
    have w1: "logged sys k s seen w1" using logged_core [OF g step] j c by (rule keepsWD)
    consider e where "c = Inl e" | "c = Inr None" | tk where "c = Inr (Some tk)" by (metis sum.exhaust option.exhaust)
    then show "logged sys k s seen w'"
    proof cases
      case 1
      then show ?thesis using run c w1 by (simp add: bindW_def)
    next
      case 2
      then have "coreW rn (\<lambda>_. view k) w1 = (x, w')" using run c by (simp add: bindW_def)
      then show ?thesis using logged_view [OF g] w1 by (blast intro: keepsWD)
    next
      case (3 tk)
      then have go: "bindW (handle_ticket rn tk) ?rest w1 = (x, w')" using run c by (simp add: bindW_def)
      have p: "prepared sys k s seen tk w1" using claim_prepares [OF g core j] c 3 by blast
      obtain h w2 where h: "handle_ticket rn tk w1 = (h, w2)" by (rule prod.exhaust)
      have "prepared sys k s seen tk w2" using prepared_ticket [OF g r] p h by (rule keepsWD)
      then have w2: "logged sys k s seen w2" by (simp add: prepared_def)
      show ?thesis using go h w2 keepsWD [OF rest w2] by (cases h) (auto simp: bindW_def)
    qed
  qed
qed

text \<open>
  C30. The executor is only ever given what was cleared: each request that a run sends to it was, at some point of
  the database's history during the run, the next attempt of an approved proposal, with exactly the approved action,
  parameters and target, under the current catalog, with attempts left and no kill switch engaged that covers it.
  A ticket to reconcile sends nothing.
\<close>

theorem runner_executes_cleared:
  fixes rn :: "(execution_request list \<times> 'v) runner"
  assumes "runner_respects sys rn" "logs_requests rn"
    and "run_remediation rn k (s, (seen, v)) = (r, (s', (seen', v')))"
  shows "\<exists>new. seen' = seen @ new \<and> (\<forall>req \<in> set new. cleared_between sys k req s s')"
proof -
  have "logged sys k s seen (s, (seen, v))" by (simp add: logged_def history_refl)
  then have "logged sys k s seen (s', (seen', v'))"
    using keepsWD [OF loop_keeps [OF assms(2,1)] _ assms(3) [unfolded run_remediation_def]] by blast
  then show ?thesis by (simp add: logged_def)
qed

text \<open>The runner on the simulated environment, with the log.\<close>

definition sample_runner :: "(execution_request list \<times> simulator) runner" where
  "sample_runner = \<lparr>rn_core = sample_core, rn_tick = \<lambda>o'. (sample_clock, o'), rn_executor_name = ''simulator'',
     rn_execute = \<lambda>req left (s, (seen, st)). (case execute sample_params sample_times req st of
       (out, st') \<Rightarrow> (outcome_of out, (s, (seen @ [req], st')))),
     rn_inspect = \<lambda>key (s, (seen, st)). (map_sum (\<lambda>_. ''KeyError'') id (inspect key st), (s, (seen, st))),
     rn_baseline = None, rn_owner = ''w1'', rn_lease_seconds = 120\<rparr>"

lemma sample_runner_ok: "runner_respects sample_system sample_runner" "logs_requests sample_runner"
  by (auto simp: runner_respects_def logs_requests_def sample_runner_def sample_system_def history_refl split: prod.split)

theorem runner_refines_system_witness:
  "relW (history sample_system) (run_remediation sample_runner 2)"
  using sample_runner_ok(1) by (rule runner_refines_system)

lemma logged_report:
  fixes rn :: "(execution_request list \<times> 'v) runner"
  assumes g: "logs_requests rn" and core: "sys_remediations sys = rn_core rn"
  shows "keepsW (logged sys k s seen) (report_outcome rn tk outcome)" "keepsW (logged sys k s seen) (lease_lost_stops e)"
proof -
  show "keepsW (logged sys k s seen) (report_outcome rn tk outcome)"
    by (cases outcome) (simp_all add: report_outcome_def complete_ticket_def logged_completion [OF g core])
  show "keepsW (logged sys k s seen) (lease_lost_stops e)"
    by (simp add: lease_lost_stops_def keepsW_basic split: runner_raised.split error.split)
qed

lemma sample_run_logs:
  "\<exists>r s' req new v. run_remediation sample_runner 2 (approved_db, ([], sample_simulator)) = (r, (s', (req # new, v)))"
proof -
  let ?rn = sample_runner
  obtain tk s1 where claim: "claim_execution sample_core sample_clock 2 ''w1'' 120 approved_db = Inr (Some tk, s1)"
    and mode: "tk_mode tk = Execute"
    using sample_approved_claim by blast
  let ?w1 = "(s1, ([], sample_simulator))"
  let ?rest = "\<lambda>handled. case handled of None \<Rightarrow> coreW ?rn (\<lambda>_. view 2)
      | Some v \<Rightarrow> if r_status (fst v) \<noteq> R_EXECUTING then returnW v else claim_loop ?rn 2 9"
  have c: "coreW ?rn (\<lambda>clk. claim_execution (rn_core ?rn) clk 2 (rn_owner ?rn) (rn_lease_seconds ?rn))
      (approved_db, ([], sample_simulator)) = (Inr (Some tk), ?w1)"
    using claim by (simp add: coreW_def commandW_def sample_runner_def run_tx_def)
  obtain out w2 where ex: "run_executor ?rn tk ?w1 = (Inr out, w2)" and l: "fst (snd w2) = [request_of tk]"
    by (cases "execute sample_params sample_times (request_of tk) sample_simulator")
      (simp add: run_executor_def runner_clock_def bindW_def askW_def sample_runner_def)
  have claims: "MAX_CLAIMS = Suc 9" by (simp add: MAX_CLAIMS_def)
  let ?m = "bindW (tryW (bindW (report_outcome ?rn tk out) (\<lambda>v. returnW (Some v))) lease_lost_stops) ?rest"
  have "execute_ticket ?rn tk ?w1 = report_outcome ?rn tk out w2"
    using ex by (simp add: execute_ticket_def capture_baseline_def sample_runner_def bindW_app returnW_app)
  then have "handle_ticket ?rn tk ?w1 = tryW (bindW (report_outcome ?rn tk out) (\<lambda>v. returnW (Some v))) lease_lost_stops w2"
    by (simp add: handle_ticket_def mode tryW_def bindW_app)
  then have run: "run_remediation ?rn 2 (approved_db, ([], sample_simulator)) = ?m w2"
    unfolding run_remediation_def claims claim_loop.simps(2) by (simp add: bindW_app c)
  have core: "sys_remediations sample_system = rn_core ?rn" using sample_runner_ok(1) by (simp add: runner_respects_def)
  have "keepsW (logged sample_system 2 (fst w2) [request_of tk]) ?m"
    using sample_runner_ok
    by (intro keepsW_rules logged_report [OF _ core] logged_view loop_keeps)
  moreover have "logged sample_system 2 (fst w2) [request_of tk] w2" by (simp add: logged_def history_refl l)
  moreover obtain r w3 where w3: "?m w2 = (r, w3)" by (rule prod.exhaust)
  ultimately have "logged sample_system 2 (fst w2) [request_of tk] w3" by (rule keepsWD)
  then obtain new where "fst (snd w3) = request_of tk # new" by (auto simp: logged_def)
  then have "w3 = (fst w3, (request_of tk # new, snd (snd w3)))" by (metis prod.collapse)
  then show ?thesis using run w3 by metis
qed

theorem runner_executes_cleared_witness:
  "\<exists>s' req new v. snd (run_remediation sample_runner 2 (approved_db, ([], sample_simulator))) = (s', (req # new, v)) \<and>
     cleared_between sample_system 2 req approved_db s'"
proof -
  obtain r s' req new v where
    run: "run_remediation sample_runner 2 (approved_db, ([], sample_simulator)) = (r, (s', (req # new, v)))"
    using sample_run_logs by blast
  from runner_executes_cleared [OF sample_runner_ok run] run show ?thesis by auto
qed

end
