(* ===== verification/Verifier.thy ===== *)
theory Verifier
  imports Evidence_Properties Runner
begin

text \<open>
  \<^verbatim>\<open>packages/verification\<close>: the observer, which reduces evidence about a service to the sample a verification reads;
  the engine, which polls one verification under a lease; and the collector of the observation before an action. They
  are clients of the evidence service and of incident-core, and share the world of the evidence service.
\<close>

subsection \<open>One observation\<close>

text \<open>\<^verbatim>\<open>read\<close>: an evidence error becomes an entry of the sample's errors; anything else is raised.\<close>

definition readW ::
  "'v evidence_service \<Rightarrow> uuid \<Rightarrow> string \<Rightarrow> string \<Rightarrow> evidence_request \<Rightarrow>
   ('v, string + evidence_item) evidence_worker" where
  "readW ev incident_id requested_by name req =
     tryW (bindW (collect_evidence ev incident_id requested_by None req) (\<lambda>item. returnW (Inr item)))
       (\<lambda>e. case e of
          Evidence_failed err \<Rightarrow> returnW (Inl (name @ '': '' @ error_code (ee_class err)))
        | Core_failed _ \<Rightarrow> raiseW e)"

definition or_empty_list :: "json option \<Rightarrow> json" where
  "or_empty_list v = (case v of None \<Rightarrow> JList [] | Some j \<Rightarrow> j)"

definition or_empty_obj :: "json \<Rightarrow> json" where
  "or_empty_obj j = (if truthy j then j else JObj [])"

definition health_value :: "json dict \<Rightarrow> json dict" where
  "health_value data =
     [(''status'', jget data ''status''),
      (''signals'', JObj (map (\<lambda>(k, v). (k, jget (jdict v) ''value'')) (jdict (jget data ''signals'')))),
      (''violations'', or_empty_list (dget data ''violations''))]"

definition deployment_value :: "json dict \<Rightarrow> json dict" where
  "deployment_value data =
     (let current = jdict (jget data ''current'')
      in [(''version'', jget current ''version''), (''previous_version'', jget current ''previous_version''),
          (''deployed_at'', jget current ''deployed_at'')])"

definition config_value :: "json dict \<Rightarrow> json dict" where
  "config_value data = [(''effective'', or_empty_obj (jget data ''effective_config''))]"

definition runtime_value :: "json dict \<Rightarrow> json dict" where
  "runtime_value data = [(''replicas'', jget data ''replicas''), (''flags'', or_empty_obj (jget data ''flags''))]"

text \<open>What each source is asked for, its name in the errors, and the field of the sample it fills.\<close>

fun source_name :: "evidence_need \<Rightarrow> string" where
  "source_name Need_health = ''health''"
| "source_name Need_deployment = ''deployment''"
| "source_name Need_config = ''config''"
| "source_name Need_runtime = ''runtime''"

fun source_request :: "string \<Rightarrow> evidence_need \<Rightarrow> evidence_request" where
  "source_request service Need_health = Get_service_health (Some service) None"
| "source_request service Need_deployment = Get_recent_deployments (Some service) None None None"
| "source_request service Need_config = Get_config_changes (Some service) None None None"
| "source_request service Need_runtime = Get_runtime_state (Some service)"

fun store_value :: "evidence_need \<Rightarrow> json dict \<Rightarrow> sample \<Rightarrow> sample" where
  "store_value Need_health data smp = smp\<lparr>s_health := Some (health_value data)\<rparr>"
| "store_value Need_deployment data smp = smp\<lparr>s_deployment := Some (deployment_value data)\<rparr>"
| "store_value Need_config data smp = smp\<lparr>s_config := Some (config_value data)\<rparr>"
| "store_value Need_runtime data smp = smp\<lparr>s_runtime := Some (runtime_value data)\<rparr>"

definition observe_source ::
  "'v evidence_service \<Rightarrow> uuid \<Rightarrow> string \<Rightarrow> evidence_need set \<Rightarrow> string \<Rightarrow> evidence_need \<Rightarrow> sample \<times> uuid list \<Rightarrow>
   ('v, sample \<times> uuid list) evidence_worker" where
  "observe_source ev incident_id service needed requested_by need st =
     (if need \<notin> needed then returnW st
      else bindW (readW ev incident_id requested_by (source_name need) (source_request service need)) (\<lambda>found.
        case found of
          Inl err \<Rightarrow> returnW ((fst st)\<lparr>s_errors := s_errors (fst st) @ [err]\<rparr>, snd st)
        | Inr item \<Rightarrow> returnW (store_value need (ei_data item) (fst st), snd st @ [ei_evidence_id item])))"

definition empty_sample :: sample where
  "empty_sample = \<lparr>s_health = None, s_deployment = None, s_config = None, s_runtime = None, s_new_firing_alerts = None,
     s_errors = []\<rparr>"

definition observe ::
  "'v evidence_service \<Rightarrow> uuid \<Rightarrow> string \<Rightarrow> evidence_need set \<Rightarrow> string \<Rightarrow> ('v, sample \<times> uuid list) evidence_worker" where
  "observe ev incident_id service needed requested_by =
     (let source = observe_source ev incident_id service needed requested_by
      in bindW (source Need_health (empty_sample, [])) (\<lambda>st1.
         bindW (source Need_deployment st1) (\<lambda>st2.
         bindW (source Need_config st2) (\<lambda>st3.
           source Need_runtime st3))))"

subsection \<open>The engine\<close>

record 'v verifier =
  vf_evidence :: "'v evidence_service"
  vf_core :: verification_core
  vf_owner :: string
  vf_lease_seconds :: float64

definition verification_view :: "'v verifier \<Rightarrow> uuid \<Rightarrow> ('v, verification_row) evidence_worker" where
  "verification_view vf verification_id = gatewayW (vf_evidence vf) (\<lambda>_. lock_verification verification_id)"

definition start_verification :: "'v verifier \<Rightarrow> uuid \<Rightarrow> ('v, verification_row) evidence_worker" where
  "start_verification vf verification_id = gatewayW (vf_evidence vf) (\<lambda>clk. start clk verification_id)"

definition lost_is_none :: "evidence_raised \<Rightarrow> ('v, verification_row option) evidence_worker" where
  "lost_is_none e = (case e of Core_failed (LeaseLostError _) \<Rightarrow> returnW None | _ \<Rightarrow> raiseW e)"

definition observe_ticket :: "'v verifier \<Rightarrow> verification_ticket \<Rightarrow> ('v, verification_row option) evidence_worker" where
  "observe_ticket vf tkt =
     bindW (observe (vf_evidence vf) (vt_incident_id tkt) (vs_target_service (vt_spec tkt)) (needs (vt_spec tkt))
              (''verification:'' @ uuid_str (vt_verification_id tkt))) (\<lambda>(smp, evidence_ids).
     bindW (evidence_clock (vf_evidence vf)) (\<lambda>observed_at.
       tryW (bindW (gatewayW (vf_evidence vf) (\<lambda>clk. record_observation (vf_core vf) clk tkt smp evidence_ids observed_at))
               (\<lambda>v. returnW (Some v)))
         lost_is_none))"

definition tick :: "'v verifier \<Rightarrow> uuid \<Rightarrow> ('v, verification_row option) evidence_worker" where
  "tick vf verification_id =
     bindW (gatewayW (vf_evidence vf) (\<lambda>clk.
              claim_due (vf_core vf) clk verification_id (vf_owner vf) (vf_lease_seconds vf))) (\<lambda>claimed.
       case claimed of None \<Rightarrow> returnW None | Some tkt \<Rightarrow> observe_ticket vf tkt)"

fun run_ticks :: "'v verifier \<Rightarrow> ('v evidence_world \<Rightarrow> 'v evidence_world) \<Rightarrow> uuid \<Rightarrow> nat \<Rightarrow> ('v, verification_row) evidence_worker" where
  "run_ticks vf sleep verification_id 0 = verification_view vf verification_id"
| "run_ticks vf sleep verification_id (Suc left) =
     thenW (tick vf verification_id)
     (bindW (verification_view vf verification_id) (\<lambda>v.
        if v_status v \<in> set TERMINAL_VERIFICATION_STATUSES then returnW v
        else thenW (askW (\<lambda>w. ((), sleep w))) (run_ticks vf sleep verification_id left)))"

definition run_until_done ::
  "'v verifier \<Rightarrow> ('v evidence_world \<Rightarrow> 'v evidence_world) \<Rightarrow> uuid \<Rightarrow> nat \<Rightarrow> ('v, verification_row) evidence_worker" where
  "run_until_done vf sleep verification_id max_ticks =
     thenW (start_verification vf verification_id) (run_ticks vf sleep verification_id max_ticks)"

subsection \<open>The observation before an action\<close>

definition sample_values :: "sample \<Rightarrow> json dict" where
  "sample_values smp =
     [(''health'', jopt JObj (s_health smp)), (''deployment'', jopt JObj (s_deployment smp)),
      (''config'', jopt JObj (s_config smp)), (''runtime'', jopt JObj (s_runtime smp))]"

definition baseline_needs :: "execution_ticket \<Rightarrow> verification_spec \<Rightarrow> evidence_need set" where
  "baseline_needs tk spec = needs spec \<union> (if tk_action_id tk = ''scale_service'' then {Need_runtime} else {})"

definition collect_baseline :: "'v evidence_service \<Rightarrow> execution_ticket \<Rightarrow> string \<Rightarrow> ('v, bool) evidence_worker" where
  "collect_baseline ev tk owner =
     (case get_entry (tk_action_id tk) of
        None \<Rightarrow> returnW True
      | Some entry \<Rightarrow>
          if \<not> vp_baseline_required (ac_verification entry) then returnW True
          else
            (let rid = r_id (fst (tk_remediation tk))
             in bindW (gatewayW ev (\<lambda>_. getsT (get_baseline rid))) (\<lambda>existing.
                  if existing \<noteq> None then returnW True
                  else bindW (liftW (map_sum Core_failed id
                                (build_spec (ac_verification entry) (tk_action_id tk) (tk_parameters tk) None 1))) (\<lambda>spec.
                       bindW (observe ev (r_incident_id (fst (tk_remediation tk))) (tk_target_service tk)
                                (baseline_needs tk spec) (''baseline:'' @ uuid_str rid)) (\<lambda>(smp, evidence_ids).
                         if s_errors smp \<noteq> [] then returnW False
                         else thenW (gatewayW ev (\<lambda>clk. record_baseline clk rid owner (sample_values smp) evidence_ids))
                                (returnW True))))))"

text \<open>As the runner's baseline: the runner sees the errors of incident-core as its own.\<close>

definition baseline_of ::
  "'v evidence_service \<Rightarrow> execution_ticket \<Rightarrow> string \<Rightarrow> (evidence_record list \<times> 'v, runner_raised, bool) worker" where
  "baseline_of ev tk owner =
     tryW (collect_baseline ev tk owner)
       (\<lambda>e. raiseW (case e of Core_failed err \<Rightarrow> Core_raised err | Evidence_failed err \<Rightarrow> Executor_raised (ee_message err)))"

end
