(* ===== verification/Verifier_Properties.thy ===== *)
theory Verifier_Properties
  imports Verifier Planner
begin

text \<open>
  Properties of the verification worker: a sample passes only on evidence that was collected for it, an action that
  needs a baseline waits for one, and the worker changes incident-core only through its commands.
\<close>

subsection \<open>What observing leaves alone\<close>

text \<open>
  A property of the world that the steps of a collection keep is kept by every observation. It is used for two: the
  evidence on record only grows, and nobody writes a baseline meanwhile.
\<close>

locale collecting =
  fixes ev :: "'v evidence_service" and J :: "'v evidence_world \<Rightarrow> bool"
  assumes keeps_view: "keepsW J (gatewayW ev (\<lambda>_. get_incident_view i))"
    and keeps_register: "keepsW J (gatewayW ev (\<lambda>clk. register_evidence_ref clk c))"
    and keeps_clock: "keepsW J (evidence_clock ev)"
    and keeps_insert: "keepsW J (insert_record build)"
    and keeps_backend: "keepsW J (askW (ev_backend ev q) :: ('v, evidence_error + observation) evidence_worker)"
    and keeps_new_id: "keepsW J (askW (ev_new_id ev) :: ('v, uuid) evidence_worker)"
begin

lemma keeps_collect: "keepsW J (collect_evidence ev i by k req)"
  unfolding collect_evidence_def persist_def checkedW_def resolve_scope_def register_record_def thenW_def
  by (intro keepsW_rules keeps_view keeps_register keeps_clock keeps_insert keeps_backend keeps_new_id)

lemma keeps_read: "keepsW J (readW ev i by name req)"
proof -
  have "keepsW J (case e of Evidence_failed err \<Rightarrow> returnW (Inl (h err)) | Core_failed x \<Rightarrow> raiseW e)"
    for h :: "evidence_error \<Rightarrow> string" and e by (cases e) (simp_all add: keepsW_basic)
  then show ?thesis unfolding readW_def by (intro keepsW_rules keeps_collect)
qed

lemma keeps_source: "keepsW J (observe_source ev i service needed by need st)"
proof -
  have "keepsW J (case found of Inl err \<Rightarrow> returnW (f err) | Inr item \<Rightarrow> returnW (g item))"
    for found :: "string + evidence_item" and f g :: "_ \<Rightarrow> sample \<times> uuid list"
    by (cases found) (simp_all add: keepsW_basic)
  then show ?thesis unfolding observe_source_def by (intro keepsW_rules keeps_read)
qed

lemma keeps_observe: "keepsW J (observe ev i service needed by)"
  unfolding observe_def Let_def by (intro keepsW_rules keeps_source)

end

lemma keepsW_gateway:
  fixes ev :: "'v evidence_service"
  assumes "\<And>s s' recs v v' clk. J (s, (recs, v)) \<Longrightarrow> s' = snd (run_tx (m clk) s) \<Longrightarrow> J (s', (recs, v'))"
  shows "keepsW J (gatewayW ev m)"
  unfolding keepsW_def
proof (intro allI impI)
  fix w w' :: "'v evidence_world" and r
  assume j: "J w" and run: "gatewayW ev m w = (r, w')"
  obtain s recs v where w: "w = (s, (recs, v))" by (metis prod.exhaust)
  obtain clk v' where t: "ev_tick ev v = (clk, v')" by (rule prod.exhaust)
  obtain x s' where "run_tx (m clk) s = (x, s')" by (rule prod.exhaust)
  then have "w' = (s', (recs, v'))" "s' = snd (run_tx (m clk) s)"
    using run t by (cases x; auto simp: gatewayW_def commandW_def evidence_tick_def w)+
  with j show "J w'" using assms unfolding w by blast
qed

definition backend_appends :: "'v evidence_service \<Rightarrow> bool" where
  "backend_appends ev \<longleftrightarrow>
     (\<forall>q w. prefix (fst (snd w)) (fst (snd (snd (ev_backend ev q w))))) \<and>
     (\<forall>w. prefix (fst (snd w)) (fst (snd (snd (ev_new_id ev w)))))"

definition backend_leaves_baselines :: "'v evidence_service \<Rightarrow> bool" where
  "backend_leaves_baselines ev \<longleftrightarrow>
     (\<forall>q w. baselines (fst (snd (ev_backend ev q w))) = baselines (fst w)) \<and>
     (\<forall>w. baselines (fst (snd (ev_new_id ev w))) = baselines (fst w))"

abbreviation records_from :: "evidence_record list \<Rightarrow> 'v evidence_world \<Rightarrow> bool" where
  "records_from rs w \<equiv> prefix rs (fst (snd w))"

interpretation grows: collecting ev "\<lambda>w. backend_appends ev \<longrightarrow> records_from rs w" for ev :: "'v evidence_service" and rs
proof unfold_locales
  show "keepsW (\<lambda>w. backend_appends ev \<longrightarrow> records_from rs w) (gatewayW ev (\<lambda>_. get_incident_view i))"
    and "keepsW (\<lambda>w. backend_appends ev \<longrightarrow> records_from rs w) (gatewayW ev (\<lambda>clk. register_evidence_ref clk c))" for i c
    by (rule keepsW_gateway; simp)+
  show "keepsW (\<lambda>w. backend_appends ev \<longrightarrow> records_from rs w) (evidence_clock ev)"
    unfolding evidence_clock_def evidence_tick_def by (rule keepsW_ask) (auto split: prod.splits)
  show "keepsW (\<lambda>w. backend_appends ev \<longrightarrow> records_from rs w) (insert_record build)" for build
    by (auto simp: keepsW_def insert_record_def Let_def split: prod.splits if_splits)
  show "keepsW (\<lambda>w. backend_appends ev \<longrightarrow> records_from rs w)
      (askW (ev_backend ev q) :: ('v, evidence_error + observation) evidence_worker)" for q
    by (rule keepsW_ask) (metis backend_appends_def prefix_order.trans)
  show "keepsW (\<lambda>w. backend_appends ev \<longrightarrow> records_from rs w)
      (askW (ev_new_id ev) :: ('v, uuid) evidence_worker)"
    by (rule keepsW_ask) (metis backend_appends_def prefix_order.trans)
qed

lemma register_baselines: "baselines (snd (run_tx (register_evidence_ref clk c) s)) = baselines s"
  by (auto simp: run_tx_snd register_evidence_ref_def insert_evidence_ref_def get_evidence_ref_def insert_outbox_event_app
      split: sum.splits)

interpretation based: collecting ev "\<lambda>w. backend_leaves_baselines ev \<longrightarrow> baselines (fst w) = bs"
  for ev :: "'v evidence_service" and bs
proof unfold_locales
  show "keepsW (\<lambda>w. backend_leaves_baselines ev \<longrightarrow> baselines (fst w) = bs) (gatewayW ev (\<lambda>_. get_incident_view i))" for i
    by (rule keepsW_gateway) (simp add: get_incident_view_reads)
  show "keepsW (\<lambda>w. backend_leaves_baselines ev \<longrightarrow> baselines (fst w) = bs) (gatewayW ev (\<lambda>clk. register_evidence_ref clk c))" for c
    by (rule keepsW_gateway) (simp add: register_baselines)
  show "keepsW (\<lambda>w. backend_leaves_baselines ev \<longrightarrow> baselines (fst w) = bs) (evidence_clock ev)"
    unfolding evidence_clock_def evidence_tick_def by (rule keepsW_ask) (auto split: prod.splits)
  show "keepsW (\<lambda>w. backend_leaves_baselines ev \<longrightarrow> baselines (fst w) = bs) (insert_record build)" for build
    by (auto simp: keepsW_def insert_record_def Let_def split: prod.splits if_splits)
  show "keepsW (\<lambda>w. backend_leaves_baselines ev \<longrightarrow> baselines (fst w) = bs)
      (askW (ev_backend ev q) :: ('v, evidence_error + observation) evidence_worker)" for q
    by (rule keepsW_ask) (metis backend_leaves_baselines_def)
  show "keepsW (\<lambda>w. backend_leaves_baselines ev \<longrightarrow> baselines (fst w) = bs)
      (askW (ev_new_id ev) :: ('v, uuid) evidence_worker)"
    by (rule keepsW_ask) (metis backend_leaves_baselines_def)
qed

subsection \<open>What a sample rests on\<close>

text \<open>The field of a sample, and that a record of the incident supports it.\<close>

fun observed_value :: "evidence_need \<Rightarrow> json dict \<Rightarrow> json dict" where
  "observed_value Need_health = health_value"
| "observed_value Need_deployment = deployment_value"
| "observed_value Need_config = config_value"
| "observed_value Need_runtime = runtime_value"

fun sample_field :: "evidence_need \<Rightarrow> sample \<Rightarrow> json dict option" where
  "sample_field Need_health smp = s_health smp"
| "sample_field Need_deployment smp = s_deployment smp"
| "sample_field Need_config smp = s_config smp"
| "sample_field Need_runtime smp = s_runtime smp"

definition supported ::
  "uuid \<Rightarrow> evidence_need \<Rightarrow> sample \<Rightarrow> uuid list \<Rightarrow> evidence_record list \<Rightarrow> bool" where
  "supported i need smp ids records \<longleftrightarrow> (\<exists>r \<in> set records. ec_incident_id r = i \<and> ec_evidence_id r \<in> set ids \<and>
     verify_content_hash (ec_raw_response r) (ec_content_hash r) \<and>
     sample_field need smp = Some (observed_value need (ec_normalized_payload r)))"

lemma store_field [simp]:
  "sample_field need' (store_value need data smp) =
     (if need' = need then Some (observed_value need data) else sample_field need' smp)"
  "s_errors (store_value need data smp) = s_errors smp"
  by (cases need; cases need'; simp)+

lemma errors_field [simp]: "sample_field need (smp\<lparr>s_errors := es\<rparr>) = sample_field need smp"
  by (cases need) simp_all

lemma alerts_field [simp]: "sample_field need (smp\<lparr>s_new_firing_alerts := n\<rparr>) = sample_field need smp"
  by (cases need) simp_all

text \<open>Asking one source: nothing, an error, or a value with its record.\<close>

lemma source_step:
  assumes run: "observe_source ev i service needed by need (smp, ids) w = (Inr (smp', ids'), w')"
  obtains (skipped) "need \<notin> needed" "smp' = smp" "ids' = ids"
    | (failed) "s_errors smp' \<noteq> []"
    | (stored) r where "need \<in> needed" "r \<in> set (fst (snd w'))" "ec_incident_id r = i"
        "verify_content_hash (ec_raw_response r) (ec_content_hash r)" "ids' = ids @ [ec_evidence_id r]"
        "smp' = store_value need (ec_normalized_payload r) smp"
proof (cases "need \<in> needed")
  case False
  then show ?thesis using run skipped by (simp add: observe_source_def)
next
  case True
  obtain x w1 where read: "readW ev i by (source_name need) (source_request service need) w = (x, w1)"
    by (rule prod.exhaust)
  then obtain found where x: "x = Inr found"
    using run True by (cases x) (simp_all add: observe_source_def bindW_app)
  note found = read [unfolded x]
  show ?thesis
  proof (cases found)
    case (Inl err)
    then have "smp' = smp\<lparr>s_errors := s_errors smp @ [err]\<rparr>"
      using run True found by (simp add: observe_source_def bindW_app returnW_app)
    then show ?thesis using failed by simp
  next
    case (Inr item)
    obtain r w2 where c: "collect_evidence ev i by None (source_request service need) w = (r, w2)" by (rule prod.exhaust)
    have "r = Inr item" "w2 = w1"
      using found Inr c by (cases r; auto simp: readW_def tryW_def bindW_app returnW_app raiseW_app split: evidence_raised.splits)+
    then have c': "collect_evidence ev i by None (source_request service need) w = (Inr item, w1)" using c by simp
    obtain rec scope ob t e n where r: "rec = new_evidence_record scope ob by None t e n" "sc_incident_id scope = i"
      "item = to_item rec" "get_record (ec_evidence_id rec) (fst (snd w1)) = Some rec"
      using collected [OF c'] by metis
    have rest': "smp' = store_value need (ei_data item) smp" "ids' = ids @ [ei_evidence_id item]" "w1 = w'"
      using run True found Inr by (simp_all add: observe_source_def bindW_app returnW_app)
    have "rec \<in> set (fst (snd w'))" using r(4) rest'(3) by (auto simp: get_record_def find_Some_iff)
    moreover have "ec_incident_id rec = i" "verify_content_hash (ec_raw_response rec) (ec_content_hash rec)"
      using r(1,2) by (simp_all add: new_evidence_record_def verify_content_hash_def Let_def)
    ultimately show ?thesis using stored [OF True] rest' r(3) by (simp add: to_item_def)
  qed
qed

text \<open>One source keeps what the others established, unless the sample has an error.\<close>

definition supported_all ::
  "uuid \<Rightarrow> evidence_need set \<Rightarrow> evidence_need set \<Rightarrow> sample \<Rightarrow> uuid list \<Rightarrow> evidence_record list \<Rightarrow> bool" where
  "supported_all i needed asked smp ids records \<longleftrightarrow>
     s_errors smp \<noteq> [] \<or> (\<forall>need \<in> needed \<inter> asked. supported i need smp ids records)"

lemma source_supports:
  assumes app: "backend_appends ev" and run: "observe_source ev i service needed by need (smp, ids) w = (Inr (smp', ids'), w')"
    and before: "supported_all i needed asked smp ids (fst (snd w))" and new: "need \<notin> asked"
  shows "supported_all i needed (insert need asked) smp' ids' (fst (snd w'))"
proof -
  have recs: "set (fst (snd w)) \<subseteq> set (fst (snd w'))"
    using keepsWD [OF grows.keeps_source [where rs = "fst (snd w)"] _ run] app by (auto dest: set_mono_prefix)
  from run show ?thesis
  proof (cases rule: source_step)
    case skipped
    have "supported i n smp' ids' (fst (snd w'))" if "supported i n smp ids (fst (snd w))" for n
      using that recs skipped(2,3) unfolding supported_def by blast
    with skipped show ?thesis using before unfolding supported_all_def by auto
  next
    case failed
    then show ?thesis by (simp add: supported_all_def)
  next
    case (stored r)
    have mine: "supported i need smp' ids' (fst (snd w'))"
      using stored unfolding supported_def by (intro bexI [of _ r]) simp_all
    have others: "supported i n smp' ids' (fst (snd w'))" if "supported i n smp ids (fst (snd w))" "n \<in> asked" for n
      using that new stored(5,6) recs unfolding supported_def by auto
    show ?thesis using before mine others stored(6) unfolding supported_all_def by auto
  qed
qed

lemma observe_supports:
  assumes app: "backend_appends ev" and run: "observe ev i service needed by w = (Inr (smp, ids), w')"
  shows "supported_all i needed UNIV smp ids (fst (snd w'))"
proof -
  obtain sm1 id1 w1 sm2 id2 w2 sm3 id3 w3 where
    a: "observe_source ev i service needed by Need_health (empty_sample, []) w = (Inr (sm1, id1), w1)"
    and b: "observe_source ev i service needed by Need_deployment (sm1, id1) w1 = (Inr (sm2, id2), w2)"
    and c: "observe_source ev i service needed by Need_config (sm2, id2) w2 = (Inr (sm3, id3), w3)"
    and d: "observe_source ev i service needed by Need_runtime (sm3, id3) w3 = (Inr (smp, ids), w')"
    using run unfolding observe_def Let_def bindW_Inr by (metis prod.exhaust)
  have 0: "supported_all i needed {} empty_sample [] (fst (snd w))" by (simp add: supported_all_def)
  note 1 = source_supports [OF app a 0]
  note 2 = source_supports [OF app b 1]
  note 3 = source_supports [OF app c 2]
  note 4 = source_supports [OF app d 3]
  have "UNIV = insert Need_runtime (insert Need_config (insert Need_deployment (insert Need_health {})))"
    using evidence_need.exhaust by auto
  with 4 show ?thesis by simp
qed

text \<open>
  C37. A verification passes on evidence only: if the sample of an observation passes the checks, every source the
  specification needs was read, and what the sample says of it is the content of an evidence record of that incident,
  collected and returned by this observation, whose hash verifies. A source that fails never counts as a pass.
\<close>

theorem passed_only_on_evidence:
  assumes "backend_appends ev" and "observe ev i service needed by w = (Inr (smp, ids), w')"
    and "passed (evaluate_sample spec (smp\<lparr>s_new_firing_alerts := n\<rparr>))" and "need \<in> needed"
  shows "\<exists>r \<in> set (fst (snd w')). ec_incident_id r = i \<and> ec_evidence_id r \<in> set ids \<and>
    verify_content_hash (ec_raw_response r) (ec_content_hash r) \<and>
    sample_field need smp = Some (observed_value need (ec_normalized_payload r))"
proof -
  have "s_errors smp = []" using assms(3) by (simp add: passed_iff)
  then have "supported i need smp ids (fst (snd w'))"
    using observe_supports [OF assms(1,2)] assms(4) by (simp add: supported_all_def)
  then show ?thesis unfolding supported_def .
qed

text \<open>A sample on the sample database: only the runtime state is needed.\<close>

definition sample_need_spec :: verification_spec where
  "sample_need_spec = \<lparr>vs_policy_version = VERIFICATION_POLICY_VERSION, vs_action_id = ''restart_service'',
     vs_target_service = ''api'', vs_grace_seconds = 0, vs_window_seconds = 60, vs_poll_interval_seconds = 5,
     vs_timeout_seconds = 60, vs_required_consecutive = 1, vs_checks = []\<rparr>"

lemma sample_observation_runs:
  "\<exists>smp ids w'. observe sample_evidence_service 0 ''api'' {Need_runtime} ''v'' (sample_db INVESTIGATING, ([], ())) =
     (Inr (smp, ids), w') \<and> s_errors smp = []"
proof -
  have "\<exists>item w'. collect_evidence sample_evidence_service 0 ''v'' None (Get_runtime_state (Some ''api''))
     (sample_db INVESTIGATING, ([], ())) = (Inr item, w')"
  proof (rule sample_collects)
    show "collector_of [] (Get_runtime_state (Some ''api'')) = Inr (collect_runtime_state (Some ''api''))" by simp
    show "\<exists>q. collect_runtime_state (Some ''api'') scope now = Inr q"
      if "sc_allowed_services scope = [''api'']" for scope now
      using that by (simp add: collect_runtime_state_def service_or_default_def label_value_def plain_label_def
          label_start_def)
  qed (simp add: check_observation_def)
  then obtain item w' where c: "collect_evidence sample_evidence_service 0 ''v'' None (Get_runtime_state (Some ''api''))
     (sample_db INVESTIGATING, ([], ())) = (Inr item, w')" by blast
  then have "observe sample_evidence_service 0 ''api'' {Need_runtime} ''v'' (sample_db INVESTIGATING, ([], ())) =
      (Inr (store_value Need_runtime (ei_data item) empty_sample, [ei_evidence_id item]), w')"
    by (simp add: observe_def observe_source_def readW_def bindW_app tryW_def returnW_app)
  then show ?thesis by (intro exI conjI) (assumption, simp add: empty_sample_def)
qed

theorem passed_only_on_evidence_witness:
  "\<exists>smp ids w' (r :: evidence_record). observe sample_evidence_service 0 ''api'' {Need_runtime} ''v'' (sample_db INVESTIGATING, ([], ())) =
     (Inr (smp, ids), w') \<and> ec_evidence_id r \<in> set ids \<and>
     s_runtime smp = Some (runtime_value (ec_normalized_payload r))"
proof -
  obtain smp ids w' where run: "observe sample_evidence_service 0 ''api'' {Need_runtime} ''v''
      (sample_db INVESTIGATING, ([], ())) = (Inr (smp, ids), w')" and e: "s_errors smp = []"
    using sample_observation_runs by blast
  have app: "backend_appends sample_evidence_service"
    by (simp add: backend_appends_def sample_evidence_service_def)
  have "passed (evaluate_sample sample_need_spec (smp\<lparr>s_new_firing_alerts := Some 0\<rparr>))"
    using e by (simp add: passed_iff sample_need_spec_def)
  from passed_only_on_evidence [OF app run this insertI1]
  obtain r :: evidence_record where r: "ec_evidence_id r \<in> set ids"
    "sample_field Need_runtime smp = Some (observed_value Need_runtime (ec_normalized_payload r))" by blast
  then have "s_runtime smp = Some (runtime_value (ec_normalized_payload r))" by simp
  with run r(1) show ?thesis by blast
qed

subsection \<open>Not acting blind\<close>

lemma baseline_recorded:
  assumes "record_baseline clk k owner vals ids s = Inr (u, s')" "get_baseline k s = None"
  shows "\<exists>row. get_baseline k s' = Some row \<and> b_values row = vals \<and> b_evidence_ids row = ids"
proof -
  obtain x where "s' = s\<lparr>baselines := baselines s @ [\<lparr>b_remediation_id = k, b_status = ''captured'', b_values = vals,
               b_evidence_ids = ids, b_error = None, b_captured_at = clk_now clk\<rparr>], timeline := x\<rparr>"
    using assms by (auto simp: record_baseline_def lock_def add_timeline_def)
  then show ?thesis using assms(2) by (simp add: get_baseline_def lookup_row_append)
qed

lemma sample_values_field: "jget (sample_values smp) (source_name need) = jopt JObj (sample_field need smp)"
  by (cases need) (simp_all add: sample_values_def jget_def)

text \<open>The collector lets an action go ahead with a baseline on record already, or with one it has just observed.\<close>

lemma collect_baseline_cases:
  assumes run: "collect_baseline ev tk owner w = (Inr True, w')" and e: "get_entry (tk_action_id tk) = Some e"
    and req: "vp_baseline_required (ac_verification e)"
  obtains (recorded) row where "get_baseline (r_id (fst (tk_remediation tk))) (fst w) = Some row" "fst w' = fst w"
    | (observed) spec smp ids w1 w2 clk s' u v' where "get_baseline (r_id (fst (tk_remediation tk))) (fst w) = None"
        "fst w1 = fst w" "build_spec (ac_verification e) (tk_action_id tk) (tk_parameters tk) None 1 = Inr spec"
        "observe ev (r_incident_id (fst (tk_remediation tk))) (tk_target_service tk) (baseline_needs tk spec)
           (''baseline:'' @ uuid_str (r_id (fst (tk_remediation tk)))) w1 = (Inr (smp, ids), w2)"
        "s_errors smp = []"
        "record_baseline clk (r_id (fst (tk_remediation tk))) owner (sample_values smp) ids (fst w2) = Inr (u, s')"
        "w' = (s', (fst (snd w2), v'))"
proof -
  let ?k = "r_id (fst (tk_remediation tk))"
  obtain s recs v where w: "w = (s, (recs, v))" by (metis prod.exhaust)
  obtain x w1 where g: "gatewayW ev (\<lambda>_. getsT (get_baseline ?k)) w = (x, w1)" by (rule prod.exhaust)
  obtain existing where x: "x = Inr existing"
    using run e req g by (cases x) (simp_all add: collect_baseline_def Let_def bindW_app)
  have now: "existing = get_baseline ?k (fst w)" "fst w1 = fst w"
    using g unfolding w x by (auto elim!: gatewayW_Inr)
  show thesis
  proof (cases existing)
    case (Some b)
    then have "w' = w1" using run e req g x by (simp add: collect_baseline_def Let_def bindW_app returnW_app)
    then show ?thesis using recorded now Some by metis
  next
    case None
    have "bindW (liftW (map_sum Core_failed id (build_spec (ac_verification e) (tk_action_id tk) (tk_parameters tk) None 1)))
         (\<lambda>spec. bindW (observe ev (r_incident_id (fst (tk_remediation tk))) (tk_target_service tk)
                  (baseline_needs tk spec) (''baseline:'' @ uuid_str ?k)) (\<lambda>(smp, evidence_ids).
             if s_errors smp \<noteq> [] then returnW False
             else thenW (gatewayW ev (\<lambda>clk. record_baseline clk ?k owner (sample_values smp) evidence_ids))
                    (returnW True))) w1 = (Inr True, w')"
      using run e req g x None by (simp add: collect_baseline_def Let_def bindW_app)
    then obtain spec smp ids w2 where spec: "build_spec (ac_verification e) (tk_action_id tk) (tk_parameters tk) None 1 = Inr spec"
      and obs: "observe ev (r_incident_id (fst (tk_remediation tk))) (tk_target_service tk) (baseline_needs tk spec)
           (''baseline:'' @ uuid_str ?k) w1 = (Inr (smp, ids), w2)"
      and rest: "(if s_errors smp \<noteq> [] then returnW False
             else thenW (gatewayW ev (\<lambda>clk. record_baseline clk ?k owner (sample_values smp) ids)) (returnW True)) w2 =
          (Inr True, w')"
      unfolding bindW_Inr liftW_Inr by (auto split: prod.splits) (cases "build_spec (ac_verification e) (tk_action_id tk) (tk_parameters tk) None 1"; auto)
    have clean: "s_errors smp = []" using rest by (cases "s_errors smp = []") simp_all
    obtain u where rec: "gatewayW ev (\<lambda>clk. record_baseline clk ?k owner (sample_values smp) ids) w2 = (Inr u, w')"
      using rest clean unfolding thenW_Inr by (simp add: thenW_Inr) blast
    obtain s2 recs2 v2 where w2: "w2 = (s2, (recs2, v2))" by (metis prod.exhaust)
    obtain clk s' v' where "record_baseline clk ?k owner (sample_values smp) ids s2 = Inr (u, s')" "w' = (s', (recs2, v'))"
      using rec unfolding w2 by (rule gatewayW_Inr)
    then show ?thesis using observed [OF _ now(2) spec obs clean] now(1) None w2 by simp
  qed
qed

text \<open>
  C38. No blind action: when the baseline collector lets an action of the catalog go ahead whose verification compares
  with the state before it, a baseline of the remediation is on record. Unless it was before the call, it holds, for
  every source the comparison needs, the content of an evidence record of the incident whose hash verifies and whose id
  it cites: an observation with an error never becomes a baseline. (Without it the runner reports the attempt as failed
  and executes nothing.) The backends must only add evidence and write no baseline while they are asked.
\<close>

theorem baseline_before_action:
  assumes "backend_appends ev" and "backend_leaves_baselines ev"
    and "collect_baseline ev tk owner w = (Inr True, w')" and "get_entry (tk_action_id tk) = Some e"
    and "vp_baseline_required (ac_verification e)"
  shows "\<exists>row. get_baseline (r_id (fst (tk_remediation tk))) (fst w') = Some row \<and>
    (get_baseline (r_id (fst (tk_remediation tk))) (fst w) = Some row \<or>
     (\<exists>spec. build_spec (ac_verification e) (tk_action_id tk) (tk_parameters tk) None 1 = Inr spec \<and>
       (\<forall>need \<in> baseline_needs tk spec. \<exists>r \<in> set (fst (snd w')).
          ec_incident_id r = r_incident_id (fst (tk_remediation tk)) \<and> ec_evidence_id r \<in> set (b_evidence_ids row) \<and>
          verify_content_hash (ec_raw_response r) (ec_content_hash r) \<and>
          jget (b_values row) (source_name need) = JObj (observed_value need (ec_normalized_payload r)))))"
  using assms(3-5)
proof (cases rule: collect_baseline_cases)
  case (recorded row)
  then show ?thesis by simp
next
  case (observed spec smp ids w1 w2 clk s' u v')
  have "baselines (fst w2) = baselines (fst w1)"
    using keepsWD [OF based.keeps_observe [where bs = "baselines (fst w1)"] _ observed(4)] assms(2) by simp
  then have "get_baseline (r_id (fst (tk_remediation tk))) (fst w2) = None"
    using observed(1,2) by (simp add: get_baseline_def)
  from baseline_recorded [OF observed(6) this] obtain row where
    row: "get_baseline (r_id (fst (tk_remediation tk))) (fst w') = Some row" "b_values row = sample_values smp"
      "b_evidence_ids row = ids" using observed(7) by auto
  have "supported (r_incident_id (fst (tk_remediation tk))) need smp ids (fst (snd w'))"
    if "need \<in> baseline_needs tk spec" for need
    using observe_supports [OF assms(1) observed(4)] that observed(5,7) by (simp add: supported_all_def)
  then show ?thesis
    using row observed(3) unfolding supported_def by (fastforce simp: sample_values_field)
qed

definition sample_baseline_ticket :: execution_ticket where
  "sample_baseline_ticket = \<lparr>tk_mode = Execute, tk_remediation = (sample_remediation R_EXECUTING 1, None), tk_execution_id = 3,
     tk_attempt = 1, tk_idempotency_key = ''k'', tk_deadline = 0, tk_action_id = ''restart_service'',
     tk_catalog_version = CATALOG_VERSION, tk_parameters = [], tk_target_service = ''api'', tk_environment = ''production''\<rparr>"

lemma sample_baseline_ready: "sample_ready executing_db" "get_baseline 2 executing_db = None"
  by (simp_all add: sample_ready_def get_incident_def get_baseline_def executing_db_def sample_db_def empty_db_def
      sample_incident_def)

lemma sample_health_observed:
  "\<exists>smp ids s' recs. observe sample_evidence_service 0 ''api'' {Need_health} by (executing_db, ([], ())) =
     (Inr (smp, ids), (s', (recs, ()))) \<and> s_errors smp = [] \<and> remediations s' = remediations executing_db"
proof -
  have "\<exists>item s' recs. collect_evidence sample_evidence_service 0 by None (Get_service_health (Some ''api'') None)
     (executing_db, ([], ())) = (Inr item, (s', (recs, ()))) \<and> remediations s' = remediations executing_db \<and>
     baselines s' = baselines executing_db"
  proof (rule ready_collects [OF sample_baseline_ready(1)])
    show "collector_of [] (Get_service_health (Some ''api'') None) = Inr (collect_service_health (Some ''api'') None)" by simp
    show "\<exists>q. collect_service_health (Some ''api'') None scope (clk_now sample_clock) = Inr q"
      if "sc_allowed_services scope = [''api'']" "sc_created_at scope = 0" for scope
      using that by (simp add: collect_service_health_def service_or_default_def label_value_def plain_label_def
          label_start_def window_def naive_def limit_defs seconds_def sample_clock_def Let_def)
  qed (simp add: check_observation_def)
  then obtain item s' recs where c: "collect_evidence sample_evidence_service 0 by None
      (Get_service_health (Some ''api'') None) (executing_db, ([], ())) = (Inr item, (s', (recs, ())))"
    "remediations s' = remediations executing_db" by blast
  then have "observe sample_evidence_service 0 ''api'' {Need_health} by (executing_db, ([], ())) =
      (Inr (store_value Need_health (ei_data item) empty_sample, [ei_evidence_id item]), (s', (recs, ())))"
    by (simp add: observe_def observe_source_def readW_def bindW_app tryW_def returnW_app)
  with c(2) show ?thesis by (auto simp: empty_sample_def)
qed

theorem baseline_before_action_witness:
  "\<exists>w' row (r :: evidence_record). collect_baseline sample_evidence_service sample_baseline_ticket ''w1'' (executing_db, ([], ())) = (Inr True, w') \<and>
     get_baseline 2 executing_db = None \<and> get_baseline 2 (fst w') = Some row \<and>
     jget (b_values row) ''health'' = JObj (health_value (ec_normalized_payload r)) \<and> ec_evidence_id r \<in> set (b_evidence_ids row)"
proof -
  have act: "tk_action_id sample_baseline_ticket = ''restart_service''" "tk_target_service sample_baseline_ticket = ''api''"
    and rem: "fst (tk_remediation sample_baseline_ticket) = sample_remediation R_EXECUTING 1"
      "r_id (sample_remediation R_EXECUTING 1) = 2" "r_incident_id (sample_remediation R_EXECUTING 1) = 0"
    by (simp_all add: sample_baseline_ticket_def sample_remediation_def)
  have e: "get_entry (tk_action_id sample_baseline_ticket) = Some entry_restart_service"
    by (simp add: act catalog_actions)
  have req: "vp_baseline_required (ac_verification entry_restart_service)"
    by (simp add: entry_restart_service_def VerificationPolicy_def)
  obtain spec where spec: "build_spec (ac_verification entry_restart_service) (tk_action_id sample_baseline_ticket)
      (tk_parameters sample_baseline_ticket) None 1 = Inr spec" "baseline_needs sample_baseline_ticket spec = {Need_health}"
    by (simp add: build_spec_def entry_restart_service_def VerificationPolicy_def HEALTHY_def ERRORS_OK_def
        NO_NEW_ALERTS_def build_check_def Let_def baseline_needs_def needs_def act)
  obtain smp ids s1 recs where obs: "observe sample_evidence_service 0 ''api'' {Need_health} (''baseline:'' @ uuid_str 2)
      (executing_db, ([], ())) = (Inr (smp, ids), (s1, (recs, ())))" "s_errors smp = []"
      "remediations s1 = remediations executing_db"
    using sample_health_observed by blast
  have "\<exists>s'. record_baseline sample_clock 2 ''w1'' (sample_values smp) ids s1 = Inr ((), s')"
    using obs(3) by (simp add: record_baseline_def lock_def add_timeline_def get_remediation_def executing_db_def
        sample_remediation_def tx_run the_or_def)
  then have "\<exists>w'. collect_baseline sample_evidence_service sample_baseline_ticket ''w1'' (executing_db, ([], ())) = (Inr True, w')"
    using e req spec obs sample_baseline_ready(2)
    by (auto simp: collect_baseline_def Let_def bindW_app rem act gatewayW_def commandW_def evidence_tick_def
        sample_evidence_service_def run_tx_def returnW_app getsT_app liftW_def thenW_app)
  then obtain w' where run: "collect_baseline sample_evidence_service sample_baseline_ticket ''w1'' (executing_db, ([], ())) =
      (Inr True, w')" by blast
  have ok: "backend_appends sample_evidence_service" "backend_leaves_baselines sample_evidence_service"
    by (simp_all add: backend_appends_def backend_leaves_baselines_def sample_evidence_service_def)
  obtain row where "get_baseline 2 (fst w') = Some row" "\<forall>need \<in> {Need_health}. \<exists>r \<in> set (fst (snd w')).
      ec_incident_id r = 0 \<and> ec_evidence_id r \<in> set (b_evidence_ids row) \<and>
      verify_content_hash (ec_raw_response r) (ec_content_hash r) \<and>
      jget (b_values row) (source_name need) = JObj (observed_value need (ec_normalized_payload r))"
    using baseline_before_action [OF ok run e req] spec sample_baseline_ready(2) by (auto simp: rem)
  then show ?thesis using run sample_baseline_ready(2) by fastforce
qed

subsection \<open>The worker as a client of incident-core\<close>

definition verifier_respects :: "incident_system \<Rightarrow> 'v verifier \<Rightarrow> bool" where
  "verifier_respects sys vf \<longleftrightarrow> sys_verifications sys = vf_core vf \<and> backend_respects sys (vf_evidence vf)"

lemma rel_observe:
  assumes "backend_respects sys ev"
  shows "relW (history sys) (observe ev i service needed by)"
proof -
  have "relW (history sys) (case e of Evidence_failed err \<Rightarrow> returnW (Inl (h err)) | Core_failed x \<Rightarrow> raiseW e)"
    for h :: "evidence_error \<Rightarrow> string" and e by (cases e) (simp_all add: hist.rulesW)
  then have "relW (history sys) (observe_source ev i service needed by need st)" for need st
    unfolding observe_source_def readW_def by (intro hist.rulesW evidence_refines_system [OF assms])
  then show ?thesis unfolding observe_def Let_def by (intro hist.rulesW)
qed

lemma rel_lock_verification: "relW (history sys) (gatewayW ev (\<lambda>_. lock_verification k))"
proof (rule rel_gatewayW)
  show "history sys s (snd (run_tx (lock_verification k) s))" for s
    by (cases "get_verification k s") (simp_all add: run_tx_def lock_verification_def the_or_def tx_run history_refl)
qed

lemma rel_tick:
  assumes "verifier_respects sys vf"
  shows "relW (history sys) (tick vf k)"
proof -
  have core: "sys_verifications sys = vf_core vf" and ev: "backend_respects sys (vf_evidence vf)"
    using assms by (simp_all add: verifier_respects_def)
  have claim: "relW (history sys) (gatewayW (vf_evidence vf) (\<lambda>clk. claim_due (vf_core vf) clk k owner lease))"
    for owner lease
    by (rule rel_gatewayW) (use history_exec [of sys _ _ "Claim_due k owner lease"] core in simp)
  have poll: "relW (history sys) (gatewayW (vf_evidence vf) (\<lambda>clk. record_observation (vf_core vf) clk tkt smp ids observed))"
    for tkt smp ids observed
    by (rule rel_gatewayW) (use history_exec [of sys _ _ "Record_observation tkt smp ids observed"] core in simp)
  have lost: "relW (history sys) (lost_is_none e)" for e
    by (simp add: lost_is_none_def hist.rulesW split: evidence_raised.split error.split)
  show ?thesis
    unfolding tick_def observe_ticket_def
    by (intro hist.rulesW claim poll lost rel_observe [OF ev] rel_evidence_clock)
qed

text \<open>
  Polling a verification to its end changes incident-core only through its commands: a run of the verification
  worker over any number of polls is a history of commands, if pausing and asking the backends are.
\<close>

theorem verifier_refines_system:
  assumes "verifier_respects sys vf" and "\<And>w. history sys (fst w) (fst (sleep w))"
  shows "relW (history sys) (run_until_done vf sleep k polls)"
proof -
  have pause: "relW (history sys) (askW (\<lambda>w. ((), sleep w)))"
    by (rule hist.rel_askW) (use assms(2) in \<open>metis fst_conv snd_conv prod.inject\<close>)
  have started: "relW (history sys) (gatewayW (vf_evidence vf) (\<lambda>clk. start clk k))"
    by (rule rel_gatewayW) (use history_exec [of sys _ _ "Start_verification k"] in simp)
  have "relW (history sys) (run_ticks vf sleep k polls)"
  proof (induction polls)
    case 0
    show ?case by (simp add: verification_view_def rel_lock_verification)
  next
    case (Suc polls)
    then show ?case
      unfolding run_ticks.simps verification_view_def
      by (intro hist.rulesW rel_tick [OF assms(1)] rel_lock_verification pause)
  qed
  then show ?thesis unfolding run_until_done_def start_verification_def by (intro hist.rulesW started)
qed

definition sample_verifier :: "unit verifier" where
  "sample_verifier = \<lparr>vf_evidence = sample_evidence_service, vf_core = sys_verifications sample_system, vf_owner = ''v1'',
     vf_lease_seconds = 60\<rparr>"

theorem verifier_refines_system_witness:
  "relW (history sample_system) (run_until_done sample_verifier (\<lambda>w. w) 7 3)"
proof (rule verifier_refines_system)
  show "verifier_respects sample_system sample_verifier"
    by (simp add: verifier_respects_def sample_verifier_def backend_respects_def sample_evidence_service_def history_refl)
qed (simp add: history_refl)

end
