(* ===== verification/Investigation_Invariant.thy ===== *)
theory Investigation_Invariant
  imports System
begin

text \<open>
  The invariant of the investigation tables, \<open>inv_ok\<close>, and that every command keeps it: an incident is
  INVESTIGATING exactly while one investigation of it is open, attempts are numbered without repetition,
  every completed investigation has exactly one report, an incident is in a remediation phase only with a
  report, and the trace of every investigation is numbered without gaps.
\<close>

subsection \<open>What the invariant reads\<close>

definition rca_phase :: "incident_status set" where
  "rca_phase = {RCA_READY, AWAITING_APPROVAL, REMEDIATION_IN_PROGRESS, VERIFYING, VERIFICATION_FAILED, RESOLVED}"

definition final_status :: "investigation_row \<Rightarrow> investigation_status option" where
  "final_status n = (if n_status n \<in> set TERMINAL_INVESTIGATION_STATUSES then Some (n_status n) else None)"

lemma final_status_None: "final_status n = None \<longleftrightarrow> open_investigation n"
  by (cases "n_status n")
    (simp_all add: final_status_def open_investigation_def OPEN_INVESTIGATION_def TERMINAL_INVESTIGATION_STATUSES_def)

type_synonym inv_key = "uuid \<times> uuid \<times> int \<times> investigation_status option"

definition inv_key :: "investigation_row \<Rightarrow> inv_key" where
  "inv_key n = (n_id n, n_incident_id n, n_attempt_number n, final_status n)"

abbreviation inv_keys :: "db \<Rightarrow> inv_key list" where
  "inv_keys s \<equiv> map inv_key (investigations s)"

definition inc_key :: "db \<Rightarrow> uuid \<Rightarrow> (incident_status \<times> int) option" where
  "inc_key s i = map_option (\<lambda>r. (i_status r, i_attempt_count r)) (get_incident i s)"

abbreviation rca_keys :: "db \<Rightarrow> (uuid \<times> uuid) list" where
  "rca_keys s \<equiv> map (\<lambda>r. (rca_investigation_id r, rca_incident_id r)) (rca_reports s)"

abbreviation open_keys :: "uuid \<Rightarrow> inv_key list \<Rightarrow> inv_key list" where
  "open_keys i ks \<equiv> filter (\<lambda>e. fst (snd e) = i \<and> snd (snd (snd e)) = None) ks"

definition keys_ok :: "inv_key list \<Rightarrow> (uuid \<Rightarrow> (incident_status \<times> int) option) \<Rightarrow> uuid \<Rightarrow> bool" where
  "keys_ok ks inc u \<longleftrightarrow> distinct (map fst ks) \<and> distinct (map (\<lambda>(k, i, a, f). (i, a)) ks) \<and>
     (\<forall>(k, i, a, f) \<in> set ks. k < u \<and> (\<exists>st c. inc i = Some (st, c) \<and> a \<le> c)) \<and>
     (\<forall>i st c. inc i = Some (st, c) \<longrightarrow> length (open_keys i ks) = (if st = INVESTIGATING then 1 else 0))"

definition reports_ok :: "inv_key list \<Rightarrow> (uuid \<Rightarrow> (incident_status \<times> int) option) \<Rightarrow> (uuid \<times> uuid) list \<Rightarrow> bool" where
  "reports_ok ks inc rs \<longleftrightarrow> distinct (map fst rs) \<and>
     (\<forall>k i. (k, i) \<in> set rs \<longleftrightarrow> (\<exists>a. (k, i, a, Some Inv_COMPLETED) \<in> set ks)) \<and>
     (\<forall>i st c. inc i = Some (st, c) \<and> st \<in> rca_phase \<longrightarrow> i \<in> snd ` set rs)"

definition trace_of :: "uuid \<Rightarrow> db \<Rightarrow> investigation_step_row list" where
  "trace_of k s = filter (\<lambda>p. sp_investigation_id p = k) (investigation_steps s)"

definition gapless :: "db \<Rightarrow> bool" where
  "gapless s \<longleftrightarrow> (\<forall>k. map sp_sequence (trace_of k s) = map (\<lambda>m. int m + 1) [0..<length (trace_of k s)])"

definition lease_ok :: "db \<Rightarrow> bool" where
  "lease_ok s \<longleftrightarrow> (\<forall>n \<in> set (investigations s). open_investigation n \<or> n_lease_owner n = None)"

definition inv_ok :: "db \<Rightarrow> bool" where
  "inv_ok s \<longleftrightarrow> keys_ok (inv_keys s) (inc_key s) (next_uuid s) \<and>
     reports_ok (inv_keys s) (inc_key s) (rca_keys s) \<and> gapless s \<and> lease_ok s"

lemma inv_ok_empty: "inv_ok empty_db"
  by (simp add: inv_ok_def keys_ok_def reports_ok_def gapless_def lease_ok_def trace_of_def inc_key_def
      empty_db_def get_incident_def)

subsection \<open>The other components\<close>

text \<open>
  What the alert, remediation and verification commands may do to an incident: they never move one into
  or out of INVESTIGATING, never into a remediation phase from outside, and never count an attempt.
\<close>

definition phase_kept :: "(incident_status \<times> int) option \<Rightarrow> (incident_status \<times> int) option \<Rightarrow> bool" where
  "phase_kept old new \<longleftrightarrow> (case old of
       None \<Rightarrow> (\<forall>st c. new = Some (st, c) \<longrightarrow> st \<notin> insert INVESTIGATING rca_phase)
     | Some (st, c) \<Rightarrow> (\<exists>st'. new = Some (st', c) \<and> (st' = INVESTIGATING \<longleftrightarrow> st = INVESTIGATING) \<and>
         (st' \<in> rca_phase \<longrightarrow> st \<in> rca_phase)))"

definition inv_frame :: "db \<Rightarrow> db \<Rightarrow> bool" where
  "inv_frame s s' \<longleftrightarrow> inv_tables s' = inv_tables s \<and> prefix (evidence_refs s) (evidence_refs s') \<and>
     next_uuid s \<le> next_uuid s' \<and> (\<forall>i. phase_kept (inc_key s i) (inc_key s' i))"

lemma phase_kept_refl: "phase_kept x x"
  by (auto simp: phase_kept_def split: option.split)

lemma phase_kept_trans: "phase_kept x y \<Longrightarrow> phase_kept y z \<Longrightarrow> phase_kept x z"
  by (cases x; cases y; cases z) (fastforce simp: phase_kept_def)+

interpretation ifr: tx_relation inv_frame
proof unfold_locales
  show "inv_frame s u" if "inv_frame s t" "inv_frame t u" for s t u
    using that prefix_order.trans phase_kept_trans unfolding inv_frame_def by (metis le_trans)
qed (simp add: inv_frame_def phase_kept_refl)

lemma inc_key_same: "incidents s' = incidents s \<Longrightarrow> inc_key s' = inc_key s"
  by (rule ext) (simp add: inc_key_def get_incident_def)

lemma inv_frame_same:
  assumes "incidents s' = incidents s" "inv_tables s' = inv_tables s"
    "prefix (evidence_refs s) (evidence_refs s')" "next_uuid s \<le> next_uuid s'"
  shows "inv_frame s s'"
  using assms inc_key_same [OF assms(1)] by (simp add: inv_frame_def phase_kept_refl)

lemma keys_okD:
  assumes "keys_ok ks inc u"
  shows "distinct (map fst ks)" "distinct (map (\<lambda>(k, i, a, f). (i, a)) ks)"
    and "(k, i, a, f) \<in> set ks \<Longrightarrow> k < u"
    and "(k, i, a, f) \<in> set ks \<Longrightarrow> \<exists>st c. inc i = Some (st, c) \<and> a \<le> c"
    and "inc i = Some (st, c) \<Longrightarrow> length (open_keys i ks) = (if st = INVESTIGATING then 1 else 0)"
  using assms unfolding keys_ok_def by blast+

lemma keys_okI:
  assumes "distinct (map fst ks)" "distinct (map (\<lambda>(k, i, a, f). (i, a)) ks)"
    and "\<And>k i a f. (k, i, a, f) \<in> set ks \<Longrightarrow> k < u"
    and "\<And>k i a f. (k, i, a, f) \<in> set ks \<Longrightarrow> \<exists>st c. inc i = Some (st, c) \<and> a \<le> c"
    and "\<And>i st c. inc i = Some (st, c) \<Longrightarrow> length (open_keys i ks) = (if st = INVESTIGATING then 1 else 0)"
  shows "keys_ok ks inc u"
  using assms unfolding keys_ok_def by blast

lemma open_keys_Nil: "(\<And>k a f. (k, i, a, f) \<notin> set ks) \<Longrightarrow> open_keys i ks = []"
  by (auto simp: filter_empty_conv)

lemma keys_ok_frame:
  assumes ok: "keys_ok ks old u" and kept: "\<And>i. phase_kept (old i) (new i)" and le: "u \<le> u'"
  shows "keys_ok ks new u'"
proof (rule keys_okI)
  show "k < u'" if "(k, i, a, f) \<in> set ks" for k i a f
    using keys_okD(3) [OF ok that] le by simp
  show "\<exists>st c. new i = Some (st, c) \<and> a \<le> c" if m: "(k, i, a, f) \<in> set ks" for k i a f
  proof -
    obtain st c where "old i = Some (st, c)" "a \<le> c" using keys_okD(4) [OF ok m] by blast
    with kept [of i] show ?thesis by (auto simp: phase_kept_def)
  qed
  show "length (open_keys i ks) = (if st = INVESTIGATING then 1 else 0)" if n: "new i = Some (st, c)" for i st c
  proof (cases "old i")
    case None
    have "(k, i, a, f) \<notin> set ks" for k a f
      using keys_okD(4) [OF ok, of k i a f] None by auto
    then have "open_keys i ks = []" by (rule open_keys_Nil)
    moreover have "st \<noteq> INVESTIGATING" using kept [of i] None n by (simp add: phase_kept_def)
    ultimately show ?thesis by simp
  next
    case (Some x)
    obtain st0 c0 where x: "x = (st0, c0)" by force
    show ?thesis using keys_okD(5) [OF ok, of i st0 c0] kept [of i] n Some x by (auto simp: phase_kept_def)
  qed
qed (rule keys_okD [OF ok])+

lemma reports_ok_frame:
  assumes "reports_ok ks old rs" "\<And>i. phase_kept (old i) (new i)"
  shows "reports_ok ks new rs"
proof -
  have "\<exists>st' c'. old i = Some (st', c') \<and> st' \<in> rca_phase" if "new i = Some (st, c)" "st \<in> rca_phase" for i st c
    using assms(2) [of i] that by (auto simp: phase_kept_def split: option.splits prod.splits)
  then show ?thesis using assms(1) unfolding reports_ok_def by blast
qed

lemma inv_ok_frame: "inv_frame s s' \<Longrightarrow> inv_ok s \<Longrightarrow> inv_ok s'"
  using keys_ok_frame [of "inv_keys s" "inc_key s" "next_uuid s" "inc_key s'" "next_uuid s'"]
    reports_ok_frame [of "inv_keys s" "inc_key s" "rca_keys s" "inc_key s'"]
  by (auto simp: inv_frame_def inv_ok_def inv_tables_def gapless_def lease_ok_def trace_of_def)

lemma inv_frame_moved:
  assumes row: "get_incident i s = Some row" and edge: "(i_status row, to) \<in> remediation_edges \<union> verification_edges"
  shows "inv_frame s (moved clk row to reason s)"
proof -
  have "phase_kept (Some (i_status row, c)) (Some (to, c))" for c
    using edge by (auto simp: phase_kept_def remediation_edges_def verification_edges_def rca_phase_def)
  then have "phase_kept (inc_key s j) (inc_key (moved clk row to reason s) j)" for j
    by (cases "j = i") (simp_all add: inc_key_def get_incident_moved [OF row] row phase_kept_refl [simplified])
  then show ?thesis by (simp add: inv_frame_def moved_def inv_tables_def set_incident_def)
qed

lemma inv_frame_vquiet: "vquiet s s' \<Longrightarrow> inv_frame s s'"
  by (rule inv_frame_same) (simp_all add: vquiet_def)

interpretation rif: remediation_moves inv_frame "remediation_edges \<union> verification_edges"
  by unfold_locales (auto intro: inv_frame_vquiet quiet_vquiet inv_frame_moved)

interpretation vif: verification_moves inv_frame "remediation_edges \<union> verification_edges"
  by unfold_locales (auto intro: inv_frame_vquiet)

text \<open>
  The alert handler cancels an incident only after it has looked at its status; what is left to show for
  its steps is that they keep the attempts and put no incident into a phase.
\<close>

definition phase_left :: "(incident_status \<times> int) option \<Rightarrow> (incident_status \<times> int) option \<Rightarrow> bool" where
  "phase_left old new \<longleftrightarrow> (case old of
       None \<Rightarrow> (\<forall>st c. new = Some (st, c) \<longrightarrow> st \<notin> insert INVESTIGATING rca_phase)
     | Some (st, c) \<Rightarrow> (\<exists>st'. new = Some (st', c) \<and> (st' = st \<or> st' \<notin> insert INVESTIGATING rca_phase)))"

definition inv_alert :: "db \<Rightarrow> db \<Rightarrow> bool" where
  "inv_alert s s' \<longleftrightarrow> inv_tables s' = inv_tables s \<and> prefix (evidence_refs s) (evidence_refs s') \<and>
     next_uuid s \<le> next_uuid s' \<and> (\<forall>i. phase_left (inc_key s i) (inc_key s' i))"

lemma phase_left_refl: "phase_left x x"
  by (auto simp: phase_left_def split: option.split)

lemma phase_left_trans: "phase_left x y \<Longrightarrow> phase_left y z \<Longrightarrow> phase_left x z"
  by (cases x; cases y; cases z) (fastforce simp: phase_left_def)+

interpretation iar: tx_relation inv_alert
proof unfold_locales
  show "inv_alert s u" if "inv_alert s t" "inv_alert t u" for s t u
    using that prefix_order.trans phase_left_trans unfolding inv_alert_def by (metis le_trans)
qed (simp add: inv_alert_def phase_left_refl)

lemma inv_alert_incidents:
  assumes "\<And>i. phase_left (inc_key s i) (inc_key s' i)" "inv_tables s' = inv_tables s"
    "evidence_refs s' = evidence_refs s" "next_uuid s \<le> next_uuid s'"
  shows "inv_alert s s'"
  using assms by (simp add: inv_alert_def)

interpretation aia: alert_steps inv_alert
proof unfold_locales
  show "inv_alert s s'" if "alert_quiet s s'" for s s'
    using that inc_key_same [of s' s] by (simp add: alert_quiet_def inv_alert_def phase_left_refl)
  show "inv_alert s (set_incident k f s)"
    if f: "\<And>r. i_id (f r) = i_id r \<and> i_status (f r) = i_status r \<and> i_attempt_count (f r) = i_attempt_count r" for s k f
  proof (rule inv_alert_incidents)
    show "phase_left (inc_key s i) (inc_key (set_incident k f s) i)" for i
      using f inc.get_update_same [of f k s] inc.get_update_other [of f i k s]
      by (cases "i = k"; cases "get_incident i s") (simp_all add: inc_key_def phase_left_def)
  qed (simp_all add: set_incident_def inv_tables_def)
  show "inv_alert s (add_incident r s)" if r: "i_status r = TRIAGING" for s r
  proof (rule inv_alert_incidents)
    show "phase_left (inc_key s i) (inc_key (add_incident r s) i)" for i
      using r by (cases "get_incident i s")
        (auto simp: inc_key_def phase_left_def get_incident_def add_incident_def lookup_row_append rca_phase_def
          split: option.splits)
  qed (simp_all add: add_incident_def inv_tables_def)
  show "relT inv_alert (cancel_incident clk row)" for clk row
  proof (rule relTI)
    fix s x s' assume run: "cancel_incident clk row s = Inr (x, s')"
    have "keepsT (\<lambda>s. (inv_tables s, evidence_refs s)) (cancel_incident clk row)"
      unfolding cancel_incident_def transition_incident_status_def
      by (intro keeps_rules)
        (auto simp: keepsT_def relT_def insert_outbox_event_app inv_tables_def set_incident_def)
    from keepsTD [OF this run] have t: "inv_tables s' = inv_tables s" "evidence_refs s' = evidence_refs s" by simp_all
    have "relT (\<lambda>s s'. next_uuid s \<le> next_uuid s') (cancel_incident clk row)"
      by (auto simp: relT_def cancel_incident_def transition_incident_status_def insert_outbox_event_app set_incident_def
          split: option.splits if_splits)
    from relTD [OF this run] have n: "next_uuid s \<le> next_uuid s'" .
    from run show "inv_alert s s'"
    proof (cases rule: cancel_incident_run)
      case (1 cur)
      have "phase_left (inc_key s i) (inc_key s' i)" for i
        using 1(1) 1(2) [of i] by (cases "get_incident i s") (auto simp: inc_key_def phase_left_def rca_phase_def)
      then show ?thesis using t n by (intro inv_alert_incidents) simp_all
    qed
  qed
qed

lemma inv_frame_alert:
  assumes a: "inv_alert s s'" and c: "cancelled_only s s'"
  shows "inv_frame s s'"
proof -
  have "phase_kept (inc_key s i) (inc_key s' i)" for i
  proof (cases "get_incident i s")
    case None
    then have "inc_key s i = None" by (simp add: inc_key_def)
    moreover have "phase_left (inc_key s i) (inc_key s' i)" using a by (simp add: inv_alert_def)
    ultimately show ?thesis by (simp add: phase_left_def phase_kept_def)
  next
    case (Some row)
    obtain row' where row': "get_incident i s' = Some row'"
      "i_status row' = i_status row \<or> i_status row = TRIAGING \<and> i_status row' = CANCELLED"
      using c Some by (auto simp: cancelled_only_def)
    have "phase_left (inc_key s i) (inc_key s' i)" using a by (simp add: inv_alert_def)
    then show ?thesis using Some row' by (auto simp: inc_key_def phase_left_def phase_kept_def rca_phase_def)
  qed
  then show ?thesis using a by (simp add: inv_alert_def inv_frame_def)
qed

interpretation fic: incident_commands inv_frame
proof unfold_locales
  show "inv_frame s s'"
    if "core_inv {} s" "ic_candidate_lookback_seconds core \<noteq> 0"
      "handle_alert_received core clk c s = Inr (r, s')" for s core clk c r s'
  proof (rule inv_frame_alert)
    show "inv_alert s s'" by (rule aia.rel_handle_alert_received [OF that])
    show "cancelled_only s s'"
      using that by (cases rule: handle_alert_received_cases)
        (auto intro: process_alert_received_cancels cancelled_only_same inc_rel_refl)
  qed
  show "relT inv_frame (register_evidence_ref clk e)" for clk e
  proof -
    have "relT inv_frame (insert_evidence_ref clk e)"
      unfolding insert_evidence_ref_def get_evidence_ref_def
      by (intro ifr.rules ifr.rel_modify rif.rel_helpers inv_frame_same) (simp_all add: inv_tables_def)
    then show ?thesis
      unfolding register_evidence_ref_def get_evidence_ref_def by (intro ifr.rules rif.rel_helpers)
  qed
qed (rule rif.rel_propose rif.rel_decide_approval rif.rel_expire_approvals rif.rel_cancel rif.rel_revise
    rif.rel_claim_execution rif.rel_complete_execution rif.rel_record_baseline vif.rel_start vif.rel_claim_due
    vif.rel_record_observation)+

end
