(* ===== verification/Investigation_Work.thy ===== *)
theory Investigation_Work
  imports Investigation_Invariant
begin

text \<open>
  The investigation commands under the invariant: the ones that work on a running investigation change
  nothing the invariant reads (\<open>works_on\<close>), creating one opens it together with its incident, and finishing
  one closes it together with its incident (\<open>finish_step\<close>).
\<close>

subsection \<open>Working on an investigation\<close>

definition works_on :: "uuid \<Rightarrow> db \<Rightarrow> db \<Rightarrow> bool" where
  "works_on k s s' \<longleftrightarrow> incidents s' = incidents s \<and> evidence_refs s' = evidence_refs s \<and>
     rca_reports s' = rca_reports s \<and> inv_keys s' = inv_keys s \<and> next_uuid s \<le> next_uuid s' \<and>
     (gapless s \<longrightarrow> gapless s') \<and> (lease_ok s \<longrightarrow> lease_ok s') \<and>
     prefix (investigation_steps s) (investigation_steps s') \<and>
     (\<forall>j. j \<noteq> k \<longrightarrow> get_investigation j s' = get_investigation j s \<and> trace_of j s' = trace_of j s)"

interpretation wko: tx_relation "works_on k" for k
proof unfold_locales
  show "works_on k s u" if "works_on k s t" "works_on k t u" for s t u
    using that prefix_order.trans unfolding works_on_def by (metis le_trans)
qed (simp add: works_on_def)

lemma works_on_same:
  assumes "incidents s' = incidents s" "evidence_refs s' = evidence_refs s" "rca_reports s' = rca_reports s"
    "investigations s' = investigations s" "next_uuid s \<le> next_uuid s'" "investigation_steps s' = investigation_steps s"
  shows "works_on k s s'"
  using assms by (simp add: works_on_def gapless_def lease_ok_def trace_of_def get_investigation_def)

lemma works_on_basic:
  "relT (works_on k) (insert_outbox_event clk ty agg ref corr payload)" "relT (works_on k) (the_or v e)"
  "relT (works_on k) new_uuid"
  by (auto simp: relT_def insert_outbox_event_app intro: works_on_same)

lemma works_on_table:
  "works_on k s (set_hypothesis h hf s)" "works_on k s (add_hypothesis r s)"
  "works_on k s (s\<lparr>hypothesis_links := ls' s\<rparr>)"
  by (rule works_on_same; simp add: table_defs)+

lemma works_on_set:
  assumes id: "\<And>n. n_id (f n) = n_id n"
    and key: "\<And>n. n \<in> set (investigations s) \<Longrightarrow> n_id n = k \<Longrightarrow> inv_key (f n) = inv_key n \<and>
      (open_investigation n \<or> n_lease_owner (f n) = n_lease_owner n)"
  shows "works_on k s (set_investigation k f s)"
proof -
  have "inv_keys (set_investigation k f s) = inv_keys s"
    using key by (simp add: set_investigation_def update_rows_def)
  moreover have "lease_ok (set_investigation k f s)" if "lease_ok s"
  proof -
    have f: "open_investigation (f n) \<or> n_lease_owner (f n) = None" if n: "n \<in> set (investigations s)" "n_id n = k" for n
    proof -
      have "open_investigation (f n) = open_investigation n"
        using key [OF n] by (simp add: inv_key_def flip: final_status_None)
      moreover have "open_investigation n \<or> n_lease_owner n = None"
        using \<open>lease_ok s\<close> n(1) by (simp add: lease_ok_def)
      ultimately show ?thesis using key [OF n] by auto
    qed
    show ?thesis
      unfolding lease_ok_def set_investigation_def
    proof
      fix m assume "m \<in> set (investigations (s\<lparr>investigations := update_rows n_id k f (investigations s)\<rparr>))"
      then obtain n where "n \<in> set (investigations s)" "m = (if n_id n = k then f n else n)"
        by (auto simp: set_update_rows)
      then show "open_investigation m \<or> n_lease_owner m = None"
        using f that by (auto simp: lease_ok_def)
    qed
  qed
  ultimately show ?thesis
    by (simp add: works_on_def gapless_def trace_of_def ivg.get_update_other id)
      (simp add: set_investigation_def)
qed

lemmas works_on_rules = wko.rules works_on_basic works_on_table [THEN wko.rel_modify]

lemma works_on_lock: "relT (works_on k) (lock_investigation j)" "relT (works_on k) (fenced j owner)"
  unfolding fenced_def lock_investigation_def by (intro works_on_rules)+

lemma works_on_read: "relT (works_on k) (accessible_evidence row)"
  unfolding accessible_evidence_def by (intro works_on_rules)

text \<open>The trace: the sequence number of a new step is one more than the number of steps.\<close>

lemma foldr_max_upt: "foldr max (map (\<lambda>m. int m + 1) [i..<n]) 0 = (if i < n then int n else 0)"
proof (induction "n - i" arbitrary: i)
  case (Suc d)
  then have "i < n" "d = n - Suc i" by simp_all
  with Suc.hyps(1) [of "Suc i"] show ?case by (simp add: upt_conv_Cons)
qed simp

lemma next_step_sequence_gapless:
  assumes "gapless s"
  shows "next_step_sequence k s = int (length (trace_of k s)) + 1"
proof -
  have fold: "foldr (\<lambda>p m. max (sp_sequence p) m) ps 0 = foldr max (map sp_sequence ps) 0" for ps
    by (induction ps) simp_all
  have "map sp_sequence (trace_of k s) = map (\<lambda>m. int m + 1) [0..<length (trace_of k s)]"
    using assms by (simp add: gapless_def)
  then show ?thesis
    unfolding next_step_sequence_def trace_of_def [symmetric] fold by (simp only: foldr_max_upt) simp
qed

lemma append_step_run:
  "append_step clk k kind iter payload cid lat s = Inr (m, s') \<longleftrightarrow> m = next_step_sequence k s \<and>
   s' = s\<lparr>next_uuid := Suc (next_uuid s), investigation_steps := investigation_steps s @
     [\<lparr>sp_id = next_uuid s, sp_investigation_id = k, sp_sequence = next_step_sequence k s,
       sp_iteration = iter, sp_kind = kind, sp_call_id = cid, sp_payload = payload, sp_latency_ms = lat,
       sp_created_at = clk_now clk\<rparr>]\<rparr>"
  by (auto simp: append_step_def)

lemma works_on_append: "relT (works_on k) (append_step clk k kind iter payload cid lat)"
proof (rule relTI)
  fix s m s' assume run: "append_step clk k kind iter payload cid lat s = Inr (m, s')"
  have tr: "trace_of j s' = trace_of j s @ (if j = k then [last (investigation_steps s')] else [])" for j
    using run by (simp add: append_step_run trace_of_def)
  have "gapless s'" if g: "gapless s"
  proof -
    have "map sp_sequence (trace_of j s') = map (\<lambda>m. int m + 1) [0..<length (trace_of j s')]" for j
      using g next_step_sequence_gapless [OF g] run unfolding tr by (simp add: append_step_run gapless_def)
    then show ?thesis by (simp add: gapless_def)
  qed
  with tr run show "works_on k s s'"
    by (auto simp: works_on_def append_step_run lease_ok_def get_investigation_def)
qed

lemma works_on_links: "relT (works_on k) (link_hypothesis clk h rel e)"
  unfolding link_hypothesis_def by (intro works_on_rules)

lemma works_on_updates: "relT (works_on k) (apply_updates clk j acc us snaps)"
proof -
  have "relT (works_on k) (apply_update clk j u)" for u
    unfolding apply_update_def store_hypothesis_def by (intro works_on_rules works_on_links)
  then show ?thesis
    by (induction us arbitrary: snaps) (auto simp: Let_def intro!: works_on_rules)
qed

lemma works_on_touch:
  "(\<And>n. inv_key (f n) = inv_key n \<and> n_lease_owner (f n) = n_lease_owner n) \<Longrightarrow>
   relT (works_on k) (modifyT (set_investigation k f))"
  by (rule wko.rel_modify, rule works_on_set) (simp_all add: inv_key_def)

lemma works_on_commands:
  "relT (works_on k) (load_state k)" "relT (works_on k) (release clk k owner)"
  "relT (works_on k) (record_step clk k owner r lease)"
  "relT (works_on k) (apply_hypothesis_updates clk k owner iter cid batch)"
  unfolding load_state_def release_def record_step_def apply_hypothesis_updates_def
  by (intro works_on_rules works_on_lock works_on_read works_on_append works_on_updates works_on_touch;
      simp add: inv_key_def final_status_def count_step_def)+

lemma inv_row_unique:
  assumes "distinct (map fst (inv_keys s))" "get_investigation k s = Some row" "n \<in> set (investigations s)" "n_id n = k"
  shows "n = row"
proof -
  have "distinct (map n_id (investigations s))" using assms(1) by (simp add: inv_key_def comp_def)
  from ivg.get_of_row [OF this assms(3)] assms(2,4) show ?thesis by simp
qed

lemma works_on_take_lease:
  assumes run: "take_lease clk k owner lease s = Inr (x, s')" and d: "distinct (map fst (inv_keys s))"
  shows "works_on k s s'"
proof -
  let ?f = "\<lambda>n. n\<lparr>n_status := Inv_INVESTIGATING, n_lease_owner := Some owner,
      n_lease_expires_at := Some (clk_now clk + seconds lease),
      n_started_at := (case n_started_at n of Some t \<Rightarrow> Some t | None \<Rightarrow> Some (clk_now clk)), n_updated_at := clk_now clk\<rparr>"
  obtain row where row: "get_investigation k s = Some row"
    and cases: "s' = s \<or> n_status row \<notin> set TERMINAL_INVESTIGATION_STATUSES \<and> s' = set_investigation k ?f s"
    using run by (auto simp: take_lease_def lock_investigation_def Let_def split: if_splits)
  have "works_on k s (set_investigation k ?f s)" if "n_status row \<notin> set TERMINAL_INVESTIGATION_STATUSES"
    by (rule works_on_set)
      (use inv_row_unique [OF d row] that in \<open>auto simp: inv_key_def final_status_def TERMINAL_INVESTIGATION_STATUSES_def
        final_status_None [symmetric]\<close>)
  with cases show ?thesis using wko.rel_refl by blast
qed

lemma works_on_claim:
  assumes "distinct (map fst (inv_keys s))"
  shows "works_on k s (snd (claim_investigation clk k owner lease s))"
proof -
  let ?s1 = "snd (run_tx (take_lease clk k owner lease) s)"
  have t: "works_on k s ?s1"
    using works_on_take_lease [OF _ assms] wko.rel_refl by (auto simp: run_tx_snd split: sum.splits)
  moreover have "snd (claim_investigation clk k owner lease s) \<in> {?s1, snd (run_tx (load_state k) ?s1)}"
    by (simp add: claim_investigation_def split: prod.splits sum.splits bool.splits)
  moreover have "works_on k s (snd (run_tx (load_state k) ?s1))"
    using t wko.rel_run_tx [OF works_on_commands(1)] by (rule wko.rel_trans)
  ultimately show ?thesis by auto
qed

lemma inv_ok_works_on: "works_on k s s' \<Longrightarrow> inv_ok s \<Longrightarrow> inv_ok s'"
  using inc_key_same [of s' s] keys_ok_frame [of "inv_keys s" "inc_key s" "next_uuid s" "inc_key s" "next_uuid s'"]
  by (auto simp: works_on_def inv_ok_def phase_kept_refl)

subsection \<open>Creating an investigation\<close>

lemma keys_ok_create:
  assumes ok: "keys_ok ks inc u" and row: "inc i = Some (st, c)" "st \<noteq> INVESTIGATING" and less: "u < u'"
  shows "keys_ok (ks @ [(u, i, c + 1, None)]) (inc(i \<mapsto> (INVESTIGATING, c + 1))) u'"
proof (rule keys_okI)
  have old: "k < u" "\<exists>st c'. inc j = Some (st, c') \<and> a \<le> c'" if "(k, j, a, f) \<in> set ks" for k j a f
    using keys_okD(3,4) [OF ok that] by blast+
  show "distinct (map fst (ks @ [(u, i, c + 1, None)]))"
    using keys_okD(1) [OF ok] old(1) by fastforce
  show "distinct (map (\<lambda>(k, i, a, f). (i, a)) (ks @ [(u, i, c + 1, None)]))"
    using keys_okD(2) [OF ok] old(2) row(1) by fastforce
  show "k < u'" if "(k, j, a, f) \<in> set (ks @ [(u, i, c + 1, None)])" for k j a f
    using that less old(1) by fastforce
  show "\<exists>st c'. (inc(i \<mapsto> (INVESTIGATING, c + 1))) j = Some (st, c') \<and> a \<le> c'"
    if "(k, j, a, f) \<in> set (ks @ [(u, i, c + 1, None)])" for k j a f
    using that old(2) [of k j a f] row(1) by (cases "j = i") auto
  show "length (open_keys j (ks @ [(u, i, c + 1, None)])) = (if st' = INVESTIGATING then 1 else 0)"
    if "(inc(i \<mapsto> (INVESTIGATING, c + 1))) j = Some (st', c')" for j st' c'
    using that keys_okD(5) [OF ok row(1)] keys_okD(5) [OF ok, of j st' c'] row(2) by (cases "j = i") auto
qed

lemma reports_ok_create:
  assumes "reports_ok ks inc rs"
  shows "reports_ok (ks @ [(u, i, c + 1, None)]) (inc(i \<mapsto> (INVESTIGATING, c + 1))) rs"
  using assms by (simp add: reports_ok_def rca_phase_def)

lemma create_keys:
  assumes run: "create_investigation clk row provider name settings budget s = Inr (st, s')"
    and row: "get_incident (i_id row) s = Some row"
  shows "inv_keys s' = inv_keys s @ [(next_uuid s, i_id row, i_attempt_count row + 1, None)] \<and>
    inc_key s' = (inc_key s)(i_id row \<mapsto> (INVESTIGATING, i_attempt_count row + 1)) \<and>
    next_uuid s < next_uuid s' \<and> rca_reports s' = rca_reports s \<and> investigation_steps s' = investigation_steps s \<and>
    evidence_refs s' = evidence_refs s \<and>
    (\<exists>n. investigations s' = investigations s @ [n] \<and> n_id n = next_uuid s \<and> n_status n = Inv_CREATED \<and>
       n_lease_owner n = None) \<and> si_investigation_id st = next_uuid s"
proof -
  let ?i = "i_id row"
  let ?a = "\<lambda>r. r\<lparr>i_attempt_count := i_attempt_count row + 1\<rparr>"
  obtain row1 n reason s1 where row1: "row1 = ?a row"
    and n: "n = new_investigation_row clk ?i (i_attempt_count row + 1) provider name settings budget (next_uuid s)"
    and r1: "get_incident ?i (with_investigation n (counted_attempt row s)) = Some row1"
    and s1: "s1 = moved clk row1 INVESTIGATING reason (with_investigation n (counted_attempt row s))"
    and out: "insert_outbox_event clk InvestigationStarted Investigation (Agg_id (n_id n)) (Some ?i)
      (InvestigationStartedPayload (n_id n) ?i (i_attempt_count row + 1) provider name) s1 = Inr ((), s')"
    and st: "si_investigation_id st = n_id n"
    using create_investigation_Inr [OF run row] by force
  have tabs: "investigations s' = investigations s @ [n]" "rca_reports s' = rca_reports s"
    "investigation_steps s' = investigation_steps s" "evidence_refs s' = evidence_refs s" "next_uuid s < next_uuid s'"
    using out by (auto simp: insert_outbox_event_app s1 moved_def set_incident_def with_investigation_def
        add_investigation_def counted_attempt_def)
  have "inc_key s' = inc_key s1" by (rule inc_key_same) (use out in \<open>auto simp: insert_outbox_event_app\<close>)
  also have "\<dots> = (inc_key (counted_attempt row s))(?i \<mapsto> (INVESTIGATING, i_attempt_count row + 1))"
  proof
    fix j
    have "get_incident j s1 = (if j = ?i then Some (row1\<lparr>i_status := INVESTIGATING, i_version := i_version row1 + 1,
        i_updated_at := clk_now clk\<rparr>) else get_incident j (with_investigation n (counted_attempt row s)))"
      unfolding s1 by (rule get_incident_moved [OF r1])
    then show "inc_key s1 j = ((inc_key (counted_attempt row s))(?i \<mapsto> (INVESTIGATING, i_attempt_count row + 1))) j"
      by (simp add: inc_key_def row1 get_incident_def with_investigation_def add_investigation_def)
  qed
  also have "\<dots> = (inc_key s)(?i \<mapsto> (INVESTIGATING, i_attempt_count row + 1))"
    by (rule ext) (simp add: counted_attempt_def inc_key_def inc.get_update_other)
  finally show ?thesis using tabs n st
    by (auto simp: new_investigation_row_def inv_key_def final_status_def TERMINAL_INVESTIGATION_STATUSES_def)
qed

lemma request_investigation_cases:
  assumes "request_investigation clk i provider name settings budget s = Inr (st, s')"
  obtains (existing) n where "s' = s" "n \<in> set (investigations s)" "n_incident_id n = i" "open_investigation n"
      "st = \<lparr>si_investigation_id = n_id n, si_incident_id = i, si_created = False\<rparr>"
  | (created) row where "get_incident i s = Some row" "i_id row = i" "i_status row \<in> {TRIAGING, VERIFICATION_FAILED}"
      "filter (\<lambda>n. n_incident_id n = i \<and> open_investigation n) (investigations s) = []" "firing_alerts i s \<noteq> []"
      "create_investigation clk row provider name settings budget s = Inr (st, s')"
proof -
  let ?open = "filter (\<lambda>n. n_incident_id n = i \<and> open_investigation n) (investigations s)"
  obtain row where row: "get_incident i s = Some row" using assms by (auto simp: request_investigation_def)
  have id: "i_id row = i" using inc.getD [OF row] by simp
  obtain ex where ex: "scalar_one_or_none ?open s = Inr (ex, s)"
    and rest: "(case ex of Some n \<Rightarrow> returnT \<lparr>si_investigation_id = n_id n, si_incident_id = i, si_created = False\<rparr>
       | None \<Rightarrow> thenT (guardT (i_status row = TRIAGING \<or> i_status row = VERIFICATION_FAILED)
                    (InvalidIncidentTransitionError (''incident '' @ uuid_str i @ '' is ''
                       @ incident_status_value (i_status row) @ '', not TRIAGING or VERIFICATION_FAILED'')))
           (bindT (count_firing_alerts i) (\<lambda>firing.
            thenT (guardT (firing \<noteq> 0) (InvalidIncidentTransitionError (''incident '' @ uuid_str i
                        @ '' has no firing alert; nothing to investigate'')))
              (create_investigation clk row provider name settings budget)))) s = Inr (st, s')"
    using assms row by (auto simp: request_investigation_def)
  show thesis
  proof (cases ex)
    case None
    then show thesis using created [OF row id] ex rest by (auto simp: count_firing_alerts_def)
  next
    case (Some n)
    then have "n \<in> set ?open" using ex by (auto)
    then show thesis using existing [of n] rest Some by simp
  qed
qed

lemma open_rows_keys:
  "length (filter (\<lambda>n. n_incident_id n = i \<and> open_investigation n) (investigations s)) = length (open_keys i (inv_keys s))"
  by (simp add: filter_map comp_def inv_key_def final_status_None)

lemma inv_ok_request:
  assumes run: "request_investigation clk i provider name settings budget s = Inr (st, s')" and ok: "inv_ok s"
  shows "inv_ok s'"
  using run
proof (cases rule: request_investigation_cases)
  case (created row)
  have c: "create_investigation clk row provider name settings budget s = Inr (st, s')" by fact
  have "get_incident (i_id row) s = Some row" using created by simp
  note eff = create_keys [OF c this]
  have "inc_key s (i_id row) = Some (i_status row, i_attempt_count row)" "i_status row \<noteq> INVESTIGATING"
    using created by (auto simp: inc_key_def)
  then have "keys_ok (inv_keys s') (inc_key s') (next_uuid s')"
    using keys_ok_create ok eff by (simp add: inv_ok_def)
  moreover have "reports_ok (inv_keys s') (inc_key s') (rca_keys s')"
    using reports_ok_create ok eff by (simp add: inv_ok_def)
  ultimately show ?thesis
    using ok eff by (auto simp: inv_ok_def gapless_def trace_of_def lease_ok_def open_investigation_def
        OPEN_INVESTIGATION_def)
qed (use ok in simp)

subsection \<open>Finishing an investigation\<close>

definition finish_keys :: "uuid \<Rightarrow> investigation_status \<Rightarrow> inv_key list \<Rightarrow> inv_key list" where
  "finish_keys k st ks = map (\<lambda>e. (fst e, fst (snd e), fst (snd (snd e)),
     if fst e = k then Some st else snd (snd (snd e)))) ks"

lemma finish_keys_parts:
  "map fst (finish_keys k st ks) = map fst ks"
  "map (\<lambda>(k, i, a, f). (i, a)) (finish_keys k st ks) = map (\<lambda>(k, i, a, f). (i, a)) ks"
  by (simp_all add: finish_keys_def comp_def split_def)

lemma finish_keys_mem:
  "(j, i, a, f) \<in> set (finish_keys k st ks) \<longleftrightarrow>
   (\<exists>f0. (j, i, a, f0) \<in> set ks \<and> f = (if j = k then Some st else f0))"
  by (force simp: finish_keys_def image_iff)

lemma open_finish_keys: "open_keys i (finish_keys k st ks) = filter (\<lambda>e. fst e \<noteq> k) (open_keys i ks)"
  by (induction ks) (auto simp: finish_keys_def)

lemma key_unique:
  "distinct (map fst ks) \<Longrightarrow> (k, x) \<in> set ks \<Longrightarrow> (k, y) \<in> set ks \<Longrightarrow> x = y"
  by (metis eq_key_imp_eq_value)

lemma keys_ok_open:
  assumes ok: "keys_ok ks inc u" and mem: "(k, i, a, None) \<in> set ks"
  shows "\<exists>c. inc i = Some (INVESTIGATING, c) \<and> a \<le> c" and "open_keys i ks = [(k, i, a, None)]"
proof -
  obtain st c where c: "inc i = Some (st, c)" "a \<le> c" using keys_okD(4) [OF ok mem] by blast
  have m: "(k, i, a, None) \<in> set (open_keys i ks)" using mem by simp
  then have "length (open_keys i ks) \<noteq> 0" by (cases "open_keys i ks") simp_all
  then have st: "st = INVESTIGATING" and one: "length (open_keys i ks) = 1"
    using keys_okD(5) [OF ok c(1)] by (simp_all split: if_splits)
  show "\<exists>c. inc i = Some (INVESTIGATING, c) \<and> a \<le> c" using c st by blast
  from one obtain e where e: "open_keys i ks = [e]" by (auto simp: length_Suc_conv)
  from m [unfolded e] have "e = (k, i, a, None)" by simp
  then show "open_keys i ks = [(k, i, a, None)]" using e by simp
qed

lemma keys_ok_finish:
  assumes ok: "keys_ok ks inc u" and mem: "(k, i, a, None) \<in> set ks" and to: "to \<noteq> INVESTIGATING" and le: "u \<le> u'"
    and inc: "inc i = Some (st0, c)"
  shows "keys_ok (finish_keys k st ks) (inc(i \<mapsto> (to, c))) u'"
proof (rule keys_okI)
  show "distinct (map fst (finish_keys k st ks))" "distinct (map (\<lambda>(k, i, a, f). (i, a)) (finish_keys k st ks))"
    unfolding finish_keys_parts by (rule keys_okD [OF ok])+
  show "j < u'" if "(j, i', a', f) \<in> set (finish_keys k st ks)" for j i' a' f
    using that keys_okD(3) [OF ok] le by (fastforce simp: finish_keys_mem)
  show "\<exists>st c'. (inc(i \<mapsto> (to, c))) i' = Some (st, c') \<and> a' \<le> c'"
    if m: "(j, i', a', f) \<in> set (finish_keys k st ks)" for j i' a' f
  proof -
    obtain f0 where "(j, i', a', f0) \<in> set ks" using m by (auto simp: finish_keys_mem)
    from keys_okD(4) [OF ok this] inc show ?thesis by (cases "i' = i") auto
  qed
  show "length (open_keys j (finish_keys k st ks)) = (if st' = INVESTIGATING then 1 else 0)"
    if j: "(inc(i \<mapsto> (to, c))) j = Some (st', c')" for j st' c'
  proof (cases "j = i")
    case True
    have "open_keys i (finish_keys k st ks) = []"
      unfolding open_finish_keys keys_ok_open(2) [OF ok mem] by simp
    with True show ?thesis using j to by simp
  next
    case False
    have "fst e \<noteq> k" if e: "e \<in> set (open_keys j ks)" for e
    proof
      assume "fst e = k"
      then have "(k, snd e) \<in> set ks" using e by (cases e) auto
      from key_unique [OF keys_okD(1) [OF ok] this mem] show False using e False by (cases e) auto
    qed
    then have "open_keys j (finish_keys k st ks) = open_keys j ks"
      unfolding open_finish_keys by (rule filter_True [rule_format])
    then show ?thesis using j False keys_okD(5) [OF ok, of j st' c'] by simp
  qed
qed

lemma reports_ok_finish:
  assumes ok: "reports_ok ks inc rs" and d: "distinct (map fst ks)" and mem: "(k, i, a, None) \<in> set ks"
    and kind: "st = Inv_COMPLETED \<and> rs' = rs @ [(k, i)] \<or> st \<noteq> Inv_COMPLETED \<and> rs' = rs \<and> to \<notin> rca_phase"
  shows "reports_ok (finish_keys k st ks) (inc(i \<mapsto> (to, c))) rs'"
proof -
  have rs: "(j, i') \<in> set rs \<longleftrightarrow> (\<exists>a. (j, i', a, Some Inv_COMPLETED) \<in> set ks)" for j i'
    using ok by (simp add: reports_ok_def)
  have k: "(k, x) \<in> set ks \<longleftrightarrow> x = (i, a, None)" for x
  proof
    show "x = (i, a, None)" if "(k, x) \<in> set ks" by (rule key_unique [OF d that mem])
  qed (use mem in simp)
  have not_in: "(k, i') \<notin> set rs" for i' using rs [of k i'] k by auto
  then have new: "k \<notin> fst ` set rs" by auto
  have mem': "(j, i') \<in> set rs' \<longleftrightarrow> (\<exists>a. (j, i', a, Some Inv_COMPLETED) \<in> set (finish_keys k st ks))" for j i'
  proof (cases "j = k")
    case True
    have "(\<exists>a. (k, i', a, Some Inv_COMPLETED) \<in> set (finish_keys k st ks)) \<longleftrightarrow> i' = i \<and> st = Inv_COMPLETED"
      by (auto simp: finish_keys_mem k)
    then show ?thesis using True kind not_in [of i'] by auto
  next
    case False
    then have "(j, i') \<in> set rs' \<longleftrightarrow> (j, i') \<in> set rs" using kind by auto
    with False rs [of j i'] show ?thesis by (simp add: finish_keys_mem)
  qed
  have "distinct (map fst rs')" using ok new kind by (auto simp: reports_ok_def)
  moreover have "j \<in> snd ` set rs'" if "(inc(i \<mapsto> (to, c))) j = Some (st', c')" "st' \<in> rca_phase" for j st' c'
  proof -
    have "snd ` set rs \<subseteq> snd ` set rs'" "to \<in> rca_phase \<Longrightarrow> i \<in> snd ` set rs'" using kind by auto
    then show ?thesis using that ok unfolding reports_ok_def by (cases "j = i") auto
  qed
  ultimately show ?thesis unfolding reports_ok_def using mem' by blast
qed

text \<open>
  The steps a finishing command takes: work, the report (if any), the final row, the last step of the trace,
  the move of the incident and the event.
\<close>

lemma inc_key_move:
  assumes "move_investigated clk i to reason s = Inr (x, s')" "inc_key s i = Some (INVESTIGATING, c)"
  shows "inc_key s' = (inc_key s)(i \<mapsto> (to, c))"
proof
  fix j
  obtain row where row: "get_incident i s = Some row" "i_status row = INVESTIGATING" "i_attempt_count row = c"
    using assms(2) by (auto simp: inc_key_def)
  then have "s' = moved clk row to reason s" using assms(1) by (simp add: move_investigated_eq)
  then show "inc_key s' j = ((inc_key s)(i \<mapsto> (to, c))) j"
    using row by (simp add: inc_key_def get_incident_moved [OF row(1)])
qed

lemma move_tables:
  assumes "move_investigated clk i to reason s = Inr (x, s')"
  shows "inv_tables s' = inv_tables s \<and> evidence_refs s' = evidence_refs s \<and> next_uuid s \<le> next_uuid s'"
  using assms by (auto simp: move_investigated_eq moved_def set_incident_def inv_tables_def)

definition others_kept :: "uuid \<Rightarrow> db \<Rightarrow> db \<Rightarrow> bool" where
  "others_kept k s s' \<longleftrightarrow> prefix (investigation_steps s) (investigation_steps s') \<and>
     prefix (rca_reports s) (rca_reports s') \<and>
     (\<forall>j. j \<noteq> k \<longrightarrow> get_investigation j s' = get_investigation j s \<and> trace_of j s' = trace_of j s)"

lemma others_kept_trans: "others_kept k s t \<Longrightarrow> others_kept k t u \<Longrightarrow> others_kept k s u"
  unfolding others_kept_def using prefix_order.trans by metis

lemma others_kept_works_on: "works_on k s s' \<Longrightarrow> others_kept k s s'"
  by (simp add: works_on_def others_kept_def)

lemma others_kept_tables: "inv_tables s' = inv_tables s \<Longrightarrow> others_kept k s s'"
  by (simp add: others_kept_def inv_tables_def get_investigation_def trace_of_def)

definition finishes :: "uuid \<Rightarrow> investigation_status \<Rightarrow> (investigation_row \<Rightarrow> investigation_row) \<Rightarrow> bool" where
  "finishes k st f \<longleftrightarrow> st \<in> set TERMINAL_INVESTIGATION_STATUSES \<and> (\<forall>n. n_id (f n) = n_id n \<and>
     n_incident_id (f n) = n_incident_id n \<and> n_attempt_number (f n) = n_attempt_number n \<and>
     n_status (f n) = st \<and> n_lease_owner (f n) = None)"

lemma set_finished:
  assumes f: "finishes k st f"
  shows "inv_keys (set_investigation k f s) = finish_keys k st (inv_keys s)"
    and "lease_ok s \<Longrightarrow> lease_ok (set_investigation k f s)"
    and "others_kept k s (set_investigation k f s)"
proof -
  have key: "inv_key (f n) = (n_id n, n_incident_id n, n_attempt_number n, Some st)" for n
    using f by (simp add: finishes_def inv_key_def final_status_def)
  show "inv_keys (set_investigation k f s) = finish_keys k st (inv_keys s)"
    by (simp add: set_investigation_def update_rows_def finish_keys_def key) (simp add: inv_key_def)
  show "lease_ok (set_investigation k f s)" if "lease_ok s"
    using that f by (auto simp: lease_ok_def set_investigation_def set_update_rows finishes_def)
  have "\<And>n. n_id (f n) = n_id n" using f by (simp add: finishes_def)
  then show "others_kept k s (set_investigation k f s)"
    by (simp add: others_kept_def ivg.get_update_other) (simp add: set_investigation_def trace_of_def)
qed

lemma finish_step:
  assumes ok: "inv_ok s" and row: "get_investigation k s = Some row" "open_investigation row"
    and w1: "works_on k s s1" and f: "finishes k st f"
    and s2: "s2 = set_investigation k f (s1\<lparr>rca_reports := rca_reports s1 @ rs\<rparr>)"
    and w3: "works_on k s2 s3" and mv: "move_investigated clk (n_incident_id row) to reason s3 = Inr (x, s4)"
    and w5: "works_on k s4 s'"
    and kind: "st = Inv_COMPLETED \<and> to = RCA_READY \<and>
        map (\<lambda>r. (rca_investigation_id r, rca_incident_id r)) rs = [(k, n_incident_id row)] \<or>
      st \<noteq> Inv_COMPLETED \<and> to = ESCALATED \<and> rs = []"
  shows "inv_ok s' \<and> others_kept k s s' \<and> rca_reports s' = rca_reports s @ rs \<and>
    (\<exists>c. inc_key s (n_incident_id row) = Some (INVESTIGATING, c) \<and>
      inc_key s' = (inc_key s)(n_incident_id row \<mapsto> (to, c)))"
proof -
  let ?i = "n_incident_id row"
  note W = works_on_def
  have row_mem: "row \<in> set (investigations s)" "n_id row = k" using ivg.getD [OF row(1)] by simp_all
  have "inv_key row = (k, ?i, n_attempt_number row, None)"
    using row(2) row_mem(2) by (simp add: inv_key_def final_status_None)
  with row_mem(1) have mem: "(k, ?i, n_attempt_number row, None) \<in> set (inv_keys s)" by force
  have k_ok: "keys_ok (inv_keys s) (inc_key s) (next_uuid s)" using ok by (simp add: inv_ok_def)
  obtain c where c: "inc_key s ?i = Some (INVESTIGATING, c)" using keys_ok_open(1) [OF k_ok mem] by blast
  have mt: "inv_tables s4 = inv_tables s3" "next_uuid s3 \<le> next_uuid s4" using move_tables [OF mv] by simp_all
  have "incidents s3 = incidents s" using w1 w3 s2 by (simp add: W set_investigation_def)
  then have i3: "inc_key s3 = inc_key s" by (rule inc_key_same)
  have "inc_key s4 = (inc_key s)(?i \<mapsto> (to, c))"
    using inc_key_move [OF mv, of c] i3 c by simp
  moreover have "inc_key s' = inc_key s4" by (rule inc_key_same) (use w5 in \<open>simp add: W\<close>)
  ultimately have inc': "inc_key s' = (inc_key s)(?i \<mapsto> (to, c))" by simp
  have keys: "inv_keys s' = finish_keys k st (inv_keys s)"
    using w1 w3 w5 mt set_finished(1) [OF f] s2 by (simp add: W inv_tables_def)
  have reps: "rca_reports s' = rca_reports s @ rs"
    using w1 w3 w5 mt s2 by (simp add: W inv_tables_def set_investigation_def)
  have le: "next_uuid s \<le> next_uuid s'"
    using w1 w3 w5 mt s2 by (simp add: W set_investigation_def)
  have g: "gapless s'"
    using ok w1 w3 w5 mt s2 by (simp add: W inv_ok_def inv_tables_def set_investigation_def gapless_def trace_of_def)
  have "lease_ok s1" using ok w1 by (simp add: W inv_ok_def)
  then have "lease_ok s2" unfolding s2 by (intro set_finished(2) [OF f]) (simp add: lease_ok_def)
  then have l: "lease_ok s'" using w3 w5 mt by (simp add: W inv_tables_def lease_ok_def)
  have "others_kept k s1 (s1\<lparr>rca_reports := rca_reports s1 @ rs\<rparr>)"
    by (simp add: others_kept_def get_investigation_def trace_of_def)
  then have o2: "others_kept k s s2"
    unfolding s2 using others_kept_works_on [OF w1] set_finished(3) [OF f] others_kept_trans by blast
  have o: "others_kept k s s'"
    using o2 others_kept_works_on [OF w3] others_kept_tables [OF mt(1)] others_kept_works_on [OF w5] others_kept_trans
    by meson
  have "to \<noteq> INVESTIGATING" using kind by auto
  from keys_ok_finish [OF k_ok mem this le c] have k': "keys_ok (inv_keys s') (inc_key s') (next_uuid s')"
    by (simp only: keys inc')
  have "reports_ok (inv_keys s') (inc_key s') (rca_keys s')"
    unfolding keys inc'
    by (rule reports_ok_finish [OF _ keys_okD(1) [OF k_ok] mem])
      (use ok kind reps in \<open>auto simp: inv_ok_def rca_phase_def\<close>)
  then show ?thesis using k' g l o reps inc' c by (auto simp: inv_ok_def)
qed

lemma fenced_Inr:
  "fenced k owner s = Inr (row, s') \<longleftrightarrow> s' = s \<and> get_investigation k s = Some row \<and>
     n_status row = Inv_INVESTIGATING \<and> n_lease_owner row = Some owner"
  by (auto simp: fenced_def lock_investigation_def)

lemma accessible_evidence_state: "accessible_evidence row s = Inr (ids, s') \<Longrightarrow> s' = s"
  by (auto simp: accessible_evidence_def split: sum.splits)

lemma finishes_rows:
  "finishes k Inv_COMPLETED (completed clk hid rid key conf)"
  "outcome \<in> {Inv_ESCALATED, Inv_FAILED} \<Longrightarrow> finishes k outcome (escalated clk outcome code detail why final)"
  by (auto simp: finishes_def completed_def escalated_def finish_investigation_def Let_def
      TERMINAL_INVESTIGATION_STATUSES_def)

lemma escalate_step:
  assumes run: "escalate_investigation clk k owner iter outcome code detail why gaps cid s = Inr (x, s')"
    and ok: "inv_ok s"
  shows "\<exists>row. get_investigation k s = Some row \<and> n_status row = Inv_INVESTIGATING \<and> n_lease_owner row = Some owner \<and>
    inv_ok s' \<and> others_kept k s s' \<and> rca_reports s' = rca_reports s \<and>
    (\<exists>c. inc_key s (n_incident_id row) = Some (INVESTIGATING, c) \<and>
      inc_key s' = (inc_key s)(n_incident_id row \<mapsto> (ESCALATED, c)))"
proof -
  obtain row final s3 s4 y z where out: "outcome \<in> {Inv_ESCALATED, Inv_FAILED}"
    and row: "get_investigation k s = Some row" "n_status row = Inv_INVESTIGATING" "n_lease_owner row = Some owner"
    and s3: "append_step clk k OUTCOME iter [(''status'', JStr (investigation_status_value outcome)),
        (''reason_code'', JStr code), (''detail'', JStr (take 2000 detail))] cid None
        (set_investigation k (escalated clk outcome code detail why final) s) = Inr (y, s3)"
    and mv: "move_investigated clk (n_incident_id row) ESCALATED (''investigation_'' @ code) s3 = Inr (z, s4)"
    and s4: "insert_outbox_event clk InvestigationFailed Investigation (Agg_id k) (Some (n_incident_id row))
       (InvestigationFailedPayload k (n_incident_id row) outcome code) s4 = Inr ((), s')"
    using run by (clarsimp simp: escalate_investigation_def fenced_Inr dest!: accessible_evidence_state)
  let ?f = "escalated clk outcome code detail why final"
  note f = finishes_rows(2) [OF out, of k clk code detail why final]
  have s2: "set_investigation k ?f s = set_investigation k ?f (s\<lparr>rca_reports := rca_reports s @ []\<rparr>)" by simp
  have "open_investigation row" using row(2) by (simp add: open_investigation_def OPEN_INVESTIGATION_def)
  from finish_step [OF ok row(1) this wko.rel_refl f s2 relTD [OF works_on_append s3] mv relTD [OF works_on_basic(1) s4]]
  show ?thesis using out row by auto
qed

text \<open>An accepted conclusion, step by step.\<close>

abbreviation accepted_report where
  "accepted_report core clk row result sel0 selected snaps s \<equiv>
     new_rca_report clk row (h_id sel0) (next_uuid s) (full_report core result selected
       (the (dget snaps (h_key selected))) snaps (steps_of (n_id row) s))"

definition accepted_db where
  "accepted_db core clk row result sel0 selected snaps s =
     set_investigation (n_id row) (completed clk (h_id sel0) (next_uuid s) (h_key selected) (fr_confidence result))
       ((set_hypothesis (h_id sel0) (selected_hypothesis clk result) s)
        \<lparr>next_uuid := Suc (next_uuid s),
         rca_reports := rca_reports s @ [accepted_report core clk row result sel0 selected snaps s]\<rparr>)"

lemma accept_conclusion_run:
  assumes "accept_conclusion core clk row iter cid result sel0 snaps s = Inr (out, s')"
  obtains selected s3 s4 y z where
    "get_hypothesis (h_id sel0) (set_hypothesis (h_id sel0) (selected_hypothesis clk result) s) = Some selected"
    "n_id row \<notin> rca_investigation_id ` set (rca_reports s)"
    "append_step clk (n_id row) OUTCOME iter [(''status'', JStr ''COMPLETED''), (''rca_report_id'', jid (next_uuid s))]
       (Some cid) None (accepted_db core clk row result sel0 selected snaps s) = Inr (y, s3)"
    "move_investigated clk (n_incident_id row) RCA_READY ''root_cause_selected'' s3 = Inr (z, s4)"
    "insert_outbox_event clk InvestigationCompleted Investigation (Agg_id (n_id row)) (Some (n_incident_id row))
       (InvestigationCompletedPayload (n_id row) (n_incident_id row) (h_id sel0) (next_uuid s)) s4 = Inr ((), s')"
    "out = \<lparr>co_accepted = True, co_unmet_criteria = [], co_rca_report_id = Some (next_uuid s)\<rparr>"
proof -
  have same: "next_uuid (set_hypothesis j g s) = next_uuid s" "rca_reports (set_hypothesis j g s) = rca_reports s"
    "steps_of i (set_hypothesis j g s) = steps_of i s" for i j g
    by (simp_all add: set_hypothesis_def steps_of_def)
  show thesis
    using assms unfolding accept_conclusion_def Let_def
    by (clarsimp simp: same) (rule that, assumption+, simp_all add: accepted_db_def)
qed

lemma accept_conclusion_returns:
  assumes "get_hypothesis (h_id sel0) s = Some h" and "n_id row \<notin> rca_investigation_id ` set (rca_reports s)"
    and inc: "get_incident (n_incident_id row) s = Some incident"
  shows "\<exists>out s'. accept_conclusion core clk row iter cid result sel0 snaps s = Inr (out, s') \<and> co_accepted out"
proof -
  have f: "h_id (selected_hypothesis clk result g) = h_id g" for g by (simp add: selected_hypothesis_def)
  have h: "get_hypothesis (h_id sel0) (set_hypothesis (h_id sel0) (selected_hypothesis clk result) s) =
      Some (selected_hypothesis clk result h)"
    using assms(1) hyp.get_update_same [of "selected_hypothesis clk result" "h_id sel0" s] f by simp
  have g: "get_incident i (s1\<lparr>next_uuid := u, investigation_steps := p\<rparr>) = get_incident i s1"
    "get_incident i (set_investigation k a s1) = get_incident i s1"
    "get_incident i (s1\<lparr>next_uuid := u, rca_reports := rs\<rparr>) = get_incident i s1"
    "get_incident i (set_hypothesis j b s1) = get_incident i s1"
    "rca_reports (set_hypothesis j b s1) = rca_reports s1" for i k a j b u p rs s1
    by (simp_all add: get_incident_def set_investigation_def set_hypothesis_def)
  show ?thesis
    unfolding accept_conclusion_def Let_def
    using assms(2) inc by (simp add: h g append_step_run move_investigated_eq insert_outbox_event_app)
qed

lemma complete_investigation_cases:
  assumes "complete_investigation core clk k owner iter cid result s = Inr (out, s')"
  obtains (rejected) row unmet y s1 where "get_investigation k s = Some row" "n_status row = Inv_INVESTIGATING"
      "n_lease_owner row = Some owner" "unmet \<noteq> []"
      "append_step clk k CONCLUSION_REJECTED iter [(''unmet_criteria'', jstrs unmet), (''proposed'', result_json core result)]
        (Some cid) None s = Inr (y, s1)"
      "s' = set_investigation k (\<lambda>n. n\<lparr>n_last_action := Some ''conclusion rejected''\<rparr>) s1"
      "out = \<lparr>co_accepted = False, co_unmet_criteria = unmet, co_rca_report_id = None\<rparr>"
  | (accepted) row ids selected where "get_investigation k s = Some row" "n_status row = Inv_INVESTIGATING"
      "n_lease_owner row = Some owner" "accessible_evidence row s = Inr (ids, s)"
      "unmet_criteria core result ids (snapshots (hypothesis_rows k s) s) (evidence_types_of (n_incident_id row) s) = []"
      "find (\<lambda>h. h_key h = fr_selected_hypothesis_key result) (hypothesis_rows k s) = Some selected"
      "accept_conclusion core clk row iter cid result selected (snapshots (hypothesis_rows k s) s) s = Inr (out, s')"
proof -
  obtain row ids where row: "get_investigation k s = Some row" "n_status row = Inv_INVESTIGATING"
      "n_lease_owner row = Some owner" and ids: "accessible_evidence row s = Inr (ids, s)"
    and rest: "(let unmet = unmet_criteria core result ids (snapshots (hypothesis_rows k s) s) (evidence_types_of (n_incident_id row) s)
       in if unmet \<noteq> [] then
            bindT (append_step clk k CONCLUSION_REJECTED iter
              [(''unmet_criteria'', jstrs unmet), (''proposed'', result_json core result)] (Some cid) None) (\<lambda>_.
            thenT (modifyT (set_investigation k (\<lambda>n. n\<lparr>n_last_action := Some ''conclusion rejected''\<rparr>)))
              (returnT \<lparr>co_accepted = False, co_unmet_criteria = unmet, co_rca_report_id = None\<rparr>))
          else
            bindT (the_or (find (\<lambda>h. h_key h = fr_selected_hypothesis_key result) (hypothesis_rows k s))
                     (AssertionFailed ''StopIteration'')) (\<lambda>selected.
              accept_conclusion core clk row iter cid result selected (snapshots (hypothesis_rows k s) s))) s = Inr (out, s')"
    using assms unfolding complete_investigation_def
    by (simp add: fenced_Inr del: thenT_Inr) (blast dest: accessible_evidence_state)
  let ?unmet = "unmet_criteria core result ids (snapshots (hypothesis_rows k s) s) (evidence_types_of (n_incident_id row) s)"
  show thesis
  proof (cases "?unmet = []")
    case True
    then show thesis using accepted [OF row ids True] rest by auto
  next
    case False
    then show thesis using rejected [OF row False] rest by (auto simp: Let_def)
  qed
qed

lemma accept_step:
  assumes ok: "inv_ok s" and row: "get_investigation k s = Some row" "n_status row = Inv_INVESTIGATING"
    and run: "accept_conclusion core clk row iter cid result selected snaps s = Inr (out, s')"
  shows "inv_ok s' \<and> others_kept k s s' \<and>
    (\<exists>c. inc_key s' = (inc_key s)(n_incident_id row \<mapsto> (RCA_READY, c))) \<and>
    (\<exists>sel. get_hypothesis (h_id selected) (set_hypothesis (h_id selected) (selected_hypothesis clk result) s) = Some sel \<and>
       rca_reports s' = rca_reports s @ [accepted_report core clk row result selected sel snaps s] \<and>
       get_investigation k s' = Some (completed clk (h_id selected) (next_uuid s) (h_key sel) (fr_confidence result) row) \<and>
       hypotheses s' = hypotheses (set_hypothesis (h_id selected) (selected_hypothesis clk result) s)) \<and>
    out = \<lparr>co_accepted = True, co_unmet_criteria = [], co_rca_report_id = Some (next_uuid s)\<rparr>"
proof -
  have id: "n_id row = k" using ivg.getD [OF row(1)] by simp
  have "open_investigation row" using row(2) by (simp add: open_investigation_def OPEN_INVESTIGATION_def)
  note step = finish_step [OF ok row(1) this]
  from run show ?thesis
  proof (cases rule: accept_conclusion_run)
    case (1 sel s3 s4 y z)
    let ?s1 = "(set_hypothesis (h_id selected) (selected_hypothesis clk result) s)\<lparr>next_uuid := Suc (next_uuid s)\<rparr>"
    let ?r = "accepted_report core clk row result selected sel snaps s"
    have w: "works_on k s ?s1" by (rule works_on_same) (simp_all add: set_hypothesis_def)
    have a: "accepted_db core clk row result selected sel snaps s =
        set_investigation k (completed clk (h_id selected) (next_uuid s) (h_key sel) (fr_confidence result))
          (?s1\<lparr>rca_reports := rca_reports ?s1 @ [?r]\<rparr>)"
      by (simp add: accepted_db_def id set_hypothesis_def)
    have kind: "Inv_COMPLETED = Inv_COMPLETED \<and> RCA_READY = RCA_READY \<and>
        map (\<lambda>r. (rca_investigation_id r, rca_incident_id r)) [?r] = [(k, n_incident_id row)] \<or>
        Inv_COMPLETED \<noteq> Inv_COMPLETED \<and> RCA_READY = ESCALATED \<and> [?r] = []"
      by (simp add: new_rca_report_def id)
    have fin: "inv_ok s' \<and> others_kept k s s' \<and> rca_reports s' = rca_reports s @ [?r] \<and>
        (\<exists>c. inc_key s' = (inc_key s)(n_incident_id row \<mapsto> (RCA_READY, c)))"
      using step [OF w finishes_rows(1) a relTD [OF works_on_append 1(3) [unfolded id]] 1(4)
          relTD [OF works_on_basic(1) 1(5) [unfolded id]] kind] by blast
    have mt: "investigations s4 = investigations s3" "hypotheses s4 = hypotheses s3"
      using move_tables [OF 1(4)] by (simp_all add: inv_tables_def)
    have same: "investigations s' = investigations (accepted_db core clk row result selected sel snaps s)"
      "hypotheses s' = hypotheses (accepted_db core clk row result selected sel snaps s)"
      using 1(3,5) mt by (auto simp: append_step_run insert_outbox_event_app)
    have f: "n_id (completed clk h r q c n) = n_id n" for h r q c n
      by (simp add: completed_def finish_investigation_def)
    have "get_investigation k s' = Some (completed clk (h_id selected) (next_uuid s) (h_key sel) (fr_confidence result) row)"
      using row(1) ivg.get_update_same [of "completed clk (h_id selected) (next_uuid s) (h_key sel) (fr_confidence result)" k
          "?s1\<lparr>rca_reports := rca_reports ?s1 @ [?r]\<rparr>", OF f]
      by (simp add: get_investigation_def same a set_hypothesis_def)
    moreover have "hypotheses s' = hypotheses (set_hypothesis (h_id selected) (selected_hypothesis clk result) s)"
      by (simp add: same a set_investigation_def)
    ultimately show ?thesis using fin 1(1,6) by blast
  qed
qed

lemma complete_step:
  assumes run: "complete_investigation core clk k owner iter cid result s = Inr (out, s')" and ok: "inv_ok s"
  shows "\<exists>row. get_investigation k s = Some row \<and> n_status row = Inv_INVESTIGATING \<and> n_lease_owner row = Some owner \<and>
    inv_ok s' \<and> others_kept k s s'"
  using run
proof (cases rule: complete_investigation_cases)
  case (rejected row unmet y s1)
  have "works_on k s1 s'"
    unfolding rejected(6) by (rule works_on_set) (simp_all add: inv_key_def final_status_def)
  then have "works_on k s s'" using relTD [OF works_on_append rejected(5)] wko.rel_trans by blast
  then show ?thesis using rejected(1-3) inv_ok_works_on [OF _ ok] others_kept_works_on by blast
next
  case (accepted row ids selected)
  show ?thesis using accept_step [OF ok accepted(1,2,7)] accepted(1-3) by blast
qed

end
