(* ===== verification/Hypotheses.thy ===== *)
theory Hypotheses
  imports Investigation_Work
begin

text \<open>
  The hypotheses of an investigation: they are identified by their key, their category and component are
  fixed, rejected and selected ones keep their status, and every evidence link is grounded, that is, cites
  evidence registered for the incident which the trace of that investigation shows to the model.
\<close>

subsection \<open>Grounded evidence\<close>

definition shown_to :: "uuid \<Rightarrow> uuid \<Rightarrow> db \<Rightarrow> bool" where
  "shown_to k e s \<longleftrightarrow> (\<exists>p \<in> set (investigation_steps s). sp_investigation_id p = k \<and>
     sp_kind p \<in> {CONTEXT, TOOL_CALL} \<and> (\<exists>es. payload_evidence_ids (sp_payload p) = Inr es \<and> e \<in> set es))"

definition grounded :: "uuid \<Rightarrow> uuid \<Rightarrow> db \<Rightarrow> bool" where
  "grounded k e s \<longleftrightarrow> shown_to k e s \<and>
     (\<exists>n. get_investigation k s = Some n \<and> e \<in> set (registered_evidence (n_incident_id n) s))"

lemma shown_evidence_Inr:
  "shown_evidence ps = Inr ids \<Longrightarrow> e \<in> set ids \<Longrightarrow>
   \<exists>p \<in> set ps. \<exists>es. payload_evidence_ids (sp_payload p) = Inr es \<and> e \<in> set es"
  by (induction ps arbitrary: ids) (auto split: sum.splits)

lemma accessible_grounded:
  assumes "accessible_evidence row s = Inr (ids, s')" "get_investigation k s = Some row" "e \<in> set ids"
  shows "grounded k e s"
proof -
  have id: "n_id row = k" using ivg.getD [OF assms(2)] by simp
  obtain shown where shown: "shown_evidence (filter (\<lambda>p. sp_investigation_id p = n_id row \<and>
      sp_kind p \<in> {CONTEXT, TOOL_CALL}) (investigation_steps s)) = Inr shown"
    and e: "e \<in> set shown" "e \<in> set (registered_evidence (n_incident_id row) s)"
    using assms(1,3) by (auto simp: accessible_evidence_def split: sum.splits)
  from shown_evidence_Inr [OF shown e(1)] id have "shown_to k e s" by (auto simp: shown_to_def)
  then show ?thesis using e(2) assms(2) by (auto simp: grounded_def)
qed

lemma grounded_mono:
  assumes "grounded k e s" "prefix (investigation_steps s) (investigation_steps s')"
    "prefix (evidence_refs s) (evidence_refs s')"
    "\<And>n. get_investigation k s = Some n \<Longrightarrow> \<exists>n'. get_investigation k s' = Some n' \<and> n_incident_id n' = n_incident_id n"
  shows "grounded k e s'"
proof -
  obtain n where n: "get_investigation k s = Some n" "e \<in> set (registered_evidence (n_incident_id n) s)"
    using assms(1) by (auto simp: grounded_def)
  have "shown_to k e s'"
    using assms(1,2) by (fastforce simp: grounded_def shown_to_def prefix_def)
  moreover have "set (registered_evidence i s) \<subseteq> set (registered_evidence i s')" for i
    using assms(3) by (auto simp: registered_evidence_def prefix_def)
  ultimately show ?thesis using assms(4) [OF n(1)] n(2) by (fastforce simp: grounded_def)
qed

subsection \<open>The invariant and how hypotheses evolve\<close>

definition hyps_ok :: "db \<Rightarrow> bool" where
  "hyps_ok s \<longleftrightarrow> distinct (map h_id (hypotheses s)) \<and> (\<forall>h \<in> set (hypotheses s). h_id h < next_uuid s) \<and>
     distinct (map (\<lambda>h. (h_investigation_id h, h_key h)) (hypotheses s)) \<and>
     (\<forall>l \<in> set (hypothesis_links s). \<exists>h \<in> set (hypotheses s). h_id h = hl_hypothesis_id l \<and>
        grounded (h_investigation_id h) (hl_evidence_id l) s)"

abbreviation settled :: "hypothesis_row \<Rightarrow> bool" where
  "settled h \<equiv> h_status h \<in> {H_REJECTED, H_SELECTED}"

definition evolves :: "hypothesis_row \<Rightarrow> hypothesis_row \<Rightarrow> bool" where
  "evolves h h' \<longleftrightarrow> h_id h' = h_id h \<and> h_investigation_id h' = h_investigation_id h \<and> h_key h' = h_key h \<and>
     h_cause_category h' = h_cause_category h \<and> h_component h' = h_component h \<and>
     (settled h \<longrightarrow> h_status h' = h_status h)"

lemma evolves_refl: "evolves h h"
  by (simp add: evolves_def)

lemma evolves_trans: "evolves h h' \<Longrightarrow> evolves h' h'' \<Longrightarrow> evolves h h''"
  by (auto simp: evolves_def)

definition hyp_rel :: "db \<Rightarrow> db \<Rightarrow> bool" where
  "hyp_rel s s' \<longleftrightarrow> (\<forall>k e. grounded k e s \<longrightarrow> grounded k e s') \<and> (hyps_ok s \<longrightarrow> hyps_ok s' \<and>
     prefix (hypothesis_links s) (hypothesis_links s') \<and>
     (\<forall>h \<in> set (hypotheses s). \<exists>h' \<in> set (hypotheses s'). evolves h h'))"

interpretation hyr: tx_relation hyp_rel
proof unfold_locales
  show "hyp_rel s s" for s using evolves_refl by (auto simp: hyp_rel_def)
  show "hyp_rel s u" if st: "hyp_rel s t" and tu: "hyp_rel t u" for s t u
    unfolding hyp_rel_def
  proof (intro conjI impI allI ballI)
    show "grounded k e u" if "grounded k e s" for k e using st tu that by (simp add: hyp_rel_def)
    assume ok: "hyps_ok s"
    then have "hyps_ok t" using st by (simp add: hyp_rel_def)
    then show "hyps_ok u" using tu by (simp add: hyp_rel_def)
    show "prefix (hypothesis_links s) (hypothesis_links u)"
      using ok \<open>hyps_ok t\<close> st tu prefix_order.trans by (auto simp: hyp_rel_def)
    fix h assume "h \<in> set (hypotheses s)"
    then obtain h' where "h' \<in> set (hypotheses t)" "evolves h h'" using ok st by (auto simp: hyp_rel_def)
    moreover then obtain h'' where "h'' \<in> set (hypotheses u)" "evolves h' h''"
      using \<open>hyps_ok t\<close> tu by (auto simp: hyp_rel_def)
    ultimately show "\<exists>h'\<in>set (hypotheses u). evolves h h'" using evolves_trans by blast
  qed
qed

lemma hyp_rel_same:
  assumes g: "\<And>k e. grounded k e s \<Longrightarrow> grounded k e s'"
    and "hypotheses s' = hypotheses s" "hypothesis_links s' = hypothesis_links s" "next_uuid s \<le> next_uuid s'"
  shows "hyp_rel s s'"
proof -
  have "hyps_ok s'" if ok: "hyps_ok s"
  proof -
    have "\<forall>l \<in> set (hypothesis_links s). \<exists>h \<in> set (hypotheses s). h_id h = hl_hypothesis_id l \<and>
        grounded (h_investigation_id h) (hl_evidence_id l) s'"
      using ok g unfolding hyps_ok_def by meson
    then show ?thesis using ok assms(2-4) unfolding hyps_ok_def by fastforce
  qed
  then show ?thesis using g assms(2,3) evolves_refl by (auto simp: hyp_rel_def)
qed

lemma hyp_rel_untouched:
  assumes "hypotheses s' = hypotheses s" "hypothesis_links s' = hypothesis_links s" "next_uuid s \<le> next_uuid s'"
    and "prefix (investigation_steps s) (investigation_steps s')" "prefix (evidence_refs s) (evidence_refs s')"
    and "\<And>k n. get_investigation k s = Some n \<Longrightarrow> \<exists>n'. get_investigation k s' = Some n' \<and> n_incident_id n' = n_incident_id n"
  shows "hyp_rel s s'"
  using assms by (intro hyp_rel_same) (auto intro: grounded_mono)

lemma hyp_rel_frame: "inv_frame s s' \<Longrightarrow> hyp_rel s s'"
  by (rule hyp_rel_untouched) (simp_all add: inv_frame_def inv_tables_def get_investigation_def)

lemma hyp_rel_basic:
  "relT hyp_rel (insert_outbox_event clk ty agg ref corr payload)" "relT hyp_rel (the_or v e)" "relT hyp_rel new_uuid"
  by (auto simp: relT_def insert_outbox_event_app get_investigation_def intro!: hyp_rel_untouched)

lemma hyp_rel_set_investigation:
  assumes "\<And>n. n_id (f n) = n_id n \<and> n_incident_id (f n) = n_incident_id n"
  shows "hyp_rel s (set_investigation k f s)"
proof (rule hyp_rel_untouched)
  show "\<exists>n'. get_investigation j (set_investigation k f s) = Some n' \<and> n_incident_id n' = n_incident_id n"
    if "get_investigation j s = Some n" for j n
    using assms that by (cases "j = k") (simp_all add: ivg.get_update_same ivg.get_update_other)
qed (simp_all add: set_investigation_def)

lemma hyp_rel_append: "relT hyp_rel (append_step clk k kind iter payload cid lat)"
  by (auto simp: relT_def append_step_run get_investigation_def intro!: hyp_rel_untouched)

lemma hyp_rel_move: "relT hyp_rel (move_investigated clk i to reason)"
  by (auto simp: relT_def move_investigated_eq moved_def set_incident_def get_investigation_def
      intro!: hyp_rel_untouched)

lemmas hyp_rules = hyr.rules hyp_rel_basic hyp_rel_append hyp_rel_move hyp_rel_set_investigation [THEN hyr.rel_modify]

lemma hyp_rel_lock: "relT hyp_rel (lock_investigation j)" "relT hyp_rel (fenced j owner)"
  "relT hyp_rel (accessible_evidence row)"
  unfolding fenced_def lock_investigation_def accessible_evidence_def by (intro hyp_rules)+

lemma hyp_rel_commands:
  "relT hyp_rel (take_lease clk k owner lease)" "relT hyp_rel (load_state k)" "relT hyp_rel (release clk k owner)"
  "relT hyp_rel (record_step clk k owner r lease)"
  "relT hyp_rel (escalate_investigation clk k owner iter outcome code detail why gaps cid)"
  unfolding take_lease_def load_state_def release_def record_step_def escalate_investigation_def
  by (intro hyp_rules hyp_rel_lock; simp add: count_step_def escalated_def finish_investigation_def Let_def)+

lemma hyp_rel_request: "relT hyp_rel (request_investigation clk i provider name settings budget)"
proof (rule relTI)
  fix s st s' assume "request_investigation clk i provider name settings budget s = Inr (st, s')"
  then show "hyp_rel s s'"
  proof (cases rule: request_investigation_cases)
    case (created row)
    have c: "create_investigation clk row provider name settings budget s = Inr (st, s')" by fact
    have r: "get_incident (i_id row) s = Some row" using created by simp
    obtain n where n: "investigations s' = investigations s @ [n]" and
      eff: "next_uuid s < next_uuid s'" "investigation_steps s' = investigation_steps s" "evidence_refs s' = evidence_refs s"
      using create_keys [OF c r] by blast
    have "keepsT (\<lambda>s. (hypotheses s, hypothesis_links s)) (create_investigation clk row provider name settings budget)"
      unfolding create_investigation_def transition_incident_status_def status_event_def lock_incident_def Let_def
      by (intro keeps_rules keepsT_modify)
        (auto simp: keepsT_def relT_def insert_outbox_event_app set_incident_def add_investigation_def)
    from keepsTD [OF this c] show ?thesis
      using n eff by (intro hyp_rel_untouched) (auto simp: get_investigation_def lookup_row_append)
  qed (simp add: hyr.rel_refl)
qed

subsection \<open>Applying updates\<close>

lemma link_run:
  assumes "link_hypothesis clk hid rel e s = Inr (x, s')"
  shows "\<exists>ls. s' = s\<lparr>hypothesis_links := hypothesis_links s @ ls\<rparr> \<and>
    (\<forall>l \<in> set ls. hl_hypothesis_id l = hid \<and> hl_evidence_id l = e \<and> hl_relation l = rel)"
proof (cases "s' = s")
  case True
  then show ?thesis by (intro exI [of _ "[]"]) simp
next
  case False
  then show ?thesis using assms by (auto simp: link_hypothesis_def split: if_splits)
qed

lemma links_run:
  assumes "forT es (link_hypothesis clk hid rel) s = Inr (x, s')"
  shows "\<exists>ls. s' = s\<lparr>hypothesis_links := hypothesis_links s @ ls\<rparr> \<and>
    (\<forall>l \<in> set ls. hl_hypothesis_id l = hid \<and> hl_evidence_id l \<in> set es \<and> hl_relation l = rel)"
  using assms
proof (induction es arbitrary: s)
  case Nil
  then show ?case by (intro exI [of _ "[]"]) simp
next
  case (Cons e es)
  then obtain y s1 where l: "link_hypothesis clk hid rel e s = Inr (y, s1)"
    and rest: "forT es (link_hypothesis clk hid rel) s1 = Inr (x, s')" by auto
  from link_run [OF l] obtain ls1 where s1: "s1 = s\<lparr>hypothesis_links := hypothesis_links s @ ls1\<rparr>"
    "\<forall>l \<in> set ls1. hl_hypothesis_id l = hid \<and> hl_evidence_id l = e \<and> hl_relation l = rel" by blast
  from Cons.IH [OF rest] obtain ls2 where "s' = s1\<lparr>hypothesis_links := hypothesis_links s1 @ ls2\<rparr>"
    "\<forall>l \<in> set ls2. hl_hypothesis_id l = hid \<and> hl_evidence_id l \<in> set es \<and> hl_relation l = rel" by blast
  with s1 show ?case by (intro exI [of _ "ls1 @ ls2"]) auto
qed

lemma hyps_ok_links:
  assumes ok: "hyps_ok s" and h: "h \<in> set (hypotheses s)"
    and ls: "\<And>l. l \<in> set ls \<Longrightarrow> hl_hypothesis_id l = h_id h \<and> grounded (h_investigation_id h) (hl_evidence_id l) s"
  shows "hyps_ok (s\<lparr>hypothesis_links := hypothesis_links s @ ls\<rparr>)"
proof -
  have g: "grounded k e (s\<lparr>hypothesis_links := ls'\<rparr>) = grounded k e s" for k e ls'
    by (simp add: grounded_def shown_to_def get_investigation_def registered_evidence_def)
  have "\<exists>h \<in> set (hypotheses s). h_id h = hl_hypothesis_id l \<and> grounded (h_investigation_id h) (hl_evidence_id l) s"
    if "l \<in> set (hypothesis_links s @ ls)" for l
    using that ok ls [of l] h by (auto simp: hyps_ok_def)
  then show ?thesis using ok by (simp add: hyps_ok_def g)
qed

lemma find_hypothesis_iff:
  assumes "hyps_ok s"
  shows "find_hypothesis k q s = Some h \<longleftrightarrow> h \<in> set (hypotheses s) \<and> h_investigation_id h = k \<and> h_key h = q"
proof
  assume "find_hypothesis k q s = Some h"
  then show "h \<in> set (hypotheses s) \<and> h_investigation_id h = k \<and> h_key h = q"
    by (auto simp: find_hypothesis_def find_Some_iff)
next
  assume h: "h \<in> set (hypotheses s) \<and> h_investigation_id h = k \<and> h_key h = q"
  then obtain h' where h': "find_hypothesis k q s = Some h'"
    by (cases "find_hypothesis k q s") (auto simp: find_hypothesis_def find_None_iff)
  then have "h' \<in> set (hypotheses s)" "h_investigation_id h' = k" "h_key h' = q"
    by (auto simp: find_hypothesis_def find_Some_iff)
  moreover have "inj_on (\<lambda>h. (h_investigation_id h, h_key h)) (set (hypotheses s))"
    using assms by (simp add: hyps_ok_def distinct_map)
  ultimately have "h' = h" using h by (auto dest: inj_onD)
  with h' show "find_hypothesis k q s = Some h" by simp
qed

lemma get_hypothesis_iff:
  assumes "hyps_ok s"
  shows "get_hypothesis j s = Some h \<longleftrightarrow> h \<in> set (hypotheses s) \<and> h_id h = j"
  using assms hyp.getD [of j s h] hyp.get_of_row [of s h] by (auto simp: hyps_ok_def)

lemma grounded_hypotheses: "grounded k e (s\<lparr>next_uuid := u, hypotheses := hs\<rparr>) = grounded k e s"
  "grounded k e (s\<lparr>hypotheses := hs\<rparr>) = grounded k e s" "grounded k e (s\<lparr>next_uuid := u\<rparr>) = grounded k e s"
  by (simp_all add: grounded_def shown_to_def get_investigation_def registered_evidence_def)

lemma hyps_ok_add:
  assumes ok: "hyps_ok s" and h: "h_id h = next_uuid s" and new: "find_hypothesis (h_investigation_id h) (h_key h) s = None"
  shows "hyps_ok (add_hypothesis h (s\<lparr>next_uuid := Suc (next_uuid s)\<rparr>))"
proof -
  have "(h_investigation_id h, h_key h) \<notin> (\<lambda>h. (h_investigation_id h, h_key h)) ` set (hypotheses s)"
    using new by (auto simp: find_hypothesis_def find_None_iff)
  moreover have "h_id h \<notin> h_id ` set (hypotheses s)" using ok h by (auto simp: hyps_ok_def)
  ultimately show ?thesis
    using ok h unfolding hyps_ok_def add_hypothesis_def by (simp add: grounded_hypotheses less_Suc_eq)
qed

lemma hyps_ok_set:
  assumes ok: "hyps_ok s" and f: "\<And>h. h_id (f h) = h_id h \<and> h_investigation_id (f h) = h_investigation_id h \<and> h_key (f h) = h_key h"
  shows "hyps_ok (set_hypothesis j f s)"
proof -
  let ?up = "update_rows h_id j f (hypotheses s)"
  have maps: "map h_id ?up = map h_id (hypotheses s)"
    "map (\<lambda>h. (h_investigation_id h, h_key h)) ?up = map (\<lambda>h. (h_investigation_id h, h_key h)) (hypotheses s)"
    using f by (auto simp: update_rows_def)
  have old: "\<exists>h' \<in> set ?up. h_id h' = h_id h \<and> h_investigation_id h' = h_investigation_id h" if "h \<in> set (hypotheses s)" for h
    using that f by (intro bexI [of _ "if h_id h = j then f h else h"]) (auto simp: set_update_rows)
  have "\<exists>h' \<in> set ?up. h_id h' = hl_hypothesis_id l \<and> grounded (h_investigation_id h') (hl_evidence_id l) s"
    if "l \<in> set (hypothesis_links s)" for l
  proof -
    obtain h where "h \<in> set (hypotheses s)" "h_id h = hl_hypothesis_id l" "grounded (h_investigation_id h) (hl_evidence_id l) s"
      using ok \<open>l \<in> set (hypothesis_links s)\<close> by (auto simp: hyps_ok_def)
    with old [of h] show ?thesis by metis
  qed
  then show ?thesis
    using ok f by (auto simp: hyps_ok_def set_hypothesis_def maps grounded_hypotheses set_update_rows)
qed

lemma find_after_add:
  "find_hypothesis k q (add_hypothesis h s) = (case find_hypothesis k q s of Some h' \<Rightarrow> Some h' | None \<Rightarrow>
     if h_investigation_id h = k \<and> h_key h = q then Some h else None)"
  "find_hypothesis k q (s\<lparr>next_uuid := n\<rparr>) = find_hypothesis k q s"
proof -
  have "find P (xs @ [x]) = (case find P xs of Some y \<Rightarrow> Some y | None \<Rightarrow> if P x then Some x else None)"
    for P :: "hypothesis_row \<Rightarrow> bool" and xs x by (induction xs) auto
  then show "find_hypothesis k q (add_hypothesis h s) = (case find_hypothesis k q s of Some h' \<Rightarrow> Some h' | None \<Rightarrow>
      if h_investigation_id h = k \<and> h_key h = q then Some h else None)"
    by (simp add: find_hypothesis_def add_hypothesis_def)
qed (simp add: find_hypothesis_def)

lemma store_step:
  assumes ok: "hyps_ok s" and run: "store_hypothesis clk k u (find_hypothesis k (hu_key u) s) s = Inr (hid, s1)"
    and free: "\<And>h. find_hypothesis k (hu_key u) s = Some h \<Longrightarrow> \<not> settled h"
  shows "\<exists>row n hs. s1 = s\<lparr>next_uuid := n, hypotheses := hs\<rparr> \<and> next_uuid s \<le> n \<and> hyps_ok s1 \<and>
    (\<forall>h \<in> set (hypotheses s). \<exists>h' \<in> set hs. evolves h h') \<and>
    find_hypothesis k (hu_key u) s1 = Some row \<and> h_id row = hid \<and>
    (\<forall>q. q \<noteq> hu_key u \<longrightarrow> find_hypothesis k q s1 = find_hypothesis k q s)"
proof (cases "find_hypothesis k (hu_key u) s")
  case None
  let ?h = "new_hypothesis_row clk k u (next_uuid s)"
  have s1: "s1 = add_hypothesis ?h (s\<lparr>next_uuid := Suc (next_uuid s)\<rparr>)" "hid = next_uuid s"
    using run None by (auto simp: store_hypothesis_def)
  have p: "h_id ?h = next_uuid s" "h_investigation_id ?h = k" "h_key ?h = hu_key u"
    by (simp_all add: new_hypothesis_row_def)
  have "hyps_ok s1" unfolding s1 by (rule hyps_ok_add [OF ok p(1)]) (simp add: p None)
  then show ?thesis
    using s1 p None evolves_refl
    by (intro exI [of _ ?h] exI [of _ "Suc (next_uuid s)"] exI [of _ "hypotheses s @ [?h]"])
      (auto simp: find_after_add split: option.split, auto simp: add_hypothesis_def)
next
  case (Some h)
  let ?f = "change_hypothesis clk u"
  have s1: "s1 = set_hypothesis (h_id h) ?f s" "hid = h_id h" using run Some by (auto simp: store_hypothesis_def)
  have f: "h_id (?f g) = h_id g \<and> h_investigation_id (?f g) = h_investigation_id g \<and> h_key (?f g) = h_key g" for g
    by (simp add: change_hypothesis_def)
  have ok1: "hyps_ok s1" unfolding s1 by (rule hyps_ok_set [OF ok f])
  have h: "h \<in> set (hypotheses s)" "h_investigation_id h = k" "h_key h = hu_key u"
    using Some by (simp_all add: find_hypothesis_iff [OF ok])
  have id: "g = h" if "g \<in> set (hypotheses s)" "h_id g = h_id h" for g
    using that h(1) get_hypothesis_iff [OF ok, of "h_id h"] by (metis option.inject)
  have mem: "g \<in> set (hypotheses s1) \<longleftrightarrow> g = ?f h \<or> g \<in> set (hypotheses s) \<and> g \<noteq> h" for g
  proof -
    have "set (hypotheses s1) = (\<lambda>g. if g = h then ?f h else g) ` set (hypotheses s)"
      unfolding s1 set_hypothesis_def using id by (auto simp: set_update_rows intro!: image_cong)
    also have "\<dots> = insert (?f h) (set (hypotheses s) - {h})" using h(1) by auto
    finally show ?thesis by auto
  qed
  have "find_hypothesis k q s1 = find_hypothesis k q s" if "q \<noteq> hu_key u" for q
  proof -
    have "find_hypothesis k q s1 = Some g \<longleftrightarrow> find_hypothesis k q s = Some g" for g
      using that h f by (auto simp: find_hypothesis_iff [OF ok] find_hypothesis_iff [OF ok1] mem)
    then show ?thesis by (metis option.exhaust)
  qed
  moreover have "find_hypothesis k (hu_key u) s1 = Some (?f h)"
    using h f by (simp add: find_hypothesis_iff [OF ok1] mem)
  moreover have "evolves h (?f h)" using free [OF Some] by (simp add: evolves_def change_hypothesis_def)
  then have "\<forall>g \<in> set (hypotheses s). \<exists>g' \<in> set (hypotheses s1). evolves g g'"
    using evolves_refl mem by blast
  moreover have "s1 = s\<lparr>next_uuid := next_uuid s, hypotheses := hypotheses s1\<rparr>" by (simp add: s1 set_hypothesis_def)
  ultimately show ?thesis
    using ok1 s1(2) f by (intro exI [of _ "?f h"] exI [of _ "next_uuid s"] exI [of _ "hypotheses s1"]) simp
qed

definition snaps_ok :: "uuid \<Rightarrow> hypothesis_snapshot dict \<Rightarrow> db \<Rightarrow> bool" where
  "snaps_ok k snaps s \<longleftrightarrow> (\<forall>q. dget snaps q = map_option (snapshot_of s) (find_hypothesis k q s))"

lemma links_of_append:
  "(\<And>l. l \<in> set ls \<Longrightarrow> hl_hypothesis_id l \<noteq> j) \<Longrightarrow>
   links_of j rel (s\<lparr>hypothesis_links := hypothesis_links s @ ls\<rparr>) = links_of j rel s"
  by (simp add: links_of_def filter_empty_conv)

lemma snapshot_of_append:
  "(\<And>l. l \<in> set ls \<Longrightarrow> hl_hypothesis_id l \<noteq> h_id h) \<Longrightarrow>
   snapshot_of (s\<lparr>hypothesis_links := hypothesis_links s @ ls\<rparr>) h = snapshot_of s h"
  by (simp add: snapshot_of_def links_of_append)

lemma apply_update_step:
  assumes ok: "hyps_ok s" and run: "apply_update clk k u s = Inr ((snap, entry), s')"
    and free: "\<And>h. find_hypothesis k (hu_key u) s = Some h \<Longrightarrow> \<not> settled h"
    and g: "\<And>e. e \<in> set (hu_supporting_evidence_ids u) \<union> set (hu_contradicting_evidence_ids u) \<Longrightarrow> grounded k e s"
    and snaps: "snaps_ok k snaps s"
  shows "hyp_rel s s' \<and> hyps_ok s' \<and> snaps_ok k (dset snaps (hu_key u) snap) s'"
proof -
  obtain hid s1 s2 row x y where st: "store_hypothesis clk k u (find_hypothesis k (hu_key u) s) s = Inr (hid, s1)"
    and l1: "forT (hu_supporting_evidence_ids u) (link_hypothesis clk hid Supports) s1 = Inr (x, s2)"
    and l2: "forT (hu_contradicting_evidence_ids u) (link_hypothesis clk hid Contradicts) s2 = Inr (y, s')"
    and row: "get_hypothesis hid s' = Some row" and snap: "snap = snapshot_of s' row"
    using run by (auto simp: apply_update_def)
  from store_step [OF ok st free] obtain row1 n hs where s1: "s1 = s\<lparr>next_uuid := n, hypotheses := hs\<rparr>" "next_uuid s \<le> n"
    and ok1: "hyps_ok s1" and ev: "\<forall>h \<in> set (hypotheses s). \<exists>h' \<in> set hs. evolves h h'"
    and row1: "find_hypothesis k (hu_key u) s1 = Some row1" "h_id row1 = hid"
    and other: "\<And>q. q \<noteq> hu_key u \<Longrightarrow> find_hypothesis k q s1 = find_hypothesis k q s" by blast
  obtain ls1 where s2: "s2 = s1\<lparr>hypothesis_links := hypothesis_links s1 @ ls1\<rparr>"
    and ls1: "\<And>l. l \<in> set ls1 \<Longrightarrow> hl_hypothesis_id l = hid \<and> hl_evidence_id l \<in> set (hu_supporting_evidence_ids u)"
    using links_run [OF l1] by blast
  obtain ls2 where s': "s' = s2\<lparr>hypothesis_links := hypothesis_links s2 @ ls2\<rparr>"
    and ls2: "\<And>l. l \<in> set ls2 \<Longrightarrow> hl_hypothesis_id l = hid \<and> hl_evidence_id l \<in> set (hu_contradicting_evidence_ids u)"
    using links_run [OF l2] by blast
  let ?ls = "ls1 @ ls2"
  have s'1: "s' = s1\<lparr>hypothesis_links := hypothesis_links s1 @ ?ls\<rparr>" using s2 s' by simp
  have ls: "hl_hypothesis_id l = h_id row1 \<and> grounded k (hl_evidence_id l) s1" if "l \<in> set ?ls" for l
    using that ls1 ls2 g row1(2) by (auto simp: s1 grounded_hypotheses)
  have r1: "row1 \<in> set (hypotheses s1)" "h_investigation_id row1 = k"
    using row1(1) by (simp_all add: find_hypothesis_iff [OF ok1])
  have ok': "hyps_ok s'" unfolding s'1 by (rule hyps_ok_links [OF ok1 r1(1)]) (use ls r1(2) in simp)
  have "grounded j e s' = grounded j e s" for j e
    by (simp add: s'1 s1 grounded_def shown_to_def get_investigation_def registered_evidence_def)
  moreover have "prefix (hypothesis_links s) (hypothesis_links s')" "hypotheses s' = hs"
    by (simp_all add: s'1 s1)
  ultimately have rel: "hyp_rel s s'" using ok' ev by (auto simp: hyp_rel_def)
  have find': "find_hypothesis k q s' = find_hypothesis k q s1" for q by (simp add: s'1 find_hypothesis_def)
  have "row = row1"
    using row r1(1) row1(2) get_hypothesis_iff [OF ok', of hid] by (simp add: s'1)
  have same: "snapshot_of s' h = snapshot_of s h" if "find_hypothesis k q s = Some h" "q \<noteq> hu_key u" for q h
  proof -
    have "find_hypothesis k q s1 = Some h" using that other by simp
    then have h: "h \<in> set (hypotheses s1)" "h_key h = q" by (simp_all add: find_hypothesis_iff [OF ok1])
    moreover have "h_key row1 = hu_key u" using row1(1) by (simp add: find_hypothesis_iff [OF ok1])
    ultimately have "h_id h \<noteq> h_id row1"
      using that(2) r1(1) get_hypothesis_iff [OF ok1, of "h_id h"] by (metis option.inject)
    then have "snapshot_of s' h = snapshot_of s1 h" unfolding s'1 by (intro snapshot_of_append) (use ls in auto)
    then show ?thesis by (simp add: s1 snapshot_of_def links_of_def)
  qed
  have "snaps_ok k (dset snaps (hu_key u) snap) s'"
    unfolding snaps_ok_def
  proof
    fix q
    show "dget (dset snaps (hu_key u) snap) q = map_option (snapshot_of s') (find_hypothesis k q s')"
    proof (cases "q = hu_key u")
      case True
      then show ?thesis using snap row1(1) \<open>row = row1\<close> by (simp add: dget_def find')
    next
      case False
      have "dget snaps q = map_option (snapshot_of s) (find_hypothesis k q s)" using snaps by (simp add: snaps_ok_def)
      with False other [OF False] same [of q] show ?thesis
        by (cases "find_hypothesis k q s") (simp_all add: dget_def find')
    qed
  qed
  then show ?thesis using rel ok' by simp
qed

lemma update_problems:
  assumes "check_hypothesis_update u existing acc = []"
  shows "set (hu_supporting_evidence_ids u) \<union> set (hu_contradicting_evidence_ids u) \<subseteq> set acc"
    and "existing = Some sn \<Longrightarrow> hs_status sn \<notin> {H_REJECTED, H_SELECTED}"
  using assms unfolding check_hypothesis_update_def Let_def
  by (simp_all add: append_is_Nil_conv split: if_splits)

lemma apply_updates_step:
  assumes "apply_updates clk k acc us snaps s = Inr (r, s')" "hyps_ok s" "snaps_ok k snaps s"
    and "\<And>e. e \<in> set acc \<Longrightarrow> grounded k e s"
  shows "hyp_rel s s' \<and> hyps_ok s'"
  using assms
proof (induction us arbitrary: snaps s r)
  case Nil
  then show ?case by (simp add: hyr.rel_refl)
next
  case (Cons u us)
  let ?ex = "dget snaps (hu_key u)"
  show ?case
  proof (cases "check_hypothesis_update u ?ex acc = []")
    case False
    then obtain r' where "apply_updates clk k acc us snaps s = Inr (r', s')"
      using Cons.prems(1) by (auto simp: Let_def)
    from Cons.IH [OF this Cons.prems(2-4)] show ?thesis by simp
  next
    case True
    then obtain snap entry s1 r' where up: "apply_update clk k u s = Inr ((snap, entry), s1)"
      and rest: "apply_updates clk k acc us (dset snaps (hu_key u) snap) s1 = Inr (r', s')"
      using Cons.prems(1) by (auto simp: Let_def)
    have free: "\<not> settled h" if "find_hypothesis k (hu_key u) s = Some h" for h
      using update_problems(2) [OF True, of "snapshot_of s h"] Cons.prems(3) that
      by (simp add: snaps_ok_def snapshot_of_def)
    have "grounded k e s" if "e \<in> set (hu_supporting_evidence_ids u) \<union> set (hu_contradicting_evidence_ids u)" for e
      using update_problems(1) [OF True] Cons.prems(4) that by blast
    from apply_update_step [OF Cons.prems(2) up free this Cons.prems(3)]
    have one: "hyp_rel s s1" "hyps_ok s1" "snaps_ok k (dset snaps (hu_key u) snap) s1" by blast+
    have "grounded k e s1" if "e \<in> set acc" for e using one(1) Cons.prems(4) [OF that] by (simp add: hyp_rel_def)
    from Cons.IH [OF rest one(2,3) this] one(1) show ?thesis using hyr.rel_trans by blast
  qed
qed

lemma map_of_fold_dset: "map_of (fold (\<lambda>(k, v) acc. dset acc k v) kvs d) = map_of d ++ map_of (rev kvs)"
proof (induction kvs arbitrary: d)
  case (Cons x kvs)
  then show ?case by (cases x) (auto simp: map_add_def fun_eq_iff split: option.split)
qed simp

lemma set_hypothesis_rows: "set (hypothesis_rows k s) = {h \<in> set (hypotheses s). h_investigation_id h = k}"
  by (simp add: hypothesis_rows_def)

lemma snaps_ok_snapshots:
  assumes ok: "hyps_ok s"
  shows "snaps_ok k (snapshots (hypothesis_rows k s) s) s"
  unfolding snaps_ok_def
proof
  fix q
  let ?kvs = "map (\<lambda>r. (h_key r, snapshot_of s r)) (hypothesis_rows k s)"
  have "distinct (hypotheses s)" using ok by (simp add: hyps_ok_def distinct_map)
  then have "distinct (hypothesis_rows k s)" by (simp add: hypothesis_rows_def)
  moreover have "inj_on (\<lambda>h. (h_investigation_id h, h_key h)) (set (hypotheses s))"
    using ok by (simp add: hyps_ok_def distinct_map)
  then have "inj_on h_key (set (hypothesis_rows k s))"
    by (auto simp: inj_on_def set_hypothesis_rows)
  ultimately have "distinct (map fst (rev ?kvs))" by (simp add: rev_map [symmetric] comp_def distinct_map)
  then have iff: "map_of (rev ?kvs) q = Some v \<longleftrightarrow> (q, v) \<in> set ?kvs" for v
    using map_of_eq_Some_iff [of "rev ?kvs" q v] by simp
  have "dget (snapshots (hypothesis_rows k s) s) q = map_of (rev ?kvs) q"
    by (simp add: dget_def snapshots_def dmerge_def map_of_fold_dset)
  moreover have "map_of (rev ?kvs) q = Some v \<longleftrightarrow> map_option (snapshot_of s) (find_hypothesis k q s) = Some v" for v
    unfolding iff by (auto simp: set_hypothesis_rows find_hypothesis_iff [OF ok])
  then have "map_of (rev ?kvs) q = map_option (snapshot_of s) (find_hypothesis k q s)" by (metis option.exhaust)
  ultimately show "dget (snapshots (hypothesis_rows k s) s) q = map_option (snapshot_of s) (find_hypothesis k q s)"
    by simp
qed

lemma hyp_rel_apply:
  assumes run: "apply_hypothesis_updates clk k owner iter cid batch s = Inr (out, s')" and ok: "hyps_ok s"
  shows "hyp_rel s s'"
proof -
  let ?tail = "\<lambda>(snaps', applied, rejected).
     bindT (append_step clk k HYPOTHESIS_UPDATE iter
              [(''applied'', JList applied), (''rejected'', JList rejected),
               (''hypotheses'', JList (map (\<lambda>(_, h). snapshot_json h) snaps'))] (Some cid) None) (\<lambda>_.
     thenT (modifyT (set_investigation k (\<lambda>n. n\<lparr>
              n_last_action := Some (''update_hypotheses: '' @ str_nat (length applied) @ '' applied, ''
                @ str_nat (length rejected) @ '' rejected''), n_updated_at := clk_now clk\<rparr>)))
       (returnT \<lparr>uo_applied = applied, uo_rejected = rejected\<rparr>))"
  have "\<exists>row acc r s1. get_investigation k s = Some row \<and> accessible_evidence row s = Inr (acc, s) \<and>
      apply_updates clk k acc batch (snapshots (hypothesis_rows k s) s) s = Inr (r, s1) \<and> ?tail r s1 = Inr (out, s')"
    using run unfolding apply_hypothesis_updates_def
    by (simp only: bindT_Inr fenced_Inr getsT_Inr) (blast dest: accessible_evidence_state)
  then obtain row acc r s1 where row: "get_investigation k s = Some row" and acc: "accessible_evidence row s = Inr (acc, s)"
    and up: "apply_updates clk k acc batch (snapshots (hypothesis_rows k s) s) s = Inr (r, s1)"
    and tail: "?tail r s1 = Inr (out, s')" by blast
  have "relT hyp_rel (?tail r)" by (intro hyp_rules) simp
  from relTD [OF this tail] show ?thesis
    using apply_updates_step [OF up ok snaps_ok_snapshots [OF ok]] accessible_grounded [OF acc row] hyr.rel_trans by blast
qed

lemma find_SomeD: "find P xs = Some x \<Longrightarrow> x \<in> set xs \<and> P x"
  by (induction xs) (auto split: if_splits)

text \<open>Accepting a conclusion: the selected hypothesis was SUPPORTED.\<close>

lemma conclusion_supported:
  assumes "evaluate_conclusion result snaps types criteria = []"
  shows "\<exists>sn. dget snaps (fr_selected_hypothesis_key result) = Some sn \<and> hs_status sn = H_SUPPORTED"
  using assms unfolding evaluate_conclusion_def Let_def
  by (auto split: option.splits if_splits)

lemma accepted_selection:
  assumes ok: "hyps_ok s"
    and unmet: "unmet_criteria core result ids (snapshots (hypothesis_rows k s) s) types = []"
    and sel: "find (\<lambda>h. h_key h = fr_selected_hypothesis_key result) (hypothesis_rows k s) = Some selected"
  shows "selected \<in> set (hypotheses s) \<and> h_investigation_id selected = k \<and>
    h_key selected = fr_selected_hypothesis_key result \<and> h_status selected = H_SUPPORTED \<and>
    get_hypothesis (h_id selected) s = Some selected"
proof -
  let ?q = "fr_selected_hypothesis_key result"
  have h: "selected \<in> set (hypotheses s)" "h_investigation_id selected = k" "h_key selected = ?q"
    using find_SomeD [OF sel] by (simp_all add: set_hypothesis_rows)
  have "evaluate_conclusion result (snapshots (hypothesis_rows k s) s) types (nc_criteria core) = []"
    using unmet by (simp add: unmet_criteria_def Let_def)
  from conclusion_supported [OF this] obtain sn where
    sn: "dget (snapshots (hypothesis_rows k s) s) ?q = Some sn" "hs_status sn = H_SUPPORTED" by blast
  have "find_hypothesis k ?q s = Some selected" using h by (simp add: find_hypothesis_iff [OF ok])
  then have "sn = snapshot_of s selected"
    using sn(1) snaps_ok_snapshots [OF ok, of k] by (simp add: snaps_ok_def)
  then have "h_status selected = H_SUPPORTED" using sn(2) by (simp add: snapshot_of_def)
  then show ?thesis using h get_hypothesis_iff [OF ok] by simp
qed

lemma hyp_rel_select:
  assumes ok: "hyps_ok s" and sel: "get_hypothesis j s = Some sel" "\<not> settled sel"
  shows "hyp_rel s (set_hypothesis j (selected_hypothesis clk result) s)"
proof -
  let ?f = "selected_hypothesis clk result"
  have "\<exists>h' \<in> set (hypotheses (set_hypothesis j ?f s)). evolves h h'" if h: "h \<in> set (hypotheses s)" for h
  proof -
    have "evolves h (if h_id h = j then ?f h else h)"
    proof (cases "h_id h = j")
      case True
      then have "get_hypothesis j s = Some h" using h by (simp add: get_hypothesis_iff [OF ok])
      with sel have "\<not> settled h" by simp
      then show ?thesis by (simp add: evolves_def selected_hypothesis_def)
    qed (simp add: evolves_refl)
    moreover have "(if h_id h = j then ?f h else h) \<in> set (hypotheses (set_hypothesis j ?f s))"
      using h by (auto simp: set_hypothesis_def set_update_rows)
    ultimately show ?thesis by blast
  qed
  moreover have "hyps_ok (set_hypothesis j ?f s)"
    by (rule hyps_ok_set [OF ok]) (simp add: selected_hypothesis_def)
  ultimately show ?thesis by (simp add: hyp_rel_def set_hypothesis_def grounded_hypotheses)
qed

lemma hyp_rel_complete:
  assumes run: "complete_investigation core clk k owner iter cid result s = Inr (out, s')" and ok: "hyps_ok s"
  shows "hyp_rel s s'"
  using run
proof (cases rule: complete_investigation_cases)
  case (rejected row unmet y s1)
  have "hyp_rel s1 s'" unfolding rejected(6) by (rule hyp_rel_set_investigation) simp
  then show ?thesis using relTD [OF hyp_rel_append rejected(5)] hyr.rel_trans by blast
next
  case (accepted row ids selected)
  have sel: "get_hypothesis (h_id selected) s = Some selected" "\<not> settled selected"
    using accepted_selection [OF ok accepted(5,6)] by auto
  from accepted(7) show ?thesis
  proof (cases rule: accept_conclusion_run)
    case (1 new s3 s4 y z)
    let ?s1 = "set_hypothesis (h_id selected) (selected_hypothesis clk result) s"
    let ?snaps = "snapshots (hypothesis_rows k s) s"
    have a: "hyp_rel s ?s1" by (rule hyp_rel_select [OF ok sel])
    let ?s2 = "?s1\<lparr>next_uuid := Suc (next_uuid s), rca_reports := rca_reports s @
      [accepted_report core clk row result selected new ?snaps s]\<rparr>"
    have "hyp_rel ?s1 ?s2"
      by (rule hyp_rel_untouched) (simp_all add: get_investigation_def set_hypothesis_def)
    moreover have "hyp_rel ?s2 (accepted_db core clk row result selected new ?snaps s)"
      unfolding accepted_db_def
      by (rule hyp_rel_set_investigation) (simp add: completed_def finish_investigation_def)
    ultimately show ?thesis
      using a relTD [OF hyp_rel_append 1(3)] relTD [OF hyp_rel_move 1(4)] relTD [OF hyp_rel_basic(1) 1(5)]
        hyr.rel_trans by meson
  qed
qed

end
