(* ===== verification/Investigation_Properties.thy ===== *)
theory Investigation_Properties
  imports Hypotheses
begin

text \<open>
  What holds of the investigations across histories, and the properties of the investigation commands.
\<close>

subsection \<open>Every command\<close>

definition inv_keep :: "db \<Rightarrow> db \<Rightarrow> bool" where
  "inv_keep s s' \<longleftrightarrow> prefix (investigation_steps s) (investigation_steps s') \<and>
     prefix (rca_reports s) (rca_reports s') \<and>
     (\<forall>k n. get_investigation k s = Some n \<and> \<not> open_investigation n \<longrightarrow>
        get_investigation k s' = Some n \<and> trace_of k s' = trace_of k s)"

definition inv_step :: "db \<Rightarrow> db \<Rightarrow> bool" where
  "inv_step s s' \<longleftrightarrow> (inv_ok s \<longrightarrow> inv_ok s' \<and> inv_keep s s')"

interpretation ist: tx_relation inv_step
proof unfold_locales
  show "inv_step s s" for s by (simp add: inv_step_def inv_keep_def)
  have "inv_keep s u" if "inv_keep s t" "inv_keep t u" for s t u
    using that prefix_order.trans unfolding inv_keep_def by metis
  then show "inv_step s u" if "inv_step s t" "inv_step t u" for s t u
    using that by (auto simp: inv_step_def)
qed

lemma inv_step_frame: "inv_frame s s' \<Longrightarrow> inv_step s s'"
  using inv_ok_frame [of s s']
  by (auto simp: inv_step_def inv_keep_def inv_frame_def inv_tables_def get_investigation_def trace_of_def)

lemma inv_keepI:
  assumes "others_kept k s s'" "get_investigation k s = Some row" "open_investigation row"
  shows "inv_keep s s'"
  unfolding inv_keep_def
proof (intro conjI allI impI)
  fix j n assume "get_investigation j s = Some n \<and> \<not> open_investigation n"
  then have "j \<noteq> k" "get_investigation j s = Some n" using assms(2,3) by auto
  then show "get_investigation j s' = Some n" "trace_of j s' = trace_of j s"
    using assms(1) by (simp_all add: others_kept_def)
qed (use assms(1) in \<open>simp_all add: others_kept_def\<close>)

lemma inv_step_works_on:
  assumes "works_on k s s'" "s' = s \<or> (\<exists>row. get_investigation k s = Some row \<and> open_investigation row)"
  shows "inv_step s s'"
  using assms(2)
proof
  assume "\<exists>row. get_investigation k s = Some row \<and> open_investigation row"
  then show ?thesis
    using inv_keepI [OF others_kept_works_on [OF assms(1)]] inv_ok_works_on [OF assms(1)] by (auto simp: inv_step_def)
qed (simp add: ist.rel_refl)

lemma open_running: "n_status row = Inv_INVESTIGATING \<Longrightarrow> open_investigation row"
  by (simp add: open_investigation_def OPEN_INVESTIGATION_def)

lemma fenced_step:
  assumes "relT (works_on k) (bindT (fenced k owner) m)"
  shows "relT inv_step (bindT (fenced k owner) m)"
proof (rule relTI)
  fix s x s' assume run: "bindT (fenced k owner) m s = Inr (x, s')"
  then obtain row where "get_investigation k s = Some row" "n_status row = Inv_INVESTIGATING"
    by (auto simp: fenced_Inr)
  then show "inv_step s s'"
    using inv_step_works_on [OF relTD [OF assms run]] open_running by blast
qed

lemma release_step: "inv_ok s \<Longrightarrow> release clk k owner s = Inr (x, s') \<Longrightarrow> inv_step s s'"
proof (rule inv_step_works_on)
  assume ok: "inv_ok s" and run: "release clk k owner s = Inr (x, s')"
  show "works_on k s s'" by (rule relTD [OF works_on_commands(2) run])
  obtain row where row: "get_investigation k s = Some row" "s' = s \<or> n_lease_owner row = Some owner"
    using run by (auto simp: release_def lock_investigation_def split: if_splits)
  have "open_investigation row \<or> n_lease_owner row = None"
    using ok ivg.getD [OF row(1)] by (simp add: inv_ok_def lease_ok_def)
  then show "s' = s \<or> (\<exists>row. get_investigation k s = Some row \<and> open_investigation row)"
    using row by auto
qed

lemma load_state_keeps: "load_state k s = Inr (x, s') \<Longrightarrow> s' = s"
  by (auto simp: load_state_def lock_investigation_def dest: accessible_evidence_state)

lemma claim_step:
  assumes "inv_ok s"
  shows "inv_step s (snd (claim_investigation clk k owner lease s))"
proof (rule inv_step_works_on)
  have "keys_ok (inv_keys s) (inc_key s) (next_uuid s)" using assms by (simp add: inv_ok_def)
  then have d: "distinct (map fst (inv_keys s))" by (rule keys_okD)
  then show "works_on k s (snd (claim_investigation clk k owner lease s))" by (rule works_on_claim)
  have "s' = s \<or> (\<exists>row. get_investigation k s = Some row \<and> open_investigation row)"
    if "take_lease clk k owner lease s = Inr (b, s')" for b s'
    using that by (auto simp: take_lease_def lock_investigation_def Let_def final_status_def simp flip: final_status_None
        split: if_splits)
  moreover have "snd (run_tx (load_state k) t) = t" for t
    using load_state_keeps by (auto simp: run_tx_snd split: sum.splits)
  ultimately show "snd (claim_investigation clk k owner lease s) = s \<or>
      (\<exists>row. get_investigation k s = Some row \<and> open_investigation row)"
    unfolding claim_investigation_def run_tx_def
    by (auto split: sum.splits prod.splits bool.splits dest: load_state_keeps)
qed

lemma request_step:
  assumes run: "request_investigation clk i provider name settings budget s = Inr (st, s')"
  shows "inv_step s s'"
  using run
proof (cases rule: request_investigation_cases)
  case (created row)
  have c: "create_investigation clk row provider name settings budget s = Inr (st, s')" by fact
  have "get_incident (i_id row) s = Some row" using created by simp
  note eff = create_keys [OF c this]
  then have "inv_keep s s'"
    by (auto simp: inv_keep_def get_investigation_def trace_of_def lookup_row_append)
  then show ?thesis using inv_ok_request [OF run] by (simp add: inv_step_def)
qed (simp add: ist.rel_refl)

lemma inv_step_tx: "(\<And>x s'. m s = Inr (x, s') \<Longrightarrow> inv_step s s') \<Longrightarrow> inv_step s (snd (run_tx m s))"
  using ist.rel_refl by (auto simp: run_tx_snd split: sum.splits)

lemma inv_step_exec_investigation:
  assumes "investigates c"
  shows "inv_step s (exec sys clk c s)"
proof (cases "inv_ok s")
  case ok: True
  show ?thesis
  proof (cases c)
    case (Request_investigation i provider name settings budget)
    then show ?thesis using inv_step_tx [OF request_step] by simp
  next
    case (Claim_investigation k owner lease)
    then show ?thesis using claim_step [OF ok] by simp
  next
    case (Release_investigation k owner)
    show ?thesis unfolding Release_investigation exec.simps by (rule inv_step_tx) (rule release_step [OF ok])
  next
    case (Record_step k owner r lease)
    have "relT inv_step (record_step clk k owner r lease)"
      using works_on_commands(3) unfolding record_step_def by (rule fenced_step)
    then show ?thesis using Record_step ist.rel_run_tx by simp
  next
    case (Apply_hypothesis_updates k owner iter cid batch)
    have "relT inv_step (apply_hypothesis_updates clk k owner iter cid batch)"
      using works_on_commands(4) unfolding apply_hypothesis_updates_def by (rule fenced_step)
    then show ?thesis using Apply_hypothesis_updates ist.rel_run_tx by simp
  next
    case (Complete_investigation k owner iter cid result)
    have "inv_step s s'"
      if "complete_investigation (sys_investigations sys) clk k owner iter cid result s = Inr (x, s')" for x s'
      using complete_step [OF that ok] inv_keepI open_running by (auto simp: inv_step_def)
    then show ?thesis unfolding Complete_investigation exec.simps by (rule inv_step_tx)
  next
    case (Escalate_investigation k owner iter outcome code detail why gaps cid)
    have "inv_step s s'"
      if "escalate_investigation clk k owner iter outcome code detail why gaps cid s = Inr (x, s')" for x s'
      using escalate_step [OF that ok] inv_keepI open_running by (auto simp: inv_step_def)
    then show ?thesis unfolding Escalate_investigation exec.simps by (rule inv_step_tx)
  qed (use assms in simp_all)
qed (simp add: inv_step_def)

interpretation iic: incident_commands inv_step
proof unfold_locales
  show "inv_step s s'"
    if "core_inv {} s" "ic_candidate_lookback_seconds core \<noteq> 0"
      "handle_alert_received core clk c s = Inr (r, s')" for s core clk c r s'
    by (rule inv_step_frame) (rule fic.alert_step [OF that])
qed (auto simp: relT_def intro!: inv_step_frame fic.expire_step fic.revise_step
    dest: relTD [OF fic.evidence_step] relTD [OF fic.propose_step] relTD [OF fic.decide_step] relTD [OF fic.cancel_step]
      relTD [OF fic.claim_step] relTD [OF fic.complete_step] relTD [OF fic.baseline_step] relTD [OF fic.start_step]
      relTD [OF fic.claim_due_step] relTD [OF fic.observe_step])

lemma inv_step_exec:
  assumes "well_configured sys" "core_inv {} s"
  shows "inv_step s (exec sys clk c s)"
proof (cases "investigates c")
  case False
  show ?thesis
  proof (cases "\<exists>scope on who why. c = Set_kill_switch scope on who why")
    case True
    then obtain scope on who why where c: "c = Set_kill_switch scope on who why" by blast
    have "inv_frame s (snd (run_tx (set_kill_switch clk scope on who why) s))"
      by (rule ifr.rel_run_tx [OF rif.rel_set_kill_switch])
    with c show ?thesis by (simp add: inv_step_frame)
  qed (use iic.exec_incident_command [OF assms _ False] in blast)
qed (rule inv_step_exec_investigation)

lemma inv_step_run:
  assumes "well_configured sys" "core_inv {} s"
  shows "inv_step s (run sys cs s)"
  using assms(2)
proof (induction cs arbitrary: s)
  case (Cons x cs)
  obtain clk c where x: "x = (clk, c)" by force
  have "core_inv {} (exec sys clk c s)" using run_core_inv [OF assms(1) Cons.prems, of "[x]"] x by simp
  then show ?case
    using Cons.IH inv_step_exec [OF assms(1) Cons.prems] x by (auto intro: ist.rel_trans)
qed (simp add: ist.rel_refl)

subsection \<open>The hypotheses across histories\<close>

definition hyp_step :: "db \<Rightarrow> db \<Rightarrow> bool" where
  "hyp_step s s' \<longleftrightarrow> (hyps_ok s \<longrightarrow> hyp_rel s s')"

interpretation hst: tx_relation hyp_step
proof unfold_locales
  show "hyp_step s u" if st: "hyp_step s t" "hyp_step t u" for s t u
    unfolding hyp_step_def
  proof
    assume ok: "hyps_ok s"
    then have "hyp_rel s t" "hyps_ok t" using st(1) by (auto simp: hyp_step_def hyp_rel_def)
    then show "hyp_rel s u" using st(2) hyr.rel_trans by (auto simp: hyp_step_def)
  qed
qed (simp add: hyp_step_def hyr.rel_refl)

lemma hyp_step_exec:
  assumes "well_configured sys" "core_inv {} s"
  shows "hyp_step s (exec sys clk c s)"
proof (cases "investigates c")
  case True
  note rels = hyp_rel_commands [THEN hyr.rel_run_tx] hyp_rel_request [THEN hyr.rel_run_tx]
  show ?thesis
    unfolding hyp_step_def
  proof
    assume ok: "hyps_ok s"
    have claim: "hyp_rel s (snd (claim_investigation clk k owner lease s))" for k owner lease
    proof -
      let ?s1 = "snd (run_tx (take_lease clk k owner lease) s)"
      have "snd (claim_investigation clk k owner lease s) \<in> {?s1, snd (run_tx (load_state k) ?s1)}"
        by (simp add: claim_investigation_def split: prod.splits sum.splits bool.splits)
      moreover have one: "hyp_rel s ?s1" by (rule rels)
      moreover have "hyp_rel s (snd (run_tx (load_state k) ?s1))" by (rule hyr.rel_trans [OF one]) (rule rels)
      ultimately show ?thesis by auto
    qed
    have apply': "hyp_rel s (snd (run_tx (apply_hypothesis_updates clk k owner iter cid batch) s))" for k owner iter cid batch
      using hyp_rel_apply [OF _ ok] hyr.rel_refl by (auto simp: run_tx_snd split: sum.splits)
    have complete': "hyp_rel s (snd (run_tx (complete_investigation core clk k owner iter cid result) s))"
      for core k owner iter cid result
      using hyp_rel_complete [OF _ ok] hyr.rel_refl by (auto simp: run_tx_snd split: sum.splits)
    show "hyp_rel s (exec sys clk c s)"
      by (cases c) (use True in \<open>simp_all add: rels claim apply' complete'\<close>)
  qed
next
  case False
  have "inv_frame s (exec sys clk c s)"
  proof (cases "\<exists>scope on who why. c = Set_kill_switch scope on who why")
    case True
    then show ?thesis using ifr.rel_run_tx [OF rif.rel_set_kill_switch] by auto
  qed (use fic.exec_incident_command [OF assms _ False] in blast)
  then show ?thesis by (simp add: hyp_step_def hyp_rel_frame)
qed

lemma hyp_step_run:
  assumes "well_configured sys" "core_inv {} s"
  shows "hyp_step s (run sys cs s)"
  using assms(2)
proof (induction cs arbitrary: s)
  case (Cons x cs)
  obtain clk c where x: "x = (clk, c)" by force
  have "core_inv {} (exec sys clk c s)" using run_core_inv [OF assms(1) Cons.prems, of "[x]"] x by simp
  then show ?case
    using Cons.IH hyp_step_exec [OF assms(1) Cons.prems] x by (auto intro: hst.rel_trans)
qed (simp add: hst.rel_refl)

definition inv_state :: "db \<Rightarrow> bool" where
  "inv_state s \<longleftrightarrow> core_inv {} s \<and> inv_ok s \<and> hyps_ok s"

lemma inv_state_empty: "inv_state empty_db"
  using core_inv_empty inv_ok_empty by (simp add: inv_state_def hyps_ok_def empty_db_def)

lemma inv_state_run:
  assumes "well_configured sys" "inv_state s"
  shows "inv_state (run sys cs s)" and "inv_keep s (run sys cs s)" and "hyp_rel s (run sys cs s)"
proof -
  have ok: "core_inv {} s" "inv_ok s" "hyps_ok s" using assms(2) by (simp_all add: inv_state_def)
  have i: "inv_step s (run sys cs s)" by (rule inv_step_run [OF assms(1) ok(1)])
  have h: "hyp_step s (run sys cs s)" by (rule hyp_step_run [OF assms(1) ok(1)])
  show "inv_keep s (run sys cs s)" using i ok by (simp add: inv_step_def)
  show "hyp_rel s (run sys cs s)" using h ok by (simp add: hyp_step_def)
  then show "inv_state (run sys cs s)"
    using i ok run_core_inv [OF assms(1) ok(1)] by (simp add: inv_state_def inv_step_def hyp_rel_def)
qed

subsection \<open>A sample investigation\<close>

definition sample_investigation :: investigation_row where
  "sample_investigation =
     \<lparr>n_id = 20, n_incident_id = 0, n_attempt_number = 1, n_status = Inv_INVESTIGATING,
      n_model_provider = ''p'', n_model_name = ''m'', n_model_config = [], n_budget = default_budget,
      n_iteration_count = 0, n_tool_call_count = 0, n_evidence_count = 0, n_input_tokens = 0,
      n_output_tokens = 0, n_cache_read_tokens = 0, n_cache_creation_tokens = 0, n_last_action = None,
      n_failure_reason = None, n_escalation_reason = None, n_inconclusive_reason = None,
      n_selected_hypothesis_id = None, n_final_result = None, n_lease_owner = Some ''w1'',
      n_lease_expires_at = Some 100, n_created_at = 0, n_started_at = Some 0, n_completed_at = None,
      n_updated_at = 0\<rparr>"

definition sample_evidence :: "uuid \<Rightarrow> string \<Rightarrow> evidence_ref_row" where
  "sample_evidence e ty =
     \<lparr>er_id = e, er_incident_id = 0, er_investigation_id = Some 20, er_evidence_type = ty, er_content_hash = ''c'',
      er_source_system = ''s'', er_collected_at = 0, er_registered_at = 0\<rparr>"

definition sample_hypothesis :: "uuid \<Rightarrow> string \<Rightarrow> hypothesis_status \<Rightarrow> hypothesis_row" where
  "sample_hypothesis i q st =
     \<lparr>h_id = i, h_investigation_id = 20, h_key = q, h_description = ''d'', h_status = st, h_confidence = None,
      h_missing_evidence = [], h_cause_category = Some ''deployment'', h_component = Some ''api'',
      h_created_at = 0, h_updated_at = 0\<rparr>"

definition sample_link :: "uuid \<Rightarrow> uuid \<Rightarrow> link_relation \<Rightarrow> hypothesis_evidence_link_row" where
  "sample_link h e rel = \<lparr>hl_hypothesis_id = h, hl_evidence_id = e, hl_relation = rel, hl_linked_at = 0\<rparr>"

definition sample_step :: investigation_step_row where
  "sample_step =
     \<lparr>sp_id = 25, sp_investigation_id = 20, sp_sequence = 1, sp_iteration = 0, sp_kind = CONTEXT, sp_call_id = None,
      sp_payload = [(''evidence_ids'', JList [jid 30, jid 31])], sp_latency_ms = None, sp_created_at = 0\<rparr>"

definition investigating_db :: db where
  "investigating_db = (sample_db INVESTIGATING)\<lparr>investigations := [sample_investigation],
     evidence_refs := [sample_evidence 30 ''metric'', sample_evidence 31 ''log''],
     hypotheses := [sample_hypothesis 40 ''H1'' H_SUPPORTED, sample_hypothesis 41 ''H2'' H_REJECTED],
     hypothesis_links := [sample_link 40 30 Supports, sample_link 40 31 Supports],
     investigation_steps := [sample_step], next_uuid := 50\<rparr>"

lemmas investigating_defs = investigating_db_def sample_investigation_def sample_evidence_def
  sample_hypothesis_def sample_link_def sample_step_def sample_db_def empty_db_def sample_incident_def
  sample_alert_def

lemma sample_uuids: "parse_uuid (uuid_str 30) = Some 30" "parse_uuid (uuid_str 31) = Some 31"
  by code_simp+

lemma sample_payload: "payload_evidence_ids (sp_payload sample_step) = Inr [30, 31]"
  by (simp add: payload_evidence_ids_def sample_step_def dget_def sample_uuids)

lemma sample_grounded: "e \<in> {30, 31} \<Longrightarrow> grounded 20 e investigating_db"
proof -
  assume e: "e \<in> {30, 31}"
  have s: "sample_step \<in> set (investigation_steps investigating_db)" by (simp add: investigating_db_def)
  have "sp_investigation_id sample_step = 20" "sp_kind sample_step = CONTEXT" by (simp_all add: sample_step_def)
  then have "shown_to 20 e investigating_db" using s sample_payload e by (force simp: shown_to_def)
  then show ?thesis using e
    by (auto simp: grounded_def get_investigation_def registered_evidence_def investigating_defs)
qed

lemma investigating_inv: "inv_state investigating_db"
proof -
  have "core_inv {} investigating_db"
    by (rule core_inv_cong [OF _ _ _ _ core_inv_sample_db]) (simp_all add: investigating_db_def sample_db_def)
  moreover have "inc_key investigating_db i = (if i = 0 then Some (INVESTIGATING, 1) else None)" for i
    by (simp add: inc_key_def get_incident_def investigating_defs)
  then have "keys_ok (inv_keys investigating_db) (inc_key investigating_db) (next_uuid investigating_db)"
    "reports_ok (inv_keys investigating_db) (inc_key investigating_db) (rca_keys investigating_db)"
    by (simp_all add: keys_ok_def reports_ok_def inv_key_def final_status_def rca_phase_def
        TERMINAL_INVESTIGATION_STATUSES_def investigating_defs)
  moreover have "gapless investigating_db" by (simp add: gapless_def trace_of_def investigating_defs)
  moreover have "lease_ok investigating_db"
    by (simp add: lease_ok_def open_investigation_def OPEN_INVESTIGATION_def investigating_defs)
  moreover have "hyps_ok investigating_db"
    using sample_grounded [of 30] sample_grounded [of 31]
    by (simp add: hyps_ok_def) (simp add: investigating_db_def sample_hypothesis_def sample_link_def)
  ultimately show ?thesis by (simp add: inv_state_def inv_ok_def)
qed

definition concluded_db :: db where
  "concluded_db = (sample_db RCA_READY)\<lparr>
     investigations := [sample_investigation\<lparr>n_status := Inv_COMPLETED, n_lease_owner := None\<rparr>],
     rca_reports := [new_rca_report sample_clock sample_investigation 40 45 []], next_uuid := 50\<rparr>"

lemma concluded_inv: "inv_state concluded_db"
proof -
  have "core_inv {} concluded_db"
    by (rule core_inv_cong [OF _ _ _ _ core_inv_sample_db]) (simp_all add: concluded_db_def sample_db_def)
  moreover have "inc_key concluded_db i = (if i = 0 then Some (RCA_READY, 1) else None)" for i
    by (simp add: inc_key_def get_incident_def concluded_db_def investigating_defs)
  then have "keys_ok (inv_keys concluded_db) (inc_key concluded_db) (next_uuid concluded_db)"
    "reports_ok (inv_keys concluded_db) (inc_key concluded_db) (rca_keys concluded_db)"
    by (simp_all add: keys_ok_def reports_ok_def inv_key_def final_status_def rca_phase_def new_rca_report_def
        TERMINAL_INVESTIGATION_STATUSES_def concluded_db_def investigating_defs)
  moreover have "gapless concluded_db" "lease_ok concluded_db" "hyps_ok concluded_db"
    by (simp_all add: gapless_def trace_of_def lease_ok_def hyps_ok_def concluded_db_def investigating_defs)
  ultimately show ?thesis by (simp add: inv_state_def inv_ok_def)
qed

subsection \<open>Properties\<close>

text \<open>
  C7. INVESTIGATING means exactly one open investigation. After any history of commands, an incident is
  INVESTIGATING exactly when one investigation of it is open, any other incident has none; and the attempts
  of an incident are numbered without repetition, up to its attempt count.
\<close>

theorem investigating_has_one_open_investigation:
  assumes "well_configured sys" and "inv_state s" and "get_incident i (run sys cs s) = Some row"
  shows "length (filter (\<lambda>n. n_incident_id n = i \<and> open_investigation n) (investigations (run sys cs s))) =
      (if i_status row = INVESTIGATING then 1 else 0) \<and>
    distinct (map n_attempt_number (filter (\<lambda>n. n_incident_id n = i) (investigations (run sys cs s)))) \<and>
    (\<forall>n \<in> set (investigations (run sys cs s)). n_incident_id n = i \<longrightarrow> n_attempt_number n \<le> i_attempt_count row)"
proof -
  let ?s = "run sys cs s"
  have ok: "keys_ok (inv_keys ?s) (inc_key ?s) (next_uuid ?s)"
    using inv_state_run(1) [OF assms(1,2)] by (simp add: inv_state_def inv_ok_def)
  have key: "inc_key ?s i = Some (i_status row, i_attempt_count row)" using assms(3) by (simp add: inc_key_def)
  have "inj_on (\<lambda>n. (n_incident_id n, n_attempt_number n)) (set (investigations ?s))" "distinct (investigations ?s)"
    using keys_okD(2) [OF ok] by (simp_all add: inv_key_def comp_def distinct_map)
  then have "distinct (map n_attempt_number (filter (\<lambda>n. n_incident_id n = i) (investigations ?s)))"
    by (auto simp: distinct_map inj_on_def)
  moreover have "n_attempt_number n \<le> i_attempt_count row" if "n \<in> set (investigations ?s)" "n_incident_id n = i" for n
  proof -
    have "(n_id n, i, n_attempt_number n, final_status n) \<in> set (inv_keys ?s)"
      using that by (force simp: inv_key_def)
    from keys_okD(4) [OF ok this] key show ?thesis by simp
  qed
  ultimately show ?thesis using keys_okD(5) [OF ok key] open_rows_keys [of i ?s] by simp
qed

theorem investigating_has_one_open_investigation_witness:
  "\<exists>n. filter (\<lambda>n. n_incident_id n = 0 \<and> open_investigation n)
     (investigations (run sample_system [(sample_clock, Release_investigation 20 ''w2'')] investigating_db)) = [n]"
proof -
  let ?s = "run sample_system [(sample_clock, Release_investigation 20 ''w2'')] investigating_db"
  have "get_incident 0 ?s = Some (sample_incident INVESTIGATING)"
    by (simp add: run_tx_snd release_def lock_investigation_def tx_run the_or_def get_investigation_def
        get_incident_def investigating_defs)
  from investigating_has_one_open_investigation [OF sample_system_configured investigating_inv this]
  show ?thesis by (simp add: sample_incident_def length_Suc_conv)
qed

text \<open>
  C4. No remediation without a root cause. After any history of commands, an incident that is RCA_READY,
  waits for an approval, is remediated, verified, RESOLVED or failed its verification has an RCA report,
  and that report is the outcome of a completed investigation of this incident.
\<close>

theorem remediation_needs_root_cause:
  assumes "well_configured sys" and "inv_state s" and "get_incident i (run sys cs s) = Some row"
    and "i_status row \<in> rca_phase"
  shows "\<exists>r n. r \<in> set (rca_reports (run sys cs s)) \<and> rca_incident_id r = i \<and>
    n \<in> set (investigations (run sys cs s)) \<and> n_id n = rca_investigation_id r \<and> n_incident_id n = i \<and>
    n_status n = Inv_COMPLETED"
proof -
  let ?s = "run sys cs s"
  have ok: "reports_ok (inv_keys ?s) (inc_key ?s) (rca_keys ?s)"
    using inv_state_run(1) [OF assms(1,2)] by (simp add: inv_state_def inv_ok_def)
  have key: "inc_key ?s i = Some (i_status row, i_attempt_count row)" using assms(3) by (simp add: inc_key_def)
  have "i \<in> snd ` set (rca_keys ?s)" using ok key assms(4) unfolding reports_ok_def by blast
  then obtain r where r: "r \<in> set (rca_reports ?s)" "rca_incident_id r = i" by auto
  then have "(rca_investigation_id r, i) \<in> set (rca_keys ?s)" by force
  then obtain a where "(rca_investigation_id r, i, a, Some Inv_COMPLETED) \<in> set (inv_keys ?s)"
    using ok unfolding reports_ok_def by blast
  then obtain n where "n \<in> set (investigations ?s)" "n_id n = rca_investigation_id r" "n_incident_id n = i"
    "n_status n = Inv_COMPLETED" by (auto simp: inv_key_def final_status_def split: if_splits)
  with r show ?thesis by blast
qed

theorem remediation_needs_root_cause_witness:
  "\<exists>r. r \<in> set (rca_reports (run sample_system [(sample_clock, Release_investigation 20 ''w1'')] concluded_db)) \<and>
     rca_incident_id r = 0"
proof -
  let ?s = "run sample_system [(sample_clock, Release_investigation 20 ''w1'')] concluded_db"
  have "get_incident 0 ?s = Some (sample_incident RCA_READY)"
    by (simp add: run_tx_snd release_def lock_investigation_def tx_run the_or_def get_investigation_def
        get_incident_def concluded_db_def investigating_defs)
  from remediation_needs_root_cause [OF sample_system_configured concluded_inv this]
  show ?thesis by (force simp: sample_incident_def rca_phase_def simp del: run.simps)
qed

text \<open>
  C19. A finished investigation is frozen: whatever commands run, an investigation that is COMPLETED, FAILED
  or ESCALATED keeps its row and its trace, and the trace of every investigation only grows and stays
  numbered 1, 2, 3 without a gap.
\<close>

theorem finished_investigation_frozen:
  assumes "well_configured sys" and "inv_state s" and "get_investigation k s = Some n"
  shows "(n_status n \<in> set TERMINAL_INVESTIGATION_STATUSES \<longrightarrow>
      get_investigation k (run sys cs s) = Some n \<and> trace_of k (run sys cs s) = trace_of k s) \<and>
    prefix (investigation_steps s) (investigation_steps (run sys cs s)) \<and>
    map sp_sequence (trace_of k (run sys cs s)) = map (\<lambda>m. int m + 1) [0..<length (trace_of k (run sys cs s))]"
proof -
  have "\<not> open_investigation n" if "n_status n \<in> set TERMINAL_INVESTIGATION_STATUSES"
    using that final_status_None [of n] by (simp add: final_status_def)
  then show ?thesis
    using inv_state_run(1,2) [OF assms(1,2), of cs] assms(3)
    unfolding inv_keep_def inv_state_def inv_ok_def gapless_def by blast
qed

theorem finished_investigation_frozen_witness:
  "\<exists>n. get_investigation 20 (run sample_system [(sample_clock, Claim_investigation 20 ''w2'' 60)] concluded_db) = Some n \<and>
     n_status n = Inv_COMPLETED \<and> n_lease_owner n = None"
proof -
  let ?n = "sample_investigation\<lparr>n_status := Inv_COMPLETED, n_lease_owner := None\<rparr>"
  have "get_investigation 20 concluded_db = Some ?n"
    by (simp add: get_investigation_def concluded_db_def sample_investigation_def)
  from finished_investigation_frozen [OF sample_system_configured concluded_inv this]
  show ?thesis by (auto simp: TERMINAL_INVESTIGATION_STATUSES_def simp del: run.simps)
qed

text \<open>
  C6. Evidence is never invented. After any history of commands, every evidence item linked to a hypothesis
  is registered for the incident of its investigation and listed in a context or tool-call step of the trace
  of that very investigation.
\<close>

theorem evidence_links_grounded:
  assumes "well_configured sys" and "inv_state s" and "l \<in> set (hypothesis_links (run sys cs s))"
  shows "\<exists>h n p es r. h \<in> set (hypotheses (run sys cs s)) \<and> h_id h = hl_hypothesis_id l \<and>
    get_investigation (h_investigation_id h) (run sys cs s) = Some n \<and>
    p \<in> set (investigation_steps (run sys cs s)) \<and> sp_investigation_id p = h_investigation_id h \<and>
    sp_kind p \<in> {CONTEXT, TOOL_CALL} \<and> payload_evidence_ids (sp_payload p) = Inr es \<and> hl_evidence_id l \<in> set es \<and>
    r \<in> set (evidence_refs (run sys cs s)) \<and> er_id r = hl_evidence_id l \<and> er_incident_id r = n_incident_id n"
proof -
  have "hyps_ok (run sys cs s)" using inv_state_run(1) [OF assms(1,2)] by (simp add: inv_state_def)
  then obtain h where h: "h \<in> set (hypotheses (run sys cs s))" "h_id h = hl_hypothesis_id l"
    and g: "grounded (h_investigation_id h) (hl_evidence_id l) (run sys cs s)"
    using assms(3) unfolding hyps_ok_def by blast
  obtain p es where p: "p \<in> set (investigation_steps (run sys cs s))" "sp_investigation_id p = h_investigation_id h"
    "sp_kind p \<in> {CONTEXT, TOOL_CALL}" "payload_evidence_ids (sp_payload p) = Inr es" "hl_evidence_id l \<in> set es"
    using g unfolding grounded_def shown_to_def by blast
  obtain n where n: "get_investigation (h_investigation_id h) (run sys cs s) = Some n"
    "hl_evidence_id l \<in> set (registered_evidence (n_incident_id n) (run sys cs s))"
    using g unfolding grounded_def by blast
  then obtain r where "r \<in> set (evidence_refs (run sys cs s))" "er_id r = hl_evidence_id l"
    "er_incident_id r = n_incident_id n" by (auto simp: registered_evidence_def)
  with h p n show ?thesis by blast
qed

theorem evidence_links_grounded_witness:
  "\<exists>p. p \<in> set (investigation_steps (run sample_system [(sample_clock, Release_investigation 20 ''w2'')] investigating_db)) \<and>
     sp_investigation_id p = 20 \<and> sp_kind p \<in> {CONTEXT, TOOL_CALL}"
proof -
  let ?s = "run sample_system [(sample_clock, Release_investigation 20 ''w2'')] investigating_db"
  have s: "hypothesis_links ?s = hypothesis_links investigating_db" "hypotheses ?s = hypotheses investigating_db"
    by (simp_all add: run_tx_snd release_def lock_investigation_def tx_run the_or_def get_investigation_def
        investigating_defs)
  have "sample_link 40 30 Supports \<in> set (hypothesis_links ?s)" unfolding s by (simp add: investigating_db_def)
  from evidence_links_grounded [OF sample_system_configured investigating_inv this] obtain h p where
    "h \<in> set (hypotheses ?s)" "p \<in> set (investigation_steps ?s)" "sp_investigation_id p = h_investigation_id h"
    "sp_kind p \<in> {CONTEXT, TOOL_CALL}" by blast
  then show ?thesis unfolding s by (auto simp: investigating_db_def sample_hypothesis_def simp del: run.simps)
qed

text \<open>
  C20. Hypotheses are not rewritten: whatever commands run, a hypothesis keeps its key, its category and its
  component, a REJECTED or SELECTED one keeps its status, and evidence links are only ever added.
\<close>

theorem hypotheses_not_rewritten:
  assumes "well_configured sys" and "inv_state s" and "h \<in> set (hypotheses s)"
  shows "prefix (hypothesis_links s) (hypothesis_links (run sys cs s)) \<and>
    (\<exists>h' \<in> set (hypotheses (run sys cs s)). h_id h' = h_id h \<and> h_investigation_id h' = h_investigation_id h \<and>
      h_key h' = h_key h \<and> h_cause_category h' = h_cause_category h \<and> h_component h' = h_component h \<and>
      h_status h' \<in> (if h_status h \<in> {H_REJECTED, H_SELECTED} then {h_status h} else UNIV))"
proof -
  have "hyp_rel s (run sys cs s)" "hyps_ok s"
    using inv_state_run(3) [OF assms(1,2)] assms(2) by (simp_all add: inv_state_def)
  then obtain h' where "h' \<in> set (hypotheses (run sys cs s))" "evolves h h'"
    and "prefix (hypothesis_links s) (hypothesis_links (run sys cs s))"
    using assms(3) by (auto simp: hyp_rel_def)
  then show ?thesis by (intro conjI bexI [of _ h']) (simp_all add: evolves_def)
qed

theorem hypotheses_not_rewritten_witness:
  "\<exists>h' \<in> set (hypotheses (run sample_system
       [(sample_clock, Apply_hypothesis_updates 20 ''w1'' 1 ''c'' [])] investigating_db)).
     h_key h' = ''H2'' \<and> h_status h' = H_REJECTED"
proof -
  have "sample_hypothesis 41 ''H2'' H_REJECTED \<in> set (hypotheses investigating_db)" by (simp add: investigating_db_def)
  from hypotheses_not_rewritten [OF sample_system_configured investigating_inv this,
      of "[(sample_clock, Apply_hypothesis_updates 20 ''w1'' 1 ''c'' [])]"]
  show ?thesis by (force simp: sample_hypothesis_def simp del: run.simps)
qed

text \<open>
  C21. Fencing. Once a worker has claimed an investigation, every write another worker still tries (a step of
  the trace, hypothesis updates, a conclusion, an escalation) is refused with LeaseLostError, and an
  error leaves the database unchanged.
\<close>

theorem claim_fences_others:
  assumes "claim_investigation clk k owner lease s = (Inr (Some st), s')" and "old \<noteq> owner"
    and "outcome = Inv_ESCALATED \<or> outcome = Inv_FAILED"
  shows "\<exists>msg. record_step clk' k old r lease' s' = Inl (LeaseLostError msg) \<and>
    apply_hypothesis_updates clk' k old iter cid batch s' = Inl (LeaseLostError msg) \<and>
    complete_investigation core clk' k old iter cid result s' = Inl (LeaseLostError msg) \<and>
    escalate_investigation clk' k old iter outcome code detail why gaps cid' s' = Inl (LeaseLostError msg)"
proof -
  let ?f = "\<lambda>n. n\<lparr>n_status := Inv_INVESTIGATING, n_lease_owner := Some owner,
      n_lease_expires_at := Some (clk_now clk + seconds lease),
      n_started_at := (case n_started_at n of Some t \<Rightarrow> Some t | None \<Rightarrow> Some (clk_now clk)), n_updated_at := clk_now clk\<rparr>"
  obtain s1 where t: "take_lease clk k owner lease s = Inr (True, s1)" and l: "load_state k s1 = Inr (st, s')"
    using assms(1) by (auto simp: claim_investigation_def run_tx_def split: sum.splits prod.splits bool.splits)
  have s': "s' = s1" using load_state_keeps [OF l] .
  obtain row where row: "get_investigation k s = Some row" "s1 = set_investigation k ?f s"
    using t by (auto simp: take_lease_def lock_investigation_def Let_def split: if_splits)
  have g: "get_investigation k s' = Some (?f row)"
    using row ivg.get_update_same [of ?f k s] by (simp add: s')
  obtain msg where "fenced k old s' = Inl (LeaseLostError msg)"
    using g assms(2) by (simp add: fenced_def lock_investigation_def tx_run the_or_def)
  then have "record_step clk' k old r lease' s' = Inl (LeaseLostError msg) \<and>
    apply_hypothesis_updates clk' k old iter cid batch s' = Inl (LeaseLostError msg) \<and>
    complete_investigation core clk' k old iter cid result s' = Inl (LeaseLostError msg) \<and>
    escalate_investigation clk' k old iter outcome code detail why gaps cid' s' = Inl (LeaseLostError msg)"
    using assms(3) unfolding record_step_def apply_hypothesis_updates_def complete_investigation_def
      escalate_investigation_def by (simp add: bindT_app thenT_app guardT_app)
  then show ?thesis by blast
qed

lemma sample_accessible_of:
  assumes "n_id row = 20" "n_incident_id row = 0" "investigation_steps s = investigation_steps investigating_db"
    "registered_evidence 0 s = registered_evidence 0 investigating_db"
  shows "accessible_evidence row s = Inr ([30, 31], s)"
proof -
  have reg: "registered_evidence 0 s = [30, 31]"
    unfolding assms(4) by (simp add: registered_evidence_def investigating_db_def sample_evidence_def)
  have "filter (\<lambda>p. sp_investigation_id p = 20 \<and> sp_kind p \<in> {CONTEXT, TOOL_CALL}) (investigation_steps s) =
      [sample_step]" unfolding assms(3) by (simp add: investigating_db_def sample_step_def)
  then show ?thesis by (simp add: accessible_evidence_def tx_run reg sample_payload assms(1,2))
qed

lemma sample_accessible: "accessible_evidence sample_investigation investigating_db = Inr ([30, 31], investigating_db)"
  by (rule sample_accessible_of) (simp_all add: sample_investigation_def)

text \<open>The claim of the sample investigation, for this and later witnesses.\<close>

lemma sample_claim:
  obtains st s1 row where "claim_investigation sample_clock 20 ''w1'' 60 investigating_db = (Inr (Some st), s1)"
    "is_investigation st = row" "get_investigation 20 s1 = Some row" "n_status row = Inv_INVESTIGATING"
    "n_lease_owner row = Some ''w1''" "n_incident_id row = 0" "accessible_evidence row s1 = Inr ([30, 31], s1)"
    "incidents s1 = incidents investigating_db"
proof -
  let ?now = "clk_now sample_clock"
  define f :: "investigation_row \<Rightarrow> investigation_row" where "f = (\<lambda>n. n\<lparr>n_status := Inv_INVESTIGATING, n_lease_owner := Some ''w1'',
      n_lease_expires_at := Some (?now + seconds 60),
      n_started_at := (case n_started_at n of Some t \<Rightarrow> Some t | None \<Rightarrow> Some ?now), n_updated_at := ?now\<rparr>)"
  define s1 where "s1 = set_investigation 20 f investigating_db"
  have row: "get_investigation 20 investigating_db = Some sample_investigation"
    by (simp add: get_investigation_def investigating_db_def sample_investigation_def)
  have take: "take_lease sample_clock 20 ''w1'' 60 investigating_db = Inr (True, s1)"
    using row by (simp add: take_lease_def lock_investigation_def tx_run the_or_def Let_def s1_def f_def)
      (simp add: sample_investigation_def TERMINAL_INVESTIGATION_STATUSES_def)
  have get: "get_investigation 20 s1 = Some (f sample_investigation)"
    using row ivg.get_update_same [of f 20 investigating_db] by (simp add: s1_def f_def)
  have acc: "accessible_evidence (f sample_investigation) s1 = Inr ([30, 31], s1)"
    by (rule sample_accessible_of) (simp_all add: s1_def f_def set_investigation_def registered_evidence_def sample_investigation_def)
  obtain st where st: "load_state 20 s1 = Inr (st, s1)" "is_investigation st = f sample_investigation"
    using get acc by (auto simp: load_state_def lock_investigation_def tx_run the_or_def)
  have claim: "claim_investigation sample_clock 20 ''w1'' 60 investigating_db = (Inr (Some st), s1)"
    using take st by (simp add: claim_investigation_def run_tx_def)
  have row: "n_status (f sample_investigation) = Inv_INVESTIGATING" "n_lease_owner (f sample_investigation) = Some ''w1''"
    "n_incident_id (f sample_investigation) = 0" by (simp_all add: f_def sample_investigation_def)
  have "incidents s1 = incidents investigating_db" by (simp add: s1_def set_investigation_def)
  from that [OF claim st(2) get row acc this] show thesis .
qed

theorem claim_fences_others_witness:
  "\<exists>st s' msg. claim_investigation sample_clock 20 ''w1'' 60 investigating_db = (Inr (Some st), s') \<and>
     record_step sample_clock 20 ''w2'' \<lparr>sr_kind = FEEDBACK, sr_iteration = 1, sr_payload = [], sr_call_id = None,
       sr_latency_ms = None, sr_usage = None, sr_tool_call = False, sr_new_evidence = 0, sr_last_action = None\<rparr> 60 s' =
       Inl (LeaseLostError msg)"
proof -
  obtain st s1 where claim: "claim_investigation sample_clock 20 ''w1'' 60 investigating_db = (Inr (Some st), s1)"
    by (rule sample_claim)
  have "''w2'' \<noteq> ''w1''" by simp
  from claim claim_fences_others [OF claim this, of Inv_FAILED] show ?thesis by fast
qed

text \<open>
  Requesting an investigation is idempotent: after a successful request, requesting again for the same
  incident, at any time and with any model, settings and budget, returns the same investigation with
  created = False and changes nothing.
\<close>

theorem request_investigation_idempotent:
  assumes "inv_ok s" and "request_investigation clk i provider name settings budget s = Inr (st, s')"
  shows "request_investigation clk' i provider' name' settings' budget' s' =
    Inr (\<lparr>si_investigation_id = si_investigation_id st, si_incident_id = i, si_created = False\<rparr>, s')"
proof -
  have ok: "keys_ok (inv_keys s') (inc_key s') (next_uuid s')"
    using inv_ok_request [OF assms(2,1)] by (simp add: inv_ok_def)
  obtain n where n: "n \<in> set (investigations s')" "n_incident_id n = i" "open_investigation n"
    "n_id n = si_investigation_id st"
    using assms(2)
  proof (cases rule: request_investigation_cases)
    case (existing n)
    then show thesis using that [of n] by simp
  next
    case (created row)
    have c: "create_investigation clk row provider name settings budget s = Inr (st, s')" by fact
    have r: "get_incident (i_id row) s = Some row" using created by simp
    note eff = create_keys [OF c r]
    then obtain n where n: "investigations s' = investigations s @ [n]" "n_id n = next_uuid s" "n_status n = Inv_CREATED"
      by blast
    have "inv_key n = (next_uuid s, i_id row, i_attempt_count row + 1, None)" using eff n(1) by simp
    then have "n_incident_id n = i" using created(2) by (simp add: inv_key_def)
    then show thesis using n eff by (intro that [of n]) (simp_all add: open_investigation_def OPEN_INVESTIGATION_def)
  qed
  let ?open = "filter (\<lambda>n. n_incident_id n = i \<and> open_investigation n) (investigations s')"
  have mem: "(n_id n, i, n_attempt_number n, None) \<in> set (inv_keys s')"
  proof -
    have "inv_key n = (n_id n, i, n_attempt_number n, None)" using n(2,3) by (simp add: inv_key_def final_status_None)
    with n(1) show ?thesis by (metis image_eqI list.set_map)
  qed
  have "length ?open = 1" using keys_ok_open(2) [OF ok mem] open_rows_keys [of i s'] by simp
  then obtain m where m: "?open = [m]" by (auto simp: length_Suc_conv)
  have "n \<in> set ?open" using n by simp
  with m have one: "?open = [n]" by (metis empty_set equals0D list.simps(15) insertE)
  obtain row where "get_incident i s' = Some row"
    using keys_ok_open(1) [OF ok mem] by (auto simp: inc_key_def)
  then show ?thesis
    using one n(4) by (simp add: request_investigation_def lock_incident_def tx_run the_or_def scalar_one_or_none_def)
qed

theorem request_investigation_idempotent_witness:
  "\<exists>st s'. request_investigation sample_clock 0 ''p'' ''m'' [] default_budget investigating_db = Inr (st, s') \<and>
     request_investigation sample_clock 0 ''q'' ''n'' [] default_budget s' =
       Inr (\<lparr>si_investigation_id = 20, si_incident_id = 0, si_created = False\<rparr>, s')"
proof -
  have "request_investigation sample_clock 0 ''p'' ''m'' [] default_budget investigating_db =
      Inr (\<lparr>si_investigation_id = 20, si_incident_id = 0, si_created = False\<rparr>, investigating_db)"
    by (simp add: request_investigation_def lock_incident_def tx_run the_or_def scalar_one_or_none_def get_incident_def
        open_investigation_def OPEN_INVESTIGATION_def investigating_defs)
  from request_investigation_idempotent [OF _ this] investigating_inv this show ?thesis by (simp add: inv_state_def)
qed

text \<open>
  C5. What an accepted conclusion means. The worker held the lease of a running investigation; every
  evidence item the report cites is registered for the incident and was shown to this investigation; the
  stopping criteria hold of the hypotheses as stored; and in one transaction the investigation becomes
  COMPLETED and is released, the hypothesis with the submitted key becomes SELECTED, exactly one report is
  added, and the incident moves from INVESTIGATING to RCA_READY.
\<close>

theorem accepted_conclusion_grounded:
  assumes "inv_state s" and "complete_investigation core clk k owner iter cid result s = Inr (out, s')" and "co_accepted out"
  shows "\<exists>row n' r h0 h i0 i'. get_investigation k s = Some row \<and> n_status row = Inv_INVESTIGATING \<and>
    n_lease_owner row = Some owner \<and>
    (\<forall>e \<in> set (rca_evidence_ids (fr_rca result)). shown_to k e s \<and> e \<in> set (registered_evidence (n_incident_id row) s)) \<and>
    evaluate_conclusion result (snapshots (hypothesis_rows k s) s) (evidence_types_of (n_incident_id row) s) (nc_criteria core) = [] \<and>
    get_investigation k s' = Some n' \<and> n_status n' = Inv_COMPLETED \<and> n_lease_owner n' = None \<and>
    n_selected_hypothesis_id n' = Some (h_id h) \<and>
    h0 \<in> set (hypotheses s) \<and> h_id h0 = h_id h \<and> h_status h0 = H_SUPPORTED \<and> get_hypothesis (h_id h) s' = Some h \<and>
    h_investigation_id h = k \<and> h_key h = fr_selected_hypothesis_key result \<and> h_status h = H_SELECTED \<and>
    rca_reports s' = rca_reports s @ [r] \<and> rca_investigation_id r = k \<and> rca_incident_id r = n_incident_id row \<and>
    rca_root_cause_hypothesis_id r = h_id h \<and> co_rca_report_id out = Some (rca_id r) \<and>
    get_incident (n_incident_id row) s = Some i0 \<and> i_status i0 = INVESTIGATING \<and>
    get_incident (n_incident_id row) s' = Some i' \<and> i_status i' = RCA_READY"
  using assms(2)
proof (cases rule: complete_investigation_cases)
  case (rejected row unmet y s1)
  with assms(3) show ?thesis by simp
next
  case (accepted row ids selected)
  have ok: "inv_ok s" "hyps_ok s" using assms(1) by (simp_all add: inv_state_def)
  note acc = accept_step [OF ok(1) accepted(1,2,7)]
  obtain c sel where inc: "inc_key s' = (inc_key s)(n_incident_id row \<mapsto> (RCA_READY, c))"
    and sel: "get_hypothesis (h_id selected) (set_hypothesis (h_id selected) (selected_hypothesis clk result) s) = Some sel"
    and reps: "rca_reports s' = rca_reports s @ [accepted_report core clk row result selected sel (snapshots (hypothesis_rows k s) s) s]"
    and inv': "get_investigation k s' = Some (completed clk (h_id selected) (next_uuid s) (h_key sel) (fr_confidence result) row)"
    and hyps: "hypotheses s' = hypotheses (set_hypothesis (h_id selected) (selected_hypothesis clk result) s)"
    and out: "out = \<lparr>co_accepted = True, co_unmet_criteria = [], co_rca_report_id = Some (next_uuid s)\<rparr>"
    using acc by blast
  have h0: "selected \<in> set (hypotheses s)" "h_investigation_id selected = k" "h_status selected = H_SUPPORTED"
    "h_key selected = fr_selected_hypothesis_key result" "get_hypothesis (h_id selected) s = Some selected"
    using accepted_selection [OF ok(2) accepted(5,6)] by simp_all
  have "sel = selected_hypothesis clk result selected"
    using sel h0(5) hyp.get_update_same [of "selected_hypothesis clk result" "h_id selected" s]
    by (simp add: selected_hypothesis_def)
  then have h: "h_id sel = h_id selected" "h_investigation_id sel = k" "h_key sel = fr_selected_hypothesis_key result"
    "h_status sel = H_SELECTED" using h0 by (simp_all add: selected_hypothesis_def)
  have "get_hypothesis (h_id sel) s' = Some sel" using sel hyps h(1) by (simp add: get_hypothesis_def)
  moreover have "set (rca_evidence_ids (fr_rca result)) \<subseteq> set ids"
    "evaluate_conclusion result (snapshots (hypothesis_rows k s) s) (evidence_types_of (n_incident_id row) s) (nc_criteria core) = []"
    using accepted(5) by (simp_all add: unmet_criteria_def Let_def split: if_splits)
  moreover have "shown_to k e s \<and> e \<in> set (registered_evidence (n_incident_id row) s)" if "e \<in> set ids" for e
    using accessible_grounded [OF accepted(4,1) that] accepted(1) by (simp add: grounded_def)
  moreover have "\<exists>i0. get_incident (n_incident_id row) s = Some i0 \<and> i_status i0 = INVESTIGATING"
  proof -
    have k: "keys_ok (inv_keys s) (inc_key s) (next_uuid s)" using ok(1) by (simp add: inv_ok_def)
    have "inv_key row = (k, n_incident_id row, n_attempt_number row, None)" "row \<in> set (investigations s)"
      using ivg.getD [OF accepted(1)] open_running [OF accepted(2)] by (simp_all add: inv_key_def final_status_None)
    then have "(k, n_incident_id row, n_attempt_number row, None) \<in> set (inv_keys s)" by (metis image_eqI list.set_map)
    from keys_ok_open(1) [OF k this] show ?thesis by (auto simp: inc_key_def)
  qed
  moreover have "inc_key s' (n_incident_id row) = Some (RCA_READY, c)" by (simp add: inc)
  then have "\<exists>i'. get_incident (n_incident_id row) s' = Some i' \<and> i_status i' = RCA_READY" by (auto simp: inc_key_def)
  moreover have "n_id row = k" using ivg.getD [OF accepted(1)] by simp
  ultimately show ?thesis
    using accepted(1-3) inv' reps out h h0
    by (intro exI [of _ row] exI [of _ "completed clk (h_id selected) (next_uuid s) (h_key sel) (fr_confidence result) row"]
        exI [of _ "accepted_report core clk row result selected sel (snapshots (hypothesis_rows k s) s) s"]
        exI [of _ selected] exI [of _ sel])
      (auto simp: completed_def finish_investigation_def new_rca_report_def)
qed

definition sample_conclusion :: final_investigation_result where
  "sample_conclusion =
     (let g = \<lparr>gs_text = ''t'', gs_evidence_ids = [30]\<rparr>
      in \<lparr>fr_selected_hypothesis_key = ''H1'', fr_confidence = 1,
          fr_rca = \<lparr>rd_incident_summary = g, rd_impact = g, rd_affected_services = [], rd_timeline = [],
            rd_root_cause = g, rd_contributing_factors = [], rd_contradicting_evidence = [],
            rd_unresolved_questions = [], rd_recommended_next_diagnostic_action = None\<rparr>\<rparr>)"

definition sample_investigation_core :: investigation_core where
  "sample_investigation_core = \<lparr>nc_criteria = default_criteria\<lparr>sc_min_confidence := 1 / 2\<rparr>, nc_dump_datetime = isoformat\<rparr>"

lemma sample_rows: "hypothesis_rows 20 investigating_db = [sample_hypothesis 40 ''H1'' H_SUPPORTED, sample_hypothesis 41 ''H2'' H_REJECTED]"
  by (simp add: hypothesis_rows_def investigating_db_def sample_hypothesis_def)

lemma sample_snapshots: "snapshots (hypothesis_rows 20 investigating_db) investigating_db =
   [(''H1'', snapshot_of investigating_db (sample_hypothesis 40 ''H1'' H_SUPPORTED)),
    (''H2'', snapshot_of investigating_db (sample_hypothesis 41 ''H2'' H_REJECTED))]"
  by (simp add: sample_rows snapshots_def dmerge_def, simp add: sample_hypothesis_def)

lemma sample_links: "links_of 40 Supports investigating_db = [30, 31]" "links_of 40 Contradicts investigating_db = []"
  "links_of 41 rel investigating_db = []"
  by (simp_all add: links_of_def investigating_db_def sample_link_def)

lemma sample_unmet: "unmet_criteria sample_investigation_core sample_conclusion [30, 31]
    (snapshots (hypothesis_rows 20 investigating_db) investigating_db)
    (evidence_types_of 0 investigating_db) = []"
proof -
  have "evidence_types_of 0 investigating_db = [(30, ''metric''), (31, ''log'')]"
    by (simp add: evidence_types_of_def investigating_db_def sample_evidence_def)
  then show ?thesis
    unfolding sample_snapshots
    by (simp add: unmet_criteria_def evaluate_conclusion_def dget_def sample_conclusion_def Let_def rca_evidence_ids_def
        snapshot_of_def sample_links sample_hypothesis_def sample_investigation_core_def default_criteria_def
        card_ids_def ungrounded_ids_def List.map_filter_def)
qed

theorem accepted_conclusion_grounded_witness:
  "\<exists>out s' i. complete_investigation sample_investigation_core sample_clock 20 ''w1'' 1 ''c'' sample_conclusion investigating_db =
     Inr (out, s') \<and> co_accepted out \<and> get_incident 0 s' = Some i \<and> i_status i = RCA_READY"
proof -
  let ?h = "sample_hypothesis 40 ''H1'' H_SUPPORTED"
  let ?snaps = "snapshots (hypothesis_rows 20 investigating_db) investigating_db"
  have row: "get_investigation 20 investigating_db = Some sample_investigation"
    by (simp add: get_investigation_def investigating_db_def sample_investigation_def)
  have p: "n_status sample_investigation = Inv_INVESTIGATING" "n_lease_owner sample_investigation = Some ''w1''"
    "n_incident_id sample_investigation = 0" "n_id sample_investigation = 20"
    by (simp_all add: sample_investigation_def)
  have pre: "get_hypothesis (h_id ?h) investigating_db = Some ?h"
    "n_id sample_investigation \<notin> rca_investigation_id ` set (rca_reports investigating_db)"
    "get_incident (n_incident_id sample_investigation) investigating_db = Some (sample_incident INVESTIGATING)"
    by (simp_all add: get_hypothesis_def get_incident_def investigating_defs)
  obtain out s' where acc: "accept_conclusion sample_investigation_core sample_clock sample_investigation 1 ''c''
      sample_conclusion ?h ?snaps investigating_db = Inr (out, s')" and out: "co_accepted out"
    using accept_conclusion_returns [OF pre] by blast
  have "find (\<lambda>h. h_key h = fr_selected_hypothesis_key sample_conclusion) (hypothesis_rows 20 investigating_db) = Some ?h"
    by (simp add: sample_rows sample_conclusion_def Let_def) (simp add: sample_hypothesis_def)
  then have run: "complete_investigation sample_investigation_core sample_clock 20 ''w1'' 1 ''c'' sample_conclusion investigating_db =
      Inr (out, s')"
    using row p sample_accessible sample_unmet acc
    by (simp add: complete_investigation_def fenced_def lock_investigation_def tx_run the_or_def)
  have "\<exists>i. get_incident 0 s' = Some i \<and> i_status i = RCA_READY"
    using accepted_conclusion_grounded [OF investigating_inv run out] row p by auto
  with run out show ?thesis by blast
qed

text \<open>
  A gap in the rule that a rejection needs contradicting evidence. Links are inserted with ON CONFLICT DO
  NOTHING on (hypothesis, evidence), so citing as contradicting an item that already supports the
  hypothesis passes every check, makes the hypothesis REJECTED for good, and records no contradicting
  evidence at all.
\<close>

theorem rejected_without_contradiction:
  assumes "hyps_ok s" and "find_hypothesis k (hu_key u) s = Some h" and "h_status h = H_SUPPORTED"
    and "l \<in> set (hypothesis_links s)" and "hl_hypothesis_id l = h_id h" and "hl_evidence_id l \<in> set accessible"
    and "links_of (h_id h) Contradicts s = []"
    and "u = \<lparr>hu_key = q, hu_description = None, hu_cause_category = None, hu_component = None,
      hu_status = Some Set_REJECTED, hu_confidence = None, hu_supporting_evidence_ids = [],
      hu_contradicting_evidence_ids = [hl_evidence_id l], hu_missing_evidence = None, hu_rationale = why\<rparr>"
  shows "check_hypothesis_update u (Some (snapshot_of s h)) accessible = [] \<and>
    (\<exists>snap entry s'. apply_update clk k u s = Inr ((snap, entry), s') \<and> hs_status snap = H_REJECTED \<and>
       hs_contradicting snap = [] \<and> hypothesis_links s' = hypothesis_links s)"
proof -
  let ?f = "change_hypothesis clk u"
  let ?s1 = "set_hypothesis (h_id h) ?f s"
  have conflict: "(h_id h, hl_evidence_id l) \<in> set (map (\<lambda>l. (hl_hypothesis_id l, hl_evidence_id l)) (hypothesis_links ?s1))"
    using assms(4,5) by (force simp: set_hypothesis_def)
  then have link: "link_hypothesis clk (h_id h) Contradicts (hl_evidence_id l) ?s1 = Inr ((), ?s1)"
    by (simp add: link_hypothesis_def tx_run)
  have "h \<in> set (hypotheses s)" using assms(2) by (simp add: find_hypothesis_iff [OF assms(1)])
  then have "get_hypothesis (h_id h) s = Some h" by (simp add: get_hypothesis_iff [OF assms(1)])
  then have row: "get_hypothesis (h_id h) ?s1 = Some (?f h)"
    using hyp.get_update_same [of ?f "h_id h" s] by (simp add: change_hypothesis_def)
  have "links_of (h_id (?f h)) Contradicts ?s1 = []"
    using assms(7) by (simp add: links_of_def set_hypothesis_def change_hypothesis_def)
  then have snap: "hs_contradicting (snapshot_of ?s1 (?f h)) = []" "hs_status (snapshot_of ?s1 (?f h)) = H_REJECTED"
    by (simp_all add: snapshot_of_def change_hypothesis_def assms(8))
  have run: "apply_update clk k u s = Inr ((snapshot_of ?s1 (?f h), applied_json u (Some (h_status h)) (?f h)), ?s1)"
    using assms(2) link row by (simp add: apply_update_def store_hypothesis_def tx_run the_or_def assms(8))
  have "check_hypothesis_update u (Some (snapshot_of s h)) accessible = []"
    using assms(3,6) by (simp add: check_hypothesis_update_def fixed_field_def snapshot_of_def assms(8) Let_def)
  then show ?thesis using run snap by (auto simp: set_hypothesis_def)
qed

theorem rejected_without_contradiction_witness:
  "\<exists>u snap entry s'. apply_update sample_clock 20 u investigating_db = Inr ((snap, entry), s') \<and>
     hs_key snap = ''H1'' \<and> hs_status snap = H_REJECTED \<and> hs_contradicting snap = []"
proof -
  let ?h = "sample_hypothesis 40 ''H1'' H_SUPPORTED"
  let ?u = "\<lparr>hu_key = ''H1'', hu_description = None, hu_cause_category = None, hu_component = None,
      hu_status = Some Set_REJECTED, hu_confidence = None, hu_supporting_evidence_ids = [],
      hu_contradicting_evidence_ids = [hl_evidence_id (sample_link 40 30 Supports)], hu_missing_evidence = None,
      hu_rationale = ''w''\<rparr>"
  have f: "find_hypothesis 20 (hu_key ?u) investigating_db = Some ?h"
    by (simp add: find_hypothesis_def investigating_db_def sample_hypothesis_def)
  have l: "sample_link 40 30 Supports \<in> set (hypothesis_links investigating_db)" by (simp add: investigating_db_def)
  have p: "hl_hypothesis_id (sample_link 40 30 Supports) = h_id ?h" "hl_evidence_id (sample_link 40 30 Supports) \<in> set [30]"
    "links_of (h_id ?h) Contradicts investigating_db = []" "h_status ?h = H_SUPPORTED"
    by (simp_all add: sample_link_def sample_hypothesis_def sample_links)
  have ok: "hyps_ok investigating_db" using investigating_inv by (simp add: inv_state_def)
  obtain snap entry s' where run: "apply_update sample_clock 20 ?u investigating_db = Inr ((snap, entry), s')"
    and snap: "hs_status snap = H_REJECTED" "hs_contradicting snap = []"
    using rejected_without_contradiction [OF ok f p(4) l p(1,2,3) refl, of sample_clock] by blast
  have "get_hypothesis 40 investigating_db = Some ?h" by (simp add: get_hypothesis_def investigating_db_def sample_hypothesis_def)
  moreover obtain row where row: "get_hypothesis 40 s' = Some row" "snap = snapshot_of s' row"
    using run f by (auto simp: apply_update_def store_hypothesis_def sample_hypothesis_def)
  ultimately have "h_key row = ''H1''"
    using run f hyp.get_update_same [of "change_hypothesis sample_clock ?u" 40 investigating_db]
    by (auto simp: apply_update_def store_hypothesis_def link_hypothesis_def get_hypothesis_def set_hypothesis_def
        change_hypothesis_def sample_hypothesis_def split: if_splits)
  then have "hs_key snap = ''H1''" using row by (simp add: snapshot_of_def)
  with run snap show ?thesis by blast
qed

end
