(* ===== verification/Engine_Moves.thy ===== *)
theory Engine_Moves
  imports Engine Investigation_Properties
begin

text \<open>
  What a run of the engine does to the database, whatever the model answers and the tools do. The locale
  \<open>engine_commands\<close> is the interface: a relation that holds across the investigation commands and across the
  exchanges with the outside holds across a whole run. For the relation "some history of commands leads from
  one database to the other" this says that the engine is a client of the system like any other.
\<close>

definition outside_respects :: "(db \<Rightarrow> db \<Rightarrow> bool) \<Rightarrow> 'w engine \<Rightarrow> bool" where
  "outside_respects R eng \<longleftrightarrow>
     (\<forall>p n c model req w r w'. en_model_factory eng p n c = Ready model \<longrightarrow> model req w = (r, w') \<longrightarrow>
        R (fst w) (fst w')) \<and>
     (\<forall>n w. R (fst w) (fst (en_sleep eng n w))) \<and>
     (\<forall>build state w. en_toolset_factory eng = Some build \<longrightarrow> R (fst w) (fst (snd (build state w)))) \<and>
     (\<forall>build row prior w. en_live_toolset eng = Some build \<longrightarrow> R (fst w) (fst (snd (build row prior w)))) \<and>
     (\<forall>tool args w. R (fst w) (fst (snd (en_execute eng tool args w))))"

lemma outside_respectsD:
  assumes "outside_respects R eng"
  shows "en_model_factory eng p n c = Ready model \<Longrightarrow> model req w = (r, w') \<Longrightarrow> R (fst w) (fst w')"
    and "R (fst w) (fst (en_sleep eng a w))"
    and "en_toolset_factory eng = Some build \<Longrightarrow> R (fst w) (fst (snd (build state w)))"
    and "en_live_toolset eng = Some build' \<Longrightarrow> R (fst w) (fst (snd (build' row prior w)))"
    and "R (fst w) (fst (snd (en_execute eng tool args w)))"
  using assms unfolding outside_respects_def by blast+

lemma prepared_model:
  assumes "prepare eng state w = (Inr model, w')"
  shows "\<exists>p n c. en_model_factory eng p n c = Ready model"
proof -
  let ?row = "is_investigation state"
  show ?thesis
    using assms
    by (cases "en_model_factory eng (n_model_provider ?row) (n_model_name ?row) (n_model_config ?row)")
      (auto simp: prepare_def Let_def escalateW_def)
qed

locale engine_commands = worker_relation R for R :: "db \<Rightarrow> db \<Rightarrow> bool" +
  fixes core :: investigation_core
  assumes claim_rel: "R s (snd (claim_investigation clk k owner lease s))"
    and record_rel: "R s (snd (run_tx (record_step clk k owner r lease) s))"
    and update_rel: "R s (snd (run_tx (apply_hypothesis_updates clk k owner iter cid batch) s))"
    and complete_rel: "R s (snd (run_tx (complete_investigation core clk k owner iter cid result) s))"
    and escalate_rel: "R s (snd (run_tx (escalate_investigation clk k owner iter outcome code detail why gaps cid') s))"
begin

lemma rel_serviceW: "(\<And>clk s. R s (snd (run_tx (m clk) s))) \<Longrightarrow> relW R (serviceW eng m)"
  unfolding serviceW_def by (rule rel_commandW)

lemma rel_query:
  assumes "\<And>s x s'. m s = Inr (x, s') \<Longrightarrow> s' = s"
  shows "relW R (serviceW eng (\<lambda>clk. m))"
proof (rule rel_serviceW)
  fix s
  have "snd (run_tx m s) = s" using assms [of s] by (cases "m s") (auto simp: run_tx_snd)
  then show "R s (snd (run_tx m s))" by (simp add: rel_refl)
qed

lemma rel_loadW: "relW R (loadW eng k)"
  unfolding loadW_def by (rule rel_query) (rule load_state_keeps)

lemma rel_clockW: "relW R (clockW eng)"
  unfolding clockW_def by (rule rel_askW) (auto simp: rel_refl split: prod.splits)

lemma rel_recordW: "relW R (recordW eng k r)"
  unfolding recordW_def by (intro rulesW rel_serviceW record_rel)

lemma rel_escalateW: "relW R (escalateW eng k iter outcome code detail why gaps cid)"
  unfolding escalateW_def by (intro rulesW rel_serviceW escalate_rel)

lemmas basicW = rulesW rel_loadW rel_clockW rel_recordW rel_escalateW

lemma rel_outsideW: "(\<And>w. R (fst w) (fst (snd (f w)))) \<Longrightarrow> relW R (outsideW f)"
  unfolding outsideW_def by (intro basicW rel_askW) (metis fst_conv snd_conv)

lemma rel_record_context: "relW R (record_context eng row)"
  unfolding record_context_def get_incident_view_def get_incident_with_alerts_def list_evidence_refs_def
  by (intro basicW rel_query) (auto split: option.splits)

lemma rel_enforce_limits: "relW R (enforce_limits eng state)"
  unfolding enforce_limits_def wall_clock_limit_def limitW_def by (intro basicW)

lemma rel_execute: "outside_respects R eng \<Longrightarrow> relW R (outsideW (en_execute eng tool args))"
  by (rule rel_outsideW) (rule outside_respectsD)

lemma rel_run_tools: "outside_respects R eng \<Longrightarrow> relW R (run_tools eng row iter final used requests)"
proof (induction requests arbitrary: used)
  case (Cons req reqs)
  obtain call_id tool args where req: "req = (call_id, tool, args)" by (cases req)
  show ?case unfolding req run_tools.simps by (intro basicW rel_execute Cons)
qed (simp add: basicW)

lemma rel_concludeW: "en_core eng = core \<Longrightarrow> relW R (concludeW eng k iter conclusion)"
  unfolding concludeW_def by (intro basicW rel_serviceW) (simp add: complete_rel)

lemma rel_process:
  assumes "en_core eng = core" and "outside_respects R eng"
  shows "relW R (process eng row decision iter final stop_reason)"
  unfolding process_def declareW_def update_hypothesesW_def
  by (intro basicW rel_serviceW rel_run_tools rel_concludeW update_rel assms)

lemma rel_out_of_budget: "relW R (out_of_budget eng k iter final)"
  unfolding out_of_budget_def by (intro basicW)

lemma rel_resolve_pending:
  assumes "en_core eng = core" and "outside_respects R eng"
  shows "relW R (resolve_pending eng state)"
  unfolding resolve_pending_def resume_turn_def by (intro basicW rel_process rel_out_of_budget assms)

lemma rel_model_attempts:
  assumes "outside_respects R eng" and "en_model_factory eng p n c = Ready model"
  shows "relW R (model_attempts eng model k request iter attempt left)"
proof (induction left arbitrary: attempt)
  case (Suc left)
  have ask: "relW R (askW (model request))"
    by (rule relWI) (use outside_respectsD(1) [OF assms] in \<open>auto simp: askW_def split: prod.splits\<close>)
  have nap: "relW R (askW (\<lambda>w. ((), en_sleep eng a w)))" for a
    by (rule relWI) (use outside_respectsD(2) [OF assms(1)] in \<open>auto simp: askW_def\<close>)
  show ?case unfolding model_attempts.simps by (intro basicW ask nap Suc)
qed (simp add: basicW)

lemma rel_engine_round:
  assumes "en_core eng = core" and "outside_respects R eng" and "en_model_factory eng p n c = Ready model"
  shows "relW R (engine_round eng model k)"
  unfolding engine_round_def ask_model_def call_model_def
  by (intro basicW rel_resolve_pending rel_enforce_limits rel_process rel_out_of_budget
      rel_model_attempts [OF assms(2,3)] assms)

lemma rel_new_toolset: "outside_respects R eng \<Longrightarrow> relW R (new_toolset eng state)"
  unfolding new_toolset_def
  by (cases "en_toolset_factory eng"; cases "en_live_toolset eng")
    (simp_all add: basicW rel_outsideW outside_respectsD(3,4))

lemma rel_prepare: "outside_respects R eng \<Longrightarrow> relW R (prepare eng state)"
  unfolding prepare_def
  by (cases "en_model_factory eng (n_model_provider (is_investigation state)) (n_model_name (is_investigation state))
        (n_model_config (is_investigation state))")
    (auto simp: Let_def intro!: basicW rel_record_context rel_new_toolset)

lemma rel_engine_loop:
  assumes "en_core eng = core" and "outside_respects R eng" and "en_model_factory eng p n c = Ready model"
    and "engine_loop eng model k w = Some (r, w')"
  shows "R (fst w) (fst w')"
proof -
  have "(\<lambda>(r, w'). R (fst w) (fst w')) (r, w')"
  proof (rule while_option_rule [OF _ assms(4) [unfolded engine_loop_def]])
    fix st :: "(raised + investigation_status option) \<times> 'a world"
    assume "case st of (r, w') \<Rightarrow> R (fst w) (fst w')"
    then show "case case st of (r, w) \<Rightarrow> engine_round eng model k w of (r, w') \<Rightarrow> R (fst w) (fst w')"
      using relWD [OF rel_engine_round [OF assms(1-3)]]
      by (cases st) (auto split: prod.splits intro: rel_trans)
  qed (simp add: rel_refl)
  then show ?thesis by simp
qed

lemma rel_engine_run:
  assumes "en_core eng = core" and "outside_respects R eng" and "engine_run eng k w = Some (r, w')"
  shows "R (fst w) (fst w')"
proof -
  have claim: "relW R (commandW (en_tick eng) Failed
      (\<lambda>clk. claim_investigation clk k (en_owner eng) (en_lease_seconds eng)))"
    by (rule rel_commandW) (rule claim_rel)
  show ?thesis
  proof -
    obtain c w1 where c: "commandW (en_tick eng) Failed
      (\<lambda>clk. claim_investigation clk k (en_owner eng) (en_lease_seconds eng)) w = (c, w1)" by (rule prod.exhaust)
    have first: "R (fst w) (fst w1)" using relWD [OF claim c] .
    show ?thesis
    proof (cases "\<exists>state. c = Inr (Some state)")
      case True
      then obtain state where "c = Inr (Some state)" by blast
      moreover obtain p w2 where "prepare eng state w1 = (p, w2)" by (rule prod.exhaust)
      ultimately have st: "c = Inr (Some state)" "prepare eng state w1 = (p, w2)" .
      have second: "R (fst w1) (fst w2)" using relWD [OF rel_prepare [OF assms(2)] st(2)] .
      show ?thesis
      proof (cases p)
        case (Inr model)
        then obtain r' where loop: "engine_loop eng model k w2 = Some (r', w')"
          using assms(3) st by (auto simp: engine_run_def c)
        obtain a b d where m: "en_model_factory eng a b d = Ready model"
          using prepared_model st(2) Inr by blast
        show ?thesis using rel_engine_loop [OF assms(1,2) m loop] first second by (blast intro: rel_trans)
      qed (use assms(3) st first second in \<open>auto simp: engine_run_def c intro: rel_trans\<close>)
    qed (use assms(3) first in \<open>auto simp: engine_run_def c split: sum.splits option.splits\<close>)
  qed
qed

end

text \<open>The engine as a client of the system.\<close>

interpretation hec: engine_commands "history sys" "sys_investigations sys" for sys
proof unfold_locales
  fix clk k owner lease s
  show "history sys s (snd (claim_investigation clk k owner lease s))"
    using history_exec [of sys s clk "Claim_investigation k owner lease"] by simp
next
  fix clk k owner r lease s
  show "history sys s (snd (run_tx (record_step clk k owner r lease) s))"
    using history_exec [of sys s clk "Record_step k owner r lease"] by simp
next
  fix clk k owner iter cid batch s
  show "history sys s (snd (run_tx (apply_hypothesis_updates clk k owner iter cid batch) s))"
    using history_exec [of sys s clk "Apply_hypothesis_updates k owner iter cid batch"] by simp
next
  fix clk k owner iter cid result s
  show "history sys s (snd (run_tx (complete_investigation (sys_investigations sys) clk k owner iter cid result) s))"
    using history_exec [of sys s clk "Complete_investigation k owner iter cid result"] by simp
next
  fix clk k owner iter outcome code detail why gaps cid s
  show "history sys s (snd (run_tx (escalate_investigation clk k owner iter outcome code detail why gaps cid) s))"
    using history_exec [of sys s clk "Escalate_investigation k owner iter outcome code detail why gaps cid"] by simp
qed

end
