(* ===== verification/Engine_Progress.thy ===== *)
theory Engine_Progress
  imports Engine_Moves
begin

text \<open>
  Why the engine's loop ends. While the worker holds the lease nobody else writes the investigation
  (\<open>undisturbed\<close>), so between two rounds either the iteration count has grown, or every call of the last turn
  has been answered and nothing else has changed: \<open>extends\<close> collects what a piece of a round adds to the trace.
\<close>

subsection \<open>The trace of one investigation\<close>

lemma insort_key_last: "(\<And>x. x \<in> set xs \<Longrightarrow> f x \<le> f y) \<Longrightarrow> sort_key f (xs @ [y]) = sort_key f xs @ [y]"
proof (induction xs)
  case (Cons x xs)
  have "insort_key f x (zs @ [y]) = insort_key f x zs @ [y]" if "f x \<le> f y" for zs
    using that by (induction zs) auto
  with Cons show ?case by simp
qed simp

lemma next_step_sequence_greater:
  assumes "p \<in> set (investigation_steps s)" "sp_investigation_id p = k"
  shows "sp_sequence p < next_step_sequence k s"
proof -
  have max: "q \<in> set ps \<Longrightarrow> sp_sequence q \<le> foldr (\<lambda>p m. max (sp_sequence p) m) ps 0" for q ps
    by (induction ps) auto
  have "p \<in> set (filter (\<lambda>p. sp_investigation_id p = k) (investigation_steps s))" using assms by simp
  from max [OF this] show ?thesis by (simp add: next_step_sequence_def)
qed

lemma steps_of_append:
  assumes "investigation_steps s' = investigation_steps s @ [p]" "sp_investigation_id p = k"
    "sp_sequence p = next_step_sequence k s"
  shows "steps_of k s' = steps_of k s @ [p]" "q \<in> set (steps_of k s) \<Longrightarrow> sp_sequence q < sp_sequence p"
proof -
  have less: "sp_sequence q < sp_sequence p" if "q \<in> set (investigation_steps s)" "sp_investigation_id q = k" for q
    using next_step_sequence_greater [OF that] assms(3) by simp
  then show "steps_of k s' = steps_of k s @ [p]"
    using assms(1,2) by (auto simp: steps_of_def intro!: insort_key_last less_imp_le)
  show "q \<in> set (steps_of k s) \<Longrightarrow> sp_sequence q < sp_sequence p" using less by (simp add: steps_of_def)
qed

lemma steps_of_same: "investigation_steps s' = investigation_steps s \<Longrightarrow> steps_of k s' = steps_of k s"
  by (simp add: steps_of_def)

subsection \<open>Holding an investigation\<close>

definition holds :: "uuid \<Rightarrow> string \<Rightarrow> db \<Rightarrow> bool" where
  "holds k owner s \<longleftrightarrow> (\<exists>row. get_investigation k s = Some row \<and> n_status row = Inv_INVESTIGATING \<and>
     n_lease_owner row = Some owner)"

text \<open>What the outside may do: anything, except to the investigation a worker still holds afterwards.\<close>

definition undisturbed :: "uuid \<Rightarrow> string \<Rightarrow> db \<Rightarrow> db \<Rightarrow> bool" where
  "undisturbed k owner s s' \<longleftrightarrow>
     (holds k owner s' \<longrightarrow> get_investigation k s' = get_investigation k s \<and> steps_of k s' = steps_of k s)"

definition progress_of :: "uuid \<Rightarrow> db \<Rightarrow> (int \<times> investigation_budget) option" where
  "progress_of k s = map_option (\<lambda>n. (n_iteration_count n, n_budget n)) (get_investigation k s)"

definition answers :: "investigation_step_row list \<Rightarrow> string set" where
  "answers ps = {c. \<exists>p \<in> set ps. sp_kind p \<in> set ACTION_STEP_KINDS \<and> sp_call_id p = Some c}"

lemma answers_append [simp]: "answers (ps @ qs) = answers ps \<union> answers qs"
  by (auto simp: answers_def)

text \<open>
  \<open>extends k owner calls s s'\<close>: if the lease is held at the end it was held at the start, the counters and
  the budget are the same, and the trace has grown by later steps that answer at least \<open>calls\<close> and include
  no model turn.
\<close>

definition extends :: "uuid \<Rightarrow> string \<Rightarrow> string set \<Rightarrow> db \<Rightarrow> db \<Rightarrow> bool" where
  "extends k owner calls s s' \<longleftrightarrow>
     (holds k owner s' \<longrightarrow> holds k owner s \<and> progress_of k s' = progress_of k s \<and>
        (\<exists>new. steps_of k s' = steps_of k s @ new \<and> turns_of new = [] \<and> calls \<subseteq> answers new \<and>
           (\<forall>p \<in> set new. \<forall>q \<in> set (steps_of k s). sp_sequence q < sp_sequence p)))"

lemma extendsD:
  assumes "extends k owner calls s s'" "holds k owner s'"
  obtains new where "holds k owner s" "progress_of k s' = progress_of k s" "steps_of k s' = steps_of k s @ new"
    "turns_of new = []" "calls \<subseteq> answers new"
    "\<And>p q. p \<in> set new \<Longrightarrow> q \<in> set (steps_of k s) \<Longrightarrow> sp_sequence q < sp_sequence p"
  using assms unfolding extends_def by blast

lemma extends_same:
  assumes "investigations s' = investigations s" "investigation_steps s' = investigation_steps s"
  shows "extends k owner {} s s'"
  using assms by (auto simp: extends_def holds_def progress_of_def get_investigation_def turns_of_def
      steps_of_same [OF assms(2)])

lemma extends_undisturbed: "undisturbed k owner s s' \<Longrightarrow> extends k owner {} s s'"
  by (auto simp: undisturbed_def extends_def holds_def progress_of_def turns_of_def)

lemma extends_trans:
  assumes "extends k owner A s t" "extends k owner B t u"
  shows "extends k owner (A \<union> B) s u"
  unfolding extends_def
proof
  assume h: "holds k owner u"
  obtain new2 where 2: "holds k owner t" "progress_of k u = progress_of k t" "steps_of k u = steps_of k t @ new2"
    "turns_of new2 = []" "B \<subseteq> answers new2"
    "\<And>p q. p \<in> set new2 \<Longrightarrow> q \<in> set (steps_of k t) \<Longrightarrow> sp_sequence q < sp_sequence p"
    using extendsD [OF assms(2) h] by blast
  obtain new1 where 1: "holds k owner s" "progress_of k t = progress_of k s" "steps_of k t = steps_of k s @ new1"
    "turns_of new1 = []" "A \<subseteq> answers new1"
    "\<And>p q. p \<in> set new1 \<Longrightarrow> q \<in> set (steps_of k s) \<Longrightarrow> sp_sequence q < sp_sequence p"
    using extendsD [OF assms(1) 2(1)] by blast
  show "holds k owner s \<and> progress_of k u = progress_of k s \<and>
      (\<exists>new. steps_of k u = steps_of k s @ new \<and> turns_of new = [] \<and> A \<union> B \<subseteq> answers new \<and>
         (\<forall>p \<in> set new. \<forall>q \<in> set (steps_of k s). sp_sequence q < sp_sequence p))"
    using 1 2 by (intro conjI exI [of _ "new1 @ new2"]) (auto simp: turns_of_def)
qed

lemma extends_mono: "extends k owner B s s' \<Longrightarrow> A \<subseteq> B \<Longrightarrow> extends k owner A s s'"
  unfolding extends_def by blast

lemma undisturbed_refl: "undisturbed k owner s s"
  by (simp add: undisturbed_def)

subsection \<open>The commands of the engine\<close>

text \<open>One step appended to the trace, and a change of the row that keeps its status and its lease.\<close>

lemma step_written:
  assumes g: "get_investigation k s = Some row" "n_status row = Inv_INVESTIGATING" "n_lease_owner row = Some owner"
    and step: "append_step clk k kind iter payload cid lat t = Inr (m, t')"
    and t: "investigations t = investigations s" "investigation_steps t = investigation_steps s"
    and f: "\<And>n. n_id (f n) = n_id n"
      "\<And>n. n_status (f n) = n_status n \<and> n_lease_owner (f n) = n_lease_owner n \<and> n_budget (f n) = n_budget n"
    and s': "investigations s' = update_rows n_id k f (investigations t')" "investigation_steps s' = investigation_steps t'"
  shows "holds k owner s'" "get_investigation k s' = Some (f row)"
    "\<exists>p. steps_of k s' = steps_of k s @ [p] \<and> sp_kind p = kind \<and> sp_iteration p = iter \<and> sp_call_id p = cid \<and>
       sp_payload p = payload \<and> (\<forall>q \<in> set (steps_of k s). sp_sequence q < sp_sequence p)"
proof -
  have inv: "investigations t' = investigations s" using step t by (simp add: append_step_run)
  show get: "get_investigation k s' = Some (f row)"
    using g(1) f(1) by (simp add: get_investigation_def s' inv lookup_update_rows)
  then show "holds k owner s'" using g(2,3) f(2) by (simp add: holds_def)
  have same: "next_step_sequence k t = next_step_sequence k s" by (simp add: next_step_sequence_def t)
  obtain p where p: "investigation_steps s' = investigation_steps s @ [p]" "sp_investigation_id p = k"
    "sp_sequence p = next_step_sequence k s" "sp_kind p = kind" "sp_iteration p = iter" "sp_call_id p = cid"
    "sp_payload p = payload"
    using step t s' same by (auto simp: append_step_run)
  from steps_of_append [OF p(1-3)] p(4-) show "\<exists>p. steps_of k s' = steps_of k s @ [p] \<and> sp_kind p = kind \<and>
      sp_iteration p = iter \<and> sp_call_id p = cid \<and> sp_payload p = payload \<and>
      (\<forall>q \<in> set (steps_of k s). sp_sequence q < sp_sequence p)" by blast
qed

lemma record_step_run:
  assumes "record_step clk k owner r lease s = Inr (m, s')"
  obtains row p where "get_investigation k s = Some row" "holds k owner s" "holds k owner s'"
    "get_investigation k s' = Some (count_step clk r lease row)"
    "steps_of k s' = steps_of k s @ [p]" "sp_kind p = sr_kind r" "sp_iteration p = sr_iteration r"
    "sp_call_id p = sr_call_id r" "sp_payload p = sr_payload r"
    "\<And>q. q \<in> set (steps_of k s) \<Longrightarrow> sp_sequence q < sp_sequence p"
proof -
  obtain row t' q where row: "get_investigation k s = Some row" "n_status row = Inv_INVESTIGATING"
      "n_lease_owner row = Some owner"
    and st: "append_step clk k (sr_kind r) (sr_iteration r) (sr_payload r) (sr_call_id r) (sr_latency_ms r) s = Inr (q, t')"
    and s': "s' = set_investigation k (count_step clk r lease) t'"
    using assms by (auto simp: record_step_def fenced_Inr)
  have s'': "investigations s' = update_rows n_id k (count_step clk r lease) (investigations t')"
    "investigation_steps s' = investigation_steps t'" by (simp_all add: s' set_investigation_def)
  note w = step_written [OF row st refl refl _ _ s'', unfolded count_step_def, simplified]
  have "holds k owner s" using row by (simp add: holds_def)
  then show thesis using w(3) that [OF row(1) _ w(1) w(2) [folded count_step_def]] by blast
qed

lemma hypothesis_tables_kept:
  "keepsT (\<lambda>s. (investigations s, investigation_steps s)) (apply_updates clk k acc us snaps)"
proof -
  have link: "keepsT (\<lambda>s. (investigations s, investigation_steps s)) (link_hypothesis clk h rel e)" for h rel e
    unfolding link_hypothesis_def by (intro keeps_rules keepsT_modify) simp
  have the: "keepsT f (the_or v e)" "keepsT (\<lambda>s. (investigations s, investigation_steps s)) new_uuid" for f v e
    by (auto simp: keepsT_def relT_def)
  have one: "keepsT (\<lambda>s. (investigations s, investigation_steps s)) (apply_update clk k u)" for u
    unfolding apply_update_def store_hypothesis_def
    by (intro keeps_rules link the keepsT_modify) (simp_all add: table_defs)
  show ?thesis
    by (induction us arbitrary: snaps) (auto simp: Let_def intro!: keeps_rules one)
qed

lemma update_run:
  assumes "apply_hypothesis_updates clk k owner iter cid batch s = Inr (out, s')"
  shows "holds k owner s" "extends k owner {cid} s s'"
proof -
  obtain row acc r s1 q t' f where row: "get_investigation k s = Some row" "n_status row = Inv_INVESTIGATING"
      "n_lease_owner row = Some owner"
    and up: "apply_updates clk k acc batch (snapshots (hypothesis_rows k s) s) s = Inr (r, s1)"
    and st: "append_step clk k HYPOTHESIS_UPDATE iter
      [(''applied'', JList (fst (snd r))), (''rejected'', JList (snd (snd r))),
       (''hypotheses'', JList (map (\<lambda>(_, h). snapshot_json h) (fst r)))] (Some cid) None s1 = Inr (q, t')"
    and s': "s' = set_investigation k f t'"
    and f: "f = (\<lambda>n. n\<lparr>n_last_action := Some (''update_hypotheses: '' @ str_nat (length (fst (snd r))) @ '' applied, ''
        @ str_nat (length (snd (snd r))) @ '' rejected''), n_updated_at := clk_now clk\<rparr>)"
    using assms
    by (clarsimp simp: apply_hypothesis_updates_def fenced_Inr dest!: accessible_evidence_state split: prod.splits)
  have t: "investigations s1 = investigations s" "investigation_steps s1 = investigation_steps s"
    using keepsTD [OF hypothesis_tables_kept up] by simp_all
  have s'': "investigations s' = update_rows n_id k f (investigations t')"
    "investigation_steps s' = investigation_steps t'" by (simp_all add: s' set_investigation_def)
  have fs: "n_id (f n) = n_id n" "n_status (f n) = n_status n \<and> n_lease_owner (f n) = n_lease_owner n \<and> n_budget (f n) = n_budget n"
    "n_iteration_count (f n) = n_iteration_count n" for n by (simp_all add: f)
  note w = step_written [OF row st t fs(1,2) s'']
  show h: "holds k owner s" using row by (simp add: holds_def)
  obtain p where "steps_of k s' = steps_of k s @ [p]" "sp_kind p = HYPOTHESIS_UPDATE" "sp_call_id p = Some cid"
    "\<forall>q \<in> set (steps_of k s). sp_sequence q < sp_sequence p" using w(3) by blast
  then show "extends k owner {cid} s s'"
    using h w(2) row(1) fs
    by (auto simp: extends_def progress_of_def turns_of_def answers_def ACTION_STEP_KINDS_def)
qed

lemma rejection_run:
  assumes "complete_investigation core clk k owner iter cid result s = Inr (out, s')" "\<not> co_accepted out"
  shows "holds k owner s" "extends k owner {cid} s s'"
proof -
  let ?f = "\<lambda>n. n\<lparr>n_last_action := Some ''conclusion rejected''\<rparr>"
  have "holds k owner s \<and> extends k owner {cid} s s'"
    using assms(1)
  proof (cases rule: complete_investigation_cases)
    case (rejected row unmet y s1)
    have s'': "investigations s' = update_rows n_id k ?f (investigations s1)"
      "investigation_steps s' = investigation_steps s1" by (simp_all add: rejected(6) set_investigation_def)
    note w = step_written [OF rejected(1-3,5) refl refl _ _ s'', simplified]
    have h: "holds k owner s" using rejected by (simp add: holds_def)
    obtain p where "steps_of k s' = steps_of k s @ [p]" "sp_kind p = CONCLUSION_REJECTED" "sp_call_id p = Some cid"
      "\<forall>q \<in> set (steps_of k s). sp_sequence q < sp_sequence p" using w(3) by blast
    with h w(2) rejected(1) show ?thesis
      by (auto simp: extends_def progress_of_def turns_of_def answers_def ACTION_STEP_KINDS_def)
  next
    case (accepted row ids selected)
    then show ?thesis using assms(2) by (auto elim: accept_conclusion_run)
  qed
  then show "holds k owner s" "extends k owner {cid} s s'" by blast+
qed

subsection \<open>Pieces of a round\<close>

text \<open>\<open>effW\<close>: what a piece that returns has added; \<open>heldW\<close>: a piece that returns started with the lease held.\<close>

definition effW :: "uuid \<Rightarrow> string \<Rightarrow> string set \<Rightarrow> ('w, 'x, 'a) worker \<Rightarrow> bool" where
  "effW k owner calls m \<longleftrightarrow> (\<forall>w x w'. m w = (Inr x, w') \<longrightarrow> extends k owner calls (fst w) (fst w'))"

definition heldW :: "uuid \<Rightarrow> string \<Rightarrow> ('w, 'x, 'a) worker \<Rightarrow> bool" where
  "heldW k owner m \<longleftrightarrow> (\<forall>w x w'. m w = (Inr x, w') \<longrightarrow> holds k owner (fst w))"

lemma effWD: "effW k owner calls m \<Longrightarrow> m w = (Inr x, w') \<Longrightarrow> extends k owner calls (fst w) (fst w')"
  unfolding effW_def by blast

lemma heldWD: "heldW k owner m \<Longrightarrow> m w = (Inr x, w') \<Longrightarrow> holds k owner (fst w)"
  unfolding heldW_def by blast

lemma extends_refl: "extends k owner {} s s"
  by (rule extends_same) simp_all

lemma eff_return: "effW k owner {} (returnW x)"
  by (simp add: effW_def extends_refl)

lemma eff_raise: "effW k owner calls (raiseW e)"
  by (simp add: effW_def)

lemma eff_lift: "effW k owner {} (liftW v)"
  by (simp add: effW_def extends_refl)

lemma eff_bind:
  assumes "effW k owner A m" "\<And>x. effW k owner B (f x)"
  shows "effW k owner (A \<union> B) (bindW m f)"
  unfolding effW_def
proof (intro allI impI)
  fix w x w' assume "bindW m f w = (Inr x, w')"
  then obtain y w1 where "m w = (Inr y, w1)" "f y w1 = (Inr x, w')" by auto
  then show "extends k owner (A \<union> B) (fst w) (fst w')"
    using assms by (blast intro: extends_trans dest: effWD)
qed

lemma eff_bind0:
  assumes "effW k owner {} m" "\<And>x. effW k owner B (f x)"
  shows "effW k owner B (bindW m f)"
  using eff_bind [OF assms] by simp

lemma eff_then: "effW k owner A m \<Longrightarrow> effW k owner B n \<Longrightarrow> effW k owner (A \<union> B) (thenW m n)"
  unfolding thenW_def by (rule eff_bind)

lemma eff_then0: "effW k owner {} m \<Longrightarrow> effW k owner B n \<Longrightarrow> effW k owner B (thenW m n)"
  unfolding thenW_def by (rule eff_bind0)

lemma eff_for: "(\<And>x. x \<in> set xs \<Longrightarrow> effW k owner {c x} (f x)) \<Longrightarrow> effW k owner (c ` set xs) (forW xs f)"
proof (induction xs)
  case (Cons x xs)
  then have "effW k owner ({c x} \<union> c ` set xs) (thenW (f x) (forW xs f))" by (intro eff_then) simp_all
  then show ?case by simp
qed (simp add: eff_return)

lemma eff_mono: "effW k owner B m \<Longrightarrow> A \<subseteq> B \<Longrightarrow> effW k owner A m"
  unfolding effW_def by (blast intro: extends_mono)

lemma held_raise: "heldW k owner (raiseW e)"
  by (simp add: heldW_def)

lemma held_first: "heldW k owner m \<Longrightarrow> heldW k owner (bindW m f)"
  unfolding heldW_def by fastforce

lemma held_later:
  assumes "effW k owner A m" "\<And>x. heldW k owner (f x)"
  shows "heldW k owner (bindW m f)"
  unfolding heldW_def
proof (intro allI impI)
  fix w x w' assume "bindW m f w = (Inr x, w')"
  then obtain y w1 where "m w = (Inr y, w1)" "f y w1 = (Inr x, w')" by auto
  then show "holds k owner (fst w)"
    using assms by (blast elim: extendsD dest: effWD heldWD)
qed

lemma held_then:
  assumes "effW k owner A m" "heldW k owner m \<or> heldW k owner n"
  shows "heldW k owner (thenW m n)"
  using assms held_first held_later unfolding thenW_def by metis

text \<open>The commands as pieces.\<close>

lemma serviceW_Inr:
  assumes "serviceW eng m w = (Inr x, w')"
  obtains clk where "m clk (fst w) = Inr (x, fst w')"
proof -
  obtain clk o'' s' where "run_tx (m clk) (fst w) = (Inr x, s')" "w' = (s', o'')"
    using assms by (cases w) (auto simp: serviceW_def commandW_Inr)
  then show thesis using that by (cases "m clk (fst w)") (auto simp: run_tx_def)
qed

lemma eff_query:
  assumes "\<And>s x s'. m s = Inr (x, s') \<Longrightarrow> s' = s"
  shows "effW k owner {} (serviceW eng (\<lambda>clk. m))"
  unfolding effW_def by (auto elim!: serviceW_Inr dest!: assms simp: extends_refl)

lemma eff_clock: "effW k owner {} (clockW eng)"
  by (auto simp: effW_def clockW_def askW_def extends_refl split: prod.splits)

lemma eff_load: "effW k owner {} (loadW eng j)"
  unfolding loadW_def by (rule eff_query) (rule load_state_keeps)

lemma recordW_Inr:
  assumes "recordW eng k r w = (Inr x, w')"
  obtains clk row p where "get_investigation k (fst w) = Some row" "holds k (en_owner eng) (fst w)"
    "holds k (en_owner eng) (fst w')" "get_investigation k (fst w') = Some (count_step clk r (en_lease_seconds eng) row)"
    "steps_of k (fst w') = steps_of k (fst w) @ [p]" "sp_kind p = sr_kind r" "sp_iteration p = sr_iteration r"
    "sp_call_id p = sr_call_id r" "sp_payload p = sr_payload r"
    "\<And>q. q \<in> set (steps_of k (fst w)) \<Longrightarrow> sp_sequence q < sp_sequence p"
proof -
  obtain y where "serviceW eng (\<lambda>clk. record_step clk k (en_owner eng) r (en_lease_seconds eng)) w = (Inr y, w')"
    using assms by (auto simp: recordW_def)
  then obtain clk where "record_step clk k (en_owner eng) r (en_lease_seconds eng) (fst w) = Inr (y, fst w')"
    by (rule serviceW_Inr)
  then show thesis by (rule record_step_run) (rule that)
qed

lemma held_record: "heldW k (en_owner eng) (recordW eng k r)"
  unfolding heldW_def by (auto elim: recordW_Inr)

lemma extends_record:
  assumes "recordW eng k r w = (Inr x, w')" "sr_kind r \<noteq> MODEL_TURN"
  shows "extends k (en_owner eng) (if sr_kind r \<in> set ACTION_STEP_KINDS then set_option (sr_call_id r) else {}) (fst w) (fst w')"
  using assms(1)
proof (cases rule: recordW_Inr)
  case (1 clk row p)
  then show ?thesis
    using assms(2) by (auto simp: extends_def progress_of_def turns_of_def answers_def count_step_def split: option.splits)
qed

lemma eff_record: "sr_kind r \<notin> {MODEL_TURN} \<union> set ACTION_STEP_KINDS \<Longrightarrow> effW k (en_owner eng) {} (recordW eng k r)"
  unfolding effW_def using extends_record [of eng k r] by fastforce

lemma eff_answer:
  "sr_kind r \<in> set ACTION_STEP_KINDS \<Longrightarrow> sr_call_id r = Some c \<Longrightarrow> effW k (en_owner eng) {c} (recordW eng k r)"
  unfolding effW_def using extends_record [of eng k r] by (fastforce simp: ACTION_STEP_KINDS_def)

lemma eff_escalate: "effW k owner calls (escalateW eng j iter outcome code detail why gaps cid)"
  by (simp add: effW_def escalateW_def)

lemma held_escalate: "heldW k owner (escalateW eng j iter outcome code detail why gaps cid)"
  by (simp add: heldW_def escalateW_def)

lemma eff_update: "effW k (en_owner eng) {fst call} (update_hypothesesW eng k iter call)"
  "heldW k (en_owner eng) (update_hypothesesW eng k iter call)"
  unfolding effW_def heldW_def update_hypothesesW_def
  by (auto split: prod.splits elim!: serviceW_Inr intro: update_run)

lemma eff_conclude:
  "effW k (en_owner eng) (case c of None \<Rightarrow> {} | Some call \<Rightarrow> {fst call}) (concludeW eng k iter c)"
  "c \<noteq> None \<Longrightarrow> heldW k (en_owner eng) (concludeW eng k iter c)"
  unfolding effW_def heldW_def concludeW_def
  by (auto split: option.splits prod.splits if_splits elim!: serviceW_Inr intro: rejection_run extends_refl)

subsection \<open>Carrying out a decision\<close>

lemma eff_execute:
  assumes "outside_respects (undisturbed k owner) eng"
  shows "effW k owner {} (outsideW (en_execute eng tool args))"
proof -
  have "effW k owner {} (askW (en_execute eng tool args))"
    unfolding effW_def using extends_undisturbed [OF outside_respectsD(5) [OF assms]] by (metis askW_Inr snd_conv)
  then show ?thesis unfolding outsideW_def by (intro eff_bind0 eff_lift)
qed

lemma eff_run_tools:
  assumes "outside_respects (undisturbed k (en_owner eng)) eng" "n_id row = k"
  shows "effW k (en_owner eng) (fst ` set requests) (run_tools eng row iter final used requests)"
proof (induction requests arbitrary: used)
  case (Cons req reqs)
  obtain cid tool args where req: "req = (cid, tool, args)" by (cases req)
  have answers: "effW k (en_owner eng) {cid} (recordW eng (n_id row) (refused_step iter tool args cid why))"
    "effW k (en_owner eng) {cid} (recordW eng (n_id row) (tool_step iter tool args cid out))" for why out
    unfolding assms(2) by (rule eff_answer; simp add: refused_step_def tool_step_def step_record_def ACTION_STEP_KINDS_def)+
  have "effW k (en_owner eng) ({cid} \<union> fst ` set reqs) (run_tools eng row iter final used (req # reqs))"
    unfolding req run_tools.simps
    by (cases "refusal row final tool used")
      (auto intro!: eff_bind0 [OF eff_execute [OF assms(1)]] eff_then [OF answers(1) Cons.IH, simplified]
        eff_then [OF answers(2) Cons.IH, simplified])
  then show ?case by (simp add: req)
qed (simp add: eff_return)

lemma held_run_tools:
  assumes "outside_respects (undisturbed k (en_owner eng)) eng" "n_id row = k" "requests \<noteq> []"
  shows "heldW k (en_owner eng) (run_tools eng row iter final used requests)"
proof -
  obtain cid tool args reqs where req: "requests = (cid, tool, args) # reqs" using assms(3) by (cases requests) auto
  have rec: "heldW k (en_owner eng) (thenW (recordW eng (n_id row) r) n)" for r and n :: "('a, raised, unit) worker"
    unfolding thenW_def assms(2) by (rule held_first) (rule held_record)
  show ?thesis
    unfolding req run_tools.simps
    by (cases "refusal row final tool used") (auto intro!: rec held_later [OF eff_execute [OF assms(1)]])
qed

lemma eff_declare: "effW k owner calls (declareW eng j iter (Some d))" "heldW k owner (declareW eng j iter (Some d))"
  unfolding declareW_def by (cases d, simp add: eff_escalate held_escalate)+

lemma for_held: "xs \<noteq> [] \<Longrightarrow> (\<And>x. heldW k owner (f x)) \<Longrightarrow> heldW k owner (forW xs f)"
  by (cases xs) (simp_all add: thenW_def held_first)

lemma process_pieces:
  assumes "outside_respects (undisturbed k (en_owner eng)) eng" "n_id row = k"
  shows "effW k (en_owner eng) (set (decision_call_ids d)) (process eng row d iter final why)"
    and "heldW k (en_owner eng) (process eng row d iter final why)"
proof -
  let ?o = "en_owner eng"
  let ?ups = "forW (de_hypothesis_updates d) (update_hypothesesW eng k iter)"
  let ?bad = "forW (de_invalid_calls d) (\<lambda>call. recordW eng k (invalid_step iter call))"
  let ?tools = "run_tools eng row iter final (n_evidence_count row) (de_tool_requests d)"
  let ?con = "concludeW eng k iter (de_conclusion d)"
  let ?dec = "declareW eng k iter (de_inconclusive d)"
  let ?c = "case de_conclusion d of None \<Rightarrow> {} | Some call \<Rightarrow> {fst call}"
  have invalid: "sr_kind (invalid_step iter call) = INVALID_CALL" "sr_call_id (invalid_step iter call) = Some (fst call)" for call
    by (simp_all add: invalid_step_def step_record_def split: prod.splits)
  have ups: "effW k ?o (fst ` set (de_hypothesis_updates d)) ?ups" by (rule eff_for) (rule eff_update)
  have bad: "effW k ?o (fst ` set (de_invalid_calls d)) ?bad"
    by (rule eff_for, rule eff_answer) (simp_all add: invalid ACTION_STEP_KINDS_def)
  note tools = eff_run_tools [OF assms, of "de_tool_requests d" iter final "n_evidence_count row"]
  note con = eff_conclude(1) [of k eng "de_conclusion d" iter]
  have dec: "effW k ?o (set (decision_call_ids d) \<inter> fst ` set_option (de_inconclusive d)) ?dec"
    by (cases "de_inconclusive d") (simp_all add: eff_declare, simp add: declareW_def eff_return)
  have calls: "set (decision_call_ids d) \<subseteq> fst ` set (de_hypothesis_updates d) \<union> (fst ` set (de_invalid_calls d) \<union>
      (fst ` set (de_tool_requests d) \<union> (?c \<union> (set (decision_call_ids d) \<inter> fst ` set_option (de_inconclusive d)))))"
    by (cases "de_conclusion d"; cases "de_inconclusive d") (auto simp: decision_call_ids_def)
  have none: "set (decision_call_ids d) = {}" if "\<not> has_actions d"
    using that by (cases "de_conclusion d"; cases "de_inconclusive d") (simp_all add: has_actions_def decision_call_ids_def)
  have idle: "effW k ?o {} (recordW eng k (step_record FEEDBACK iter payload))" for payload
    by (rule eff_record) (simp add: step_record_def ACTION_STEP_KINDS_def)
  show "effW k ?o (set (decision_call_ids d)) (process eng row d iter final why)"
    unfolding process_def assms(2) Let_def
    using none idle eff_mono [OF eff_then [OF ups eff_then [OF bad eff_then [OF tools eff_then [OF con dec]]]] calls]
    by simp
  have some: "de_hypothesis_updates d \<noteq> [] \<or> de_invalid_calls d \<noteq> [] \<or> de_tool_requests d \<noteq> [] \<or>
      de_conclusion d \<noteq> None \<or> de_inconclusive d \<noteq> None" if "has_actions d"
    using that by (auto simp: has_actions_def)
  have uh: "heldW k ?o ?ups" if "de_hypothesis_updates d \<noteq> []" by (rule for_held [OF that]) (rule eff_update)
  have bh: "heldW k ?o ?bad" if "de_invalid_calls d \<noteq> []" by (rule for_held [OF that]) (rule held_record)
  have dh: "heldW k ?o ?dec" if "de_inconclusive d \<noteq> None" using that by (auto simp: eff_declare)
  have "heldW k ?o (thenW ?ups (thenW ?bad (thenW ?tools (thenW ?con ?dec))))" if "has_actions d"
    using some [OF that]
  proof (elim disjE)
    assume "de_hypothesis_updates d \<noteq> []"
    from held_then [OF ups disjI1 [OF uh [OF this]]] show ?thesis .
  next
    assume "de_invalid_calls d \<noteq> []"
    from held_then [OF bad disjI1 [OF bh [OF this]]] show ?thesis by (rule held_then [OF ups disjI2])
  next
    assume "de_tool_requests d \<noteq> []"
    from held_then [OF tools disjI1 [OF held_run_tools [OF assms this]]] show ?thesis
      by (intro held_then [OF ups disjI2] held_then [OF bad disjI2])
  next
    assume "de_conclusion d \<noteq> None"
    from held_then [OF con disjI1 [OF eff_conclude(2) [OF this]]] show ?thesis
      by (intro held_then [OF ups disjI2] held_then [OF bad disjI2] held_then [OF tools disjI2])
  next
    assume "de_inconclusive d \<noteq> None"
    from held_then [OF con disjI2 [OF dh [OF this]]] show ?thesis
      by (intro held_then [OF ups disjI2] held_then [OF bad disjI2] held_then [OF tools disjI2])
  qed
  then show "heldW k ?o (process eng row d iter final why)"
    unfolding process_def assms(2) Let_def using held_record by auto
qed

lemma eff_out_of_budget: "effW k owner {} (out_of_budget eng j iter final)"
  unfolding out_of_budget_def by (cases final) (simp_all add: eff_return eff_escalate)

lemma eff_limits: "effW k owner {} (enforce_limits eng state)"
  unfolding enforce_limits_def wall_clock_limit_def limitW_def Let_def
  by (intro eff_then0) (auto intro!: eff_return eff_escalate eff_bind0 [OF eff_clock] split: option.splits)

lemma eff_call_model:
  assumes "outside_respects (undisturbed k (en_owner eng)) eng" "en_model_factory eng p n c = Ready model"
  shows "effW k (en_owner eng) {} (call_model eng model k request iter)"
proof -
  have ask: "effW k (en_owner eng) {} (askW (model request))"
    unfolding effW_def using extends_undisturbed [OF outside_respectsD(1) [OF assms]] by (metis askW_Inr)
  have nap: "effW k (en_owner eng) {} (askW (\<lambda>w. ((), en_sleep eng a w)))" for a
    unfolding effW_def using extends_undisturbed [OF outside_respectsD(2) [OF assms(1)]] by (metis askW_Inr prod.inject)
  have rec: "effW k (en_owner eng) {} (recordW eng k (step_record MODEL_ERROR iter payload))" for payload
    by (rule eff_record) (simp add: step_record_def ACTION_STEP_KINDS_def)
  have "effW k (en_owner eng) {} (model_attempts eng model k request iter a left)" for a left
  proof (induction left arbitrary: a)
    case (Suc left)
    show ?case
      unfolding model_attempts.simps
      by (rule eff_bind0 [OF ask])
        (auto intro!: eff_return eff_then0 [OF rec] eff_escalate eff_then0 [OF nap] Suc split: sum.splits)
  qed (simp add: eff_raise)
  then show ?thesis by (simp add: call_model_def)
qed

subsection \<open>A round\<close>

text \<open>Whether a trace has calls of its last turn to answer: what \<^verbatim>\<open>_resolve_pending\<close> acts on.\<close>

definition pending :: "investigation_step_row list \<Rightarrow> bool" where
  "pending steps \<longleftrightarrow> turns_of steps \<noteq> [] \<and>
     (let turn = last (turns_of steps); after = steps_after turn steps
      in case actions_in (sp_payload turn) of
           Inl e \<Rightarrow> False
         | Inr [] \<Rightarrow> filter (\<lambda>p. sp_kind p = FEEDBACK) after = []
         | Inr acts \<Rightarrow> unanswered after acts \<noteq> [])"

lemma load_Inr:
  assumes "loadW eng k w = (Inr state, w')"
  shows "fst w' = fst w" "get_investigation k (fst w) = Some (is_investigation state)"
    "is_steps state = steps_of k (fst w)" "n_id (is_investigation state) = k"
proof -
  obtain clk where run: "load_state k (fst w) = Inr (state, fst w')"
    using assms unfolding loadW_def by (rule serviceW_Inr)
  show "fst w' = fst w" by (rule load_state_keeps [OF run])
  show "get_investigation k (fst w) = Some (is_investigation state)" "is_steps state = steps_of k (fst w)"
    using run by (auto simp: load_state_def lock_investigation_def dest: accessible_evidence_state)
  then show "n_id (is_investigation state) = k" using ivg.getD by blast
qed

text \<open>After the calls of the last turn have been answered, nothing is pending.\<close>

lemma answered_not_pending:
  assumes ext: "steps' = steps @ new" "turns_of new = []" "turns_of steps \<noteq> []"
    and later: "\<And>p q. p \<in> set new \<Longrightarrow> q \<in> set steps \<Longrightarrow> sp_sequence q < sp_sequence p"
    and acts: "actions_in (sp_payload (last (turns_of steps))) = Inr acts"
    and ans: "if acts = [] then filter (\<lambda>p. sp_kind p = FEEDBACK) new \<noteq> []
      else set (map ma_call_id (unanswered (steps_after (last (turns_of steps)) steps) acts)) \<subseteq> answers new"
  shows "\<not> pending steps'"
proof -
  let ?turn = "last (turns_of steps)"
  have turns: "turns_of steps' = turns_of steps" using ext(1,2) by (simp add: turns_of_def)
  have "?turn \<in> set steps" using last_in_set [OF ext(3)] by (simp add: turns_of_def)
  then have after: "steps_after ?turn steps' = steps_after ?turn steps @ new"
    using later by (simp add: steps_after_def ext(1))
  have new: "Some c \<in> set (answered (xs @ new))" if "c \<in> answers new" for c xs
    using that by (force simp: answers_def answered_def)
  have "unanswered (steps_after ?turn steps @ new) acts = []" if "acts \<noteq> []"
  proof -
    have "Some (ma_call_id a) \<in> set (answered (steps_after ?turn steps @ new))" if a: "a \<in> set acts" for a
    proof (cases "Some (ma_call_id a) \<in> set (answered (steps_after ?turn steps))")
      case True
      then show ?thesis by (simp add: answered_def)
    next
      case False
      then have "ma_call_id a \<in> answers new" using ans \<open>acts \<noteq> []\<close> a by (auto simp: unanswered_def)
      then show ?thesis by (rule new)
    qed
    then show ?thesis by (simp add: unanswered_def)
  qed
  then show ?thesis
    using ans unfolding pending_def turns after Let_def acts by (cases acts) auto
qed

lemma resolve_pending_False:
  assumes "resolve_pending eng state w = (Inr False, w')"
  shows "w' = w"
  using assms by (auto simp: resolve_pending_def resume_turn_def Let_def split: if_splits)

lemma resolve_pending_True:
  assumes out: "outside_respects (undisturbed k (en_owner eng)) eng" and id: "n_id (is_investigation state) = k"
    and steps: "is_steps state = steps_of k (fst w)"
    and run: "resolve_pending eng state w = (Inr True, w')"
  shows "holds k (en_owner eng) (fst w)" "pending (steps_of k (fst w))"
    "holds k (en_owner eng) (fst w') \<Longrightarrow> progress_of k (fst w') = progress_of k (fst w) \<and> \<not> pending (steps_of k (fst w'))"
proof -
  let ?steps = "steps_of k (fst w)" and ?o = "en_owner eng" and ?row = "is_investigation state"
  let ?turn = "last (turns_of ?steps)"
  let ?after = "steps_after ?turn ?steps"
  have turns: "turns_of ?steps \<noteq> []" using run steps by (auto simp: resolve_pending_def)
  obtain acts where acts: "actions_in (sp_payload ?turn) = Inr acts"
    and rest: "(if acts = [] then
        (if filter (\<lambda>p. sp_kind p = FEEDBACK) ?after \<noteq> [] then returnW False
         else thenW (process eng ?row empty_decision (sp_iteration ?turn) None
                       (get_or (sp_payload ?turn) ''stop_reason'' (JStr ''end_turn''))) (returnW True))
      else if unanswered ?after acts = [] then returnW False
      else resume_turn eng state ?turn (unanswered ?after acts)) w = (Inr True, w')"
    using run turns steps by (auto simp: resolve_pending_def Let_def simp del: thenW_Inr)
  have goal: "holds k ?o (fst w) \<and> pending ?steps \<and>
      (holds k ?o (fst w') \<longrightarrow> progress_of k (fst w') = progress_of k (fst w) \<and> \<not> pending (steps_of k (fst w')))"
  proof (cases "acts = []")
    case True
    then have none: "filter (\<lambda>p. sp_kind p = FEEDBACK) ?after = []" using rest by (auto split: if_splits)
    then have "recordW eng k (step_record FEEDBACK (sp_iteration ?turn)
        [(''text'', JStr (no_action_text (get_or (sp_payload ?turn) ''stop_reason'' (JStr ''end_turn'')))),
         (''reason'', JStr ''no_action'')]) w = (Inr (), w')"
      using rest True by (auto simp: process_def id has_actions_def empty_decision_def Let_def)
    then show ?thesis
    proof (cases rule: recordW_Inr)
      case (1 clk row p)
      have "pending ?steps" using turns acts True none by (simp add: pending_def Let_def)
      moreover have "\<not> pending (steps_of k (fst w'))"
        by (rule answered_not_pending [OF 1(5) _ turns _ acts])
          (use 1(6,10) True in \<open>auto simp: step_record_def turns_of_def\<close>)
      ultimately show ?thesis
        using 1(1,2,4) by (simp add: progress_of_def count_step_def step_record_def)
    qed
  next
    case False
    let ?un = "unanswered ?after acts"
    have un: "?un \<noteq> []" using rest False by (auto split: if_splits)
    then have pend: "pending ?steps" using turns acts False by (cases acts) (simp_all add: pending_def Let_def)
    have resume: "resume_turn eng state ?turn ?un w = (Inr True, w')" using rest False un by simp
    then obtain said w1 where pr: "process eng ?row (interpret_turn (en_validators eng) said ?un EVIDENCE_TOOL_NAMES)
        (sp_iteration ?turn) (final_turn_reason ?row (sp_iteration ?turn) True) (JStr ''tool_use'') w = (Inr (), w1)"
      and ob: "out_of_budget eng k (sp_iteration ?turn) (final_turn_reason ?row (sp_iteration ?turn) True) w1 = (Inr (), w')"
      by (auto simp: resume_turn_def Let_def id)
    let ?d = "interpret_turn (en_validators eng) said ?un EVIDENCE_TOOL_NAMES"
    have calls: "set (decision_call_ids ?d) = set (map ma_call_id ?un)"
      using interpret_turn_calls by (metis set_mset_mset)
    have ext: "extends k ?o (set (map ma_call_id ?un)) (fst w) (fst w')"
      using extends_trans [OF effWD [OF process_pieces(1) [OF out id] pr] effWD [OF eff_out_of_budget ob]] calls by simp
    have "\<not> pending (steps_of k (fst w')) \<and> progress_of k (fst w') = progress_of k (fst w)" if h: "holds k ?o (fst w')"
    proof -
      obtain new where new: "progress_of k (fst w') = progress_of k (fst w)" "steps_of k (fst w') = ?steps @ new"
        "turns_of new = []" "set (map ma_call_id ?un) \<subseteq> answers new"
        "\<And>p q. p \<in> set new \<Longrightarrow> q \<in> set ?steps \<Longrightarrow> sp_sequence q < sp_sequence p"
        by (rule extendsD [OF ext h]) (rule that)
      have "if acts = [] then filter (\<lambda>p. sp_kind p = FEEDBACK) new \<noteq> [] else set (map ma_call_id ?un) \<subseteq> answers new"
        using new(4) False by simp
      note np = answered_not_pending [OF new(2,3) turns new(5) acts this]
      show ?thesis by (rule conjI [OF np new(1)])
    qed
    then show ?thesis using heldWD [OF process_pieces(2) [OF out id] pr] pend by blast
  qed
  then show "holds k ?o (fst w)" "pending ?steps"
    "holds k ?o (fst w') \<Longrightarrow> progress_of k (fst w') = progress_of k (fst w) \<and> \<not> pending (steps_of k (fst w'))"
    by blast+
qed

text \<open>A round that asks the model raises the iteration count by one, and only below the budget.\<close>

lemma limits_below:
  assumes "enforce_limits eng state w = (Inr x, w')"
  shows "n_iteration_count (is_investigation state) < bg_max_iterations (n_budget (is_investigation state))"
  using assms by (auto simp: enforce_limits_def limitW_def escalateW_def Let_def split: if_splits)

lemma limits_keep: "enforce_limits eng state w = (Inr x, w') \<Longrightarrow> fst w' = fst w"
  by (auto simp: enforce_limits_def wall_clock_limit_def limitW_def escalateW_def clockW_def askW_def Let_def
      split: if_splits option.splits prod.splits)

lemma ask_model_steps:
  assumes out: "outside_respects (undisturbed k (en_owner eng)) eng" "en_model_factory eng p n c = Ready model"
    and row: "get_investigation k (fst w) = Some (is_investigation state)" "n_id (is_investigation state) = k"
    and run: "ask_model eng model state w = (Inr x, w')"
  shows "holds k (en_owner eng) (fst w)"
    "holds k (en_owner eng) (fst w') \<Longrightarrow> progress_of k (fst w') =
       Some (n_iteration_count (is_investigation state) + 1, n_budget (is_investigation state))"
proof -
  let ?o = "en_owner eng" and ?row = "is_investigation state"
  let ?it = "n_iteration_count ?row + 1"
  let ?fin = "final_turn_reason ?row ?it False"
  obtain y1 w1 w2 st' tr w3 turn w4 y4 w5 y5 w6 where
    fb: "recordW eng k (step_record FEEDBACK ?it [(''text'', JStr (budget_notice ?row ?it ?fin)), (''reason'', JStr ''budget'')]) w = (Inr y1, w1)"
    and ld: "loadW eng k w1 = (Inr st', w2)"
    and cm: "call_model eng model k \<lparr>dr_system_prompt = en_system_prompt eng, dr_tools = en_definitions eng, dr_transcript = tr\<rparr>
        ?it w2 = (Inr turn, w4)"
    and rt: "recordW eng k (turn_step ?it turn) w4 = (Inr y4, w5)"
    and pr: "process eng (is_investigation st') (interpret_turn (en_validators eng) (mt_text turn) (mt_actions turn) EVIDENCE_TOOL_NAMES)
        ?it ?fin (JStr (mt_stop_reason turn)) w5 = (Inr y5, w6)"
    and ob: "out_of_budget eng k ?it ?fin w6 = (Inr x, w')"
    using run unfolding ask_model_def Let_def row(2) by (simp only: thenW_Inr bindW_Inr liftW_Inr) metis
  have "effW k ?o {} (recordW eng k (step_record FEEDBACK ?it payload))" for payload
    by (rule eff_record) (simp add: step_record_def ACTION_STEP_KINDS_def)
  then have e1: "extends k ?o {} (fst w) (fst w1)" using fb by (rule effWD)
  have e2: "extends k ?o {} (fst w1) (fst w4)"
    using extends_trans [OF effWD [OF eff_load ld] effWD [OF eff_call_model [OF out] cm]] by simp
  have id: "n_id (is_investigation st') = k" by (rule load_Inr(4) [OF ld])
  have e3: "extends k ?o {} (fst w5) (fst w')"
    using extends_mono [OF extends_trans [OF effWD [OF process_pieces(1) [OF out(1) id] pr] effWD [OF eff_out_of_budget ob]]]
    by simp
  show "holds k ?o (fst w)" using heldWD [OF held_record fb] .
  show "progress_of k (fst w') = Some (?it, n_budget ?row)" if h: "holds k ?o (fst w')"
    using rt
  proof (cases rule: recordW_Inr)
    case (1 clk row' q)
    have "progress_of k (fst w4) = progress_of k (fst w)"
      using extends_trans [OF e1 e2] 1(2) unfolding extends_def by simp
    then have "n_iteration_count row' = n_iteration_count ?row" "n_budget row' = n_budget ?row"
      using 1(1) row(1) by (simp_all add: progress_of_def)
    then have "progress_of k (fst w5) = Some (?it, n_budget ?row)"
      using 1(4) by (simp add: progress_of_def count_step_def turn_step_def step_record_def)
    moreover have "progress_of k (fst w') = progress_of k (fst w5)" using e3 h unfolding extends_def by simp
    ultimately show ?thesis by simp
  qed
qed

text \<open>
  The measure: rounds left to ask the model, twice, and one more while calls are pending; zero once the lease
  is lost, for then the next write fails.
\<close>

definition rounds_left :: "uuid \<Rightarrow> string \<Rightarrow> db \<Rightarrow> nat" where
  "rounds_left k owner s =
     (if holds k owner s then
        (case progress_of k s of None \<Rightarrow> 0
         | Some (it, budget) \<Rightarrow>
             Suc (2 * nat (bg_max_iterations budget + 1 - it) + (if pending (steps_of k s) then 1 else 0)))
      else 0)"

lemma round_decreases:
  assumes out: "outside_respects (undisturbed k (en_owner eng)) eng" "en_model_factory eng p n c = Ready model"
    and run: "engine_round eng model k w = (Inr None, w')"
  shows "rounds_left k (en_owner eng) (fst w') < rounds_left k (en_owner eng) (fst w)"
proof -
  obtain state w1 resumed w2 where ld: "loadW eng k w = (Inr state, w1)"
    and rp: "resolve_pending eng state w1 = (Inr resumed, w2)"
    and rest: "(if resumed then returnW None
      else thenW (enforce_limits eng state) (thenW (ask_model eng model state) (returnW None))) w2 =
        (Inr (None :: investigation_status option), w')"
    using run by (auto simp: engine_round_def split: if_splits)
  note l = load_Inr [OF ld]
  let ?o = "en_owner eng" and ?row = "is_investigation state"
  have prog: "progress_of k (fst w) = Some (n_iteration_count ?row, n_budget ?row)"
    using l(2) by (simp add: progress_of_def)
  show ?thesis
  proof (cases resumed)
    case True
    then have w': "w' = w2" using rest by simp
    have "is_steps state = steps_of k (fst w1)" using l(1,3) by simp
    moreover have "resolve_pending eng state w1 = (Inr True, w2)" using rp True by simp
    ultimately have r: "holds k ?o (fst w)" "pending (steps_of k (fst w))"
      "holds k ?o (fst w2) \<Longrightarrow> progress_of k (fst w2) = progress_of k (fst w) \<and> \<not> pending (steps_of k (fst w2))"
      using resolve_pending_True [OF out(1) l(4)] l(1) by metis+
    show ?thesis
    proof (cases "holds k ?o (fst w')")
      case h: True
      then have "progress_of k (fst w') = progress_of k (fst w)" "\<not> pending (steps_of k (fst w'))"
        using r(3) w' by simp_all
      with h r(1,2) prog show ?thesis by (simp add: rounds_left_def)
    qed (use r(1) prog in \<open>simp add: rounds_left_def\<close>)
  next
    case False
    have w2: "w2 = w1" using resolve_pending_False [of eng state w1 w2] rp False by simp
    obtain y3 w3 y4 where lim: "enforce_limits eng state w2 = (Inr y3, w3)"
      and ask: "ask_model eng model state w3 = (Inr y4, w')"
      using rest False by auto
    have same: "fst w3 = fst w" using limits_keep [OF lim] w2 l(1) by simp
    have "get_investigation k (fst w3) = Some ?row" using l(2) same by simp
    note a = ask_model_steps [OF out this l(4) ask, unfolded same]
    have below: "n_iteration_count ?row < bg_max_iterations (n_budget ?row)" by (rule limits_below [OF lim])
    show ?thesis
    proof (cases "holds k ?o (fst w')")
      case True
      have "nat (bg_max_iterations (n_budget ?row) + 1 - n_iteration_count ?row) =
          Suc (nat (bg_max_iterations (n_budget ?row) - n_iteration_count ?row))" using below by simp
      with True a prog show ?thesis by (simp add: rounds_left_def)
    qed (use a(1) prog in \<open>simp add: rounds_left_def\<close>)
  qed
qed

lemma engine_loop_ends:
  assumes "outside_respects (undisturbed k (en_owner eng)) eng" "en_model_factory eng p n c = Ready model"
  shows "\<exists>y. engine_loop eng model k w = Some y"
  unfolding engine_loop_def
proof (rule measure_while_option_Some [where P = "\<lambda>_. True" and
    f = "\<lambda>(r, w). if r = Inr None then Suc (rounds_left k (en_owner eng) (fst w)) else 0"])
  fix st :: "(raised + investigation_status option) \<times> 'a world"
  assume b: "case st of (r, w) \<Rightarrow> r = Inr None"
  obtain r w1 where st: "st = (r, w1)" by (cases st)
  obtain r' w2 where rd: "engine_round eng model k w1 = (r', w2)" by (rule prod.exhaust)
  show "True \<and> (case case st of (r, w) \<Rightarrow> engine_round eng model k w of
        (r, w) \<Rightarrow> if r = Inr None then Suc (rounds_left k (en_owner eng) (fst w)) else 0)
      < (case st of (r, w) \<Rightarrow> if r = Inr None then Suc (rounds_left k (en_owner eng) (fst w)) else 0)"
    using b round_decreases [OF assms, of w1 w2] rd by (simp add: st)
qed simp

lemma engine_run_ends:
  assumes "outside_respects (undisturbed k (en_owner eng)) eng"
  shows "\<exists>r w'. engine_run eng k w = Some (r, w')"
proof -
  have "\<exists>y. engine_run eng k w = Some y"
    unfolding engine_run_def
    by (auto split: prod.splits sum.splits option.splits dest!: prepared_model) (metis engine_loop_ends [OF assms] surj_pair)
  then show ?thesis by auto
qed

end
