(* ===== verification/Engine_Properties.thy ===== *)
theory Engine_Properties
  imports Engine_Progress
begin

text \<open>
  Properties of a run of the investigation engine: it ends, its outcome is the recorded one, it acts only
  through commands, a resumed turn answers what was left open, and what was recorded is replayed exactly.
\<close>

subsection \<open>How a run stops\<close>

definition ended :: "uuid \<Rightarrow> investigation_status \<Rightarrow> db \<Rightarrow> bool" where
  "ended k st s \<longleftrightarrow> st \<in> set TERMINAL_INVESTIGATION_STATUSES \<and>
     (\<exists>row. get_investigation k s = Some row \<and> n_status row = st)"

lemma escalate_ends:
  assumes "escalate_investigation clk k owner iter outcome code detail why gaps cid s = Inr (x, s')"
  shows "ended k outcome s'"
proof -
  obtain row final s3 s4 y z where out: "outcome \<in> {Inv_ESCALATED, Inv_FAILED}"
    and row: "get_investigation k s = Some row"
    and s3: "append_step clk k OUTCOME iter [(''status'', JStr (investigation_status_value outcome)),
        (''reason_code'', JStr code), (''detail'', JStr (take 2000 detail))] cid None
        (set_investigation k (escalated clk outcome code detail why final) s) = Inr (y, s3)"
    and mv: "move_investigated clk (n_incident_id row) ESCALATED (''investigation_'' @ code) s3 = Inr (z, s4)"
    and s4: "insert_outbox_event clk InvestigationFailed Investigation (Agg_id k) (Some (n_incident_id row))
       (InvestigationFailedPayload k (n_incident_id row) outcome code) s4 = Inr ((), s')"
    using assms by (clarsimp simp: escalate_investigation_def fenced_Inr dest!: accessible_evidence_state)
  have "n_id (escalated clk outcome code detail why final n) = n_id n" for n
    by (simp add: escalated_def finish_investigation_def Let_def)
  then have "get_investigation k (set_investigation k (escalated clk outcome code detail why final) s) =
      Some (escalated clk outcome code detail why final row)"
    using ivg.get_update_same row by (metis option.map(2))
  moreover have "investigations s' = investigations (set_investigation k (escalated clk outcome code detail why final) s)"
    using s3 s4 move_tables [OF mv] by (auto simp: append_step_run insert_outbox_event_app inv_tables_def)
  ultimately show ?thesis
    using out by (auto simp: ended_def get_investigation_def escalated_def finish_investigation_def Let_def
        TERMINAL_INVESTIGATION_STATUSES_def)
qed

lemma accept_ends:
  assumes "accept_conclusion core clk row iter cid result sel0 snaps s = Inr (out, s')"
    and "get_investigation k s = Some row"
  shows "ended k Inv_COMPLETED s'"
  using assms(1)
proof (cases rule: accept_conclusion_run)
  case (1 sel s3 s4 y z)
  have id: "n_id row = k" using ivg.getD [OF assms(2)] by simp
  let ?f = "completed clk (h_id sel0) (next_uuid s) (h_key sel) (fr_confidence result)"
  let ?t = "(set_hypothesis (h_id sel0) (selected_hypothesis clk result) s)
        \<lparr>next_uuid := Suc (next_uuid s),
         rca_reports := rca_reports s @ [accepted_report core clk row result sel0 sel snaps s]\<rparr>"
  have f: "n_id (?f n) = n_id n" for n by (simp add: completed_def finish_investigation_def)
  have "get_investigation k ?t = Some row"
    using assms(2) by (simp add: get_investigation_def set_hypothesis_def)
  then have "get_investigation k (set_investigation k ?f ?t) = Some (?f row)"
    using ivg.get_update_same [of ?f k ?t, OF f] by simp
  moreover have "investigations s' = investigations (set_investigation k ?f ?t)"
    using 1(3,5) move_tables [OF 1(4)] by (auto simp: append_step_run insert_outbox_event_app inv_tables_def accepted_db_def id)
  ultimately show ?thesis
    by (simp add: ended_def get_investigation_def completed_def finish_investigation_def TERMINAL_INVESTIGATION_STATUSES_def)
qed

text \<open>\<open>stopsW k m\<close>: when \<open>m\<close> raises \<^verbatim>\<open>_Stop\<close>, the investigation has ended with that status.\<close>

definition stopsW :: "uuid \<Rightarrow> ('w, raised, 'a) worker \<Rightarrow> bool" where
  "stopsW k m \<longleftrightarrow> (\<forall>w st w'. m w = (Inl (Stopped st), w') \<longrightarrow> ended k st (fst w'))"

lemma stopsWD: "stopsW k m \<Longrightarrow> m w = (Inl (Stopped st), w') \<Longrightarrow> ended k st (fst w')"
  unfolding stopsW_def by blast

lemma stops_basic: "stopsW k (returnW x)" "stopsW k (raiseW (Failed e))" "stopsW k (clockW eng)" "stopsW k (askW f)"
  by (simp_all add: stopsW_def clockW_def)

lemma stops_bind: "stopsW k m \<Longrightarrow> (\<And>x. stopsW k (f x)) \<Longrightarrow> stopsW k (bindW m f)"
  unfolding stopsW_def bindW_Inl by blast

lemma stops_then: "stopsW k m \<Longrightarrow> stopsW k n \<Longrightarrow> stopsW k (thenW m n)"
  unfolding thenW_def by (rule stops_bind)

lemma stops_for: "(\<And>x. stopsW k (f x)) \<Longrightarrow> stopsW k (forW xs f)"
  by (induction xs) (simp_all add: stops_basic stops_then)

lemma stops_lift: "(\<And>st. v \<noteq> Inl (Stopped st)) \<Longrightarrow> stopsW k (liftW v)"
  by (simp add: stopsW_def)

lemma stops_cases:
  "stopsW k m \<Longrightarrow> stopsW k n \<Longrightarrow> stopsW k (if b then m else n)"
  "stopsW k m \<Longrightarrow> (\<And>x. stopsW k (f x)) \<Longrightarrow> stopsW k (case v of None \<Rightarrow> m | Some x \<Rightarrow> f x)"
  "(\<And>x. stopsW k (f x)) \<Longrightarrow> (\<And>y. stopsW k (g y)) \<Longrightarrow> stopsW k (case u of Inl x \<Rightarrow> f x | Inr y \<Rightarrow> g y)"
  "(\<And>x y. stopsW k (h x y)) \<Longrightarrow> stopsW k (case p of (x, y) \<Rightarrow> h x y)"
  "(\<And>x. stopsW k (f x)) \<Longrightarrow> stopsW k (let x = z in f x)"
  by (simp_all split: option.split sum.split prod.split)

lemma stops_service: "stopsW k (serviceW eng m)"
  unfolding stopsW_def serviceW_def by (auto simp: commandW_def split: prod.splits sum.splits)

lemma serviceW_run:
  assumes "serviceW eng m w = (Inr x, w')"
  obtains clk where "m clk (fst w) = Inr (x, fst w')"
  using assms by (rule serviceW_Inr)

lemma stops_escalate: "stopsW k (escalateW eng k iter outcome code detail why gaps cid)"
  unfolding stopsW_def escalateW_def thenW_Inl
proof (intro allI impI, elim disjE exE conjE)
  fix w st w'
  let ?m = "\<lambda>clk. escalate_investigation clk k (en_owner eng) iter outcome code detail why gaps cid"
  assume "serviceW eng ?m w = (Inl (Stopped st), w')"
  then show "ended k st (fst w')" by (rule stopsWD [OF stops_service])
next
  fix w st w' y w1
  let ?m = "\<lambda>clk. escalate_investigation clk k (en_owner eng) iter outcome code detail why gaps cid"
  assume run: "serviceW eng ?m w = (Inr y, w1)" and stop: "raiseW (Stopped outcome) w1 = (Inl (Stopped st), w')"
  obtain clk where "?m clk (fst w) = Inr (y, fst w1)" using run by (rule serviceW_Inr)
  with stop show "ended k st (fst w')" by (auto dest: escalate_ends)
qed

lemma stops_load: "stopsW k (loadW eng j)"
  unfolding loadW_def by (rule stops_service)

lemma stops_record: "stopsW k (recordW eng j r)"
  unfolding recordW_def by (rule stops_bind [OF stops_service]) (rule stops_basic)

lemma stops_failed: "stopsW k (liftW (map_sum Failed id r))"
  by (rule stops_lift) (cases r; simp)

lemma stops_outside: "stopsW k (outsideW f)"
  unfolding outsideW_def by (rule stops_bind [OF stops_basic(4) stops_failed])

lemmas stops_rules = stops_basic stops_bind stops_then stops_for stops_cases stops_service stops_escalate stops_load
  stops_record stops_outside

lemma stops_conclude: "stopsW k (concludeW eng k iter c)"
proof (cases c)
  case (Some call)
  obtain cid result where call: "call = (cid, result)" by (cases call)
  show ?thesis
    unfolding Some call concludeW_def stopsW_def option.case prod.case bindW_Inl
  proof (intro allI impI, elim disjE exE conjE)
    fix w st w'
    assume "serviceW eng (\<lambda>clk. complete_investigation (en_core eng) clk k (en_owner eng) iter cid result) w =
      (Inl (Stopped st), w')"
    then show "ended k st (fst w')" by (rule stopsWD [OF stops_service])
  next
    fix w st w' out w1
    assume run: "serviceW eng (\<lambda>clk. complete_investigation (en_core eng) clk k (en_owner eng) iter cid result) w =
        (Inr out, w1)"
      and stop: "(if co_accepted out then raiseW (Stopped Inv_COMPLETED) else returnW ()) w1 = (Inl (Stopped st), w')"
    have acc: "co_accepted out" "st = Inv_COMPLETED" "w' = w1" using stop by (auto split: if_splits)
    obtain clk where "complete_investigation (en_core eng) clk k (en_owner eng) iter cid result (fst w) = Inr (out, fst w1)"
      using run by (rule serviceW_Inr)
    then show "ended k st (fst w')"
      by (cases rule: complete_investigation_cases) (use acc in \<open>auto intro: accept_ends\<close>)
  qed
qed (simp add: concludeW_def stops_basic)

lemma stops_run_tools: "stopsW k (run_tools eng row iter final used reqs)"
proof (induction reqs arbitrary: used)
  case (Cons req reqs)
  obtain cid tool args where req: "req = (cid, tool, args)" by (cases req)
  show ?case unfolding req run_tools.simps by (intro stops_rules Cons)
qed (simp add: stops_basic)

lemma stops_process: "n_id row = k \<Longrightarrow> stopsW k (process eng row d iter final why)"
  unfolding process_def declareW_def update_hypothesesW_def Let_def
  by (simp only:) (intro stops_rules stops_run_tools stops_conclude)

lemma stops_out_of_budget: "stopsW k (out_of_budget eng k iter final)"
  unfolding out_of_budget_def by (intro stops_rules)

text \<open>Reading a payload can fail, but never stops the run.\<close>

definition unstopped :: "raised + 'a \<Rightarrow> bool" where
  "unstopped v \<longleftrightarrow> (\<forall>st. v \<noteq> Inl (Stopped st))"

lemma unstopped_basic:
  "unstopped (Inr x)" "unstopped (Inl (Failed e))" "unstopped (Inl (KeyError key))"
  by (simp_all add: unstopped_def)

lemma unstopped_bind: "unstopped v \<Longrightarrow> (\<And>x. unstopped (f x)) \<Longrightarrow> unstopped (bindE v f)"
  by (cases v) (simp_all add: unstopped_def)

lemma unstopped_map: "(\<And>x. unstopped (f x)) \<Longrightarrow> unstopped (mapE f xs)"
  by (induction xs) (simp_all add: unstopped_basic unstopped_bind)

lemma unstopped_read:
  "unstopped (key_of d key)" "unstopped (item_of j key)" "unstopped (iter_of j)" "unstopped (len_of j)"
  "unstopped (str_of j)" "unstopped (action_of j)"
  by (auto simp: unstopped_def key_of_def item_of_def iter_of_def len_of_def str_of_def action_of_def
      split: json.split option.split)

lemmas unstopped_rules = unstopped_basic unstopped_bind unstopped_map unstopped_read

lemma unstopped_actions: "unstopped (actions_in d)"
  unfolding actions_in_def by (intro unstopped_rules)

lemma unstopped_prior: "unstopped (prior_calls ps)"
  unfolding prior_calls_def by (intro unstopped_rules)

lemma unstopped_observation: "unstopped (observation_for p)"
proof -
  have "unstopped (join_of sep j)" "unstopped (applied_entry j)" "unstopped (hypothesis_entry j)" for sep j
    unfolding join_of_def applied_entry_def hypothesis_entry_def by (intro unstopped_rules)+
  then show ?thesis
    by (simp add: observation_for_def update_observation_def Let_def unstopped_rules)
qed

lemma unstopped_transcript: "unstopped (build_transcript ps)"
proof -
  have one: "unstopped (transcript_step st p)" for st p
    by (simp add: transcript_step_def Let_def unstopped_rules unstopped_actions unstopped_observation split: prod.split)
  have "unstopped (transcript_steps st ps)" for st
    by (induction ps arbitrary: st) (simp_all add: unstopped_rules one)
  then show ?thesis unfolding build_transcript_def by (intro unstopped_rules)
qed

lemma stops_read: "unstopped v \<Longrightarrow> stopsW k (liftW v)"
  by (rule stops_lift) (simp add: unstopped_def)

lemma stops_resolve:
  assumes "n_id (is_investigation state) = k"
  shows "stopsW k (resolve_pending eng state)"
  unfolding resolve_pending_def resume_turn_def Let_def assms
  by (intro stops_rules stops_read stops_process stops_out_of_budget unstopped_actions unstopped_read assms)

lemma stops_limits:
  assumes "n_id (is_investigation state) = k"
  shows "stopsW k (enforce_limits eng state)"
  unfolding enforce_limits_def wall_clock_limit_def limitW_def Let_def assms by (intro stops_rules)

lemma stops_model_attempts: "stopsW k (model_attempts eng model k request iter attempt left)"
  by (induction left arbitrary: attempt) (auto intro!: stops_rules split: sum.split)

lemma load_same: "loadW eng k w = (Inr state, w') \<Longrightarrow> n_id (is_investigation state) = k"
  by (auto dest: load_Inr)

lemma stops_loaded:
  assumes "\<And>state. n_id (is_investigation state) = k \<Longrightarrow> stopsW k (f state)"
  shows "stopsW k (bindW (loadW eng k) f)"
  unfolding stopsW_def bindW_Inl using stopsWD [OF stops_load] stopsWD [OF assms] load_same by metis

lemma stops_round: "stopsW k (engine_round eng model k)"
proof -
  have ask: "stopsW k (ask_model eng model state)" if "n_id (is_investigation state) = k" for state
    unfolding ask_model_def call_model_def Let_def that
    by (intro stops_then stops_record stops_loaded stops_bind stops_read unstopped_transcript stops_model_attempts
        stops_process stops_out_of_budget)
  show ?thesis
    unfolding engine_round_def
    by (intro stops_loaded stops_cases(1) stops_basic stops_bind stops_resolve stops_then stops_limits ask)
qed

lemma stops_prepare:
  assumes "n_id (is_investigation state) = k"
  shows "stopsW k (prepare eng state)"
proof -
  have ctx: "stopsW k (record_context eng row)" for row
    unfolding record_context_def by (intro stops_rules stops_read) (simp_all add: unstopped_def split: option.split)
  have tools: "stopsW k (new_toolset eng st)" for st
    unfolding new_toolset_def by (intro stops_rules stops_read unstopped_prior)
  show ?thesis
    unfolding prepare_def Let_def assms
    by (cases "en_model_factory eng (n_model_provider (is_investigation state)) (n_model_name (is_investigation state))
          (n_model_config (is_investigation state))")
      (simp_all, (intro conjI impI stops_rules ctx tools)+)
qed

lemma claim_loads:
  assumes "claim_investigation clk k owner lease s = (Inr (Some state), s')"
  obtains s1 where "load_state k s1 = Inr (state, s')"
proof -
  obtain r1 s1 where 1: "run_tx (take_lease clk k owner lease) s = (r1, s1)" by (rule prod.exhaust)
  obtain r2 s2 where 2: "run_tx (load_state k) s1 = (r2, s2)" by (rule prod.exhaust)
  have "r2 = Inr state" "s2 = s'"
    using assms 1 2 by (auto simp: claim_investigation_def split: sum.splits bool.splits)
  with 2 have "load_state k s1 = Inr (state, s')" by (cases "load_state k s1") (auto simp: run_tx_def)
  then show thesis by (rule that)
qed

lemma claimed_state:
  assumes "commandW tick Failed (\<lambda>clk. claim_investigation clk k owner lease) w = (Inr (Some state), w')"
  shows "n_id (is_investigation state) = k"
proof -
  obtain clk s s' where "claim_investigation clk k owner lease s = (Inr (Some state), s')"
    using assms by (cases w) (auto simp: commandW_Inr)
  then obtain s1 where "load_state k s1 = Inr (state, s')" by (rule claim_loads)
  then have "get_investigation k s1 = Some (is_investigation state)"
    by (auto simp: load_state_def lock_investigation_def)
  then show ?thesis using ivg.getD by blast
qed

lemma settled:
  assumes "settle r = Inr (Some st)"
  shows "r = Inl (Stopped st) \<or> r = Inr (Some st)"
  using assms by (auto simp: settle_def split: sum.splits raised.splits error.splits)

lemma round_outcome:
  assumes "engine_round eng model k w = (Inr (Some st), w')"
  shows "ended k st (fst w')"
proof -
  obtain state w1 where ld: "loadW eng k w = (Inr state, w1)"
    and rest: "(if n_status (is_investigation state) \<in> set TERMINAL_INVESTIGATION_STATUSES
       then returnW (Some (n_status (is_investigation state)))
       else
         bindW (resolve_pending eng state) (\<lambda>resumed.
           if resumed then returnW None
           else thenW (enforce_limits eng state) (thenW (ask_model eng model state) (returnW None)))) w1 = (Inr (Some st), w')"
    using assms unfolding engine_round_def bindW_Inr by blast
  show ?thesis
  proof (cases "n_status (is_investigation state) \<in> set TERMINAL_INVESTIGATION_STATUSES")
    case True
    with rest load_Inr [OF ld] show ?thesis by (simp add: ended_def)
  next
    case False
    with rest show ?thesis by (auto split: if_splits)
  qed
qed

lemma loop_outcome:
  assumes "engine_loop eng model k w = Some (r, w')" "settle r = Inr (Some st)"
  shows "ended k st (fst w')"
proof -
  let ?P = "\<lambda>(r, w). \<forall>st. r = Inl (Stopped st) \<or> r = Inr (Some st) \<longrightarrow> ended k st (fst w)"
  have "?P (r, w')"
  proof (rule while_option_rule [OF _ assms(1) [unfolded engine_loop_def]])
    fix x :: "(raised + investigation_status option) \<times> 'a world"
    obtain r1 w1 where x: "x = (r1, w1)" by (rule prod.exhaust)
    obtain r2 w2 where rd: "engine_round eng model k w1 = (r2, w2)" by (rule prod.exhaust)
    show "?P (case x of (r, w) \<Rightarrow> engine_round eng model k w)"
      unfolding x prod.case rd
    proof (intro allI impI, elim disjE)
      fix st assume "r2 = Inl (Stopped st)"
      with rd have "engine_round eng model k w1 = (Inl (Stopped st), w2)" by simp
      then show "ended k st (fst w2)" by (rule stopsWD [OF stops_round])
    next
      fix st assume "r2 = Inr (Some st)"
      with rd have "engine_round eng model k w1 = (Inr (Some st), w2)" by simp
      then show "ended k st (fst w2)" by (rule round_outcome)
    qed
  qed simp
  with settled [OF assms(2)] show ?thesis by auto
qed

lemma run_outcome:
  assumes "engine_run eng k w = Some (Inr (Some st), w')"
  shows "ended k st (fst w')"
proof -
  obtain c w1 where cl: "commandW (en_tick eng) Failed
      (\<lambda>clk. claim_investigation clk k (en_owner eng) (en_lease_seconds eng)) w = (c, w1)"
    by (rule prod.exhaust)
  from assms cl obtain state where c: "c = Inr (Some state)"
    by (auto simp: engine_run_def split: sum.splits option.splits)
  have id: "n_id (is_investigation state) = k" using cl unfolding c by (rule claimed_state)
  obtain p w2 where pr: "prepare eng state w1 = (p, w2)" by (rule prod.exhaust)
  show ?thesis
  proof (cases p)
    case (Inl e)
    then have "settle (Inl e) = Inr (Some st)" "w' = w2" using assms cl pr c by (simp_all add: engine_run_def)
    then have "prepare eng state w1 = (Inl (Stopped st), w')" using settled [of "Inl e" st] pr Inl by simp
    then show ?thesis by (rule stopsWD [OF stops_prepare [OF id]])
  next
    case (Inr model)
    then obtain r w3 where "engine_loop eng model k w2 = Some (r, w3)" "settle r = Inr (Some st)" "w' = w3"
      using assms cl pr c by (auto simp: engine_run_def)
    then show ?thesis using loop_outcome by blast
  qed
qed

subsection \<open>A sample engine\<close>

lemma escalate_returns:
  assumes "outcome = Inv_ESCALATED \<or> outcome = Inv_FAILED" "get_investigation k s = Some row"
    "n_status row = Inv_INVESTIGATING" "n_lease_owner row = Some owner" "accessible_evidence row s = Inr (ids, s)"
    "get_incident (n_incident_id row) s = Some incident"
  shows "\<exists>s'. escalate_investigation clk k owner iter outcome code detail why gaps cid s = Inr ((), s')"
proof -
  have f: "fenced k owner s = Inr (row, s)" using assms by (simp add: fenced_Inr)
  have g: "get_incident i (s1\<lparr>next_uuid := u, investigation_steps := p\<rparr>) = get_incident i s1"
    "get_incident i (set_investigation k a s1) = get_incident i s1" for i a u p s1
    by (simp_all add: get_incident_def set_investigation_def)
  show ?thesis
    unfolding escalate_investigation_def
    using assms(1,5,6) by (simp add: f g append_step_run move_investigated_eq insert_outbox_event_app)
qed

definition sample_engine :: "unit model_setup \<Rightarrow> unit engine" where
  "sample_engine setup =
     \<lparr>en_owner = ''w1'', en_lease_seconds = 60, en_retry_attempts = 3, en_core = sys_investigations sample_system,
      en_validators = \<lparr>tv_batch = \<lambda>_. Inl [], tv_result = \<lambda>_. Inl [], tv_declaration = \<lambda>_. Inl []\<rparr>,
      en_system_prompt = ''p'', en_definitions = [], en_tick = \<lambda>_. (sample_clock, ()), en_sleep = \<lambda>_ w. w,
      en_model_factory = \<lambda>_ _ _. setup, en_toolset_factory = Some (\<lambda>_ w. (Inr (), w)), en_live_toolset = None,
      en_execute = \<lambda>_ _ w. (Inl (ValueError ''no tool''), w), en_build_context = \<lambda>_ _ _ _. JObj []\<rparr>"

definition busy_model :: "unit model_setup" where
  "busy_model = Ready (\<lambda>_ w. (Inl \<lparr>me_code = ''overloaded'', me_message = ''m'', me_retryable = True\<rparr>, w))"

lemma busy_respects:
  assumes "\<And>s. R s s"
  shows "outside_respects R (sample_engine busy_model)"
  using assms by (auto simp: outside_respects_def sample_engine_def busy_model_def)

lemma sample_engine_fails:
  "\<exists>w'. engine_run (sample_engine (Bad_config ''no key'')) 20 (investigating_db, ()) = Some (Inr (Some Inv_FAILED), w')"
proof -
  obtain st s1 row where claim: "claim_investigation sample_clock 20 ''w1'' 60 investigating_db = (Inr (Some st), s1)"
    and row: "is_investigation st = row" "get_investigation 20 s1 = Some row" "n_status row = Inv_INVESTIGATING"
      "n_lease_owner row = Some ''w1''" "n_incident_id row = 0" "accessible_evidence row s1 = Inr ([30, 31], s1)"
      "incidents s1 = incidents investigating_db"
    by (rule sample_claim)
  have "get_incident (n_incident_id row) s1 = Some (sample_incident INVESTIGATING)"
    using row(5,7) by (simp add: get_incident_def investigating_db_def sample_db_def sample_incident_def)
  then obtain s2 where "escalate_investigation sample_clock 20 ''w1'' (n_iteration_count row) Inv_FAILED
      ''model_config_error'' (take 300 ''no key'') None None None s1 = Inr ((), s2)"
    using escalate_returns [OF disjI2 [OF refl] row(2-4,6)] by blast
  moreover have "n_id row = 20" using ivg.getD [OF row(2)] by simp
  ultimately show ?thesis
    using claim row(1)
    by (simp add: engine_run_def sample_engine_def commandW_def prepare_def escalateW_def serviceW_def thenW_app
        raiseW_def run_tx_def settle_def)
qed

subsection \<open>Properties\<close>

text \<open>
  C22. A run of the engine ends. The loop has no bound of its own; it ends because every round raises the
  iteration count or answers the calls left open, and the limits are checked before the model is asked, under
  the assumption that nobody else changes an investigation while the worker holds its lease.
\<close>

theorem engine_terminates:
  assumes "outside_respects (undisturbed k (en_owner eng)) eng"
  shows "\<exists>r w'. engine_run eng k w = Some (r, w')"
  by (rule engine_run_ends [OF assms])

theorem engine_terminates_witness:
  "\<exists>r w'. engine_run (sample_engine busy_model) 20 (investigating_db, ()) = Some (r, w')"
  by (rule engine_terminates) (rule busy_respects, rule undisturbed_refl)

text \<open>
  The engine is a client of the system: whatever the model answers and the tools return, a run changes
  the database only by a history of the commands of the services, so every invariant of the system survives it.
\<close>

theorem engine_refines_system:
  assumes "en_core eng = sys_investigations sys" "outside_respects (history sys) eng"
    and "engine_run eng k w = Some (r, w')"
  shows "\<exists>cs. fst w' = run sys cs (fst w)"
  using hec.rel_engine_run [OF assms] by (simp add: history_def)

theorem engine_refines_system_witness:
  "\<exists>cs r w'. engine_run (sample_engine busy_model) 20 (investigating_db, ()) = Some (r, w') \<and>
     fst w' = run sample_system cs investigating_db"
proof -
  obtain r w' where run: "engine_run (sample_engine busy_model) 20 (investigating_db, ()) = Some (r, w')"
    using engine_run_ends [OF busy_respects [OF undisturbed_refl]] by blast
  have core: "en_core (sample_engine busy_model) = sys_investigations sample_system"
    by (simp add: sample_engine_def)
  from engine_refines_system [OF core busy_respects [OF history_refl] run] run show ?thesis by auto
qed

text \<open>
  C23. The status a run reports is the recorded one: when \<^verbatim>\<open>InvestigationEngine.run\<close> returns a status, whether
  the loop saw it or a \<^verbatim>\<open>_Stop\<close> carried it, the investigation is in that status and it is terminal.
\<close>

theorem engine_outcome_recorded:
  assumes "engine_run eng k w = Some (Inr (Some st), w')"
  shows "st \<in> set TERMINAL_INVESTIGATION_STATUSES \<and>
    (\<exists>row. get_investigation k (fst w') = Some row \<and> n_status row = st)"
  using run_outcome [OF assms] by (simp add: ended_def)

theorem engine_outcome_recorded_witness:
  "\<exists>row w'. engine_run (sample_engine (Bad_config ''no key'')) 20 (investigating_db, ()) =
       Some (Inr (Some Inv_FAILED), w') \<and>
     get_investigation 20 (fst w') = Some row \<and> n_status row = Inv_FAILED"
  using sample_engine_fails engine_outcome_recorded by blast

subsection \<open>Replay\<close>

definition recorded_as :: "step_report \<Rightarrow> investigation_step_row \<Rightarrow> bool" where
  "recorded_as r p \<longleftrightarrow> sp_kind p = sr_kind r \<and> sp_payload p = sr_payload r \<and> sp_call_id p = sr_call_id r"

definition shown_result :: "string \<times> json dict \<times> string \<times> tool_outcome \<Rightarrow> tool_result_entry" where
  "shown_result call = (case call of (tool, args, cid, out) \<Rightarrow>
     \<lparr>tr_call_id = cid, tr_content = JStr (to_observation out), tr_is_error = (\<not> to_ok out)\<rparr>)"

lemma transcript_steps_append:
  "transcript_steps st (ps @ qs) = bindE (transcript_steps st ps) (\<lambda>st'. transcript_steps st' qs)"
proof (induction ps arbitrary: st)
  case (Cons p ps)
  then show ?case by (cases "transcript_step st p") simp_all
qed simp

lemma actions_recorded: "actions_in (sr_payload (turn_step iter turn)) = Inr (mt_actions turn)"
  by (simp add: actions_in_def turn_step_def step_record_def get_or_def dget_def iter_of_def
      mapE_Inr_map [of _ action_of action_json, OF action_of_json])

lemma transcript_turn:
  assumes "recorded_as (turn_step iter turn) p"
  shows "transcript_step st p = Inr (fst (flush st) @
      [AssistantEntry (JStr (mt_text turn)) (mt_actions turn) (JObj (mt_provider_payload turn))], [], [])"
proof -
  have payload: "sp_payload p = sr_payload (turn_step iter turn)" "sp_kind p = MODEL_TURN"
    using assms by (simp_all add: recorded_as_def turn_step_def step_record_def)
  have fields: "get_or (sr_payload (turn_step iter turn)) ''text'' (JStr []) = JStr (mt_text turn)"
    "get_or (sr_payload (turn_step iter turn)) ''provider_payload'' (JObj []) = JObj (mt_provider_payload turn)"
    by (simp_all add: turn_step_def step_record_def get_or_def dget_def)
  obtain es rs ns where st: "st = (es, rs, ns)" by (cases st)
  show ?thesis
    by (simp add: transcript_step_def payload fields actions_recorded st flush_def)
qed

lemma transcript_call:
  assumes "recorded_as (tool_step iter tool args cid out) p" "cid \<noteq> []"
  shows "transcript_step (es, rs, ns) p = Inr (es, rs @ [shown_result (tool, args, cid, out)], ns)"
proof -
  have payload: "sp_payload p = sr_payload (tool_step iter tool args cid out)" "sp_kind p = TOOL_CALL"
    and call: "call_of p = Some cid"
    using assms by (auto simp: recorded_as_def tool_step_def step_record_def call_of_def split: list.splits)
  have "observation_for p = Inr (JStr (to_observation out), \<not> to_ok out)"
    by (simp add: observation_for_def payload Let_def)
      (simp add: tool_step_def step_record_def key_of_def jget_def dget_def)
  then show ?thesis
    by (simp add: transcript_step_def payload call ACTION_STEP_KINDS_def shown_result_def)
qed

lemma transcript_calls:
  assumes "list_all2 (\<lambda>(tool, args, cid, out) q. cid \<noteq> [] \<and> recorded_as (tool_step iter tool args cid out) q) calls qs"
  shows "transcript_steps (es, rs, ns) qs = Inr (es, rs @ map shown_result calls, ns)"
  using assms
proof (induction arbitrary: rs rule: list_all2_induct)
  case (Cons call calls q qs)
  obtain tool args cid out where call: "call = (tool, args, cid, out)" by (cases call)
  have "transcript_step (es, rs, ns) q = Inr (es, rs @ [shown_result call], ns)"
    using Cons(1) transcript_call [of iter tool args cid out q] by (simp add: call)
  then show ?case using Cons(3) by simp
qed simp

text \<open>
  C24. What was recorded is what the model sees again: a recorded turn, the recorded results of its tool calls
  and the budget notice after them come back from \<^verbatim>\<open>build_transcript\<close> as the turn with its text, its calls and
  its provider payload, followed by one observation with exactly those results and that notice.
\<close>

theorem recorded_turn_replayed:
  assumes "build_transcript steps = Inr entries" "recorded_as (turn_step iter turn) p"
    and "list_all2 (\<lambda>(tool, args, cid, out) q. cid \<noteq> [] \<and> recorded_as (tool_step iter tool args cid out) q) calls qs"
    and "recorded_as (step_record FEEDBACK iter' [(''text'', JStr notice), (''reason'', JStr ''budget'')]) f"
  shows "build_transcript (steps @ p # qs @ [f]) = Inr (entries @
    [AssistantEntry (JStr (mt_text turn)) (mt_actions turn) (JObj (mt_provider_payload turn)),
     ObservationEntry (map shown_result calls) [JStr notice]])"
proof -
  obtain st where st: "transcript_steps ([], [], []) steps = Inr st" "fst (flush st) = entries"
    using assms(1) by (auto simp: build_transcript_def bindE_Inr)
  have notice: "transcript_step (es, rs, ns) f = Inr (es, rs, ns @ [JStr notice])" for es rs ns
    using assms(4) by (simp add: transcript_step_def recorded_as_def step_record_def Let_def ACTION_STEP_KINDS_def
        key_of_def dget_def)
  show ?thesis
    using st
    by (simp add: build_transcript_def transcript_steps_append transcript_turn [OF assms(2)]
        transcript_calls [OF assms(3)] notice flush_def)
qed

definition row_of :: "int \<Rightarrow> step_report \<Rightarrow> investigation_step_row" where
  "row_of sequence r =
     \<lparr>sp_id = 26, sp_investigation_id = 20, sp_sequence = sequence, sp_iteration = sr_iteration r, sp_kind = sr_kind r,
      sp_call_id = sr_call_id r, sp_payload = sr_payload r, sp_latency_ms = sr_latency_ms r, sp_created_at = 0\<rparr>"

lemma recorded_row: "recorded_as r (row_of n r)"
  by (simp add: recorded_as_def row_of_def)

definition sample_turn :: "model_action list \<Rightarrow> model_turn" where
  "sample_turn actions = \<lparr>mt_text = ''t'', mt_actions = actions, mt_stop_reason = ''tool_use'', mt_usage = [],
     mt_provider_payload = [], mt_served_model = ''m'', mt_latency_ms = 1, mt_cache = []\<rparr>"

definition sample_outcome :: tool_outcome where
  "sample_outcome = \<lparr>to_ok = True, to_observation = ''o'', to_evidence_ids = [], to_new_evidence = 0,
     to_error_code = None, to_summary = None, to_latency_ms = 1\<rparr>"

theorem recorded_turn_replayed_witness:
  "build_transcript ([] @ row_of 1 (turn_step 1 (sample_turn [])) #
       [row_of 2 (tool_step 1 ''get_logs'' [] ''c1'' sample_outcome)] @
       [row_of 3 (step_record FEEDBACK 2 [(''text'', JStr ''n''), (''reason'', JStr ''budget'')])]) =
     Inr ([] @ [AssistantEntry (JStr ''t'') [] (JObj []),
       ObservationEntry [\<lparr>tr_call_id = ''c1'', tr_content = JStr ''o'', tr_is_error = False\<rparr>] [JStr ''n'']])"
proof -
  have none: "build_transcript [] = Inr []" by (simp add: build_transcript_def flush_def)
  have calls: "list_all2 (\<lambda>(tool, args, cid, out) q. cid \<noteq> [] \<and> recorded_as (tool_step 1 tool args cid out) q)
      [(''get_logs'', [], ''c1'', sample_outcome)] [row_of 2 (tool_step 1 ''get_logs'' [] ''c1'' sample_outcome)]"
    by (simp add: recorded_row)
  from recorded_turn_replayed [OF none recorded_row [of "turn_step 1 (sample_turn [])" 1] calls recorded_row]
  show ?thesis by (simp add: sample_turn_def shown_result_def sample_outcome_def)
qed

text \<open>
  C25. A resumed investigation first answers what its last turn left open. When \<^verbatim>\<open>_resolve_pending\<close> reports that
  it acted and the worker still holds the lease, the trace had calls without an answer (or a turn without a
  call and no notice), now it has none. The iteration count and the budget are what they were; the counts of tool
  calls and evidence may have grown, as answering a call counts.
\<close>

theorem resumed_calls_answered:
  assumes "outside_respects (undisturbed k (en_owner eng)) eng" "loadW eng k w = (Inr state, w1)"
    and "resolve_pending eng state w1 = (Inr True, w2)" "holds k (en_owner eng) (fst w2)"
  shows "pending (is_steps state) \<and> \<not> pending (steps_of k (fst w2)) \<and> progress_of k (fst w2) = progress_of k (fst w)"
proof -
  note l = load_Inr [OF assms(2)]
  have "is_steps state = steps_of k (fst w1)" using l(1,3) by simp
  from resolve_pending_True [OF assms(1) l(4) this assms(3)] assms(4) l(1,3) show ?thesis by simp
qed

definition resumed_db :: db where
  "resumed_db = investigating_db\<lparr>investigation_steps := [sample_step, row_of 2 (turn_step 1 (sample_turn []))]\<rparr>"

lemma record_returns:
  assumes "get_investigation k s = Some row" "n_status row = Inv_INVESTIGATING" "n_lease_owner row = Some owner"
  shows "\<exists>m s'. record_step clk k owner r lease s = Inr (m, s')"
proof -
  have "fenced k owner s = Inr (row, s)" using assms by (simp add: fenced_Inr)
  then show ?thesis by (simp add: record_step_def append_step_run)
qed

theorem resumed_calls_answered_witness:
  "\<exists>state w1 w2. loadW (sample_engine busy_model) 20 (resumed_db, ()) = (Inr state, w1) \<and>
     resolve_pending (sample_engine busy_model) state w1 = (Inr True, w2) \<and>
     pending (is_steps state) \<and> \<not> pending (steps_of 20 (fst w2))"
proof -
  let ?eng = "sample_engine busy_model" and ?turn = "row_of 2 (turn_step 1 (sample_turn []))"
  have row: "get_investigation 20 resumed_db = Some sample_investigation"
    by (simp add: get_investigation_def resumed_db_def investigating_db_def sample_investigation_def)
  have reg: "registered_evidence 0 resumed_db = [30, 31]"
    by (simp add: registered_evidence_def resumed_db_def investigating_db_def sample_evidence_def)
  have "filter (\<lambda>p. sp_investigation_id p = 20 \<and> sp_kind p \<in> {CONTEXT, TOOL_CALL}) (investigation_steps resumed_db) =
      [sample_step]" by (simp add: resumed_db_def sample_step_def row_of_def turn_step_def step_record_def)
  then have acc: "accessible_evidence sample_investigation resumed_db = Inr ([30, 31], resumed_db)"
    using reg by (simp add: accessible_evidence_def tx_run sample_investigation_def sample_payload)
  define st where "st = \<lparr>is_investigation = sample_investigation, is_steps = steps_of 20 resumed_db,
    is_hypotheses = snapshots (hypothesis_rows 20 resumed_db) resumed_db, is_accessible_evidence = [30, 31],
    is_evidence_types = evidence_types_of (n_incident_id sample_investigation) resumed_db\<rparr>"
  have ld: "loadW ?eng 20 (resumed_db, ()) = (Inr st, (resumed_db, ()))"
    using row acc
    by (simp add: loadW_def serviceW_def commandW_def run_tx_def load_state_def lock_investigation_def tx_run the_or_def
        sample_engine_def st_def)
  have steps: "steps_of 20 resumed_db = [sample_step, ?turn]"
    by (simp add: steps_of_def resumed_db_def sample_step_def row_of_def)
  have turns: "turns_of (is_steps st) = [?turn]" "steps_after ?turn (is_steps st) = []"
    by (simp_all add: st_def steps turns_of_def steps_after_def sample_step_def row_of_def turn_step_def step_record_def)
  have acts: "actions_in (sp_payload ?turn) = Inr []"
    using actions_recorded [of 1 "sample_turn []"] by (simp add: row_of_def sample_turn_def)
  obtain r where r: "resolve_pending ?eng st (resumed_db, ()) =
      thenW (recordW ?eng 20 r) (returnW True) (resumed_db, ())"
    by (simp add: resolve_pending_def turns acts Let_def bindW_app liftW_def returnW_app process_def has_actions_def
        empty_decision_def) (simp add: st_def sample_investigation_def)
  obtain m s' where "record_step sample_clock 20 ''w1'' r 60 resumed_db = Inr (m, s')"
    using record_returns [OF row, of "''w1''"] by (fastforce simp: sample_investigation_def)
  then have rec: "recordW ?eng 20 r (resumed_db, ()) = (Inr (), (s', ()))"
    by (simp add: recordW_def bindW_app serviceW_def commandW_def run_tx_def sample_engine_def returnW_app)
  then have run: "resolve_pending ?eng st (resumed_db, ()) = (Inr True, (s', ()))"
    by (simp add: r thenW_app returnW_app)
  have "holds 20 (en_owner ?eng) (fst (s', ()))" using rec by (rule recordW_Inr)
  from resumed_calls_answered [OF busy_respects [OF undisturbed_refl] ld run this] ld run show ?thesis by blast
qed

end
