(* ===== verification/Runtimes.thy ===== *)
theory Runtimes
  imports Consumer Planner Runner Verifier_Properties Engine_Properties
begin

text \<open>
  The worker processes of \<^verbatim>\<open>apps/worker\<close>: \<^verbatim>\<open>remediation_main.py\<close> plans after an investigation, executes what is approved and
  sweeps; \<^verbatim>\<open>verification_main.py\<close> polls what is due; \<^verbatim>\<open>investigation_main.py\<close> opens investigations that are due and resumes
  the ones that were left behind. Their handlers are given to consumers of the event streams.
\<close>

subsection \<open>Handlers of events\<close>

text \<open>A worker as the handler of a consumer: what it raises is what the consumer sees.\<close>

definition answer_of :: "('x \<Rightarrow> string) \<Rightarrow> ('v, 'x, 'a) worker \<Rightarrow> 'v world \<Rightarrow> handler_answer \<times> 'v world" where
  "answer_of message m w = (case m w of (Inl x, w') \<Rightarrow> (Handler_raised (message x), w') | (Inr _, w') \<Rightarrow> (Handler_returned, w'))"

fun payload_investigation_id :: "event_payload \<Rightarrow> uuid option" where
  "payload_investigation_id (InvestigationStartedPayload k _ _ _ _) = Some k"
| "payload_investigation_id (InvestigationCompletedPayload k _ _ _) = Some k"
| "payload_investigation_id (InvestigationFailedPayload k _ _ _) = Some k"
| "payload_investigation_id _ = None"

fun payload_remediation_id :: "event_payload \<Rightarrow> uuid option" where
  "payload_remediation_id (RemediationEventPayload k _ _ _ _ _ _ _ _ _) = Some k"
| "payload_remediation_id (VerificationRequestedPayload _ k _ _ _ _) = Some k"
| "payload_remediation_id (VerificationEventPayload _ _ k _ _ _ _ _ _) = Some k"
| "payload_remediation_id _ = None"

fun payload_verification_id :: "event_payload \<Rightarrow> uuid option" where
  "payload_verification_id (VerificationRequestedPayload k _ _ _ _ _) = Some k"
| "payload_verification_id (VerificationEventPayload k _ _ _ _ _ _ _ _) = Some k"
| "payload_verification_id _ = None"

subsection \<open>The remediation worker\<close>

datatype remediation_raised = Planning_failed planner_error | Running_failed runner_raised | Payload_key_error string

record 'w remediation_runtime =
  rr_runner :: "'w runner"
  rr_evidence :: "uuid \<Rightarrow> 'w world \<Rightarrow> evidence_record list \<times> 'w world"

type_synonym ('w, 'a) remediation_worker = "('w, remediation_raised, 'a) worker"

definition runningW :: "('w, 'a) runner_worker \<Rightarrow> ('w, 'a) remediation_worker" where
  "runningW m = tryW m (\<lambda>e. raiseW (Running_failed e))"

text \<open>What \<^verbatim>\<open>plan\<close> reads of \<^verbatim>\<open>get_trace\<close>: the incident and the report.\<close>

definition rca_of_trace :: "uuid \<Rightarrow> (uuid \<times> json dict option) cmd" where
  "rca_of_trace investigation_id =
     bindT (load_state investigation_id) (\<lambda>state.
     bindT (getsT (\<lambda>s. filter (\<lambda>r. rca_investigation_id r = investigation_id) (rca_reports s))) (\<lambda>rows.
     bindT (scalar_one_or_none rows) (\<lambda>rca.
       returnT (n_incident_id (is_investigation state), map_option rca_report rca))))"

definition plan_remediation :: "'w remediation_runtime \<Rightarrow> uuid \<Rightarrow> ('w, uuid option) remediation_worker" where
  "plan_remediation rr investigation_id =
     (let rn = rr_runner rr
      in bindW (runningW (coreW rn (\<lambda>_. rca_of_trace investigation_id))) (\<lambda>(incident_id, rca).
         case rca of
           None \<Rightarrow> returnW None
         | Some report \<Rightarrow>
             bindW (askW (rr_evidence rr incident_id)) (\<lambda>records.
             bindW (liftW (map_sum Planning_failed id (plan incident_id investigation_id report records)))
               (\<lambda>(proposal, why). case proposal of
                  None \<Rightarrow> returnW None
                | Some p \<Rightarrow>
                    bindW (runningW (coreW rn (\<lambda>clk. propose (rn_core rn) clk p
                             (''planner:'' @ uuid_str investigation_id) (Some incident_id))))
                      (\<lambda>v. returnW (Some (r_id (fst v))))))))"

definition execute_remediation :: "'w remediation_runtime \<Rightarrow> uuid \<Rightarrow> ('w, unit) remediation_worker" where
  "execute_remediation rr remediation_id =
     tryW (thenW (run_remediation (rr_runner rr) remediation_id) (returnW ()))
       (\<lambda>e. case e of Core_raised (RemediationStateError _) \<Rightarrow> returnW () | _ \<Rightarrow> raiseW (Running_failed e))"

definition sweep :: "'w remediation_runtime \<Rightarrow> ('w, nat) remediation_worker" where
  "sweep rr =
     (let rn = rr_runner rr
      in bindW (runningW (commandW (rn_tick rn) Core_raised (\<lambda>clk. expire_approvals (rn_core rn) clk))) (\<lambda>expired.
         bindW (runningW (commandW (rn_tick rn) Core_raised (\<lambda>clk. run_tx (getsT (pending_executions clk))))) (\<lambda>pending.
           thenW (forW pending (execute_remediation rr)) (returnW (length expired + length pending)))))"

definition remediation_handler :: "'w remediation_runtime \<Rightarrow> event_envelope \<Rightarrow> ('w, unit) remediation_worker" where
  "remediation_handler rr e =
     (if en_event_type e = InvestigationCompleted
      then (case payload_investigation_id (en_payload e) of
              None \<Rightarrow> raiseW (Payload_key_error ''investigation_id'')
            | Some k \<Rightarrow> thenW (plan_remediation rr k) (returnW ()))
      else if en_event_type e = RemediationApproved
      then (case payload_remediation_id (en_payload e) of
              None \<Rightarrow> raiseW (Payload_key_error ''remediation_id'')
            | Some k \<Rightarrow> execute_remediation rr k)
      else returnW ())"

subsection \<open>The verification worker\<close>

fun tick_each :: "'v verifier \<Rightarrow> uuid list \<Rightarrow> nat \<Rightarrow> ('v, nat) evidence_worker" where
  "tick_each vf [] ticked = returnW ticked"
| "tick_each vf (k # ks) ticked =
     bindW (tick vf k) (\<lambda>view. tick_each vf ks (if view = None then ticked else ticked + 1))"

definition DUE_LIMIT :: nat where
  "DUE_LIMIT = 50"

definition tick_due :: "'v verifier \<Rightarrow> ('v, nat) evidence_worker" where
  "tick_due vf = bindW (gatewayW (vf_evidence vf) (\<lambda>clk. getsT (due clk DUE_LIMIT))) (\<lambda>ks. tick_each vf ks 0)"

text \<open>\<open>None\<close> stands for the missing key of the payload.\<close>

definition verification_handler :: "'v verifier \<Rightarrow> event_envelope \<Rightarrow> (('v, unit) evidence_worker) option" where
  "verification_handler vf e =
     (if en_event_type e = VerificationRequested
      then map_option (\<lambda>k. thenW (start_verification vf k) (returnW ())) (payload_verification_id (en_payload e))
      else Some (returnW ()))"

subsection \<open>The investigation worker\<close>

datatype schedule_raised = Model_config_error string | Schedule_failed error

record 'w investigation_runtime =
  ir_engine :: "'w engine"
  ir_spec :: "string + string \<times> string \<times> json dict"
  ir_budget :: investigation_budget
  ir_debounce_seconds :: int

definition LIST_LIMIT :: nat where
  "LIST_LIMIT = 10"

definition scheduleW :: "'w investigation_runtime \<Rightarrow> (clock \<Rightarrow> 'a cmd) \<Rightarrow> ('w, schedule_raised, 'a) worker" where
  "scheduleW ir m = commandW (en_tick (ir_engine ir)) Schedule_failed (\<lambda>clk. run_tx (m clk))"

definition start_investigation :: "'w investigation_runtime \<Rightarrow> uuid \<Rightarrow> ('w, schedule_raised, uuid) worker" where
  "start_investigation ir incident_id =
     bindW (liftW (map_sum Model_config_error id (ir_spec ir))) (\<lambda>(provider, name, settings).
     bindW (scheduleW ir (\<lambda>clk. request_investigation clk incident_id provider name settings (ir_budget ir)))
       (\<lambda>started. returnW (si_investigation_id started)))"

fun start_each :: "'w investigation_runtime \<Rightarrow> uuid list \<Rightarrow> uuid list \<Rightarrow> ('w, schedule_raised, uuid list) worker" where
  "start_each ir [] started = returnW started"
| "start_each ir (i # is) started =
     bindW (tryW (bindW (start_investigation ir i) (\<lambda>k. returnW (started @ [k])))
              (\<lambda>e. case e of
                 Schedule_failed (InvalidIncidentTransitionError _) \<Rightarrow> returnW started
               | Schedule_failed (ConcurrentModificationError _) \<Rightarrow> returnW started
               | _ \<Rightarrow> raiseW e))
       (\<lambda>started'. start_each ir is started')"

definition schedule_due :: "'w investigation_runtime \<Rightarrow> ('w, schedule_raised, uuid list) worker" where
  "schedule_due ir =
     bindW (scheduleW ir (\<lambda>clk. getsT (due_for_investigation clk (ir_debounce_seconds ir) LIST_LIMIT)))
       (\<lambda>is. start_each ir is [])"

text \<open>A run of the engine may not end; then neither does the pass.\<close>

fun resume_each ::
  "'w engine \<Rightarrow> uuid list \<Rightarrow> nat \<Rightarrow> 'w world \<Rightarrow> ((raised + nat) \<times> 'w world) option" where
  "resume_each eng [] n w = Some (Inr n, w)"
| "resume_each eng (k # ks) n w =
     (case engine_run eng k w of
        None \<Rightarrow> None
      | Some (Inl e, w') \<Rightarrow> Some (Inl e, w')
      | Some (Inr outcome, w') \<Rightarrow> resume_each eng ks (if outcome = None then n else n + 1) w')"

definition resume_stale :: "'w investigation_runtime \<Rightarrow> 'w world \<Rightarrow> ((raised + nat) \<times> 'w world) option" where
  "resume_stale ir w =
     (case serviceW (ir_engine ir) (\<lambda>clk. getsT (resumable clk LIST_LIMIT)) w of
        (Inl e, w') \<Rightarrow> Some (Inl e, w')
      | (Inr ks, w') \<Rightarrow> resume_each (ir_engine ir) ks 0 w')"

text \<open>\<open>None\<close> on the outside stands for the missing key of the payload, on the inside for a run that does not end.\<close>

definition investigation_handler ::
  "'w investigation_runtime \<Rightarrow> event_envelope \<Rightarrow> ('w world \<Rightarrow> ((raised + unit) \<times> 'w world) option) option" where
  "investigation_handler ir e =
     (if en_event_type e \<noteq> InvestigationStarted then Some (\<lambda>w. Some (Inr (), w))
      else map_option (\<lambda>k w. map_option (map_prod (map_sum id (\<lambda>_. ())) id) (engine_run (ir_engine ir) k w))
             (payload_investigation_id (en_payload e)))"

subsection \<open>Workers as clients of the system\<close>

lemma rel_commandW_read:
  "(\<And>clk s. snd (run_tx (m clk) s) = s) \<Longrightarrow> relW (history sys) (commandW tk raised (\<lambda>clk. run_tx (m clk)))"
  by (rule hist.rel_commandW) (simp add: history_refl)

lemma reads_snd: "snd (run_tx (getsT f) s) = s"
  by (simp add: run_tx_def tx_run)

lemma rel_runningW: "relW (history sys) m \<Longrightarrow> relW (history sys) (runningW m)"
  unfolding runningW_def by (intro hist.rulesW)

lemma rca_of_trace_reads: "snd (run_tx (rca_of_trace k) s) = s"
proof (cases "rca_of_trace k s")
  case (Inr y)
  obtain x s' where y: "y = (x, s')" by (rule prod.exhaust)
  have "s' = s" using Inr unfolding y rca_of_trace_def
    by (auto dest: load_state_keeps)
  then show ?thesis using Inr by (simp add: run_tx_def y)
qed (simp add: run_tx_def)

lemma rel_plan:
  assumes "runner_respects sys (rr_runner rr)" "\<And>i w. history sys (fst w) (fst (snd (rr_evidence rr i w)))"
  shows "relW (history sys) (plan_remediation rr k)"
proof -
  have core: "sys_remediations sys = rn_core (rr_runner rr)" using assms(1) by (simp add: runner_respects_def)
  have proposing: "relW (history sys) (coreW (rr_runner rr) (\<lambda>clk. propose (rn_core (rr_runner rr)) clk p key corr))"
    for p key corr by (rule rel_coreW) (use history_exec [of sys _ _ "Propose p key corr"] core in simp)
  have trace: "relW (history sys) (coreW (rr_runner rr) (\<lambda>_. rca_of_trace k))"
    by (rule rel_coreW) (simp add: rca_of_trace_reads history_refl)
  have evidence: "relW (history sys) (askW (rr_evidence rr i))" for i
    by (rule hist.rel_askW) (use assms(2) in \<open>metis fst_conv snd_conv\<close>)
  show ?thesis unfolding plan_remediation_def Let_def by (intro hist.rulesW rel_runningW proposing trace evidence)
qed

lemma rel_execute_remediation:
  assumes "runner_respects sys (rr_runner rr)"
  shows "relW (history sys) (execute_remediation rr k)"
proof -
  have "relW (history sys) (case e of Core_raised (RemediationStateError _) \<Rightarrow> returnW ()
      | _ \<Rightarrow> raiseW (Running_failed e))" for e
    by (simp add: hist.rulesW split: runner_raised.split error.split)
  then show ?thesis unfolding execute_remediation_def by (intro hist.rulesW runner_refines_system assms)
qed

lemma rel_sweep:
  assumes "runner_respects sys (rr_runner rr)"
  shows "relW (history sys) (sweep rr)"
proof -
  have core: "sys_remediations sys = rn_core (rr_runner rr)" using assms(1) by (simp add: runner_respects_def)
  have expire: "relW (history sys) (commandW tk Core_raised (\<lambda>clk. expire_approvals (rn_core (rr_runner rr)) clk))" for tk
    by (rule hist.rel_commandW) (use history_exec [of sys _ _ Expire_approvals] core in simp)
  have pending: "relW (history sys) (commandW tk Core_raised (\<lambda>clk. run_tx (getsT (pending_executions clk))))" for tk
    by (rule rel_commandW_read) (rule reads_snd)
  show ?thesis unfolding sweep_def Let_def by (intro hist.rulesW rel_runningW expire pending rel_execute_remediation assms)
qed

lemma rel_tick_due:
  assumes "verifier_respects sys vf"
  shows "relW (history sys) (tick_due vf)"
proof -
  have "relW (history sys) (tick_each vf ks n)" for ks n
    by (induction ks arbitrary: n) (simp_all add: hist.rulesW rel_tick [OF assms])
  moreover have "relW (history sys) (gatewayW (vf_evidence vf) (\<lambda>clk. getsT (due clk DUE_LIMIT)))"
    by (rule rel_gatewayW) (simp add: reads_snd history_refl)
  ultimately show ?thesis unfolding tick_due_def by (intro hist.rulesW)
qed

lemma rel_schedule_due: "relW (history sys) (schedule_due ir)"
proof -
  have request: "relW (history sys) (scheduleW ir (\<lambda>clk. request_investigation clk i p n st (ir_budget ir)))" for i p n st
    unfolding scheduleW_def
    by (rule hist.rel_commandW) (use history_exec [of sys _ _ "Request_investigation i p n st (ir_budget ir)"] in simp)
  have start: "relW (history sys) (start_investigation ir i)" for i
    unfolding start_investigation_def by (intro hist.rulesW request)
  have skip: "relW (history sys) (case e of Schedule_failed (InvalidIncidentTransitionError _) \<Rightarrow> returnW x
      | Schedule_failed (ConcurrentModificationError _) \<Rightarrow> returnW x | _ \<Rightarrow> raiseW e)" for e x
    by (simp add: hist.rulesW split: schedule_raised.split error.split)
  have each: "relW (history sys) (start_each ir is ks)" for "is" ks
    by (induction "is" arbitrary: ks) (simp_all only: start_each.simps, (intro hist.rulesW start skip; assumption)+)
  show ?thesis unfolding schedule_due_def scheduleW_def by (intro hist.rulesW rel_commandW_read reads_snd each)
qed

lemma history_resume_each:
  assumes "en_core eng = sys_investigations sys" "outside_respects (history sys) eng"
    and "resume_each eng ks n w = Some (r, w')"
  shows "history sys (fst w) (fst w')"
  using assms(3)
proof (induction ks arbitrary: n w)
  case Nil
  then show ?case by (simp add: history_refl)
next
  case (Cons k ks)
  obtain x w1 where run: "engine_run eng k w = Some (x, w1)"
    using Cons.prems by (cases "engine_run eng k w") auto
  then have one: "history sys (fst w) (fst w1)" by (rule hec.rel_engine_run [OF assms(1,2)])
  show ?case
  proof (cases x)
    case (Inl e)
    then show ?thesis using Cons.prems run one by simp
  next
    case (Inr outcome)
    then have "history sys (fst w1) (fst w')" using Cons.prems run Cons.IH by simp
    with one show ?thesis by (rule history_trans)
  qed
qed

lemma history_resume_stale:
  assumes "en_core (ir_engine ir) = sys_investigations sys" "outside_respects (history sys) (ir_engine ir)"
    and "resume_stale ir w = Some (r, w')"
  shows "history sys (fst w) (fst w')"
proof -
  obtain x w1 where read: "serviceW (ir_engine ir) (\<lambda>clk. getsT (resumable clk LIST_LIMIT)) w = (x, w1)" by (rule prod.exhaust)
  have "relW (history sys) (serviceW (ir_engine ir) (\<lambda>clk. getsT (resumable clk LIST_LIMIT)))"
    unfolding serviceW_def by (rule rel_commandW_read) (rule reads_snd)
  then have one: "history sys (fst w) (fst w1)" using read by (rule relWD)
  show ?thesis
  proof (cases x)
    case (Inl e)
    then show ?thesis using assms(3) read one by (simp add: resume_stale_def)
  next
    case (Inr ks)
    then have "history sys (fst w1) (fst w')"
      using assms(3) read history_resume_each [OF assms(1,2)] by (simp add: resume_stale_def)
    with one show ?thesis by (rule history_trans)
  qed
qed

text \<open>
  C12. Workers decide nothing by themselves: a plan, a sweep, a round over the due verifications, a round over the due
  incidents and a round over the abandoned investigations change the database of incident-core only by a history of its
  commands, whatever executors, backends, models and tools do, as long as they do no more.
\<close>

theorem workers_refine_system:
  assumes "runner_respects sys (rr_runner rr)" and "\<And>i w. history sys (fst w) (fst (snd (rr_evidence rr i w)))"
    and "verifier_respects sys vf"
    and "en_core (ir_engine ir) = sys_investigations sys" and "outside_respects (history sys) (ir_engine ir)"
  shows "relW (history sys) (plan_remediation rr k) \<and> relW (history sys) (sweep rr) \<and> relW (history sys) (tick_due vf) \<and>
    relW (history sys) (schedule_due ir) \<and>
    (\<forall>w r w'. resume_stale ir w = Some (r, w') \<longrightarrow> history sys (fst w) (fst w'))"
  using rel_plan [OF assms(1,2)] rel_sweep [OF assms(1)] rel_tick_due [OF assms(3)] rel_schedule_due
    history_resume_stale [OF assms(4,5)] by blast

theorem workers_refine_system_witness:
  "relW (history sample_system) (sweep \<lparr>rr_runner = sample_runner, rr_evidence = \<lambda>_ w. ([], w)\<rparr>) \<and>
   relW (history sample_system) (tick_due sample_verifier)"
proof -
  let ?rr = "\<lparr>rr_runner = sample_runner, rr_evidence = \<lambda>_ w. ([], w)\<rparr>"
  let ?ir = "\<lparr>ir_engine = sample_engine busy_model, ir_spec = Inr (''p'', ''m'', []), ir_budget = default_budget,
      ir_debounce_seconds = 60\<rparr>"
  have rn: "runner_respects sample_system (rr_runner ?rr)" using sample_runner_ok(1) by simp
  have read: "history sample_system (fst w) (fst (snd (rr_evidence ?rr i w)))" for i w by (simp add: history_refl)
  have vf: "verifier_respects sample_system sample_verifier"
    by (simp add: verifier_respects_def sample_verifier_def backend_respects_def sample_evidence_service_def history_refl)
  have core: "en_core (ir_engine ?ir) = sys_investigations sample_system" by (simp add: sample_engine_def)
  have model: "outside_respects (history sample_system) (ir_engine ?ir)"
    by (simp, rule busy_respects, rule history_refl)
  from workers_refine_system [OF rn read vf core model] show ?thesis by blast
qed

subsection \<open>Every due incident is investigated\<close>

lemma create_investigation_succeeds:
  assumes row: "get_incident (i_id row) s = Some row"
    and fresh: "(i_id row, i_attempt_count row + 1) \<notin> (\<lambda>n. (n_incident_id n, n_attempt_number n)) ` set (investigations s)"
  shows "\<exists>st s'. create_investigation clk row provider name settings budget s = Inr (st, s')"
proof -
  let ?i = "i_id row"
  let ?a = "\<lambda>r. r\<lparr>i_attempt_count := i_attempt_count row + 1\<rparr>"
  let ?f = "\<lambda>r. r\<lparr>i_status := INVESTIGATING, i_version := i_version row + 1, i_updated_at := clk_now clk,
      i_closed_at := i_closed_at r\<rparr>"
  let ?n = "new_investigation_row clk ?i (i_attempt_count row + 1) provider name settings budget (next_uuid s)"
  let ?s1 = "set_incident ?i ?f (counted_attempt row s)"
  let ?s2 = "add_investigation ?n (?s1\<lparr>next_uuid := Suc (next_uuid s)\<rparr>)"
  have r1: "get_incident ?i (counted_attempt row s) = Some (?a row)"
    using row inc.get_update_same [of ?a ?i s] by (simp add: counted_attempt_def)
  have "get_incident ?i ?s1 = Some (?f (?a row))" using r1 inc.get_update_same [of ?f ?i "counted_attempt row s"] by simp
  then have r2: "get_incident ?i ?s2 = Some (?f (?a row))" by (simp add: get_incident_def add_investigation_def)
  have t: "transition_incident_status row INVESTIGATING (clk_now clk) False (counted_attempt row s) = Inr (True, ?s1)"
    using r1 by (simp add: transition_incident_status_def tx_run)
  have same: "next_uuid (counted_attempt row s) = next_uuid s" "investigations (counted_attempt row s) = investigations s"
    by (simp_all add: counted_attempt_def set_incident_def)
  have in_set: "next_uuid (set_incident k g u) = next_uuid u" "investigations (set_incident k g u) = investigations u"
    for k g u by (simp_all add: set_incident_def)
  have ev: "\<exists>s3. status_event clk ?i (i_status row) why ?s2 = Inr ((), s3)" for why
    using r2 by (simp add: status_event_def tx_run lock_incident_def the_or_def insert_outbox_event_app)
  then obtain s3 where "status_event clk ?i (i_status row) (if i_status row = TRIAGING then ''investigation_started''
      else ''reinvestigation_after_failed_verification'') ?s2 = Inr ((), s3)" by blast
  then show ?thesis
    using t same fresh unfolding create_investigation_def Let_def
    by (simp add: bindT_app modifyT_app thenT_app getsT_app guardT_app new_uuid_app returnT_app in_set
        counted_attempt_def [symmetric] insert_outbox_event_app)
qed

definition startable :: "db \<Rightarrow> uuid \<Rightarrow> bool" where
  "startable s i \<longleftrightarrow> (\<exists>row. get_incident i s = Some row \<and> i_status row \<in> {TRIAGING, VERIFICATION_FAILED}) \<and> firing_alerts i s \<noteq> []"

lemma create_alerts:
  assumes "create_investigation clk row provider name settings budget s = Inr (st, s')" "get_incident (i_id row) s = Some row"
  shows "alerts s' = alerts s"
  using create_investigation_Inr [OF assms]
  by (auto simp: insert_outbox_event_app moved_def set_incident_def with_investigation_def add_investigation_def counted_attempt_def)

lemma request_starts:
  assumes "inv_ok s" "startable s i"
  shows "\<exists>st s' c n. request_investigation clk i provider name settings budget s = Inr (st, s') \<and> inv_ok s' \<and>
     alerts s' = alerts s \<and> inc_key s' = (inc_key s)(i \<mapsto> (INVESTIGATING, c)) \<and> investigations s' = investigations s @ [n] \<and>
     n_id n = si_investigation_id st \<and> n_incident_id n = i \<and> open_investigation n"
proof -
  obtain row where row: "get_incident i s = Some row" "i_status row \<in> {TRIAGING, VERIFICATION_FAILED}"
    and firing: "firing_alerts i s \<noteq> []" using assms(2) by (auto simp: startable_def)
  have id: "i_id row = i" using inc.getD [OF row(1)] by simp
  have key: "inc_key s i = Some (i_status row, i_attempt_count row)" using row(1) by (simp add: inc_key_def)
  have keys: "keys_ok (inv_keys s) (inc_key s) (next_uuid s)" using assms(1) by (simp add: inv_ok_def)
  have "length (open_keys i (inv_keys s)) = 0" using keys key row(2) by (auto simp: keys_ok_def)
  then have none: "filter (\<lambda>n. n_incident_id n = i \<and> open_investigation n) (investigations s) = []"
    using open_rows_keys [of i s] by simp
  have "n_attempt_number n \<le> i_attempt_count row" if "n \<in> set (investigations s)" "n_incident_id n = i" for n
  proof -
    have "(n_id n, i, n_attempt_number n, final_status n) \<in> set (inv_keys s)" using that by (auto simp: inv_key_def)
    then show ?thesis using keys_okD(4) [OF keys] key by fastforce
  qed
  then have "(i_id row, i_attempt_count row + 1) \<notin> (\<lambda>n. (n_incident_id n, n_attempt_number n)) ` set (investigations s)"
    using id by fastforce
  moreover have get: "get_incident (i_id row) s = Some row" using row(1) id by simp
  ultimately obtain st s' where c: "create_investigation clk row provider name settings budget s = Inr (st, s')"
    using create_investigation_succeeds by blast
  then have run: "request_investigation clk i provider name settings budget s = Inr (st, s')"
    using row firing none by (auto simp: request_investigation_def lock_incident_def tx_run the_or_def scalar_one_or_none_def
        count_firing_alerts_def)
  obtain n where n: "investigations s' = investigations s @ [n]" "n_id n = next_uuid s" "n_status n = Inv_CREATED"
    "si_investigation_id st = next_uuid s" "inv_keys s' = inv_keys s @ [(next_uuid s, i_id row, i_attempt_count row + 1, None)]"
    "inc_key s' = (inc_key s)(i_id row \<mapsto> (INVESTIGATING, i_attempt_count row + 1))"
    using create_keys [OF c get] by blast
  have "inv_key n = (next_uuid s, i_id row, i_attempt_count row + 1, None)" using n(1,5) by simp
  then have "n_incident_id n = i" using id by (simp add: inv_key_def)
  then show ?thesis using run inv_ok_request [OF run assms(1)] create_alerts [OF c get] n id
    by (intro exI [of _ st] exI [of _ s'] exI [of _ "i_attempt_count row + 1"] exI [of _ n])
      (simp add: open_investigation_def OPEN_INVESTIGATION_def)
qed

lemma startable_iff:
  "startable s i \<longleftrightarrow> (\<exists>st c. inc_key s i = Some (st, c) \<and> st \<in> {TRIAGING, VERIFICATION_FAILED}) \<and> firing_alerts i s \<noteq> []"
  by (auto simp: startable_def inc_key_def)

lemma start_each_starts:
  assumes "ir_spec ir = Inr spec"
  shows "inv_ok s \<Longrightarrow> \<forall>i \<in> set is. startable s i \<Longrightarrow> distinct is \<Longrightarrow>
    \<exists>ks s' v'. start_each ir is started (s, v) = (Inr (started @ ks), (s', v')) \<and>
      list_all2 (\<lambda>i k. \<exists>n \<in> set (investigations s'). n_id n = k \<and> n_incident_id n = i \<and> open_investigation n) is ks \<and>
      (\<forall>i \<in> set is. \<exists>c. inc_key s' i = Some (INVESTIGATING, c)) \<and> (\<forall>i. i \<notin> set is \<longrightarrow> inc_key s' i = inc_key s i) \<and>
      set (investigations s) \<subseteq> set (investigations s')"
proof (induction "is" arbitrary: s v started)
  case Nil
  then show ?case by (simp add: returnW_app)
next
  case (Cons i "is")
  obtain p n st where spec: "spec = (p, n, st)" by (metis prod.exhaust)
  obtain clk v1 where tk: "en_tick (ir_engine ir) v = (clk, v1)" by (rule prod.exhaust)
  from Cons.prems(2) have "startable s i" by simp
  from request_starts [OF Cons.prems(1) this, of clk p n st "ir_budget ir"] obtain r s1 c row
    where run: "request_investigation clk i p n st (ir_budget ir) s = Inr (r, s1)" and ok: "inv_ok s1"
      and alerts: "alerts s1 = alerts s" and key: "inc_key s1 = (inc_key s)(i \<mapsto> (INVESTIGATING, c))"
      and rows: "investigations s1 = investigations s @ [row]" "n_id row = si_investigation_id r" "n_incident_id row = i"
        "open_investigation row" by blast
  have one: "start_investigation ir i (s, v) = (Inr (si_investigation_id r), (s1, v1))"
    using run by (simp add: start_investigation_def assms spec scheduleW_def commandW_def tk run_tx_def bindW_app returnW_app
        liftW_def)
  have "\<forall>j \<in> set is. startable s1 j"
  proof
    fix j assume j: "j \<in> set is"
    then have "j \<noteq> i" "startable s j" using Cons.prems(2,3) by auto
    then show "startable s1 j" by (simp add: startable_iff key firing_alerts_def alerts)
  qed
  from Cons.IH [OF ok this, of "started @ [si_investigation_id r]" v1] Cons.prems(3) obtain ks s' v'
    where ih: "start_each ir is (started @ [si_investigation_id r]) (s1, v1) =
        (Inr ((started @ [si_investigation_id r]) @ ks), (s', v'))"
      "list_all2 (\<lambda>i k. \<exists>n \<in> set (investigations s'). n_id n = k \<and> n_incident_id n = i \<and> open_investigation n) is ks"
      "\<forall>i \<in> set is. \<exists>c. inc_key s' i = Some (INVESTIGATING, c)" "\<forall>i. i \<notin> set is \<longrightarrow> inc_key s' i = inc_key s1 i"
      "set (investigations s1) \<subseteq> set (investigations s')" by auto
  have "row \<in> set (investigations s')" using ih(5) rows(1) by auto
  then show ?case
    using one ih rows key Cons.prems(3)
    by (intro exI [of _ "si_investigation_id r # ks"] exI [of _ s'] exI [of _ v'])
      (auto simp: bindW_app tryW_def returnW_app)
qed

lemma take_sorted_le:
  assumes "sorted (map f xs)" "x \<in> set (take n xs)" "y \<in> set xs" "y \<notin> set (take n xs)"
  shows "f x \<le> f y"
proof -
  have "y \<in> set (drop n xs)" using assms(3,4) by (metis Un_iff append_take_drop_id set_append)
  moreover have "sorted (map f (take n xs) @ map f (drop n xs))" using assms(1) by (simp flip: map_append)
  ultimately show ?thesis using assms(2) by (simp add: sorted_append)
qed

text \<open>What the state machine says is due: a specification of its own, of which the query of the source is the oldest part.\<close>

definition awaits_investigation :: "clock \<Rightarrow> int \<Rightarrow> db \<Rightarrow> incident_row \<Rightarrow> bool" where
  "awaits_investigation clk debounce_seconds s r \<longleftrightarrow> r \<in> set (incidents s) \<and>
     (i_status r = VERIFICATION_FAILED \<or> i_status r = TRIAGING \<and> i_created_at r + seconds debounce_seconds \<le> clk_now clk) \<and>
     (\<exists>a \<in> set (alerts s). a_incident_id a = Some (i_id r) \<and> a_status a = Alert_FIRING)"

definition under_investigation :: "uuid list \<Rightarrow> db \<Rightarrow> uuid \<Rightarrow> bool" where
  "under_investigation ks s i \<longleftrightarrow>
     (\<exists>row. get_incident i s = Some row \<and> i_status row = INVESTIGATING) \<and>
     (\<exists>n \<in> set (investigations s). n_id n \<in> set ks \<and> n_incident_id n = i \<and> open_investigation n)"

lemma oldest_due:
  assumes "core_inv {} s"
  obtains rows where "due_for_investigation clk d limit s = map i_id rows" and "distinct (map i_id rows)"
    and "set rows \<subseteq> Collect (awaits_investigation clk d s)"
    and "length rows = min limit (card (Collect (awaits_investigation clk d s)))"
    and "\<forall>r \<in> set rows. \<forall>r' \<in> Collect (awaits_investigation clk d s) - set rows. i_created_at r \<le> i_created_at r'"
proof
  let ?P = "\<lambda>i. (i_status i = TRIAGING \<and> i_created_at i \<le> clk_now clk - seconds d \<or> i_status i = VERIFICATION_FAILED) \<and>
      (\<exists>a \<in> set (alerts s). a_incident_id a = Some (i_id i) \<and> a_status a = Alert_FIRING)"
  let ?all = "sort_key i_created_at (filter ?P (incidents s))"
  have ids: "distinct (map i_id (incidents s))" using assms by (simp add: core_inv_def incident_ids_def)
  then have inj: "inj_on i_id (set (incidents s))" "distinct (incidents s)" by (simp_all add: distinct_map)
  have all: "set ?all = Collect (awaits_investigation clk d s)" by (auto simp: awaits_investigation_def)
  have sub: "set (take limit ?all) \<subseteq> set ?all" by (rule set_take_subset)
  show "due_for_investigation clk d limit s = map i_id (take limit ?all)" by (simp add: due_for_investigation_def)
  have "set (take limit ?all) \<subseteq> set (incidents s)" using sub by auto
  then show "distinct (map i_id (take limit ?all))"
    using inj by (auto simp: distinct_map intro: inj_on_subset distinct_take)
  show "set (take limit ?all) \<subseteq> Collect (awaits_investigation clk d s)" using sub all by simp
  have "distinct ?all" using inj(2) by simp
  then have "card (set ?all) = length ?all" by (rule distinct_card)
  then show "length (take limit ?all) = min limit (card (Collect (awaits_investigation clk d s)))" using all by simp
  show "\<forall>r \<in> set (take limit ?all). \<forall>r' \<in> Collect (awaits_investigation clk d s) - set (take limit ?all).
      i_created_at r \<le> i_created_at r'"
    unfolding all [symmetric] using take_sorted_le [OF sorted_sort_key [of i_created_at "filter ?P (incidents s)"]] by blast
qed

lemma awaits_startable:
  assumes "core_inv {} s" "awaits_investigation clk d s r"
  shows "startable s (i_id r)"
proof -
  have "distinct (map i_id (incidents s))" using assms(1) by (simp add: core_inv_def incident_ids_def)
  then have "get_incident (i_id r) s = Some r"
    using assms(2) unfolding get_incident_def by (simp add: lookup_row_distinct awaits_investigation_def)
  then show ?thesis using assms(2) by (auto simp: startable_def awaits_investigation_def firing_alerts_def filter_empty_conv)
qed

text \<open>
  C11. The scheduler serves what is due, oldest first. Due is an incident with a failed verification, or one in TRIAGING
  past its debounce window, that has a firing alert. In a database of the invariants a round of the scheduler returns, no
  request is refused, and it opens an investigation of ten of the due incidents, none of them created after one it leaves
  for a later round, and of all of them when there are no more than ten. Each of these is INVESTIGATING afterwards; every
  other incident keeps its status and its count of attempts.
\<close>

theorem due_incidents_investigated:
  assumes "core_inv {} s" and "inv_ok s" and "ir_spec ir = Inr spec" and "en_tick (ir_engine ir) v = (clk, v1)"
    and D: "D = {r. awaits_investigation clk (ir_debounce_seconds ir) s r}"
  shows "\<exists>ks s' v' served. schedule_due ir (s, v) = (Inr ks, (s', v')) \<and>
    served \<subseteq> D \<and> card served = length ks \<and> length ks = min 10 (card D) \<and> (card D \<le> 10 \<longrightarrow> served = D) \<and>
    (\<forall>r \<in> served. \<forall>r' \<in> D - served. i_created_at r \<le> i_created_at r') \<and>
    (\<forall>r \<in> served. under_investigation ks s' (i_id r)) \<and>
    (\<forall>i. i \<notin> i_id ` served \<longrightarrow> inc_key s' i = inc_key s i)"
proof -
  obtain rows where due: "due_for_investigation clk (ir_debounce_seconds ir) LIST_LIMIT s = map i_id rows"
    and ids: "distinct (map i_id rows)" and sub: "set rows \<subseteq> D" and len: "length rows = min 10 (card D)"
    and oldest: "\<forall>r \<in> set rows. \<forall>r' \<in> D - set rows. i_created_at r \<le> i_created_at r'"
    using oldest_due [OF assms(1)] unfolding D LIST_LIMIT_def by metis
  have card: "card (set rows) = length rows" using ids by (simp add: distinct_card distinct_map)
  have "finite D" by (rule finite_subset [of _ "set (incidents s)"]) (auto simp: D awaits_investigation_def)
  then have whole: "card D \<le> 10 \<longrightarrow> set rows = D" using sub card len by (simp add: card_subset_eq)
  have "\<forall>i \<in> set (map i_id rows). startable s i" using sub awaits_startable [OF assms(1)] by (auto simp: D)
  then obtain ks s' v' where r: "start_each ir (map i_id rows) [] (s, v1) = (Inr ([] @ ks), (s', v'))"
    "list_all2 (\<lambda>i k. \<exists>n \<in> set (investigations s'). n_id n = k \<and> n_incident_id n = i \<and> open_investigation n) (map i_id rows) ks"
    "\<forall>i \<in> set (map i_id rows). \<exists>c. inc_key s' i = Some (INVESTIGATING, c)"
    "\<forall>i. i \<notin> set (map i_id rows) \<longrightarrow> inc_key s' i = inc_key s i"
    using start_each_starts [OF assms(3,2) _ ids] by blast
  have "schedule_due ir (s, v) = (Inr ks, (s', v'))"
    using r(1) assms(4) due by (simp add: schedule_due_def scheduleW_def commandW_def run_tx_def tx_run bindW_app)
  moreover have "under_investigation ks s' i" if i: "i \<in> set (map i_id rows)" for i
  proof -
    obtain j where j: "j < length (map i_id rows)" "map i_id rows ! j = i" using i by (metis in_set_conv_nth)
    have "ks ! j \<in> set ks" using list_all2_lengthD [OF r(2)] j(1) by simp
    moreover have "\<exists>n \<in> set (investigations s'). n_id n = ks ! j \<and> n_incident_id n = i \<and> open_investigation n"
      using list_all2_nthD [OF r(2) j(1)] unfolding j(2) .
    moreover obtain c where "inc_key s' i = Some (INVESTIGATING, c)" using r(3) i by blast
    then have "\<exists>row. get_incident i s' = Some row \<and> i_status row = INVESTIGATING" by (auto simp: inc_key_def)
    ultimately show ?thesis unfolding under_investigation_def by metis
  qed
  moreover have "length ks = length rows" using list_all2_lengthD [OF r(2)] by simp
  ultimately show ?thesis using sub card len whole oldest r(4)
    by (intro exI [of _ ks] exI [of _ s'] exI [of _ v'] exI [of _ "set rows"]) auto
qed

definition sample_investigation_runtime :: "unit investigation_runtime" where
  "sample_investigation_runtime = \<lparr>ir_engine = sample_engine busy_model, ir_spec = Inr (''p'', ''m'', []),
     ir_budget = default_budget, ir_debounce_seconds = 0\<rparr>"

theorem due_incidents_investigated_witness:
  "\<exists>ks s' v'. schedule_due sample_investigation_runtime (sample_db TRIAGING, ()) = (Inr ks, (s', v')) \<and> length ks = 1 \<and>
     under_investigation ks s' 0"
proof -
  have dues: "{sample_incident TRIAGING} =
      {r. awaits_investigation sample_clock (ir_debounce_seconds sample_investigation_runtime) (sample_db TRIAGING) r}"
    by (auto simp: awaits_investigation_def sample_investigation_runtime_def sample_db_def sample_incident_def sample_alert_def
        sample_clock_def seconds_def)
  have ok: "inv_ok (sample_db TRIAGING)"
    by (simp add: inv_ok_def keys_ok_def reports_ok_def gapless_def lease_ok_def trace_of_def inc_key_def rca_phase_def
        get_incident_def sample_db_def empty_db_def sample_incident_def)
  have tk: "en_tick (ir_engine sample_investigation_runtime) () = (sample_clock, ())"
    by (simp add: sample_investigation_runtime_def sample_engine_def)
  have spec: "ir_spec sample_investigation_runtime = Inr (''p'', ''m'', [])" by (simp add: sample_investigation_runtime_def)
  from due_incidents_investigated [OF core_inv_sample_db ok spec tk dues] show ?thesis
    by (fastforce simp: sample_incident_def)
qed

subsection \<open>Every abandoned investigation is resumed\<close>

text \<open>A round over the abandoned investigations ends when every run does.\<close>

lemma resume_each_ends:
  assumes "\<And>k. outside_respects (undisturbed k (en_owner eng)) eng"
  shows "\<exists>r w'. resume_each eng ks n w = Some (r, w')"
proof (induction ks arbitrary: n w)
  case (Cons k ks)
  obtain x w1 where run: "engine_run eng k w = Some (x, w1)" using engine_run_ends [OF assms] by blast
  then show ?case using Cons.IH by (cases x) simp_all
qed simp

lemma resume_stale_ends:
  assumes "\<And>k. outside_respects (undisturbed k (en_owner (ir_engine ir))) (ir_engine ir)"
  shows "\<exists>r w'. resume_stale ir w = Some (r, w')"
  using resume_each_ends [OF assms] by (auto simp: resume_stale_def split: prod.split sum.split)

end
