(* ===== verification/Spec2Isabelle.thy ===== *)
theory Spec2Isabelle
  imports Verification_Properties Toolset Relay Runtimes
begin

text \<open>
  A verification development of the deterministic core of an incident-response platform: the service that
  turns alerts into incidents, the commands that run an investigation and accept its conclusion, the
  commands that propose, approve, execute and verify remediations, and the rules they decide by.

  \<^bold>\<open>The program.\<close> Alerts arrive as commands at \<^verbatim>\<open>packages/incident/service.py\<close>, which deduplicates them,
  correlates them with open incidents (\<^verbatim>\<open>packages/domain/correlation_engine.py\<close>) and records everything
  with an outbox event in one transaction. \<^verbatim>\<open>packages/incident/investigations.py\<close> opens an investigation of
  a triaged incident, leases it to a worker, records its trace, applies the hypothesis updates of a
  language model and accepts or refuses its conclusion by the rules of
  \<^verbatim>\<open>packages/domain/investigation.py\<close>. A remediation is then proposed from the catalog
  (\<^verbatim>\<open>packages/remediation/catalog.py\<close>); \<^verbatim>\<open>packages/incident/remediations.py\<close> evaluates the policy
  (\<^verbatim>\<open>packages/policy/engine.py\<close>), asks a human, leases the execution to a worker and requests a
  verification; \<^verbatim>\<open>packages/incident/verifications.py\<close> collects observations and closes, re-opens or
  escalates the incident by the verdict of \<^verbatim>\<open>packages/domain/verification.py\<close>. All of them work on the tables
  of \<^verbatim>\<open>packages/incident/db/models.py\<close>, most through \<^verbatim>\<open>packages/incident/repository.py\<close>.

  \<^bold>\<open>The theories.\<close>
  \<^item> \<open>Prelude\<close>: transactions as functions from a state to an error or a value and a new state, the rules for
    frames (\<open>keepsT\<close>), invariants (\<open>invT\<close>) and step relations (\<open>relT\<close>, locale \<open>tx_relation\<close>), list lemmas.
  \<^item> \<open>Py_Float\<close>, \<open>Py_Base\<close>, \<open>Py_Hash\<close>, \<open>Py_Time\<close>: the parts of Python's standard library the source uses:
    binary64 arithmetic by rounding rationals, JSON values and their text, SHA-256, dates as microseconds.
  \<^item> \<open>Domain\<close>, \<open>Correlation_Engine\<close>, \<open>Catalog\<close>, \<open>Policy\<close>, \<open>Verification_Domain\<close>, \<open>Investigation_Domain\<close>: the pure modules of
    \<^verbatim>\<open>packages/domain\<close>, \<^verbatim>\<open>packages/remediation/catalog.py\<close> and \<^verbatim>\<open>packages/policy/engine.py\<close>.
  \<^item> \<open>Database\<close>, \<open>Repository\<close>: one record per table, the database as a record of tables, one operation per
    statement. A transaction that raises leaves the database as it was; \<open>run_tx\<close> commits or rolls back.
  \<^item> \<open>Incident_Service\<close>, with \<open>Incident_Invariant\<close>, \<open>Incident_Status\<close> and \<open>Incident_Properties\<close>: the alert
    commands, the invariant \<open>core_inv\<close> of the incident tables, and that handling an alert always returns,
    is idempotent and moves only TRIAGING incidents.
  \<^item> \<open>Remediations\<close> and \<open>Verifications\<close>: the commands of the two services, every branch and event.
  \<^item> \<open>Investigations\<close>: the commands of the investigation service; a command that commits twice (\<open>claim_investigation\<close>)
    is a sequence of two transactions. \<open>Investigation_Steps\<close>: the interface of these commands as the locale
    \<open>investigation_moves\<close>, which a relation on databases interprets once for all of them; \<open>investigation_edge_moves\<close> is its
    part for any set of status changes.
  \<^item> \<open>Command_Steps\<close>, \<open>Incident_Moves\<close>: what those commands do to incidents, as locales
    (\<open>remediation_moves\<close>, \<open>verification_moves\<close>, \<open>alert_steps\<close>) that a relation on databases interprets once
    to hold across every command.
  \<^item> \<open>Remediation_Invariant\<close>: the invariant \<open>rem_ok\<close> that ties executions to approvals and approvals to
    proposals, decisions and roles, and that every command keeps it.
  \<^item> \<open>Investigation_Invariant\<close>, \<open>Investigation_Work\<close>, \<open>Hypotheses\<close>: the invariants \<open>inv_ok\<close> (investigations, their
    incidents, traces and reports) and \<open>hyps_ok\<close> (hypotheses and their evidence), and that the investigation
    commands keep them.
  \<^item> \<open>System\<close>: all commands as one data type, histories as lists of clock readings and commands (\<open>run\<close>), and
    the locales \<open>command_steps\<close> and \<open>system_steps\<close> that lift a relation to histories. \<open>command_edges\<close> are the status
    changes each command may make of an incident, as the tables of \<^verbatim>\<open>docs/architecture/04-incident-state-machine.md\<close> list
    them; \<open>exec_edges\<close> shows that it makes no others, the withdrawal of an approved proposal apart, which they do not list.
  \<^item> \<open>Remediation_Properties\<close>, \<open>Kill_Switch\<close>, \<open>Verification_Properties\<close>, \<open>Investigation_Properties\<close> and this
    theory: the properties of histories.
  \<^item> \<open>Workers\<close>: processes around the services. The world of a worker is the database and the state of its
    outside; a command commits before the next one starts and an exception keeps what was committed. The
    locale \<open>worker_relation\<close> carries a relation on databases across a worker.
  \<^item> \<open>Transcript\<close>, \<open>Engine\<close>: the investigation engine \<^verbatim>\<open>packages/agents/engine.py\<close> with the types of
    \<^verbatim>\<open>packages/agents/model.py\<close>: the trace as a conversation, budgets, model attempts, tool calls, resuming and
    the loop, as a \<open>while_option\<close>. \<open>Engine_Moves\<close>: what a run does to the database (locale \<open>engine_commands\<close>);
    \<open>Engine_Progress\<close>: why it ends; \<open>Engine_Properties\<close>: its properties.
  \<^item> \<open>Evidence_Domain\<close>, \<open>Evidence_Service\<close>, \<open>Evidence_Properties\<close>: \<^verbatim>\<open>packages/evidence\<close>: types and limits, content
    hashes, the scope of an incident, the one path of every query (scope, backend, record, registration), the
    audit of a record; that queries stay in scope and what is returned is on record.
  \<^item> \<open>Planner\<close>: \<^verbatim>\<open>packages/remediation/planner.py\<close>, from a root-cause report to a proposal, with \<open>grounded\<close> as the
    specification of the plans there are.
  \<^item> \<open>Executor\<close>: \<^verbatim>\<open>packages/remediation/executor.py\<close>, the actions on the simulated environment, one record field
    per Redis key pattern; that a request acts once and only on its target. \<open>Runner\<close>:
    \<^verbatim>\<open>packages/remediation/runner.py\<close>, the worker between the commands and an executor, with a log of the requests.
  \<^item> \<open>Verifier\<close>, \<open>Verifier_Properties\<close>: \<^verbatim>\<open>packages/verification\<close>: the observer, a client of the evidence service; the poll
    of one verification under its lease; the baseline before an action. A verification passes on recorded evidence only,
    and a baseline is recorded from a whole observation only. Locale \<open>collecting\<close>: what the steps of an observation keep.
  \<^item> \<open>Tools\<close>, \<open>Toolset\<close>: \<^verbatim>\<open>packages/tools\<close> and \<^verbatim>\<open>packages/agents/toolset.py\<close>: the query behind each tool, budgets and retries,
    the shortening of results and what the model sees of a call.
  \<^item> \<open>Streams\<close>, \<open>Relay\<close>, \<open>Consumer\<close>: \<^verbatim>\<open>packages/events\<close> with \<^verbatim>\<open>apps/worker/main.py\<close> and \<^verbatim>\<open>consumer_main.py\<close>: the streams and the
    shard of an event, a pass of the outbox relay, and the consumer of a stream, proved with triples (\<open>triple\<close>) over its
    notes: what is acknowledged was recorded, and a handler succeeds once for an event.
  \<^item> \<open>Runtimes\<close>: the rounds of \<^verbatim>\<open>apps/worker/remediation_main.py\<close>, \<^verbatim>\<open>verification_main.py\<close> and \<^verbatim>\<open>investigation_main.py\<close> and
    their handlers, composed of the planner, the runner, the verifier and the engine.

  \<^bold>\<open>Concurrency.\<close> The source locks the rows a command reads (\<^verbatim>\<open>SELECT ... FOR UPDATE\<close>) before it decides,
  so committed commands are serialised; a history here is such a serial order, arbitrary in length and
  content, with the clock of every command arbitrary too. Commands that commit more than once
  (\<^verbatim>\<open>revise\<close>, \<^verbatim>\<open>expire_approvals\<close>) are modelled as sequences of transactions. Workers (the engine, the evidence
  service, the runner, the verifier) issue one command at a time, and whatever they ask of the outside may change the database meanwhile
  by commands of others.

  \<^bold>\<open>Bounds.\<close> The runner's loop over claims, the polls of the verifier and the attempts of a tool call have the bounds
  of the source. The consumer's loop over the cursors of Redis takes a number of rounds: its properties hold for every number,
  and \<open>reclaim_ends\<close> says when a number is enough. The loop of the investigation engine has no bound of its own: its model may
  return \<open>None\<close>, for a run that never ends, and a run is proved to return. The one bounded loop of the services, the retries of
  \<^verbatim>\<open>handle_alert_received\<close> when two deliveries race (\<open>MAX_IDEMPOTENCY_RACE_RETRIES\<close>), has the bound of the
  source, and the handler is proved never to exhaust it in a serial history.

  \<^bold>\<open>Parameters.\<close> Pydantic's \<^verbatim>\<open>model_validate\<close> and \<^verbatim>\<open>model_json_schema\<close> on the catalog's parameter classes
  and the service topology are fields of \<open>remediation_core\<close>; the facts used of the validator are named
  (\<open>validates\<close>) and hold of the instance \<open>sample_validate\<close>. Pydantic's validation of the model's tool
  arguments is the record \<open>turn_validators\<close>, and its JSON form of a timestamp the field \<open>nc_dump_datetime\<close> of
  \<open>investigation_core\<close>. Reading an evidence id back from a trace accepts exactly the canonical text of a
  UUID, the only form the service writes. Identifiers are drawn from a counter, which
  stands for the freshness of \<^verbatim>\<open>uuid4\<close>. What the engine's constructor receives from outside (the model, the
  tools, the context builder with the service topology, the prompt, the clock and the pause between
  attempts) is the record \<open>engine\<close>; what is assumed of it is that it respects a relation on the database
  (\<open>outside_respects\<close>), for termination that nobody changes an investigation under a lease it still holds. The
  evidence adapters are the function \<open>ev_backend\<close> from a checked query to an observation or an error, the executor and the
  baseline capture of the runner are fields of the record \<open>runner\<close>, and \<open>sample_runner\<close> is the one on the simulated
  environment; of all of them it is assumed that what happens meanwhile is a history of commands. The verification
  worker's clients are the fields of the record \<open>verifier\<close>; for its evidence it is assumed that a backend, while asked, adds
  to the evidence on record and takes none away (\<open>backend_appends\<close>), and writes no baseline (\<open>backend_leaves_baselines\<close>). Pydantic's validation of the arguments of a tool and the
  pause between attempts are fields of \<open>toolbox\<close> and \<open>toolset\<close>. The commands of Redis are the fields of the record \<open>redis\<close> and answer or
  raise freely; of them and of the handler it is assumed that they take nothing out of the ledger (\<open>consumer_respects\<close>), of the
  publisher that it only appends to the outbox (\<open>relay_appends\<close>), as commands do (\<open>history_appends\<close>). Parsing and printing an
  event as JSON are parameters too.

  \<^bold>\<open>Not modelled.\<close> The adapters of the language model providers and the evidence adapters, which are network clients;
  the HTTP routes, the endless loops of the workers and what they read from the environment; the documents and schemas the
  tools and the context show the model; read-only reporting queries; metrics; the demo simulator, the evaluation harness and
  the schema migrations.
\<close>

section \<open>Properties that span the components\<close>

text \<open>
  C1. Nothing is executed without a human. In every history of commands from a database that satisfies
  the invariant, each recorded execution belongs to a remediation that has an approval; the approval is
  bound to the exact proposal and policy decision of that remediation, was given in a role that the
  decision requires and not by the operator who proposed it, and the attempt is within the limit of the
  catalog entry.
\<close>

theorem executions_only_with_approval:
  assumes "well_configured sys" and "sys_inv s" and "x \<in> set (executions (run sys cs s))"
  shows "\<exists>r a d role e. r \<in> set (remediations (run sys cs s)) \<and> r_id r = x_remediation_id x \<and>
    a \<in> set (approvals (run sys cs s)) \<and> ap_remediation_id a = r_id r \<and> ap_decision a = Approved \<and>
    ap_proposal_hash a = r_proposal_hash r \<and> r_policy_decision_id r = Some (ap_policy_decision_id a) \<and>
    get_decision (ap_policy_decision_id a) (run sys cs s) = Some d \<and>
    ap_approver_role a = Some role \<and> role \<in> set (d_required_approver_roles d) \<and>
    \<not> (r_source r = ''operator'' \<and> r_proposed_by r = ap_approver a) \<and>
    get_entry (r_action_id r) = Some e \<and> 1 \<le> x_attempt_number x \<and> x_attempt_number x \<le> ac_max_attempts e"
proof -
  let ?s = "run sys cs s"
  have ok: "rem_ok ?s" using run_sys_inv [OF assms(1,2)] by (simp add: sys_inv_def)
  then have x: "execution_ok (remediations ?s) (approvals ?s) x" using assms(3) by (simp add: rem_ok_def)
  then obtain a where a: "a \<in> set (approvals ?s)" "ap_remediation_id a = x_remediation_id x"
    "ap_decision a = Approved" by (auto simp: execution_ok_def approved_def)
  obtain r where r: "r \<in> set (remediations ?s)" "bound_to a r" using ok a(1) by (auto simp: rem_ok_def)
  obtain r' where r': "r' \<in> set (remediations ?s)" "r_id r' = x_remediation_id x" "1 \<le> x_attempt_number x"
    "x_attempt_number x \<le> r_execution_attempts r'" using x by (auto simp: execution_ok_def)
  have id: "r_id r = x_remediation_id x" using r(2) a(2) by (simp add: bound_to_def)
  have "distinct (map r_id (remediations ?s))" using ok by (simp add: rem_ok_def)
  then have "r' = r" using id r(1) r'(1,2) by (simp add: eq_key_imp_eq_value inj_on_def distinct_map)
  then obtain e where e: "get_entry (r_action_id r) = Some e" "x_attempt_number x \<le> ac_max_attempts e"
    using ok r(1) r'(3,4) by (fastforce simp: rem_ok_def row_ok_def)
  obtain d role where "get_decision (ap_policy_decision_id a) ?s = Some d" "ap_approver_role a = Some role"
    "role \<in> set (d_required_approver_roles d)"
    using ok a(1,3) by (auto simp: rem_ok_def authorised_def get_decision_def)
  then show ?thesis
    using r a e r'(3) id by (intro exI [of _ r] exI [of _ a] exI [of _ d] exI [of _ role] exI [of _ e])
      (auto simp: bound_to_def)
qed

theorem executions_only_with_approval_witness:
  "\<exists>a. a \<in> set (approvals (run sample_system
        [(sample_clock, Set_kill_switch ''global'' True ''ops'' None)] executing_db)) \<and>
     ap_remediation_id a = 2 \<and> ap_decision a = Approved"
proof -
  have "sample_execution X_RUNNING \<in> set (executions (run sample_system
      [(sample_clock, Set_kill_switch ''global'' True ''ops'' None)] executing_db))"
    by (simp add: run_tx_snd set_kill_switch_def GLOBAL_SCOPE_def tx_run insert_outbox_event_app
        get_kill_switch_def table_defs sample_defs)
  from executions_only_with_approval [OF sample_system_configured sample_inv(3) this]
  show ?thesis by (auto simp: sample_execution_def)
qed



text \<open>
  C8. No silent status change: when a history of commands has changed the status of an incident, the
  outbox has only grown, and among the new events is an IncidentStatusChanged of that incident that
  carries the status it has now.
\<close>

theorem status_changes_announced:
  assumes "well_configured sys" and "core_inv {} s" and "get_incident i s = Some row"
    and "get_incident i (run sys cs s) = Some row'" and "i_status row' \<noteq> i_status row"
  shows "\<exists>es e. outbox (run sys cs s) = outbox s @ es \<and> e \<in> set es \<and> announces i (i_status row') e"
  using san.run_step [OF assms(1,2), of cs] assms(3-5)
  by (fastforce simp: announced_def)

theorem status_changes_announced_witness:
  "\<exists>es e. outbox (run sample_system [(sample_clock, Cancel 2 ''ops'' ''x'')] waiting_db) = outbox waiting_db @ es \<and>
     e \<in> set es \<and> announces 0 RCA_READY e"
proof -
  let ?s = "run sample_system [(sample_clock, Cancel 2 ''ops'' ''x'')] waiting_db"
  have row: "get_incident 0 waiting_db = Some (sample_incident AWAITING_APPROVAL)"
    by (simp add: get_incident_def sample_defs)
  obtain row' where row': "get_incident 0 ?s = Some row'" "i_status row' = RCA_READY"
    by (simp add: run_tx_snd cancel_def finish_cancelled_def transition_def add_timeline_def
        remediation_event_def lock_def view_def tx_run the_or_def insert_outbox_event_app can_transition_def
        move_incident_def lock_incident_def transition_incident_status_def get_remediation_def
        get_incident_def get_decision_def table_defs sample_defs)
  show ?thesis
    using status_changes_announced [OF sample_system_configured _ row row'(1)] row'(2) sample_inv(1)
    by (auto simp: sys_inv_def sample_incident_def)
qed

text \<open>
  C10. What was approved is what runs: no command changes the action, the parameters, the target, the
  hash or the origin of a remediation; its status only moves along the allowed transitions, so a
  terminal status is final; approvals and policy decisions are only ever appended, and an execution
  keeps its attempt number and idempotency key.
\<close>

theorem remediation_records_immutable:
  assumes "well_configured sys" and "sys_inv s" and "get_remediation k s = Some r"
  shows "\<exists>r'. get_remediation k (run sys cs s) = Some r' \<and> rem_ident r' = rem_ident r \<and>
    (r_status r, r_status r') \<in> {(from, to). can_transition from to}\<^sup>* \<and>
    (r_status r \<in> set TERMINAL_REMEDIATION_STATUSES \<longrightarrow> r_status r' = r_status r) \<and>
    prefix (approvals s) (approvals (run sys cs s)) \<and>
    prefix (policy_decisions s) (policy_decisions (run sys cs s)) \<and>
    prefix (map exec_ident (executions s)) (map exec_ident (executions (run sys cs s)))"
proof -
  have rel: "rem_rel s (run sys cs s)"
    using srm.run_step [OF assms(1), of s cs] assms(2) by (simp add: sys_inv_def rem_step_def)
  then obtain r' where r': "get_remediation k (run sys cs s) = Some r'" "rem_ident r' = rem_ident r"
    "(r_status r, r_status r') \<in> {(from, to). can_transition from to}\<^sup>*"
    using assms(3) unfolding rem_rel_def transitions_def by blast
  have "r_status r' = r_status r" if "r_status r \<in> set TERMINAL_REMEDIATION_STATUSES"
    using that r'(3) terminal_no_transition [OF that] by (auto elim: converse_rtranclE)
  with r' rel show ?thesis unfolding rem_rel_def by blast
qed

theorem remediation_records_immutable_witness:
  "\<exists>r'. get_remediation 2 (run sample_system [(sample_clock, Claim_execution 2 ''w1'' 120)] approved_db) = Some r' \<and>
     r_parameters r' = [(''service'', JStr ''api'')] \<and> r_proposal_hash r' = ''h''"
proof -
  have "get_remediation 2 approved_db = Some (sample_remediation R_APPROVED 0)"
    by (simp add: get_remediation_def sample_defs)
  from remediation_records_immutable [OF sample_system_configured sample_inv(2) this,
      of "[(sample_clock, Claim_execution 2 ''w1'' 120)]"]
  show ?thesis by (auto simp: rem_ident_def sample_remediation_def)
qed

text \<open>
  C27. After any history of commands on an empty database, an alert is accepted: no state that the
  remediation or verification commands leave behind makes the alert handler fail.
\<close>

theorem alerts_always_accepted:
  assumes "well_configured sys"
  shows "\<exists>r s'. handle_alert_received (sys_incidents sys) clk c (run sys cs empty_db) = Inr (r, s')"
  using handle_returns [of "run sys cs empty_db" "sys_incidents sys" clk c]
    run_core_inv [OF assms core_inv_empty] assms
  by (simp add: well_configured_def)

theorem alerts_always_accepted_witness:
  "\<exists>r s'. handle_alert_received default_incident_core sample_clock (sample_command Alert_FIRING)
     (run sample_system [(sample_clock, Set_kill_switch ''global'' True ''ops'' None)] empty_db) = Inr (r, s')"
  using alerts_always_accepted [OF sample_system_configured, of sample_clock "sample_command Alert_FIRING"
      "[(sample_clock, Set_kill_switch ''global'' True ''ops'' None)]"]
  by (simp add: sample_system_def del: run.simps)

end
